(* ===== verification/Go_Prelude.thy ===== *)
theory Go_Prelude
  imports Main "HOL-Library.Word" "HOL-Library.Sublist"
begin

text \<open>
  The shared layer of the development: the parts of the Go language and of its standard
  library that the toolhive-core packages use, and the generic lemmas on them.

  A Go string is a sequence of bytes, so it is a \<^typ>\<open>string\<close> (a list of 8-bit characters) here
  and \<open>length\<close> is Go's \<open>len\<close>. The library functions are modelled on bytes, the multi-byte encodings
  of Unicode white space and of the two non-ASCII letters that fold to ASCII included.
  A Go error result is a sum, \<open>Inl\<close> for the error. Go's \<open>int\<close> and \<open>int64\<close> are \<^typ>\<open>int\<close> with the
  wrap-around of 64-bit arithmetic written out (\<open>wrap64\<close>) where a sum can leave the range.

  The collections \<open>go_simps\<close> (evaluation of the library functions) and \<open>res_dest\<close>
  (inversion of fallible results) are used by the component theories.
\<close>

named_theorems go_simps \<open>unfolding rules for the modelled standard library functions\<close>
named_theorems res_dest \<open>inversion rules for results of fallible operations\<close>

section \<open>Results\<close>

type_synonym ('e, 'a) result = "'e + 'a"

definition is_ok :: "('e, 'a) result \<Rightarrow> bool" where
  "is_ok r = (case r of Inl _ \<Rightarrow> False | Inr _ \<Rightarrow> True)"

lemma is_ok_simps [simp]: "is_ok (Inr x)" "\<not> is_ok (Inl e)"
  by (simp_all add: is_ok_def)

lemma is_ok_iff: "is_ok r \<longleftrightarrow> (\<exists>x. r = Inr x)"
  by (cases r) auto

definition bindE :: "('e, 'a) result \<Rightarrow> ('a \<Rightarrow> ('e, 'b) result) \<Rightarrow> ('e, 'b) result" where
  "bindE m f = (case m of Inl e \<Rightarrow> Inl e | Inr x \<Rightarrow> f x)"

lemma bindE_simps [simp]: "bindE (Inl e) f = Inl e" "bindE (Inr x) f = f x"
  by (simp_all add: bindE_def)

lemma bindE_eq_Inr [res_dest]: "bindE m f = Inr y \<longleftrightarrow> (\<exists>x. m = Inr x \<and> f x = Inr y)"
  by (cases m) auto

lemma bindE_eq_Inl [res_dest]:
  "bindE m f = Inl e \<longleftrightarrow> m = Inl e \<or> (\<exists>x. m = Inr x \<and> f x = Inl e)"
  by (cases m) auto

lemma bindE_assoc: "bindE (bindE m f) g = bindE m (\<lambda>x. bindE (f x) g)"
  by (cases m) auto

definition map_err :: "('e \<Rightarrow> 'f) \<Rightarrow> ('e, 'a) result \<Rightarrow> ('f, 'a) result" where
  "map_err h r = (case r of Inl e \<Rightarrow> Inl (h e) | Inr x \<Rightarrow> Inr x)"

lemma map_err_simps [simp]: "map_err h (Inl e) = Inl (h e)" "map_err h (Inr x) = Inr x"
  by (simp_all add: map_err_def)

lemma map_err_eq_Inr [simp]: "map_err h r = Inr x \<longleftrightarrow> r = Inr x"
  by (cases r) auto

section \<open>Machine integers\<close>

text \<open>Two's complement wrap-around of an int64 sum.\<close>

definition wrap64 :: "int \<Rightarrow> int" where
  "wrap64 n = (n + 2 ^ 63) mod 2 ^ 64 - 2 ^ 63"

definition max_int64 :: int where
  "max_int64 = 2 ^ 63 - 1"

definition is_int64 :: "int \<Rightarrow> bool" where
  "is_int64 n \<longleftrightarrow> - (2 ^ 63) \<le> n \<and> n \<le> max_int64"

lemma wrap64_id: "is_int64 n \<Longrightarrow> wrap64 n = n"
  by (simp add: wrap64_def is_int64_def max_int64_def)

lemma wrap64_range: "is_int64 (wrap64 n)"
proof -
  have "0 \<le> (n + 2 ^ 63) mod 2 ^ 64" "(n + 2 ^ 63) mod 2 ^ 64 < 2 ^ 64"
    by simp_all
  then show ?thesis by (simp add: wrap64_def is_int64_def max_int64_def)
qed

lemma wrap64_overflow: "wrap64 (max_int64 + 1) = - (2 ^ 63)"
  by (simp add: wrap64_def max_int64_def)

section \<open>Bytes and strings\<close>

abbreviation ord :: "char \<Rightarrow> nat" where
  "ord c \<equiv> of_char c"

abbreviation has_prefix :: "'a list \<Rightarrow> 'a list \<Rightarrow> bool" where
  "has_prefix s p \<equiv> prefix p s"

abbreviation has_suffix :: "'a list \<Rightarrow> 'a list \<Rightarrow> bool" where
  "has_suffix s p \<equiv> suffix p s"

abbreviation str_contains :: "'a list \<Rightarrow> 'a list \<Rightarrow> bool" where
  "str_contains s sub \<equiv> sublist sub s"

definition trim_suffix :: "'a list \<Rightarrow> 'a list \<Rightarrow> 'a list" where
  "trim_suffix s p = (if has_suffix s p then take (length s - length p) s else s)"

lemmas sublist_eval = sublist_Cons_right

lemma sublist_single [simp]: "sublist [c] s \<longleftrightarrow> c \<in> set s"
  by (auto simp: sublist_def in_set_conv_decomp)

lemma find_SomeD: "find P xs = Some y \<Longrightarrow> y \<in> set xs \<and> P y"
  by (auto simp: find_Some_iff)

text \<open>\<open>strings.IndexByte\<close> and \<open>strings.LastIndexByte\<close>; \<open>None\<close> is Go's -1.\<close>

fun index_byte :: "'a \<Rightarrow> 'a list \<Rightarrow> nat option" where
  "index_byte c [] = None"
| "index_byte c (x # xs) = (if x = c then Some 0 else map_option Suc (index_byte c xs))"

fun last_index_byte :: "'a \<Rightarrow> 'a list \<Rightarrow> nat option" where
  "last_index_byte c [] = None"
| "last_index_byte c (x # xs) =
     (case last_index_byte c xs of
        Some i \<Rightarrow> Some (Suc i)
      | None \<Rightarrow> (if x = c then Some 0 else None))"

lemma index_byte_None [simp]: "index_byte c s = None \<longleftrightarrow> c \<notin> set s"
  by (induction s) auto

lemma index_byte_SomeD:
  "index_byte c s = Some i \<Longrightarrow> i < length s \<and> s ! i = c \<and> c \<notin> set (take i s)"
  by (induction s arbitrary: i) (auto split: if_splits)

lemma last_index_byte_None [simp]: "last_index_byte c s = None \<longleftrightarrow> c \<notin> set s"
  by (induction s) (auto split: option.splits)

lemma last_index_byte_SomeD:
  "last_index_byte c s = Some i \<Longrightarrow> i < length s \<and> s ! i = c \<and> c \<notin> set (drop (Suc i) s)"
proof (induction s arbitrary: i)
  case Nil
  then show ?case by simp
next
  case (Cons x xs)
  then show ?case by (cases "last_index_byte c xs") (auto split: if_splits)
qed

text \<open>\<open>strings.Split\<close> with a one-byte separator, and \<open>strings.Join\<close>.\<close>

fun split_on :: "'a \<Rightarrow> 'a list \<Rightarrow> 'a list list" where
  "split_on c [] = [[]]"
| "split_on c (x # xs) =
     (if x = c then [] # split_on c xs
      else (x # hd (split_on c xs)) # tl (split_on c xs))"

fun join_with :: "'a list \<Rightarrow> 'a list list \<Rightarrow> 'a list" where
  "join_with sep [] = []"
| "join_with sep [x] = x"
| "join_with sep (x # y # zs) = x @ sep @ join_with sep (y # zs)"

lemma split_on_not_Nil [simp]: "split_on c s \<noteq> []"
  by (cases s) auto

lemma join_with_Cons: "zs \<noteq> [] \<Longrightarrow> join_with sep (x # zs) = x @ sep @ join_with sep zs"
  by (cases zs) auto

lemma join_split [simp]: "join_with [c] (split_on c s) = s"
proof (induction s)
  case Nil
  then show ?case by simp
next
  case (Cons x xs)
  obtain h t where ht: "split_on c xs = h # t"
    by (cases "split_on c xs") auto
  with Cons.IH show ?case by (cases t) (auto simp: ht)
qed

lemma split_on_pieces: "p \<in> set (split_on c s) \<Longrightarrow> c \<notin> set p"
proof (induction s arbitrary: p)
  case Nil
  then show ?case by simp
next
  case (Cons x xs)
  obtain h t where ht: "split_on c xs = h # t"
    by (cases "split_on c xs") auto
  with Cons show ?case by (auto split: if_splits)
qed

lemma split_on_no_sep: "c \<notin> set s \<Longrightarrow> split_on c s = [s]"
  by (induction s) auto

lemma split_on_append:
  "c \<notin> set p \<Longrightarrow> split_on c (p @ c # s) = p # split_on c s"
  by (induction p) auto

lemma split_join:
  assumes "ps \<noteq> []" "\<forall>p\<in>set ps. c \<notin> set p"
  shows "split_on c (join_with [c] ps) = ps"
  using assms
proof (induction ps rule: list_nonempty_induct)
  case (single x)
  then show ?case by (simp add: split_on_no_sep)
next
  case (cons x xs)
  then show ?case by (simp add: join_with_Cons split_on_append)
qed

lemma length_split_on: "length (split_on c s) = Suc (count_list s c)"
  by (induction s) auto

text \<open>\<open>strings.Cut\<close> and \<open>strings.SplitN(s, sep, 2)\<close>: the text before and after the first separator.\<close>

fun cut_at :: "'a list \<Rightarrow> 'a list \<Rightarrow> ('a list \<times> 'a list) option" where
  "cut_at sep [] = (if sep = [] then Some ([], []) else None)"
| "cut_at sep (x # xs) =
     (if prefix sep (x # xs) then Some ([], drop (length sep) (x # xs))
      else map_option (\<lambda>(a, b). (x # a, b)) (cut_at sep xs))"

lemma cut_at_None: "cut_at sep s = None \<longleftrightarrow> \<not> sublist sep s"
  by (induction s) (auto simp: sublist_Cons_right)

lemma cut_at_SomeD: "cut_at sep s = Some (a, b) \<Longrightarrow> s = a @ sep @ b"
proof (induction s arbitrary: a)
  case Nil
  then show ?case by (simp split: if_splits)
next
  case (Cons x xs)
  show ?case
  proof (cases "prefix sep (x # xs)")
    case True
    then obtain zs where zs: "x # xs = sep @ zs" by (auto simp: prefix_def)
    from Cons.prems True have "a = []" "b = drop (length sep) (x # xs)" by simp_all
    with zs show ?thesis by simp
  next
    case False
    with Cons.prems obtain a' where "cut_at sep xs = Some (a', b)" "a = x # a'"
      by auto
    with Cons.IH show ?thesis by auto
  qed
qed

section \<open>White space and letter case\<close>

text \<open>The UTF-8 encodings of the runes \<open>unicode.IsSpace\<close> accepts.\<close>

definition ws_seqs :: "string list" where
  "ws_seqs = map (\<lambda>c. [char_of (c :: nat)]) [9, 10, 11, 12, 13, 32]
     @ map (map (\<lambda>n. char_of (n :: nat)))
        ([[194, 133], [194, 160], [225, 154, 128]] @ map (\<lambda>i. [226, 128, i]) [128..<139]
         @ [[226, 128, 168], [226, 128, 169], [226, 128, 175], [226, 129, 159], [227, 128, 128]])"

function trim_left :: "'a list list \<Rightarrow> 'a list \<Rightarrow> 'a list" where
  "trim_left seqs s =
     (case find (\<lambda>w. w \<noteq> [] \<and> prefix w s) seqs of
        None \<Rightarrow> s
      | Some w \<Rightarrow> trim_left seqs (drop (length w) s))"
  by pat_completeness auto
termination
proof (relation "measure (\<lambda>(seqs, s). length s)", simp)
  fix seqs :: "'a list list" and s w :: "'a list"
  assume "find (\<lambda>w. w \<noteq> [] \<and> prefix w s) seqs = Some w"
  then have "w \<noteq> []" "prefix w s" by (auto simp: find_Some_iff)
  then show "((seqs, drop (length w) s), (seqs, s)) \<in> measure (\<lambda>(seqs, s). length s)"
    by (cases s) auto
qed

declare trim_left.simps [simp del]

definition trim_space :: "string \<Rightarrow> string" where
  "trim_space s = rev (trim_left (map rev ws_seqs) (rev (trim_left ws_seqs s)))"

lemma trim_left_suffix: "suffix (trim_left seqs s) s"
proof (induction seqs s rule: trim_left.induct)
  case (1 seqs s)
  show ?case
  proof (cases "find (\<lambda>w. w \<noteq> [] \<and> prefix w s) seqs")
    case None
    then show ?thesis by (simp add: trim_left.simps [of seqs s])
  next
    case (Some w)
    with "1.IH" have "suffix (trim_left seqs (drop (length w) s)) (drop (length w) s)" by simp
    with Some show ?thesis
      by (simp add: trim_left.simps [of seqs s] suffix_order.trans [OF _ suffix_drop])
  qed
qed

lemma trim_left_stable: "trim_left seqs s = t \<Longrightarrow> find (\<lambda>w. w \<noteq> [] \<and> prefix w t) seqs = None"
proof (induction seqs s rule: trim_left.induct)
  case (1 seqs s)
  then show ?case
    by (cases "find (\<lambda>w. w \<noteq> [] \<and> prefix w s) seqs") (simp_all add: trim_left.simps [of seqs s])
qed

lemma trim_left_id: "find (\<lambda>w. w \<noteq> [] \<and> prefix w s) seqs = None \<Longrightarrow> trim_left seqs s = s"
  by (simp add: trim_left.simps)

lemma trim_left_eq: "trim_left seqs s = s \<longleftrightarrow> (\<forall>w\<in>set seqs. w \<noteq> [] \<longrightarrow> \<not> prefix w s)"
proof -
  have "trim_left seqs s = s \<longleftrightarrow> find (\<lambda>w. w \<noteq> [] \<and> prefix w s) seqs = None"
    using trim_left_stable [of seqs s s] trim_left_id by blast
  then show ?thesis by (auto simp: find_None_iff)
qed

lemma trim_left_length: "trim_left seqs s \<noteq> s \<Longrightarrow> length (trim_left seqs s) < length s"
proof -
  assume "trim_left seqs s \<noteq> s"
  moreover obtain zs where "s = zs @ trim_left seqs s"
    using trim_left_suffix [of seqs s] by (auto simp: suffix_def)
  ultimately show ?thesis by (cases zs) (simp_all, metis length_append less_add_Suc2 length_Cons add_Suc)
qed

text \<open>A string is unchanged by \<open>strings.TrimSpace\<close> iff it neither starts nor ends with white space.\<close>

lemma trim_space_eq:
  "trim_space s = s \<longleftrightarrow> (\<forall>w\<in>set ws_seqs. w \<noteq> [] \<longrightarrow> \<not> prefix w s \<and> \<not> suffix w s)"
proof (cases "trim_left ws_seqs s = s")
  case True
  have "trim_space s = s \<longleftrightarrow> trim_left (map rev ws_seqs) (rev s) = rev s"
    by (metis True rev_rev_ident trim_space_def)
  with True show ?thesis by (auto simp: trim_left_eq suffix_to_prefix)
next
  case False
  then have "length (trim_left ws_seqs s) < length s" by (rule trim_left_length)
  moreover have "length (trim_space s) \<le> length (trim_left ws_seqs s)"
    using suffix_length_le [OF trim_left_suffix [of "map rev ws_seqs" "rev (trim_left ws_seqs s)"]]
    by (simp add: trim_space_def)
  ultimately have "trim_space s \<noteq> s" by auto
  with False show ?thesis by (auto simp: trim_left_eq)
qed

lemma ws_seqs_shape:
  "w \<in> set ws_seqs \<Longrightarrow> w \<noteq> [] \<and> (ord (hd w) \<in> {9, 10, 11, 12, 13, 32} \<and> w = [hd w]
     \<or> 128 \<le> ord (hd w) \<and> 128 \<le> ord (last w))"
  by (auto simp: ws_seqs_def)

lemma ws_seqs_ascii: "ord c \<in> {9, 10, 11, 12, 13, 32} \<Longrightarrow> [c] \<in> set ws_seqs"
proof -
  assume "ord c \<in> {9, 10, 11, 12, 13, 32}"
  then have "\<exists>n \<in> {9, 10, 11, 12, 13, 32}. c = char_of (n :: nat)"
    using char_of_char [of c] by metis
  then show ?thesis by (auto simp: ws_seqs_def)
qed

definition ascii_space :: "char \<Rightarrow> bool" where
  "ascii_space c \<longleftrightarrow> ord c \<in> {9, 10, 11, 12, 13, 32}"

text \<open>On a string whose first and last bytes are ASCII the test looks at those two bytes only.\<close>

lemma trim_space_ascii:
  assumes "s \<noteq> []" "ord (hd s) < 128" "ord (last s) < 128"
  shows "trim_space s = s \<longleftrightarrow> \<not> ascii_space (hd s) \<and> \<not> ascii_space (last s)"
proof
  assume t: "trim_space s = s"
  have pre: "prefix [hd s] s" using assms(1) by (cases s) auto
  have suf: "suffix [last s] s" using assms(1) by (simp add: suffix_def) (metis append_butlast_last_id)
  have "\<not> prefix [c] s \<and> \<not> suffix [c] s" if "ascii_space c" for c
    using t ws_seqs_ascii [of c] that by (auto simp: trim_space_eq ascii_space_def)
  with pre suf show "\<not> ascii_space (hd s) \<and> \<not> ascii_space (last s)" by blast
next
  assume n: "\<not> ascii_space (hd s) \<and> \<not> ascii_space (last s)"
  have "\<not> prefix w s \<and> \<not> suffix w s" if "w \<in> set ws_seqs" for w
  proof -
    have w: "w \<noteq> []" "ascii_space (hd w) \<and> w = [hd w] \<or> 128 \<le> ord (hd w) \<and> 128 \<le> ord (last w)"
      using ws_seqs_shape [OF that] by (auto simp: ascii_space_def)
    have "hd w = hd s" if "prefix w s" using that w(1) by (auto simp: prefix_def)
    moreover have "last w = last s" if "suffix w s" using that w(1) by (auto simp: suffix_def)
    ultimately show ?thesis using w(2) n assms(2,3)
      by (metis last.simps leD)
  qed
  then show "trim_space s = s" by (simp add: trim_space_eq)
qed

lemma set_trim_space: "set (trim_space s) \<subseteq> set s"
proof -
  have "set (trim_left (map rev ws_seqs) (rev (trim_left ws_seqs s))) \<subseteq> set (trim_left ws_seqs s)"
    using set_mono_suffix [OF trim_left_suffix] by fastforce
  also have "\<dots> \<subseteq> set s"
    by (rule set_mono_suffix [OF trim_left_suffix])
  finally show ?thesis by (simp add: trim_space_def)
qed

text \<open>ASCII letter case, and the simple Unicode folds whose target is ASCII: U+017F folds to
  \<open>s\<close> and U+212A to \<open>k\<close>. \<open>strings.EqualFold s c\<close> for a lower-case ASCII constant \<open>c\<close> is
  \<open>equal_fold s c\<close>.\<close>

definition lower :: "char \<Rightarrow> char" where
  "lower c = (if 65 \<le> ord c \<and> ord c \<le> 90 then char_of (ord c + 32) else c)"

definition ascii :: "char \<Rightarrow> bool" where
  "ascii c \<longleftrightarrow> ord c < 128"

function ascii_fold :: "string \<Rightarrow> string" where
  "ascii_fold [] = []"
| "ascii_fold (c # cs) =
     (if c = CHR 0xC5 \<and> prefix [CHR 0xBF] cs then CHR ''s'' # ascii_fold (drop 1 cs)
      else if c = CHR 0xE2 \<and> prefix [CHR 0x84, CHR 0xAA] cs then CHR ''k'' # ascii_fold (drop 2 cs)
      else lower c # ascii_fold cs)"
  by pat_completeness auto
termination
  by (relation "measure length") auto

definition equal_fold :: "string \<Rightarrow> string \<Rightarrow> bool" where
  "equal_fold s c \<longleftrightarrow> ascii_fold s = c"

section \<open>Decimal numbers\<close>


definition is_digit :: "char \<Rightarrow> bool" where
  "is_digit c \<longleftrightarrow> 48 \<le> ord c \<and> ord c \<le> 57"

definition digit_val :: "char \<Rightarrow> nat" where
  "digit_val c = ord c - 48"

fun digits_val :: "nat \<Rightarrow> string \<Rightarrow> nat option" where
  "digits_val acc [] = Some acc"
| "digits_val acc (c # cs) =
     (if is_digit c then digits_val (10 * acc + digit_val c) cs else None)"

text \<open>\<open>strconv.Atoi\<close>: an optional sign, at least one digit, a value in the int64 range.\<close>

definition atoi :: "string \<Rightarrow> int option" where
  "atoi s =
     (let neg = prefix ''-'' s;
          body = (if prefix ''-'' s \<or> prefix ''+'' s then drop 1 s else s)
      in if body = [] then None
         else case digits_val 0 body of
           None \<Rightarrow> None
         | Some n \<Rightarrow> (let v = (if neg then - int n else int n)
                      in if is_int64 v then Some v else None))"

text \<open>\<open>fmt.Sprintf("%d", n)\<close> of a non-negative number.\<close>

fun show_nat :: "nat \<Rightarrow> string" where
  "show_nat n = (if n < 10 then [char_of (48 + n)] else show_nat (n div 10) @ [char_of (48 + n mod 10)])"

declare show_nat.simps [simp del]

lemma is_digit_char_of [simp]: "d < 10 \<Longrightarrow> is_digit (char_of (48 + d :: nat))"
  by (simp add: is_digit_def)

lemma digit_val_char_of [simp]: "d < 10 \<Longrightarrow> digit_val (char_of (48 + d :: nat)) = d"
  by (simp add: digit_val_def)

lemma digits_val_append:
  "digits_val acc (s @ t) = (case digits_val acc s of None \<Rightarrow> None | Some v \<Rightarrow> digits_val v t)"
  by (induction s arbitrary: acc) auto

lemma digits_val_show_nat: "digits_val 0 (show_nat n) = Some n"
proof (induction n rule: show_nat.induct)
  case (1 n)
  show ?case
  proof (cases "n < 10")
    case True
    then show ?thesis by (simp add: show_nat.simps [of n])
  next
    case False
    with "1.IH" show ?thesis
      by (simp add: show_nat.simps [of n] digits_val_append)
  qed
qed

lemma show_nat_digits: "c \<in> set (show_nat n) \<Longrightarrow> is_digit c"
proof (induction n rule: show_nat.induct)
  case (1 n)
  then show ?case by (cases "n < 10") (auto simp: show_nat.simps [of n])
qed

lemma show_nat_not_Nil [simp]: "show_nat n \<noteq> []"
  by (subst show_nat.simps) simp

lemma atoi_show_nat:
  assumes "int n \<le> max_int64"
  shows "atoi (show_nat n) = Some (int n)"
proof -
  have sign: "\<not> prefix [c] (show_nat n)" if "\<not> is_digit c" for c
    using that show_nat_digits [of _ n] by (cases "show_nat n") auto
  have "\<not> is_digit CHR ''-''" "\<not> is_digit CHR ''+''"
    by (simp_all add: is_digit_def)
  with sign have "\<not> prefix ''-'' (show_nat n)" "\<not> prefix ''+'' (show_nat n)"
    by blast+
  with assms show ?thesis
    by (simp add: atoi_def digits_val_show_nat is_int64_def max_int64_def)
qed

section \<open>Readers with a limit\<close>

text \<open>
  An \<open>io.Reader\<close> is the data it delivers and the error it ends with, if any; \<open>rd_joined\<close>
  says whether that error comes with the last bytes or on a read of its own.
  \<open>read_limited\<close> is \<open>io.ReadAll(io.LimitReader(r, n))\<close>.
\<close>

record ('b, 'e) reader =
  rd_data :: "'b list"
  rd_fail :: "'e option"
  rd_joined :: bool

definition read_limited :: "('b, 'e) reader \<Rightarrow> int \<Rightarrow> ('e, 'b list) result" where
  "read_limited r n =
     (if n \<le> 0 then Inr []
      else if int (length (rd_data r)) < n \<or> int (length (rd_data r)) = n \<and> rd_joined r
      then (case rd_fail r of Some e \<Rightarrow> Inl e | None \<Rightarrow> Inr (rd_data r))
      else Inr (take (nat n) (rd_data r)))"

lemma read_limited_length: "read_limited r n = Inr xs \<Longrightarrow> int (length xs) \<le> max 0 n"
  by (auto simp: read_limited_def split: if_splits option.splits)

lemma read_limited_prefix: "read_limited r n = Inr xs \<Longrightarrow> prefix xs (rd_data r)"
  by (auto simp: read_limited_def take_is_prefix split: if_splits option.splits)

lemma read_limited_all:
  "read_limited r n = Inr xs \<Longrightarrow> int (length xs) < n \<Longrightarrow> xs = rd_data r \<and> rd_fail r = None"
  by (auto simp: read_limited_def split: if_splits option.splits)

lemma read_limited_clean:
  "rd_fail r = None \<Longrightarrow> read_limited r n = Inr (take (nat n) (rd_data r))"
  by (auto simp: read_limited_def)

text \<open>
  The pattern of the size-capped reads in the repository: read at most \<open>max + 1\<close> bytes (the sum is an
  int64 and wraps) and fail when more than \<open>max\<close> arrived.
\<close>

definition read_capped ::
  "('e \<Rightarrow> 'f) \<Rightarrow> 'f \<Rightarrow> ('b, 'e) reader \<Rightarrow> int \<Rightarrow> ('f, 'b list) result" where
  "read_capped rd_err too_big r m =
     (case read_limited r (wrap64 (m + 1)) of
        Inl e \<Rightarrow> Inl (rd_err e)
      | Inr xs \<Rightarrow> if int (length xs) > m then Inl too_big else Inr xs)"

lemma read_capped_bound: "read_capped f g r m = Inr xs \<Longrightarrow> int (length xs) \<le> m"
  by (auto simp: read_capped_def split: sum.splits if_splits)

lemma read_capped_whole:
  assumes "read_capped f g r m = Inr xs" "is_int64 m" "m < max_int64"
  shows "xs = rd_data r \<and> rd_fail r = None"
proof -
  have "is_int64 (m + 1)" using assms(2,3) by (simp add: is_int64_def)
  then have w: "wrap64 (m + 1) = m + 1" by (rule wrap64_id)
  from assms(1) w have "read_limited r (m + 1) = Inr xs" "int (length xs) \<le> m"
    by (auto simp: read_capped_def split: sum.splits if_splits)
  then show ?thesis using read_limited_all by fastforce
qed

lemma read_capped_clean:
  assumes "rd_fail r = None" "is_int64 m" "m < max_int64"
  shows "read_capped f g r m = (if int (length (rd_data r)) \<le> m then Inr (rd_data r) else Inl g)"
proof -
  have "is_int64 (m + 1)" using assms(2,3) by (simp add: is_int64_def)
  then have w: "wrap64 (m + 1) = m + 1" by (rule wrap64_id)
  have "length (take (nat (m + 1)) (rd_data r)) = min (length (rd_data r)) (nat (m + 1))"
    by simp
  then show ?thesis
    using assms(1) by (auto simp: read_capped_def w read_limited_clean)
qed

lemma read_capped_overflow: "read_capped f g r max_int64 = Inr []"
proof -
  have "read_limited r (wrap64 (max_int64 + 1)) = Inr []"
    unfolding wrap64_overflow by (simp add: read_limited_def)
  moreover have "0 \<le> max_int64" by (simp add: max_int64_def)
  ultimately show ?thesis by (simp add: read_capped_def)
qed

section \<open>JSON values\<close>

datatype json =
    JNull | JBool bool | JNum int | JFloat int int | JStr string | JArr "json list" | JObj "(string \<times> json) list"

end
