(* ===== verification/Go_Errors.thy ===== *)
theory Go_Errors
  imports Go_Prelude
begin

text \<open>
  Error chains: the error values of \<open>httperr/httperr.go\<close> and \<open>networking/http_error.go\<close> and the
  traversal \<open>errors.As\<close> they are extracted with. An error is a plain message
  (\<open>errors.New\<close>), a wrapped error (\<open>fmt.Errorf\<close> with \<open>%w\<close>), a joined list (\<open>errors.Join\<close>), a
  \<open>CodedError\<close> or an \<open>HTTPError\<close>. A nil error is \<open>None\<close>.

  The locale \<open>error_target\<close> is the contract of a type one can ask a chain for: wrapping and
  joining are transparent to it. Both error types of the repository are interpretations.
\<close>

section \<open>Error values\<close>

datatype goerr =
    Msg string
  | Wrapf string goerr
  | Joined "goerr list"
  | CodedError goerr int
  | HTTPError int string string

text \<open>\<open>errors.As\<close>: the first match in the pre-order traversal of the chain. \<open>classify\<close> is the
  type assertion against the target.\<close>

fun errors_as :: "(goerr \<Rightarrow> 'a option) \<Rightarrow> goerr \<Rightarrow> 'a option"
  and errors_as_list :: "(goerr \<Rightarrow> 'a option) \<Rightarrow> goerr list \<Rightarrow> 'a option" where
  "errors_as cl e =
     (case cl e of
        Some x \<Rightarrow> Some x
      | None \<Rightarrow>
          (case e of
             Wrapf _ e' \<Rightarrow> errors_as cl e'
           | CodedError e' _ \<Rightarrow> errors_as cl e'
           | Joined es \<Rightarrow> errors_as_list cl es
           | _ \<Rightarrow> None))"
| "errors_as_list cl [] = None"
| "errors_as_list cl (e # es) =
     (case errors_as cl e of Some x \<Rightarrow> Some x | None \<Rightarrow> errors_as_list cl es)"

declare errors_as.simps [simp del]

section \<open>The contract of an error type\<close>

locale error_target =
  fixes classify :: "goerr \<Rightarrow> 'a option"
  assumes wrap_transparent: "classify (Wrapf m e) = None"
    and join_transparent: "classify (Joined es) = None"
    and msg_transparent: "classify (Msg m) = None"
begin

lemma as_Wrapf: "errors_as classify (Wrapf m e) = errors_as classify e"
  by (subst errors_as.simps) (simp add: wrap_transparent)

lemma as_Msg: "errors_as classify (Msg m) = None"
  by (subst errors_as.simps) (simp add: msg_transparent)

lemma as_hit: "classify e = Some x \<Longrightarrow> errors_as classify e = Some x"
  by (subst errors_as.simps) simp

lemma as_wraps: "errors_as classify (foldr Wrapf ms e) = errors_as classify e"
  by (induction ms) (simp_all add: as_Wrapf)

lemma as_Joined: "errors_as classify (Joined es) = errors_as_list classify es"
  by (subst errors_as.simps) (simp add: join_transparent)

lemma as_list_append:
  "errors_as_list classify (es @ fs) =
     (case errors_as_list classify es of Some x \<Rightarrow> Some x | None \<Rightarrow> errors_as_list classify fs)"
  by (induction es) (auto split: option.splits)

lemma as_list_first:
  assumes "errors_as_list classify es = None" "errors_as classify e = Some x"
  shows "errors_as classify (Joined (es @ e # fs)) = Some x"
  using assms by (simp add: as_Joined as_list_append)

end

section \<open>Coded errors (httperr)\<close>

definition coded_target :: "goerr \<Rightarrow> int option" where
  "coded_target e = (case e of CodedError _ c \<Rightarrow> Some c | _ \<Rightarrow> None)"

definition HTTPCode :: "goerr \<Rightarrow> int option" where
  "HTTPCode e = (case e of CodedError _ c \<Rightarrow> Some c | _ \<Rightarrow> None)"

definition Unwrap :: "goerr \<Rightarrow> goerr option" where
  "Unwrap e = (case e of CodedError e' _ \<Rightarrow> Some e' | Wrapf _ e' \<Rightarrow> Some e' | _ \<Rightarrow> None)"

definition WithCode :: "goerr option \<Rightarrow> int \<Rightarrow> goerr option" where
  "WithCode err code = (case err of None \<Rightarrow> None | Some e \<Rightarrow> Some (CodedError e code))"

definition Code :: "goerr option \<Rightarrow> int" where
  "Code err =
     (case err of
        None \<Rightarrow> 200
      | Some e \<Rightarrow> (case errors_as coded_target e of Some c \<Rightarrow> c | None \<Rightarrow> 500))"

definition New :: "string \<Rightarrow> int \<Rightarrow> goerr option" where
  "New message code = Some (CodedError (Msg message) code)"

interpretation coded: error_target coded_target
  by unfold_locales (simp_all add: coded_target_def)

lemmas coded_as = coded.as_Wrapf coded.as_Msg coded.as_Joined

lemma coded_as_CodedError [simp]: "errors_as coded_target (CodedError e c) = Some c"
  by (rule coded.as_hit) (simp add: coded_target_def)

section \<open>HTTP errors (networking)\<close>

definition http_target :: "goerr \<Rightarrow> int option" where
  "http_target e = (case e of HTTPError s _ _ \<Rightarrow> Some s | _ \<Rightarrow> None)"

definition NewHTTPError :: "int \<Rightarrow> string \<Rightarrow> string \<Rightarrow> goerr" where
  "NewHTTPError statusCode url message = HTTPError statusCode message url"

definition IsHTTPError :: "goerr option \<Rightarrow> int \<Rightarrow> bool" where
  "IsHTTPError err statusCode =
     (case err of
        None \<Rightarrow> False
      | Some e \<Rightarrow>
          (case errors_as http_target e of
             None \<Rightarrow> False
           | Some s \<Rightarrow> (if statusCode = 0 then True else s = statusCode)))"

interpretation httpt: error_target http_target
  by unfold_locales (simp_all add: http_target_def)

lemma http_as_HTTPError [simp]: "errors_as http_target (HTTPError s m u) = Some s"
  by (rule httpt.as_hit) (simp add: http_target_def)

lemma http_as_CodedError [simp]: "errors_as http_target (CodedError e c) = errors_as http_target e"
  by (subst errors_as.simps) (simp add: http_target_def)

section \<open>The code a handler sees\<close>

lemma Code_hit: "errors_as coded_target e = Some c \<Longrightarrow> Code (Some e) = c"
  by (simp add: Code_def)

text \<open>
  The status code attached by \<open>WithCode\<close> is the one \<open>Code\<close> extracts, however many times the
  error is wrapped with \<open>fmt.Errorf\<close> afterwards, whichever uncoded errors it is joined behind, and
  whatever codes lie deeper in the chain: the outermost code wins. A nil error is 200 and stays
  nil under \<open>WithCode\<close>; an error without a code is 500.
\<close>
theorem Code_outermost:
  "Code (map_option (foldr Wrapf ms) (WithCode err c)) = (case err of None \<Rightarrow> 200 | Some _ \<Rightarrow> c)
   \<and> Code (WithCode (WithCode err c) d) = (case err of None \<Rightarrow> 200 | Some _ \<Rightarrow> d)
   \<and> Code (Some (Joined (map Msg us @ foldr Wrapf ms (CodedError e c) # fs))) = c
   \<and> Code (map_option (foldr Wrapf ms) (New message c)) = c
   \<and> Code (Some (foldr Wrapf ms (Msg message))) = 500"
proof -
  have none: "errors_as_list coded_target (map Msg us) = None"
    by (induction us) (simp_all add: coded.as_Msg)
  have "Code (Some (Joined (map Msg us @ foldr Wrapf ms (CodedError e c) # fs))) = c"
    by (rule Code_hit, rule coded.as_list_first [OF none]) (simp add: coded.as_wraps)
  then show ?thesis
    by (cases err) (simp_all add: Code_def WithCode_def New_def coded.as_wraps coded.as_Msg)
qed

text \<open>
  An \<open>HTTPError\<close> is recognised through any wrapping, including a \<open>CodedError\<close> around it:
  \<open>IsHTTPError\<close> answers exactly whether the requested status is 0 or the error's own status.
\<close>
theorem IsHTTPError_through_wrapping:
  "IsHTTPError (Some (foldr Wrapf ms (CodedError (NewHTTPError s u m) c))) n \<longleftrightarrow> n = 0 \<or> n = s"
  by (auto simp: IsHTTPError_def NewHTTPError_def httpt.as_wraps)

end
