(* ===== verification/Go_Path.thy ===== *)
theory Go_Path
  imports Go_Prelude
begin

text \<open>
  Go's \<open>path.Clean\<close> (on Unix also \<open>filepath.Clean\<close>) on path elements: empty and dot elements are
  dropped, a dot-dot element removes the element before it, is dropped at the root and kept at the start
  of a relative path. The lemmas show its normal form, that it is idempotent, and how an
  escaping path is recognised.
\<close>

section \<open>Clean\<close>

definition clean_step :: "bool \<Rightarrow> string list \<Rightarrow> string \<Rightarrow> string list" where
  "clean_step rooted stk c =
     (if c = [] \<or> c = ''.'' then stk
      else if c = ''..'' then
        (case stk of
           [] \<Rightarrow> (if rooted then [] else [''..''])
         | t # ts \<Rightarrow> (if t = ''..'' then ''..'' # t # ts else ts))
      else c # stk)"

definition clean_comps :: "bool \<Rightarrow> string list \<Rightarrow> string list" where
  "clean_comps rooted cs = rev (foldl (clean_step rooted) [] cs)"

abbreviation elems :: "string \<Rightarrow> string list" where
  "elems p \<equiv> split_on CHR ''/'' p"

definition path_clean :: "string \<Rightarrow> string" where
  "path_clean p =
     (if p = [] then ''.''
      else if has_prefix p ''/'' then ''/'' @ join_with ''/'' (clean_comps True (elems p))
      else (let body = join_with ''/'' (clean_comps False (elems p))
            in if body = [] then ''.'' else body))"

definition path_is_abs :: "string \<Rightarrow> bool" where
  "path_is_abs p = has_prefix p ''/''"

section \<open>Normal form\<close>

text \<open>An element that \<open>Clean\<close> keeps as it is.\<close>

definition plain :: "string \<Rightarrow> bool" where
  "plain c \<longleftrightarrow> c \<noteq> [] \<and> c \<noteq> ''.'' \<and> c \<noteq> ''..'' \<and> CHR ''/'' \<notin> set c"

text \<open>The stack invariant: plain elements above, and below them only dot-dots (none when rooted).\<close>

fun stack_ok :: "bool \<Rightarrow> string list \<Rightarrow> bool" where
  "stack_ok rooted [] = True"
| "stack_ok rooted (c # cs) =
     (if plain c then stack_ok rooted cs else c = ''..'' \<and> \<not> rooted \<and> (\<forall>d\<in>set cs. d = ''..''))"

lemma plain_dotdot [simp]: "\<not> plain ''..''" "\<not> plain ''.''" "\<not> plain []"
  by (simp_all add: plain_def)

lemma stack_ok_dotdots: "\<forall>d\<in>set cs. d = ''..'' \<Longrightarrow> stack_ok False cs"
  by (cases cs) auto

lemma clean_step_skip [simp]: "c = [] \<or> c = ''.'' \<Longrightarrow> clean_step rooted stk c = stk"
  by (simp add: clean_step_def)

lemma clean_step_up [simp]:
  "clean_step rooted [] ''..'' = (if rooted then [] else [''..''])"
  "clean_step rooted (t # ts) ''..'' = (if t = ''..'' then ''..'' # t # ts else ts)"
  by (simp_all add: clean_step_def)

lemma clean_step_push:
  "c \<noteq> [] \<Longrightarrow> c \<noteq> ''.'' \<Longrightarrow> c \<noteq> ''..'' \<Longrightarrow> clean_step rooted stk c = c # stk"
  by (simp add: clean_step_def)

lemma clean_step_cases:
  obtains (skip) "c = [] \<or> c = ''.''" | (up) "c = ''..''" | (push) "c \<noteq> []" "c \<noteq> ''.''" "c \<noteq> ''..''"
  by blast

lemma stack_ok_up: "stack_ok rooted (t # ts) \<Longrightarrow> t \<noteq> ''..'' \<Longrightarrow> stack_ok rooted ts"
  by (simp split: if_splits)

lemma clean_step_ok:
  assumes "stack_ok rooted stk" "CHR ''/'' \<notin> set c"
  shows "stack_ok rooted (clean_step rooted stk c)"
proof (cases c rule: clean_step_cases)
  case skip
  with assms show ?thesis by simp
next
  case up
  show ?thesis
  proof (cases stk)
    case Nil
    with up show ?thesis by simp
  next
    case (Cons t ts)
    show ?thesis
    proof (cases "t = ''..''")
      case True
      with Cons up assms show ?thesis by (simp split: if_splits)
    next
      case False
      with Cons up assms show ?thesis using stack_ok_up [of rooted t ts] by simp
    qed
  qed
next
  case push
  then have "plain c" using assms by (simp add: plain_def)
  with push assms show ?thesis by (simp add: clean_step_push)
qed

lemma foldl_clean_ok:
  "stack_ok rooted stk \<Longrightarrow> \<forall>c\<in>set cs. CHR ''/'' \<notin> set c \<Longrightarrow> stack_ok rooted (foldl (clean_step rooted) stk cs)"
  by (induction cs arbitrary: stk) (auto intro: clean_step_ok)

lemma clean_comps_ok: "stack_ok rooted (rev (clean_comps rooted (elems p)))"
  using foldl_clean_ok [of rooted "[]" "elems p"] by (simp add: clean_comps_def split_on_pieces)

lemma stack_ok_elem: "stack_ok rooted stk \<Longrightarrow> c \<in> set stk \<Longrightarrow> plain c \<or> c = ''..'' \<and> \<not> rooted"
  by (induction stk) (auto split: if_splits)

lemma stack_ok_noslash: "stack_ok rooted stk \<Longrightarrow> c \<in> set stk \<Longrightarrow> c \<noteq> [] \<and> CHR ''/'' \<notin> set c"
  by (drule (1) stack_ok_elem) (auto simp: plain_def)

lemma clean_comps_elem:
  "c \<in> set (clean_comps rooted (elems p)) \<Longrightarrow> c \<noteq> [] \<and> c \<noteq> ''.'' \<and> CHR ''/'' \<notin> set c"
  using stack_ok_elem [OF clean_comps_ok [of rooted p], of c] by (auto simp: plain_def)

lemma stack_ok_append: "stack_ok rooted (xs @ ys) \<Longrightarrow> stack_ok rooted ys"
proof (induction xs)
  case Nil
  then show ?case by simp
next
  case (Cons x xs)
  show ?case
  proof (cases "plain x")
    case True
    with Cons show ?thesis by simp
  next
    case False
    with Cons.prems have "\<not> rooted" "\<forall>d\<in>set ys. d = ''..''" by auto
    then show ?thesis using stack_ok_dotdots [of ys] by simp
  qed
qed

text \<open>Cleaning a stack that is already normal changes nothing.\<close>

lemma foldl_clean_stack:
  "stack_ok rooted (rev cs @ stk) \<Longrightarrow> foldl (clean_step rooted) stk cs = rev cs @ stk"
proof (induction cs arbitrary: stk)
  case Nil
  then show ?case by simp
next
  case (Cons c cs)
  have c: "stack_ok rooted (c # stk)"
    using Cons.prems stack_ok_append [of rooted "rev cs" "c # stk"] by simp
  have "clean_step rooted stk c = c # stk"
  proof (cases "plain c")
    case True
    then show ?thesis by (simp add: plain_def clean_step_push)
  next
    case False
    with c have "c = ''..''" "\<not> rooted" "\<forall>d\<in>set stk. d = ''..''"
      by (simp_all split: if_splits)
    then show ?thesis by (cases stk) simp_all
  qed
  with Cons show ?case by simp
qed

lemma clean_comps_idem: "stack_ok rooted (rev cs) \<Longrightarrow> clean_comps rooted cs = cs"
  using foldl_clean_stack [of rooted cs "[]"] by (simp add: clean_comps_def)

lemma join_with_hd:
  "cs \<noteq> [] \<Longrightarrow> hd cs \<noteq> [] \<Longrightarrow> join_with sep cs \<noteq> [] \<and> hd (join_with sep cs) = hd (hd cs)"
  by (cases "(sep, cs)" rule: join_with.cases) auto

lemma elems_join:
  assumes "cs \<noteq> []" "\<forall>c\<in>set cs. c \<noteq> [] \<and> CHR ''/'' \<notin> set c"
  shows "elems (join_with ''/'' cs) = cs" "join_with ''/'' cs \<noteq> []" "\<not> has_prefix (join_with ''/'' cs) ''/''"
proof -
  show "elems (join_with ''/'' cs) = cs" using assms split_join [of cs "CHR ''/''"] by auto
  have h: "hd cs \<noteq> []" "CHR ''/'' \<notin> set (hd cs)" using assms by auto
  show ne: "join_with ''/'' cs \<noteq> []" using join_with_hd [of cs] assms h by auto
  have "hd (join_with ''/'' cs) \<in> set (hd cs)"
    using join_with_hd [of cs] assms h by simp
  with h ne show "\<not> has_prefix (join_with ''/'' cs) ''/''"
    by (cases "join_with ''/'' cs") auto
qed

text \<open>The three shapes of a cleaned path.\<close>

lemma path_clean_cases:
  obtains (dot) "path_clean p = ''.''" "\<not> path_is_abs p" "clean_comps False (elems p) = []"
  | (rel) cs where "cs = clean_comps False (elems p)" "cs \<noteq> []" "path_clean p = join_with ''/'' cs"
      "elems (path_clean p) = cs" "\<not> path_is_abs p" "\<not> path_is_abs (path_clean p)" "path_clean p \<noteq> []"
  | (abs) "path_clean p = ''/'' @ join_with ''/'' (clean_comps True (elems p))" "path_is_abs p"
proof (cases "path_is_abs p")
  case True
  then have "p \<noteq> []" "has_prefix p ''/''" by (auto simp: path_is_abs_def)
  then have "path_clean p = ''/'' @ join_with ''/'' (clean_comps True (elems p))"
    by (simp add: path_clean_def)
  with True show ?thesis using abs by blast
next
  case False
  let ?cs = "clean_comps False (elems p)"
  show ?thesis
  proof (cases "?cs = []")
    case True
    with False dot show ?thesis by (simp add: path_clean_def path_is_abs_def)
  next
    case ne: False
    have e: "\<forall>c\<in>set ?cs. c \<noteq> [] \<and> CHR ''/'' \<notin> set c" using clean_comps_elem by blast
    have "p \<noteq> []" using ne by (auto simp: clean_comps_def clean_step_def)
    then have "path_clean p = join_with ''/'' ?cs"
      using False elems_join [OF ne e] by (simp add: path_clean_def path_is_abs_def)
    with elems_join [OF ne e] False ne rel show ?thesis by (simp add: path_is_abs_def)
  qed
qed

theorem path_clean_idem: "path_clean (path_clean p) = path_clean p"
proof (cases p rule: path_clean_cases)
  case dot
  then show ?thesis by (simp add: path_clean_def clean_comps_def clean_step_def)
next
  case (rel cs)
  have "clean_comps False cs = cs"
    using clean_comps_idem [of False cs] clean_comps_ok [of False p] rel(1) by simp
  then have "clean_comps False (elems (path_clean p)) = cs" using rel by simp
  then show ?thesis
    using rel by (subst path_clean_def) (simp add: path_is_abs_def)
next
  case abs
  let ?cs = "clean_comps True (elems p)"
  have ok: "stack_ok True (rev ?cs)" by (rule clean_comps_ok)
  have "clean_comps True (elems (''/'' @ join_with ''/'' ?cs)) = ?cs"
  proof (cases "?cs = []")
    case True
    then show ?thesis by (simp add: clean_comps_def clean_step_def)
  next
    case False
    then have "elems (join_with ''/'' ?cs) = ?cs"
      using elems_join(1) clean_comps_elem by blast
    then show ?thesis
      using clean_comps_idem [OF ok] by (simp add: clean_comps_def clean_step_def)
  qed
  moreover have "has_prefix (''/'' @ join_with ''/'' ?cs) ''/''" by simp
  ultimately show ?thesis unfolding abs(1)
    by (subst path_clean_def) simp
qed

section \<open>Escaping the root\<close>

text \<open>The reference notion: walking the elements from a directory at depth \<open>d\<close> leaves the root.\<close>

fun escapes :: "nat \<Rightarrow> string list \<Rightarrow> bool" where
  "escapes d [] = False"
| "escapes d (c # cs) =
     (if c = [] \<or> c = ''.'' then escapes d cs
      else if c = ''..'' then (d = 0 \<or> escapes (d - 1) cs)
      else escapes (Suc d) cs)"

lemma clean_step_bottom:
  assumes "stk \<noteq> []" "last stk = ''..''"
  shows "clean_step False stk c \<noteq> [] \<and> last (clean_step False stk c) = ''..''"
proof (cases c rule: clean_step_cases)
  case up
  obtain t ts where "stk = t # ts" using assms(1) by (cases stk) auto
  with assms up show ?thesis by auto
qed (use assms in \<open>simp_all add: clean_step_push\<close>)

lemma foldl_clean_bottom:
  "stk \<noteq> [] \<Longrightarrow> last stk = ''..'' \<Longrightarrow>
     foldl (clean_step False) stk cs \<noteq> [] \<and> last (foldl (clean_step False) stk cs) = ''..''"
proof (induction cs arbitrary: stk)
  case Nil
  then show ?case by simp
next
  case (Cons c cs)
  show ?case using Cons.IH [of "clean_step False stk c"] clean_step_bottom [OF Cons.prems] by simp
qed

lemma escapes_foldl:
  "\<forall>c\<in>set stk. c \<noteq> ''..'' \<Longrightarrow>
     (\<exists>c \<in> set (foldl (clean_step False) stk cs). c = ''..'') \<longleftrightarrow> escapes (length stk) cs"
proof (induction cs arbitrary: stk)
  case Nil
  then show ?case by auto
next
  case (Cons c cs)
  show ?case
  proof (cases c rule: clean_step_cases)
    case skip
    with Cons show ?thesis by auto
  next
    case push
    with Cons.prems have "\<forall>d\<in>set (c # stk). d \<noteq> ''..''" by simp
    from Cons.IH [OF this] push show ?thesis by (simp add: clean_step_push)
  next
    case up
    show ?thesis
    proof (cases stk)
      case Nil
      have "''..'' \<in> set (foldl (clean_step False) [''..''] cs)"
        using foldl_clean_bottom [of "[''..'']" cs] last_in_set by fastforce
      with Nil up show ?thesis by simp
    next
      case stk: (Cons t ts)
      with Cons.prems have ts: "\<forall>d\<in>set ts. d \<noteq> ''..''" and "t \<noteq> ''..''" by auto
      with Cons.IH [OF ts] stk up show ?thesis by simp
    qed
  qed
qed

lemma clean_comps_escapes: "''..'' \<in> set (clean_comps False cs) \<longleftrightarrow> escapes 0 cs"
  using escapes_foldl [of "[]" cs] by (auto simp: clean_comps_def)

lemma stack_ok_bottom:
  "stack_ok rooted stk \<Longrightarrow> ''..'' \<in> set stk \<Longrightarrow> last stk = ''..''"
proof (induction stk)
  case Nil
  then show ?case by simp
next
  case (Cons c stk)
  show ?case
  proof (cases "plain c")
    case True
    with Cons.prems have "stack_ok rooted stk" "''..'' \<in> set stk" by auto
    with Cons.IH show ?thesis by auto
  next
    case False
    with Cons.prems have "c = ''..''" "\<forall>d\<in>set stk. d = ''..''" by (simp_all split: if_splits)
    then show ?thesis using last_in_set [of stk] by (cases "stk = []") simp_all
  qed
qed

lemma clean_comps_hd: "''..'' \<in> set (clean_comps False (elems p)) \<Longrightarrow> hd (clean_comps False (elems p)) = ''..''"
  using stack_ok_bottom [OF clean_comps_ok [of False p]] by (simp add: last_rev)

end
