(* ===== verification/Validation.thy ===== *)
theory Validation
  imports Go_Prelude
begin

text \<open>
  The packages \<open>validation/http\<close> and \<open>validation/group\<close>. The two predicates of
  golang.org/x/net/http/httpguts and \<open>url.Parse\<close> are parameters of the functions that call them;
  so is the Unicode case mapping \<open>strings.ToLower\<close> applies to a string with non-ASCII bytes.
\<close>

section \<open>HTTP headers (validation/http)\<close>

datatype http_error =
    HeaderNameEmpty | HeaderNameTooLong | HeaderNameInvalid
  | HeaderValueEmpty | HeaderValueTooLong | HeaderValueInvalid
  | ResourceEmpty | ResourceInvalid | ResourceNoScheme string | ResourceNoHost string
  | ResourceFragment string

definition ValidateHeaderName :: "(string \<Rightarrow> bool) \<Rightarrow> string \<Rightarrow> (http_error, unit) result" where
  "ValidateHeaderName validFieldName name =
     (if name = [] then Inl HeaderNameEmpty
      else if length name > 256 then Inl HeaderNameTooLong
      else if \<not> validFieldName name then Inl HeaderNameInvalid
      else Inr ())"

definition ValidateHeaderValue :: "(string \<Rightarrow> bool) \<Rightarrow> string \<Rightarrow> (http_error, unit) result" where
  "ValidateHeaderValue validFieldValue val =
     (if val = [] then Inl HeaderValueEmpty
      else if length val > 8192 then Inl HeaderValueTooLong
      else if \<not> validFieldValue val then Inl HeaderValueInvalid
      else Inr ())"

text \<open>The fields of \<open>url.URL\<close> the repository reads.\<close>

record url =
  u_scheme :: string
  u_host :: string
  u_fragment :: string

definition ValidateResourceURI :: "(string \<Rightarrow> url option) \<Rightarrow> string \<Rightarrow> (http_error, unit) result" where
  "ValidateResourceURI parse resourceURI =
     (if resourceURI = [] then Inl ResourceEmpty
      else case parse resourceURI of
        None \<Rightarrow> Inl ResourceInvalid
      | Some parsed \<Rightarrow>
          if u_scheme parsed = [] then Inl (ResourceNoScheme resourceURI)
          else if u_host parsed = [] then Inl (ResourceNoHost resourceURI)
          else if u_fragment parsed \<noteq> [] then Inl (ResourceFragment resourceURI)
          else Inr ())"

lemma ValidateHeaderName_ok:
  "ValidateHeaderName vn name = Inr () \<longleftrightarrow> name \<noteq> [] \<and> length name \<le> 256 \<and> vn name"
  by (auto simp: ValidateHeaderName_def)

lemma ValidateHeaderValue_ok:
  "ValidateHeaderValue vv val = Inr () \<longleftrightarrow> val \<noteq> [] \<and> length val \<le> 8192 \<and> vv val"
  by (auto simp: ValidateHeaderValue_def)

text \<open>
  Header injection: given the documented behaviour of httpguts (an accepted name or value
  holds neither CR nor LF, and an accepted name no colon), a header line built from a name and a value that both
  validate is one line, its first colon ends the name, and it is at most 8450 bytes long.
\<close>
theorem header_line_no_injection:
  assumes guts_name: "\<And>n. vn n \<Longrightarrow> set n \<inter> {CHR 10, CHR 13, CHR '':''} = {}"
    and guts_value: "\<And>v. vv v \<Longrightarrow> set v \<inter> {CHR 10, CHR 13} = {}"
    and name: "ValidateHeaderName vn name = Inr ()"
    and val: "ValidateHeaderValue vv val = Inr ()"
  shows "CHR 10 \<notin> set (name @ '': '' @ val) \<and> CHR 13 \<notin> set (name @ '': '' @ val)
     \<and> index_byte CHR '':'' (name @ '': '' @ val) = Some (length name)
     \<and> length (name @ '': '' @ val) \<le> 8450"
proof -
  have n: "length name \<le> 256" "set name \<inter> {CHR 10, CHR 13, CHR '':''} = {}"
    using name guts_name by (auto simp: ValidateHeaderName_ok)
  have v: "length val \<le> 8192" "set val \<inter> {CHR 10, CHR 13} = {}"
    using val guts_value by (auto simp: ValidateHeaderValue_ok)
  have "index_byte CHR '':'' (p @ CHR '':'' # r) = Some (length p)" if "CHR '':'' \<notin> set p" for p r
    using that by (induction p) auto
  with n v show ?thesis by auto
qed

theorem header_line_no_injection_witness:
  "CHR 10 \<notin> set (''Accept'' @ '': '' @ ''*'') \<and> CHR 13 \<notin> set (''Accept'' @ '': '' @ ''*'')
     \<and> index_byte CHR '':'' (''Accept'' @ '': '' @ ''*'') = Some 6
     \<and> length (''Accept'' @ '': '' @ ''*'') \<le> 8450"
proof -
  let ?vn = "\<lambda>n. set n \<inter> {CHR 10, CHR 13, CHR '':''} = ({} :: char set)"
  let ?vv = "\<lambda>n. set n \<inter> {CHR 10, CHR 13} = ({} :: char set)"
  have 1: "ValidateHeaderName ?vn ''Accept'' = Inr ()"
    by (simp add: ValidateHeaderName_def)
  have 2: "ValidateHeaderValue ?vv ''*'' = Inr ()"
    by (simp add: ValidateHeaderValue_def)
  from header_line_no_injection [of ?vn ?vv, OF _ _ 1 2] show ?thesis by simp
qed

section \<open>Group names (validation/group)\<close>

datatype group_error =
    GroupEmpty | GroupNullByte | GroupNotLowercase | GroupBadChars string
  | GroupOuterSpace string | GroupDoubleSpace string

text \<open>The class \<open>[a-z0-9_\-\s]\<close> of the regular expression; RE2's \<open>\s\<close> is tab, newline, form feed,
  carriage return and space.\<close>

definition group_char :: "char \<Rightarrow> bool" where
  "group_char c \<longleftrightarrow> 97 \<le> ord c \<and> ord c \<le> 122 \<or> is_digit c \<or> c = CHR ''_'' \<or> c = CHR ''-''
     \<or> ord c \<in> {9, 10, 12, 13, 32}"

definition validNameRegex :: "string \<Rightarrow> bool" where
  "validNameRegex s \<longleftrightarrow> s \<noteq> [] \<and> list_all group_char s"

definition to_lower :: "(string \<Rightarrow> string) \<Rightarrow> string \<Rightarrow> string" where
  "to_lower uni s = (if list_all ascii s then map lower s else uni s)"

definition ValidateName :: "(string \<Rightarrow> string) \<Rightarrow> string \<Rightarrow> (group_error, unit) result" where
  "ValidateName uni name =
     (if name = [] \<or> trim_space name = [] then Inl GroupEmpty
      else if str_contains name [CHR 0x00] then Inl GroupNullByte
      else if name \<noteq> to_lower uni name then Inl GroupNotLowercase
      else if \<not> validNameRegex name then Inl (GroupBadChars name)
      else if trim_space name \<noteq> name then Inl (GroupOuterSpace name)
      else if str_contains name ''  '' then Inl (GroupDoubleSpace name)
      else Inr ())"

lemma group_char_lower: "group_char c \<Longrightarrow> ascii c \<and> lower c = c \<and> c \<noteq> CHR 0x00"
  by (auto simp: group_char_def ascii_def lower_def is_digit_def)

lemma to_lower_group: "list_all group_char s \<Longrightarrow> to_lower uni s = s"
  by (induction s) (auto simp: to_lower_def list_all_iff dest: group_char_lower)

text \<open>
  The accepted group names, exactly: non-empty, over lower-case letters, digits, underscore,
  dash and the five white-space bytes of the regular expression, with no white space first or last and no two
  spaces in a row. The Unicode case mapping does not influence the answer.
\<close>
theorem ValidateName_accepts:
  "ValidateName uni name = Inr () \<longleftrightarrow>
     name \<noteq> [] \<and> list_all group_char name \<and> \<not> ascii_space (hd name)
     \<and> \<not> ascii_space (last name) \<and> \<not> str_contains name ''  ''"
proof (cases "name \<noteq> [] \<and> list_all group_char name")
  case True
  then have g: "list_all group_char name" "name \<noteq> []" by simp_all
  then have "ord (hd name) < 128" "ord (last name) < 128"
    using group_char_lower by (auto simp: list_all_iff ascii_def)
  from trim_space_ascii [OF g(2) this] have
    t: "trim_space name = name \<longleftrightarrow> \<not> ascii_space (hd name) \<and> \<not> ascii_space (last name)" .
  have "CHR 0x00 \<notin> set name"
    using g(1) group_char_lower by (auto simp: list_all_iff)
  with True g show ?thesis
    by (simp add: ValidateName_def validNameRegex_def to_lower_group) (use t in auto)
next
  case False
  then show ?thesis by (auto simp: ValidateName_def validNameRegex_def list_all_iff)
qed

text \<open>
  The documented alphabet of a group name is letters, digits, underscore, dash and space, but
  the regular expression's \<open>\s\<close> also admits tab, newline, form feed and carriage return
  inside a name, also next to each other.
\<close>
theorem ValidateName_accepts_control_space:
  "ValidateName uni [CHR ''a'', CHR 9, CHR 9, CHR ''b''] = Inr ()
   \<and> ValidateName uni [CHR ''a'', CHR 10, CHR ''b''] = Inr ()"
proof -
  have "group_char CHR ''a'' \<and> group_char CHR ''b'' \<and> group_char CHR 9 \<and> group_char CHR 10"
    by (simp add: group_char_def)
  then have "list_all group_char [CHR ''a'', CHR 9, CHR 9, CHR ''b'']"
    "list_all group_char [CHR ''a'', CHR 10, CHR ''b'']" by simp_all
  moreover have "trim_space [CHR ''a'', CHR 9, CHR 9, CHR ''b''] = [CHR ''a'', CHR 9, CHR 9, CHR ''b'']"
    "trim_space [CHR ''a'', CHR 10, CHR ''b''] = [CHR ''a'', CHR 10, CHR ''b'']"
    by (subst trim_space_ascii; simp add: ascii_space_def)+
  ultimately show ?thesis
    by (simp add: ValidateName_def validNameRegex_def to_lower_group sublist_eval)
qed

end
