(* ===== verification/Oci_Artifact.thy ===== *)
theory Oci_Artifact
  imports Go_Path "HOL-Library.List_Lexorder" "HOL-Library.Char_ord" "HOL-Library.Multiset"
begin

text \<open>
  The package \<open>oci/artifact\<close>: reproducible tar and gzip (\<open>tar.go\<close>, \<open>gzip.go\<close>), the size- and
  count-checking target (\<open>validate.go\<close>) and platform strings (\<open>platform.go\<close>).

  The archive formats are parameters: a tar writer is given by its \<open>WriteHeader\<close>,
  \<open>Write\<close> and \<open>Close\<close>, a tar reader by the entries it yields before it ends or fails, gzip by its
  two directions; \<open>sort.Slice\<close>, which is not stable, is a parameter too. Digests and JSON
  parsing (third-party and encoding/json) are parameters of the push check.
  A \<open>time.Time\<close> is its Unix time in seconds.
\<close>

type_synonym bytes = "8 word list"
type_synonym gotime = int

definition zero_time :: gotime where
  "zero_time = - 62135596800"

datatype art_error =
    TarWriteHeader string string | TarWriteContent string string | TarClose string
  | TarReadHeader string | TarBackslash string | TarTraversal string | TarAbsolute string
  | TarLink string | TarEntryType nat string | TarTooBig string int | TarReadContent string string
  | GzCreate string | GzWrite string | GzClose string | GzReader string | GzRead string | GzTooBig int
  | CreatingTar art_error | CompressingTar art_error | DecompressingGzip art_error | ExtractingTar art_error
  | NegativeSize int | DeclaredTooBig int int string | ReadingContent string | ActualTooBig int string
  | DigestMismatch string string | ParsingIndex | IndexCount nat | ParsingManifest | LayerCount nat
  | PlatformFormat string | PlatformEmpty string | PlatformVariant string

section \<open>Tar\<close>

record TarOptions =
  to_Epoch :: gotime

definition DefaultTarOptions :: TarOptions where
  "DefaultTarOptions = \<lparr>to_Epoch = 0\<rparr>"

record FileEntry =
  fe_Path :: string
  fe_Content :: bytes
  fe_Mode :: int

record tar_header =
  th_Name :: string
  th_Size :: int
  th_Mode :: int
  th_ModTime :: gotime
  th_Uid :: int
  th_Gid :: int
  th_Uname :: string
  th_Gname :: string
  th_Typeflag :: nat
  th_PAX :: bool

abbreviation TypeReg :: nat where "TypeReg \<equiv> 48"
abbreviation TypeLink :: nat where "TypeLink \<equiv> 49"
abbreviation TypeSymlink :: nat where "TypeSymlink \<equiv> 50"
abbreviation TypeDir :: nat where "TypeDir \<equiv> 53"

record 'w tar_writer =
  tw_new :: 'w
  tw_header :: "'w \<Rightarrow> tar_header \<Rightarrow> (string, 'w) result"
  tw_write :: "'w \<Rightarrow> bytes \<Rightarrow> (string, 'w) result"
  tw_close :: "'w \<Rightarrow> (string, bytes) result"

definition tar_hdr :: "gotime \<Rightarrow> FileEntry \<Rightarrow> tar_header" where
  "tar_hdr epoch f =
     \<lparr>th_Name = fe_Path f, th_Size = int (length (fe_Content f)),
      th_Mode = (if fe_Mode f = 0 then 420 else fe_Mode f), th_ModTime = epoch,
      th_Uid = 0, th_Gid = 0, th_Uname = [], th_Gname = [], th_Typeflag = TypeReg, th_PAX = True\<rparr>"

fun write_files :: "'w tar_writer \<Rightarrow> gotime \<Rightarrow> FileEntry list \<Rightarrow> 'w \<Rightarrow> (art_error, 'w) result" where
  "write_files W epoch [] w = Inr w"
| "write_files W epoch (f # fs) w =
     bindE (map_err (TarWriteHeader (fe_Path f)) (tw_header W w (tar_hdr epoch f)))
       (\<lambda>w1. bindE (map_err (TarWriteContent (fe_Path f)) (tw_write W w1 (fe_Content f)))
         (\<lambda>w2. write_files W epoch fs w2))"

definition CreateTar ::
  "(FileEntry list \<Rightarrow> FileEntry list) \<Rightarrow> 'w tar_writer \<Rightarrow> FileEntry list \<Rightarrow> TarOptions
     \<Rightarrow> (art_error, bytes) result" where
  "CreateTar sortSlice W files opts =
     (let epoch = (if to_Epoch opts = zero_time then 0 else to_Epoch opts)
      in bindE (write_files W epoch (sortSlice files) (tw_new W))
           (\<lambda>w. map_err TarClose (tw_close W w)))"

definition validateTarPath :: "string \<Rightarrow> (art_error, string) result" where
  "validateTarPath p =
     (if str_contains p [CHR 0x5C, CHR 0x5C] then Inl (TarBackslash p)
      else let cleaned = path_clean p in
        if cleaned = ''..'' \<or> has_prefix cleaned ''../'' then Inl (TarTraversal p)
        else if path_is_abs cleaned then Inl (TarAbsolute p)
        else Inr cleaned)"

text \<open>What a tar reader yields: its entries, each with a reader for the content, then the end of
  the archive (\<open>None\<close>) or a header error.\<close>

record tar_stream =
  ts_entries :: "(tar_header \<times> (8 word, string) reader) list"
  ts_end :: "string option"

fun extract_loop ::
  "int \<Rightarrow> (tar_header \<times> (8 word, string) reader) list \<Rightarrow> string option \<Rightarrow> FileEntry list
     \<Rightarrow> (art_error, FileEntry list) result" where
  "extract_loop m [] None files = Inr files"
| "extract_loop m [] (Some e) files = Inl (TarReadHeader e)"
| "extract_loop m ((hdr, r) # rest) fin files =
     bindE (validateTarPath (th_Name hdr)) (\<lambda>cleanedPath.
       if th_Typeflag hdr = TypeDir then extract_loop m rest fin files
       else if th_Typeflag hdr = TypeSymlink \<or> th_Typeflag hdr = TypeLink then Inl (TarLink (th_Name hdr))
       else if th_Typeflag hdr \<noteq> TypeReg then Inl (TarEntryType (th_Typeflag hdr) (th_Name hdr))
       else if th_Size hdr > m then Inl (TarTooBig (th_Name hdr) m)
       else bindE (read_capped (TarReadContent (th_Name hdr)) (TarTooBig (th_Name hdr) m) r m)
         (\<lambda>content. extract_loop m rest fin
            (files @ [\<lparr>fe_Path = cleanedPath, fe_Content = content, fe_Mode = th_Mode hdr\<rparr>])))"

definition ExtractTarWithLimit ::
  "(bytes \<Rightarrow> tar_stream) \<Rightarrow> bytes \<Rightarrow> int \<Rightarrow> (art_error, FileEntry list) result" where
  "ExtractTarWithLimit rd data maxFileSize =
     extract_loop maxFileSize (ts_entries (rd data)) (ts_end (rd data)) []"

definition MaxTarFileSize :: int where
  "MaxTarFileSize = 100 * 1024 * 1024"

definition ExtractTar :: "(bytes \<Rightarrow> tar_stream) \<Rightarrow> bytes \<Rightarrow> (art_error, FileEntry list) result" where
  "ExtractTar rd data = ExtractTarWithLimit rd data MaxTarFileSize"

section \<open>Gzip\<close>

record GzipOptions =
  go_Level :: int
  go_Epoch :: gotime

abbreviation BestCompression :: int where "BestCompression \<equiv> 9"

definition DefaultGzipOptions :: GzipOptions where
  "DefaultGzipOptions = \<lparr>go_Level = BestCompression, go_Epoch = 0\<rparr>"

record gzip_header =
  gh_ModTime :: gotime
  gh_Name :: string
  gh_Comment :: string
  gh_OS :: nat

record 'g gzip_writer =
  gw_new :: "int \<Rightarrow> (string, 'g) result"
  gw_write :: "'g \<Rightarrow> gzip_header \<Rightarrow> bytes \<Rightarrow> (string, 'g) result"
  gw_close :: "'g \<Rightarrow> (string, bytes) result"

definition Compress :: "'g gzip_writer \<Rightarrow> bytes \<Rightarrow> GzipOptions \<Rightarrow> (art_error, bytes) result" where
  "Compress G data opts =
     (let level = (if go_Level opts = 0 then BestCompression else go_Level opts);
          epoch = (if go_Epoch opts = zero_time then 0 else go_Epoch opts);
          hdr = \<lparr>gh_ModTime = epoch, gh_Name = [], gh_Comment = [], gh_OS = 255\<rparr>
      in bindE (map_err GzCreate (gw_new G level))
           (\<lambda>gw. bindE (map_err GzWrite (gw_write G gw hdr data))
             (\<lambda>gw'. map_err GzClose (gw_close G gw'))))"

definition DecompressWithLimit ::
  "(bytes \<Rightarrow> (string, (8 word, string) reader) result) \<Rightarrow> bytes \<Rightarrow> int \<Rightarrow> (art_error, bytes) result" where
  "DecompressWithLimit gunzip data maxSize =
     bindE (map_err GzReader (gunzip data)) (\<lambda>gr. read_capped GzRead (GzTooBig maxSize) gr maxSize)"

definition MaxDecompressedSize :: int where
  "MaxDecompressedSize = 100 * 1024 * 1024"

definition Decompress ::
  "(bytes \<Rightarrow> (string, (8 word, string) reader) result) \<Rightarrow> bytes \<Rightarrow> (art_error, bytes) result" where
  "Decompress gunzip data = DecompressWithLimit gunzip data MaxDecompressedSize"

definition CompressTar where
  "CompressTar sortSlice W G files tarOpts gzipOpts =
     bindE (map_err CreatingTar (CreateTar sortSlice W files tarOpts))
       (\<lambda>tarData. map_err CompressingTar (Compress G tarData gzipOpts))"

definition DecompressTar where
  "DecompressTar gunzip rd data =
     bindE (map_err DecompressingGzip (Decompress gunzip data))
       (\<lambda>tarData. map_err ExtractingTar (ExtractTar rd tarData))"

section \<open>The validating target\<close>

record Descriptor =
  d_MediaType :: string
  d_Digest :: string
  d_Size :: int

abbreviation MediaTypeImageIndex :: string where
  "MediaTypeImageIndex \<equiv> ''application/vnd.oci.image.index.v1+json''"
abbreviation MediaTypeImageManifest :: string where
  "MediaTypeImageManifest \<equiv> ''application/vnd.oci.image.manifest.v1+json''"

definition MaxManifestSize :: int where
  "MaxManifestSize = 1 * 1024 * 1024"

definition MaxBlobSize :: int where
  "MaxBlobSize = 100 * 1024 * 1024"

definition maxIndexManifests :: nat where
  "maxIndexManifests = 32"

definition maxManifestLayers :: nat where
  "maxManifestLayers = 64"

definition isManifestMediaType :: "string \<Rightarrow> bool" where
  "isManifestMediaType mt \<longleftrightarrow> mt \<in> {MediaTypeImageManifest, MediaTypeImageIndex,
     ''application/vnd.docker.distribution.manifest.v2+json'',
     ''application/vnd.docker.distribution.manifest.list.v2+json''}"

text \<open>\<open>nIndex\<close> and \<open>nLayers\<close> stand for \<open>json.Unmarshal\<close> into an index or a manifest followed by the
  length of the list; \<open>None\<close> is a parse failure.\<close>

definition validateManifestCounts ::
  "(bytes \<Rightarrow> nat option) \<Rightarrow> (bytes \<Rightarrow> nat option) \<Rightarrow> string \<Rightarrow> bytes \<Rightarrow> (art_error, unit) result" where
  "validateManifestCounts nIndex nLayers mt data =
     (if mt = MediaTypeImageIndex then
        (case nIndex data of
           None \<Rightarrow> Inl ParsingIndex
         | Some n \<Rightarrow> if n > maxIndexManifests then Inl (IndexCount n) else Inr ())
      else if mt = MediaTypeImageManifest then
        (case nLayers data of
           None \<Rightarrow> Inl ParsingManifest
         | Some n \<Rightarrow> if n > maxManifestLayers then Inl (LayerCount n) else Inr ())
      else Inr ())"

text \<open>\<open>Push\<close> either fails with an error of its own (\<open>Inl\<close>) or hands the bytes it read to the inner
  target, whose answer it returns (\<open>Inr\<close>).\<close>

definition Push ::
  "(bytes \<Rightarrow> string) \<Rightarrow> (bytes \<Rightarrow> nat option) \<Rightarrow> (bytes \<Rightarrow> nat option)
     \<Rightarrow> (Descriptor \<Rightarrow> bytes \<Rightarrow> 'r) \<Rightarrow> Descriptor \<Rightarrow> (8 word, string) reader \<Rightarrow> (art_error, 'r) result" where
  "Push digestOf nIndex nLayers inner desc content =
     (let maxSize = (if isManifestMediaType (d_MediaType desc) then MaxManifestSize else MaxBlobSize)
      in if d_Size desc < 0 then Inl (NegativeSize (d_Size desc))
         else if d_Size desc > maxSize then Inl (DeclaredTooBig (d_Size desc) maxSize (d_MediaType desc))
         else bindE (read_capped ReadingContent (ActualTooBig maxSize (d_MediaType desc)) content maxSize)
           (\<lambda>data. if digestOf data \<noteq> d_Digest desc then Inl (DigestMismatch (d_Digest desc) (digestOf data))
              else bindE (validateManifestCounts nIndex nLayers (d_MediaType desc) data)
                (\<lambda>_. Inr (inner desc data))))"

section \<open>Platforms\<close>

record Platform =
  p_OS :: string
  p_Architecture :: string
  p_Variant :: string

definition PlatformString :: "Platform \<Rightarrow> string" where
  "PlatformString p =
     p_OS p @ ''/'' @ p_Architecture p @ (if p_Variant p \<noteq> [] then ''/'' @ p_Variant p else [])"

definition ParsePlatform :: "string \<Rightarrow> (art_error, Platform) result" where
  "ParsePlatform s =
     (let parts = split_on CHR ''/'' s in
      if length parts < 2 \<or> length parts > 3 then Inl (PlatformFormat s)
      else let osName = trim_space (parts ! 0); arch = trim_space (parts ! 1) in
        if osName = [] \<or> arch = [] then Inl (PlatformEmpty s)
        else if length parts = 3 then
          (let variant = trim_space (parts ! 2) in
           if variant = [] then Inl (PlatformVariant s)
           else Inr \<lparr>p_OS = osName, p_Architecture = arch, p_Variant = variant\<rparr>)
        else Inr \<lparr>p_OS = osName, p_Architecture = arch, p_Variant = []\<rparr>)"

definition DefaultPlatforms :: "Platform list" where
  "DefaultPlatforms =
     [\<lparr>p_OS = ''linux'', p_Architecture = ''amd64'', p_Variant = []\<rparr>,
      \<lparr>p_OS = ''linux'', p_Architecture = ''arm64'', p_Variant = []\<rparr>]"

section \<open>Archive paths\<close>

definition safe_archive_path :: "string \<Rightarrow> bool" where
  "safe_archive_path q \<longleftrightarrow> q = ''.'' \<or> (\<forall>c\<in>set (elems q). plain c)"

lemma join_dotdot:
  "cs \<noteq> [] \<Longrightarrow> hd cs = ''..'' \<Longrightarrow>
     join_with ''/'' cs = ''..'' \<or> has_prefix (join_with ''/'' cs) ''../''"
  by (cases "(''/'', cs)" rule: join_with.cases) auto

lemma elems_dotdot: "q = ''..'' \<or> has_prefix q ''../'' \<Longrightarrow> hd (elems q) = ''..''"
  by (auto simp: prefix_def)

lemma clean_comps_plain:
  assumes "''..'' \<notin> set (clean_comps False (elems p))" "c \<in> set (clean_comps False (elems p))"
  shows "plain c"
  using stack_ok_elem [OF clean_comps_ok [of False p], of c] assms by auto

lemma validateTarPath_rel:
  assumes "\<not> path_is_abs p"
  shows "(path_clean p = ''..'' \<or> has_prefix (path_clean p) ''../'' \<longleftrightarrow> escapes 0 (elems p))
     \<and> \<not> path_is_abs (path_clean p)
     \<and> (\<not> escapes 0 (elems p) \<longrightarrow> safe_archive_path (path_clean p))"
proof (cases p rule: path_clean_cases)
  case dot
  then have "\<not> escapes 0 (elems p)" using clean_comps_escapes [of "elems p"] by simp
  with dot show ?thesis by (simp add: safe_archive_path_def path_is_abs_def)
next
  case (rel cs)
  have esc: "escapes 0 (elems p) \<longleftrightarrow> ''..'' \<in> set cs"
    using clean_comps_escapes rel(1) by simp
  have "path_clean p = ''..'' \<or> has_prefix (path_clean p) ''../'' \<longleftrightarrow> ''..'' \<in> set cs"
  proof
    assume "path_clean p = ''..'' \<or> has_prefix (path_clean p) ''../''"
    then have "hd cs = ''..''" using elems_dotdot rel(4) by metis
    then show "''..'' \<in> set cs" using rel(2) hd_in_set by force
  next
    assume "''..'' \<in> set cs"
    then have "hd cs = ''..''" using clean_comps_hd rel(1) by simp
    then show "path_clean p = ''..'' \<or> has_prefix (path_clean p) ''../''"
      using join_dotdot [OF rel(2)] rel(3) by simp
  qed
  moreover have "safe_archive_path (path_clean p)" if "''..'' \<notin> set cs"
    using that clean_comps_plain [of p] rel by (simp add: safe_archive_path_def)
  ultimately show ?thesis using esc rel(6) by blast
next
  case abs
  with assms show ?thesis by simp
qed

lemma validateTarPath_abs:
  assumes "path_is_abs p"
  shows "\<not> is_ok (validateTarPath p)"
proof (cases p rule: path_clean_cases)
  case abs
  then have "path_is_abs (path_clean p)" by (simp add: path_is_abs_def)
  then show ?thesis by (simp add: validateTarPath_def Let_def)
qed (use assms in simp_all)

lemma validateTarPath_result: "validateTarPath p = Inr q \<Longrightarrow> q = path_clean p"
  by (auto simp: validateTarPath_def Let_def split: if_splits)

lemma validateTarPath_ok:
  "\<not> path_is_abs p \<Longrightarrow> is_ok (validateTarPath p) \<longleftrightarrow>
     \<not> str_contains p [CHR 0x5C, CHR 0x5C] \<and> \<not> escapes 0 (elems p)"
  using validateTarPath_rel [of p] by (simp add: validateTarPath_def Let_def)

lemma validateTarPath_safe:
  assumes "validateTarPath p = Inr q"
  shows "safe_archive_path q \<and> \<not> path_is_abs q"
proof -
  have ok: "is_ok (validateTarPath p)" using assms by simp
  then have rel: "\<not> path_is_abs p" using validateTarPath_abs by blast
  with ok have "\<not> escapes 0 (elems p)" by (simp add: validateTarPath_ok)
  with validateTarPath_rel [OF rel] validateTarPath_result [OF assms] show ?thesis by simp
qed

text \<open>
  C1. Archive entry names: \<open>validateTarPath\<close> accepts a name iff it holds no double backslash, is not
  absolute and its walk never leaves the archive root, and the path it returns is the dot or
  consists of plain elements only (none empty, dot or dot-dot), so it stays below any
  directory it is joined to.
\<close>
theorem validateTarPath_correct:
  "(is_ok (validateTarPath p) \<longleftrightarrow>
      \<not> str_contains p [CHR 0x5C, CHR 0x5C] \<and> \<not> path_is_abs p \<and> \<not> escapes 0 (elems p))
   \<and> (validateTarPath p = Inr q \<longrightarrow> q = path_clean p \<and> safe_archive_path q \<and> \<not> path_is_abs q)"
proof (cases "path_is_abs p")
  case True
  then show ?thesis using validateTarPath_abs [OF True] by (auto simp: is_ok_iff)
next
  case False
  then show ?thesis
    using validateTarPath_ok [OF False] validateTarPath_safe [of p q] validateTarPath_result [of p q] by blast
qed

theorem validateTarPath_correct_witness:
  "validateTarPath ''a/../b/./c'' = Inr ''b/c'' \<and> safe_archive_path ''b/c'' \<and> \<not> path_is_abs ''b/c''"
proof -
  have "validateTarPath ''a/../b/./c'' = Inr ''b/c''"
    by (simp add: validateTarPath_def path_clean_def clean_comps_def clean_step_def path_is_abs_def
        sublist_eval)
  with validateTarPath_correct [of "''a/../b/./c''" "''b/c''"] show ?thesis by blast
qed

text \<open>
  The backslash check of \<open>validateTarPath\<close> looks for two backslashes (a raw string literal), so a name that
  climbs out of the root with single backslashes passes and is returned unchanged.
\<close>
theorem validateTarPath_single_backslash:
  "validateTarPath (''..'' @ [CHR 0x5C] @ ''..'' @ [CHR 0x5C] @ ''x'') = Inr (''..'' @ [CHR 0x5C] @ ''..'' @ [CHR 0x5C] @ ''x'')"
  by (simp add: validateTarPath_def path_clean_def clean_comps_def clean_step_def path_is_abs_def
      sublist_eval)

section \<open>Extraction\<close>

text \<open>What an extracted file owes its archive entry.\<close>

definition extracted_from ::
  "int \<Rightarrow> (tar_header \<times> (8 word, string) reader) list \<Rightarrow> FileEntry \<Rightarrow> bool" where
  "extracted_from m es f \<longleftrightarrow>
     (\<exists>(h, r) \<in> set es. th_Typeflag h = TypeReg \<and> validateTarPath (th_Name h) = Inr (fe_Path f)
        \<and> fe_Mode f = th_Mode h \<and> th_Size h \<le> m \<and> int (length (fe_Content f)) \<le> m
        \<and> (is_int64 m \<and> m < max_int64 \<longrightarrow> fe_Content f = rd_data r \<and> rd_fail r = None))"

lemma extracted_from_mono: "extracted_from m es f \<Longrightarrow> extracted_from m (e # es) f"
  by (auto simp: extracted_from_def)

lemma extract_loop_step:
  assumes "extract_loop m ((hdr, r) # rest) fin files = Inr fs"
  obtains (dir) q where "validateTarPath (th_Name hdr) = Inr q" "th_Typeflag hdr = TypeDir"
      "extract_loop m rest fin files = Inr fs"
  | (reg) f where "extract_loop m rest fin (files @ [f]) = Inr fs" "extracted_from m ((hdr, r) # rest) f"
proof -
  from assms obtain q where q: "validateTarPath (th_Name hdr) = Inr q"
    by (auto simp: bindE_eq_Inr)
  show ?thesis
  proof (cases "th_Typeflag hdr = TypeDir")
    case True
    with assms q dir show ?thesis by simp
  next
    case False
    with assms q have t: "th_Typeflag hdr = TypeReg" "th_Size hdr \<le> m" by (auto split: if_splits)
    with assms q obtain c where
      c: "read_capped (TarReadContent (th_Name hdr)) (TarTooBig (th_Name hdr) m) r m = Inr c" and
      l: "extract_loop m rest fin (files @ [\<lparr>fe_Path = q, fe_Content = c, fe_Mode = th_Mode hdr\<rparr>]) = Inr fs"
      by (auto simp: bindE_eq_Inr)
    have "extracted_from m ((hdr, r) # rest) \<lparr>fe_Path = q, fe_Content = c, fe_Mode = th_Mode hdr\<rparr>"
      using q t read_capped_bound [OF c] read_capped_whole [OF c] by (auto simp: extracted_from_def)
    with l reg show ?thesis by blast
  qed
qed

lemma extract_loop_sound:
  "extract_loop m es fin files = Inr fs \<Longrightarrow>
     fin = None \<and> (\<forall>(h, r) \<in> set es. is_ok (validateTarPath (th_Name h)) \<and> th_Typeflag h \<in> {TypeReg, TypeDir})
     \<and> (\<exists>gs. fs = files @ gs \<and> (\<forall>f \<in> set gs. extracted_from m es f))"
proof (induction es arbitrary: files)
  case Nil
  then show ?case by (cases fin) auto
next
  case (Cons e es)
  obtain hdr r where e: "e = (hdr, r)" by (cases e)
  from Cons.prems [unfolded e] show ?case
  proof (cases rule: extract_loop_step)
    case (dir q)
    from Cons.IH [OF dir(3)] dir(1,2) show ?thesis
      by (auto simp: e is_ok_iff intro: extracted_from_mono)
  next
    case (reg f)
    have "th_Typeflag hdr \<in> {TypeReg, TypeDir}" "is_ok (validateTarPath (th_Name hdr))"
      using Cons.prems [unfolded e] by (auto simp: bindE_eq_Inr is_ok_iff split: if_splits)
    moreover obtain gs where "fs = files @ f # gs" "\<forall>f \<in> set gs. extracted_from m es f"
      "fin = None" "\<forall>(h, r) \<in> set es. is_ok (validateTarPath (th_Name h)) \<and> th_Typeflag h \<in> {TypeReg, TypeDir}"
      using Cons.IH [OF reg(1)] by auto
    ultimately show ?thesis using reg(2) by (auto simp: e intro: extracted_from_mono)
  qed
qed

text \<open>
  C2. Extraction: when \<open>ExtractTarWithLimit\<close> succeeds, the archive held only regular files and
  directories with safe names and ended without an error, and every returned file has a safe path, at most
  \<open>maxFileSize\<close> bytes, and comes from a regular entry of the archive, with that entry's mode and (for
  a limit below the int64 maximum) its whole content.
\<close>
theorem ExtractTarWithLimit_safe:
  assumes "ExtractTarWithLimit rd data m = Inr fs"
  shows "ts_end (rd data) = None
     \<and> (\<forall>(h, r) \<in> set (ts_entries (rd data)). is_ok (validateTarPath (th_Name h)) \<and> th_Typeflag h \<in> {TypeReg, TypeDir})
     \<and> (\<forall>f \<in> set fs. safe_archive_path (fe_Path f) \<and> \<not> path_is_abs (fe_Path f)
          \<and> int (length (fe_Content f)) \<le> m \<and> extracted_from m (ts_entries (rd data)) f)"
proof -
  have "safe_archive_path (fe_Path f) \<and> \<not> path_is_abs (fe_Path f) \<and> int (length (fe_Content f)) \<le> m"
    if "extracted_from m es f" for es f
    using that validateTarPath_safe by (auto simp: extracted_from_def)
  with extract_loop_sound [OF assms [unfolded ExtractTarWithLimit_def]] show ?thesis by auto
qed

definition demo_stream :: tar_stream where
  "demo_stream =
     \<lparr>ts_entries = [(tar_hdr 0 \<lparr>fe_Path = ''d/f'', fe_Content = [1, 2], fe_Mode = 0\<rparr>,
        \<lparr>rd_data = [1, 2], rd_fail = None, rd_joined = False\<rparr>)], ts_end = None\<rparr>"

theorem ExtractTarWithLimit_safe_witness:
  "ExtractTarWithLimit (\<lambda>_. demo_stream) [] 5 = Inr [\<lparr>fe_Path = ''d/f'', fe_Content = [1, 2], fe_Mode = 420\<rparr>]
   \<and> safe_archive_path ''d/f''"
proof -
  have v: "validateTarPath ''d/f'' = Inr ''d/f''"
    by (simp add: validateTarPath_def path_clean_def clean_comps_def clean_step_def path_is_abs_def sublist_eval)
  have e: "ExtractTarWithLimit (\<lambda>_. demo_stream) [] 5 = Inr [\<lparr>fe_Path = ''d/f'', fe_Content = [1, 2], fe_Mode = 420\<rparr>]"
    by (simp add: ExtractTarWithLimit_def demo_stream_def tar_hdr_def v read_capped_def read_limited_def wrap64_def)
  from ExtractTarWithLimit_safe [OF e] e show ?thesis by simp
qed

section \<open>Reproducible archives\<close>

text \<open>The generic run of a tar writer over headers and contents.\<close>

fun write_entries :: "'w tar_writer \<Rightarrow> (tar_header \<times> bytes) list \<Rightarrow> 'w \<Rightarrow> (string, 'w) result" where
  "write_entries W [] w = Inr w"
| "write_entries W ((h, c) # es) w =
     bindE (tw_header W w h) (\<lambda>w1. bindE (tw_write W w1 c) (\<lambda>w2. write_entries W es w2))"

lemma write_files_entries:
  "write_files W epoch fs w = Inr w' \<longleftrightarrow>
     write_entries W (map (\<lambda>f. (tar_hdr epoch f, fe_Content f)) fs) w = Inr w'"
  by (induction fs arbitrary: w) (auto simp: bindE_eq_Inr)

lemma sorted_paths_unique:
  assumes "mset fs = mset gs" "sorted (map fe_Path fs)" "sorted (map fe_Path gs)" "distinct (map fe_Path fs)"
  shows "fs = gs"
proof -
  have "inj_on fe_Path (set fs)" using assms(4) by (simp add: distinct_map)
  then have "sort_key fe_Path fs = fs" "sort_key fe_Path fs = gs"
    using assms sort_key_inj_key_eq [of fs _ fe_Path] by blast+
  then show ?thesis by simp
qed

text \<open>
  Reproducibility: for files with distinct paths, \<open>CreateTar\<close> depends on the set of files only, not
  on their order nor on which (unstable) sorting routine \<open>sort.Slice\<close> is.
\<close>
theorem CreateTar_reproducible:
  assumes sorts: "\<And>fs. mset (srt fs) = mset fs \<and> sorted (map fe_Path (srt fs))"
      "\<And>fs. mset (srt' fs) = mset fs \<and> sorted (map fe_Path (srt' fs))"
    and "mset files = mset files'" and "distinct (map fe_Path files)"
  shows "CreateTar srt W files opts = CreateTar srt' W files' opts"
proof -
  have "mset (map fe_Path (srt files)) = mset (map fe_Path files)" using sorts(1) by simp
  then have "distinct (map fe_Path (srt files))" using assms(4) mset_eq_imp_distinct_iff by blast
  then have "srt files = srt' files'"
    using sorted_paths_unique [of "srt files" "srt' files'"] sorts assms(3) by simp
  then show ?thesis by (simp add: CreateTar_def)
qed

definition log_writer :: "(tar_header \<times> bytes) list tar_writer" where
  "log_writer =
     \<lparr>tw_new = [], tw_header = (\<lambda>w h. Inr (w @ [(h, [])])),
      tw_write = (\<lambda>w c. if w = [] then Inl ''no header'' else Inr (butlast w @ [(fst (last w), c)])),
      tw_close = (\<lambda>w. Inr (concat (map snd w)))\<rparr>"

theorem CreateTar_reproducible_witness:
  "CreateTar (sort_key fe_Path) log_writer
     [\<lparr>fe_Path = ''b'', fe_Content = [2], fe_Mode = 0\<rparr>, \<lparr>fe_Path = ''a'', fe_Content = [1], fe_Mode = 0\<rparr>] DefaultTarOptions
   = CreateTar (sort_key fe_Path) log_writer
     [\<lparr>fe_Path = ''a'', fe_Content = [1], fe_Mode = 0\<rparr>, \<lparr>fe_Path = ''b'', fe_Content = [2], fe_Mode = 0\<rparr>] DefaultTarOptions"
  by (rule CreateTar_reproducible) simp_all

text \<open>The form in which a file comes back from an archive.\<close>

definition normalized :: "FileEntry \<Rightarrow> FileEntry" where
  "normalized f = f\<lparr>fe_Path := path_clean (fe_Path f), fe_Mode := (if fe_Mode f = 0 then 420 else fe_Mode f)\<rparr>"

definition same_entry :: "tar_header \<times> (8 word, string) reader \<Rightarrow> tar_header \<times> bytes \<Rightarrow> bool" where
  "same_entry e e' \<longleftrightarrow> th_Name (fst e) = th_Name (fst e') \<and> th_Size (fst e) = th_Size (fst e')
     \<and> th_Mode (fst e) = th_Mode (fst e') \<and> th_Typeflag (fst e) = th_Typeflag (fst e')
     \<and> rd_data (snd e) = snd e' \<and> rd_fail (snd e) = None"

lemma extract_loop_written:
  assumes "list_all2 same_entry es (map (\<lambda>f. (tar_hdr epoch f, fe_Content f)) fs)"
    and "\<forall>f\<in>set fs. is_ok (validateTarPath (fe_Path f)) \<and> int (length (fe_Content f)) \<le> m"
    and "is_int64 m" "m < max_int64"
  shows "extract_loop m es None acc = Inr (acc @ map normalized fs)"
  using assms(1,2)
proof (induction fs arbitrary: es acc)
  case Nil
  then show ?case by simp
next
  case (Cons f fs)
  then obtain h r es' where es: "es = (h, r) # es'" and
    hd: "same_entry (h, r) (tar_hdr epoch f, fe_Content f)" and
    tl: "list_all2 same_entry es' (map (\<lambda>f. (tar_hdr epoch f, fe_Content f)) fs)"
    by (auto simp: list_all2_Cons2)
  have v: "validateTarPath (fe_Path f) = Inr (path_clean (fe_Path f))"
    using Cons.prems(2) validateTarPath_result [of "fe_Path f"] by (auto simp: is_ok_iff)
  have len: "int (length (fe_Content f)) \<le> m" using Cons.prems(2) by simp
  have "read_capped x y r m = Inr (fe_Content f)" for x :: "string \<Rightarrow> art_error" and y
    using read_capped_clean [of r m x y] hd len assms(3,4) by (simp add: same_entry_def)
  with Cons.IH [OF tl] Cons.prems(2) hd v len show ?case
    by (simp add: es same_entry_def tar_hdr_def normalized_def)
qed

text \<open>
  Round trip: for a tar codec whose reader yields the entries its writer was given, \<open>ExtractTar\<close> of an
  archive made by \<open>CreateTar\<close> returns the files in path order, with cleaned paths and the default
  mode filled in, provided every path is acceptable and no file is above the size limit.
\<close>
theorem tar_round_trip:
  assumes codec: "\<And>es w b. write_entries W es (tw_new W) = Inr w \<Longrightarrow> tw_close W w = Inr b \<Longrightarrow>
      list_all2 same_entry (ts_entries (rd b)) es \<and> ts_end (rd b) = None"
    and perm: "\<And>fs. mset (srt fs) = mset fs"
    and created: "CreateTar srt W files opts = Inr b"
    and files: "\<forall>f\<in>set files. is_ok (validateTarPath (fe_Path f)) \<and> int (length (fe_Content f)) \<le> MaxTarFileSize"
  shows "ExtractTar rd b = Inr (map normalized (srt files))"
proof -
  define epoch where "epoch = (if to_Epoch opts = zero_time then 0 else to_Epoch opts)"
  let ?es = "map (\<lambda>f. (tar_hdr epoch f, fe_Content f)) (srt files)"
  from created obtain w where "write_entries W ?es (tw_new W) = Inr w" "tw_close W w = Inr b"
    by (auto simp: CreateTar_def epoch_def Let_def bindE_eq_Inr write_files_entries)
  from codec [OF this] have "list_all2 same_entry (ts_entries (rd b)) ?es" "ts_end (rd b) = None" by auto
  moreover have "set (srt files) = set files" using perm [of files] by (metis set_mset_mset)
  moreover have "is_int64 MaxTarFileSize" "MaxTarFileSize < max_int64"
    by (simp_all add: MaxTarFileSize_def is_int64_def max_int64_def)
  ultimately show ?thesis
    using extract_loop_written [of "ts_entries (rd b)" epoch "srt files" MaxTarFileSize "[]"] files
    by (simp add: ExtractTar_def ExtractTarWithLimit_def)
qed

text \<open>A codec for the witness: its writer accepts one archive, which its reader yields.\<close>

definition demo_file :: FileEntry where
  "demo_file = \<lparr>fe_Path = ''d/f'', fe_Content = [1, 2], fe_Mode = 0\<rparr>"

definition demo_writer :: "(tar_header \<times> bytes) list tar_writer" where
  "demo_writer = log_writer\<lparr>tw_close := (\<lambda>w. if w = [(tar_hdr 0 demo_file, [1, 2])] then Inr [] else Inl ''full'')\<rparr>"

lemma log_writer_entries:
  "W \<in> {log_writer, demo_writer} \<Longrightarrow> write_entries W es w = Inr w' \<Longrightarrow> w' = w @ es"
proof (induction es arbitrary: w)
  case Nil
  then show ?case by simp
next
  case (Cons e es)
  obtain h c where e: "e = (h, c)" by (cases e)
  have "tw_header W w h = Inr (w @ [(h, [])])" "tw_write W (w @ [(h, [])]) c = Inr (w @ [(h, c)])"
    using Cons.prems(1) by (auto simp: log_writer_def demo_writer_def)
  with Cons.prems(2) have "write_entries W es (w @ [(h, c)]) = Inr w'" by (simp add: e)
  from Cons.IH [OF Cons.prems(1) this] show ?case by (simp add: e)
qed

theorem tar_round_trip_witness:
  "ExtractTar (\<lambda>_. demo_stream) [] = Inr [\<lparr>fe_Path = ''d/f'', fe_Content = [1, 2], fe_Mode = 420\<rparr>]"
proof -
  have v: "validateTarPath ''d/f'' = Inr ''d/f''" and c: "path_clean ''d/f'' = ''d/f''"
    by (simp_all add: validateTarPath_def path_clean_def clean_comps_def clean_step_def path_is_abs_def sublist_eval)
  have "ExtractTar (\<lambda>_. demo_stream) [] = Inr (map normalized [demo_file])"
  proof (rule tar_round_trip [where W = demo_writer and srt = "\<lambda>x. x" and opts = DefaultTarOptions])
    show "CreateTar (\<lambda>x. x) demo_writer [demo_file] DefaultTarOptions = Inr []"
      by (simp add: CreateTar_def DefaultTarOptions_def demo_writer_def log_writer_def zero_time_def demo_file_def)
    show "\<forall>f\<in>set [demo_file]. is_ok (validateTarPath (fe_Path f)) \<and> int (length (fe_Content f)) \<le> MaxTarFileSize"
      by (simp add: demo_file_def v MaxTarFileSize_def)
    fix es w b
    assume "write_entries demo_writer es (tw_new demo_writer) = Inr w" "tw_close demo_writer w = Inr b"
    then have "es = [(tar_hdr 0 demo_file, [1, 2])]"
      using log_writer_entries [of demo_writer es "tw_new demo_writer" w]
      by (auto simp: demo_writer_def log_writer_def split: if_splits)
    then show "list_all2 same_entry (ts_entries demo_stream) es \<and> ts_end demo_stream = None"
      by (simp add: demo_stream_def same_entry_def demo_file_def)
  qed simp
  then show ?thesis by (simp add: normalized_def demo_file_def c)
qed

section \<open>Decompression limits\<close>

text \<open>
  Decompression bombs: with a limit below the int64 maximum, \<open>DecompressWithLimit\<close> returns either the whole
  uncompressed stream, which is then no longer than the limit, or an error, and a stream that ends
  cleanly is refused exactly when it is longer than the limit.
\<close>
theorem DecompressWithLimit_exact:
  assumes "is_int64 m" "m < max_int64" "gunzip data = Inr gr"
  shows "(DecompressWithLimit gunzip data m = Inr xs \<longrightarrow>
            xs = rd_data gr \<and> rd_fail gr = None \<and> int (length xs) \<le> m)
     \<and> (rd_fail gr = None \<longrightarrow> DecompressWithLimit gunzip data m =
            (if int (length (rd_data gr)) \<le> m then Inr (rd_data gr) else Inl (GzTooBig m)))"
proof -
  have d: "DecompressWithLimit gunzip data m = read_capped GzRead (GzTooBig m) gr m"
    using assms(3) by (simp add: DecompressWithLimit_def)
  have "xs = rd_data gr \<and> rd_fail gr = None \<and> int (length xs) \<le> m"
    if "read_capped GzRead (GzTooBig m) gr m = Inr xs"
    using read_capped_whole [OF that assms(1,2)] read_capped_bound [OF that] by simp
  moreover have "read_capped GzRead (GzTooBig m) gr m =
      (if int (length (rd_data gr)) \<le> m then Inr (rd_data gr) else Inl (GzTooBig m))"
    if "rd_fail gr = None"
    by (rule read_capped_clean [OF that assms(1,2)])
  ultimately show ?thesis unfolding d by (rule conjI [OF impI impI])
qed

theorem DecompressWithLimit_exact_witness:
  "DecompressWithLimit (\<lambda>d. Inr \<lparr>rd_data = d @ d, rd_fail = None, rd_joined = True\<rparr>) [7, 8] 3 = Inl (GzTooBig 3)"
proof -
  have "is_int64 3" "3 < max_int64" by (simp_all add: is_int64_def max_int64_def)
  from DecompressWithLimit_exact [OF this refl, of "\<lambda>d. \<lparr>rd_data = d @ d, rd_fail = None, rd_joined = True\<rparr>" "[7, 8]" "[]"]
  show ?thesis by simp
qed

text \<open>
  At the largest int64 the \<open>maxSize+1\<close> passed to the limited reader wraps to a negative
  number, so \<open>DecompressWithLimit\<close> and the content read of \<open>ExtractTarWithLimit\<close> succeed with no bytes at all, whatever
  the stream holds.
\<close>
theorem limit_overflow_drops_content:
  "DecompressWithLimit (\<lambda>d. Inr gr) data max_int64 = Inr []
   \<and> ExtractTarWithLimit (\<lambda>d. \<lparr>ts_entries = [(tar_hdr 0 \<lparr>fe_Path = ''f'', fe_Content = [1], fe_Mode = 0\<rparr>, gr)],
        ts_end = None\<rparr>) data max_int64 = Inr [\<lparr>fe_Path = ''f'', fe_Content = [], fe_Mode = 420\<rparr>]"
proof -
  have v: "validateTarPath ''f'' = Inr ''f''"
    by (simp add: validateTarPath_def path_clean_def clean_comps_def clean_step_def path_is_abs_def sublist_eval)
  have "\<not> 1 > max_int64" by (simp add: max_int64_def)
  then show ?thesis
    by (simp add: DecompressWithLimit_def ExtractTarWithLimit_def read_capped_overflow tar_hdr_def v)
qed

text \<open>Decompression and extraction of a compressed archive.\<close>

lemma layer_round_trip:
  assumes gz: "\<And>l h d g g' z. gw_new G l = Inr g \<Longrightarrow> gw_write G g h d = Inr g' \<Longrightarrow> gw_close G g' = Inr z \<Longrightarrow>
      \<exists>r. gunzip z = Inr r \<and> rd_data r = d \<and> rd_fail r = None"
    and tar: "\<And>es w b. write_entries W es (tw_new W) = Inr w \<Longrightarrow> tw_close W w = Inr b \<Longrightarrow>
      list_all2 same_entry (ts_entries (rd b)) es \<and> ts_end (rd b) = None"
    and perm: "\<And>fs. mset (srt fs) = mset fs"
    and created: "CreateTar srt W files tarOpts = Inr b" "Compress G b gzipOpts = Inr z"
    and size: "int (length b) \<le> MaxDecompressedSize"
    and files: "\<forall>f\<in>set files. is_ok (validateTarPath (fe_Path f)) \<and> int (length (fe_Content f)) \<le> MaxTarFileSize"
  shows "DecompressTar gunzip rd z = Inr (map normalized (srt files))"
proof -
  define epoch where "epoch = (if to_Epoch tarOpts = zero_time then 0 else to_Epoch tarOpts)"
  let ?es = "map (\<lambda>f. (tar_hdr epoch f, fe_Content f)) (srt files)"
  from created(1) obtain w where "write_entries W ?es (tw_new W) = Inr w" "tw_close W w = Inr b"
    by (auto simp: CreateTar_def epoch_def Let_def bindE_eq_Inr write_files_entries)
  from tar [OF this] have t: "list_all2 same_entry (ts_entries (rd b)) ?es" "ts_end (rd b) = None" by auto
  from created(2) obtain l g h g' where "gw_new G l = Inr g" "gw_write G g h b = Inr g'" "gw_close G g' = Inr z"
    by (auto simp: Compress_def Let_def bindE_eq_Inr)
  from gz [OF this] obtain r where r: "gunzip z = Inr r" "rd_data r = b" "rd_fail r = None" by blast
  have lim: "is_int64 MaxTarFileSize" "MaxTarFileSize < max_int64"
      "is_int64 MaxDecompressedSize" "MaxDecompressedSize < max_int64"
    by (simp_all add: MaxTarFileSize_def MaxDecompressedSize_def is_int64_def max_int64_def)
  have "Decompress gunzip z = Inr b"
    using read_capped_clean [OF r(3) lim(3,4)] r size by (simp add: Decompress_def DecompressWithLimit_def)
  moreover have "set (srt files) = set files" using perm [of files] by (metis set_mset_mset)
  then have "ExtractTar rd b = Inr (map normalized (srt files))"
    using extract_loop_written [OF t(1) _ lim(1,2), of "[]"] files t(2)
    by (simp add: ExtractTar_def ExtractTarWithLimit_def)
  ultimately show ?thesis by (simp add: DecompressTar_def)
qed

text \<open>
  C18. The whole pipeline: for a gzip codec that returns what was compressed and a tar codec that returns what was
  written, \<open>DecompressTar\<close> of the output of \<open>CompressTar\<close> is the normalised file list in path order, as long as
  the tar data and every file are within the 100 MB limits.
\<close>
theorem targz_round_trip:
  assumes gz: "\<And>l h d g g' z. gw_new G l = Inr g \<Longrightarrow> gw_write G g h d = Inr g' \<Longrightarrow> gw_close G g' = Inr z \<Longrightarrow>
      \<exists>r. gunzip z = Inr r \<and> rd_data r = d \<and> rd_fail r = None"
    and tar: "\<And>es w b. write_entries W es (tw_new W) = Inr w \<Longrightarrow> tw_close W w = Inr b \<Longrightarrow>
      list_all2 same_entry (ts_entries (rd b)) es \<and> ts_end (rd b) = None"
    and perm: "\<And>fs. mset (srt fs) = mset fs"
    and created: "CreateTar srt W files tarOpts = Inr b" "CompressTar srt W G files tarOpts gzipOpts = Inr z"
    and size: "int (length b) \<le> MaxDecompressedSize"
    and files: "\<forall>f\<in>set files. is_ok (validateTarPath (fe_Path f)) \<and> int (length (fe_Content f)) \<le> MaxTarFileSize"
  shows "DecompressTar gunzip rd z = Inr (map normalized (srt files))"
proof -
  from created have "Compress G b gzipOpts = Inr z"
    by (auto simp: CompressTar_def bindE_eq_Inr)
  from layer_round_trip [OF gz tar perm created(1) this size files] show ?thesis .
qed

definition demo_gzip :: "bytes gzip_writer" where
  "demo_gzip =
     \<lparr>gw_new = (\<lambda>l. if l < - 2 \<or> l > 9 then Inl ''level'' else Inr []),
      gw_write = (\<lambda>g h d. Inr d), gw_close = (\<lambda>g. Inr (31 # 139 # g))\<rparr>"

lemma demo_codec:
  assumes "write_entries demo_writer es (tw_new demo_writer) = Inr w" "tw_close demo_writer w = Inr b"
  shows "list_all2 same_entry (ts_entries demo_stream) es \<and> ts_end demo_stream = None"
proof -
  have "es = [(tar_hdr 0 demo_file, [1, 2])]"
    using log_writer_entries [of demo_writer es "tw_new demo_writer" w] assms
    by (auto simp: demo_writer_def log_writer_def split: if_splits)
  then show ?thesis by (simp add: demo_stream_def same_entry_def demo_file_def)
qed

theorem targz_round_trip_witness:
  "DecompressTar (\<lambda>z. Inr \<lparr>rd_data = drop 2 z, rd_fail = None, rd_joined = False\<rparr>) (\<lambda>_. demo_stream) [31, 139]
   = Inr [\<lparr>fe_Path = ''d/f'', fe_Content = [1, 2], fe_Mode = 420\<rparr>]"
proof -
  have v: "validateTarPath ''d/f'' = Inr ''d/f''" and c: "path_clean ''d/f'' = ''d/f''"
    by (simp_all add: validateTarPath_def path_clean_def clean_comps_def clean_step_def path_is_abs_def sublist_eval)
  have t: "CreateTar (\<lambda>x. x) demo_writer [demo_file] DefaultTarOptions = Inr []"
    by (simp add: CreateTar_def DefaultTarOptions_def demo_writer_def log_writer_def zero_time_def demo_file_def)
  have z: "CompressTar (\<lambda>x. x) demo_writer demo_gzip [demo_file] DefaultTarOptions DefaultGzipOptions = Inr [31, 139]"
    by (simp add: CompressTar_def t Compress_def DefaultGzipOptions_def demo_gzip_def)
  have "DecompressTar (\<lambda>z. Inr \<lparr>rd_data = drop 2 z, rd_fail = None, rd_joined = False\<rparr>) (\<lambda>_. demo_stream) [31, 139]
     = Inr (map normalized [demo_file])"
    by (rule targz_round_trip [OF _ demo_codec _ t z])
      (auto simp: demo_gzip_def demo_file_def v MaxTarFileSize_def MaxDecompressedSize_def split: if_splits)
  then show ?thesis by (simp add: normalized_def demo_file_def c)
qed

section \<open>Pushing to a validating target\<close>

definition push_limit :: "string \<Rightarrow> int" where
  "push_limit mt = (if isManifestMediaType mt then MaxManifestSize else MaxBlobSize)"

lemma push_limit_range: "is_int64 (push_limit mt) \<and> push_limit mt < max_int64"
  by (simp add: push_limit_def MaxManifestSize_def MaxBlobSize_def is_int64_def max_int64_def)

lemma Push_reaches:
  "Push dg ni nl inner desc content = Inr x \<longleftrightarrow>
     0 \<le> d_Size desc \<and> d_Size desc \<le> push_limit (d_MediaType desc)
     \<and> (\<exists>data. read_capped ReadingContent (ActualTooBig (push_limit (d_MediaType desc)) (d_MediaType desc)) content
              (push_limit (d_MediaType desc)) = Inr data
          \<and> dg data = d_Digest desc \<and> validateManifestCounts ni nl (d_MediaType desc) data = Inr ()
          \<and> x = inner desc data)"
  by (auto simp: Push_def push_limit_def Let_def bindE_eq_Inr)

lemma media_types_differ: "MediaTypeImageIndex \<noteq> MediaTypeImageManifest"
  by simp

lemma validateManifestCounts_ok:
  "validateManifestCounts ni nl mt data = Inr () \<longleftrightarrow>
     (mt = MediaTypeImageIndex \<longrightarrow> (\<exists>n \<le> 32. ni data = Some n))
     \<and> (mt = MediaTypeImageManifest \<longrightarrow> (\<exists>n \<le> 64. nl data = Some n))"
  unfolding validateManifestCounts_def maxIndexManifests_def maxManifestLayers_def
  using media_types_differ by (auto simp del: list.inject split: option.splits)

text \<open>
  C4. The inner target is reached iff the content ends cleanly within the limit of its media type
  (1 MB for the four manifest types, 100 MB otherwise), the declared size is within it too, the
  digest of the whole content is the declared one, an index lists at most 32 manifests and a
  manifest at most 64 layers; and it is then handed exactly that content.
\<close>
theorem Push_validates:
  "Push dg ni nl (\<lambda>d x. Some (d, x)) desc content = Inr y \<longleftrightarrow>
     0 \<le> d_Size desc \<and> d_Size desc \<le> push_limit (d_MediaType desc)
     \<and> rd_fail content = None \<and> int (length (rd_data content)) \<le> push_limit (d_MediaType desc)
     \<and> dg (rd_data content) = d_Digest desc
     \<and> (d_MediaType desc = MediaTypeImageIndex \<longrightarrow> (\<exists>n \<le> 32. ni (rd_data content) = Some n))
     \<and> (d_MediaType desc = MediaTypeImageManifest \<longrightarrow> (\<exists>n \<le> 64. nl (rd_data content) = Some n))
     \<and> y = Some (desc, rd_data content)"
proof -
  let ?m = "push_limit (d_MediaType desc)"
  let ?c = "read_capped ReadingContent (ActualTooBig ?m (d_MediaType desc)) content ?m"
  have r: "is_int64 ?m" "?m < max_int64" using push_limit_range by blast+
  have cap: "?c = Inr data \<longleftrightarrow>
      data = rd_data content \<and> rd_fail content = None \<and> int (length (rd_data content)) \<le> ?m" for data
  proof
    assume "?c = Inr data"
    then show "data = rd_data content \<and> rd_fail content = None \<and> int (length (rd_data content)) \<le> ?m"
      using read_capped_whole [OF _ r] read_capped_bound by metis
  next
    assume "data = rd_data content \<and> rd_fail content = None \<and> int (length (rd_data content)) \<le> ?m"
    then show "?c = Inr data" using read_capped_clean [OF _ r] by metis
  qed
  show ?thesis unfolding Push_reaches cap validateManifestCounts_ok by blast
qed

theorem Push_validates_witness:
  "Push (\<lambda>d. ''sha256:1'') (\<lambda>_. None) (\<lambda>_. Some 2) (\<lambda>d x. Some (d, x))
     \<lparr>d_MediaType = MediaTypeImageManifest, d_Digest = ''sha256:1'', d_Size = 3\<rparr>
     \<lparr>rd_data = [1, 2, 3], rd_fail = None, rd_joined = False\<rparr>
   = Inr (Some (\<lparr>d_MediaType = MediaTypeImageManifest, d_Digest = ''sha256:1'', d_Size = 3\<rparr>, [1, 2, 3]))"
  by (subst Push_validates) (simp add: push_limit_def isManifestMediaType_def MaxManifestSize_def)

section \<open>Platform strings\<close>

definition platform_field :: "string \<Rightarrow> bool" where
  "platform_field s \<longleftrightarrow> CHR ''/'' \<notin> set s \<and> trim_space s = s"

text \<open>
  Platform strings round-trip: a platform with non-empty operating system and architecture and fields without slash
  and outer white space is what \<open>ParsePlatform\<close> reads back from its \<open>PlatformString\<close>.
\<close>
theorem platform_round_trip:
  assumes "platform_field (p_OS p)" "platform_field (p_Architecture p)" "platform_field (p_Variant p)"
    and "p_OS p \<noteq> []" "p_Architecture p \<noteq> []"
  shows "ParsePlatform (PlatformString p) = Inr p"
proof (cases "p_Variant p = []")
  case True
  then have "split_on CHR ''/'' (PlatformString p) = [p_OS p, p_Architecture p]"
    using assms by (simp add: PlatformString_def platform_field_def split_on_append split_on_no_sep)
  with True assms show ?thesis by (simp add: ParsePlatform_def platform_field_def)
next
  case False
  then have "split_on CHR ''/'' (PlatformString p) = [p_OS p, p_Architecture p, p_Variant p]"
    using assms by (simp add: PlatformString_def platform_field_def split_on_append split_on_no_sep)
  with False assms show ?thesis by (simp add: ParsePlatform_def platform_field_def numeral_2_eq_2)
qed

theorem platform_round_trip_witness:
  "map (\<lambda>p. ParsePlatform (PlatformString p)) DefaultPlatforms = map Inr DefaultPlatforms"
proof -
  have "platform_field ''linux'' \<and> platform_field ''amd64'' \<and> platform_field ''arm64''"
    by (simp add: platform_field_def trim_space_ascii ascii_space_def)
  moreover have "platform_field []" by (simp add: platform_field_def trim_space_eq ws_seqs_def)
  ultimately show ?thesis by (simp add: DefaultPlatforms_def platform_round_trip)
qed

end
