(* ===== verification/Oci_Store.thy ===== *)
theory Oci_Store
  imports Oci_Artifact
begin

text \<open>
  The local artifact store of skills (\<open>oci/skills/store.go\<close>): blobs and manifests in an OCI image layout, tags, and the deletion of
  builds.

  The layout itself (\<open>oci.Store\<close> of oras, and \<open>os.Remove\<close> on its files) is a state \<open>'s\<close> with the operations of the record
  \<open>layout\<close>; \<open>oci_lib\<close> holds go-digest and \<open>encoding/json\<close> on the image-spec types. What the theorems rely on is stated
  by \<open>layout_laws\<close>. Operations that write return the new state beside their result; \<open>bindS\<close> is their sequence,
  which stops at the first error.
\<close>

section \<open>Image-spec data\<close>

record OciDescriptor = Descriptor +
  d_Annotations :: "(string \<times> string) list option"
  d_Platform :: "Platform option"

record Manifest =
  mf_SchemaVersion :: int
  mf_MediaType :: string
  mf_ArtifactType :: string
  mf_Config :: OciDescriptor
  mf_Layers :: "OciDescriptor list"
  mf_Annotations :: "(string \<times> string) list option"

record Index =
  ix_SchemaVersion :: int
  ix_MediaType :: string
  ix_ArtifactType :: string
  ix_Manifests :: "OciDescriptor list"
  ix_Annotations :: "(string \<times> string) list option"

section \<open>Libraries\<close>

datatype layout_err = ErrAlreadyExists | ErrNotFound | LayoutErr string

datatype io_err = NotExist | IOErr string

record 's layout =
  lo_Push :: "OciDescriptor \<Rightarrow> bytes \<Rightarrow> 's \<Rightarrow> layout_err option \<times> 's"
  lo_Fetch :: "string \<Rightarrow> 's \<Rightarrow> (layout_err, (8 word, string) reader) result"
  lo_Resolve :: "string \<Rightarrow> 's \<Rightarrow> (layout_err, OciDescriptor) result"
  lo_Tag :: "OciDescriptor \<Rightarrow> string \<Rightarrow> 's \<Rightarrow> layout_err option \<times> 's"
  lo_Untag :: "string \<Rightarrow> 's \<Rightarrow> layout_err option \<times> 's"
  lo_Tags :: "'s \<Rightarrow> string list list \<times> layout_err option"
  lo_Remove :: "string \<Rightarrow> 's \<Rightarrow> io_err option \<times> 's"

record oci_lib =
  FromBytes :: "bytes \<Rightarrow> string"
  dg_Validate :: "string \<Rightarrow> string option"
  dg_Algorithm :: "string \<Rightarrow> string"
  dg_Encoded :: "string \<Rightarrow> string"
  js_mediaType :: "bytes \<Rightarrow> string option"
  js_Index :: "bytes \<Rightarrow> Index option"
  js_Manifest :: "bytes \<Rightarrow> Manifest option"

record 's Store =
  st_root :: string
  inner :: "'s layout"

datatype store_error =
    Layout layout_err | ReadFailed string | FetchTooBig string
  | WritingBlob layout_err | BlobNotFound string store_error
  | WritingManifest layout_err | ManifestNotFound string store_error
  | ResolvingDigest layout_err | Tagging layout_err
  | TagNotFound string layout_err | RemovingTag layout_err | BuildNotFound string store_error
  | WithStatus int store_error
  | ListingTags layout_err | GettingIndex store_error | IndexSyntax | MediaTypeSyntax
  | CheckingReferences store_error | InspectingOrphan store_error | FetchingOrphanIndex store_error
  | FetchingManifest string store_error | ManifestSyntax string
  | InvalidDigest string string | EscapesRoot string | DeletingBlob string string

definition bindS :: "('e, 'a) result \<times> 's \<Rightarrow> ('a \<Rightarrow> 's \<Rightarrow> ('e, 'b) result \<times> 's) \<Rightarrow> ('e, 'b) result \<times> 's" where
  "bindS m f = (case m of (Inl e, s) \<Rightarrow> (Inl e, s) | (Inr x, s) \<Rightarrow> f x s)"

definition wrapS :: "('e \<Rightarrow> 'f) \<Rightarrow> ('e, 'a) result \<times> 's \<Rightarrow> ('f, 'a) result \<times> 's" where
  "wrapS h m = (map_err h (fst m), snd m)"

lemma bindS_simps [simp]: "bindS (Inl e, s) f = (Inl e, s)" "bindS (Inr x, s) f = f x s"
  by (simp_all add: bindS_def)

lemma bindS_eq_Inr [res_dest]:
  "bindS m f = (Inr y, s') \<longleftrightarrow> (\<exists>x s. m = (Inr x, s) \<and> f x s = (Inr y, s'))"
  by (cases m; cases "fst m") (auto simp: bindS_def)

lemma wrapS_eq_Inr [simp]: "wrapS h m = (Inr y, s) \<longleftrightarrow> m = (Inr y, s)"
  by (cases m) (auto simp: wrapS_def)

lemma wrapS_simps [simp]: "wrapS h (Inr x, s) = (Inr x, s)" "wrapS h (Inl e, s) = (Inl (h e), s)"
  by (simp_all add: wrapS_def)

text \<open>\<open>string(b)\<close>.\<close>

definition str_of :: "bytes \<Rightarrow> string" where
  "str_of c = map (\<lambda>b. char_of (unat b)) c"

lemma str_of_inj: "str_of c = str_of c' \<Longrightarrow> c = c'"
proof -
  have "inj (\<lambda>b :: 8 word. char_of (unat b))"
  proof (rule injI)
    fix a b :: "8 word"
    assume "(char_of (unat a) :: char) = char_of (unat b)"
    then have "ord (char_of (unat a) :: char) = ord (char_of (unat b) :: char)" by (rule arg_cong)
    moreover have "unat a < 256" "unat b < 256" using unsigned_less[of a, where ?'a = nat] unsigned_less[of b, where ?'a = nat] by simp_all
    ultimately show "a = b" by (simp add: word_unat_eq_iff)
  qed
  then show "str_of c = str_of c' \<Longrightarrow> c = c'" by (simp add: str_of_def inj_map_eq_map)
qed

text \<open>\<open>filepath.Join\<close> on Unix.\<close>

definition filepath_Join :: "string list \<Rightarrow> string" where
  "filepath_Join es = (let es = filter (\<lambda>e. e \<noteq> []) es in if es = [] then [] else path_clean (join_with ''/'' es))"

section \<open>Reading and writing\<close>

abbreviation mediaTypeOctetStream :: string where
  "mediaTypeOctetStream \<equiv> ''application/octet-stream''"

definition StoreRoot :: "string \<Rightarrow> string" where
  "StoreRoot dataHome = filepath_Join [dataHome, ''toolhive'', ''skills'']"

definition fetchContent :: "'s Store \<Rightarrow> string \<Rightarrow> 's \<Rightarrow> (store_error, bytes) result" where
  "fetchContent s d st =
     bindE (map_err Layout (lo_Fetch (inner s) d st))
       (\<lambda>rc. read_capped ReadFailed (FetchTooBig d) rc MaxBlobSize)"

definition plain_desc :: "string \<Rightarrow> string \<Rightarrow> int \<Rightarrow> OciDescriptor" where
  "plain_desc mt d n = \<lparr>d_MediaType = mt, d_Digest = d, d_Size = n, d_Annotations = None, d_Platform = None\<rparr>"

definition PutBlob :: "oci_lib \<Rightarrow> 's Store \<Rightarrow> bytes \<Rightarrow> 's \<Rightarrow> (store_error, string) result \<times> 's" where
  "PutBlob L s content st =
     (let d = FromBytes L content;
          desc = plain_desc mediaTypeOctetStream d (int (length content))
      in case lo_Push (inner s) desc content st of
           (None, st') \<Rightarrow> (Inr d, st')
         | (Some ErrAlreadyExists, st') \<Rightarrow> (Inr d, st')
         | (Some e, st') \<Rightarrow> (Inl (WritingBlob e), st'))"

definition GetBlob :: "'s Store \<Rightarrow> string \<Rightarrow> 's \<Rightarrow> (store_error, bytes) result" where
  "GetBlob s d st = map_err (BlobNotFound d) (fetchContent s d st)"

definition PutManifest :: "oci_lib \<Rightarrow> 's Store \<Rightarrow> bytes \<Rightarrow> 's \<Rightarrow> (store_error, string) result \<times> 's" where
  "PutManifest L s content st =
     (let d = FromBytes L content;
          mediaType = (case js_mediaType L content of
                         Some mt \<Rightarrow> if mt \<noteq> [] then mt else mediaTypeOctetStream
                       | None \<Rightarrow> mediaTypeOctetStream);
          desc = plain_desc mediaType d (int (length content))
      in case lo_Push (inner s) desc content st of
           (None, st') \<Rightarrow> (Inr d, st')
         | (Some ErrAlreadyExists, st') \<Rightarrow> (Inr d, st')
         | (Some e, st') \<Rightarrow> (Inl (WritingManifest e), st'))"

definition GetManifest :: "'s Store \<Rightarrow> string \<Rightarrow> 's \<Rightarrow> (store_error, bytes) result" where
  "GetManifest s d st = map_err (ManifestNotFound d) (fetchContent s d st)"

definition GetIndex :: "oci_lib \<Rightarrow> 's Store \<Rightarrow> string \<Rightarrow> 's \<Rightarrow> (store_error, Index) result" where
  "GetIndex L s d st =
     bindE (map_err GettingIndex (fetchContent s d st))
       (\<lambda>data. case js_Index L data of None \<Rightarrow> Inl IndexSyntax | Some index \<Rightarrow> Inr index)"

definition IsIndex :: "oci_lib \<Rightarrow> 's Store \<Rightarrow> string \<Rightarrow> 's \<Rightarrow> (store_error, bool) result" where
  "IsIndex L s d st =
     bindE (map_err (ManifestNotFound d) (fetchContent s d st))
       (\<lambda>data. case js_mediaType L data of
                 None \<Rightarrow> Inl MediaTypeSyntax
               | Some mt \<Rightarrow> Inr (mt = MediaTypeImageIndex))"

section \<open>Tags\<close>

definition Resolve :: "'s Store \<Rightarrow> string \<Rightarrow> 's \<Rightarrow> (store_error, string) result" where
  "Resolve s tag st =
     bindE (map_err (TagNotFound tag) (lo_Resolve (inner s) tag st)) (\<lambda>desc. Inr (d_Digest desc))"

definition Tag :: "'s Store \<Rightarrow> string \<Rightarrow> string \<Rightarrow> 's \<Rightarrow> (store_error, unit) result \<times> 's" where
  "Tag s d tag st =
     (case lo_Resolve (inner s) d st of
        Inl e \<Rightarrow> (Inl (ResolvingDigest e), st)
      | Inr desc \<Rightarrow>
          (case lo_Tag (inner s) desc tag st of
             (None, st') \<Rightarrow> (Inr (), st')
           | (Some e, st') \<Rightarrow> (Inl (Tagging e), st')))"

definition DeleteTag :: "'s Store \<Rightarrow> string \<Rightarrow> 's \<Rightarrow> (store_error, unit) result \<times> 's" where
  "DeleteTag s tag st =
     (case lo_Untag (inner s) tag st of
        (None, st') \<Rightarrow> (Inr (), st')
      | (Some ErrNotFound, st') \<Rightarrow> (Inl (WithStatus 404 (TagNotFound tag ErrNotFound)), st')
      | (Some e, st') \<Rightarrow> (Inl (RemovingTag e), st'))"

definition ListTags :: "'s Store \<Rightarrow> 's \<Rightarrow> (store_error, string list) result" where
  "ListTags s st =
     (case lo_Tags (inner s) st of
        (pages, None) \<Rightarrow> Inr (concat pages)
      | (pages, Some e) \<Rightarrow> Inl (ListingTags e))"

fun ref_loop :: "'s Store \<Rightarrow> string \<Rightarrow> string list \<Rightarrow> 's \<Rightarrow> bool" where
  "ref_loop s d [] st = False"
| "ref_loop s d (tag # tags) st =
     (case Resolve s tag st of
        Inl _ \<Rightarrow> ref_loop s d tags st
      | Inr resolved \<Rightarrow> if resolved = d then True else ref_loop s d tags st)"

definition isDigestReferenced :: "'s Store \<Rightarrow> string \<Rightarrow> 's \<Rightarrow> (store_error, bool) result" where
  "isDigestReferenced s d st = bindE (ListTags s st) (\<lambda>tags. Inr (ref_loop s d tags st))"

section \<open>Deletion\<close>

definition blobPath :: "oci_lib \<Rightarrow> 's Store \<Rightarrow> string \<Rightarrow> string" where
  "blobPath L s d = filepath_Join [filepath_Join [st_root s, ''blobs''], dg_Algorithm L d, dg_Encoded L d]"

definition deleteBlob :: "oci_lib \<Rightarrow> 's Store \<Rightarrow> string \<Rightarrow> 's \<Rightarrow> (store_error, unit) result \<times> 's" where
  "deleteBlob L s d st =
     (case dg_Validate L d of
        Some e \<Rightarrow> (Inl (InvalidDigest d e), st)
      | None \<Rightarrow>
          (let blobRoot = filepath_Join [st_root s, ''blobs'']; path = blobPath L s d
           in if \<not> has_prefix (path_clean path @ ''/'') (path_clean blobRoot @ ''/'') then (Inl (EscapesRoot path), st)
              else (case lo_Remove (inner s) path st of
                      (None, st') \<Rightarrow> (Inr (), st')
                    | (Some NotExist, st') \<Rightarrow> (Inr (), st')
                    | (Some (IOErr e), st') \<Rightarrow> (Inl (DeletingBlob d e), st'))))"

fun deleteBlobs :: "oci_lib \<Rightarrow> 's Store \<Rightarrow> string list \<Rightarrow> 's \<Rightarrow> (store_error, unit) result \<times> 's" where
  "deleteBlobs L s [] st = (Inr (), st)"
| "deleteBlobs L s (d # ds) st = bindS (deleteBlob L s d st) (\<lambda>_. deleteBlobs L s ds)"

definition deleteManifestBlobs :: "oci_lib \<Rightarrow> 's Store \<Rightarrow> string \<Rightarrow> 's \<Rightarrow> (store_error, unit) result \<times> 's" where
  "deleteManifestBlobs L s d st =
     (case fetchContent s d st of
        Inl e \<Rightarrow> (Inl (FetchingManifest d e), st)
      | Inr data \<Rightarrow>
          (case js_Manifest L data of
             None \<Rightarrow> (Inl (ManifestSyntax d), st)
           | Some m \<Rightarrow>
               bindS (deleteBlob L s (d_Digest (mf_Config m)) st)
                 (\<lambda>_ st. bindS (deleteBlobs L s (map d_Digest (mf_Layers m)) st)
                   (\<lambda>_ st. deleteBlob L s d st))))"

fun deleteManifests :: "oci_lib \<Rightarrow> 's Store \<Rightarrow> string list \<Rightarrow> 's \<Rightarrow> (store_error, unit) result \<times> 's" where
  "deleteManifests L s [] st = (Inr (), st)"
| "deleteManifests L s (d # ds) st = bindS (deleteManifestBlobs L s d st) (\<lambda>_. deleteManifests L s ds)"

definition deleteOrphanedBlobs :: "oci_lib \<Rightarrow> 's Store \<Rightarrow> string \<Rightarrow> 's \<Rightarrow> (store_error, unit) result \<times> 's" where
  "deleteOrphanedBlobs L s d st =
     (case IsIndex L s d st of
        Inl e \<Rightarrow> (Inl (InspectingOrphan e), st)
      | Inr isIdx \<Rightarrow>
          if isIdx then
            (case GetIndex L s d st of
               Inl e \<Rightarrow> (Inl (FetchingOrphanIndex e), st)
             | Inr idx \<Rightarrow>
                 bindS (deleteManifests L s (map d_Digest (ix_Manifests idx)) st) (\<lambda>_. deleteBlob L s d))
          else deleteManifestBlobs L s d st)"

definition DeleteBuild :: "oci_lib \<Rightarrow> 's Store \<Rightarrow> string \<Rightarrow> 's \<Rightarrow> (store_error, unit) result \<times> 's" where
  "DeleteBuild L s tag st =
     (case Resolve s tag st of
        Inl e \<Rightarrow> (Inl (WithStatus 404 (BuildNotFound tag e)), st)
      | Inr d \<Rightarrow>
          bindS (DeleteTag s tag st)
            (\<lambda>_ st. case isDigestReferenced s d st of
                Inl e \<Rightarrow> (Inl (CheckingReferences e), st)
              | Inr shared \<Rightarrow> if shared then (Inr (), st) else deleteOrphanedBlobs L s d st))"

section \<open>What the layout promises\<close>

definition valid_digest :: "oci_lib \<Rightarrow> string \<Rightarrow> bool" where
  "valid_digest L d \<longleftrightarrow> dg_Validate L d = None"

definition holds :: "'s Store \<Rightarrow> 's \<Rightarrow> string \<Rightarrow> bytes \<Rightarrow> bool" where
  "holds s st d c \<longleftrightarrow> (\<exists>r. lo_Fetch (inner s) d st = Inr r \<and> rd_data r = c \<and> rd_fail r = None)"

text \<open>
  A push of content under its own digest stores it, or reports that the digest is already present with content of that digest, and touches no other blob. Tagging
  and untagging leave blobs alone; untagging removes exactly one tag. Removing a file removes the blob stored in it, no other, and creates no reference.
\<close>

definition push_laws :: "oci_lib \<Rightarrow> 's Store \<Rightarrow> bool" where
  "push_laws L s \<longleftrightarrow>
     (\<forall>desc c st e st'. lo_Push (inner s) desc c st = (e, st') \<longrightarrow> d_Digest desc = FromBytes L c \<longrightarrow>
        (e = None \<longrightarrow> holds s st' (FromBytes L c) c) \<and>
        (e = Some ErrAlreadyExists \<longrightarrow> (\<exists>c'. holds s st' (FromBytes L c) c' \<and> FromBytes L c' = FromBytes L c)) \<and>
        (\<forall>d. d \<noteq> FromBytes L c \<or> e \<noteq> None \<longrightarrow> lo_Fetch (inner s) d st' = lo_Fetch (inner s) d st))"

definition tag_laws :: "'s Store \<Rightarrow> bool" where
  "tag_laws s \<longleftrightarrow>
     (\<forall>tag st st'. lo_Untag (inner s) tag st = (None, st') \<longrightarrow>
        (\<forall>d. lo_Fetch (inner s) d st' = lo_Fetch (inner s) d st) \<and>
        (\<forall>x. lo_Resolve (inner s) tag st' \<noteq> Inr x) \<and>
        (\<forall>t. t \<noteq> tag \<longrightarrow> lo_Resolve (inner s) t st' = lo_Resolve (inner s) t st) \<and>
        (\<forall>ps ps'. lo_Tags (inner s) st = (ps, None) \<longrightarrow> lo_Tags (inner s) st' = (ps', None) \<longrightarrow>
           set (concat ps') = set (concat ps) - {tag}))"

definition remove_laws :: "oci_lib \<Rightarrow> 's Store \<Rightarrow> bool" where
  "remove_laws L s \<longleftrightarrow>
     (\<forall>path st e st'. lo_Remove (inner s) path st = (e, st') \<longrightarrow>
        (e \<in> {None, Some NotExist} \<longrightarrow> (\<forall>d. valid_digest L d \<longrightarrow>
           lo_Fetch (inner s) d st' = (if blobPath L s d = path then Inl ErrNotFound else lo_Fetch (inner s) d st))) \<and>
        (\<forall>r x. lo_Resolve (inner s) r st' = Inr x \<longrightarrow> lo_Resolve (inner s) r st = Inr x))"

definition layout_laws :: "oci_lib \<Rightarrow> 's Store \<Rightarrow> bool" where
  "layout_laws L s \<longleftrightarrow> push_laws L s \<and> tag_laws s \<and> remove_laws L s"

section \<open>Storing and reading back\<close>

lemma MaxBlobSize_range: "is_int64 MaxBlobSize" "MaxBlobSize < max_int64"
  by (simp_all add: MaxBlobSize_def is_int64_def max_int64_def)

lemma fetchContent_holds:
  "holds s st d c \<Longrightarrow>
     fetchContent s d st = (if int (length c) \<le> MaxBlobSize then Inr c else Inl (FetchTooBig d))"
  by (auto simp: holds_def fetchContent_def read_capped_clean MaxBlobSize_range)

lemma fetchContent_ok: "fetchContent s d st = Inr c \<Longrightarrow> holds s st d c \<and> int (length c) \<le> MaxBlobSize"
  using read_capped_whole[OF _ MaxBlobSize_range] read_capped_bound
  by (fastforce simp: fetchContent_def holds_def bindE_eq_Inr)

definition no_collision :: "oci_lib \<Rightarrow> bytes \<Rightarrow> bool" where
  "no_collision L c \<longleftrightarrow> (\<forall>c'. FromBytes L c' = FromBytes L c \<longrightarrow> c' = c)"

definition put_effect :: "oci_lib \<Rightarrow> 's Store \<Rightarrow> bytes \<Rightarrow> 's \<Rightarrow> 's \<Rightarrow> bool" where
  "put_effect L s c st st' \<longleftrightarrow> holds s st' (FromBytes L c) c \<and>
     (\<forall>d. d \<noteq> FromBytes L c \<longrightarrow> lo_Fetch (inner s) d st' = lo_Fetch (inner s) d st)"

lemma push_effect:
  assumes "push_laws L s" "no_collision L c" "lo_Push (inner s) desc c st = (e, st')"
    and "d_Digest desc = FromBytes L c" "e = None \<or> e = Some ErrAlreadyExists"
  shows "put_effect L s c st st'"
proof -
  note law = assms(1)[unfolded push_laws_def, rule_format, OF assms(3,4)]
  have "\<exists>c'. holds s st' (FromBytes L c) c' \<and> FromBytes L c' = FromBytes L c"
    using law assms(5) by blast
  with assms(2) have "holds s st' (FromBytes L c) c" by (auto simp: no_collision_def)
  with law show ?thesis by (auto simp: put_effect_def)
qed

lemma PutBlob_effect:
  assumes "push_laws L s" "no_collision L c" "PutBlob L s c st = (Inr d, st')"
  shows "d = FromBytes L c \<and> put_effect L s c st st'"
proof -
  obtain e st1 where p: "lo_Push (inner s) (plain_desc mediaTypeOctetStream (FromBytes L c) (int (length c))) c st = (e, st1)"
    by (metis prod.exhaust)
  with assms(3) have "d = FromBytes L c" "st1 = st'" "e = None \<or> e = Some ErrAlreadyExists"
    by (auto simp: PutBlob_def Let_def split: option.splits layout_err.splits)
  with push_effect[OF assms(1,2) p] show ?thesis by (simp add: plain_desc_def)
qed

lemma PutManifest_effect:
  assumes "push_laws L s" "no_collision L c" "PutManifest L s c st = (Inr d, st')"
  shows "d = FromBytes L c \<and> put_effect L s c st st'"
proof -
  define mt where "mt = (case js_mediaType L c of Some mt \<Rightarrow> if mt \<noteq> [] then mt else mediaTypeOctetStream
     | None \<Rightarrow> mediaTypeOctetStream)"
  obtain e st1 where p: "lo_Push (inner s) (plain_desc mt (FromBytes L c) (int (length c))) c st = (e, st1)"
    by (metis prod.exhaust)
  with assms(3) have "d = FromBytes L c" "st1 = st'" "e = None \<or> e = Some ErrAlreadyExists"
    by (auto simp: PutManifest_def Let_def mt_def[symmetric] split: option.splits layout_err.splits)
  with push_effect[OF assms(1,2) p] show ?thesis by (simp add: plain_desc_def)
qed

lemma fetchContent_frame:
  "lo_Fetch (inner s) d st' = lo_Fetch (inner s) d st \<Longrightarrow> fetchContent s d st' = fetchContent s d st"
  by (simp add: fetchContent_def)

text \<open>
  Round trip: a stored blob or manifest is read back under the returned digest exactly if it is within the read limit, whether the push
  wrote it or found it there, and no other blob changes.
\<close>
theorem store_round_trip:
  assumes "push_laws L s" "no_collision L c"
    and "PutBlob L s c st = (Inr d, st') \<or> PutManifest L s c st = (Inr d, st')"
  shows "(\<forall>x. GetBlob s d st' = Inr x \<longleftrightarrow> x = c \<and> int (length c) \<le> MaxBlobSize) \<and>
         (\<forall>x. GetManifest s d st' = Inr x \<longleftrightarrow> x = c \<and> int (length c) \<le> MaxBlobSize) \<and>
         (\<forall>d'. d' \<noteq> d \<longrightarrow> GetBlob s d' st' = GetBlob s d' st)"
proof -
  have e: "d = FromBytes L c" "put_effect L s c st st'"
    using PutBlob_effect[OF assms(1,2)] PutManifest_effect[OF assms(1,2)] assms(3) by auto
  then have "holds s st' d c" by (simp add: put_effect_def)
  from fetchContent_holds[OF this] e show ?thesis
    by (auto simp: GetBlob_def GetManifest_def put_effect_def fetchContent_def)
qed

section \<open>Deleting builds\<close>

text \<open>
  Whatever the digest functions return, \<open>deleteBlob\<close> changes the state only by removing one path, and that path lies in the
  blob directory of the store.
\<close>
theorem deleteBlob_confined:
  "\<exists>p. snd (deleteBlob L s d st) = st \<or>
       snd (deleteBlob L s d st) = snd (lo_Remove (inner s) p st) \<and> dg_Validate L d = None \<and>
       has_prefix (path_clean p @ ''/'') (path_clean (filepath_Join [st_root s, ''blobs'']) @ ''/'')"
  by (rule exI[of _ "blobPath L s d"])
     (auto simp: deleteBlob_def Let_def split: option.splits prod.splits io_err.splits)

definition erased :: "oci_lib \<Rightarrow> 's Store \<Rightarrow> string set \<Rightarrow> 's \<Rightarrow> 's \<Rightarrow> bool" where
  "erased L s P st st' \<longleftrightarrow>
     (\<forall>x. valid_digest L x \<longrightarrow>
        lo_Fetch (inner s) x st' = (if blobPath L s x \<in> P then Inl ErrNotFound else lo_Fetch (inner s) x st)) \<and>
     (\<forall>r y. lo_Resolve (inner s) r st' = Inr y \<longrightarrow> lo_Resolve (inner s) r st = Inr y)"

lemma erased_refl: "erased L s {} st st"
  by (simp add: erased_def)

lemma erased_trans: "erased L s P st st1 \<Longrightarrow> erased L s Q st1 st2 \<Longrightarrow> erased L s (P \<union> Q) st st2"
  unfolding erased_def by (metis Un_iff)

lemma erased_fetch:
  assumes "erased L s P st st1" "valid_digest L d" "fetchContent s d st1 = Inr c"
  shows "fetchContent s d st1 = fetchContent s d st"
proof (cases "blobPath L s d \<in> P")
  case True
  with assms(1,2) have "lo_Fetch (inner s) d st1 = Inl ErrNotFound" by (auto simp: erased_def)
  with assms(3) show ?thesis by (simp add: fetchContent_def)
next
  case False
  with assms(1,2) show ?thesis by (intro fetchContent_frame) (auto simp: erased_def)
qed

lemma deleteBlob_erases:
  assumes "remove_laws L s" "deleteBlob L s d st = (Inr (), st')"
  shows "valid_digest L d \<and> erased L s {blobPath L s d} st st'"
proof -
  obtain e st1 where r: "lo_Remove (inner s) (blobPath L s d) st = (e, st1)" by (metis prod.exhaust)
  have v: "valid_digest L d" "e \<in> {None, Some NotExist}" "st' = st1"
    using assms(2) r
    by (auto simp: deleteBlob_def valid_digest_def Let_def split: option.splits prod.splits io_err.splits if_splits)
  note law = assms(1)[unfolded remove_laws_def, rule_format, OF r]
  show ?thesis using law v by (auto simp: erased_def)
qed

lemma deleteBlobs_erases:
  assumes "remove_laws L s"
  shows "deleteBlobs L s ds st = (Inr (), st') \<Longrightarrow> erased L s (blobPath L s ` set ds) st st'"
proof (induction ds arbitrary: st)
  case Nil
  then show ?case by (simp add: erased_refl)
next
  case (Cons d ds)
  then obtain st1 where "deleteBlob L s d st = (Inr (), st1)" "deleteBlobs L s ds st1 = (Inr (), st')"
    by (auto simp: bindS_eq_Inr)
  with Cons.IH deleteBlob_erases[OF assms] erased_trans[of L s "{blobPath L s d}" st st1]
  show ?case by fastforce
qed

definition manifest_blobs :: "oci_lib \<Rightarrow> 's Store \<Rightarrow> 's \<Rightarrow> string \<Rightarrow> string list" where
  "manifest_blobs L s st d =
     (case fetchContent s d st of
        Inl _ \<Rightarrow> []
      | Inr data \<Rightarrow> (case js_Manifest L data of
          None \<Rightarrow> []
        | Some m \<Rightarrow> d_Digest (mf_Config m) # map d_Digest (mf_Layers m) @ [d]))"

definition build_blobs :: "oci_lib \<Rightarrow> 's Store \<Rightarrow> 's \<Rightarrow> string \<Rightarrow> string list" where
  "build_blobs L s st d =
     (if IsIndex L s d st = Inr True then
        (case GetIndex L s d st of
           Inl _ \<Rightarrow> []
         | Inr idx \<Rightarrow> concat (map (\<lambda>m. manifest_blobs L s st (d_Digest m)) (ix_Manifests idx)) @ [d])
      else manifest_blobs L s st d)"

lemma deleteManifestBlobs_erases:
  assumes "remove_laws L s" "erased L s P st0 st" "deleteManifestBlobs L s d st = (Inr (), st')"
  shows "valid_digest L d \<and> erased L s (P \<union> blobPath L s ` set (manifest_blobs L s st0 d)) st0 st'"
proof -
  obtain data m st1 st2 where f: "fetchContent s d st = Inr data" "js_Manifest L data = Some m"
    and del: "deleteBlob L s (d_Digest (mf_Config m)) st = (Inr (), st1)"
      "deleteBlobs L s (map d_Digest (mf_Layers m)) st1 = (Inr (), st2)" "deleteBlob L s d st2 = (Inr (), st')"
    using assms(3) by (auto simp: deleteManifestBlobs_def bindS_eq_Inr split: sum.splits option.splits)
  have v: "valid_digest L d" using deleteBlob_erases[OF assms(1) del(3)] by simp
  have "fetchContent s d st0 = Inr data" using erased_fetch[OF assms(2) v f(1)] f(1) by simp
  with f(2) have b: "manifest_blobs L s st0 d = d_Digest (mf_Config m) # map d_Digest (mf_Layers m) @ [d]"
    by (simp add: manifest_blobs_def)
  have "erased L s (((P \<union> {blobPath L s (d_Digest (mf_Config m))}) \<union>
      blobPath L s ` set (map d_Digest (mf_Layers m))) \<union> {blobPath L s d}) st0 st'"
    using erased_trans[OF erased_trans[OF erased_trans[OF assms(2)]]] deleteBlob_erases[OF assms(1)]
      deleteBlobs_erases[OF assms(1) del(2)] del by blast
  moreover have "((P \<union> {blobPath L s (d_Digest (mf_Config m))}) \<union>
      blobPath L s ` set (map d_Digest (mf_Layers m))) \<union> {blobPath L s d} =
      P \<union> blobPath L s ` set (manifest_blobs L s st0 d)" by (auto simp: b)
  ultimately show ?thesis using v by metis
qed

lemma deleteManifests_erases:
  assumes "remove_laws L s"
  shows "erased L s P st0 st \<Longrightarrow> deleteManifests L s ds st = (Inr (), st') \<Longrightarrow>
     erased L s (P \<union> blobPath L s ` set (concat (map (manifest_blobs L s st0) ds))) st0 st'"
proof (induction ds arbitrary: P st)
  case Nil
  then show ?case by simp
next
  case (Cons d ds)
  then obtain st1 where st1: "deleteManifestBlobs L s d st = (Inr (), st1)" "deleteManifests L s ds st1 = (Inr (), st')"
    by (auto simp: bindS_eq_Inr)
  have "erased L s (P \<union> blobPath L s ` set (manifest_blobs L s st0 d)) st0 st1"
    using deleteManifestBlobs_erases[OF assms Cons.prems(1) st1(1)] by simp
  from Cons.IH[OF this st1(2)] show ?case by (simp add: image_Un Un_assoc)
qed

lemma deleteOrphanedBlobs_erases:
  assumes "remove_laws L s" "deleteOrphanedBlobs L s d st = (Inr (), st')"
  shows "erased L s (blobPath L s ` set (build_blobs L s st d)) st st'"
proof (cases "IsIndex L s d st = Inr True")
  case True
  with assms(2) obtain idx st1 where i: "GetIndex L s d st = Inr idx"
    "deleteManifests L s (map d_Digest (ix_Manifests idx)) st = (Inr (), st1)" "deleteBlob L s d st1 = (Inr (), st')"
    by (auto simp: deleteOrphanedBlobs_def bindS_eq_Inr split: sum.splits)
  have "erased L s (({} \<union> blobPath L s ` set (concat (map (manifest_blobs L s st) (map d_Digest (ix_Manifests idx)))))
      \<union> {blobPath L s d}) st st'"
    by (rule erased_trans[OF deleteManifests_erases[OF assms(1) erased_refl i(2)]])
       (use deleteBlob_erases[OF assms(1) i(3)] in blast)
  moreover have "build_blobs L s st d =
      concat (map (manifest_blobs L s st) (map d_Digest (ix_Manifests idx))) @ [d]"
    using True i(1) by (simp add: build_blobs_def comp_def)
  ultimately show ?thesis by simp
next
  case False
  with assms(2) have "deleteManifestBlobs L s d st = (Inr (), st')"
    by (auto simp: deleteOrphanedBlobs_def split: sum.splits)
  from deleteManifestBlobs_erases[OF assms(1) erased_refl this] False show ?thesis
    by (simp add: build_blobs_def)
qed

lemma ref_loop_iff: "ref_loop s d ts st \<longleftrightarrow> (\<exists>t \<in> set ts. Resolve s t st = Inr d)"
  by (induction ts) (auto split: sum.splits)

lemma DeleteBuild_steps:
  assumes "DeleteBuild L s tag st = (Inr (), st')" "Resolve s tag st = Inr d"
  obtains st1 shared where "lo_Untag (inner s) tag st = (None, st1)" "isDigestReferenced s d st1 = Inr shared"
    "(if shared then (Inr (), st1) else deleteOrphanedBlobs L s d st1) = (Inr (), st')"
proof -
  from assms obtain st1 where st1: "DeleteTag s tag st = (Inr (), st1)"
    "(case isDigestReferenced s d st1 of Inl e \<Rightarrow> (Inl (CheckingReferences e), st1)
      | Inr shared \<Rightarrow> if shared then (Inr (), st1) else deleteOrphanedBlobs L s d st1) = (Inr (), st')"
    by (auto simp: DeleteBuild_def bindS_eq_Inr)
  have "lo_Untag (inner s) tag st = (None, st1)"
    using st1(1) by (auto simp: DeleteTag_def split: prod.splits option.splits layout_err.splits)
  with st1(2) that show ?thesis by (cases "isDigestReferenced s d st1") auto
qed

text \<open>After the tag is gone: whether the digest is still referenced, in terms of the state before.\<close>

lemma untag_shared:
  assumes "tag_laws s" "lo_Untag (inner s) tag st = (None, st1)"
    and "ListTags s st = Inr tags" "isDigestReferenced s d st1 = Inr shared"
  shows "shared \<longleftrightarrow> (\<exists>t. t \<in> set tags \<and> t \<noteq> tag \<and> Resolve s t st = Inr d)"
proof -
  note law = assms(1)[unfolded tag_laws_def, rule_format, OF assms(2)]
  obtain ps where ps: "lo_Tags (inner s) st = (ps, None)" "tags = concat ps"
    using assms(3) by (auto simp: ListTags_def split: prod.splits option.splits)
  obtain ps' where ps': "lo_Tags (inner s) st1 = (ps', None)" "shared = ref_loop s d (concat ps') st1"
    using assms(4) by (auto simp: isDigestReferenced_def ListTags_def bindE_eq_Inr split: prod.splits option.splits)
  have "set (concat ps') = set tags - {tag}" using law ps ps'(1) by blast
  moreover have "Resolve s t st1 = Resolve s t st" if "t \<noteq> tag" for t
    using law that by (simp add: Resolve_def)
  ultimately show ?thesis by (auto simp: ps'(2) ref_loop_iff)
qed

lemma build_blobs_frame:
  assumes "\<And>x. lo_Fetch (inner s) x st1 = lo_Fetch (inner s) x st"
  shows "build_blobs L s st1 d = build_blobs L s st d"
proof -
  have f: "fetchContent s x st1 = fetchContent s x st" for x by (rule fetchContent_frame) (rule assms)
  have "manifest_blobs L s st1 = manifest_blobs L s st" by (rule ext) (simp add: manifest_blobs_def f)
  moreover have "GetIndex L s d st1 = GetIndex L s d st" "IsIndex L s d st1 = IsIndex L s d st"
    by (simp_all add: GetIndex_def IsIndex_def f)
  ultimately show ?thesis by (simp only: build_blobs_def)
qed

lemma DeleteBuild_erases:
  assumes laws: "layout_laws L s" and tags: "ListTags s st = Inr tags"
    and del: "DeleteBuild L s tag st = (Inr (), st')" and d: "Resolve s tag st = Inr d"
  shows "\<not> is_ok (Resolve s tag st') \<and>
    (valid_digest L x \<longrightarrow> lo_Fetch (inner s) x st' =
       (if (\<nexists>t. t \<in> set tags \<and> t \<noteq> tag \<and> Resolve s t st = Inr d) \<and>
           blobPath L s x \<in> blobPath L s ` set (build_blobs L s st d)
        then Inl ErrNotFound else lo_Fetch (inner s) x st))"
proof -
  have laws': "tag_laws s" "remove_laws L s" using laws by (simp_all add: layout_laws_def)
  from DeleteBuild_steps[OF del d] obtain st1 shared where
    un: "lo_Untag (inner s) tag st = (None, st1)" and ref: "isDigestReferenced s d st1 = Inr shared"
    and rest: "(if shared then (Inr (), st1) else deleteOrphanedBlobs L s d st1) = (Inr (), st')" .
  note law = laws'(1)[unfolded tag_laws_def, rule_format, OF un]
  have b: "build_blobs L s st1 d = build_blobs L s st d" by (rule build_blobs_frame) (use law in blast)
  have e: "erased L s (if shared then {} else blobPath L s ` set (build_blobs L s st d)) st1 st'"
    using rest deleteOrphanedBlobs_erases[OF laws'(2), of d st1 st'] b erased_refl[of L s st1] by (cases shared) simp_all
  have "\<not> is_ok (Resolve s tag st')"
    using e law by (auto simp: Resolve_def is_ok_iff erased_def bindE_eq_Inr)
  moreover have "lo_Fetch (inner s) x st' =
      (if \<not> shared \<and> blobPath L s x \<in> blobPath L s ` set (build_blobs L s st d)
       then Inl ErrNotFound else lo_Fetch (inner s) x st)" if "valid_digest L x"
    using e law that unfolding erased_def by (cases shared) simp_all
  ultimately show ?thesis using untag_shared[OF laws'(1) un tags ref] by simp
qed

text \<open>
  C22. A successful \<open>DeleteBuild\<close> removes the tag. If another tag resolves to the same digest no blob changes; otherwise the files of the
  digest, its manifests, configs and layers are gone, and every other blob is what it was. An unknown tag is an
  error with status 404 that changes nothing.
\<close>
theorem DeleteBuild_spec:
  assumes laws: "layout_laws L s" and tags: "ListTags s st = Inr tags"
  shows "(\<forall>e. Resolve s tag st = Inl e \<longrightarrow>
            DeleteBuild L s tag st = (Inl (WithStatus 404 (BuildNotFound tag e)), st)) \<and>
         (\<forall>d st'. Resolve s tag st = Inr d \<longrightarrow> DeleteBuild L s tag st = (Inr (), st') \<longrightarrow>
            \<not> is_ok (Resolve s tag st') \<and>
            (\<forall>x. valid_digest L x \<longrightarrow> lo_Fetch (inner s) x st' =
               (if (\<nexists>t. t \<in> set tags \<and> t \<noteq> tag \<and> Resolve s t st = Inr d) \<and>
                   blobPath L s x \<in> blobPath L s ` set (build_blobs L s st d)
                then Inl ErrNotFound else lo_Fetch (inner s) x st)))"
proof (intro conjI allI impI)
  fix e assume "Resolve s tag st = Inl e"
  then show "DeleteBuild L s tag st = (Inl (WithStatus 404 (BuildNotFound tag e)), st)" by (simp add: DeleteBuild_def)
qed (use DeleteBuild_erases[OF laws tags] in blast)+

section \<open>A layout in memory\<close>

text \<open>A layout that satisfies the laws, for the concrete runs below: blobs by digest, references, and the list of tags.\<close>

record mem =
  mem_blobs :: "(string \<times> bytes) list"
  mem_refs :: "(string \<times> OciDescriptor) list"
  mem_tags :: "string list"

definition drop_keys :: "('a \<Rightarrow> bool) \<Rightarrow> ('a \<times> 'b) list \<Rightarrow> ('a \<times> 'b) list" where
  "drop_keys P xs = filter (\<lambda>kv. \<not> P (fst kv)) xs"

lemma map_of_drop_keys [simp]: "map_of (drop_keys P xs) k = (if P k then None else map_of xs k)"
  by (induction xs) (auto simp: drop_keys_def)

definition mem_layout :: "oci_lib \<Rightarrow> string \<Rightarrow> mem layout" where
  "mem_layout L rt =
     \<lparr>lo_Push = (\<lambda>desc c st. case map_of (mem_blobs st) (d_Digest desc) of
         Some c' \<Rightarrow> if FromBytes L c' = d_Digest desc then (Some ErrAlreadyExists, st) else (Some (LayoutErr ''corrupt''), st)
       | None \<Rightarrow> (None, st\<lparr>mem_blobs := (d_Digest desc, c) # mem_blobs st,
                           mem_refs := (if d_MediaType desc = mediaTypeOctetStream then mem_refs st
                                        else (d_Digest desc, desc) # mem_refs st)\<rparr>)),
      lo_Fetch = (\<lambda>d st. case map_of (mem_blobs st) d of
         None \<Rightarrow> Inl ErrNotFound | Some c \<Rightarrow> Inr \<lparr>rd_data = c, rd_fail = None, rd_joined = False\<rparr>),
      lo_Resolve = (\<lambda>r st. case map_of (mem_refs st) r of None \<Rightarrow> Inl ErrNotFound | Some desc \<Rightarrow> Inr desc),
      lo_Tag = (\<lambda>desc tag st. (None, st\<lparr>mem_refs := (tag, desc) # mem_refs st, mem_tags := tag # removeAll tag (mem_tags st)\<rparr>)),
      lo_Untag = (\<lambda>tag st. if tag \<in> set (mem_tags st)
         then (None, st\<lparr>mem_refs := drop_keys (\<lambda>t. t = tag) (mem_refs st), mem_tags := removeAll tag (mem_tags st)\<rparr>)
         else (Some ErrNotFound, st)),
      lo_Tags = (\<lambda>st. ([mem_tags st], None)),
      lo_Remove = (\<lambda>path st. (None, st\<lparr>mem_blobs := drop_keys (\<lambda>d.
         filepath_Join [filepath_Join [rt, ''blobs''], dg_Algorithm L d, dg_Encoded L d] = path) (mem_blobs st)\<rparr>))\<rparr>"

definition mem_store :: "oci_lib \<Rightarrow> mem Store" where
  "mem_store L = \<lparr>st_root = ''/r'', inner = mem_layout L ''/r''\<rparr>"

definition mem_empty :: mem where
  "mem_empty = \<lparr>mem_blobs = [], mem_refs = [], mem_tags = []\<rparr>"

lemma mem_laws: "layout_laws L (mem_store L)"
proof -
  have "push_laws L (mem_store L)"
    by (auto simp: push_laws_def holds_def mem_store_def mem_layout_def split: option.splits if_splits)
  moreover have "tag_laws (mem_store L)"
    by (auto simp: tag_laws_def mem_store_def mem_layout_def split: if_splits)
  moreover have "remove_laws L (mem_store L)"
    by (auto simp: remove_laws_def mem_store_def mem_layout_def blobPath_def)
  ultimately show ?thesis by (simp add: layout_laws_def)
qed

text \<open>
  A library for the concrete runs: a one-letter content is its own digest; \<open>i\<close> and \<open>j\<close> are indexes of the manifest \<open>m\<close>, the latter also of
  \<open>n\<close>; both manifests have the layer \<open>l\<close>.
\<close>

definition demo_lib :: oci_lib where
  "demo_lib = \<lparr>FromBytes = str_of, dg_Validate = (\<lambda>_. None), dg_Algorithm = (\<lambda>_. ''x''), dg_Encoded = (\<lambda>d. d),
     js_mediaType = (\<lambda>c. Some (if str_of c \<in> {''i'', ''j''} then MediaTypeImageIndex else MediaTypeImageManifest)),
     js_Index = (\<lambda>c. Some \<lparr>ix_SchemaVersion = 2, ix_MediaType = MediaTypeImageIndex, ix_ArtifactType = [],
        ix_Manifests = (if str_of c = ''i'' then [plain_desc MediaTypeImageManifest ''m'' 1]
          else [plain_desc MediaTypeImageManifest ''m'' 1, plain_desc MediaTypeImageManifest ''n'' 1]), ix_Annotations = None\<rparr>),
     js_Manifest = (\<lambda>c. Some \<lparr>mf_SchemaVersion = 2, mf_MediaType = MediaTypeImageManifest, mf_ArtifactType = [],
        mf_Config = plain_desc [] (if str_of c = ''m'' then ''c'' else ''d'') 1,
        mf_Layers = [plain_desc [] ''l'' 1], mf_Annotations = None\<rparr>)\<rparr>"

definition demo_state :: mem where
  "demo_state =
     \<lparr>mem_blobs = map (\<lambda>c. (str_of c, c)) [[99], [100], [108], [109], [110], [105], [106]],
      mem_refs = [(''i'', plain_desc MediaTypeImageIndex ''i'' 1), (''j'', plain_desc MediaTypeImageIndex ''j'' 1),
                  (''one'', plain_desc MediaTypeImageIndex ''i'' 1), (''both'', plain_desc MediaTypeImageIndex ''j'' 1)],
      mem_tags = [''both'', ''one'']\<rparr>"

text \<open>The state after \<open>one\<close> is deleted: the second manifest with its config, and both indexes' references apart from the tag.\<close>

definition demo_after :: mem where
  "demo_after =
     \<lparr>mem_blobs = [(''d'', [100]), (''n'', [110]), (''j'', [106])],
      mem_refs = [(''i'', plain_desc MediaTypeImageIndex ''i'' 1), (''j'', plain_desc MediaTypeImageIndex ''j'' 1),
                  (''both'', plain_desc MediaTypeImageIndex ''j'' 1)],
      mem_tags = [''both'']\<rparr>"

section \<open>Concrete runs\<close>

abbreviation demo_store :: "mem Store" where "demo_store \<equiv> mem_store demo_lib"

lemma demo_no_collision: "no_collision demo_lib c"
  by (auto simp: no_collision_def demo_lib_def dest: str_of_inj)

theorem store_round_trip_witness:
  "GetBlob demo_store ''ab'' (snd (PutBlob demo_lib demo_store [97, 98] mem_empty)) = Inr [97, 98]"
proof -
  have p: "PutBlob demo_lib demo_store [97, 98] mem_empty =
      (Inr ''ab'', snd (PutBlob demo_lib demo_store [97, 98] mem_empty))"
    unfolding prod_eq_iff by (rule conjI, code_simp, rule snd_conv[symmetric])
  have "push_laws demo_lib demo_store" using mem_laws[of demo_lib] by (simp add: layout_laws_def)
  from store_round_trip[OF this demo_no_collision disjI1[OF p]] show ?thesis by (simp add: MaxBlobSize_def)
qed

lemma demo_tags: "ListTags demo_store demo_state = Inr [''both'', ''one'']"
  by (simp add: ListTags_def mem_store_def mem_layout_def demo_state_def)

lemma demo_delete: "DeleteBuild demo_lib demo_store ''one'' demo_state = (Inr (), demo_after)"
  by code_simp

theorem DeleteBuild_spec_witness:
  "\<not> is_ok (Resolve demo_store ''one'' demo_after) \<and>
   (\<nexists>t. t \<in> set [''both'', ''one''] \<and> t \<noteq> ''one'' \<and> Resolve demo_store t demo_state = Inr ''i'') \<and>
   lo_Fetch (inner demo_store) ''l'' demo_after = Inl ErrNotFound"
proof -
  have r: "Resolve demo_store ''one'' demo_state = Inr ''i''" "Resolve demo_store ''both'' demo_state = Inr ''j''"
    by (simp_all add: Resolve_def mem_store_def mem_layout_def demo_state_def plain_desc_def)
  have v: "valid_digest demo_lib ''l''" by (simp add: valid_digest_def demo_lib_def)
  have n: "build_blobs demo_lib demo_store demo_state ''i'' = [''c'', ''l'', ''m'', ''i'']"
    by code_simp
  have o: "\<nexists>t. t \<in> set [''both'', ''one''] \<and> t \<noteq> ''one'' \<and> Resolve demo_store t demo_state = Inr ''i''"
    using r(2) by auto
  from DeleteBuild_spec[OF mem_laws demo_tags, of "''one''"] r(1) demo_delete
  have "\<not> is_ok (Resolve demo_store ''one'' demo_after)"
    "lo_Fetch (inner demo_store) ''l'' demo_after = Inl ErrNotFound"
    using v o n by (simp_all only: if_True simp_thms) auto
  with o show ?thesis by blast
qed

text \<open>
  \<open>DeleteBuild\<close> asks only whether another tag resolves to the same top digest. When two builds share a manifest or a layer under
  different indexes, deleting one removes blobs the other needs: its tag still resolves, its index is readable, and its layer is gone. Deleting
  the second build then fails half-way, after its tag was removed.
\<close>
lemma DeleteBuild_breaks_shared_build:
  "DeleteBuild demo_lib demo_store ''one'' demo_state = (Inr (), demo_after) \<and>
   Resolve demo_store ''both'' demo_after = Inr ''j'' \<and> is_ok (GetIndex demo_lib demo_store ''j'' demo_after) \<and>
   GetBlob demo_store ''l'' demo_state = Inr [108] \<and>
   GetBlob demo_store ''l'' demo_after = Inl (BlobNotFound ''l'' (Layout ErrNotFound)) \<and>
   DeleteBuild demo_lib demo_store ''both'' demo_after =
     (Inl (FetchingManifest ''m'' (Layout ErrNotFound)),
      demo_after\<lparr>mem_refs := take 2 (mem_refs demo_after), mem_tags := []\<rparr>)"
  by (intro conjI, rule demo_delete; code_simp)

end
