(* ===== verification/Skill_Dir.thy ===== *)
theory Skill_Dir
  imports Oci_Store "HOL-Library.AList"
begin

text \<open>
  Reading a skill directory (\<open>oci/skills/packager.go\<close>): the front matter of \<open>SKILL.md\<close>, the walk over the
  directory, and its limits.

  A directory tree is a value of type \<open>node\<close>, as \<open>Lstat\<close> and \<open>ReadDir\<close> show it and unchanged during the walk; \<open>walkDir\<close> is
  \<open>filepath.WalkDir\<close>. The YAML decoder is a parameter that yields the fields and, for \<open>allowed-tools\<close>, the node handed to
  \<open>UnmarshalYAML\<close>. A nil slice or map is \<open>None\<close>. Sizes are sums of lengths and stay far below the int64 range.
\<close>

section \<open>Front matter\<close>

datatype ynode =
    ScalarNode string
  | SequenceNode "(string, string list option) result"
  | DocumentMappingOrAlias
  | UnknownKind nat

datatype yaml_error = AllowedToolsArray string | AllowedToolsNode | AllowedToolsKind nat

text \<open>\<open>strings.Fields\<close>.\<close>

function fields_from :: "string \<Rightarrow> string \<Rightarrow> string list" where
  "fields_from cur [] = (if cur = [] then [] else [cur])"
| "fields_from cur (c # cs) =
     (case find (\<lambda>w. w \<noteq> [] \<and> prefix w (c # cs)) ws_seqs of
        Some w \<Rightarrow> (if cur = [] then [] else [cur]) @ fields_from [] (drop (length w) (c # cs))
      | None \<Rightarrow> fields_from (cur @ [c]) cs)"
  by pat_completeness auto
termination
proof (relation "measure (\<lambda>(cur, s). length s)")
  fix cur :: string and c :: char and cs w :: string
  assume "find (\<lambda>w. w \<noteq> [] \<and> prefix w (c # cs)) ws_seqs = Some w"
  then have "w \<noteq> []" by (auto dest: find_SomeD)
  then show "(([], drop (length w) (c # cs)), cur, c # cs) \<in> measure (\<lambda>(cur, s). length s)"
    by (cases w) simp_all
qed simp_all

definition fields :: "string \<Rightarrow> string list" where
  "fields s = fields_from [] s"

definition UnmarshalYAML :: "ynode \<Rightarrow> (yaml_error, string list option) result" where
  "UnmarshalYAML value = (case value of
      ScalarNode str \<Rightarrow>
        if str = [] then Inr None
        else let parts = (if CHR '','' \<in> set str then split_on CHR '','' str else fields str)
             in Inr (Some (filter (\<lambda>p. p \<noteq> []) (map trim_space parts)))
    | SequenceNode (Inl e) \<Rightarrow> Inl (AllowedToolsArray e)
    | SequenceNode (Inr arr) \<Rightarrow> Inr arr
    | DocumentMappingOrAlias \<Rightarrow> Inl AllowedToolsNode
    | UnknownKind k \<Rightarrow> Inl (AllowedToolsKind k))"

record frontmatter =
  fm_Name :: string
  fm_Description :: string
  fm_Version :: string
  fm_AllowedTools :: "string list option"
  fm_License :: string
  fm_Compatibility :: string
  fm_Metadata :: "(string \<times> string) list option"

text \<open>The decoder's view: the front matter without \<open>allowed-tools\<close>, and the node of that key if it is present.\<close>

type_synonym yaml_decoder = "string \<Rightarrow> (string, frontmatter \<times> ynode option) result"

datatype skill_error =
    ErrInvalidSkillDir string | ErrSkillMDMissing | ReadingSkillMD string
  | ErrInvalidFrontmatter string | ParsingSkillMD skill_error
  | ErrTooManyFiles | ErrSkillTooLarge | ErrInvalidSkillFile string
  | ReadingFile string string | CheckingFile string string | WalkError string | WalkingDir skill_error

definition maxFrontmatterSize :: nat where
  "maxFrontmatterSize = 64 * 1024"

definition parseFrontmatter :: "yaml_decoder \<Rightarrow> bytes \<Rightarrow> (skill_error, frontmatter) result" where
  "parseFrontmatter yaml content =
     (let content = trim_space (str_of content) in
      if \<not> has_prefix content ''---'' then Inl (ErrInvalidFrontmatter ''must start with YAML frontmatter'')
      else
        (let rest = drop 3 content;
             rest = (if has_prefix rest [CHR 0x0A] then drop 1 rest else rest)
         in case cut_at ''---'' rest of
              None \<Rightarrow> Inl (ErrInvalidFrontmatter ''missing closing delimiter'')
            | Some (fmBytes, _) \<Rightarrow>
                if length fmBytes > maxFrontmatterSize then Inl (ErrInvalidFrontmatter ''exceeds maximum size'')
                else (case yaml fmBytes of
                        Inl e \<Rightarrow> Inl (ErrInvalidFrontmatter e)
                      | Inr (fm, None) \<Rightarrow> Inr (fm\<lparr>fm_AllowedTools := None\<rparr>)
                      | Inr (fm, Some v) \<Rightarrow>
                          (case UnmarshalYAML v of
                             Inl _ \<Rightarrow> Inl (ErrInvalidFrontmatter ''allowed-tools'')
                           | Inr tools \<Rightarrow> Inr (fm\<lparr>fm_AllowedTools := tools\<rparr>)))))"

section \<open>Walking a directory\<close>

text \<open>A file with what reading it gives, an entry whose \<open>Lstat\<close> fails, a symbolic link, another special file, or a
  directory with its entries in name order and the error \<open>ReadDir\<close> ends with.\<close>

datatype node =
    NFile "(string, bytes) result"
  | NGone string
  | NLink
  | NSpecial
  | NDir "(string \<times> node) list" "string option"

definition is_dir :: "node \<Rightarrow> bool" where
  "is_dir d = (case d of NDir _ _ \<Rightarrow> True | _ \<Rightarrow> False)"

datatype 'e walk_ret = WNil | WSkipDir | WErr 'e

text \<open>Paths are the names below the root of the walk; the callback gets the path, the entry and the error of \<open>ReadDir\<close>.\<close>

function (sequential) walkDir ::
    "(string list \<Rightarrow> node \<Rightarrow> string option \<Rightarrow> 'a \<Rightarrow> 'e walk_ret \<times> 'a) \<Rightarrow> string list \<Rightarrow> node \<Rightarrow> 'a \<Rightarrow> 'e walk_ret \<times> 'a"
  and walkEntries ::
    "(string list \<Rightarrow> node \<Rightarrow> string option \<Rightarrow> 'a \<Rightarrow> 'e walk_ret \<times> 'a) \<Rightarrow> string list \<Rightarrow> (string \<times> node) list \<Rightarrow> 'a
       \<Rightarrow> 'e walk_ret \<times> 'a" where
  "walkDir fn path (NDir es err) a =
     (case fn path (NDir es err) None a of
        (WSkipDir, a) \<Rightarrow> (WNil, a)
      | (WErr e, a) \<Rightarrow> (WErr e, a)
      | (WNil, a) \<Rightarrow>
          (case err of
             None \<Rightarrow> walkEntries fn path es a
           | Some e \<Rightarrow>
               (case fn path (NDir es err) (Some e) a of
                  (WSkipDir, a) \<Rightarrow> (WNil, a)
                | (WErr e, a) \<Rightarrow> (WErr e, a)
                | (WNil, a) \<Rightarrow> walkEntries fn path es a)))"
| "walkDir fn path d a = fn path d None a"
| "walkEntries fn path [] a = (WNil, a)"
| "walkEntries fn path ((n, d) # es) a =
     (case walkDir fn (path @ [n]) d a of
        (WNil, a) \<Rightarrow> walkEntries fn path es a
      | (WSkipDir, a) \<Rightarrow> (WNil, a)
      | (WErr e, a) \<Rightarrow> (WErr e, a))"
  by pat_completeness auto
termination
  by (relation "measure (\<lambda>x. case x of Inl (_, _, d, _) \<Rightarrow> size d
        | Inr (_, _, es, _) \<Rightarrow> size_list (size_prod (\<lambda>_. 0) size) es)") auto

definition rel_path :: "string list \<Rightarrow> string" where
  "rel_path names = join_with ''/'' names"

abbreviation SkillFileName :: string where "SkillFileName \<equiv> ''SKILL.md''"

definition maxSkillFiles :: nat where "maxSkillFiles = 1000"

definition maxSkillTotalSize :: int where "maxSkillTotalSize = 95 * 1024 * 1024"

definition validateSkillFile :: "node \<Rightarrow> string \<Rightarrow> skill_error option" where
  "validateSkillFile d relPath = (case d of
      NGone e \<Rightarrow> Some (CheckingFile relPath e)
    | NLink \<Rightarrow> Some (ErrInvalidSkillFile relPath)
    | NFile _ \<Rightarrow> None
    | _ \<Rightarrow> Some (ErrInvalidSkillFile relPath))"

definition hidden :: "string \<Rightarrow> bool" where
  "hidden n \<longleftrightarrow> has_prefix n ''.''"

definition collect_fn ::
  "string list \<Rightarrow> node \<Rightarrow> string option \<Rightarrow> (string \<times> bytes) list \<times> int
     \<Rightarrow> skill_error walk_ret \<times> (string \<times> bytes) list \<times> int" where
  "collect_fn names d walkErr acc =
     (case walkErr of
        Some e \<Rightarrow> (WErr (WalkError e), acc)
      | None \<Rightarrow>
          if names = [] then (WNil, acc)
          else (let relPath = rel_path names; (files, totalSize) = acc in
            if hidden (last names) then (if is_dir d then WSkipDir else WNil, acc)
            else if d = NLink then (WErr (ErrInvalidSkillFile relPath), acc)
            else if is_dir d then (WNil, acc)
            else (case validateSkillFile d relPath of
              Some e \<Rightarrow> (WErr e, acc)
            | None \<Rightarrow>
                if relPath = SkillFileName then (WNil, acc)
                else if length files \<ge> maxSkillFiles then (WErr ErrTooManyFiles, acc)
                else (case d of
                  NFile (Inl e) \<Rightarrow> (WErr (ReadingFile relPath e), acc)
                | NFile (Inr content) \<Rightarrow>
                    (let totalSize = totalSize + int (length content) in
                     if totalSize > maxSkillTotalSize then (WErr ErrSkillTooLarge, (files, totalSize))
                     else (WNil, (AList.update relPath content files, totalSize)))
                | _ \<Rightarrow> (WNil, acc)))))"

definition collectSkillFiles :: "node \<Rightarrow> (skill_error, (string \<times> bytes) list) result" where
  "collectSkillFiles root =
     (case walkDir collect_fn [] root ([], 0) of
        (WErr e, _) \<Rightarrow> Inl (WalkingDir e)
      | (_, (files, _)) \<Rightarrow> Inr files)"

section \<open>The whole directory\<close>

record skill_fs =
  fs_Stat :: "string \<Rightarrow> (io_err, bool) result"
  fs_ReadFile :: "string \<Rightarrow> (io_err, bytes) result"
  fs_Lstat :: "string \<Rightarrow> (string, node) result"

definition validateSkillDir :: "skill_fs \<Rightarrow> string \<Rightarrow> skill_error option" where
  "validateSkillDir F dir =
     (case fs_Stat F dir of
        Inl NotExist \<Rightarrow> Some (ErrInvalidSkillDir ''not found'')
      | Inl (IOErr e) \<Rightarrow> Some (ErrInvalidSkillDir e)
      | Inr isDir \<Rightarrow>
          if \<not> isDir then Some (ErrInvalidSkillDir ''not a directory'')
          else if str_contains (path_clean dir) ''..'' then Some (ErrInvalidSkillDir ''contains path traversal'')
          else None)"

record skillDirContent =
  sd_skillMD :: bytes
  sd_files :: "(string \<times> bytes) list"
  sd_fm :: frontmatter

definition readSkillDirectory :: "yaml_decoder \<Rightarrow> skill_fs \<Rightarrow> string \<Rightarrow> (skill_error, skillDirContent) result" where
  "readSkillDirectory yaml F dir =
     (case validateSkillDir F dir of
        Some e \<Rightarrow> Inl e
      | None \<Rightarrow>
          (case fs_ReadFile F (filepath_Join [dir, SkillFileName]) of
             Inl NotExist \<Rightarrow> Inl ErrSkillMDMissing
           | Inl (IOErr e) \<Rightarrow> Inl (ReadingSkillMD e)
           | Inr skillMD \<Rightarrow>
               bindE (map_err ParsingSkillMD (parseFrontmatter yaml skillMD)) (\<lambda>fm.
                 if fm_Name fm = [] then Inl (ErrInvalidFrontmatter ''skill name is required'')
                 else bindE (case fs_Lstat F dir of
                          Inl e \<Rightarrow> Inl (WalkingDir (WalkError e))
                        | Inr root \<Rightarrow> collectSkillFiles root)
                      (\<lambda>files. Inr \<lparr>sd_skillMD = skillMD, sd_files = files, sd_fm = fm\<rparr>))))"

section \<open>The walk collects exactly the visible files\<close>

text \<open>What the walk meets: the visible leaves in walk order, and directories it cannot list.\<close>

datatype event = Leaf "string list" node | BadDir string

function (sequential) events :: "string list \<Rightarrow> node \<Rightarrow> event list"
  and entry_events :: "string list \<Rightarrow> (string \<times> node) list \<Rightarrow> event list" where
  "events p (NDir es (Some e)) = [BadDir e]"
| "events p (NDir es None) = entry_events p es"
| "events p d = [Leaf p d]"
| "entry_events p [] = []"
| "entry_events p ((n, d) # es) = (if hidden n then [] else events (p @ [n]) d) @ entry_events p es"
  by pat_completeness auto
termination
  by (relation "measure (\<lambda>x. case x of Inl (_, d) \<Rightarrow> size d
        | Inr (_, es) \<Rightarrow> size_list (size_prod (\<lambda>_. 0) size) es)") auto

fun take_event :: "event \<Rightarrow> (string \<times> bytes) list \<times> int \<Rightarrow> skill_error walk_ret \<times> (string \<times> bytes) list \<times> int" where
  "take_event (Leaf p d) acc = collect_fn p d None acc"
| "take_event (BadDir e) acc = (WErr (WalkError e), acc)"

fun run_events :: "event list \<Rightarrow> (string \<times> bytes) list \<times> int \<Rightarrow> skill_error walk_ret \<times> (string \<times> bytes) list \<times> int" where
  "run_events [] acc = (WNil, acc)"
| "run_events (e # es) acc =
     (case take_event e acc of (WNil, acc) \<Rightarrow> run_events es acc | (r, acc) \<Rightarrow> (r, acc))"

lemma run_events_append:
  "run_events (xs @ ys) acc = (case run_events xs acc of (WNil, acc) \<Rightarrow> run_events ys acc | (r, acc) \<Rightarrow> (r, acc))"
  by (induction xs arbitrary: acc) (auto split: prod.split walk_ret.split)

lemma collect_leaf_no_skip: "\<not> is_dir d \<Longrightarrow> fst (collect_fn p d None acc) \<noteq> WSkipDir"
  by (auto simp: collect_fn_def Let_def split: prod.splits option.splits node.splits sum.splits)

lemma collect_dir:
  "p = [] \<or> \<not> hidden (last p) \<Longrightarrow> collect_fn p (NDir es err) None acc = (WNil, acc)"
  by (auto simp: collect_fn_def is_dir_def Let_def split: prod.splits)

lemma collect_hidden:
  "p \<noteq> [] \<Longrightarrow> hidden (last p) \<Longrightarrow> collect_fn p d None acc = (if is_dir d then WSkipDir else WNil, acc)"
  by (auto simp: collect_fn_def Let_def split: prod.splits)

lemma run_events_no_skip: "(\<forall>p d. Leaf p d \<in> set es \<longrightarrow> \<not> is_dir d) \<Longrightarrow> fst (run_events es acc) \<noteq> WSkipDir"
proof (induction es arbitrary: acc)
  case Nil
  then show ?case by simp
next
  case (Cons e es)
  have "fst (take_event e acc) \<noteq> WSkipDir" using Cons.prems collect_leaf_no_skip by (cases e) auto
  with Cons show ?case by (auto split: prod.split walk_ret.split)
qed

lemma events_leaves:
  "Leaf q d' \<in> set (events p d) \<Longrightarrow> \<not> is_dir d'"
  "Leaf q d' \<in> set (entry_events p es) \<Longrightarrow> \<not> is_dir d'"
  by (induction p d and p es rule: events_entry_events.induct) (auto simp: is_dir_def split: if_splits)

lemma hidden_entry:
  "hidden n \<Longrightarrow> walkDir collect_fn (p @ [n]) d acc = (WNil, acc)"
  by (cases d) (simp_all add: collect_hidden is_dir_def)

lemma walk_events:
  "p = [] \<or> \<not> hidden (last p) \<Longrightarrow> walkDir collect_fn p d acc = run_events (events p d) acc"
  "walkEntries collect_fn p es acc = run_events (entry_events p es) acc"
proof (induction p d and p es arbitrary: acc and acc rule: events_entry_events.induct)
  case (1 p es e)
  then show ?case by (simp add: collect_dir) (simp add: collect_fn_def)
next
  case (2 p es)
  then show ?case by (simp add: collect_dir)
next
  case (5 p n d es)
  have "fst (run_events (events (p @ [n]) d) acc) \<noteq> WSkipDir"
    by (rule run_events_no_skip) (use events_leaves in blast)
  with 5 show ?case
    by (cases "hidden n") (auto simp: hidden_entry run_events_append split: prod.split walk_ret.split)
qed (auto split: prod.split walk_ret.split)

fun wf_node :: "node \<Rightarrow> bool" where
  "wf_node (NDir es err) \<longleftrightarrow> distinct (map fst es) \<and> (\<forall>x \<in> set es. plain (fst x) \<and> wf_node (snd x))"
| "wf_node d \<longleftrightarrow> True"

definition leaf_paths :: "event list \<Rightarrow> string list list" where
  "leaf_paths evs = concat (map (\<lambda>e. case e of Leaf p _ \<Rightarrow> [p] | BadDir _ \<Rightarrow> []) evs)"

definition good_names :: "string list \<Rightarrow> bool" where
  "good_names ns \<longleftrightarrow> (\<forall>n \<in> set ns. plain n \<and> \<not> hidden n)"

lemma leaf_paths_simps [simp]:
  "leaf_paths [] = []" "leaf_paths (xs @ ys) = leaf_paths xs @ leaf_paths ys"
  "leaf_paths (Leaf p d # es) = p # leaf_paths es" "leaf_paths (BadDir e # es) = leaf_paths es"
  by (simp_all add: leaf_paths_def)

lemma events_paths:
  "wf_node d \<Longrightarrow> (\<forall>q \<in> set (leaf_paths (events p d)). \<exists>r. q = p @ r \<and> good_names r \<and> (is_dir d \<longrightarrow> r \<noteq> [])) \<and>
     distinct (leaf_paths (events p d))"
  "distinct (map fst es) \<Longrightarrow> (\<forall>x \<in> set es. plain (fst x) \<and> wf_node (snd x)) \<Longrightarrow>
     (\<forall>q \<in> set (leaf_paths (entry_events p es)). \<exists>n r. n \<in> fst ` set es \<and> q = p @ n # r \<and> good_names (n # r)) \<and>
     distinct (leaf_paths (entry_events p es))"
proof (induction p d and p es rule: events_entry_events.induct)
  case (2 p es)
  then show ?case by (fastforce simp: is_dir_def)
next
  case (5 p n d es)
  have tl: "(\<forall>q \<in> set (leaf_paths (entry_events p es)). \<exists>n r. n \<in> fst ` set es \<and> q = p @ n # r \<and> good_names (n # r)) \<and>
     distinct (leaf_paths (entry_events p es))" using 5 by simp
  have hd: "(\<forall>q \<in> set (leaf_paths (events (p @ [n]) d)). \<exists>r. q = p @ n # r \<and> good_names (n # r)) \<and>
     distinct (leaf_paths (events (p @ [n]) d))" if "\<not> hidden n"
    using 5(1)[OF that] 5(4) that by (fastforce simp: good_names_def)
  have n: "n \<notin> fst ` set es" using 5(3) by simp
  show ?case
  proof (cases "hidden n")
    case True
    then show ?thesis using tl by (auto 0 3)
  next
    case False
    have "set (leaf_paths (events (p @ [n]) d)) \<inter> set (leaf_paths (entry_events p es)) = {}"
    proof (rule equals0I)
      fix q assume "q \<in> set (leaf_paths (events (p @ [n]) d)) \<inter> set (leaf_paths (entry_events p es))"
      then obtain r n' r' where "q = p @ n # r" "q = p @ n' # r'" "n' \<in> fst ` set es"
        using hd[OF False] tl by blast
      with n show False by simp
    qed
    moreover have "\<exists>n' r. n' \<in> fst ` set ((n, d) # es) \<and> q = p @ n' # r \<and> good_names (n' # r)"
      if "q \<in> set (leaf_paths (events (p @ [n]) d)) \<or> q \<in> set (leaf_paths (entry_events p es))" for q
      using that hd[OF False] tl by (metis fst_conv image_insert insertCI list.simps(15))
    ultimately show ?thesis using hd[OF False] tl False by auto
  qed
qed (simp_all add: good_names_def is_dir_def)

lemma rel_path_inj:
  assumes "good_names p" "good_names q" "p \<noteq> []" "q \<noteq> []" "rel_path p = rel_path q"
  shows "p = q"
proof -
  have "elems (rel_path r) = r" if "good_names r" "r \<noteq> []" for r
    unfolding rel_path_def using that by (intro split_join) (auto simp: good_names_def plain_def)
  with assms show ?thesis by metis
qed

definition ok_event :: "event \<Rightarrow> bool" where
  "ok_event e = (case e of Leaf p (NFile c) \<Rightarrow> rel_path p = SkillFileName \<or> is_ok c | _ \<Rightarrow> False)"

definition picked1 :: "event \<Rightarrow> (string \<times> bytes) list" where
  "picked1 e = (case e of
      Leaf p (NFile (Inr c)) \<Rightarrow> if rel_path p = SkillFileName then [] else [(rel_path p, c)]
    | _ \<Rightarrow> [])"

definition picked :: "event list \<Rightarrow> (string \<times> bytes) list" where
  "picked evs = concat (map picked1 evs)"

definition total :: "(string \<times> bytes) list \<Rightarrow> int" where
  "total fs = sum_list (map (\<lambda>f. int (length (snd f))) fs)"

lemma total_simps [simp]: "total [] = 0" "total (f # fs) = int (length (snd f)) + total fs"
  by (simp_all add: total_def)

lemma total_nonneg: "0 \<le> total fs"
  by (induction fs) simp_all

lemma update_fresh: "k \<notin> fst ` set al \<Longrightarrow> AList.update k v al = al @ [(k, v)]"
  by (induction al) auto

text \<open>One visible leaf.\<close>

lemma collect_leaf:
  assumes "p \<noteq> []" "\<not> hidden (last p)" "\<not> is_dir d" "rel_path p \<notin> fst ` set fs"
  shows "collect_fn p d None (fs, t) = (WNil, r) \<longleftrightarrow>
     ok_event (Leaf p d) \<and> r = (fs @ picked1 (Leaf p d), t + total (picked1 (Leaf p d))) \<and>
     (picked1 (Leaf p d) \<noteq> [] \<longrightarrow> length fs < maxSkillFiles \<and> t + total (picked1 (Leaf p d)) \<le> maxSkillTotalSize)"
proof (cases d)
  case (NFile c)
  then show ?thesis using assms
    by (cases c) (auto simp: collect_fn_def ok_event_def picked1_def validateSkillFile_def is_dir_def update_fresh Let_def)
qed (use assms in \<open>auto simp: collect_fn_def ok_event_def validateSkillFile_def is_dir_def Let_def\<close>)

lemma run_events_ok:
  assumes "\<forall>e \<in> set evs. \<forall>p d. e = Leaf p d \<longrightarrow> p \<noteq> [] \<and> \<not> hidden (last p) \<and> \<not> is_dir d"
    and "distinct (map fst fs @ map rel_path (leaf_paths evs))" "length fs \<le> maxSkillFiles" "t \<le> maxSkillTotalSize"
  shows "run_events evs (fs, t) = (WNil, r) \<longleftrightarrow>
     (\<forall>e \<in> set evs. ok_event e) \<and> r = (fs @ picked evs, t + total (picked evs)) \<and>
     length fs + length (picked evs) \<le> maxSkillFiles \<and> t + total (picked evs) \<le> maxSkillTotalSize"
  using assms
proof (induction evs arbitrary: fs t)
  case Nil
  then show ?case by (auto simp: picked_def)
next
  case (Cons e evs)
  show ?case
  proof (cases e)
    case (BadDir x)
    then show ?thesis by (simp add: ok_event_def)
  next
    case (Leaf p d)
    define fs' where "fs' = fs @ picked1 e"
    define t' where "t' = t + total (picked1 e)"
    have pk: "picked (e # evs) = picked1 e @ picked evs" by (simp add: picked_def)
    have tot: "total (picked1 e @ picked evs) = total (picked1 e) + total (picked evs)" by (simp add: total_def)
    have p1: "picked1 e = [] \<or> (\<exists>c. picked1 e = [(rel_path p, c)])"
      by (auto simp: picked1_def Leaf split: node.split sum.split)
    have hd: "collect_fn p d None (fs, t) = (WNil, q) \<longleftrightarrow> ok_event e \<and> q = (fs', t') \<and>
       (picked1 e \<noteq> [] \<longrightarrow> length fs < maxSkillFiles \<and> t' \<le> maxSkillTotalSize)" for q
    proof -
      have "p \<noteq> []" "\<not> hidden (last p)" "\<not> is_dir d" using Cons.prems(1) Leaf by auto
      moreover have "rel_path p \<notin> fst ` set fs" using Cons.prems(2) Leaf by auto
      ultimately show ?thesis using collect_leaf[of p d fs t q] unfolding Leaf fs'_def t'_def by blast
    qed
    show ?thesis
    proof (cases "ok_event e \<and> (picked1 e \<noteq> [] \<longrightarrow> length fs < maxSkillFiles \<and> t' \<le> maxSkillTotalSize)")
      case True
      then have c: "collect_fn p d None (fs, t) = (WNil, (fs', t'))" by (simp add: hd)
      have "distinct (map fst fs' @ map rel_path (leaf_paths evs))" "length fs' \<le> maxSkillFiles" "t' \<le> maxSkillTotalSize"
        using Cons.prems p1 True by (auto simp: fs'_def t'_def Leaf) (metis fst_conv image_eqI)
      from Cons.IH[OF _ this] Cons.prems(1) c True show ?thesis
        by (simp add: Leaf pk[unfolded Leaf] tot[unfolded Leaf] fs'_def t'_def add.assoc)
    next
      case False
      then have "fst (collect_fn p d None (fs, t)) \<noteq> WNil" using hd by (metis prod.collapse)
      then have "run_events (e # evs) (fs, t) \<noteq> (WNil, r)"
        by (auto simp: Leaf split: prod.splits walk_ret.splits)
      moreover have "\<not> (ok_event e \<and> length fs + length (picked (e # evs)) \<le> maxSkillFiles \<and>
          t + total (picked (e # evs)) \<le> maxSkillTotalSize)"
        using False p1 total_nonneg[of "picked evs"] unfolding pk tot t'_def by auto
      ultimately show ?thesis by auto
    qed
  qed
qed

lemma collect_visible:
  fixes es :: "(string \<times> node) list" and err :: "string option"
  defines "evs \<equiv> events [] (NDir es err)"
  assumes "wf_node (NDir es err)"
  shows "collectSkillFiles (NDir es err) = Inr files \<longleftrightarrow> (\<forall>e \<in> set evs. ok_event e) \<and> files = picked evs \<and>
      length files \<le> 1000 \<and> total files \<le> 99614720"
    and "distinct (map fst (picked evs))"
    and "f \<in> set (picked evs) \<Longrightarrow>
      \<exists>names. names \<noteq> [] \<and> good_names names \<and> fst f = rel_path names \<and> fst f \<noteq> SkillFileName"
proof -
  have paths: "\<forall>q \<in> set (leaf_paths evs). q \<noteq> [] \<and> good_names q" "distinct (leaf_paths evs)"
    using events_paths(1)[OF assms(2), of "[]"] by (auto simp: evs_def is_dir_def)
  have in_paths: "p \<in> set (leaf_paths evs)" if "Leaf p d \<in> set evs" for p d
    using that by (force simp: leaf_paths_def)
  have leaves: "\<forall>e \<in> set evs. \<forall>p d. e = Leaf p d \<longrightarrow> p \<noteq> [] \<and> \<not> hidden (last p) \<and> \<not> is_dir d"
  proof (intro ballI allI impI)
    fix e p d assume "e \<in> set evs" "e = Leaf p d"
    then have "Leaf p d \<in> set evs" by simp
    then show "p \<noteq> [] \<and> \<not> hidden (last p) \<and> \<not> is_dir d"
      using paths(1) in_paths[of p d] events_leaves(1)[of p d "[]" "NDir es err"] last_in_set[of p]
      by (auto simp: evs_def good_names_def)
  qed
  have "inj_on rel_path (set (leaf_paths evs))"
    using paths(1) rel_path_inj by (intro inj_onI) blast
  then have dist: "distinct (map rel_path (leaf_paths evs))" using paths(2) by (simp add: distinct_map)
  have run: "run_events evs ([], 0) = (WNil, r) \<longleftrightarrow> (\<forall>e \<in> set evs. ok_event e) \<and> r = (picked evs, total (picked evs)) \<and>
      length (picked evs) \<le> maxSkillFiles \<and> total (picked evs) \<le> maxSkillTotalSize" for r
    using run_events_ok[of evs "[]" 0 r] leaves dist by (simp add: maxSkillTotalSize_def)
  have "fst (run_events evs ([], 0)) \<noteq> WSkipDir"
    by (rule run_events_no_skip) (use leaves in blast)
  then have "collectSkillFiles (NDir es err) = Inr files \<longleftrightarrow> (\<exists>t. run_events evs ([], 0) = (WNil, (files, t)))" for files
    unfolding collectSkillFiles_def walk_events(1)[of "[]", simplified] evs_def
    by (auto split: prod.splits walk_ret.splits)
  then show "collectSkillFiles (NDir es err) = Inr files \<longleftrightarrow> (\<forall>e \<in> set evs. ok_event e) \<and> files = picked evs \<and>
      length files \<le> 1000 \<and> total files \<le> 99614720"
    by (auto simp: run maxSkillFiles_def maxSkillTotalSize_def)
  have "subseq (map fst (picked evs)) (map rel_path (leaf_paths evs))"
    by (induction evs) (auto simp: picked_def picked1_def split: event.split node.split sum.split)
  with dist show "distinct (map fst (picked evs))" by (auto simp: subseq_conv_nths intro: distinct_nthsI)
  show "\<exists>names. names \<noteq> [] \<and> good_names names \<and> fst f = rel_path names \<and> fst f \<noteq> SkillFileName"
    if "f \<in> set (picked evs)"
    using that paths(1) in_paths
    by (fastforce simp: picked_def picked1_def split: event.splits node.splits sum.splits if_splits)
qed

text \<open>
  The collected files, exactly: for a directory whose entries have proper names, collection succeeds if and only if every visible entry outside hidden
  directories is a readable regular file (\<open>SKILL.md\<close> itself need not be readable here) or a listable directory,
  there are at most 1000 files beside \<open>SKILL.md\<close>, and together they hold at most 95 MiB. The result is then the list of those
  files with their contents, under distinct, clean relative paths without hidden elements.
\<close>
theorem collectSkillFiles_exact:
  assumes "wf_node (NDir es err)"
  shows "(\<forall>files. collectSkillFiles (NDir es err) = Inr files \<longleftrightarrow>
            (\<forall>e \<in> set (events [] (NDir es err)). ok_event e) \<and>
            files = picked (events [] (NDir es err)) \<and>
            length files \<le> 1000 \<and> total files \<le> 99614720) \<and>
         distinct (map fst (picked (events [] (NDir es err)))) \<and>
         (\<forall>f \<in> set (picked (events [] (NDir es err))).
            \<exists>names. names \<noteq> [] \<and> good_names names \<and> fst f = rel_path names \<and> fst f \<noteq> SkillFileName)"
  using collect_visible[OF assms] by blast

definition sample_tree :: node where
  "sample_tree = NDir [(''.git'', NDir [(''x'', NLink)] None), (''SKILL.md'', NFile (Inr [1])),
     (''scripts'', NDir [(''run.sh'', NFile (Inr [2, 3]))] None)] None"

lemma sample_events:
  "events [] sample_tree = [Leaf [''SKILL.md''] (NFile (Inr [1])), Leaf [''scripts'', ''run.sh''] (NFile (Inr [2, 3]))]"
  by (simp add: sample_tree_def hidden_def)

theorem collectSkillFiles_exact_witness: "collectSkillFiles sample_tree = Inr [(''scripts/run.sh'', [2, 3])]"
proof -
  have wf: "wf_node sample_tree" by (simp add: sample_tree_def plain_def)
  have "picked (events [] sample_tree) = [(''scripts/run.sh'', [2, 3])]" "\<forall>e \<in> set (events [] sample_tree). ok_event e"
    unfolding sample_events by (simp_all add: picked_def picked1_def ok_event_def rel_path_def)
  then show ?thesis
    using collectSkillFiles_exact[OF wf[unfolded sample_tree_def]] unfolding sample_tree_def by simp
qed

text \<open>
  \<open>validateSkillDir\<close> follows symbolic links and \<open>WalkDir\<close> does not follow one at its root: a skill directory given through a symbolic
  link is read without any of its files but \<open>SKILL.md\<close>, and without an error.
\<close>
lemma symlinked_dir_loses_files:
  assumes "fs_Stat F dir = Inr True" "\<not> str_contains (path_clean dir) ''..''" "fs_Lstat F dir = Inr NLink"
    and "fs_ReadFile F (filepath_Join [dir, SkillFileName]) = Inr md" "parseFrontmatter yaml md = Inr fm" "fm_Name fm \<noteq> []"
  shows "readSkillDirectory yaml F dir = Inr \<lparr>sd_skillMD = md, sd_files = [], sd_fm = fm\<rparr>"
  using assms by (simp add: readSkillDirectory_def validateSkillDir_def collectSkillFiles_def collect_fn_def)

text \<open>
  The closing delimiter is the first three dashes wherever they stand, so a value that contains them ends the front
  matter: what follows them, on the same line or below, does not matter.
\<close>
lemma cut_first_dashes: "CHR ''-'' \<notin> set a \<Longrightarrow> cut_at ''---'' (a @ ''---'' @ b) = Some (a, b)"
  by (induction a) auto

lemma frontmatter_cut_inside_value:
  assumes "CHR ''-'' \<notin> set a"
    and "trim_space (str_of c) = ''---'' @ [CHR 0x0A] @ a @ ''---'' @ b"
    and "trim_space (str_of c') = ''---'' @ [CHR 0x0A] @ a @ ''---'' @ b'"
  shows "parseFrontmatter yaml c = parseFrontmatter yaml c'"
  using cut_first_dashes[OF assms(1), of b] cut_first_dashes[OF assms(1), of b']
  unfolding parseFrontmatter_def assms(2,3) by simp

end
