(* ===== verification/Skill_Package.thy ===== *)
theory Skill_Package
  imports Skill_Dir
begin

text \<open>
  Packaging a skill as an OCI artifact (\<open>oci/skills/packager.go\<close>), reading its metadata back (\<open>oci/skills/mediatypes.go\<close>), and
  moving artifacts between the local store and a registry (\<open>oci/skills/registry.go\<close>).

  A Go map is an association list in iteration order. The encoders of \<open>encoding/json\<close> and the time format are parameters (\<open>skill_js\<close>), as are the
  tar and gzip writers and \<open>sort.Slice\<close> that \<open>oci/artifact\<close> takes (\<open>pack_env\<close>).
\<close>

section \<open>Metadata keys\<close>

abbreviation ArtifactTypeSkill :: string where "ArtifactTypeSkill \<equiv> ''dev.toolhive.skills.v1''"
abbreviation AnnotationSkillName :: string where "AnnotationSkillName \<equiv> ''dev.toolhive.skills.name''"
abbreviation AnnotationSkillDescription :: string where "AnnotationSkillDescription \<equiv> ''dev.toolhive.skills.description''"
abbreviation AnnotationSkillVersion :: string where "AnnotationSkillVersion \<equiv> ''dev.toolhive.skills.version''"
abbreviation AnnotationSkillRequires :: string where "AnnotationSkillRequires \<equiv> ''dev.toolhive.skills.requires''"
abbreviation LabelSkillName :: string where "LabelSkillName \<equiv> ''dev.toolhive.skills.name''"
abbreviation LabelSkillDescription :: string where "LabelSkillDescription \<equiv> ''dev.toolhive.skills.description''"
abbreviation LabelSkillVersion :: string where "LabelSkillVersion \<equiv> ''dev.toolhive.skills.version''"
abbreviation LabelSkillAllowedTools :: string where "LabelSkillAllowedTools \<equiv> ''dev.toolhive.skills.allowedTools''"
abbreviation LabelSkillLicense :: string where "LabelSkillLicense \<equiv> ''dev.toolhive.skills.license''"
abbreviation LabelSkillFiles :: string where "LabelSkillFiles \<equiv> ''dev.toolhive.skills.files''"
abbreviation AnnotationCreated :: string where "AnnotationCreated \<equiv> ''org.opencontainers.image.created''"
abbreviation AnnotationTitle :: string where "AnnotationTitle \<equiv> ''org.opencontainers.image.title''"
abbreviation MediaTypeImageConfig :: string where
  "MediaTypeImageConfig \<equiv> ''application/vnd.oci.image.config.v1+json''"
abbreviation MediaTypeImageLayerGzip :: string where
  "MediaTypeImageLayerGzip \<equiv> ''application/vnd.oci.image.layer.v1.tar+gzip''"

text \<open>A map lookup with Go's zero value for a missing key; a nil map has none.\<close>

definition str_lookup :: "(string \<times> string) list \<Rightarrow> string \<Rightarrow> string" where
  "str_lookup m k = (case map_of m k of None \<Rightarrow> [] | Some v \<Rightarrow> v)"

section \<open>Metadata of an image\<close>

record SkillConfig =
  sc_Name :: string
  sc_Description :: string
  sc_Version :: string
  sc_AllowedTools :: "string list option"
  sc_License :: string
  sc_Compatibility :: string
  sc_Metadata :: "(string \<times> string) list option"
  sc_Files :: "string list option"

record Image =
  im_Created :: "gotime option"
  im_Platform :: Platform
  im_Labels :: "(string \<times> string) list option"
  im_RootFSType :: string
  im_DiffIDs :: "string list"
  im_History :: "(gotime option \<times> string) list"

record skill_js =
  js_strs :: "string list option \<Rightarrow> string"
  js_strs_of :: "string \<Rightarrow> string list option option"
  js_Image_enc :: "Image \<Rightarrow> (string, bytes) result"
  js_Manifest_enc :: "Manifest \<Rightarrow> (string, bytes) result"
  js_Index_enc :: "Index \<Rightarrow> (string, bytes) result"
  rfc3339 :: "gotime \<Rightarrow> string"

datatype config_err = ImageConfigNil | NoLabels | SkillNameRequired | AllowedToolsSyntax | FilesSyntax

definition SkillConfigFromImageConfig :: "skill_js \<Rightarrow> Image option \<Rightarrow> (config_err, SkillConfig) result" where
  "SkillConfigFromImageConfig J imgConfig =
     (case imgConfig of
        None \<Rightarrow> Inl ImageConfigNil
      | Some img \<Rightarrow>
          (case im_Labels img of
             None \<Rightarrow> Inl NoLabels
           | Some labels \<Rightarrow>
               (let config = \<lparr>sc_Name = str_lookup labels LabelSkillName, sc_Description = str_lookup labels LabelSkillDescription,
                      sc_Version = str_lookup labels LabelSkillVersion, sc_AllowedTools = None,
                      sc_License = str_lookup labels LabelSkillLicense, sc_Compatibility = [], sc_Metadata = None, sc_Files = None\<rparr>
                in if sc_Name config = [] then Inl SkillNameRequired
                   else bindE
                     (let toolsJSON = str_lookup labels LabelSkillAllowedTools in
                      if toolsJSON \<noteq> [] then
                        (case js_strs_of J toolsJSON of
                           None \<Rightarrow> Inl AllowedToolsSyntax
                         | Some v \<Rightarrow> Inr (config\<lparr>sc_AllowedTools := v\<rparr>))
                      else Inr config)
                     (\<lambda>config. let filesJSON = str_lookup labels LabelSkillFiles in
                        if filesJSON \<noteq> [] then
                          (case js_strs_of J filesJSON of
                             None \<Rightarrow> Inl FilesSyntax
                           | Some v \<Rightarrow> Inr (config\<lparr>sc_Files := v\<rparr>))
                        else Inr config))))"

definition ParseRequiresAnnotation :: "skill_js \<Rightarrow> (string \<times> string) list \<Rightarrow> string list option" where
  "ParseRequiresAnnotation J annotations =
     (let requiresJSON = str_lookup annotations AnnotationSkillRequires in
      if requiresJSON = [] then None
      else (case js_strs_of J requiresJSON of None \<Rightarrow> None | Some refs \<Rightarrow> refs))"

section \<open>Building the artifact\<close>

record PackageOptions =
  po_Epoch :: gotime
  po_Platforms :: "Platform list"

definition DefaultPackageOptions :: "(string \<Rightarrow> string) \<Rightarrow> PackageOptions" where
  "DefaultPackageOptions getenv =
     (let sde = getenv ''SOURCE_DATE_EPOCH'';
          epoch = (if sde \<noteq> [] then (case atoi sde of Some ts \<Rightarrow> ts | None \<Rightarrow> 0) else 0)
      in \<lparr>po_Epoch = epoch, po_Platforms = DefaultPlatforms\<rparr>)"

record ('w, 'g) pack_env =
  pe_sort :: "FileEntry list \<Rightarrow> FileEntry list"
  pe_tar :: "'w tar_writer"
  pe_gzip :: "'g gzip_writer"

datatype pkg_error =
    ReadingSkillDir skill_error | CreatingLayer art_error | StoringLayer store_error
  | MarshalingConfig string string | StoringConfig string store_error
  | MarshalingManifest string string | StoringManifest string store_error
  | MissingManifest string | MarshalingIndex string | StoringIndex store_error

definition file_lookup :: "(string \<times> bytes) list \<Rightarrow> string \<Rightarrow> bytes" where
  "file_lookup m k = (case map_of m k of None \<Rightarrow> [] | Some v \<Rightarrow> v)"

definition layer_files :: "skillDirContent \<Rightarrow> FileEntry list" where
  "layer_files content =
     (let sortedPaths = sort (map fst (sd_files content))
      in \<lparr>fe_Path = SkillFileName, fe_Content = sd_skillMD content, fe_Mode = 0\<rparr> #
         map (\<lambda>p. \<lparr>fe_Path = p, fe_Content = file_lookup (sd_files content) p, fe_Mode = 0\<rparr>) sortedPaths)"

definition createContentLayer ::
  "('w, 'g) pack_env \<Rightarrow> skillDirContent \<Rightarrow> PackageOptions \<Rightarrow> (art_error, bytes \<times> bytes) result" where
  "createContentLayer E content opts =
     (let files = layer_files content;
          tarOpts = \<lparr>to_Epoch = po_Epoch opts\<rparr>;
          gzipOpts = DefaultGzipOptions\<lparr>go_Epoch := po_Epoch opts\<rparr>
      in bindE (map_err CreatingTar (CreateTar (pe_sort E) (pe_tar E) files tarOpts))
           (\<lambda>uncompressed. bindE (map_err CompressingTar (Compress (pe_gzip E) uncompressed gzipOpts))
             (\<lambda>compressed. Inr (compressed, uncompressed))))"

definition createOCIConfig ::
  "oci_lib \<Rightarrow> skill_js \<Rightarrow> skillDirContent \<Rightarrow> bytes \<Rightarrow> Platform \<Rightarrow> PackageOptions \<Rightarrow> Image \<times> SkillConfig" where
  "createOCIConfig L J content uncompressedTar platform opts =
     (let allFiles = sort (SkillFileName # map fst (sd_files content));
          fm = sd_fm content;
          skillConfig = \<lparr>sc_Name = fm_Name fm, sc_Description = fm_Description fm, sc_Version = fm_Version fm,
            sc_AllowedTools = fm_AllowedTools fm, sc_License = fm_License fm, sc_Compatibility = fm_Compatibility fm,
            sc_Metadata = fm_Metadata fm, sc_Files = Some allFiles\<rparr>;
          allowedToolsJSON = js_strs J (sc_AllowedTools skillConfig);
          filesJSON = js_strs J (sc_Files skillConfig);
          epoch = po_Epoch opts;
          ociConfig = \<lparr>im_Created = Some epoch, im_Platform = platform,
            im_Labels = Some [(LabelSkillName, sc_Name skillConfig), (LabelSkillDescription, sc_Description skillConfig),
              (LabelSkillVersion, sc_Version skillConfig), (LabelSkillAllowedTools, allowedToolsJSON),
              (LabelSkillLicense, sc_License skillConfig), (LabelSkillFiles, filesJSON)],
            im_RootFSType = ''layers'', im_DiffIDs = [FromBytes L uncompressedTar],
            im_History = [(Some epoch, ''toolhive package'')]\<rparr>
      in (ociConfig, skillConfig))"

definition requires_refs :: "string \<Rightarrow> string list" where
  "requires_refs reqStr = filter (\<lambda>l. l \<noteq> []) (map trim_space (split_on CHR 0x0A reqStr))"

definition createManifest ::
  "skill_js \<Rightarrow> bytes \<Rightarrow> string \<Rightarrow> bytes \<Rightarrow> string \<Rightarrow> frontmatter \<Rightarrow> PackageOptions \<Rightarrow> Manifest" where
  "createManifest J configBytes configDigest layerBytes layerDigest fm opts =
     (let annotations = [(AnnotationCreated, rfc3339 J (po_Epoch opts)), (AnnotationSkillName, fm_Name fm),
            (AnnotationSkillDescription, fm_Description fm), (AnnotationSkillVersion, fm_Version fm)];
          reqStr = (case fm_Metadata fm of None \<Rightarrow> None | Some md \<Rightarrow> map_of md ''toolhive.requires'');
          annotations = (case reqStr of
              None \<Rightarrow> annotations
            | Some r \<Rightarrow>
                if r \<noteq> [] \<and> requires_refs r \<noteq> []
                then AList.update AnnotationSkillRequires (js_strs J (Some (requires_refs r))) annotations
                else annotations)
      in \<lparr>mf_SchemaVersion = 2, mf_MediaType = MediaTypeImageManifest, mf_ArtifactType = ArtifactTypeSkill,
          mf_Config = plain_desc MediaTypeImageConfig configDigest (int (length configBytes)),
          mf_Layers = [(plain_desc MediaTypeImageLayerGzip layerDigest (int (length layerBytes)))
                         \<lparr>d_Annotations := Some [(AnnotationTitle, ''skill.tar.gz'')]\<rparr>],
          mf_Annotations = Some annotations\<rparr>)"

record manifestInfo =
  mi_digest :: string
  mi_size :: int

fun index_entries ::
  "(string \<times> manifestInfo) list \<Rightarrow> Platform list \<Rightarrow> (pkg_error, OciDescriptor list) result" where
  "index_entries platformManifests [] = Inr []"
| "index_entries platformManifests (platform # ps) =
     (case map_of platformManifests (PlatformString platform) of
        None \<Rightarrow> Inl (MissingManifest (PlatformString platform))
      | Some info \<Rightarrow>
          bindE (index_entries platformManifests ps)
            (\<lambda>ds. Inr ((plain_desc MediaTypeImageManifest (mi_digest info) (mi_size info))
                         \<lparr>d_Platform := Some platform\<rparr> # ds)))"

definition createIndex ::
  "oci_lib \<Rightarrow> skill_js \<Rightarrow> 's Store \<Rightarrow> (string \<times> manifestInfo) list \<Rightarrow> (string \<times> string) list option \<Rightarrow> PackageOptions
     \<Rightarrow> 's \<Rightarrow> (pkg_error, string) result \<times> 's" where
  "createIndex L J s platformManifests annotations opts st =
     (case index_entries platformManifests (po_Platforms opts) of
        Inl e \<Rightarrow> (Inl e, st)
      | Inr manifests \<Rightarrow>
          (let index = \<lparr>ix_SchemaVersion = 2, ix_MediaType = MediaTypeImageIndex, ix_ArtifactType = ArtifactTypeSkill,
                 ix_Manifests = manifests, ix_Annotations = annotations\<rparr>
           in case js_Index_enc J index of
                Inl e \<Rightarrow> (Inl (MarshalingIndex e), st)
              | Inr indexBytes \<Rightarrow> wrapS StoringIndex (PutManifest L s indexBytes st)))"

text \<open>The state of the platform loop: the manifests so far, and the data of the first platform.\<close>

record loop_acc =
  la_manifests :: "(string \<times> manifestInfo) list"
  la_primaryManifest :: string
  la_primaryConfig :: string
  la_config :: "SkillConfig option"
  la_annotations :: "(string \<times> string) list option"

definition package_platform ::
  "oci_lib \<Rightarrow> skill_js \<Rightarrow> 's Store \<Rightarrow> skillDirContent \<Rightarrow> bytes \<Rightarrow> bytes \<Rightarrow> string \<Rightarrow> PackageOptions \<Rightarrow> bool \<Rightarrow> Platform
     \<Rightarrow> loop_acc \<Rightarrow> 's \<Rightarrow> (pkg_error, loop_acc) result \<times> 's" where
  "package_platform L J s content layerBytes uncompressedTar layerDigest opts isFirst platform acc st =
     (let platformStr = PlatformString platform;
          (ociConfig, cfg) = createOCIConfig L J content uncompressedTar platform opts
      in case js_Image_enc J ociConfig of
           Inl e \<Rightarrow> (Inl (MarshalingConfig platformStr e), st)
         | Inr configBytes \<Rightarrow>
             bindS (wrapS (StoringConfig platformStr) (PutBlob L s configBytes st)) (\<lambda>configDigest st.
               let manifest = createManifest J configBytes configDigest layerBytes layerDigest (sd_fm content) opts
               in case js_Manifest_enc J manifest of
                    Inl e \<Rightarrow> (Inl (MarshalingManifest platformStr e), st)
                  | Inr manifestBytes \<Rightarrow>
                      bindS (wrapS (StoringManifest platformStr) (PutManifest L s manifestBytes st)) (\<lambda>manifestDigest st.
                        let acc = acc\<lparr>la_manifests := AList.update platformStr
                              \<lparr>mi_digest = manifestDigest, mi_size = int (length manifestBytes)\<rparr> (la_manifests acc)\<rparr>;
                            acc = (if isFirst then acc\<lparr>la_primaryManifest := manifestDigest, la_primaryConfig := configDigest,
                                     la_config := Some cfg, la_annotations := mf_Annotations manifest\<rparr> else acc)
                        in (Inr acc, st))))"

fun platform_loop ::
  "oci_lib \<Rightarrow> skill_js \<Rightarrow> 's Store \<Rightarrow> skillDirContent \<Rightarrow> bytes \<Rightarrow> bytes \<Rightarrow> string \<Rightarrow> PackageOptions \<Rightarrow> nat \<Rightarrow> Platform list
     \<Rightarrow> loop_acc \<Rightarrow> 's \<Rightarrow> (pkg_error, loop_acc) result \<times> 's" where
  "platform_loop L J s content lb ut ld opts i [] acc st = (Inr acc, st)"
| "platform_loop L J s content lb ut ld opts i (p # ps) acc st =
     bindS (package_platform L J s content lb ut ld opts (i = 0) p acc st)
       (\<lambda>acc. platform_loop L J s content lb ut ld opts (Suc i) ps acc)"

record PackageResult =
  pr_IndexDigest :: string
  pr_ManifestDigest :: string
  pr_ConfigDigest :: string
  pr_LayerDigest :: string
  pr_Config :: "SkillConfig option"
  pr_Platforms :: "Platform list"

definition init_acc :: loop_acc where
  "init_acc = \<lparr>la_manifests = [], la_primaryManifest = [], la_primaryConfig = [], la_config = None, la_annotations = None\<rparr>"

definition with_platforms :: "PackageOptions \<Rightarrow> PackageOptions" where
  "with_platforms opts = (if po_Platforms opts = [] then opts\<lparr>po_Platforms := DefaultPlatforms\<rparr> else opts)"

definition Package ::
  "oci_lib \<Rightarrow> skill_js \<Rightarrow> ('w, 'g) pack_env \<Rightarrow> yaml_decoder \<Rightarrow> skill_fs \<Rightarrow> 's Store \<Rightarrow> string \<Rightarrow> PackageOptions \<Rightarrow> 's
     \<Rightarrow> (pkg_error, PackageResult) result \<times> 's" where
  "Package L J E yaml F s skillDir opts st =
     (let opts = with_platforms opts in
      case readSkillDirectory yaml F skillDir of
        Inl e \<Rightarrow> (Inl (ReadingSkillDir e), st)
      | Inr content \<Rightarrow>
          (case createContentLayer E content opts of
             Inl e \<Rightarrow> (Inl (CreatingLayer e), st)
           | Inr (layerBytes, uncompressedTar) \<Rightarrow>
               bindS (wrapS StoringLayer (PutBlob L s layerBytes st)) (\<lambda>layerDigest st.
                 bindS (platform_loop L J s content layerBytes uncompressedTar layerDigest opts 0 (po_Platforms opts) init_acc st)
                   (\<lambda>acc st. bindS (createIndex L J s (la_manifests acc) (la_annotations acc) opts st)
                     (\<lambda>indexDigest st. (Inr \<lparr>pr_IndexDigest = indexDigest, pr_ManifestDigest = la_primaryManifest acc,
                        pr_ConfigDigest = la_primaryConfig acc, pr_LayerDigest = layerDigest,
                        pr_Config = la_config acc, pr_Platforms = po_Platforms opts\<rparr>, st))))))"

section \<open>A packaged skill is complete\<close>

definition stored :: "oci_lib \<Rightarrow> 's Store \<Rightarrow> 's \<Rightarrow> bytes \<Rightarrow> bool" where
  "stored L s st c \<longleftrightarrow> holds s st (FromBytes L c) c"

definition describes :: "oci_lib \<Rightarrow> 's Store \<Rightarrow> 's \<Rightarrow> OciDescriptor \<Rightarrow> bytes \<Rightarrow> bool" where
  "describes L s st desc c \<longleftrightarrow>
     d_Digest desc = FromBytes L c \<and> d_Size desc = int (length c) \<and> stored L s st c"

lemma no_collision_inj: "inj (FromBytes L) \<Longrightarrow> no_collision L c"
  by (auto simp: no_collision_def inj_def)

lemma stored_put:
  assumes "inj (FromBytes L)" "put_effect L s c' st st'" "stored L s st c"
  shows "stored L s st' c"
proof (cases "c' = c")
  case True
  then show ?thesis using assms(2) by (simp add: put_effect_def stored_def)
next
  case False
  then have "FromBytes L c \<noteq> FromBytes L c'" using assms(1) by (auto simp: inj_def)
  then show ?thesis using assms(2,3) by (simp add: put_effect_def stored_def holds_def)
qed

text \<open>What a manifest entry of the loop stands for in a state.\<close>

definition platform_done ::
  "oci_lib \<Rightarrow> skill_js \<Rightarrow> 's Store \<Rightarrow> bytes \<Rightarrow> bytes \<Rightarrow> string \<Rightarrow> manifestInfo \<Rightarrow> 's \<Rightarrow> bool" where
  "platform_done L J s layer tar ps info st \<longleftrightarrow>
     (\<exists>m mb img cb ld. js_Manifest_enc J m = Inr mb \<and> mi_digest info = FromBytes L mb \<and> mi_size info = int (length mb) \<and>
        stored L s st mb \<and> js_Image_enc J img = Inr cb \<and> describes L s st (mf_Config m) cb \<and>
        im_DiffIDs img = [FromBytes L tar] \<and> PlatformString (im_Platform img) = ps \<and>
        mf_Layers m = [ld] \<and> describes L s st ld layer)"

lemma platform_doneI:
  assumes "js_Manifest_enc J m = Inr mb" "stored L s st mb" "js_Image_enc J img = Inr cb" "describes L s st (mf_Config m) cb"
    and "im_DiffIDs img = [FromBytes L tar]" "PlatformString (im_Platform img) = ps" "mf_Layers m = [ld]"
    and "describes L s st ld layer"
  shows "platform_done L J s layer tar ps \<lparr>mi_digest = FromBytes L mb, mi_size = int (length mb)\<rparr> st"
  unfolding platform_done_def using assms
  by (intro exI[of _ m] exI[of _ mb] exI[of _ img] exI[of _ cb] exI[of _ ld]) simp

lemma platform_done_put:
  assumes "inj (FromBytes L)" "put_effect L s c st st'" "platform_done L J s layer tar ps info st"
  shows "platform_done L J s layer tar ps info st'"
  using assms(3) stored_put[OF assms(1,2)] unfolding platform_done_def describes_def by blast

definition loop_inv ::
  "oci_lib \<Rightarrow> skill_js \<Rightarrow> 's Store \<Rightarrow> bytes \<Rightarrow> bytes \<Rightarrow> loop_acc \<Rightarrow> 's \<Rightarrow> bool" where
  "loop_inv L J s layer tar acc st \<longleftrightarrow> stored L s st layer \<and>
     (\<forall>ps info. map_of (la_manifests acc) ps = Some info \<longrightarrow> platform_done L J s layer tar ps info st)"

lemma PutBlob_digest: "PutBlob L s c st = (Inr d, st') \<Longrightarrow> d = FromBytes L c"
  by (auto simp: PutBlob_def Let_def split: prod.splits option.splits layout_err.splits)

lemma PutManifest_digest: "PutManifest L s c st = (Inr d, st') \<Longrightarrow> d = FromBytes L c"
  by (auto simp: PutManifest_def Let_def split: prod.splits option.splits layout_err.splits)

text \<open>The accumulator after a platform whose config and manifest are encoded as \<open>cb\<close> and \<open>mb\<close>.\<close>

definition next_acc ::
  "oci_lib \<Rightarrow> bool \<Rightarrow> Platform \<Rightarrow> SkillConfig \<Rightarrow> Manifest \<Rightarrow> bytes \<Rightarrow> bytes \<Rightarrow> loop_acc \<Rightarrow> loop_acc" where
  "next_acc L isFirst p cfg m cb mb acc =
     (let acc = acc\<lparr>la_manifests := AList.update (PlatformString p)
            \<lparr>mi_digest = FromBytes L mb, mi_size = int (length mb)\<rparr> (la_manifests acc)\<rparr>
      in if isFirst then acc\<lparr>la_primaryManifest := FromBytes L mb, la_primaryConfig := FromBytes L cb,
           la_config := Some cfg, la_annotations := mf_Annotations m\<rparr> else acc)"

lemma package_platform_steps:
  assumes run: "package_platform L J s content lb ut ld opts isFirst p acc st = (Inr acc', st')"
    and img: "createOCIConfig L J content ut p opts = (img, cfg)"
  obtains cb mb st1 where "js_Image_enc J img = Inr cb" "PutBlob L s cb st = (Inr (FromBytes L cb), st1)"
    "js_Manifest_enc J (createManifest J cb (FromBytes L cb) lb ld (sd_fm content) opts) = Inr mb"
    "PutManifest L s mb st1 = (Inr (FromBytes L mb), st')"
    "acc' = next_acc L isFirst p cfg (createManifest J cb (FromBytes L cb) lb ld (sd_fm content) opts) cb mb acc"
proof -
  from run obtain cb where cb: "js_Image_enc J img = Inr cb"
    unfolding package_platform_def img by (cases "js_Image_enc J img") (simp_all add: Let_def)
  let ?m = "\<lambda>d. createManifest J cb d lb ld (sd_fm content) opts"
  let ?rest = "\<lambda>d st1. case js_Manifest_enc J (?m d) of
         Inl e \<Rightarrow> (Inl (MarshalingManifest (PlatformString p) e), st1)
       | Inr mb \<Rightarrow> bindS (wrapS (StoringManifest (PlatformString p)) (PutManifest L s mb st1)) (\<lambda>md st.
           let acc = acc\<lparr>la_manifests := AList.update (PlatformString p)
                 \<lparr>mi_digest = md, mi_size = int (length mb)\<rparr> (la_manifests acc)\<rparr>;
               acc = (if isFirst then acc\<lparr>la_primaryManifest := md, la_primaryConfig := d,
                        la_config := Some cfg, la_annotations := mf_Annotations (?m d)\<rparr> else acc)
           in (Inr acc, st))"
  from run have "bindS (wrapS (StoringConfig (PlatformString p)) (PutBlob L s cb st)) ?rest = (Inr acc', st')"
    unfolding package_platform_def img Let_def prod.case cb sum.case .
  then obtain d st1 where d: "PutBlob L s cb st = (Inr d, st1)" "?rest d st1 = (Inr acc', st')"
    by (auto simp: bindS_eq_Inr)
  from d(1) have d': "d = FromBytes L cb" by (rule PutBlob_digest)
  from d(2) obtain mb where mb: "js_Manifest_enc J (?m d) = Inr mb"
    by (cases "js_Manifest_enc J (?m d)") simp_all
  with d(2) obtain md st2 where md: "PutManifest L s mb st1 = (Inr md, st2)" by (auto simp: bindS_eq_Inr)
  from md have md': "md = FromBytes L mb" by (rule PutManifest_digest)
  have "st2 = st'" "acc' = next_acc L isFirst p cfg (?m d) cb mb acc"
    using d(2) mb md unfolding d' md' by (simp_all add: next_acc_def Let_def)
  with that cb d d' mb md md' show ?thesis by blast
qed

lemma package_platform_inv:
  assumes laws: "push_laws L s" "inj (FromBytes L)" and inv: "loop_inv L J s lb ut acc st"
    and run: "package_platform L J s content lb ut (FromBytes L lb) opts isFirst p acc st = (Inr acc', st')"
  shows "loop_inv L J s lb ut acc' st'"
proof -
  obtain img cfg where img: "createOCIConfig L J content ut p opts = (img, cfg)" by (metis prod.exhaust)
  from package_platform_steps[OF run img] obtain cb mb st1 where
    cb: "js_Image_enc J img = Inr cb" "PutBlob L s cb st = (Inr (FromBytes L cb), st1)"
    and mb: "js_Manifest_enc J (createManifest J cb (FromBytes L cb) lb (FromBytes L lb) (sd_fm content) opts) = Inr mb"
      "PutManifest L s mb st1 = (Inr (FromBytes L mb), st')"
    and acc': "acc' = next_acc L isFirst p cfg
      (createManifest J cb (FromBytes L cb) lb (FromBytes L lb) (sd_fm content) opts) cb mb acc" .
  define m where "m = createManifest J cb (FromBytes L cb) lb (FromBytes L lb) (sd_fm content) opts"
  have eff: "put_effect L s cb st st1" "put_effect L s mb st1 st'"
    using PutBlob_effect[OF laws(1) no_collision_inj[OF laws(2)] cb(2)]
      PutManifest_effect[OF laws(1) no_collision_inj[OF laws(2)] mb(2)] by simp_all
  have st: "stored L s st' lb" "stored L s st' cb" "stored L s st' mb"
    using stored_put[OF laws(2) eff(2)] stored_put[OF laws(2) eff(1)] eff inv
    by (auto simp: loop_inv_def stored_def put_effect_def)
  have i: "im_DiffIDs img = [FromBytes L ut]" "im_Platform img = p"
    using img by (auto simp: createOCIConfig_def Let_def)
  have "describes L s st' (mf_Config m) cb" "\<exists>ld. mf_Layers m = [ld] \<and> describes L s st' ld lb"
    using st by (simp_all add: m_def createManifest_def Let_def describes_def plain_desc_def)
  then obtain ld where m: "describes L s st' (mf_Config m) cb" "mf_Layers m = [ld]" "describes L s st' ld lb" by blast
  have "platform_done L J s lb ut (PlatformString p) \<lparr>mi_digest = FromBytes L mb, mi_size = int (length mb)\<rparr> st'"
    using platform_doneI[OF mb(1)[folded m_def] st(3) cb(1) m(1) i(1) _ m(2,3)] i(2) by simp
  moreover have "platform_done L J s lb ut ps info st'" if "map_of (la_manifests acc) ps = Some info" for ps info
    using inv that platform_done_put[OF laws(2) eff(1)] platform_done_put[OF laws(2) eff(2)]
    unfolding loop_inv_def by metis
  ultimately show ?thesis
    using st(1) by (auto simp: loop_inv_def acc' next_acc_def Let_def update_conv' split: if_splits)
qed

lemma platform_loop_inv:
  assumes "push_laws L s" "inj (FromBytes L)"
  shows "loop_inv L J s lb ut acc st \<Longrightarrow>
     platform_loop L J s content lb ut (FromBytes L lb) opts i ps acc st = (Inr acc', st') \<Longrightarrow> loop_inv L J s lb ut acc' st'"
proof (induction ps arbitrary: i acc st)
  case Nil
  then show ?case by simp
next
  case (Cons p ps)
  then obtain acc1 st1 where
    "package_platform L J s content lb ut (FromBytes L lb) opts (i = 0) p acc st = (Inr acc1, st1)"
    "platform_loop L J s content lb ut (FromBytes L lb) opts (Suc i) ps acc1 st1 = (Inr acc', st')"
    by (auto simp: bindS_eq_Inr)
  with Cons package_platform_inv[OF assms] show ?case by blast
qed

lemma index_entries_ok:
  "index_entries pm ps = Inr ds \<Longrightarrow> map d_Platform ds = map Some ps \<and>
     (\<forall>d \<in> set ds. \<exists>p info. d_Platform d = Some p \<and> map_of pm (PlatformString p) = Some info \<and>
        d_Digest d = mi_digest info \<and> d_Size d = mi_size info)"
  by (induction pm ps arbitrary: ds rule: index_entries.induct)
     (auto simp: bindE_eq_Inr plain_desc_def split: option.splits)

lemma Package_steps:
  assumes "Package L J E yaml F s dir opts st = (Inr res, st')"
  obtains content layer tar st1 acc st2 ixd where
    "readSkillDirectory yaml F dir = Inr content"
    "createContentLayer E content (with_platforms opts) = Inr (layer, tar)"
    "PutBlob L s layer st = (Inr (FromBytes L layer), st1)"
    "platform_loop L J s content layer tar (FromBytes L layer) (with_platforms opts) 0 (po_Platforms (with_platforms opts))
       init_acc st1 = (Inr acc, st2)"
    "createIndex L J s (la_manifests acc) (la_annotations acc) (with_platforms opts) st2 = (Inr ixd, st')"
    "res = \<lparr>pr_IndexDigest = ixd, pr_ManifestDigest = la_primaryManifest acc, pr_ConfigDigest = la_primaryConfig acc,
       pr_LayerDigest = FromBytes L layer, pr_Config = la_config acc, pr_Platforms = po_Platforms (with_platforms opts)\<rparr>"
proof -
  from assms obtain content layer tar ld st1 acc st2 ixd where
    "readSkillDirectory yaml F dir = Inr content" "createContentLayer E content (with_platforms opts) = Inr (layer, tar)"
    "PutBlob L s layer st = (Inr ld, st1)"
    "platform_loop L J s content layer tar ld (with_platforms opts) 0 (po_Platforms (with_platforms opts)) init_acc st1 = (Inr acc, st2)"
    "createIndex L J s (la_manifests acc) (la_annotations acc) (with_platforms opts) st2 = (Inr ixd, st')"
    "res = \<lparr>pr_IndexDigest = ixd, pr_ManifestDigest = la_primaryManifest acc, pr_ConfigDigest = la_primaryConfig acc,
       pr_LayerDigest = ld, pr_Config = la_config acc, pr_Platforms = po_Platforms (with_platforms opts)\<rparr>"
    unfolding Package_def by (auto simp: bindS_eq_Inr Let_def split: sum.splits)
  with that PutBlob_digest show ?thesis by metis
qed

lemma createIndex_steps:
  assumes "createIndex L J s pm an opts st = (Inr d, st')"
  obtains ds ixb where "index_entries pm (po_Platforms opts) = Inr ds"
    "js_Index_enc J \<lparr>ix_SchemaVersion = 2, ix_MediaType = MediaTypeImageIndex, ix_ArtifactType = ArtifactTypeSkill,
       ix_Manifests = ds, ix_Annotations = an\<rparr> = Inr ixb"
    "PutManifest L s ixb st = (Inr (FromBytes L ixb), st')" "d = FromBytes L ixb"
proof -
  from assms obtain ds ixb where "index_entries pm (po_Platforms opts) = Inr ds"
    "js_Index_enc J \<lparr>ix_SchemaVersion = 2, ix_MediaType = MediaTypeImageIndex, ix_ArtifactType = ArtifactTypeSkill,
       ix_Manifests = ds, ix_Annotations = an\<rparr> = Inr ixb" "PutManifest L s ixb st = (Inr d, st')"
    by (auto simp: createIndex_def Let_def split: sum.splits)
  with that PutManifest_digest show ?thesis by metis
qed

text \<open>
  C23. A successful run leaves a complete artifact in the store: the returned index digest names a stored index with one entry per platform; every entry, and the
  config and layer its manifest names, has the digest and the size of stored content; the layer is the layer of the directory, and
  each config names the digest of its uncompressed archive.
\<close>
theorem Package_complete:
  assumes laws: "push_laws L s" "inj (FromBytes L)"
    and run: "Package L J E yaml F s dir opts st = (Inr res, st')"
  shows "\<exists>content layer tar ix ixb.
     readSkillDirectory yaml F dir = Inr content \<and>
     createContentLayer E content (with_platforms opts) = Inr (layer, tar) \<and>
     pr_LayerDigest res = FromBytes L layer \<and> stored L s st' layer \<and>
     js_Index_enc J ix = Inr ixb \<and> pr_IndexDigest res = FromBytes L ixb \<and> stored L s st' ixb \<and>
     map d_Platform (ix_Manifests ix) = map Some (pr_Platforms res) \<and>
     (\<forall>desc \<in> set (ix_Manifests ix). \<exists>m mb img cb ld.
        js_Manifest_enc J m = Inr mb \<and> describes L s st' desc mb \<and>
        js_Image_enc J img = Inr cb \<and> describes L s st' (mf_Config m) cb \<and>
        im_DiffIDs img = [FromBytes L tar] \<and>
        PlatformString (im_Platform img) = PlatformString (the (d_Platform desc)) \<and>
        mf_Layers m = [ld] \<and> describes L s st' ld layer)"
proof -
  from Package_steps[OF run] obtain content layer tar st1 acc st2 ixd where
    c: "readSkillDirectory yaml F dir = Inr content" "createContentLayer E content (with_platforms opts) = Inr (layer, tar)"
    and p: "PutBlob L s layer st = (Inr (FromBytes L layer), st1)"
      "platform_loop L J s content layer tar (FromBytes L layer) (with_platforms opts) 0 (po_Platforms (with_platforms opts))
         init_acc st1 = (Inr acc, st2)"
      "createIndex L J s (la_manifests acc) (la_annotations acc) (with_platforms opts) st2 = (Inr ixd, st')"
    and res: "res = \<lparr>pr_IndexDigest = ixd, pr_ManifestDigest = la_primaryManifest acc, pr_ConfigDigest = la_primaryConfig acc,
       pr_LayerDigest = FromBytes L layer, pr_Config = la_config acc, pr_Platforms = po_Platforms (with_platforms opts)\<rparr>" .
  note nc = no_collision_inj[OF laws(2)]
  have "loop_inv L J s layer tar init_acc st1"
    using PutBlob_effect[OF laws(1) nc p(1)] by (simp add: loop_inv_def init_acc_def stored_def put_effect_def)
  from platform_loop_inv[OF laws this p(2)] have inv: "loop_inv L J s layer tar acc st2" .
  from createIndex_steps[OF p(3)] obtain ds ixb where ds: "index_entries (la_manifests acc) (po_Platforms (with_platforms opts)) = Inr ds"
    and ix: "js_Index_enc J \<lparr>ix_SchemaVersion = 2, ix_MediaType = MediaTypeImageIndex, ix_ArtifactType = ArtifactTypeSkill,
         ix_Manifests = ds, ix_Annotations = la_annotations acc\<rparr> = Inr ixb"
      "PutManifest L s ixb st2 = (Inr (FromBytes L ixb), st')" "ixd = FromBytes L ixb" .
  note eff2 = PutManifest_effect[OF laws(1) nc ix(2)]
  have fin: "platform_done L J s layer tar ps info st'" if "map_of (la_manifests acc) ps = Some info" for ps info
    using inv that platform_done_put[OF laws(2) conjunct2[OF eff2]] unfolding loop_inv_def by blast
  have "stored L s st' layer" using inv stored_put[OF laws(2) conjunct2[OF eff2]] unfolding loop_inv_def by blast
  moreover have "stored L s st' ixb" using eff2 by (simp add: stored_def put_effect_def)
  moreover have "\<exists>m mb img cb ld. js_Manifest_enc J m = Inr mb \<and> describes L s st' desc mb \<and>
        js_Image_enc J img = Inr cb \<and> describes L s st' (mf_Config m) cb \<and> im_DiffIDs img = [FromBytes L tar] \<and>
        PlatformString (im_Platform img) = PlatformString (the (d_Platform desc)) \<and>
        mf_Layers m = [ld] \<and> describes L s st' ld layer" if d: "desc \<in> set ds" for desc
  proof -
    obtain p info where "d_Platform desc = Some p" "map_of (la_manifests acc) (PlatformString p) = Some info"
      "d_Digest desc = mi_digest info" "d_Size desc = mi_size info" using index_entries_ok[OF ds] d by blast
    with fin[of "PlatformString p" info] show ?thesis unfolding platform_done_def describes_def by auto
  qed
  ultimately show ?thesis
    using c ix(1,3) index_entries_ok[OF ds] unfolding res
    by (intro exI[of _ content] exI[of _ layer] exI[of _ tar] exI exI[of _ ixb] conjI; (fact)?) auto
qed

section \<open>Reproducible packaging\<close>

definition same_skill :: "skillDirContent \<Rightarrow> skillDirContent \<Rightarrow> bool" where
  "same_skill c c' \<longleftrightarrow> sd_skillMD c = sd_skillMD c' \<and> sd_fm c = sd_fm c' \<and>
     mset (sd_files c) = mset (sd_files c') \<and> distinct (map fst (sd_files c))"

lemma same_skill_maps:
  assumes "same_skill c c'"
  shows "file_lookup (sd_files c) = file_lookup (sd_files c')"
    and "sort (map fst (sd_files c)) = sort (map fst (sd_files c'))"
    and "sort (x # map fst (sd_files c)) = sort (x # map fst (sd_files c'))"
proof -
  have m: "mset (map fst (sd_files c)) = mset (map fst (sd_files c'))" "set (sd_files c) = set (sd_files c')"
    using assms by (auto simp: same_skill_def dest: mset_eq_setD)
  have d: "distinct (map fst (sd_files c))" "distinct (map fst (sd_files c'))"
    using assms mset_eq_imp_distinct_iff[OF m(1)] by (simp_all add: same_skill_def)
  show "file_lookup (sd_files c) = file_lookup (sd_files c')"
    using map_of_inject_set[OF d] m(2) by (simp add: file_lookup_def fun_eq_iff)
  show "sort (map fst (sd_files c)) = sort (map fst (sd_files c'))"
    using m(1) by (intro properties_for_sort) simp_all
  then show "sort (x # map fst (sd_files c)) = sort (x # map fst (sd_files c'))" by simp
qed

lemma same_skill_layer: "same_skill c c' \<Longrightarrow> createContentLayer E c opts = createContentLayer E c' opts"
  using same_skill_maps[of c c'] by (simp add: createContentLayer_def layer_files_def same_skill_def Let_def)

lemma same_skill_config: "same_skill c c' \<Longrightarrow> createOCIConfig L J c tar p opts = createOCIConfig L J c' tar p opts"
  using same_skill_maps(3)[of c c'] by (simp add: createOCIConfig_def same_skill_def Let_def)

lemma platform_loop_det:
  assumes "same_skill c c'"
  shows "platform_loop L J s c lb ut ld opts i ps acc st = (Inr a, st1) \<Longrightarrow>
     platform_loop L J s' c' lb ut ld opts i ps acc st' = (Inr a', st1') \<Longrightarrow> a = a'"
proof (induction ps arbitrary: i acc st st')
  case Nil
  then show ?case by simp
next
  case (Cons p ps)
  obtain img cfg where img: "createOCIConfig L J c ut p opts = (img, cfg)" by (metis prod.exhaust)
  then have img': "createOCIConfig L J c' ut p opts = (img, cfg)" using same_skill_config[OF assms] by simp
  have fm: "sd_fm c' = sd_fm c" using assms by (simp add: same_skill_def)
  from Cons.prems(1) obtain x y where r: "package_platform L J s c lb ut ld opts (i = 0) p acc st = (Inr x, y)"
    "platform_loop L J s c lb ut ld opts (Suc i) ps x y = (Inr a, st1)" by (auto simp: bindS_eq_Inr)
  from Cons.prems(2) obtain x' y' where r': "package_platform L J s' c' lb ut ld opts (i = 0) p acc st' = (Inr x', y')"
    "platform_loop L J s' c' lb ut ld opts (Suc i) ps x' y' = (Inr a', st1')" by (auto simp: bindS_eq_Inr)
  have "x = x'"
    by (rule package_platform_steps[OF r(1) img], rule package_platform_steps[OF r'(1) img']) (simp add: fm)
  with Cons.IH r(2) r'(2) show ?case by blast
qed

definition mk_result :: "oci_lib \<Rightarrow> PackageOptions \<Rightarrow> bytes \<Rightarrow> loop_acc \<Rightarrow> string \<Rightarrow> PackageResult" where
  "mk_result L opts layer acc ixd =
     \<lparr>pr_IndexDigest = ixd, pr_ManifestDigest = la_primaryManifest acc, pr_ConfigDigest = la_primaryConfig acc,
      pr_LayerDigest = FromBytes L layer, pr_Config = la_config acc, pr_Platforms = po_Platforms (with_platforms opts)\<rparr>"

lemma Package_steps_at:
  assumes run: "Package L J E yaml F s dir opts st = (Inr res, st')" and c: "readSkillDirectory yaml F dir = Inr content"
  obtains layer tar st1 acc st2 ixd where
    "createContentLayer E content (with_platforms opts) = Inr (layer, tar)"
    "platform_loop L J s content layer tar (FromBytes L layer) (with_platforms opts) 0 (po_Platforms (with_platforms opts))
       init_acc st1 = (Inr acc, st2)"
    "createIndex L J s (la_manifests acc) (la_annotations acc) (with_platforms opts) st2 = (Inr ixd, st')"
    "res = mk_result L opts layer acc ixd"
  by (rule Package_steps[OF run]) (use that c in \<open>simp add: mk_result_def\<close>)

text \<open>
  Reproducibility: two successful runs with the same options over directories with the same \<open>SKILL.md\<close> and the same files give the same digests and metadata, whatever
  the order in which the files are listed, the store they go to and its content before.
\<close>
theorem Package_reproducible:
  assumes "Package L J E yaml F s dir opts st = (Inr res, st1)" "Package L J E yaml F' s' dir' opts st' = (Inr res', st1')"
    and "readSkillDirectory yaml F dir = Inr c" "readSkillDirectory yaml F' dir' = Inr c'" "same_skill c c'"
  shows "res = res'"
proof -
  from Package_steps_at[OF assms(1,3)] obtain layer tar x acc y ixd where
    r: "createContentLayer E c (with_platforms opts) = Inr (layer, tar)"
      "platform_loop L J s c layer tar (FromBytes L layer) (with_platforms opts) 0 (po_Platforms (with_platforms opts))
         init_acc x = (Inr acc, y)"
      "createIndex L J s (la_manifests acc) (la_annotations acc) (with_platforms opts) y = (Inr ixd, st1)"
      "res = mk_result L opts layer acc ixd" .
  from Package_steps_at[OF assms(2,4)] obtain layer' tar' x' acc' y' ixd' where
    r': "createContentLayer E c' (with_platforms opts) = Inr (layer', tar')"
      "platform_loop L J s' c' layer' tar' (FromBytes L layer') (with_platforms opts) 0 (po_Platforms (with_platforms opts))
         init_acc x' = (Inr acc', y')"
      "createIndex L J s' (la_manifests acc') (la_annotations acc') (with_platforms opts) y' = (Inr ixd', st1')"
      "res' = mk_result L opts layer' acc' ixd'" .
  have l: "layer' = layer" "tar' = tar" using r(1) r'(1) same_skill_layer[OF assms(5), of E "with_platforms opts"] by simp_all
  have a: "acc' = acc" using platform_loop_det[OF assms(5) r(2)] r'(2) unfolding l by metis
  have "ixd' = ixd"
    by (rule createIndex_steps[OF r(3)], rule createIndex_steps[OF r'(3)]) (simp add: a)
  with l a r(4) r'(4) show ?thesis by simp
qed

section \<open>Reading a package back\<close>

definition js_keeps :: "skill_js \<Rightarrow> string list option \<Rightarrow> bool" where
  "js_keeps J v \<longleftrightarrow> js_strs J v \<noteq> [] \<and> js_strs_of J (js_strs J v) = Some v"

text \<open>
  Metadata round trip: if \<open>encoding/json\<close> returns the string lists involved, the labels of the image config give back the configuration of the package, except for
  \<open>Compatibility\<close> and \<open>Metadata\<close>, for which there is no label; and the manifest's annotation gives back the non-empty, trimmed lines of
  the \<open>toolhive.requires\<close> entry, or nothing when there are none.
\<close>
theorem skill_metadata_round_trip:
  assumes conf: "createOCIConfig L J content tar p opts = (img, cfg)" and name: "fm_Name (sd_fm content) \<noteq> []"
    and reqs: "refs = (case fm_Metadata (sd_fm content) of None \<Rightarrow> []
        | Some md \<Rightarrow> requires_refs (str_lookup md ''toolhive.requires''))"
    and js: "js_keeps J (fm_AllowedTools (sd_fm content))" "js_keeps J (sc_Files cfg)" "js_keeps J (Some refs)"
  shows "SkillConfigFromImageConfig J (Some img) = Inr (cfg\<lparr>sc_Compatibility := [], sc_Metadata := None\<rparr>) \<and>
         ParseRequiresAnnotation J (the (mf_Annotations (createManifest J cb cd lb ld (sd_fm content) opts))) =
           (if refs = [] then None else Some refs)"
proof -
  have labels: "im_Labels img = Some [(LabelSkillName, fm_Name (sd_fm content)),
      (LabelSkillDescription, fm_Description (sd_fm content)), (LabelSkillVersion, fm_Version (sd_fm content)),
      (LabelSkillAllowedTools, js_strs J (fm_AllowedTools (sd_fm content))),
      (LabelSkillLicense, fm_License (sd_fm content)), (LabelSkillFiles, js_strs J (sc_Files cfg))]"
    and cfg: "cfg = \<lparr>sc_Name = fm_Name (sd_fm content), sc_Description = fm_Description (sd_fm content),
      sc_Version = fm_Version (sd_fm content), sc_AllowedTools = fm_AllowedTools (sd_fm content),
      sc_License = fm_License (sd_fm content), sc_Compatibility = fm_Compatibility (sd_fm content),
      sc_Metadata = fm_Metadata (sd_fm content), sc_Files = sc_Files cfg\<rparr>"
    using conf by (auto simp: createOCIConfig_def Let_def)
  have "SkillConfigFromImageConfig J (Some img) = Inr (cfg\<lparr>sc_Compatibility := [], sc_Metadata := None\<rparr>)"
    by (subst cfg) (use name js in \<open>simp add: SkillConfigFromImageConfig_def labels str_lookup_def js_keeps_def Let_def\<close>)
  moreover have "trim_space [] = []" by (simp add: trim_space_eq)
  then have "requires_refs [] = []" by (simp add: requires_refs_def)
  then have "ParseRequiresAnnotation J (the (mf_Annotations (createManifest J cb cd lb ld (sd_fm content) opts))) =
      (if refs = [] then None else Some refs)"
    using js(3) unfolding reqs
    by (auto simp: ParseRequiresAnnotation_def createManifest_def str_lookup_def js_keeps_def Let_def split: option.split)
  ultimately show ?thesis by blast
qed

lemma plain_path_clean:
  assumes "names \<noteq> []" "\<forall>n \<in> set names. plain n"
  shows "path_clean (join_with ''/'' names) = join_with ''/'' names"
    and "\<not> path_is_abs (join_with ''/'' names)" "\<not> escapes 0 (elems (join_with ''/'' names))"
proof -
  have n: "\<forall>c\<in>set names. c \<noteq> [] \<and> CHR ''/'' \<notin> set c" using assms(2) by (auto simp: plain_def)
  have "stack_ok False xs" if "\<forall>n \<in> set xs. plain n" for xs using that by (induction xs) auto
  then have c: "clean_comps False names = names" using assms(2) by (intro clean_comps_idem) simp
  from elems_join[OF assms(1) n] c show "path_clean (join_with ''/'' names) = join_with ''/'' names"
    by (simp add: path_clean_def)
  show "\<not> path_is_abs (join_with ''/'' names)" using elems_join[OF assms(1) n] by (simp add: path_is_abs_def)
  have "''..'' \<notin> set names" using assms(2) by auto
  then show "\<not> escapes 0 (elems (join_with ''/'' names))"
    using clean_comps_escapes[of names] c elems_join[OF assms(1) n] by simp
qed

lemma total_bound: "f \<in> set fs \<Longrightarrow> int (length (snd f)) \<le> total fs"
proof (induction fs)
  case Nil
  then show ?case by simp
next
  case (Cons g fs)
  then show ?case using total_nonneg[of fs] by auto
qed

text \<open>What a directory read contributes to the layer: clean relative paths, each listed once, and bounded contents.\<close>

lemma layer_files_ok:
  assumes tree: "fs_Lstat F dir = Inr (NDir es err)" "wf_node (NDir es err)"
    and c: "readSkillDirectory yaml F dir = Inr content"
  shows "distinct (map fst (sd_files content))" "SkillFileName \<notin> fst ` set (sd_files content)"
    and "f \<in> set (layer_files content) \<Longrightarrow> path_clean (fe_Path f) = fe_Path f \<and> \<not> path_is_abs (fe_Path f) \<and>
           \<not> escapes 0 (elems (fe_Path f)) \<and> fe_Mode f = 0 \<and>
           (fe_Path f = SkillFileName \<and> fe_Content f = sd_skillMD content \<or>
            (fe_Path f, fe_Content f) \<in> set (sd_files content) \<and> int (length (fe_Content f)) \<le> MaxTarFileSize)"
proof -
  have col: "collectSkillFiles (NDir es err) = Inr (sd_files content)"
    using c tree(1)
    by (auto simp: readSkillDirectory_def bindE_eq_Inr split: option.splits sum.splits io_err.splits if_splits)
  note vis = collect_visible[OF tree(2)]
  have pk: "sd_files content = picked (events [] (NDir es err))" "total (sd_files content) \<le> 99614720"
    using vis(1)[of "sd_files content"] col by auto
  show d: "distinct (map fst (sd_files content))" using vis(2) pk(1) by simp
  show "SkillFileName \<notin> fst ` set (sd_files content)" using vis(3) pk(1) by fastforce
  show "path_clean (fe_Path f) = fe_Path f \<and> \<not> path_is_abs (fe_Path f) \<and>
           \<not> escapes 0 (elems (fe_Path f)) \<and> fe_Mode f = 0 \<and>
           (fe_Path f = SkillFileName \<and> fe_Content f = sd_skillMD content \<or>
            (fe_Path f, fe_Content f) \<in> set (sd_files content) \<and> int (length (fe_Content f)) \<le> MaxTarFileSize)"
    if f: "f \<in> set (layer_files content)"
  proof (cases "fe_Path f \<in> fst ` set (sd_files content)")
    case True
    then obtain v where v: "(fe_Path f, v) \<in> set (sd_files content)" by auto
    have "fe_Path f \<noteq> SkillFileName" using vis(3)[of "(fe_Path f, v)"] v pk(1) by auto
    then have fc: "fe_Content f = v" "fe_Mode f = 0"
      using f map_of_is_SomeI[OF d v] by (auto simp: layer_files_def file_lookup_def Let_def)
    obtain names where n: "names \<noteq> []" "good_names names" "fe_Path f = rel_path names"
      using vis(3)[of "(fe_Path f, v)"] v pk(1) by auto
    have "int (length v) \<le> MaxTarFileSize"
      using total_bound[OF v] pk(2) by (simp add: MaxTarFileSize_def)
    with v fc n plain_path_clean[of names] show ?thesis by (simp add: good_names_def rel_path_def)
  next
    case False
    then have "f = \<lparr>fe_Path = SkillFileName, fe_Content = sd_skillMD content, fe_Mode = 0\<rparr>"
      using f by (auto simp: layer_files_def Let_def) (metis fst_conv image_eqI)+
    then show ?thesis using plain_path_clean[of "[SkillFileName]"] by (simp add: plain_def)
  qed
qed

lemma layer_files_pairs:
  assumes "distinct (map fst (sd_files content))"
  shows "set (map (\<lambda>f. (fe_Path f, fe_Content f)) (layer_files content)) =
     set ((SkillFileName, sd_skillMD content) # sd_files content)"
proof -
  have "(\<lambda>p. (p, file_lookup (sd_files content) p)) ` (fst ` set (sd_files content)) = set (sd_files content)"
  proof -
    have "file_lookup (sd_files content) (fst x) = snd x" if "x \<in> set (sd_files content)" for x
      using map_of_is_SomeI[OF assms, of "fst x" "snd x"] that by (simp add: file_lookup_def)
    then show ?thesis by (force simp: image_iff)
  qed
  then show ?thesis by (simp add: layer_files_def Let_def image_image)
qed

lemma layer_files_paths:
  "mset (map fe_Path (layer_files content)) = mset (SkillFileName # map fst (sd_files content))"
  by (simp add: layer_files_def Let_def comp_def)

text \<open>
  C24. Content round trip: unpacking the layer of a directory read gives exactly its files, \<open>SKILL.md\<close> included, each with its content and the default mode, and their paths are the
  list in the package's configuration. It needs codecs that return what was written, no double backslash in a file name, and the extraction
  limits for \<open>SKILL.md\<close> and for the archive as a whole, which packaging does not check.
\<close>
theorem skill_layer_round_trip:
  assumes gz: "\<And>l h d g g' z. gw_new (pe_gzip E) l = Inr g \<Longrightarrow> gw_write (pe_gzip E) g h d = Inr g' \<Longrightarrow>
      gw_close (pe_gzip E) g' = Inr z \<Longrightarrow> \<exists>r. gunzip z = Inr r \<and> rd_data r = d \<and> rd_fail r = None"
    and tar: "\<And>es w b. write_entries (pe_tar E) es (tw_new (pe_tar E)) = Inr w \<Longrightarrow> tw_close (pe_tar E) w = Inr b \<Longrightarrow>
      list_all2 same_entry (ts_entries (rd b)) es \<and> ts_end (rd b) = None"
    and srt: "\<And>fs. mset (pe_sort E fs) = mset fs \<and> sorted (map fe_Path (pe_sort E fs))"
    and tree: "fs_Lstat F dir = Inr (NDir es err)" "wf_node (NDir es err)"
    and c: "readSkillDirectory yaml F dir = Inr content"
    and layer: "createContentLayer E content opts = Inr (layer, tarb)" "int (length tarb) \<le> MaxDecompressedSize"
    and md: "int (length (sd_skillMD content)) \<le> MaxTarFileSize"
    and names: "\<forall>q \<in> fst ` set (sd_files content). \<not> str_contains q [CHR 0x5C, CHR 0x5C]"
    and conf: "createOCIConfig L J content tarb p opts = (img, cfg)"
  shows "\<exists>fs. DecompressTar gunzip rd layer = Inr fs \<and> sc_Files cfg = Some (map fe_Path fs) \<and>
     map_of (map (\<lambda>f. (fe_Path f, fe_Content f)) fs) = (map_of (sd_files content))(SkillFileName \<mapsto> sd_skillMD content) \<and>
     (\<forall>f \<in> set fs. fe_Mode f = 420)"
proof -
  note lf = layer_files_ok[OF tree c]
  let ?lf = "layer_files content"
  let ?fs = "map normalized (pe_sort E ?lf)"
  have files: "\<forall>f\<in>set ?lf. is_ok (validateTarPath (fe_Path f)) \<and> int (length (fe_Content f)) \<le> MaxTarFileSize"
  proof
    fix f assume f: "f \<in> set ?lf"
    have "\<not> str_contains (fe_Path f) [CHR 0x5C, CHR 0x5C]"
      using lf(3)[OF f] names by (auto simp: sublist_eval)
    with lf(3)[OF f] md show "is_ok (validateTarPath (fe_Path f)) \<and> int (length (fe_Content f)) \<le> MaxTarFileSize"
      by (auto simp: validateTarPath_ok)
  qed
  have cr: "CreateTar (pe_sort E) (pe_tar E) ?lf \<lparr>to_Epoch = po_Epoch opts\<rparr> = Inr tarb"
    "Compress (pe_gzip E) tarb (DefaultGzipOptions\<lparr>go_Epoch := po_Epoch opts\<rparr>) = Inr layer"
    using layer(1) by (auto simp: createContentLayer_def Let_def bindE_eq_Inr)
  have ex: "DecompressTar gunzip rd layer = Inr ?fs"
    by (rule layer_round_trip[OF _ _ _ cr layer(2) files]) (fact gz, fact tar, use srt in blast)
  have set_srt: "set (pe_sort E ?lf) = set ?lf" using srt[of ?lf] by (metis set_mset_mset)
  have norm: "fe_Path (normalized f) = fe_Path f" "fe_Content (normalized f) = fe_Content f" "fe_Mode (normalized f) = 420"
    if "f \<in> set (pe_sort E ?lf)" for f using that set_srt lf(3)[of f] by (auto simp: normalized_def)
  have paths: "map fe_Path ?fs = map fe_Path (pe_sort E ?lf)" using norm by simp
  have ms: "mset (map fe_Path (pe_sort E ?lf)) = mset (SkillFileName # map fst (sd_files content))"
    using srt[of ?lf] layer_files_paths[of content] by (metis mset_map)
  have "sort (SkillFileName # map fst (sd_files content)) = map fe_Path (pe_sort E ?lf)"
    using ms srt by (intro properties_for_sort) auto
  then have "sc_Files cfg = Some (map fe_Path ?fs)"
    using conf paths by (auto simp: createOCIConfig_def Let_def)
  moreover have "map_of (map (\<lambda>f. (fe_Path f, fe_Content f)) ?fs) = map_of ((SkillFileName, sd_skillMD content) # sd_files content)"
  proof -
    have eq: "map (\<lambda>f. (fe_Path f, fe_Content f)) ?fs = map (\<lambda>f. (fe_Path f, fe_Content f)) (pe_sort E ?lf)"
      using norm by simp
    have d: "distinct (map fst (map (\<lambda>f. (fe_Path f, fe_Content f)) (pe_sort E ?lf)))"
      "distinct (map fst ((SkillFileName, sd_skillMD content) # sd_files content))"
      using mset_eq_imp_distinct_iff[OF ms] lf(1,2) by (simp_all add: comp_def)
    have "set (map (\<lambda>f. (fe_Path f, fe_Content f)) (pe_sort E ?lf)) = set ((SkillFileName, sd_skillMD content) # sd_files content)"
      using layer_files_pairs[OF lf(1)] set_srt by simp
    then show ?thesis unfolding eq by (rule iffD2[OF map_of_inject_set[OF d]])
  qed
  ultimately show ?thesis using ex norm by (intro exI[of _ ?fs]) auto
qed

section \<open>A concrete package\<close>

text \<open>The directory \<open>sample_tree\<close> with a small front matter, packed by codecs that know this one archive.\<close>

definition demo_md :: bytes where
  "demo_md = [45, 45, 45, 120, 45, 45, 45]"

definition demo_fm :: frontmatter where
  "demo_fm = \<lparr>fm_Name = ''a'', fm_Description = ''d'', fm_Version = ''1'', fm_AllowedTools = None, fm_License = [],
     fm_Compatibility = ''any'', fm_Metadata = Some [(''toolhive.requires'', ''r/x:1'')]\<rparr>"

definition demo_yaml :: yaml_decoder where
  "demo_yaml = (\<lambda>s. if s = ''x'' then Inr (demo_fm, None) else Inl ''syntax'')"

definition demo_fs :: skill_fs where
  "demo_fs = \<lparr>fs_Stat = (\<lambda>_. Inr True), fs_ReadFile = (\<lambda>_. Inr demo_md), fs_Lstat = (\<lambda>_. Inr sample_tree)\<rparr>"

definition demo_content :: skillDirContent where
  "demo_content = \<lparr>sd_skillMD = demo_md, sd_files = [(''scripts/run.sh'', [2, 3])], sd_fm = demo_fm\<rparr>"

definition demo_js :: skill_js where
  "demo_js = \<lparr>js_strs = (\<lambda>v. case v of None \<Rightarrow> ''null'' | Some xs \<Rightarrow> ''['' @ join_with '','' xs @ '']''),
     js_strs_of = (\<lambda>s. if s = ''null'' then Some None
       else if s = ''[r/x:1]'' then Some (Some [''r/x:1''])
       else if s = ''[SKILL.md,scripts/run.sh]'' then Some (Some [''SKILL.md'', ''scripts/run.sh''])
       else None),
     js_Image_enc = (\<lambda>_. Inr [99]), js_Manifest_enc = (\<lambda>_. Inr [109]), js_Index_enc = (\<lambda>_. Inr [105]),
     rfc3339 = (\<lambda>_. ''1970-01-01T00:00:00Z'')\<rparr>"

definition demo_entries :: "(tar_header \<times> bytes) list" where
  "demo_entries = map (\<lambda>f. (tar_hdr 0 f, fe_Content f)) (layer_files demo_content)"

definition demo_env :: "((tar_header \<times> bytes) list, bytes) pack_env" where
  "demo_env = \<lparr>pe_sort = sort_key fe_Path,
     pe_tar = log_writer\<lparr>tw_close := (\<lambda>w. if w = demo_entries then Inr [7] else Inl ''full'')\<rparr>, pe_gzip = demo_gzip\<rparr>"

definition demo_opts :: PackageOptions where
  "demo_opts = \<lparr>po_Epoch = 0, po_Platforms = [\<lparr>p_OS = ''linux'', p_Architecture = ''amd64'', p_Variant = []\<rparr>]\<rparr>"

lemma demo_parse: "parseFrontmatter demo_yaml demo_md = Inr demo_fm"
proof -
  have s: "str_of demo_md = ''---x---''" by code_simp
  have "trim_space ''---x---'' = ''---x---''"
    using trim_space_ascii[of "''---x---''"] by (simp add: ascii_space_def)
  then show ?thesis
    by (simp add: parseFrontmatter_def s Let_def demo_yaml_def maxFrontmatterSize_def) (simp add: demo_fm_def)
qed

lemma demo_collect: "collectSkillFiles sample_tree = Inr [(''scripts/run.sh'', [2, 3])]"
  by code_simp

lemma demo_read: "readSkillDirectory demo_yaml demo_fs ''/d'' = Inr demo_content"
proof -
  have "validateSkillDir demo_fs ''/d'' = None"
    by (simp add: validateSkillDir_def demo_fs_def path_clean_def clean_comps_def clean_step_def sublist_eval)
  then show ?thesis
    by (simp add: readSkillDirectory_def demo_fs_def demo_parse demo_collect demo_content_def) (simp add: demo_fm_def)
qed

lemma demo_layer: "createContentLayer demo_env demo_content demo_opts = Inr ([31, 139, 7], [7])"
  by code_simp

definition mem_ok :: "mem \<Rightarrow> bool" where
  "mem_ok st \<longleftrightarrow> (\<forall>d c. map_of (mem_blobs st) d = Some c \<longrightarrow> str_of c = d)"

lemma mem_put:
  assumes "mem_ok st"
  shows "\<exists>st'. PutBlob demo_lib demo_store c st = (Inr (str_of c), st') \<and> mem_ok st'"
    and "\<exists>st'. PutManifest demo_lib demo_store c st = (Inr (str_of c), st') \<and> mem_ok st'"
  using assms
  by (auto simp: PutBlob_def PutManifest_def demo_lib_def mem_store_def mem_layout_def plain_desc_def mem_ok_def Let_def
      split: option.split)

lemma demo_package:
  assumes "mem_ok st0"
  shows "\<exists>res st. Package demo_lib demo_js demo_env demo_yaml demo_fs demo_store ''/d'' demo_opts st0 = (Inr res, st) \<and>
     mem_ok st \<and> pr_IndexDigest res = ''i''"
proof -
  have L: "FromBytes demo_lib = str_of" by (simp add: demo_lib_def)
  have o: "with_platforms demo_opts = demo_opts" by (simp add: with_platforms_def demo_opts_def)
  have s: "str_of [105] = ''i''" "str_of [109] = ''m''" by code_simp+
  from assms obtain st1 where 1: "PutBlob demo_lib demo_store [31, 139, 7] st0 = (Inr (str_of [31, 139, 7]), st1)" "mem_ok st1"
    using mem_put(1) by blast
  from 1(2) obtain st2 where 2: "PutBlob demo_lib demo_store [99] st1 = (Inr (str_of [99]), st2)" "mem_ok st2"
    using mem_put(1) by blast
  from 2(2) obtain st3 where 3: "PutManifest demo_lib demo_store [109] st2 = (Inr (str_of [109]), st3)" "mem_ok st3"
    using mem_put(2) by blast
  from 3(2) obtain st4 where 4: "PutManifest demo_lib demo_store [105] st3 = (Inr (str_of [105]), st4)" "mem_ok st4"
    using mem_put(2) by blast
  have enc: "js_Image_enc demo_js i = Inr [99]" "js_Manifest_enc demo_js m = Inr [109]" "js_Index_enc demo_js x = Inr [105]"
    for i m x by (simp_all add: demo_js_def)
  have ps: "po_Platforms demo_opts = [hd (po_Platforms demo_opts)]" by (simp add: demo_opts_def)
  show ?thesis
    unfolding Package_def o demo_read Let_def sum.case demo_layer prod.case 1 wrapS_simps bindS_simps
    by (subst ps)
       (simp add: package_platform_def enc 2 3 4 init_acc_def createIndex_def Let_def s split: prod.split del: list.collapse,
        subst (1) ps, simp add: enc 4 s Let_def)
qed

lemma demo_laws: "push_laws demo_lib demo_store" "inj (FromBytes demo_lib)"
  using mem_laws[of demo_lib] by (auto simp: layout_laws_def demo_lib_def inj_def dest: str_of_inj)

theorem Package_complete_witness:
  "\<exists>res st layer ixb. Package demo_lib demo_js demo_env demo_yaml demo_fs demo_store ''/d'' demo_opts mem_empty = (Inr res, st) \<and>
     pr_LayerDigest res = FromBytes demo_lib layer \<and> stored demo_lib demo_store st layer \<and>
     pr_IndexDigest res = FromBytes demo_lib ixb \<and> stored demo_lib demo_store st ixb"
proof -
  have "mem_ok mem_empty" by (simp add: mem_ok_def mem_empty_def)
  from demo_package[OF this] obtain res st where
    r: "Package demo_lib demo_js demo_env demo_yaml demo_fs demo_store ''/d'' demo_opts mem_empty = (Inr res, st)" by blast
  from Package_complete[OF demo_laws r] r show ?thesis by blast
qed

theorem Package_reproducible_witness:
  "\<exists>res st st'. Package demo_lib demo_js demo_env demo_yaml demo_fs demo_store ''/d'' demo_opts mem_empty = (Inr res, st) \<and>
     Package demo_lib demo_js demo_env demo_yaml demo_fs demo_store ''/d'' demo_opts st = (Inr res, st')"
proof -
  have "mem_ok mem_empty" by (simp add: mem_ok_def mem_empty_def)
  from demo_package[OF this] obtain res st where
    r: "Package demo_lib demo_js demo_env demo_yaml demo_fs demo_store ''/d'' demo_opts mem_empty = (Inr res, st)" "mem_ok st" by blast
  from demo_package[OF r(2)] obtain res' st' where
    r': "Package demo_lib demo_js demo_env demo_yaml demo_fs demo_store ''/d'' demo_opts st = (Inr res', st')" by blast
  have "same_skill demo_content demo_content" by (simp add: same_skill_def demo_content_def)
  from Package_reproducible[OF r(1) r' demo_read demo_read this] r r' show ?thesis by blast
qed

theorem skill_metadata_round_trip_witness:
  "SkillConfigFromImageConfig demo_js
     (Some (fst (createOCIConfig demo_lib demo_js demo_content [7] (hd (po_Platforms demo_opts)) demo_opts))) =
   Inr ((snd (createOCIConfig demo_lib demo_js demo_content [7] (hd (po_Platforms demo_opts)) demo_opts))
     \<lparr>sc_Compatibility := [], sc_Metadata := None\<rparr>) \<and>
   ParseRequiresAnnotation demo_js (the (mf_Annotations (createManifest demo_js [] [] [] [] demo_fm demo_opts))) = Some [''r/x:1'']"
proof -
  have r: "requires_refs (str_lookup [(''toolhive.requires'', ''r/x:1'')] ''toolhive.requires'') = [''r/x:1'']"
    using trim_space_ascii[of "''r/x:1''"] by (simp add: requires_refs_def str_lookup_def ascii_space_def)
  have f: "sc_Files (snd (createOCIConfig demo_lib demo_js demo_content [7] (hd (po_Platforms demo_opts)) demo_opts)) =
      Some [''SKILL.md'', ''scripts/run.sh'']" by code_simp
  have js: "js_keeps demo_js None" "js_keeps demo_js (Some [''SKILL.md'', ''scripts/run.sh''])" "js_keeps demo_js (Some [''r/x:1''])"
    by (simp_all add: js_keeps_def demo_js_def)
  have fm: "sd_fm demo_content = demo_fm" by (simp add: demo_content_def)
  have name: "fm_Name (sd_fm demo_content) \<noteq> []" by (simp add: fm demo_fm_def)
  have md: "fm_Metadata demo_fm = Some [(''toolhive.requires'', ''r/x:1'')]" "fm_AllowedTools demo_fm = None"
    by (simp_all add: demo_fm_def)
  have reqs: "[''r/x:1''] = (case fm_Metadata (sd_fm demo_content) of None \<Rightarrow> []
      | Some md \<Rightarrow> requires_refs (str_lookup md ''toolhive.requires''))"
    unfolding fm md option.case r ..
  have tools: "js_keeps demo_js (fm_AllowedTools (sd_fm demo_content))" unfolding fm md by (rule js(1))
  have files: "js_keeps demo_js (sc_Files (snd (createOCIConfig demo_lib demo_js demo_content [7]
      (hd (po_Platforms demo_opts)) demo_opts)))" unfolding f by (rule js(2))
  from skill_metadata_round_trip[OF prod.collapse[symmetric] name reqs tools files js(3), of "[]" "[]" "[]" "[]"]
  show ?thesis unfolding fm by simp
qed

definition demo_rd :: tar_stream where
  "demo_rd = \<lparr>ts_entries = map (\<lambda>(h, c). (h, \<lparr>rd_data = c, rd_fail = None, rd_joined = False\<rparr>)) demo_entries, ts_end = None\<rparr>"

lemma demo_tar_codec:
  assumes "write_entries (pe_tar demo_env) es (tw_new (pe_tar demo_env)) = Inr w" "tw_close (pe_tar demo_env) w = Inr b"
  shows "list_all2 same_entry (ts_entries demo_rd) es \<and> ts_end demo_rd = None"
proof -
  have "write_entries (log_writer\<lparr>tw_close := f\<rparr>) es v = write_entries log_writer es v" for f es v
    by (induction es arbitrary: v) (auto simp: log_writer_def)
  then have "w = es"
    using assms(1) log_writer_entries[of log_writer es "[]" w] by (simp add: demo_env_def) (simp add: log_writer_def)
  then have "es = demo_entries" using assms(2) by (auto simp: demo_env_def split: if_splits)
  then show ?thesis
    by (auto simp: demo_rd_def same_entry_def list_all2_map1 intro!: list_all2_refl)
qed

theorem skill_layer_round_trip_witness:
  "\<exists>fs. DecompressTar (\<lambda>z. Inr \<lparr>rd_data = drop 2 z, rd_fail = None, rd_joined = False\<rparr>) (\<lambda>_. demo_rd) [31, 139, 7] = Inr fs \<and>
     map fe_Path fs = [''SKILL.md'', ''scripts/run.sh'']"
proof -
  have f: "sc_Files (snd (createOCIConfig demo_lib demo_js demo_content [7] (hd (po_Platforms demo_opts)) demo_opts)) =
      Some [''SKILL.md'', ''scripts/run.sh'']" by code_simp
  have tree: "fs_Lstat demo_fs ''/d'' = Inr (NDir [(''.git'', NDir [(''x'', NLink)] None), (''SKILL.md'', NFile (Inr [1])),
     (''scripts'', NDir [(''run.sh'', NFile (Inr [2, 3]))] None)] None)"
    by (simp add: demo_fs_def sample_tree_def)
  have "\<exists>fs. DecompressTar (\<lambda>z. Inr \<lparr>rd_data = drop 2 z, rd_fail = None, rd_joined = False\<rparr>) (\<lambda>_. demo_rd) [31, 139, 7] = Inr fs \<and>
     sc_Files (snd (createOCIConfig demo_lib demo_js demo_content [7] (hd (po_Platforms demo_opts)) demo_opts)) = Some (map fe_Path fs) \<and>
     map_of (map (\<lambda>f. (fe_Path f, fe_Content f)) fs) =
       (map_of (sd_files demo_content))(SkillFileName \<mapsto> sd_skillMD demo_content) \<and>
     (\<forall>f \<in> set fs. fe_Mode f = 420)"
  proof (rule skill_layer_round_trip[OF _ demo_tar_codec _ tree _ demo_read demo_layer _ _ _ prod.collapse[symmetric]])
    show "mset (pe_sort demo_env fs) = mset fs \<and> sorted (map fe_Path (pe_sort demo_env fs))" for fs
      by (simp add: demo_env_def)
  qed (auto simp: demo_env_def demo_gzip_def demo_content_def demo_md_def MaxTarFileSize_def MaxDecompressedSize_def
      plain_def sublist_eval split: if_splits)
  then show ?thesis using f by auto
qed

end
