(* ===== verification/Skill_Registry.thy ===== *)
theory Skill_Registry
  imports Oci_Store
begin

text \<open>
  Moving artifacts between the local store and a registry (\<open>oci/skills/registry.go\<close>). Reference parsing, the repository client and oras' copy
  routines are parameters. What a pull does to the local store is whatever sequence of \<open>Push\<close> and \<open>Tag\<close> calls the copy routine
  makes on the validating target it is handed.
\<close>

record Reference =
  rf_Registry :: string
  rf_Repository :: string
  rf_Reference :: string

datatype registry_error =
    ParsingReference string string | MissingTagOrDigest string | GettingRepository string
  | ResolvingArtifact layout_err | PushingToRegistry string | TaggingRemote string | PullingFromRegistry string

definition parseReference :: "(string \<Rightarrow> (string, Reference) result) \<Rightarrow> string \<Rightarrow> (registry_error, Reference) result" where
  "parseReference parse ref =
     bindE (map_err (ParsingReference ref) (parse ref))
       (\<lambda>parsedRef. if rf_Reference parsedRef = [] then Inl (MissingTagOrDigest ref) else Inr parsedRef)"

text \<open>A repository client of type \<open>'t\<close> with its state \<open>'r\<close>: the copy of a content graph from the local store, and tagging.\<close>

record ('s, 't, 'r) remote_ops =
  ro_newTarget :: "Reference \<Rightarrow> (string, 't) result"
  ro_copyGraph :: "'s \<Rightarrow> 't \<Rightarrow> OciDescriptor \<Rightarrow> 'r \<Rightarrow> string option \<times> 'r"
  ro_tag :: "'t \<Rightarrow> OciDescriptor \<Rightarrow> string \<Rightarrow> 'r \<Rightarrow> string option \<times> 'r"

definition registry_Push ::
  "(string \<Rightarrow> (string, Reference) result) \<Rightarrow> ('s, 't, 'r) remote_ops \<Rightarrow> 's Store \<Rightarrow> string \<Rightarrow> string \<Rightarrow> 's \<Rightarrow> 'r
     \<Rightarrow> (registry_error, unit) result \<times> 'r" where
  "registry_Push parse R s artifactDigest ref st remote =
     (case parseReference parse ref of
        Inl e \<Rightarrow> (Inl e, remote)
      | Inr parsedRef \<Rightarrow>
          (case lo_Resolve (inner s) artifactDigest st of
             Inl e \<Rightarrow> (Inl (ResolvingArtifact e), remote)
           | Inr desc \<Rightarrow>
               (case ro_newTarget R parsedRef of
                  Inl e \<Rightarrow> (Inl (GettingRepository e), remote)
                | Inr target \<Rightarrow>
                    (case ro_copyGraph R st target desc remote of
                       (Some e, remote) \<Rightarrow> (Inl (PushingToRegistry e), remote)
                     | (None, remote) \<Rightarrow>
                         (case ro_tag R target desc (rf_Reference parsedRef) remote of
                            (Some e, remote) \<Rightarrow> (Inl (TaggingRemote e), remote)
                          | (None, remote) \<Rightarrow> (Inr (), remote))))))"

section \<open>Pulling\<close>

datatype target_call = TPush OciDescriptor "(8 word, string) reader" | TTag OciDescriptor string

text \<open>A call on \<open>artifact.NewValidatingTarget(store.Target())\<close>: the check of \<open>Push\<close>, then the layout.\<close>

definition index_count :: "oci_lib \<Rightarrow> bytes \<Rightarrow> nat option" where
  "index_count L data = map_option (\<lambda>ix. length (ix_Manifests ix)) (js_Index L data)"

definition layer_count :: "oci_lib \<Rightarrow> bytes \<Rightarrow> nat option" where
  "layer_count L data = map_option (\<lambda>m. length (mf_Layers m)) (js_Manifest L data)"

definition target_call :: "oci_lib \<Rightarrow> 's Store \<Rightarrow> target_call \<Rightarrow> 's \<Rightarrow> 's" where
  "target_call L s c st = (case c of
      TPush desc content \<Rightarrow>
        (case Push (FromBytes L) (index_count L) (layer_count L) (\<lambda>_ data. lo_Push (inner s) desc data st)
                (Descriptor.truncate desc) content of
           Inl _ \<Rightarrow> st
         | Inr (_, st') \<Rightarrow> st')
    | TTag desc ref \<Rightarrow> snd (lo_Tag (inner s) desc ref st))"

text \<open>\<open>copy\<close> is \<open>oras.Copy\<close> from a target and a source reference: its calls on the destination and its result.\<close>

definition registry_Pull ::
  "(string \<Rightarrow> (string, Reference) result) \<Rightarrow> (Reference \<Rightarrow> (string, 't) result)
     \<Rightarrow> ('t \<Rightarrow> string \<Rightarrow> string \<Rightarrow> target_call list \<times> (string, OciDescriptor) result)
     \<Rightarrow> oci_lib \<Rightarrow> 's Store \<Rightarrow> string \<Rightarrow> 's \<Rightarrow> (registry_error, string) result \<times> 's" where
  "registry_Pull parse newTarget copy L s ref st =
     (case parseReference parse ref of
        Inl e \<Rightarrow> (Inl e, st)
      | Inr parsedRef \<Rightarrow>
          (case newTarget parsedRef of
             Inl e \<Rightarrow> (Inl (GettingRepository e), st)
           | Inr target \<Rightarrow>
               (let (calls, r) = copy target (rf_Reference parsedRef) ref;
                    st = fold (target_call L s) calls st
                in case r of
                     Inl e \<Rightarrow> (Inl (PullingFromRegistry e), st)
                   | Inr desc \<Rightarrow> (Inr (d_Digest desc), st))))"

section \<open>What a pull can leave in the store\<close>

definition tag_keeps_blobs :: "'s Store \<Rightarrow> bool" where
  "tag_keeps_blobs s \<longleftrightarrow> (\<forall>desc t d st. lo_Fetch (inner s) d (snd (lo_Tag (inner s) desc t st)) = lo_Fetch (inner s) d st)"

definition verified_change :: "oci_lib \<Rightarrow> 's Store \<Rightarrow> 's \<Rightarrow> 's \<Rightarrow> bool" where
  "verified_change L s st st' \<longleftrightarrow> (\<forall>d. lo_Fetch (inner s) d st' = lo_Fetch (inner s) d st \<or>
     (\<exists>c. holds s st' d c \<and> FromBytes L c = d \<and> int (length c) \<le> MaxBlobSize))"

lemma verified_refl: "verified_change L s st st"
  by (simp add: verified_change_def)

lemma verified_trans: "verified_change L s st st1 \<Longrightarrow> verified_change L s st1 st2 \<Longrightarrow> verified_change L s st st2"
  unfolding verified_change_def holds_def by metis

lemma Push_inner:
  assumes "Push dg ni nl g desc content = Inr y"
  shows "\<exists>data. y = g desc data \<and> dg data = d_Digest desc \<and> int (length data) \<le> MaxBlobSize"
proof -
  define m where "m = (if isManifestMediaType (d_MediaType desc) then MaxManifestSize else MaxBlobSize)"
  from assms obtain data where "read_capped ReadingContent (ActualTooBig m (d_MediaType desc)) content m = Inr data"
    "dg data = d_Digest desc" "y = g desc data"
    by (auto simp: Push_def m_def[symmetric] Let_def bindE_eq_Inr split: if_splits)
  moreover have "m \<le> MaxBlobSize" by (simp add: m_def MaxManifestSize_def MaxBlobSize_def)
  ultimately show ?thesis using read_capped_bound by fastforce
qed

lemma target_call_verified:
  assumes "push_laws L s" "tag_keeps_blobs s"
  shows "verified_change L s st (target_call L s c st)"
proof (cases c)
  case (TTag desc t)
  then show ?thesis using assms(2) by (simp add: target_call_def verified_change_def tag_keeps_blobs_def)
next
  case (TPush desc content)
  let ?p = "Push (FromBytes L) (index_count L) (layer_count L) (\<lambda>_ data. lo_Push (inner s) desc data st)
     (Descriptor.truncate desc) content"
  show ?thesis
  proof (cases ?p)
    case (Inl e)
    then show ?thesis by (simp add: target_call_def TPush verified_refl)
  next
    case (Inr y)
    obtain e st' where y: "y = (e, st')" by (cases y)
    from Push_inner[OF Inr] obtain data where d: "lo_Push (inner s) desc data st = (e, st')"
      "d_Digest desc = FromBytes L data" "int (length data) \<le> MaxBlobSize"
      by (auto simp: y Descriptor.truncate_def)
    note law = assms(1)[unfolded push_laws_def, rule_format, OF d(1,2)]
    have "verified_change L s st st'"
      unfolding verified_change_def using law d(3) by metis
    then show ?thesis using Inr by (simp add: target_call_def TPush y)
  qed
qed

text \<open>
  C25. Whatever calls the copy routine makes and whatever the registry sends: after a pull, successful or not, every blob of the local store is the one that was there
  before, or new content that has the digest it is stored under and is within the size limit; and a reference without tag or
  digest is refused before any call.
\<close>
theorem Pull_validated:
  assumes "push_laws L s" "tag_keeps_blobs s"
  shows "verified_change L s st (snd (registry_Pull parse newTarget copy L s ref st)) \<and>
         (\<forall>pr. parse ref = Inr pr \<and> rf_Reference pr = [] \<longrightarrow>
            registry_Pull parse newTarget copy L s ref st = (Inl (MissingTagOrDigest ref), st))"
proof -
  have calls: "verified_change L s st (fold (target_call L s) cs st)" for cs st
  proof (induction cs arbitrary: st)
    case Nil
    then show ?case by (simp add: verified_refl)
  next
    case (Cons c cs)
    from verified_trans[OF target_call_verified[OF assms] Cons.IH] show ?case by simp
  qed
  show ?thesis
    by (auto simp: registry_Pull_def parseReference_def Let_def verified_refl calls split: sum.split prod.split)
qed

lemma mem_tag_keeps: "tag_keeps_blobs (mem_store L)"
  by (simp add: tag_keeps_blobs_def mem_store_def mem_layout_def)

theorem Pull_validated_witness:
  "verified_change demo_lib (mem_store demo_lib) mem_empty
     (snd (registry_Pull (\<lambda>r. Inr \<lparr>rf_Registry = ''h'', rf_Repository = ''p'', rf_Reference = ''t''\<rparr>) (\<lambda>_. Inr ())
        (\<lambda>_ _ _. ([TPush (plain_desc [] ''a'' 1) \<lparr>rd_data = [97], rd_fail = None, rd_joined = False\<rparr>,
                    TPush (plain_desc [] ''b'' 1) \<lparr>rd_data = [99], rd_fail = None, rd_joined = False\<rparr>], Inl ''failed''))
        demo_lib (mem_store demo_lib) ''h/p:t'' mem_empty))"
proof -
  have "push_laws demo_lib (mem_store demo_lib)" using mem_laws[of demo_lib] by (simp add: layout_laws_def)
  from conjunct1[OF Pull_validated[OF this mem_tag_keeps]] show ?thesis .
qed

end
