(* ===== verification/Go_Json.thy ===== *)
theory Go_Json
  imports Go_Prelude "HOL-Library.List_Lexorder" "HOL-Library.Char_ord"
begin

text \<open>
  What the packages rely on of \<open>encoding/json\<close>: encoding and decoding of dynamic values and of struct fields.

  A \<^typ>\<open>json\<close> value stands for two things. As a document it is the tree that a text denotes: \<open>JNum n\<close> is an integer literal, kept
  exactly, and \<open>JFloat m e\<close> a literal with a fraction or an exponent, given by the float64 \<open>m * 2 ^ e\<close> it is read as. As a Go value of type
  \<open>any\<close> it is what the interface holds: \<open>JNum\<close> an \<open>int\<close>, \<open>JFloat\<close> a \<open>float64\<close>, \<open>JArr\<close> a \<open>[]any\<close>, \<open>JObj\<close> a \<open>map[string]any\<close>, which is
  an association list with increasing keys, so that equal maps are equal lists.

  A decoder takes the document and the value decoded into, and returns the new value and a status. As in Go, a type mismatch
  is remembered, the field is left as it was and decoding goes on, while an error of a custom \<open>UnmarshalJSON\<close> ends the decoding at once, with
  the fields decoded so far in place.
\<close>

named_theorems json_dec \<open>what evaluates the decoding of one struct member\<close>

section \<open>UTF-8\<close>

definition utf8_cont :: "char \<Rightarrow> bool" where
  "utf8_cont c \<longleftrightarrow> 128 \<le> ord c \<and> ord c \<le> 191"

text \<open>The range of the second byte of a sequence of three or four bytes.\<close>

definition utf8_second :: "char \<Rightarrow> char \<Rightarrow> bool" where
  "utf8_second c d \<longleftrightarrow>
     (if ord c = 224 then 160 else if ord c = 240 then 144 else 128) \<le> ord d \<and>
     ord d \<le> (if ord c = 237 then 159 else if ord c = 244 then 143 else 191)"

text \<open>The width of the rune a string starts with; 0 if it starts with no valid encoding.\<close>

fun rune_len :: "string \<Rightarrow> nat" where
  "rune_len [] = 0"
| "rune_len (c # cs) =
     (if ord c < 128 then 1
      else if 194 \<le> ord c \<and> ord c \<le> 223 then (case cs of d # _ \<Rightarrow> if utf8_cont d then 2 else 0 | _ \<Rightarrow> 0)
      else if 224 \<le> ord c \<and> ord c \<le> 239 then
        (case cs of d # e # _ \<Rightarrow> if utf8_second c d \<and> utf8_cont e then 3 else 0 | _ \<Rightarrow> 0)
      else if 240 \<le> ord c \<and> ord c \<le> 244 then
        (case cs of d # e # f # _ \<Rightarrow> if utf8_second c d \<and> utf8_cont e \<and> utf8_cont f then 4 else 0 | _ \<Rightarrow> 0)
      else 0)"

text \<open>The encoder writes U+FFFD for every byte that is not part of a valid rune, and so does the decoder.\<close>

function utf8_fix :: "string \<Rightarrow> string" where
  "utf8_fix [] = []"
| "utf8_fix (c # cs) =
     (if rune_len (c # cs) = 0 then [CHR 0xEF, CHR 0xBF, CHR 0xBD] @ utf8_fix cs
      else take (rune_len (c # cs)) (c # cs) @ utf8_fix (drop (rune_len (c # cs)) (c # cs)))"
  by pat_completeness auto
termination
  by (relation "measure length") auto

declare utf8_fix.simps(2) [simp del]

definition valid_utf8 :: "string \<Rightarrow> bool" where
  "valid_utf8 s \<longleftrightarrow> utf8_fix s = s"

lemma utf8_fix_valid [simp]: "valid_utf8 s \<Longrightarrow> utf8_fix s = s"
  by (simp add: valid_utf8_def)

lemma valid_utf8_ascii: "list_all (\<lambda>c. ord c < 128) s \<Longrightarrow> valid_utf8 s"
  by (induction s) (auto simp: valid_utf8_def utf8_fix.simps)

lemma valid_utf8_Nil [simp]: "valid_utf8 []"
  by (simp add: valid_utf8_def)

lemma rune_len_take: "rune_len s = n \<Longrightarrow> n \<noteq> 0 \<Longrightarrow> rune_len (take n s @ t) = n \<and> length (take n s) = n"
  by (cases s) (auto split: if_splits list.splits)

lemma utf8_fix_take: "rune_len s = n \<Longrightarrow> n \<noteq> 0 \<Longrightarrow> utf8_fix (take n s @ t) = take n s @ utf8_fix t"
proof -
  assume n: "rune_len s = n" "n \<noteq> 0"
  obtain c cs where c: "take n s @ t = c # cs"
    using n by (cases s; cases n) auto
  have r: "rune_len (c # cs) = n" and l: "length (take n s) = n"
    using rune_len_take [OF n, of t] c by auto
  have "take n (c # cs) = take n s" "drop n (c # cs) = t"
    unfolding c [symmetric] using l by (simp_all add: min_def)
  then show ?thesis
    unfolding c utf8_fix.simps(2) r using n(2) by simp
qed

lemma utf8_fix_replacement: "utf8_fix ([CHR 0xEF, CHR 0xBF, CHR 0xBD] @ t) = [CHR 0xEF, CHR 0xBF, CHR 0xBD] @ utf8_fix t"
  by (simp add: utf8_fix.simps(2) utf8_second_def utf8_cont_def)

lemma valid_utf8_fix [simp]: "valid_utf8 (utf8_fix s)"
  unfolding valid_utf8_def
proof (induction s rule: utf8_fix.induct)
  case (2 c cs)
  show ?case
  proof (cases "rune_len (c # cs) = 0")
    case True
    then have "utf8_fix (c # cs) = [CHR 0xEF, CHR 0xBF, CHR 0xBD] @ utf8_fix cs"
      by (simp add: utf8_fix.simps(2))
    with 2(1) [OF True] show ?thesis
      by (simp only: utf8_fix_replacement)
  next
    case False
    then have "utf8_fix (c # cs) = take (rune_len (c # cs)) (c # cs) @ utf8_fix (drop (rune_len (c # cs)) (c # cs))"
      by (subst utf8_fix.simps(2)) simp
    then show ?thesis
      by (simp only: utf8_fix_take [OF refl False] 2(2) [OF False])
  qed
qed simp

section \<open>Numbers\<close>

fun bitlen :: "nat \<Rightarrow> nat" where
  "bitlen n = (if n = 0 then 0 else Suc (bitlen (n div 2)))"

declare bitlen.simps [simp del]

text \<open>An integer literal read as float64: 53 bits, ties to even, in lowest terms.\<close>

fun strip2 :: "nat \<Rightarrow> nat \<Rightarrow> nat \<times> nat" where
  "strip2 m e = (if m = 0 then (0, 0) else if even m then strip2 (m div 2) (Suc e) else (m, e))"

declare strip2.simps [simp del]

definition round_shift :: "nat \<Rightarrow> nat \<Rightarrow> nat" where
  "round_shift n k =
     (let q = n div 2 ^ k; r = n mod 2 ^ k
      in if 2 * r < 2 ^ k \<or> 2 * r = 2 ^ k \<and> even q then q else q + 1)"

definition f64 :: "int \<Rightarrow> json" where
  "f64 n =
     (let k = bitlen (nat \<bar>n\<bar>) - 53
      in case strip2 (round_shift (nat \<bar>n\<bar>) k) k of (m, e) \<Rightarrow> JFloat (sgn n * int m) (int e))"

text \<open>A float64 in lowest terms (negative zero and the non-numbers apart).\<close>

definition canon_float :: "int \<Rightarrow> int \<Rightarrow> bool" where
  "canon_float m e \<longleftrightarrow> (m = 0 \<and> e = 0) \<or> (odd m \<and> \<bar>m\<bar> < 2 ^ 53)"

text \<open>A float64 is written without exponent, and so as an integer literal if it is one, below \<open>10 ^ 21\<close>.\<close>

definition enc_float :: "int \<Rightarrow> int \<Rightarrow> json" where
  "enc_float m e = (if 0 \<le> e \<and> \<bar>m * 2 ^ nat e\<bar> < 10 ^ 21 then JNum (m * 2 ^ nat e) else JFloat m e)"

lemma bitlen_le: "n < 2 ^ b \<Longrightarrow> bitlen n \<le> b"
proof (induction b arbitrary: n)
  case (Suc b)
  then have "n div 2 < 2 ^ b" by (simp add: less_mult_imp_div_less)
  from Suc.IH [OF this] show ?case by (subst bitlen.simps) simp
qed (simp add: bitlen.simps)

lemma bitlen_shift: "0 < n \<Longrightarrow> bitlen (n * 2 ^ k) = bitlen n + k"
proof (induction k)
  case (Suc k)
  then show ?case by (subst bitlen.simps) (simp add: mult.left_commute)
qed simp

lemma strip2_shift: "odd n \<Longrightarrow> strip2 (n * 2 ^ j) k = (n, k + j)"
proof (induction j arbitrary: k)
  case (Suc j)
  then show ?case by (subst strip2.simps) (auto simp: mult.left_commute elim: oddE)
qed (auto simp: strip2.simps elim: oddE)

lemma round_shift_exact: "k \<le> j \<Longrightarrow> round_shift (n * 2 ^ j) k = n * 2 ^ (j - k)"
proof -
  assume "k \<le> j"
  then have "n * 2 ^ j = (n * 2 ^ (j - k)) * (2 :: nat) ^ k"
    by (simp add: mult.assoc flip: power_add)
  then show ?thesis unfolding round_shift_def by (simp only: nonzero_mult_div_cancel_right mod_mult_self2_is_0 power_not_zero) simp
qed

lemma f64_exact:
  assumes "canon_float m e" "0 \<le> e"
  shows "f64 (m * 2 ^ nat e) = JFloat m e"
proof (cases "m = 0")
  case True
  with assms show ?thesis by (auto simp: f64_def canon_float_def bitlen.simps round_shift_def strip2.simps)
next
  case False
  define n where "n = nat \<bar>m\<bar>"
  define k where "k = bitlen n + nat e - 53"
  have odd: "odd n" and "\<bar>m\<bar> < 2 ^ 53" and pos: "0 < n"
    using assms False by (auto simp: canon_float_def n_def even_nat_iff)
  then have "n < 2 ^ 53"
    by (simp add: n_def nat_less_iff)
  from bitlen_le [OF this] have k: "k \<le> nat e" by (simp add: k_def)
  have abs: "nat \<bar>m * 2 ^ nat e\<bar> = n * 2 ^ nat e"
    by (simp add: n_def abs_mult nat_mult_distrib nat_power_eq)
  have sgn: "sgn (m * 2 ^ nat e) * int n = m"
    by (simp add: n_def sgn_mult sgn_mult_abs)
  show ?thesis
    unfolding f64_def abs bitlen_shift [OF pos] Let_def k_def [symmetric] round_shift_exact [OF k] strip2_shift [OF odd]
    using k assms(2) sgn by simp
qed

lemma strip2_spec:
  "strip2 m e = (m', e') \<Longrightarrow> 0 < m \<Longrightarrow> odd m' \<and> m * 2 ^ e = m' * 2 ^ e' \<and> m' \<le> m"
proof (induction m e rule: strip2.induct)
  case (1 m e)
  show ?case
  proof (cases "even m")
    case True
    then obtain h where h: "m = 2 * h" by blast
    have s: "strip2 h (Suc e) = (m', e')"
      using 1(2,3) strip2.simps [of m e] h by simp
    from 1(1) 1(3) True s show ?thesis by (auto simp: h)
  next
    case False
    with 1(2,3) show ?thesis by (simp add: strip2.simps [of m])
  qed
qed

lemma f64_small: "\<bar>n\<bar> < 2 ^ 53 \<Longrightarrow> \<exists>m e. f64 n = JFloat m e \<and> canon_float m e \<and> 0 \<le> e \<and> m * 2 ^ nat e = n"
proof -
  assume n: "\<bar>n\<bar> < 2 ^ 53"
  then have "nat \<bar>n\<bar> < 2 ^ 53" by (simp add: nat_less_iff)
  from bitlen_le [OF this] have k: "bitlen (nat \<bar>n\<bar>) - 53 = 0" by simp
  obtain m e where me: "strip2 (nat \<bar>n\<bar>) 0 = (m, e)" by fastforce
  have f: "f64 n = JFloat (sgn n * int m) (int e)"
    by (simp add: f64_def k round_shift_def me)
  show ?thesis
  proof (cases "n = 0")
    case True
    with f me show ?thesis by (auto simp: canon_float_def strip2.simps)
  next
    case False
    with strip2_spec [OF me] have s: "odd m" "nat \<bar>n\<bar> = m * 2 ^ e" "m \<le> nat \<bar>n\<bar>" by auto
    have "\<bar>n\<bar> = int m * 2 ^ e"
      using arg_cong [OF s(2), of int] by simp
    then have "sgn n * int m * 2 ^ e = n"
      by (metis mult.assoc mult_sgn_abs)
    moreover have "canon_float (sgn n * int m) (int e)"
      using s(1,3) n False by (auto simp: canon_float_def sgn_if)
    ultimately show ?thesis using f by auto
  qed
qed

section \<open>Maps\<close>

text \<open>A Go map is an association list with increasing keys.\<close>

fun map_put :: "'k :: linorder \<Rightarrow> 'v \<Rightarrow> ('k \<times> 'v) list \<Rightarrow> ('k \<times> 'v) list" where
  "map_put k v [] = [(k, v)]"
| "map_put k v ((k', v') # m) =
     (if k < k' then (k, v) # (k', v') # m else if k = k' then (k, v) # m else (k', v') # map_put k v m)"

definition map_puts :: "('k :: linorder \<times> 'v) list \<Rightarrow> ('k \<times> 'v) list \<Rightarrow> ('k \<times> 'v) list" where
  "map_puts xs m = foldl (\<lambda>m (k, v). map_put k v m) m xs"

definition map_del :: "'k list \<Rightarrow> ('k \<times> 'v) list \<Rightarrow> ('k \<times> 'v) list" where
  "map_del ks m = filter (\<lambda>(k, v). k \<notin> set ks) m"

definition go_map :: "('k :: linorder \<times> 'v) list \<Rightarrow> bool" where
  "go_map m \<longleftrightarrow> sorted_wrt (<) (map fst m)"

lemma go_map_Nil [simp]: "go_map []"
  by (simp add: go_map_def)

lemma go_map_Cons [simp]: "go_map ((k, v) # m) \<longleftrightarrow> (\<forall>x\<in>fst ` set m. k < x) \<and> go_map m"
  by (auto simp: go_map_def)

lemma keys_map_put: "fst ` set (map_put k v m) = insert k (fst ` set m)"
  by (induction k v m rule: map_put.induct) auto

lemma go_map_put [simp]: "go_map m \<Longrightarrow> go_map (map_put k v m)"
  by (induction k v m rule: map_put.induct) (auto simp: keys_map_put)

lemma map_of_put [simp]: "map_of (map_put k v m) = (map_of m)(k \<mapsto> v)"
  by (induction k v m rule: map_put.induct) (auto simp: fun_eq_iff)

lemma map_puts_Nil [simp]: "map_puts [] m = m"
  by (simp add: map_puts_def)

lemma map_puts_Cons: "map_puts ((k, v) # xs) m = map_puts xs (map_put k v m)"
  by (simp add: map_puts_def)

lemma map_puts_append: "map_puts (xs @ ys) m = map_puts ys (map_puts xs m)"
  by (simp add: map_puts_def)

lemma go_map_puts [simp]: "go_map m \<Longrightarrow> go_map (map_puts xs m)"
  by (induction xs arbitrary: m) (auto simp: map_puts_Cons)

lemma map_of_puts: "map_of (map_puts xs m) = map_of m ++ map_of (rev xs)"
  by (induction xs arbitrary: m) (auto simp: map_puts_Cons map_add_def fun_eq_iff split: option.splits)

lemma go_map_distinct: "go_map m \<Longrightarrow> distinct (map fst m)"
  by (simp add: go_map_def strict_sorted_iff)

lemma go_map_eqI: "go_map m \<Longrightarrow> go_map m' \<Longrightarrow> map_of m = map_of m' \<Longrightarrow> m = m'"
proof -
  assume g: "go_map m" "go_map m'" and e: "map_of m = map_of m'"
  have d: "distinct (map fst m)" "distinct (map fst m')"
    using g by (simp_all add: go_map_distinct)
  have "set m = set m'"
    using map_of_inject_set [OF d] e by simp
  moreover have "sorted (map fst m)" "sorted (map fst m')"
    using g by (simp_all add: go_map_def strict_sorted_iff)
  moreover have "inj_on fst (set m')" "inj_on fst (set m)"
    using d by (simp_all add: distinct_map)
  ultimately show ?thesis
    using map_sorted_distinct_set_unique [of fst m m'] d by (simp add: distinct_map)
qed

lemma map_of_rev_distinct: "distinct (map fst m) \<Longrightarrow> map_of (rev m) = map_of m"
  by (rule map_of_inject_set [THEN iffD2]) (auto simp flip: rev_map)

lemma map_puts_sorted: "go_map m \<Longrightarrow> map_puts m [] = m"
  by (rule go_map_eqI) (auto simp: map_of_puts map_of_rev_distinct go_map_distinct)

lemma go_map_del [simp]: "go_map m \<Longrightarrow> go_map (map_del ks m)"
  by (induction m) (auto simp: map_del_def)

lemma map_of_del: "map_of (map_del ks m) = map_of m |` (- set ks)"
  by (induction m) (auto simp: map_del_def restrict_map_def fun_eq_iff)

lemma go_map_map [simp]: "go_map (map (\<lambda>(k, v). (k, f v)) m) \<longleftrightarrow> go_map m"
  by (simp add: go_map_def comp_def case_prod_unfold)

section \<open>Dynamic values\<close>

text \<open>\<open>json.Marshal\<close> of a value of type \<open>any\<close> made of the basic types, and \<open>json.Unmarshal\<close> into \<open>any\<close>.\<close>

fun enc_any :: "json \<Rightarrow> json" where
  "enc_any (JFloat m e) = enc_float m e"
| "enc_any (JStr s) = JStr (utf8_fix s)"
| "enc_any (JArr xs) = JArr (map enc_any xs)"
| "enc_any (JObj m) = JObj (map (\<lambda>(k, v). (utf8_fix k, enc_any v)) m)"
| "enc_any v = v"

fun dec_any :: "json \<Rightarrow> json" where
  "dec_any (JNum n) = f64 n"
| "dec_any (JArr xs) = JArr (map dec_any xs)"
| "dec_any (JObj m) = JObj (map_puts (map (\<lambda>(k, v). (k, dec_any v)) m) [])"
| "dec_any v = v"

text \<open>The values that decoding into \<open>any\<close> produces.\<close>

fun wf_any :: "json \<Rightarrow> bool" where
  "wf_any (JNum n) \<longleftrightarrow> False"
| "wf_any (JFloat m e) \<longleftrightarrow> canon_float m e"
| "wf_any (JStr s) \<longleftrightarrow> valid_utf8 s"
| "wf_any (JArr xs) \<longleftrightarrow> list_all wf_any xs"
| "wf_any (JObj m) \<longleftrightarrow> go_map m \<and> list_all (\<lambda>(k, v). valid_utf8 k \<and> wf_any v) m"
| "wf_any v \<longleftrightarrow> True"

abbreviation wf_map :: "(string \<times> json) list \<Rightarrow> bool" where
  "wf_map m \<equiv> wf_any (JObj m)"

lemma dec_enc_float: "canon_float m e \<Longrightarrow> dec_any (enc_float m e) = JFloat m e"
  by (simp add: enc_float_def f64_exact)

lemma dec_enc_any [simp]: "wf_any v \<Longrightarrow> dec_any (enc_any v) = v"
proof (induction v rule: enc_any.induct)
  case (4 m)
  have "\<And>x. x \<in> set m \<Longrightarrow> (case x of (k, v) \<Rightarrow> (utf8_fix k, dec_any (enc_any v))) = x"
    using 4 by (auto simp: list_all_iff)
  then have "map (\<lambda>(k, v). (k, dec_any v)) (map (\<lambda>(k, v). (utf8_fix k, enc_any v)) m) = m"
    by (simp add: comp_def case_prod_unfold map_idI)
  with 4 show ?case by (simp add: map_puts_sorted)
qed (auto simp: dec_enc_float list_all_iff map_idI)

lemma dec_enc_map [simp]:
  assumes "wf_map m"
  shows "map_puts (map (\<lambda>(k, v). (k, dec_any v)) (map (\<lambda>(k, v). (utf8_fix k, enc_any v)) m)) [] = m"
  using dec_enc_any [OF assms] by simp

section \<open>Struct fields\<close>

datatype dstat = Fine | Mismatch | Abort

fun worse :: "dstat \<Rightarrow> dstat \<Rightarrow> dstat" where
  "worse Abort t = Abort"
| "worse Fine t = t"
| "worse Mismatch t = (if t = Abort then Abort else Mismatch)"

type_synonym 'a decoder = "json \<Rightarrow> 'a \<Rightarrow> 'a \<times> dstat"

text \<open>A key selects the field whose name it equals up to letter case.\<close>

declare ascii_fold.simps [simp del]

definition key_eq :: "string \<Rightarrow> string \<Rightarrow> bool" where
  "key_eq k name \<longleftrightarrow> ascii_fold k = ascii_fold name"

text \<open>The members of an object, in document order; \<open>upd\<close> decodes the member a key selects.\<close>

fun dec_fields :: "(string \<Rightarrow> 'a decoder) \<Rightarrow> (string \<times> json) list \<Rightarrow> 'a \<Rightarrow> 'a \<times> dstat" where
  "dec_fields upd [] x = (x, Fine)"
| "dec_fields upd ((k, j) # m) x =
     (case upd k j x of
        (y, Abort) \<Rightarrow> (y, Abort)
      | (y, s) \<Rightarrow> (case dec_fields upd m y of (z, t) \<Rightarrow> (z, worse s t)))"

definition dec_struct :: "(string \<Rightarrow> 'a decoder) \<Rightarrow> 'a decoder" where
  "dec_struct upd j x = (case j of JNull \<Rightarrow> (x, Fine) | JObj m \<Rightarrow> dec_fields upd m x | _ \<Rightarrow> (x, Mismatch))"

definition into :: "'b \<times> dstat \<Rightarrow> ('b \<Rightarrow> 'a) \<Rightarrow> 'a \<times> dstat" where
  "into r f = (f (fst r), snd r)"

fun dec_string :: "string decoder" where
  "dec_string (JStr s) x = (s, Fine)"
| "dec_string JNull x = (x, Fine)"
| "dec_string _ x = (x, Mismatch)"

fun dec_bool :: "bool decoder" where
  "dec_bool (JBool b) x = (b, Fine)"
| "dec_bool JNull x = (x, Fine)"
| "dec_bool _ x = (x, Mismatch)"

text \<open>Only an integer literal in range decodes into \<open>int\<close> or \<open>int64\<close>.\<close>

fun dec_int :: "int decoder" where
  "dec_int (JNum n) x = (if is_int64 n then (n, Fine) else (x, Mismatch))"
| "dec_int JNull x = (x, Fine)"
| "dec_int _ x = (x, Mismatch)"

text \<open>A \<open>float64\<close> is the pair of its mantissa and exponent.\<close>

fun dec_float :: "(int \<times> int) decoder" where
  "dec_float (JNum n) x = (case f64 n of JFloat m e \<Rightarrow> ((m, e), Fine) | _ \<Rightarrow> (x, Mismatch))"
| "dec_float (JFloat m e) x = ((m, e), Fine)"
| "dec_float JNull x = (x, Fine)"
| "dec_float _ x = (x, Mismatch)"

text \<open>A field of type \<open>any\<close>; nil is \<open>JNull\<close>.\<close>

definition dec_iface :: "json decoder" where
  "dec_iface j x = (dec_any j, Fine)"

text \<open>A field of type \<open>json.RawMessage\<close>: the document itself, \<open>null\<close> included; nil if absent.\<close>

definition dec_raw :: "json option decoder" where
  "dec_raw j x = (Some j, Fine)"

definition dec_ptr :: "'a \<Rightarrow> 'a decoder \<Rightarrow> 'a option decoder" where
  "dec_ptr zero d j x =
     (if j = JNull then (None, Fine) else into (d j (case x of None \<Rightarrow> zero | Some y \<Rightarrow> y)) Some)"

fun dec_elems :: "'a \<Rightarrow> 'a decoder \<Rightarrow> json list \<Rightarrow> 'a list \<times> dstat" where
  "dec_elems zero d [] = ([], Fine)"
| "dec_elems zero d (j # js) =
     (case d j zero of
        (v, Abort) \<Rightarrow> ([v], Abort)
      | (v, s) \<Rightarrow> (case dec_elems zero d js of (vs, t) \<Rightarrow> (v # vs, worse s t)))"

definition dec_slice :: "'a \<Rightarrow> 'a decoder \<Rightarrow> 'a list option decoder" where
  "dec_slice zero d j x =
     (case j of JNull \<Rightarrow> (None, Fine) | JArr js \<Rightarrow> into (dec_elems zero d js) Some | _ \<Rightarrow> (x, Mismatch))"

definition dec_entry :: "'a \<Rightarrow> 'a decoder \<Rightarrow> string \<Rightarrow> (string \<times> 'a) list decoder" where
  "dec_entry zero d k j m = (case d j zero of (v, Abort) \<Rightarrow> (m, Abort) | (v, s) \<Rightarrow> (map_put k v m, s))"

definition dec_map :: "'a \<Rightarrow> 'a decoder \<Rightarrow> (string \<times> 'a) list option decoder" where
  "dec_map zero d j x =
     (case j of
        JNull \<Rightarrow> (None, Fine)
      | JObj m \<Rightarrow> into (dec_fields (dec_entry zero d) m (case x of None \<Rightarrow> [] | Some m0 \<Rightarrow> m0)) Some
      | _ \<Rightarrow> (x, Mismatch))"

text \<open>Encoders: a member left out when \<open>b\<close>, strings, slices and maps (nil is written as \<open>null\<close>).\<close>

definition omit :: "bool \<Rightarrow> string \<Rightarrow> json \<Rightarrow> (string \<times> json) list" where
  "omit b k v = (if b then [] else [(k, v)])"

abbreviation empty_slice :: "'a list option \<Rightarrow> bool" where
  "empty_slice x \<equiv> x = None \<or> x = Some []"

definition enc_string :: "string \<Rightarrow> json" where
  "enc_string s = JStr (utf8_fix s)"

definition enc_slice :: "('a \<Rightarrow> json) \<Rightarrow> 'a list option \<Rightarrow> json" where
  "enc_slice f x = (case x of None \<Rightarrow> JNull | Some xs \<Rightarrow> JArr (map f xs))"

definition enc_map :: "('a \<Rightarrow> json) \<Rightarrow> (string \<times> 'a) list option \<Rightarrow> json" where
  "enc_map f x = (case x of None \<Rightarrow> JNull | Some m \<Rightarrow> JObj (map (\<lambda>(k, v). (utf8_fix k, f v)) m))"

definition enc_ptr :: "('a \<Rightarrow> json) \<Rightarrow> 'a option \<Rightarrow> json" where
  "enc_ptr f x = (case x of None \<Rightarrow> JNull | Some v \<Rightarrow> f v)"

section \<open>Round trips of fields\<close>

lemma into_simps [simp]: "into (v, s) f = (f v, s)"
  by (simp add: into_def)

lemma worse_Fine [simp]: "worse s Fine = s" "worse s t = Fine \<longleftrightarrow> s = Fine \<and> t = Fine"
  by (cases s; simp)+

text \<open>Decoding a member that may have been left out: \<open>y\<close> is the value after it.\<close>

lemma dec_member:
  "(\<not> b \<Longrightarrow> upd k j x = (y, Fine)) \<Longrightarrow> (b \<Longrightarrow> x = y) \<Longrightarrow> dec_fields upd m y = r
     \<Longrightarrow> dec_fields upd (omit b k j @ m) x = r"
  by (cases r) (auto simp: omit_def)

lemmas key_eq_folded [json_dec] = key_eq_def

lemma key_eq_refl [simp]: "key_eq k k"
  by (simp add: key_eq_def)

lemma dec_enc_string [simp]: "valid_utf8 s \<Longrightarrow> dec_string (enc_string s) x = (s, Fine)"
  by (simp add: enc_string_def)

lemma dec_enc_iface [simp]: "wf_any v \<Longrightarrow> dec_iface (enc_any v) x = (v, Fine)"
  by (simp add: dec_iface_def)

lemma dec_enc_f64 [simp]: "canon_float m e \<Longrightarrow> dec_float (enc_float m e) x = ((m, e), Fine)"
  by (simp add: enc_float_def f64_exact)

lemma enc_float_not_null [simp]: "enc_float m e \<noteq> JNull"
  by (simp add: enc_float_def)

lemma enc_string_not_null [simp]: "enc_string s \<noteq> JNull"
  by (simp add: enc_string_def)

lemma enc_any_null [simp]: "enc_any v = JNull \<longleftrightarrow> v = JNull"
  by (cases v) (auto simp: enc_float_def)

lemma dec_elems_enc: "(\<And>v. v \<in> set xs \<Longrightarrow> d (f v) zero = (v, Fine)) \<Longrightarrow> dec_elems zero d (map f xs) = (xs, Fine)"
  by (induction xs) simp_all

lemma dec_enc_slice:
  "pred_option (list_all (\<lambda>v. d (f v) zero = (v, Fine))) xs \<Longrightarrow> dec_slice zero d (enc_slice f xs) x = (xs, Fine)"
  by (cases xs) (simp_all add: dec_slice_def enc_slice_def dec_elems_enc list_all_iff)

lemma dec_enc_strings [simp]:
  "pred_option (list_all valid_utf8) xs \<Longrightarrow> dec_slice zero dec_string (enc_slice enc_string xs) x = (xs, Fine)"
  by (rule dec_enc_slice) (auto simp: list_all_iff pred_option_def)

lemma dec_entries:
  "(\<And>k v. (k, v) \<in> set m \<Longrightarrow> valid_utf8 k \<and> d (f v) zero = (v, Fine))
     \<Longrightarrow> dec_fields (dec_entry zero d) (map (\<lambda>(k, v). (utf8_fix k, f v)) m) x = (map_puts m x, Fine)"
proof (induction m arbitrary: x)
  case (Cons kv m)
  obtain k v where kv: "kv = (k, v)" by fastforce
  then have "valid_utf8 k" "d (f v) zero = (v, Fine)"
    using Cons.prems by auto
  then have "dec_entry zero d (utf8_fix k) (f v) x = (map_put k v x, Fine)"
    by (simp add: dec_entry_def)
  moreover have "dec_fields (dec_entry zero d) (map (\<lambda>(k, v). (utf8_fix k, f v)) m) (map_put k v x)
      = (map_puts m (map_put k v x), Fine)"
    using Cons.prems by (intro Cons.IH) (metis list.set_intros(2))
  ultimately show ?case by (simp add: kv map_puts_Cons)
qed simp

lemma dec_enc_maps:
  assumes "pred_option (\<lambda>m. go_map m \<and> list_all (\<lambda>(k, v). valid_utf8 k \<and> d (f v) zero = (v, Fine)) m) m"
  shows "dec_map zero d (enc_map f m) None = (m, Fine)"
proof (cases m)
  case (Some m')
  then have "dec_fields (dec_entry zero d) (map (\<lambda>(k, v). (utf8_fix k, f v)) m') [] = (map_puts m' [], Fine)"
    using assms by (intro dec_entries) (auto simp: list_all_iff)
  with Some assms show ?thesis by (simp add: dec_map_def enc_map_def map_puts_sorted)
qed (simp add: dec_map_def enc_map_def)

lemma dec_enc_any_map [simp]:
  "pred_option wf_map m \<Longrightarrow> dec_map zero dec_iface (enc_map enc_any m) None = (m, Fine)"
  by (rule dec_enc_maps) (fastforce simp: list_all_iff pred_option_def)

lemma dec_enc_string_map [simp]:
  "pred_option (\<lambda>m. go_map m \<and> list_all (\<lambda>(k, v). valid_utf8 k \<and> valid_utf8 v) m) m
     \<Longrightarrow> dec_map zero dec_string (enc_map enc_string m) None = (m, Fine)"
  by (rule dec_enc_maps) (fastforce simp: list_all_iff pred_option_def)

lemma dec_enc_ptr:
  "pred_option (\<lambda>v. d (f v) zero = (v, Fine) \<and> f v \<noteq> JNull) v \<Longrightarrow> dec_ptr zero d (enc_ptr f v) None = (v, Fine)"
  by (cases v) (simp_all add: dec_ptr_def enc_ptr_def)

lemma dec_enc_bool_ptr [simp]: "dec_ptr zero dec_bool (enc_ptr JBool v) None = (v, Fine)"
  by (rule dec_enc_ptr) (simp add: pred_option_def)

lemma dec_enc_int_ptr [simp]: "pred_option is_int64 v \<Longrightarrow> dec_ptr zero dec_int (enc_ptr JNum v) None = (v, Fine)"
  by (rule dec_enc_ptr) (simp add: pred_option_def)

lemma dec_enc_float_ptr [simp]:
  "pred_option (\<lambda>(m, e). canon_float m e) v \<Longrightarrow> dec_ptr zero dec_float (enc_ptr (\<lambda>(m, e). enc_float m e) v) None = (v, Fine)"
  by (rule dec_enc_ptr) (auto simp: pred_option_def)

text \<open>Decoding an object into a map gives the map of its decoded members.\<close>

lemma dec_any_fields: "dec_fields (dec_entry zero dec_iface) m x = (map_puts (map (\<lambda>(k, v). (k, dec_any v)) m) x, Fine)"
  by (induction m arbitrary: x) (auto simp: dec_entry_def dec_iface_def map_puts_Cons)

lemma dec_map_any: "dec_map zero dec_iface (JObj m) None = (Some (map_puts (map (\<lambda>(k, v). (k, dec_any v)) m) []), Fine)"
  by (simp add: dec_map_def dec_any_fields)

lemma dec_fields_inv:
  "P x \<Longrightarrow> (\<And>k j y. (k, j) \<in> set m \<Longrightarrow> P y \<Longrightarrow> P (fst (upd k j y))) \<Longrightarrow> P (fst (dec_fields upd m x))"
proof (induction m arbitrary: x)
  case (Cons kj m)
  obtain k j where kj: "kj = (k, j)" by fastforce
  obtain y s where y: "upd k j x = (y, s)" by fastforce
  have "P y"
    using Cons.prems(2) [of k j x] Cons.prems(1) y kj by simp
  moreover from this have "P (fst (dec_fields upd m y))"
    by (rule Cons.IH) (use Cons.prems(2) in simp)
  ultimately show ?case by (cases s) (auto simp: kj y split: prod.splits)
qed simp

lemma size_member: "(k, j) \<in> set m \<Longrightarrow> size j < size (JObj m)"
  by (induction m) auto

lemma size_element: "j \<in> set js \<Longrightarrow> size j < size (JArr js)"
  by (induction js) auto

text \<open>A loop over raw elements that stops at the first error.\<close>

fun traverse :: "('a \<Rightarrow> ('e, 'b) result) \<Rightarrow> 'a list \<Rightarrow> ('e, 'b list) result" where
  "traverse f [] = Inr []"
| "traverse f (x # xs) = bindE (f x) (\<lambda>y. bindE (traverse f xs) (\<lambda>ys. Inr (y # ys)))"

lemma traverse_cong [fundef_cong]:
  "xs = ys \<Longrightarrow> (\<And>x. x \<in> set ys \<Longrightarrow> f x = g x) \<Longrightarrow> traverse f xs = traverse g ys"
  by (induction xs arbitrary: ys) auto

lemma enc_slice_cong [fundef_cong]:
  "x = y \<Longrightarrow> (\<And>z ys. y = Some ys \<Longrightarrow> z \<in> set ys \<Longrightarrow> f z = g z) \<Longrightarrow> enc_slice f x = enc_slice g y"
  by (auto simp: enc_slice_def split: option.splits)

section \<open>Decoding by field\<close>

text \<open>No two members of an object select the field \<open>name\<close>, and the one that does has exactly that name.\<close>

definition exact_key :: "string \<Rightarrow> (string \<times> 'a) list \<Rightarrow> bool" where
  "exact_key name m \<longleftrightarrow> (\<forall>k\<in>fst ` set m. key_eq k name \<longrightarrow> k = name)"

lemma exact_key_simps [simp]:
  "exact_key name []" "exact_key name ((k, v) # m) \<longleftrightarrow> (key_eq k name \<longrightarrow> k = name) \<and> exact_key name m"
  by (auto simp: exact_key_def)

text \<open>The final value of a field is decoded from the member of its name.\<close>

lemma dec_fields_field:
  assumes "\<And>k j x. key_eq k name \<Longrightarrow> f (fst (upd k j x)) = fst (d j (f x))"
    and "\<And>k j x. \<not> key_eq k name \<Longrightarrow> f (fst (upd k j x)) = f x"
    and "distinct (map fst m)" "exact_key name m" "snd (dec_fields upd m x) \<noteq> Abort"
  shows "f (fst (dec_fields upd m x)) = (case map_of m name of None \<Rightarrow> f x | Some j \<Rightarrow> fst (d j (f x)))"
  using assms(3-)
proof (induction m arbitrary: x)
  case (Cons kj m)
  obtain k j where kj: "kj = (k, j)" by fastforce
  obtain y s where u: "upd k j x = (y, s)" by fastforce
  have s: "s \<noteq> Abort" and ok: "snd (dec_fields upd m y) \<noteq> Abort"
    and step: "fst (dec_fields upd (kj # m) x) = fst (dec_fields upd m y)"
    using Cons.prems(3) by (cases s; auto simp: kj u split: prod.splits if_splits)+
  have ih: "f (fst (dec_fields upd m y)) = (case map_of m name of None \<Rightarrow> f y | Some j \<Rightarrow> fst (d j (f y)))"
    using Cons.IH [of y] Cons.prems ok by (simp add: kj)
  show ?case
  proof (cases "key_eq k name")
    case True
    then have "k = name" using Cons.prems(2) by (simp add: kj)
    moreover from this have "map_of m name = None"
      using Cons.prems(1) by (simp add: kj map_of_eq_None_iff)
    ultimately show ?thesis using assms(1) [OF True, of j x] ih step u by (simp add: kj)
  next
    case False
    then have "k \<noteq> name" by auto
    then show ?thesis using assms(2) [OF False, of j x] u unfolding step ih by (auto simp: kj split: option.splits)
  qed
qed simp

lemma dec_fields_fine:
  "(\<And>k j x. (k, j) \<in> set m \<Longrightarrow> snd (upd k j x) = Fine) \<Longrightarrow> snd (dec_fields upd m x) = Fine"
proof (induction m arbitrary: x)
  case (Cons kj m)
  obtain k j where kj: "kj = (k, j)" by fastforce
  obtain y s where u: "upd k j x = (y, s)" by fastforce
  have "s = Fine" using Cons.prems [of k j x] u by (simp add: kj)
  moreover have "snd (dec_fields upd m y) = Fine"
    by (rule Cons.IH) (use Cons.prems in \<open>simp add: kj\<close>)
  ultimately show ?case by (auto simp: kj u split: prod.splits)
qed simp

section \<open>Documents that decoding into \<open>any\<close> and encoding keep\<close>

definition norm_json :: "json \<Rightarrow> json" where
  "norm_json v = enc_any (dec_any v)"

fun plain_doc :: "json \<Rightarrow> bool" where
  "plain_doc (JNum n) \<longleftrightarrow> \<bar>n\<bar> < 2 ^ 53"
| "plain_doc (JFloat m e) \<longleftrightarrow> e < 0"
| "plain_doc (JStr s) \<longleftrightarrow> valid_utf8 s"
| "plain_doc (JArr xs) \<longleftrightarrow> list_all plain_doc xs"
| "plain_doc (JObj m) \<longleftrightarrow> go_map m \<and> list_all (\<lambda>(k, v). valid_utf8 k \<and> plain_doc v) m"
| "plain_doc v \<longleftrightarrow> True"

lemma norm_json_plain: "plain_doc v \<Longrightarrow> norm_json v = v"
  unfolding norm_json_def
proof (induction v rule: dec_any.induct)
  case (1 n)
  then have n: "\<bar>n\<bar> < 2 ^ 53" by simp
  from f64_small [OF n] obtain m e where me: "f64 n = JFloat m e" "0 \<le> e" "m * 2 ^ nat e = n" by blast
  moreover have "\<bar>n\<bar> < 10 ^ 21" using n by simp
  ultimately show ?case by (simp add: enc_float_def)
next
  case (3 m)
  have "(\<lambda>(k, v). (utf8_fix k, enc_any v)) ((\<lambda>(k, v). (k, dec_any v)) kv) = kv" if "kv \<in> set m" for kv
    using 3 that by (cases kv) (auto simp: list_all_iff)
  moreover have "map_puts (map (\<lambda>(k, v). (k, dec_any v)) m) [] = map (\<lambda>(k, v). (k, dec_any v)) m"
    using 3 by (intro map_puts_sorted) simp
  ultimately show ?case by (simp add: map_idI)
qed (auto simp: list_all_iff map_idI enc_float_def)

text \<open>Documents have only valid strings.\<close>

fun valid_doc :: "json \<Rightarrow> bool" where
  "valid_doc (JStr s) \<longleftrightarrow> valid_utf8 s"
| "valid_doc (JArr xs) \<longleftrightarrow> list_all valid_doc xs"
| "valid_doc (JObj m) \<longleftrightarrow> list_all (\<lambda>(k, v). valid_utf8 k \<and> valid_doc v) m"
| "valid_doc v \<longleftrightarrow> True"

lemma map_of_fix_keys: "list_all valid_utf8 (map fst m) \<Longrightarrow> map (\<lambda>(k, v). (utf8_fix k, v)) m = m"
  by (induction m) auto

lemma keys_map_puts: "fst ` set (map_puts xs m) = fst ` set xs \<union> fst ` set m"
proof (induction xs arbitrary: m)
  case (Cons x xs)
  then show ?case by (cases x) (auto simp: map_puts_Cons keys_map_put)
qed simp

lemma map_of_if: "map_of (if b then [(k, v)] else []) k' = (if b \<and> k' = k then Some v else None)"
  by simp

lemma dec_fields_fineD: "snd (dec_fields upd m x) = Fine \<Longrightarrow> (k, j) \<in> set m \<Longrightarrow> \<exists>y. snd (upd k j y) = Fine"
proof (induction m arbitrary: x)
  case (Cons kj m)
  obtain k' j' where kj: "kj = (k', j')" by fastforce
  obtain y s where u: "upd k' j' x = (y, s)" by fastforce
  have "s = Fine" "snd (dec_fields upd m y) = Fine"
    using Cons.prems(1) by (cases s; auto simp: kj u split: prod.splits if_splits)+
  then show ?case
    using Cons.IH [of y] Cons.prems(2) u by (auto simp: kj) (metis snd_conv)
qed simp

lemma dec_fields_member_fine: "snd (dec_fields upd m x) = Fine \<Longrightarrow> map_of m k = Some j \<Longrightarrow> \<exists>y. snd (upd k j y) = Fine"
  by (rule dec_fields_fineD) (auto dest: map_of_SomeD)

lemma dec_string_fine: "snd (dec_string j x) = Fine \<longleftrightarrow> j = JNull \<or> (\<exists>s. j = JStr s)"
  by (cases j) auto

lemma dec_map_any_fine: "snd (dec_map zero dec_iface j x) = Fine \<longleftrightarrow> j = JNull \<or> (\<exists>m. j = JObj m)"
  by (cases j) (auto simp: dec_map_def dec_any_fields)

lemma dec_strings_fine:
  "snd (dec_slice z dec_string j x) = Fine \<longleftrightarrow> j = JNull \<or> (\<exists>js. j = JArr js \<and> (\<forall>i\<in>set js. i = JNull \<or> (\<exists>s. i = JStr s)))"
proof -
  have "snd (dec_elems z dec_string js) = Fine \<longleftrightarrow> (\<forall>i\<in>set js. i = JNull \<or> (\<exists>s. i = JStr s))" for js
  proof (induction js)
    case (Cons i js)
    then show ?case by (cases i) (auto split: prod.splits if_splits)
  qed simp
  then show ?thesis by (cases j) (auto simp: dec_slice_def into_def)
qed

lemma dec_strings_value:
  "snd (dec_elems [] dec_string js) = Fine
     \<Longrightarrow> fst (dec_elems [] dec_string js) = map (\<lambda>i. case i of JStr s \<Rightarrow> s | _ \<Rightarrow> []) js"
proof (induction js)
  case (Cons i js)
  then show ?case by (cases i) (auto split: prod.splits if_splits)
qed simp

lemma f64_not_null [simp]: "f64 n \<noteq> JNull"
  by (simp add: f64_def Let_def split: prod.splits)

lemma dec_any_null [simp]: "dec_any j = JNull \<longleftrightarrow> j = JNull"
  by (cases j) auto

lemma dec_slice_empty: "dec_slice z d (JArr []) x = (Some [], Fine)"
  by (simp add: dec_slice_def)

lemma map_of_omit: "map_of (omit b k v @ m) k' = (if \<not> b \<and> k' = k then Some v else map_of m k')"
  by (simp add: omit_def)

lemma map_of_omit_last: "map_of (omit b k v) k' = (if \<not> b \<and> k' = k then Some v else None)"
  by (simp add: omit_def)

lemma keys_omit: "fst ` set (omit b k v) = (if b then {} else {k})"
  by (simp add: omit_def)

lemma distinct_omit: "distinct (map fst (omit b k v))"
  by (simp add: omit_def)

lemma omit_in: "x \<in> set (omit b k v) \<longleftrightarrow> \<not> b \<and> x = (k, v)"
  by (simp add: omit_def)

lemma dec_ptr_status: "snd (dec_ptr z d j x) = (if j = JNull then Fine else snd (d j (case x of None \<Rightarrow> z | Some y \<Rightarrow> y)))"
  by (simp add: dec_ptr_def into_def)

lemma dec_enc_string_fine [simp]: "snd (dec_string (enc_string s) x) = Fine"
  by (simp add: enc_string_def)

lemma map_of_decoded:
  assumes "distinct (map fst m)"
  shows "map_of (map_puts (map (\<lambda>(k, v). (k, dec_any v)) m) []) = map_option dec_any \<circ> map_of m"
proof -
  have "distinct (map fst (map (\<lambda>(k, v). (k, dec_any v)) m))" using assms by (simp add: comp_def case_prod_unfold)
  then show ?thesis by (simp add: map_of_puts map_of_rev_distinct map_of_map)
qed

lemma dec_map_lookup:
  "distinct (map fst m) \<Longrightarrow> \<exists>raw. dec_map JNull dec_iface (JObj m) None = (Some raw, Fine) \<and> map_of raw = map_option dec_any \<circ> map_of m"
  by (simp add: dec_map_any map_of_decoded)

end
