(* ===== verification/Plugin_Dir.thy ===== *)
theory Plugin_Dir
  imports Skill_Dir Go_Json
begin

text \<open>
  Reading a plugin directory (\<open>oci/plugins/packager.go\<close>): the manifest, the walk over the directory with its limits, and the
  inventory of components and dependencies.

  Directory trees and \<open>filepath.WalkDir\<close> are those of \<open>Skill_Dir\<close>; \<open>perm\<close> gives the permission bits that \<open>Lstat\<close> reports for a path. The
  manifest is a document tree (\<open>Go_Json\<close>): \<open>parse\<close> is the JSON syntax, the decoder of the struct is modelled. A \<open>json.RawMessage\<close> is
  the document of its member, \<open>None\<close> if there is none.
\<close>

section \<open>The manifest\<close>

abbreviation ManifestFileName :: string where "ManifestFileName \<equiv> ''.claude-plugin/plugin.json''"

definition maxManifestSize :: nat where "maxManifestSize = 64 * 1024"
definition maxPluginFiles :: nat where "maxPluginFiles = 1000"
definition maxPluginTotalSize :: int where "maxPluginTotalSize = 95 * 1024 * 1024"

record pluginManifest =
  pm_Name :: string
  pm_Description :: string
  pm_Version :: string
  pm_License :: string
  pm_Commands :: "json option"
  pm_Agents :: "json option"
  pm_Skills :: "json option"
  pm_Hooks :: "json option"
  pm_MCPServers :: "json option"
  pm_LSPServers :: "json option"
  pm_Dependencies :: "json option"
  pm_Requires :: "json option"

definition zero_pluginManifest :: pluginManifest where
  "zero_pluginManifest = \<lparr>pm_Name = [], pm_Description = [], pm_Version = [], pm_License = [], pm_Commands = None, pm_Agents = None,
     pm_Skills = None, pm_Hooks = None, pm_MCPServers = None, pm_LSPServers = None, pm_Dependencies = None, pm_Requires = None\<rparr>"

definition upd_pluginManifest :: "string \<Rightarrow> pluginManifest decoder" where
  "upd_pluginManifest k j x =
     (if key_eq k ''name'' then into (dec_string j (pm_Name x)) (\<lambda>v. x\<lparr>pm_Name := v\<rparr>)
      else if key_eq k ''description'' then into (dec_string j (pm_Description x)) (\<lambda>v. x\<lparr>pm_Description := v\<rparr>)
      else if key_eq k ''version'' then into (dec_string j (pm_Version x)) (\<lambda>v. x\<lparr>pm_Version := v\<rparr>)
      else if key_eq k ''license'' then into (dec_string j (pm_License x)) (\<lambda>v. x\<lparr>pm_License := v\<rparr>)
      else if key_eq k ''commands'' then into (dec_raw j (pm_Commands x)) (\<lambda>v. x\<lparr>pm_Commands := v\<rparr>)
      else if key_eq k ''agents'' then into (dec_raw j (pm_Agents x)) (\<lambda>v. x\<lparr>pm_Agents := v\<rparr>)
      else if key_eq k ''skills'' then into (dec_raw j (pm_Skills x)) (\<lambda>v. x\<lparr>pm_Skills := v\<rparr>)
      else if key_eq k ''hooks'' then into (dec_raw j (pm_Hooks x)) (\<lambda>v. x\<lparr>pm_Hooks := v\<rparr>)
      else if key_eq k ''mcpServers'' then into (dec_raw j (pm_MCPServers x)) (\<lambda>v. x\<lparr>pm_MCPServers := v\<rparr>)
      else if key_eq k ''lspServers'' then into (dec_raw j (pm_LSPServers x)) (\<lambda>v. x\<lparr>pm_LSPServers := v\<rparr>)
      else if key_eq k ''dependencies'' then into (dec_raw j (pm_Dependencies x)) (\<lambda>v. x\<lparr>pm_Dependencies := v\<rparr>)
      else if key_eq k ''requires'' then into (dec_raw j (pm_Requires x)) (\<lambda>v. x\<lparr>pm_Requires := v\<rparr>)
      else (x, Fine))"

datatype plugin_error =
    ErrInvalidPluginDir string | ErrPluginManifestMissing | ErrInvalidPluginManifest string | ParsingManifest plugin_error
  | CheckingManifest string | ReadingManifest string | ErrPluginTooManyFiles | ErrPluginTooLarge | ErrInvalidPluginFile string
  | ReadingPluginFile string string | CheckingPluginFile string string | PluginWalkError string | WalkingPluginDir plugin_error

definition parseManifest :: "(string \<Rightarrow> json option) \<Rightarrow> bytes \<Rightarrow> (plugin_error, pluginManifest) result" where
  "parseManifest parse content =
     (let content = trim_space (str_of content) in
      if length content > maxManifestSize then Inl (ErrInvalidPluginManifest ''exceeds maximum size'')
      else case parse content of
        None \<Rightarrow> Inl (ErrInvalidPluginManifest ''parsing manifest JSON'')
      | Some j \<Rightarrow>
          (case dec_struct upd_pluginManifest j zero_pluginManifest of
             (pm, Fine) \<Rightarrow> Inr pm
           | _ \<Rightarrow> Inl (ErrInvalidPluginManifest ''parsing manifest JSON'')))"

section \<open>Components and dependencies\<close>

definition jsonComponentCount :: "json \<Rightarrow> nat" where
  "jsonComponentCount raw =
     (case raw of
        JArr arr \<Rightarrow> length arr
      | JNull \<Rightarrow> 0
      | JObj obj \<Rightarrow> card (fst ` set obj)
      | _ \<Rightarrow> 1)"

type_synonym ComponentInventory = "(string \<times> int) list option"

definition addCount :: "string \<Rightarrow> json option \<Rightarrow> (string \<times> int) list \<Rightarrow> (string \<times> int) list" where
  "addCount name raw components =
     (case raw of
        None \<Rightarrow> components
      | Some raw \<Rightarrow> if jsonComponentCount raw > 0 then map_put name (int (jsonComponentCount raw)) components else components)"

definition componentInventory :: "pluginManifest \<Rightarrow> ComponentInventory" where
  "componentInventory pm =
     (let components = addCount ''lspServers'' (pm_LSPServers pm) (addCount ''mcpServers'' (pm_MCPServers pm)
            (addCount ''hooks'' (pm_Hooks pm) (addCount ''skills'' (pm_Skills pm)
              (addCount ''agents'' (pm_Agents pm) (addCount ''commands'' (pm_Commands pm) [])))))
      in if components = [] then None else Some components)"

definition stringArray :: "json option \<Rightarrow> string list option" where
  "stringArray raw =
     (case raw of
        None \<Rightarrow> None
      | Some j \<Rightarrow>
          (case dec_slice [] dec_string j None of
             (refs, Fine) \<Rightarrow> refs
           | _ \<Rightarrow>
               (case dec_map [] dec_string j None of
                  (obj, Fine) \<Rightarrow> Some (filter (\<lambda>ref. ref \<noteq> []) (map snd (case obj of None \<Rightarrow> [] | Some m \<Rightarrow> m)))
                | _ \<Rightarrow> None)))"

text \<open>Appending nothing leaves a slice as it is, nil included.\<close>

definition append_slice :: "'a list option \<Rightarrow> 'a list option \<Rightarrow> 'a list option" where
  "append_slice xs ys =
     (case ys of
        None \<Rightarrow> xs
      | Some [] \<Rightarrow> xs
      | Some ys \<Rightarrow> Some ((case xs of None \<Rightarrow> [] | Some xs \<Rightarrow> xs) @ ys))"

definition plugin_requires :: "pluginManifest \<Rightarrow> string list option" where
  "plugin_requires pm =
     map_option (\<lambda>refs. remdups_adj (sort refs)) (append_slice (stringArray (pm_Requires pm)) (stringArray (pm_Dependencies pm)))"

section \<open>Walking the directory\<close>

type_synonym plugin_files = "(string \<times> (bytes \<times> int)) list"

definition isHiddenPath :: "string \<Rightarrow> bool" where
  "isHiddenPath relPath \<longleftrightarrow> list_ex hidden (split_on CHR ''/'' relPath)"

definition isAllowedHiddenPluginFile :: "string \<Rightarrow> bool" where
  "isAllowedHiddenPluginFile relPath \<longleftrightarrow> relPath = ''.mcp.json'' \<or> relPath = ManifestFileName"

definition validatePluginFile :: "node \<Rightarrow> string \<Rightarrow> plugin_error option" where
  "validatePluginFile d relPath = (case d of
      NGone e \<Rightarrow> Some (CheckingPluginFile relPath e)
    | NLink \<Rightarrow> Some (ErrInvalidPluginFile relPath)
    | NFile _ \<Rightarrow> None
    | _ \<Rightarrow> Some (ErrInvalidPluginFile relPath))"

definition collectPluginFile ::
  "(string list \<Rightarrow> int) \<Rightarrow> string list \<Rightarrow> node \<Rightarrow> plugin_files \<times> int \<Rightarrow> plugin_error walk_ret \<times> plugin_files \<times> int" where
  "collectPluginFile perm names d acc =
     (let relPath = rel_path names; (files, totalSize) = acc in
      if d = NLink then (WErr (ErrInvalidPluginFile relPath), acc)
      else if is_dir d then (if hidden (last names) \<and> relPath \<noteq> ''.claude-plugin'' then WSkipDir else WNil, acc)
      else (case validatePluginFile d relPath of
        Some e \<Rightarrow> (WErr e, acc)
      | None \<Rightarrow>
          if isHiddenPath relPath \<and> \<not> isAllowedHiddenPluginFile relPath then (WNil, acc)
          else if relPath = ManifestFileName then (WNil, acc)
          else if length files \<ge> maxPluginFiles then (WErr ErrPluginTooManyFiles, acc)
          else (case d of
            NFile (Inl e) \<Rightarrow> (WErr (ReadingPluginFile relPath e), acc)
          | NFile (Inr content) \<Rightarrow>
              (let totalSize = totalSize + int (length content) in
               if totalSize > maxPluginTotalSize then (WErr ErrPluginTooLarge, (files, totalSize))
               else (WNil, (AList.update relPath (content, perm names) files, totalSize)))
          | _ \<Rightarrow> (WNil, acc))))"

definition plugin_walk_fn ::
  "(string list \<Rightarrow> int) \<Rightarrow> string list \<Rightarrow> node \<Rightarrow> string option \<Rightarrow> plugin_files \<times> int \<Rightarrow> plugin_error walk_ret \<times> plugin_files \<times> int" where
  "plugin_walk_fn perm names d walkErr acc =
     (case walkErr of
        Some e \<Rightarrow> (WErr (PluginWalkError e), acc)
      | None \<Rightarrow> if names = [] then (WNil, acc) else collectPluginFile perm names d acc)"

definition collectPluginFiles :: "(string list \<Rightarrow> int) \<Rightarrow> node \<Rightarrow> (plugin_error, plugin_files) result" where
  "collectPluginFiles perm root =
     (case walkDir (plugin_walk_fn perm) [] root ([], 0) of
        (WErr e, _) \<Rightarrow> Inl (WalkingPluginDir e)
      | (_, (files, _)) \<Rightarrow> Inr files)"

section \<open>The whole directory\<close>

text \<open>What \<open>Lstat\<close> says of the manifest: a regular file or not, and its size.\<close>

record plugin_fs =
  pf_Stat :: "string \<Rightarrow> (io_err, bool) result"
  pf_LstatFile :: "string \<Rightarrow> (io_err, bool \<times> int) result"
  pf_ReadFile :: "string \<Rightarrow> (io_err, bytes) result"
  pf_Lstat :: "string \<Rightarrow> (string, node) result"
  pf_Perm :: "string \<Rightarrow> string list \<Rightarrow> int"

definition validatePluginDir :: "plugin_fs \<Rightarrow> string \<Rightarrow> plugin_error option" where
  "validatePluginDir F dir =
     (case pf_Stat F dir of
        Inl NotExist \<Rightarrow> Some (ErrInvalidPluginDir ''not found'')
      | Inl (IOErr e) \<Rightarrow> Some (ErrInvalidPluginDir e)
      | Inr isDir \<Rightarrow>
          if \<not> isDir then Some (ErrInvalidPluginDir ''not a directory'')
          else if \<not> path_is_abs (path_clean dir) then Some (ErrInvalidPluginDir ''must be an absolute path'')
          else None)"

definition check_manifest :: "plugin_fs \<Rightarrow> string \<Rightarrow> plugin_error option" where
  "check_manifest F manifestPath =
     (case pf_LstatFile F manifestPath of
        Inl NotExist \<Rightarrow> Some ErrPluginManifestMissing
      | Inl (IOErr e) \<Rightarrow> Some (CheckingManifest e)
      | Inr (regular, sz) \<Rightarrow>
          if \<not> regular then Some (ErrInvalidPluginFile ManifestFileName)
          else if sz > int maxManifestSize then Some (ErrInvalidPluginManifest ''exceeds maximum size'')
          else None)"

record pluginDirContent =
  pd_manifest :: bytes
  pd_files :: plugin_files
  pd_pm :: pluginManifest

definition readPluginDirectory :: "(string \<Rightarrow> json option) \<Rightarrow> plugin_fs \<Rightarrow> string \<Rightarrow> (plugin_error, pluginDirContent) result" where
  "readPluginDirectory parse F dir =
     (let manifestPath = filepath_Join [dir, ManifestFileName] in
      case validatePluginDir F dir of
        Some e \<Rightarrow> Inl e
      | None \<Rightarrow>
          (case check_manifest F manifestPath of
             Some e \<Rightarrow> Inl e
           | None \<Rightarrow>
               (case pf_ReadFile F manifestPath of
                  Inl NotExist \<Rightarrow> Inl ErrPluginManifestMissing
                | Inl (IOErr e) \<Rightarrow> Inl (ReadingManifest e)
                | Inr manifest \<Rightarrow>
                    bindE (map_err ParsingManifest (parseManifest parse manifest)) (\<lambda>pm.
                      if pm_Name pm = [] then Inl (ErrInvalidPluginManifest ''plugin name is required'')
                      else bindE (case pf_Lstat F dir of
                               Inl e \<Rightarrow> Inl (WalkingPluginDir (PluginWalkError e))
                             | Inr root \<Rightarrow> collectPluginFiles (pf_Perm F dir) root)
                           (\<lambda>files. Inr \<lparr>pd_manifest = manifest, pd_files = files, pd_pm = pm\<rparr>)))))"

section \<open>What a walk meets\<close>

text \<open>The leaves and unreadable directories of a walk that enters every directory but those \<open>skip\<close> names.\<close>

function (sequential) met :: "(string list \<Rightarrow> bool) \<Rightarrow> string list \<Rightarrow> node \<Rightarrow> event list"
  and met_entries :: "(string list \<Rightarrow> bool) \<Rightarrow> string list \<Rightarrow> (string \<times> node) list \<Rightarrow> event list" where
  "met skip p (NDir es (Some e)) = [BadDir e]"
| "met skip p (NDir es None) = met_entries skip p es"
| "met skip p d = [Leaf p d]"
| "met_entries skip p [] = []"
| "met_entries skip p ((n, d) # es) = (if is_dir d \<and> skip (p @ [n]) then [] else met skip (p @ [n]) d) @ met_entries skip p es"
  by pat_completeness auto
termination
  by (relation "measure (\<lambda>x. case x of Inl (_, _, d) \<Rightarrow> size d
        | Inr (_, _, es) \<Rightarrow> size_list (size_prod (\<lambda>_. 0) size) es)") auto

fun visit_all :: "(event \<Rightarrow> 'a \<Rightarrow> 'e walk_ret \<times> 'a) \<Rightarrow> event list \<Rightarrow> 'a \<Rightarrow> 'e walk_ret \<times> 'a" where
  "visit_all f [] a = (WNil, a)"
| "visit_all f (e # es) a = (case f e a of (WNil, a) \<Rightarrow> visit_all f es a | (r, a) \<Rightarrow> (r, a))"

lemma visit_all_append:
  "visit_all f (xs @ ys) a = (case visit_all f xs a of (WNil, a) \<Rightarrow> visit_all f ys a | (r, a) \<Rightarrow> (r, a))"
  by (induction xs arbitrary: a) (auto split: prod.split walk_ret.split)

lemma visit_all_no_skip: "(\<And>e a. e \<in> set es \<Longrightarrow> fst (f e a) \<noteq> WSkipDir) \<Longrightarrow> fst (visit_all f es a) \<noteq> WSkipDir"
proof (induction es arbitrary: a)
  case (Cons e es)
  obtain r b where r: "f e a = (r, b)" by fastforce
  then have "r \<noteq> WSkipDir" using Cons.prems [of e a] by simp
  with Cons r show ?case by (auto split: walk_ret.split)
qed simp

lemma met_leaves:
  "Leaf q d' \<in> set (met skip p d) \<Longrightarrow> \<not> is_dir d'"
  "Leaf q d' \<in> set (met_entries skip p es) \<Longrightarrow> \<not> is_dir d'"
  by (induction skip p d and skip p es rule: met_met_entries.induct) (auto simp: is_dir_def split: if_splits)

text \<open>A callback that decides on directories by \<open>skip\<close> alone and never skips at a file visits exactly these events, in order.\<close>

definition visit :: "(string list \<Rightarrow> node \<Rightarrow> string option \<Rightarrow> 'a \<Rightarrow> 'e walk_ret \<times> 'a) \<Rightarrow> (string \<Rightarrow> 'e) \<Rightarrow> event \<Rightarrow> 'a \<Rightarrow> 'e walk_ret \<times> 'a" where
  "visit fn bad e a = (case e of Leaf p d \<Rightarrow> fn p d None a | BadDir x \<Rightarrow> (WErr (bad x), a))"

lemma walk_met:
  assumes "\<And>p es err a. fn p (NDir es err) None a = (if skip p then WSkipDir else WNil, a)"
    and "\<And>p es err x a. fn p (NDir es err) (Some x) a = (WErr (bad x), a)"
    and "\<And>p d a. \<not> is_dir d \<Longrightarrow> fst (fn p d None a) \<noteq> WSkipDir"
  shows "\<not> (is_dir d \<and> skip p) \<Longrightarrow> walkDir fn p d a = visit_all (visit fn bad) (met skip p d) a"
    and "walkEntries fn p es a' = visit_all (visit fn bad) (met_entries skip p es) a'"
proof -
  have "s = skip \<Longrightarrow> \<not> (is_dir d \<and> s p) \<Longrightarrow> walkDir fn p d a = visit_all (visit fn bad) (met s p d) a"
    "s = skip \<Longrightarrow> walkEntries fn p es a' = visit_all (visit fn bad) (met_entries s p es) a'" for s
  proof (induction s p d and s p es arbitrary: a and a' rule: met_met_entries.induct)
    case (1 s p es e)
    then show ?case by (simp add: assms(1,2) is_dir_def visit_def)
  next
    case (2 s p es)
    then show ?case by (simp add: assms(1) is_dir_def)
  next
    case (5 s p n d es)
    have no_skip: "fst (visit_all (visit fn bad) (met s (p @ [n]) d) b) \<noteq> WSkipDir" for b
      using met_leaves(1) assms(3) by (intro visit_all_no_skip) (auto simp: visit_def split: event.splits)
    show ?case
    proof (cases "is_dir d \<and> s (p @ [n])")
      case True
      then obtain es' err where "d = NDir es' err" by (auto simp: is_dir_def split: node.splits)
      with True 5 show ?thesis by (simp add: assms(1))
    next
      case False
      with 5 no_skip [of a'] show ?thesis by (auto simp: visit_all_append split: prod.split walk_ret.split)
    qed
  qed (auto simp: visit_def split: prod.split walk_ret.split)
  then show "\<not> (is_dir d \<and> skip p) \<Longrightarrow> walkDir fn p d a = visit_all (visit fn bad) (met skip p d) a"
    "walkEntries fn p es a' = visit_all (visit fn bad) (met_entries skip p es) a'" by blast+
qed

definition plain_names :: "string list \<Rightarrow> bool" where
  "plain_names ns \<longleftrightarrow> (\<forall>n \<in> set ns. plain n)"

lemma met_paths:
  "wf_node d \<Longrightarrow> (\<forall>q \<in> set (leaf_paths (met skip p d)). \<exists>r. q = p @ r \<and> plain_names r \<and> (is_dir d \<longrightarrow> r \<noteq> [])) \<and>
     distinct (leaf_paths (met skip p d))"
  "distinct (map fst es) \<Longrightarrow> (\<forall>x \<in> set es. plain (fst x) \<and> wf_node (snd x)) \<Longrightarrow>
     (\<forall>q \<in> set (leaf_paths (met_entries skip p es)). \<exists>n r. n \<in> fst ` set es \<and> q = p @ n # r \<and> plain_names (n # r)) \<and>
     distinct (leaf_paths (met_entries skip p es))"
proof (induction skip p d and skip p es rule: met_met_entries.induct)
  case (2 skip p es)
  then show ?case by (fastforce simp: is_dir_def)
next
  case (5 skip p n d es)
  define H where "H = (if is_dir d \<and> skip (p @ [n]) then [] else met skip (p @ [n]) d)"
  have tl: "\<forall>q \<in> set (leaf_paths (met_entries skip p es)). \<exists>n r. n \<in> fst ` set es \<and> q = p @ n # r \<and> plain_names (n # r)"
    "distinct (leaf_paths (met_entries skip p es))" using 5 by simp_all
  have hd: "\<forall>q \<in> set (leaf_paths H). \<exists>r. q = p @ n # r \<and> plain_names (n # r)" "distinct (leaf_paths H)"
  proof -
    have IH: "(\<forall>q \<in> set (leaf_paths (met skip (p @ [n]) d)). \<exists>r. q = (p @ [n]) @ r \<and> plain_names r) \<and> distinct (leaf_paths (met skip (p @ [n]) d))"
      if "\<not> (is_dir d \<and> skip (p @ [n]))" using 5(1) [OF that] 5(4) by fastforce
    have "plain n" using 5(4) by simp
    then show "\<forall>q \<in> set (leaf_paths H). \<exists>r. q = p @ n # r \<and> plain_names (n # r)" "distinct (leaf_paths H)"
      using IH by (auto simp: plain_names_def H_def)
  qed
  have "set (leaf_paths H) \<inter> set (leaf_paths (met_entries skip p es)) = {}"
  proof (rule equals0I)
    fix q assume "q \<in> set (leaf_paths H) \<inter> set (leaf_paths (met_entries skip p es))"
    then obtain r n' r' where "q = p @ n # r" "q = p @ n' # r'" "n' \<in> fst ` set es"
      using bspec [OF hd(1), of q] bspec [OF tl(1), of q] by (elim IntE) blast
    then show False using 5(3) by simp
  qed
  moreover have "\<exists>n' r. n' \<in> fst ` set ((n, d) # es) \<and> q = p @ n' # r \<and> plain_names (n' # r)"
    if "q \<in> set (leaf_paths H) \<or> q \<in> set (leaf_paths (met_entries skip p es))" for q
    using that hd(1) tl(1) by (metis fst_conv image_insert insertCI list.simps(15))
  ultimately show ?case using hd(2) tl(2) by (auto simp: H_def [symmetric])
qed (simp_all add: plain_names_def is_dir_def)

lemma rel_path_names:
  assumes "plain_names p" "p \<noteq> []"
  shows "split_on CHR ''/'' (rel_path p) = p"
  unfolding rel_path_def using assms by (intro split_join) (auto simp: plain_names_def plain_def)

text \<open>A visitor that adds at most one file per event under its path, within limits on their number and their total weight.\<close>

definition weight :: "('v \<Rightarrow> int) \<Rightarrow> (string \<times> 'v) list \<Rightarrow> int" where
  "weight w fs = sum_list (map (w \<circ> snd) fs)"

lemma weight_simps [simp]: "weight w [] = 0" "weight w (f # fs) = w (snd f) + weight w fs" "weight w (fs @ gs) = weight w fs + weight w gs"
  by (simp_all add: weight_def)

lemma visit_collect:
  assumes "\<And>p d fs t r. Leaf p d \<in> set evs \<Longrightarrow> rel_path p \<notin> fst ` set fs \<Longrightarrow> f (Leaf p d) (fs, t) = (WNil, r) \<longleftrightarrow>
      ok (Leaf p d) \<and> r = (fs @ pick (Leaf p d), t + weight w (pick (Leaf p d))) \<and>
      (pick (Leaf p d) \<noteq> [] \<longrightarrow> length fs < maxF \<and> t + weight w (pick (Leaf p d)) \<le> maxT)"
    and "\<And>x a. BadDir x \<in> set evs \<Longrightarrow> fst (f (BadDir x) a) \<noteq> WNil \<and> \<not> ok (BadDir x)"
    and "\<And>p d. pick (Leaf p d) = [] \<or> (\<exists>v. pick (Leaf p d) = [(rel_path p, v)])" "\<And>v. w v \<ge> 0"
    and "distinct (map fst fs @ map rel_path (leaf_paths evs))" "length fs \<le> maxF" "t \<le> maxT"
  shows "visit_all f evs (fs, t) = (WNil, r) \<longleftrightarrow>
     (\<forall>e \<in> set evs. ok e) \<and> r = (fs @ concat (map pick evs), t + weight w (concat (map pick evs))) \<and>
     length fs + length (concat (map pick evs)) \<le> maxF \<and> t + weight w (concat (map pick evs)) \<le> maxT"
  using assms(1,2,5,6,7)
proof (induction evs arbitrary: fs t)
  case (Cons e evs)
  have nonneg: "weight w gs \<ge> 0" for gs using assms(4) by (induction gs) (simp_all add: add_nonneg_nonneg)
  show ?case
  proof (cases e)
    case (BadDir x)
    then have "fst (f e (fs, t)) \<noteq> WNil" "\<not> ok e" using Cons.prems(2) by auto
    then show ?thesis by (auto split: prod.splits walk_ret.splits)
  next
    case (Leaf p d)
    let ?fs = "fs @ pick e" and ?t = "t + weight w (pick e)"
    have one: "pick e = [] \<or> (\<exists>v. pick e = [(rel_path p, v)])" using assms(3) Leaf by simp
    have step: "f e (fs, t) = (WNil, r) \<longleftrightarrow> ok e \<and> r = (?fs, ?t) \<and> (pick e \<noteq> [] \<longrightarrow> length fs < maxF \<and> ?t \<le> maxT)" for r
      using Cons.prems(1) [of p d fs t r] Cons.prems(3) Leaf by auto
    show ?thesis
    proof (cases "ok e \<and> (pick e \<noteq> [] \<longrightarrow> length fs < maxF \<and> ?t \<le> maxT)")
      case True
      then have "f e (fs, t) = (WNil, (?fs, ?t))" by (simp add: step)
      moreover have "visit_all f evs (?fs, ?t) = (WNil, r) \<longleftrightarrow> (\<forall>e \<in> set evs. ok e) \<and>
          r = (?fs @ concat (map pick evs), ?t + weight w (concat (map pick evs))) \<and>
          length ?fs + length (concat (map pick evs)) \<le> maxF \<and> ?t + weight w (concat (map pick evs)) \<le> maxT"
      proof (rule Cons.IH)
        show "distinct (map fst ?fs @ map rel_path (leaf_paths evs))" using Cons.prems(3) one Leaf by auto (metis fst_conv image_eqI)
      qed (use Cons.prems one True in auto)
      ultimately show ?thesis using True by (simp add: add.assoc)
    next
      case False
      then have "fst (f e (fs, t)) \<noteq> WNil" using step by (metis prod.collapse)
      then have "visit_all f (e # evs) (fs, t) \<noteq> (WNil, r)" by (auto split: prod.splits walk_ret.splits)
      moreover have "\<not> (ok e \<and> length fs + length (concat (map pick (e # evs))) \<le> maxF \<and>
          t + weight w (concat (map pick (e # evs))) \<le> maxT)"
        using False one nonneg [of "concat (map pick evs)"] by auto
      ultimately show ?thesis by auto
    qed
  qed
qed auto

section \<open>The walk collects exactly the packaged files\<close>

definition plugin_skip :: "string list \<Rightarrow> bool" where
  "plugin_skip p \<longleftrightarrow> p \<noteq> [] \<and> hidden (last p) \<and> rel_path p \<noteq> ''.claude-plugin''"

text \<open>The paths that are checked but not packaged: hidden ones, except \<open>.mcp.json\<close>, and the manifest, which is packaged on its own.\<close>

definition left_out :: "string \<Rightarrow> bool" where
  "left_out relPath \<longleftrightarrow> isHiddenPath relPath \<and> relPath \<noteq> ''.mcp.json''"

definition plugin_ok :: "event \<Rightarrow> bool" where
  "plugin_ok e = (case e of Leaf p (NFile c) \<Rightarrow> left_out (rel_path p) \<or> is_ok c | _ \<Rightarrow> False)"

definition plugin_pick :: "(string list \<Rightarrow> int) \<Rightarrow> event \<Rightarrow> plugin_files" where
  "plugin_pick perm e = (case e of
      Leaf p (NFile (Inr c)) \<Rightarrow> if left_out (rel_path p) then [] else [(rel_path p, (c, perm p))]
    | _ \<Rightarrow> [])"

abbreviation file_weight :: "bytes \<times> int \<Rightarrow> int" where
  "file_weight \<equiv> \<lambda>f. int (length (fst f))"

lemma hidden_path: "hidden r \<Longrightarrow> isHiddenPath r"
  by (cases r) (auto simp: isHiddenPath_def hidden_def)

lemma left_out_iff:
  "left_out r \<longleftrightarrow> isHiddenPath r \<and> \<not> isAllowedHiddenPluginFile r \<or> r = ManifestFileName"
proof -
  have "isHiddenPath ManifestFileName" by (rule hidden_path) (simp add: hidden_def)
  then show ?thesis by (auto simp: left_out_def isAllowedHiddenPluginFile_def)
qed

lemma plugin_leaf:
  assumes "p \<noteq> []" "\<not> is_dir d" "rel_path p \<notin> fst ` set fs"
  shows "plugin_walk_fn perm p d None (fs, t) = (WNil, r) \<longleftrightarrow>
     plugin_ok (Leaf p d) \<and> r = (fs @ plugin_pick perm (Leaf p d), t + weight file_weight (plugin_pick perm (Leaf p d))) \<and>
     (plugin_pick perm (Leaf p d) \<noteq> [] \<longrightarrow>
        length fs < maxPluginFiles \<and> t + weight file_weight (plugin_pick perm (Leaf p d)) \<le> maxPluginTotalSize)"
proof (cases d)
  case (NFile c)
  then show ?thesis using assms
    by (cases c) (auto simp: plugin_walk_fn_def collectPluginFile_def plugin_ok_def plugin_pick_def left_out_iff validatePluginFile_def
        is_dir_def update_fresh Let_def)
qed (use assms in \<open>auto simp: plugin_walk_fn_def collectPluginFile_def plugin_ok_def validatePluginFile_def is_dir_def Let_def\<close>)

lemma plugin_no_skip: "\<not> is_dir d \<Longrightarrow> fst (plugin_walk_fn perm p d None a) \<noteq> WSkipDir"
  by (auto simp: plugin_walk_fn_def collectPluginFile_def Let_def split: prod.splits option.splits node.splits sum.splits)

lemma plugin_walk:
  "walkDir (plugin_walk_fn perm) [] d a = visit_all (visit (plugin_walk_fn perm) PluginWalkError) (met plugin_skip [] d) a"
  by (rule walk_met) (auto simp: plugin_no_skip, auto simp: plugin_walk_fn_def collectPluginFile_def plugin_skip_def is_dir_def Let_def split: prod.splits)

lemma collect_plugin:
  fixes es :: "(string \<times> node) list" and err :: "string option"
  defines "evs \<equiv> met plugin_skip [] (NDir es err)"
  assumes "wf_node (NDir es err)"
  shows "collectPluginFiles perm (NDir es err) = Inr files \<longleftrightarrow> (\<forall>e \<in> set evs. plugin_ok e) \<and>
      files = concat (map (plugin_pick perm) evs) \<and> length files \<le> 1000 \<and> weight file_weight files \<le> 99614720"
    and "distinct (map fst (concat (map (plugin_pick perm) evs)))"
    and "f \<in> set (concat (map (plugin_pick perm) evs)) \<Longrightarrow>
      \<exists>names c. names \<noteq> [] \<and> plain_names names \<and> f = (rel_path names, (c, perm names)) \<and> \<not> left_out (rel_path names)"
proof -
  have paths: "\<forall>q \<in> set (leaf_paths evs). q \<noteq> [] \<and> plain_names q" "distinct (leaf_paths evs)"
    using met_paths(1) [OF assms(2), of plugin_skip "[]"] by (auto simp: evs_def is_dir_def)
  have leaves: "p \<noteq> [] \<and> plain_names p \<and> \<not> is_dir d" if "Leaf p d \<in> set evs" for p d
  proof -
    have "p \<in> set (leaf_paths evs)" using that by (force simp: leaf_paths_def)
    then show ?thesis using paths(1) that met_leaves(1) evs_def by blast
  qed
  have "inj_on rel_path (set (leaf_paths evs))"
    using paths(1) rel_path_names by (intro inj_onI) metis
  then have dist: "distinct (map rel_path (leaf_paths evs))" using paths(2) by (simp add: distinct_map)
  have run: "visit_all (visit (plugin_walk_fn perm) PluginWalkError) evs ([], 0) = (WNil, r) \<longleftrightarrow>
     (\<forall>e \<in> set evs. plugin_ok e) \<and>
     r = ([] @ concat (map (plugin_pick perm) evs), 0 + weight file_weight (concat (map (plugin_pick perm) evs))) \<and>
     length ([] :: plugin_files) + length (concat (map (plugin_pick perm) evs)) \<le> maxPluginFiles \<and>
     0 + weight file_weight (concat (map (plugin_pick perm) evs)) \<le> maxPluginTotalSize" for r
  proof (rule visit_collect)
    show "plugin_pick perm (Leaf p d) = [] \<or> (\<exists>v. plugin_pick perm (Leaf p d) = [(rel_path p, v)])" for p d
      by (auto simp: plugin_pick_def split: node.split sum.split)
  qed (use leaves dist in \<open>auto simp: visit_def plugin_leaf plugin_ok_def maxPluginTotalSize_def\<close>)
  have "fst (visit_all (visit (plugin_walk_fn perm) PluginWalkError) evs ([], 0)) \<noteq> WSkipDir"
  proof (rule visit_all_no_skip)
    show "fst (visit (plugin_walk_fn perm) PluginWalkError e a) \<noteq> WSkipDir" if "e \<in> set evs" for e a
      by (cases e) (use that leaves in \<open>auto simp: visit_def plugin_no_skip\<close>)
  qed
  then have "collectPluginFiles perm (NDir es err) = Inr files \<longleftrightarrow>
      (\<exists>t. visit_all (visit (plugin_walk_fn perm) PluginWalkError) evs ([], 0) = (WNil, (files, t)))"
    unfolding collectPluginFiles_def plugin_walk evs_def by (auto split: prod.splits walk_ret.splits)
  then show "collectPluginFiles perm (NDir es err) = Inr files \<longleftrightarrow> (\<forall>e \<in> set evs. plugin_ok e) \<and>
      files = concat (map (plugin_pick perm) evs) \<and> length files \<le> 1000 \<and> weight file_weight files \<le> 99614720"
    by (auto simp: run maxPluginFiles_def maxPluginTotalSize_def)
  have "subseq (map fst (concat (map (plugin_pick perm) evs))) (map rel_path (leaf_paths evs))"
    by (induction evs) (auto simp: plugin_pick_def split: event.split node.split sum.split)
  with dist show "distinct (map fst (concat (map (plugin_pick perm) evs)))" by (auto simp: subseq_conv_nths intro: distinct_nthsI)
  show "\<exists>names c. names \<noteq> [] \<and> plain_names names \<and> f = (rel_path names, (c, perm names)) \<and> \<not> left_out (rel_path names)"
    if "f \<in> set (concat (map (plugin_pick perm) evs))"
    using that leaves by (fastforce simp: plugin_pick_def split: event.splits node.splits sum.splits if_splits)
qed

text \<open>
  C38. The collected files, exactly: for a directory whose entries have proper names, collection succeeds if and only if every entry outside hidden
  directories is a regular file or a listable directory (hidden files included, so a hidden link is an error too), every file to be packaged is readable, and those
  are at most 1000 with at most 95 MiB together. The result is then the list of those files with contents and permissions, under
  distinct relative paths; no path has a hidden element but \<open>.mcp.json\<close>, and the manifest is not among them. The comment on \<open>collectPluginFiles\<close> says
  instead that the hidden files are left out except \<open>.claude-plugin/plugin.json\<close>; the code leaves the manifest to its caller and lets \<open>.mcp.json\<close> in, and this is what is stated.
\<close>

theorem collectPluginFiles_exact:
  assumes "wf_node (NDir es err)"
  shows "(\<forall>files. collectPluginFiles perm (NDir es err) = Inr files \<longleftrightarrow>
            (\<forall>e \<in> set (met plugin_skip [] (NDir es err)). plugin_ok e) \<and>
            files = concat (map (plugin_pick perm) (met plugin_skip [] (NDir es err))) \<and>
            length files \<le> 1000 \<and> weight file_weight files \<le> 99614720) \<and>
         distinct (map fst (concat (map (plugin_pick perm) (met plugin_skip [] (NDir es err))))) \<and>
         (\<forall>f \<in> set (concat (map (plugin_pick perm) (met plugin_skip [] (NDir es err)))).
            \<exists>names c. names \<noteq> [] \<and> plain_names names \<and> f = (rel_path names, (c, perm names)) \<and> fst f \<noteq> ManifestFileName \<and>
              (isHiddenPath (fst f) \<longrightarrow> fst f = ''.mcp.json''))"
proof (intro conjI allI ballI)
  fix f assume "f \<in> set (concat (map (plugin_pick perm) (met plugin_skip [] (NDir es err))))"
  from collect_plugin(3) [OF assms this] obtain names c where
    "names \<noteq> []" "plain_names names" "f = (rel_path names, (c, perm names))" "\<not> left_out (rel_path names)" by blast
  then show "\<exists>names c. names \<noteq> [] \<and> plain_names names \<and> f = (rel_path names, (c, perm names)) \<and> fst f \<noteq> ManifestFileName \<and>
      (isHiddenPath (fst f) \<longrightarrow> fst f = ''.mcp.json'')"
    using left_out_iff [of "rel_path names"] by (intro exI [of _ names] exI [of _ c]) (auto simp: left_out_def)
qed (rule collect_plugin(1) [OF assms] collect_plugin(2) [OF assms])+

definition sample_plugin :: "(string \<times> node) list" where
  "sample_plugin = [(''.claude-plugin'', NDir [(''notes'', NFile (Inr [1])), (''plugin.json'', NFile (Inr [2]))] None),
     (''.git'', NDir [(''x'', NLink)] None), (''.mcp.json'', NFile (Inr [3])),
     (''bin'', NDir [(''run.sh'', NFile (Inr [4, 5]))] None)]"

definition sample_perm :: "string list \<Rightarrow> int" where
  "sample_perm p = (if hd p = ''bin'' then 493 else 420)"

lemma sample_plugin_met:
  "met plugin_skip [] (NDir sample_plugin None) =
     [Leaf [''.claude-plugin'', ''notes''] (NFile (Inr [1])), Leaf [''.claude-plugin'', ''plugin.json''] (NFile (Inr [2])),
      Leaf [''.mcp.json''] (NFile (Inr [3])), Leaf [''bin'', ''run.sh''] (NFile (Inr [4, 5]))]"
  by (simp add: sample_plugin_def plugin_skip_def is_dir_def hidden_def rel_path_def)

lemma sample_plugin_wf: "wf_node (NDir sample_plugin None)"
  by (simp add: sample_plugin_def plain_def)

lemma sample_plugin_picked:
  "concat (map (plugin_pick sample_perm) (met plugin_skip [] (NDir sample_plugin None))) =
     [(''.mcp.json'', ([3], 420)), (''bin/run.sh'', ([4, 5], 493))]" "\<forall>e \<in> set (met plugin_skip [] (NDir sample_plugin None)). plugin_ok e"
proof -
  have h: "isHiddenPath ''.claude-plugin/notes''" "isHiddenPath ''.claude-plugin/plugin.json''" "isHiddenPath ''.mcp.json''"
    by (auto intro!: hidden_path simp: hidden_def)
  have n: "\<not> isHiddenPath ''bin/run.sh''" by (simp add: isHiddenPath_def hidden_def)
  show "concat (map (plugin_pick sample_perm) (met plugin_skip [] (NDir sample_plugin None))) =
     [(''.mcp.json'', ([3], 420)), (''bin/run.sh'', ([4, 5], 493))]" "\<forall>e \<in> set (met plugin_skip [] (NDir sample_plugin None)). plugin_ok e"
    unfolding sample_plugin_met using h n by (simp_all add: plugin_pick_def plugin_ok_def left_out_def rel_path_def sample_perm_def)
qed

theorem collectPluginFiles_exact_witness:
  "collectPluginFiles sample_perm (NDir sample_plugin None) = Inr [(''.mcp.json'', ([3], 420)), (''bin/run.sh'', ([4, 5], 493))]"
  using collectPluginFiles_exact [OF sample_plugin_wf, of sample_perm] sample_plugin_picked by simp

text \<open>
  \<open>validatePluginDir\<close> follows symbolic links and \<open>WalkDir\<close> does not follow one at its root: a plugin directory given through a symbolic
  link is read without any of its files but the manifest, and without an error.
\<close>

lemma symlinked_plugin_loses_files:
  assumes "validatePluginDir F dir = None" "check_manifest F (filepath_Join [dir, ManifestFileName]) = None" "pf_Lstat F dir = Inr NLink"
    and "pf_ReadFile F (filepath_Join [dir, ManifestFileName]) = Inr md" "parseManifest parse md = Inr pm" "pm_Name pm \<noteq> []"
  shows "readPluginDirectory parse F dir = Inr \<lparr>pd_manifest = md, pd_files = [], pd_pm = pm\<rparr>"
  using assms by (simp add: readPluginDirectory_def collectPluginFiles_def plugin_walk_fn_def)

end
