(* ===== verification/Plugin_Package.thy ===== *)
theory Plugin_Package
  imports Skill_Package Plugin_Dir
begin

text \<open>
  Packaging a plugin as an OCI artifact (\<open>oci/plugins/packager.go\<close>) and reading its metadata back (\<open>oci/plugins/mediatypes.go\<close>).

  The store, the OCI types and the encoders of image, manifest and index (\<open>skill_js\<close>) are those of the skills packager. Labels and
  annotations that hold JSON are documents (\<open>Go_Json\<close>) written by \<open>render\<close> and read by \<open>parse\<close>, the syntax of JSON.
\<close>

declare ascii_fold.simps [simp del]

section \<open>Metadata of an image\<close>

abbreviation ArtifactTypePlugin :: string where "ArtifactTypePlugin \<equiv> ''dev.toolhive.plugins.v1''"
abbreviation LabelPluginName :: string where "LabelPluginName \<equiv> ''dev.toolhive.plugins.name''"
abbreviation LabelPluginDescription :: string where "LabelPluginDescription \<equiv> ''dev.toolhive.plugins.description''"
abbreviation LabelPluginVersion :: string where "LabelPluginVersion \<equiv> ''dev.toolhive.plugins.version''"
abbreviation LabelPluginLicense :: string where "LabelPluginLicense \<equiv> ''dev.toolhive.plugins.license''"
abbreviation LabelPluginFiles :: string where "LabelPluginFiles \<equiv> ''dev.toolhive.plugins.files''"
abbreviation LabelPluginComponents :: string where "LabelPluginComponents \<equiv> ''dev.toolhive.plugins.components''"
abbreviation LabelPluginRequires :: string where "LabelPluginRequires \<equiv> ''dev.toolhive.plugins.requires''"

record PluginConfig =
  pc_Name :: string
  pc_Description :: string
  pc_Version :: string
  pc_License :: string
  pc_Files :: "string list option"
  pc_Components :: ComponentInventory
  pc_Requires :: "string list option"

record json_text =
  render :: "json \<Rightarrow> string"
  parse :: "string \<Rightarrow> json option"

datatype plugin_config_err = PluginImageNil | PluginNoLabels | PluginNameRequired | PluginFilesSyntax | PluginComponentsSyntax | PluginRequiresSyntax

text \<open>\<open>json.Unmarshal\<close> of a label into a field; \<open>None\<close> is its error.\<close>

definition label_value :: "json_text \<Rightarrow> 'a decoder \<Rightarrow> string \<Rightarrow> 'a \<Rightarrow> 'a option" where
  "label_value T d s x =
     (case parse T s of None \<Rightarrow> None | Some j \<Rightarrow> (case d j x of (y, Fine) \<Rightarrow> Some y | _ \<Rightarrow> None))"

definition label_field :: "json_text \<Rightarrow> 'a decoder \<Rightarrow> 'e \<Rightarrow> string \<Rightarrow> 'a \<Rightarrow> ('e, 'a) result" where
  "label_field T d e s x = (if s \<noteq> [] then (case label_value T d s x of None \<Rightarrow> Inl e | Some y \<Rightarrow> Inr y) else Inr x)"

abbreviation dec_strings :: "string list option decoder" where "dec_strings \<equiv> dec_slice [] dec_string"
abbreviation dec_counts :: "ComponentInventory decoder" where "dec_counts \<equiv> dec_map 0 dec_int"

definition PluginConfigFromImageConfig :: "json_text \<Rightarrow> Image option \<Rightarrow> (plugin_config_err, PluginConfig) result" where
  "PluginConfigFromImageConfig T imgConfig =
     (case imgConfig of
        None \<Rightarrow> Inl PluginImageNil
      | Some img \<Rightarrow>
          (case im_Labels img of
             None \<Rightarrow> Inl PluginNoLabels
           | Some labels \<Rightarrow>
               if str_lookup labels LabelPluginName = [] then Inl PluginNameRequired
               else bindE (label_field T dec_strings PluginFilesSyntax (str_lookup labels LabelPluginFiles) None) (\<lambda>files.
                 bindE (label_field T dec_counts PluginComponentsSyntax (str_lookup labels LabelPluginComponents) None) (\<lambda>components.
                   bindE (label_field T dec_strings PluginRequiresSyntax (str_lookup labels LabelPluginRequires) None) (\<lambda>reqs.
                     Inr \<lparr>pc_Name = str_lookup labels LabelPluginName, pc_Description = str_lookup labels LabelPluginDescription,
                          pc_Version = str_lookup labels LabelPluginVersion, pc_License = str_lookup labels LabelPluginLicense,
                          pc_Files = files, pc_Components = components, pc_Requires = reqs\<rparr>)))))"

definition ParseComponentsAnnotation :: "json_text \<Rightarrow> (string \<times> string) list \<Rightarrow> ComponentInventory" where
  "ParseComponentsAnnotation T annotations =
     (let componentsJSON = str_lookup annotations LabelPluginComponents in
      if componentsJSON = [] then None
      else case label_value T dec_counts componentsJSON None of None \<Rightarrow> None | Some components \<Rightarrow> components)"

definition plugin_ParseRequiresAnnotation :: "json_text \<Rightarrow> (string \<times> string) list \<Rightarrow> string list option" where
  "plugin_ParseRequiresAnnotation T annotations =
     (let requiresJSON = str_lookup annotations LabelPluginRequires in
      if requiresJSON = [] then None
      else case label_value T dec_strings requiresJSON None of None \<Rightarrow> None | Some refs \<Rightarrow> refs)"

section \<open>Building the artifact\<close>

definition plugin_file_lookup :: "plugin_files \<Rightarrow> string \<Rightarrow> bytes \<times> int" where
  "plugin_file_lookup m k = (case map_of m k of None \<Rightarrow> ([], 0) | Some v \<Rightarrow> v)"

definition plugin_layer_files :: "pluginDirContent \<Rightarrow> FileEntry list" where
  "plugin_layer_files content =
     \<lparr>fe_Path = ManifestFileName, fe_Content = pd_manifest content, fe_Mode = 0\<rparr> #
     map (\<lambda>p. \<lparr>fe_Path = p, fe_Content = fst (plugin_file_lookup (pd_files content) p), fe_Mode = snd (plugin_file_lookup (pd_files content) p)\<rparr>)
       (sort (map fst (pd_files content)))"

definition plugin_createContentLayer ::
  "('w, 'g) pack_env \<Rightarrow> pluginDirContent \<Rightarrow> PackageOptions \<Rightarrow> (art_error, bytes \<times> bytes) result" where
  "plugin_createContentLayer E content opts =
     (let files = plugin_layer_files content;
          tarOpts = \<lparr>to_Epoch = po_Epoch opts\<rparr>;
          gzipOpts = DefaultGzipOptions\<lparr>go_Epoch := po_Epoch opts\<rparr>
      in bindE (map_err CreatingTar (CreateTar (pe_sort E) (pe_tar E) files tarOpts))
           (\<lambda>uncompressed. bindE (map_err CompressingTar (Compress (pe_gzip E) uncompressed gzipOpts))
             (\<lambda>compressed. Inr (compressed, uncompressed))))"

definition pluginConfig :: "pluginDirContent \<Rightarrow> PluginConfig" where
  "pluginConfig content =
     (let pm = pd_pm content
      in \<lparr>pc_Name = pm_Name pm, pc_Description = pm_Description pm, pc_Version = pm_Version pm, pc_License = pm_License pm,
          pc_Files = Some (sort (ManifestFileName # map fst (pd_files content))),
          pc_Components = componentInventory pm, pc_Requires = plugin_requires pm\<rparr>)"

text \<open>\<open>mustMarshalJSON\<close> of a list of strings and of a map of counts, which cannot fail.\<close>

abbreviation strings_text :: "json_text \<Rightarrow> string list option \<Rightarrow> string" where
  "strings_text T v \<equiv> render T (enc_slice enc_string v)"
abbreviation counts_text :: "json_text \<Rightarrow> ComponentInventory \<Rightarrow> string" where
  "counts_text T v \<equiv> render T (enc_map JNum v)"

definition plugin_createOCIConfig ::
  "oci_lib \<Rightarrow> json_text \<Rightarrow> pluginDirContent \<Rightarrow> bytes \<Rightarrow> Platform \<Rightarrow> PackageOptions \<Rightarrow> Image \<times> PluginConfig" where
  "plugin_createOCIConfig L T content uncompressedTar platform opts =
     (let cfg = pluginConfig content;
          epoch = po_Epoch opts;
          ociConfig = \<lparr>im_Created = Some epoch, im_Platform = platform,
            im_Labels = Some [(LabelPluginName, pc_Name cfg), (LabelPluginDescription, pc_Description cfg),
              (LabelPluginVersion, pc_Version cfg), (LabelPluginLicense, pc_License cfg),
              (LabelPluginFiles, strings_text T (pc_Files cfg)), (LabelPluginComponents, counts_text T (pc_Components cfg)),
              (LabelPluginRequires, strings_text T (pc_Requires cfg))],
            im_RootFSType = ''layers'', im_DiffIDs = [FromBytes L uncompressedTar],
            im_History = [(Some epoch, ''toolhive package'')]\<rparr>
      in (ociConfig, cfg))"

definition plugin_createManifest ::
  "skill_js \<Rightarrow> json_text \<Rightarrow> bytes \<Rightarrow> string \<Rightarrow> bytes \<Rightarrow> string \<Rightarrow> PluginConfig \<Rightarrow> PackageOptions \<Rightarrow> Manifest" where
  "plugin_createManifest J T configBytes configDigest layerBytes layerDigest cfg opts =
     (let annotations = [(AnnotationCreated, rfc3339 J (po_Epoch opts)),
            (LabelPluginName, pc_Name cfg), (LabelPluginDescription, pc_Description cfg),
            (LabelPluginVersion, pc_Version cfg), (LabelPluginLicense, pc_License cfg),
            (LabelPluginFiles, strings_text T (pc_Files cfg)), (LabelPluginComponents, counts_text T (pc_Components cfg)),
            (LabelPluginRequires, strings_text T (pc_Requires cfg)),
            (''org.opencontainers.image.version'', pc_Version cfg), (''org.opencontainers.image.licenses'', pc_License cfg),
            (AnnotationTitle, pc_Name cfg), (''org.opencontainers.image.description'', pc_Description cfg)]
      in \<lparr>mf_SchemaVersion = 2, mf_MediaType = MediaTypeImageManifest, mf_ArtifactType = ArtifactTypePlugin,
          mf_Config = plain_desc MediaTypeImageConfig configDigest (int (length configBytes)),
          mf_Layers = [(plain_desc MediaTypeImageLayerGzip layerDigest (int (length layerBytes)))
                         \<lparr>d_Annotations := Some [(AnnotationTitle, ''plugin.tar.gz'')]\<rparr>],
          mf_Annotations = Some annotations\<rparr>)"

datatype plugin_pkg_error = ReadingPluginDir plugin_error | Packing pkg_error

definition plugin_createIndex ::
  "oci_lib \<Rightarrow> skill_js \<Rightarrow> 's Store \<Rightarrow> (string \<times> manifestInfo) list \<Rightarrow> (string \<times> string) list option \<Rightarrow> PackageOptions
     \<Rightarrow> 's \<Rightarrow> (pkg_error, string) result \<times> 's" where
  "plugin_createIndex L J s platformManifests annotations opts st =
     (case index_entries platformManifests (po_Platforms opts) of
        Inl e \<Rightarrow> (Inl e, st)
      | Inr manifests \<Rightarrow>
          (let index = \<lparr>ix_SchemaVersion = 2, ix_MediaType = MediaTypeImageIndex, ix_ArtifactType = ArtifactTypePlugin,
                 ix_Manifests = manifests, ix_Annotations = annotations\<rparr>
           in case js_Index_enc J index of
                Inl e \<Rightarrow> (Inl (MarshalingIndex e), st)
              | Inr indexBytes \<Rightarrow> wrapS StoringIndex (PutManifest L s indexBytes st)))"

record plugin_acc =
  pa_manifests :: "(string \<times> manifestInfo) list"
  pa_primaryManifest :: string
  pa_primaryConfig :: string
  pa_config :: "PluginConfig option"
  pa_annotations :: "(string \<times> string) list option"

definition plugin_platform ::
  "oci_lib \<Rightarrow> skill_js \<Rightarrow> json_text \<Rightarrow> 's Store \<Rightarrow> pluginDirContent \<Rightarrow> bytes \<Rightarrow> bytes \<Rightarrow> string \<Rightarrow> PackageOptions \<Rightarrow> bool \<Rightarrow> Platform
     \<Rightarrow> plugin_acc \<Rightarrow> 's \<Rightarrow> (pkg_error, plugin_acc) result \<times> 's" where
  "plugin_platform L J T s content layerBytes uncompressedTar layerDigest opts isFirst platform acc st =
     (let platformStr = PlatformString platform;
          (ociConfig, cfg) = plugin_createOCIConfig L T content uncompressedTar platform opts
      in case js_Image_enc J ociConfig of
           Inl e \<Rightarrow> (Inl (MarshalingConfig platformStr e), st)
         | Inr configBytes \<Rightarrow>
             bindS (wrapS (StoringConfig platformStr) (PutBlob L s configBytes st)) (\<lambda>configDigest st.
               let manifest = plugin_createManifest J T configBytes configDigest layerBytes layerDigest cfg opts
               in case js_Manifest_enc J manifest of
                    Inl e \<Rightarrow> (Inl (MarshalingManifest platformStr e), st)
                  | Inr manifestBytes \<Rightarrow>
                      bindS (wrapS (StoringManifest platformStr) (PutManifest L s manifestBytes st)) (\<lambda>manifestDigest st.
                        let acc = acc\<lparr>pa_manifests := AList.update platformStr
                              \<lparr>mi_digest = manifestDigest, mi_size = int (length manifestBytes)\<rparr> (pa_manifests acc)\<rparr>;
                            acc = (if isFirst then acc\<lparr>pa_primaryManifest := manifestDigest, pa_primaryConfig := configDigest,
                                     pa_config := Some cfg, pa_annotations := mf_Annotations manifest\<rparr> else acc)
                        in (Inr acc, st))))"

fun plugin_loop ::
  "oci_lib \<Rightarrow> skill_js \<Rightarrow> json_text \<Rightarrow> 's Store \<Rightarrow> pluginDirContent \<Rightarrow> bytes \<Rightarrow> bytes \<Rightarrow> string \<Rightarrow> PackageOptions \<Rightarrow> nat \<Rightarrow> Platform list
     \<Rightarrow> plugin_acc \<Rightarrow> 's \<Rightarrow> (pkg_error, plugin_acc) result \<times> 's" where
  "plugin_loop L J T s content lb ut ld opts i [] acc st = (Inr acc, st)"
| "plugin_loop L J T s content lb ut ld opts i (p # ps) acc st =
     bindS (plugin_platform L J T s content lb ut ld opts (i = 0) p acc st)
       (\<lambda>acc. plugin_loop L J T s content lb ut ld opts (Suc i) ps acc)"

record PluginPackageResult =
  pp_IndexDigest :: string
  pp_ManifestDigest :: string
  pp_ConfigDigest :: string
  pp_LayerDigest :: string
  pp_Config :: "PluginConfig option"
  pp_Platforms :: "Platform list"

definition plugin_options :: "PackageOptions \<Rightarrow> PackageOptions" where
  "plugin_options opts =
     (let opts = with_platforms opts in if po_Epoch opts = zero_time then opts\<lparr>po_Epoch := 0\<rparr> else opts)"

definition plugin_init :: plugin_acc where
  "plugin_init = \<lparr>pa_manifests = [], pa_primaryManifest = [], pa_primaryConfig = [], pa_config = None, pa_annotations = None\<rparr>"

definition plugin_Package ::
  "oci_lib \<Rightarrow> skill_js \<Rightarrow> json_text \<Rightarrow> ('w, 'g) pack_env \<Rightarrow> plugin_fs \<Rightarrow> 's Store \<Rightarrow> string \<Rightarrow> PackageOptions \<Rightarrow> 's
     \<Rightarrow> (plugin_pkg_error, PluginPackageResult) result \<times> 's" where
  "plugin_Package L J T E F s pluginDir opts st =
     (let opts = plugin_options opts in
      case readPluginDirectory (parse T) F pluginDir of
        Inl e \<Rightarrow> (Inl (ReadingPluginDir e), st)
      | Inr content \<Rightarrow>
          (case plugin_createContentLayer E content opts of
             Inl e \<Rightarrow> (Inl (Packing (CreatingLayer e)), st)
           | Inr (layerBytes, uncompressedTar) \<Rightarrow>
               wrapS Packing (bindS (wrapS StoringLayer (PutBlob L s layerBytes st)) (\<lambda>layerDigest st.
                 bindS (plugin_loop L J T s content layerBytes uncompressedTar layerDigest opts 0 (po_Platforms opts) plugin_init st)
                   (\<lambda>acc st. bindS (plugin_createIndex L J s (pa_manifests acc) (pa_annotations acc) opts st)
                     (\<lambda>indexDigest st. (Inr \<lparr>pp_IndexDigest = indexDigest, pp_ManifestDigest = pa_primaryManifest acc,
                        pp_ConfigDigest = pa_primaryConfig acc, pp_LayerDigest = layerDigest,
                        pp_Config = pa_config acc, pp_Platforms = po_Platforms opts\<rparr>, st)))))))"

section \<open>The metadata of a package comes back\<close>

lemma addCount_facts:
  "go_map m \<Longrightarrow> go_map (addCount k r m)" "fst ` set (addCount k r m) \<subseteq> insert k (fst ` set m)"
  by (auto simp: addCount_def keys_map_put split: option.splits)

lemma componentInventory_map:
  "pred_option (\<lambda>m. go_map m \<and> list_all (\<lambda>(k, v). valid_utf8 k) m) (componentInventory pm)"
proof -
  define m where "m = addCount ''lspServers'' (pm_LSPServers pm) (addCount ''mcpServers'' (pm_MCPServers pm)
    (addCount ''hooks'' (pm_Hooks pm) (addCount ''skills'' (pm_Skills pm)
      (addCount ''agents'' (pm_Agents pm) (addCount ''commands'' (pm_Commands pm) [])))))"
  have "fst ` set m \<subseteq> {''lspServers'', ''mcpServers'', ''hooks'', ''skills'', ''agents'', ''commands''}"
    unfolding m_def by (intro order_trans [OF addCount_facts(2)] insert_mono) simp
  moreover have "valid_utf8 ''lspServers''" "valid_utf8 ''mcpServers''" "valid_utf8 ''hooks''" "valid_utf8 ''skills''"
    "valid_utf8 ''agents''" "valid_utf8 ''commands''" by (simp_all add: valid_utf8_ascii)
  ultimately have "list_all (\<lambda>(k, v). valid_utf8 k) m" by (fastforce simp: list_all_iff)
  moreover have "go_map m" by (simp add: m_def addCount_facts(1))
  ultimately show ?thesis by (simp add: componentInventory_def m_def [symmetric])
qed

text \<open>The JSON syntax returns a document it wrote.\<close>

definition text_keeps :: "json_text \<Rightarrow> json \<Rightarrow> bool" where
  "text_keeps T j \<longleftrightarrow> render T j \<noteq> [] \<and> parse T (render T j) = Some j"

lemma label_strings:
  assumes "text_keeps T (enc_slice enc_string v)" "pred_option (list_all valid_utf8) v"
  shows "strings_text T v \<noteq> []" "label_value T dec_strings (strings_text T v) None = Some v"
  using assms by (simp_all add: label_value_def text_keeps_def)

lemma label_counts:
  assumes "text_keeps T (enc_map JNum v)"
    and "pred_option (\<lambda>m. go_map m \<and> list_all (\<lambda>(k, v). valid_utf8 k) m) v" "pred_option (list_all (\<lambda>(k, n). is_int64 n)) v"
  shows "counts_text T v \<noteq> []" "label_value T dec_counts (counts_text T v) None = Some v"
proof -
  have "dec_counts (enc_map JNum v) None = (v, Fine)"
    using assms(2,3) by (intro dec_enc_maps) (cases v, auto simp: list_all_iff)
  with assms(1) show "counts_text T v \<noteq> []" "label_value T dec_counts (counts_text T v) None = Some v"
    by (simp_all add: label_value_def text_keeps_def)
qed

text \<open>
  C40. Metadata round trip: the labels of the packaged image give back the whole configuration, and the annotations of the manifest the same
  inventory of components and the same dependencies, nil told apart from empty. File names and dependencies must be valid UTF-8,
  counts int64 values, and the JSON syntax must return the documents it wrote.
\<close>

theorem plugin_config_round_trip:
  assumes "text_keeps T (enc_slice enc_string (pc_Files (pluginConfig content)))"
    and "text_keeps T (enc_map JNum (componentInventory (pd_pm content)))" "text_keeps T (enc_slice enc_string (plugin_requires (pd_pm content)))"
    and "pm_Name (pd_pm content) \<noteq> []" "list_all valid_utf8 (map fst (pd_files content))"
    and "pred_option (list_all valid_utf8) (plugin_requires (pd_pm content))"
    and "pred_option (list_all (\<lambda>(k, n). is_int64 n)) (componentInventory (pd_pm content))"
  shows "PluginConfigFromImageConfig T (Some (fst (plugin_createOCIConfig L T content tarb platform opts))) = Inr (pluginConfig content) \<and>
    ParseComponentsAnnotation T (the (mf_Annotations (plugin_createManifest J T cb cd lb ld (pluginConfig content) opts))) =
      componentInventory (pd_pm content) \<and>
    plugin_ParseRequiresAnnotation T (the (mf_Annotations (plugin_createManifest J T cb cd lb ld (pluginConfig content) opts))) =
      plugin_requires (pd_pm content)"
proof -
  have files: "pc_Files (pluginConfig content) = Some (sort (ManifestFileName # map fst (pd_files content)))"
    by (simp add: pluginConfig_def Let_def)
  have "valid_utf8 ManifestFileName" by (simp add: valid_utf8_ascii)
  then have "pred_option (list_all valid_utf8) (pc_Files (pluginConfig content))"
    unfolding files using assms(5) by (auto simp: list_all_iff set_insort_key)
  note files' = label_strings [OF assms(1) this, unfolded files]
  note reqs = label_strings [OF assms(3,6)] and counts = label_counts [OF assms(2) componentInventory_map assms(7)]
  show ?thesis
    using files' reqs counts assms(4)
    by (simp add: PluginConfigFromImageConfig_def ParseComponentsAnnotation_def plugin_ParseRequiresAnnotation_def plugin_createOCIConfig_def
        plugin_createManifest_def pluginConfig_def label_field_def str_lookup_def Let_def)
qed

section \<open>The content of a package comes back\<close>

lemma weight_bound: "f \<in> set fs \<Longrightarrow> file_weight (snd f) \<le> weight file_weight fs"
proof (induction fs)
  case (Cons g fs)
  have "weight file_weight gs \<ge> 0" for gs by (induction gs) simp_all
  from this [of fs] Cons show ?case by auto
qed simp

text \<open>What a directory read contributes to the layer.\<close>

lemma plugin_files_ok:
  assumes tree: "pf_Lstat F dir = Inr (NDir es err)" "wf_node (NDir es err)"
    and c: "readPluginDirectory ps F dir = Inr content"
  shows "distinct (map fst (pd_files content))" "ManifestFileName \<notin> fst ` set (pd_files content)"
    and "(p, v) \<in> set (pd_files content) \<Longrightarrow>
      (\<exists>names. names \<noteq> [] \<and> plain_names names \<and> p = rel_path names) \<and> file_weight v \<le> MaxTarFileSize"
proof -
  let ?files = "concat (map (plugin_pick (pf_Perm F dir)) (met plugin_skip [] (NDir es err)))"
  have col: "collectPluginFiles (pf_Perm F dir) (NDir es err) = Inr (pd_files content)"
    using c tree(1)
    by (auto simp: readPluginDirectory_def Let_def bindE_eq_Inr split: option.splits sum.splits io_err.splits if_splits)
  note exact = collect_plugin [OF tree(2)]
  have pk: "pd_files content = ?files" "weight file_weight (pd_files content) \<le> 99614720" using exact(1) col by auto
  show "distinct (map fst (pd_files content))" unfolding pk(1) by (rule exact(2))
  show "ManifestFileName \<notin> fst ` set (pd_files content)"
    unfolding pk(1) using exact(3) left_out_iff [of ManifestFileName] by fastforce
  show "(\<exists>names. names \<noteq> [] \<and> plain_names names \<and> p = rel_path names) \<and> file_weight v \<le> MaxTarFileSize"
    if pv: "(p, v) \<in> set (pd_files content)"
  proof -
    have "\<exists>names. names \<noteq> [] \<and> plain_names names \<and> p = rel_path names"
      using exact(3) [OF pv [unfolded pk(1)]] by blast
    moreover have "file_weight v \<le> MaxTarFileSize" using weight_bound [OF pv] pk(2) by (simp add: MaxTarFileSize_def)
    ultimately show ?thesis by blast
  qed
qed

lemma plugin_layer_set:
  assumes "distinct (map fst (pd_files content))"
  shows "set (plugin_layer_files content) = insert \<lparr>fe_Path = ManifestFileName, fe_Content = pd_manifest content, fe_Mode = 0\<rparr>
     ((\<lambda>(p, v). \<lparr>fe_Path = p, fe_Content = fst v, fe_Mode = snd v\<rparr>) ` set (pd_files content))"
proof -
  have "plugin_file_lookup (pd_files content) (fst x) = snd x" if "x \<in> set (pd_files content)" for x
    using map_of_is_SomeI [OF assms, of "fst x" "snd x"] that by (simp add: plugin_file_lookup_def)
  then show ?thesis by (simp add: plugin_layer_files_def image_image case_prod_unfold)
qed

lemma plugin_layer_paths:
  "mset (map fe_Path (plugin_layer_files content)) = mset (ManifestFileName # map fst (pd_files content))"
  by (simp add: plugin_layer_files_def comp_def)

definition unpacked_mode :: "int \<Rightarrow> int" where
  "unpacked_mode m = (if m = 0 then 420 else m)"

definition entry_pair :: "FileEntry \<Rightarrow> string \<times> bytes \<times> int" where
  "entry_pair f = (fe_Path f, fe_Content f, fe_Mode f)"

definition unpacked :: "pluginDirContent \<Rightarrow> (string \<times> bytes \<times> int) list" where
  "unpacked content = (ManifestFileName, pd_manifest content, 420) # map (\<lambda>(p, c, m). (p, c, unpacked_mode m)) (pd_files content)"

text \<open>
  C39. Content round trip: unpacking the layer of a directory read gives exactly its files, the manifest included, each with its content and its
  permission bits (0644 for the manifest and for a file that had none), and their paths are the list in the package's
  configuration. It needs codecs that return what was written, no double backslash in a file name, and the extraction limits for the manifest and for the
  archive as a whole.
\<close>

theorem plugin_layer_round_trip:
  assumes gz: "\<And>l h d g g' z. gw_new (pe_gzip E) l = Inr g \<Longrightarrow> gw_write (pe_gzip E) g h d = Inr g' \<Longrightarrow>
      gw_close (pe_gzip E) g' = Inr z \<Longrightarrow> \<exists>r. gunzip z = Inr r \<and> rd_data r = d \<and> rd_fail r = None"
    and tar: "\<And>es w b. write_entries (pe_tar E) es (tw_new (pe_tar E)) = Inr w \<Longrightarrow> tw_close (pe_tar E) w = Inr b \<Longrightarrow>
      list_all2 same_entry (ts_entries (rd b)) es \<and> ts_end (rd b) = None"
    and srt: "\<And>fs. mset (pe_sort E fs) = mset fs \<and> sorted (map fe_Path (pe_sort E fs))"
    and tree: "pf_Lstat F dir = Inr (NDir es err)" "wf_node (NDir es err)"
    and c: "readPluginDirectory ps F dir = Inr content"
    and layer: "plugin_createContentLayer E content opts = Inr (layer, tarb)" "int (length tarb) \<le> MaxDecompressedSize"
    and md: "int (length (pd_manifest content)) \<le> MaxTarFileSize"
    and names: "\<forall>q \<in> fst ` set (pd_files content). \<not> str_contains q [CHR 0x5C, CHR 0x5C]"
  shows "\<exists>fs. DecompressTar gunzip rd layer = Inr fs \<and> pc_Files (pluginConfig content) = Some (map fe_Path fs) \<and>
     map_of (map entry_pair fs) = map_of (unpacked content)"
proof -
  note ok = plugin_files_ok [OF tree c]
  let ?lf = "plugin_layer_files content"
  let ?s = "pe_sort E ?lf"
  have set_s: "set ?s = set ?lf" using srt [of ?lf] by (metis set_mset_mset)
  have clean: "path_clean p = p \<and> is_ok (validateTarPath p)"
    if "p = ManifestFileName \<or> p \<in> fst ` set (pd_files content)" for p
  proof -
    have "plain_names [''.claude-plugin'', ''plugin.json'']" "ManifestFileName = rel_path [''.claude-plugin'', ''plugin.json'']"
      by (simp_all add: plain_names_def plain_def rel_path_def)
    moreover have "\<exists>ns. ns \<noteq> [] \<and> plain_names ns \<and> p = rel_path ns" if "p \<in> fst ` set (pd_files content)" using that ok(3) by force
    ultimately have "\<exists>ns. ns \<noteq> [] \<and> plain_names ns \<and> p = rel_path ns" using that by blast
    then obtain ns where ns: "ns \<noteq> []" "\<forall>n \<in> set ns. plain n" "p = join_with ''/'' ns"
      by (auto simp: plain_names_def rel_path_def)
    moreover have "\<not> str_contains p [CHR 0x5C, CHR 0x5C]" using that names by (auto simp: sublist_eval)
    ultimately show ?thesis using plain_path_clean [OF ns(1,2)] by (auto simp: validateTarPath_ok)
  qed
  have files: "\<forall>f\<in>set ?lf. is_ok (validateTarPath (fe_Path f)) \<and> int (length (fe_Content f)) \<le> MaxTarFileSize"
  proof
    fix f assume "f \<in> set ?lf"
    then consider "fe_Path f = ManifestFileName" "fe_Content f = pd_manifest content"
      | v where "(fe_Path f, v) \<in> set (pd_files content)" "fe_Content f = fst v"
      unfolding plugin_layer_set [OF ok(1)] by force
    then show "is_ok (validateTarPath (fe_Path f)) \<and> int (length (fe_Content f)) \<le> MaxTarFileSize"
    proof cases
      case 1
      then show ?thesis using clean [of "fe_Path f"] md by simp
    next
      case (2 v)
      then have "fe_Path f \<in> fst ` set (pd_files content)" by (metis fst_conv image_eqI)
      with 2 show ?thesis using clean [of "fe_Path f"] ok(3) [OF 2(1)] by simp
    qed
  qed
  have cr: "CreateTar (pe_sort E) (pe_tar E) ?lf \<lparr>to_Epoch = po_Epoch opts\<rparr> = Inr tarb"
    "Compress (pe_gzip E) tarb (DefaultGzipOptions\<lparr>go_Epoch := po_Epoch opts\<rparr>) = Inr layer"
    using layer(1) by (auto simp: plugin_createContentLayer_def Let_def bindE_eq_Inr)
  have ex: "DecompressTar gunzip rd layer = Inr (map normalized ?s)"
    by (rule layer_round_trip [OF _ _ _ cr layer(2) files]) (fact gz, fact tar, use srt in blast)
  have norm: "normalized f = f\<lparr>fe_Mode := unpacked_mode (fe_Mode f)\<rparr>" if "f \<in> set ?s" for f
  proof -
    have "fe_Path f = ManifestFileName \<or> fe_Path f \<in> fst ` set (pd_files content)"
      using that unfolding set_s plugin_layer_set [OF ok(1)] by force
    from clean [OF this] show ?thesis by (simp add: normalized_def unpacked_mode_def)
  qed
  have paths: "map fe_Path (map normalized ?s) = map fe_Path ?s" by (simp add: norm)
  have ms: "mset (map fe_Path ?s) = mset (ManifestFileName # map fst (pd_files content))"
    using srt [of ?lf] plugin_layer_paths [of content] by (metis mset_map)
  then have "sort (ManifestFileName # map fst (pd_files content)) = map fe_Path ?s"
    using srt by (intro properties_for_sort) auto
  then have conf: "pc_Files (pluginConfig content) = Some (map fe_Path (map normalized ?s))"
    unfolding paths by (simp add: pluginConfig_def Let_def)
  have "map_of (map entry_pair (map normalized ?s)) = map_of (unpacked content)"
  proof (rule iffD2 [OF map_of_inject_set])
    have "map fst (map entry_pair (map normalized ?s)) = map fe_Path ?s" using paths by (simp add: entry_pair_def comp_def)
    moreover have "distinct (map fe_Path ?s)" using mset_eq_imp_distinct_iff [OF ms] ok(1,2) by simp
    ultimately show "distinct (map fst (map entry_pair (map normalized ?s)))" by (simp only:)
    show "distinct (map fst (unpacked content))" using ok(1,2) by (simp add: unpacked_def comp_def case_prod_unfold)
    have "set (map entry_pair (map normalized ?s)) = (\<lambda>f. (fe_Path f, fe_Content f, unpacked_mode (fe_Mode f))) ` set ?lf"
      unfolding set_s [symmetric] by (auto simp: norm entry_pair_def)
    also have "\<dots> = set (unpacked content)"
      unfolding plugin_layer_set [OF ok(1)] by (force simp: unpacked_def unpacked_mode_def image_image)
    finally show "set (map entry_pair (map normalized ?s)) = set (unpacked content)" .
  qed
  with ex conf show ?thesis by blast
qed

section \<open>A packaged plugin is complete\<close>

definition plugin_inv ::
  "oci_lib \<Rightarrow> skill_js \<Rightarrow> 's Store \<Rightarrow> bytes \<Rightarrow> bytes \<Rightarrow> (string \<times> manifestInfo) list \<Rightarrow> 's \<Rightarrow> bool" where
  "plugin_inv L J s layer tar pms st \<longleftrightarrow> stored L s st layer \<and>
     (\<forall>ps info. map_of pms ps = Some info \<longrightarrow> platform_done L J s layer tar ps info st)"

lemma plugin_inv_put:
  assumes "inj (FromBytes L)" "put_effect L s c st st'" "plugin_inv L J s layer tar pms st"
  shows "plugin_inv L J s layer tar pms st'"
  using assms(3) stored_put [OF assms(1,2)] platform_done_put [OF assms(1,2)] unfolding plugin_inv_def by blast

lemma case_Inr: "(case r of Inl e \<Rightarrow> (Inl (f e), s) | Inr y \<Rightarrow> g y) = (Inr a, s') \<longleftrightarrow> (\<exists>y. r = Inr y \<and> g y = (Inr a, s'))"
  by (cases r) simp_all

lemma plugin_platform_steps:
  assumes "plugin_platform L J T s content lb ut ld opts isFirst p acc st = (Inr acc', st')"
    and "plugin_createOCIConfig L T content ut p opts = (img, cfg)"
  obtains cb mb st1 where "js_Image_enc J img = Inr cb" "PutBlob L s cb st = (Inr (FromBytes L cb), st1)"
    "js_Manifest_enc J (plugin_createManifest J T cb (FromBytes L cb) lb ld cfg opts) = Inr mb"
    "PutManifest L s mb st1 = (Inr (FromBytes L mb), st')"
    "pa_manifests acc' = AList.update (PlatformString p) \<lparr>mi_digest = FromBytes L mb, mi_size = int (length mb)\<rparr> (pa_manifests acc)"
proof -
  from assms obtain cb d st1 mb md where
    "js_Image_enc J img = Inr cb" "PutBlob L s cb st = (Inr d, st1)" "js_Manifest_enc J (plugin_createManifest J T cb d lb ld cfg opts) = Inr mb"
    "PutManifest L s mb st1 = (Inr md, st')"
    "pa_manifests acc' = AList.update (PlatformString p) \<lparr>mi_digest = md, mi_size = int (length mb)\<rparr> (pa_manifests acc)"
    unfolding plugin_platform_def by (auto simp: bindS_eq_Inr case_Inr Let_def split: if_splits)
  with that PutBlob_digest PutManifest_digest show ?thesis by metis
qed

lemma plugin_platform_inv:
  assumes laws: "push_laws L s" "inj (FromBytes L)" and inv: "plugin_inv L J s lb ut (pa_manifests acc) st"
    and run: "plugin_platform L J T s content lb ut (FromBytes L lb) opts isFirst p acc st = (Inr acc', st')"
  shows "plugin_inv L J s lb ut (pa_manifests acc') st'"
proof -
  obtain img cfg where img: "plugin_createOCIConfig L T content ut p opts = (img, cfg)" by (metis prod.exhaust)
  from plugin_platform_steps [OF run img] obtain cb mb st1 where
    cb: "js_Image_enc J img = Inr cb" "PutBlob L s cb st = (Inr (FromBytes L cb), st1)"
    and mb: "js_Manifest_enc J (plugin_createManifest J T cb (FromBytes L cb) lb (FromBytes L lb) cfg opts) = Inr mb"
      "PutManifest L s mb st1 = (Inr (FromBytes L mb), st')"
    and acc': "pa_manifests acc' =
      AList.update (PlatformString p) \<lparr>mi_digest = FromBytes L mb, mi_size = int (length mb)\<rparr> (pa_manifests acc)" .
  define m where "m = plugin_createManifest J T cb (FromBytes L cb) lb (FromBytes L lb) cfg opts"
  have eff: "put_effect L s cb st st1" "put_effect L s mb st1 st'"
    using PutBlob_effect [OF laws(1) no_collision_inj [OF laws(2)] cb(2)]
      PutManifest_effect [OF laws(1) no_collision_inj [OF laws(2)] mb(2)] by simp_all
  have inv': "plugin_inv L J s lb ut (pa_manifests acc) st'"
    using plugin_inv_put [OF laws(2) eff(2)] plugin_inv_put [OF laws(2) eff(1) inv] by blast
  have st: "stored L s st' lb" "stored L s st' cb" "stored L s st' mb"
    using inv' stored_put [OF laws(2) eff(2), of cb] eff by (auto simp: plugin_inv_def stored_def put_effect_def)
  have i: "im_DiffIDs img = [FromBytes L ut]" "im_Platform img = p"
    using img by (auto simp: plugin_createOCIConfig_def Let_def)
  obtain ld where m: "describes L s st' (mf_Config m) cb" "mf_Layers m = [ld]" "describes L s st' ld lb"
    using st by (simp add: m_def plugin_createManifest_def Let_def describes_def plain_desc_def)
  have "platform_done L J s lb ut (PlatformString p) \<lparr>mi_digest = FromBytes L mb, mi_size = int (length mb)\<rparr> st'"
    using platform_doneI [OF mb(1) [folded m_def] st(3) cb(1) m(1) i(1) _ m(2,3)] i(2) by simp
  with inv' show ?thesis by (auto simp: plugin_inv_def acc' update_conv' split: if_splits)
qed

lemma plugin_loop_inv:
  assumes "push_laws L s" "inj (FromBytes L)"
  shows "plugin_inv L J s lb ut (pa_manifests acc) st \<Longrightarrow>
     plugin_loop L J T s content lb ut (FromBytes L lb) opts i ps acc st = (Inr acc', st') \<Longrightarrow> plugin_inv L J s lb ut (pa_manifests acc') st'"
proof (induction ps arbitrary: i acc st)
  case (Cons p ps)
  then obtain acc1 st1 where
    "plugin_platform L J T s content lb ut (FromBytes L lb) opts (i = 0) p acc st = (Inr acc1, st1)"
    "plugin_loop L J T s content lb ut (FromBytes L lb) opts (Suc i) ps acc1 st1 = (Inr acc', st')"
    by (auto simp: bindS_eq_Inr)
  with Cons plugin_platform_inv [OF assms] show ?case by blast
qed simp

text \<open>
  A successful run leaves a complete artifact in the store: the returned index digest names a stored index with one entry per platform; every
  entry, and the config and layer its manifest names, has the digest and the size of stored content; the layer is the layer of the
  directory, and each config names the digest of its uncompressed archive.
\<close>

theorem plugin_Package_complete:
  assumes laws: "push_laws L s" "inj (FromBytes L)"
    and run: "plugin_Package L J T E F s dir opts st = (Inr res, st')"
  shows "\<exists>content layer tar ix ixb.
     readPluginDirectory (parse T) F dir = Inr content \<and>
     plugin_createContentLayer E content (plugin_options opts) = Inr (layer, tar) \<and>
     pp_LayerDigest res = FromBytes L layer \<and> stored L s st' layer \<and>
     js_Index_enc J ix = Inr ixb \<and> pp_IndexDigest res = FromBytes L ixb \<and> stored L s st' ixb \<and>
     map d_Platform (ix_Manifests ix) = map Some (pp_Platforms res) \<and>
     (\<forall>desc \<in> set (ix_Manifests ix). \<exists>m mb img cb ld.
        js_Manifest_enc J m = Inr mb \<and> describes L s st' desc mb \<and>
        js_Image_enc J img = Inr cb \<and> describes L s st' (mf_Config m) cb \<and>
        im_DiffIDs img = [FromBytes L tar] \<and>
        PlatformString (im_Platform img) = PlatformString (the (d_Platform desc)) \<and>
        mf_Layers m = [ld] \<and> describes L s st' ld layer)"
proof -
  from run obtain content layer tar ld st1 acc st2 ixd where
    c: "readPluginDirectory (parse T) F dir = Inr content" "plugin_createContentLayer E content (plugin_options opts) = Inr (layer, tar)"
    and p: "PutBlob L s layer st = (Inr ld, st1)"
      "plugin_loop L J T s content layer tar ld (plugin_options opts) 0 (po_Platforms (plugin_options opts)) plugin_init st1 = (Inr acc, st2)"
      "plugin_createIndex L J s (pa_manifests acc) (pa_annotations acc) (plugin_options opts) st2 = (Inr ixd, st')"
    and res: "pp_IndexDigest res = ixd" "pp_LayerDigest res = ld" "pp_Platforms res = po_Platforms (plugin_options opts)"
    unfolding plugin_Package_def by (auto simp: bindS_eq_Inr case_Inr Let_def)
  note ld = PutBlob_digest [OF p(1)] and nc = no_collision_inj [OF laws(2)]
  have "plugin_inv L J s layer tar (pa_manifests plugin_init) st1"
    using PutBlob_effect [OF laws(1) nc p(1) [unfolded ld]] by (simp add: plugin_inv_def plugin_init_def stored_def put_effect_def)
  from plugin_loop_inv [OF laws this p(2) [unfolded ld]] have inv: "plugin_inv L J s layer tar (pa_manifests acc) st2" .
  from p(3) obtain ds ix ixb where ds: "index_entries (pa_manifests acc) (po_Platforms (plugin_options opts)) = Inr ds" "ix_Manifests ix = ds"
    and ix: "js_Index_enc J ix = Inr ixb" "PutManifest L s ixb st2 = (Inr ixd, st')"
    by (auto simp: plugin_createIndex_def Let_def split: sum.splits) (metis Index.select_convs(4))
  note ixd = PutManifest_digest [OF ix(2)]
  note eff = PutManifest_effect [OF laws(1) nc ix(2) [unfolded ixd]]
  from plugin_inv_put [OF laws(2) conjunct2 [OF eff] inv] have inv': "plugin_inv L J s layer tar (pa_manifests acc) st'" .
  have "\<exists>m mb img cb ld. js_Manifest_enc J m = Inr mb \<and> describes L s st' desc mb \<and>
        js_Image_enc J img = Inr cb \<and> describes L s st' (mf_Config m) cb \<and> im_DiffIDs img = [FromBytes L tar] \<and>
        PlatformString (im_Platform img) = PlatformString (the (d_Platform desc)) \<and>
        mf_Layers m = [ld] \<and> describes L s st' ld layer" if d: "desc \<in> set ds" for desc
  proof -
    obtain p info where "d_Platform desc = Some p" "map_of (pa_manifests acc) (PlatformString p) = Some info"
      "d_Digest desc = mi_digest info" "d_Size desc = mi_size info" using index_entries_ok [OF ds(1)] d by blast
    with inv' show ?thesis unfolding plugin_inv_def platform_done_def describes_def by auto
  qed
  moreover have "stored L s st' layer" "stored L s st' ixb"
    using inv' eff by (simp_all add: plugin_inv_def stored_def put_effect_def)
  ultimately show ?thesis
    using c ix(1) index_entries_ok [OF ds(1)] ds(2) res ld ixd
    by (intro exI [of _ content] exI [of _ layer] exI [of _ tar] exI [of _ ix] exI [of _ ixb]) auto
qed

section \<open>A concrete package\<close>

definition demo_pm :: pluginManifest where
  "demo_pm = zero_pluginManifest\<lparr>pm_Name := ''p'', pm_Commands := Some (JArr [JNull, JNull]), pm_Hooks := Some (JObj []),
     pm_Requires := Some (JArr [JStr ''r/b:1'', JStr ''r/a:1'']), pm_Dependencies := Some (JArr [JStr ''r/a:1''])\<rparr>"

definition demo_plugin :: pluginDirContent where
  "demo_plugin = \<lparr>pd_manifest = [120], pd_files = [(''.mcp.json'', ([3], 420)), (''bin/run.sh'', ([4, 5], 493))], pd_pm = demo_pm\<rparr>"

definition demo_manifest_doc :: json where
  "demo_manifest_doc = JObj [(''name'', JStr ''p''), (''commands'', JArr [JNull, JNull]), (''hooks'', JObj []),
     (''requires'', JArr [JStr ''r/b:1'', JStr ''r/a:1'']), (''dependencies'', JArr [JStr ''r/a:1''])]"

definition demo_files_doc :: json where
  "demo_files_doc = JArr [JStr ''.claude-plugin/plugin.json'', JStr ''.mcp.json'', JStr ''bin/run.sh'']"

definition demo_text :: json_text where
  "demo_text = \<lparr>render = (\<lambda>j. if j = demo_files_doc then ''1'' else if j = JObj [(''commands'', JNum 2)] then ''2'' else ''3''),
     parse = (\<lambda>s. if s = ''1'' then Some demo_files_doc else if s = ''2'' then Some (JObj [(''commands'', JNum 2)])
       else if s = ''3'' then Some (JArr [JStr ''r/a:1'', JStr ''r/b:1'']) else Some demo_manifest_doc)\<rparr>"

lemma demo_plugin_facts:
  "pc_Files (pluginConfig demo_plugin) = Some [''.claude-plugin/plugin.json'', ''.mcp.json'', ''bin/run.sh'']"
  "componentInventory demo_pm = Some [(''commands'', 2)]" "plugin_requires demo_pm = Some [''r/a:1'', ''r/b:1'']"
  by code_simp+

theorem plugin_config_round_trip_witness:
  "PluginConfigFromImageConfig demo_text (Some (fst (plugin_createOCIConfig demo_lib demo_text demo_plugin [7] (hd (po_Platforms demo_opts)) demo_opts)))
     = Inr (pluginConfig demo_plugin) \<and>
   plugin_ParseRequiresAnnotation demo_text
     (the (mf_Annotations (plugin_createManifest demo_js demo_text [] [] [] [] (pluginConfig demo_plugin) demo_opts))) = Some [''r/a:1'', ''r/b:1'']"
proof -
  have pm: "pd_pm demo_plugin = demo_pm" by (simp add: demo_plugin_def)
  have docs: "enc_slice enc_string (pc_Files (pluginConfig demo_plugin)) = demo_files_doc"
    "enc_map JNum (componentInventory demo_pm) = JObj [(''commands'', JNum 2)]"
    "enc_slice enc_string (plugin_requires demo_pm) = JArr [JStr ''r/a:1'', JStr ''r/b:1'']"
    unfolding demo_plugin_facts by (simp_all add: enc_slice_def enc_map_def enc_string_def demo_files_doc_def valid_utf8_ascii)
  have keeps: "text_keeps demo_text demo_files_doc" "text_keeps demo_text (JObj [(''commands'', JNum 2)])"
    "text_keeps demo_text (JArr [JStr ''r/a:1'', JStr ''r/b:1''])"
    by (simp_all add: text_keeps_def demo_text_def demo_files_doc_def)
  have hyps: "pm_Name demo_pm \<noteq> []" "list_all valid_utf8 (map fst (pd_files demo_plugin))"
    "pred_option (list_all valid_utf8) (plugin_requires demo_pm)" "pred_option (list_all (\<lambda>(k, n). is_int64 n)) (componentInventory demo_pm)"
    unfolding demo_plugin_facts by (simp_all add: demo_pm_def demo_plugin_def valid_utf8_ascii is_int64_def max_int64_def)
  show ?thesis
    using plugin_config_round_trip [of demo_text demo_plugin demo_lib "[7]" "hd (po_Platforms demo_opts)" demo_opts demo_js "[]" "[]" "[]" "[]",
        unfolded pm docs, OF keeps hyps]
    by (simp add: demo_plugin_facts)
qed

definition demo_plugin_fs :: plugin_fs where
  "demo_plugin_fs = \<lparr>pf_Stat = (\<lambda>_. Inr True), pf_LstatFile = (\<lambda>_. Inr (True, 1)), pf_ReadFile = (\<lambda>_. Inr [120]),
     pf_Lstat = (\<lambda>_. Inr (NDir sample_plugin None)), pf_Perm = (\<lambda>_. sample_perm)\<rparr>"

lemma plugin_keys:
  "ascii_fold ''name'' = ''name''" "ascii_fold ''description'' = ''description''" "ascii_fold ''version'' = ''version''"
  "ascii_fold ''license'' = ''license''" "ascii_fold ''commands'' = ''commands''" "ascii_fold ''agents'' = ''agents''"
  "ascii_fold ''skills'' = ''skills''" "ascii_fold ''hooks'' = ''hooks''" "ascii_fold ''mcpServers'' = ''mcpservers''"
  "ascii_fold ''lspServers'' = ''lspservers''" "ascii_fold ''dependencies'' = ''dependencies''" "ascii_fold ''requires'' = ''requires''"
  by code_simp+

lemma demo_plugin_parse: "parseManifest (parse demo_text) [120] = Inr demo_pm"
proof -
  have "str_of [120] = ''x''" by code_simp
  moreover have "trim_space ''x'' = ''x''" using trim_space_ascii [of "''x''"] by (simp add: ascii_space_def)
  moreover have "dec_struct upd_pluginManifest demo_manifest_doc zero_pluginManifest = (demo_pm, Fine)"
    by (simp add: dec_struct_def demo_manifest_doc_def upd_pluginManifest_def key_eq_def plugin_keys into_def dec_raw_def demo_pm_def)
  ultimately show ?thesis by (simp add: parseManifest_def demo_text_def maxManifestSize_def)
qed

lemma demo_plugin_read: "readPluginDirectory (parse demo_text) demo_plugin_fs ''/d'' = Inr demo_plugin"
proof -
  have "collectPluginFiles sample_perm (NDir sample_plugin None) = Inr [(''.mcp.json'', ([3], 420)), (''bin/run.sh'', ([4, 5], 493))]"
    using collect_plugin(1) [OF sample_plugin_wf, of sample_perm] sample_plugin_picked by simp
  moreover have "validatePluginDir demo_plugin_fs ''/d'' = None"
    by (simp add: validatePluginDir_def demo_plugin_fs_def path_clean_def clean_comps_def clean_step_def path_is_abs_def)
  moreover have "check_manifest demo_plugin_fs p = None" for p by (simp add: check_manifest_def demo_plugin_fs_def maxManifestSize_def)
  ultimately show ?thesis
    unfolding readPluginDirectory_def Let_def
    by (simp add: demo_plugin_fs_def demo_plugin_parse demo_plugin_def) (simp add: demo_pm_def)
qed

definition demo_plugin_entries :: "(tar_header \<times> bytes) list" where
  "demo_plugin_entries = map (\<lambda>f. (tar_hdr 0 f, fe_Content f)) (plugin_layer_files demo_plugin)"

definition demo_plugin_env :: "((tar_header \<times> bytes) list, bytes) pack_env" where
  "demo_plugin_env = \<lparr>pe_sort = sort_key fe_Path,
     pe_tar = log_writer\<lparr>tw_close := (\<lambda>w. if w = demo_plugin_entries then Inr [7] else Inl ''full'')\<rparr>, pe_gzip = demo_gzip\<rparr>"

definition demo_plugin_rd :: tar_stream where
  "demo_plugin_rd = \<lparr>ts_entries = map (\<lambda>(h, c). (h, \<lparr>rd_data = c, rd_fail = None, rd_joined = False\<rparr>)) demo_plugin_entries, ts_end = None\<rparr>"

lemma demo_plugin_layer: "plugin_createContentLayer demo_plugin_env demo_plugin demo_opts = Inr ([31, 139, 7], [7])"
  by code_simp

lemma demo_plugin_codec:
  assumes "write_entries (pe_tar demo_plugin_env) es (tw_new (pe_tar demo_plugin_env)) = Inr w" "tw_close (pe_tar demo_plugin_env) w = Inr b"
  shows "list_all2 same_entry (ts_entries demo_plugin_rd) es \<and> ts_end demo_plugin_rd = None"
proof -
  have "write_entries (log_writer\<lparr>tw_close := f\<rparr>) es v = write_entries log_writer es v" for f es v
    by (induction es arbitrary: v) (auto simp: log_writer_def)
  then have "w = es"
    using assms(1) log_writer_entries [of log_writer es "[]" w] by (simp add: demo_plugin_env_def) (simp add: log_writer_def)
  then have "es = demo_plugin_entries" using assms(2) by (auto simp: demo_plugin_env_def split: if_splits)
  then show ?thesis by (auto simp: demo_plugin_rd_def same_entry_def list_all2_map1 intro!: list_all2_refl)
qed

theorem plugin_layer_round_trip_witness:
  "\<exists>fs. DecompressTar (\<lambda>z. Inr \<lparr>rd_data = drop 2 z, rd_fail = None, rd_joined = False\<rparr>) (\<lambda>_. demo_plugin_rd) [31, 139, 7] = Inr fs \<and>
     map_of (map entry_pair fs) = map_of [(''.claude-plugin/plugin.json'', [120], 420), (''.mcp.json'', [3], 420), (''bin/run.sh'', [4, 5], 493)]"
proof -
  have tree: "pf_Lstat demo_plugin_fs ''/d'' = Inr (NDir sample_plugin None)" by (simp add: demo_plugin_fs_def)
  have out: "unpacked demo_plugin = [(''.claude-plugin/plugin.json'', [120], 420), (''.mcp.json'', [3], 420), (''bin/run.sh'', [4, 5], 493)]"
    by code_simp
  have "\<exists>fs. DecompressTar (\<lambda>z. Inr \<lparr>rd_data = drop 2 z, rd_fail = None, rd_joined = False\<rparr>) (\<lambda>_. demo_plugin_rd) [31, 139, 7] = Inr fs \<and>
     pc_Files (pluginConfig demo_plugin) = Some (map fe_Path fs) \<and> map_of (map entry_pair fs) = map_of (unpacked demo_plugin)"
  proof (rule plugin_layer_round_trip [OF _ demo_plugin_codec _ tree sample_plugin_wf demo_plugin_read demo_plugin_layer])
    show "mset (pe_sort demo_plugin_env fs) = mset fs \<and> sorted (map fe_Path (pe_sort demo_plugin_env fs))" for fs
      by (simp add: demo_plugin_env_def)
  qed (auto simp: demo_plugin_env_def demo_gzip_def demo_plugin_def MaxTarFileSize_def MaxDecompressedSize_def sublist_eval split: if_splits)
  then show ?thesis unfolding out by blast
qed

end
