(* ===== verification/Audit_Trail.thy ===== *)
theory Audit_Trail
  imports Go_Prelude
begin

text \<open>
  Audit events and the delegation chains they carry (\<open>audit/delegation.go\<close>, \<open>audit/event.go\<close>, \<open>audit/logger.go\<close>).

  A decoded claim (\<open>any\<close>) is a tree of type \<open>aval\<close>: nil, a string, a \<open>map[string]any\<close>, a map of another type whose keys are strings, or
  anything else. The walk down the nested \<open>act\<close> claims is a recursion on the size of that tree. A slice that may
  be nil is an option. What \<open>slog\<close> hands to a handler is a tree of type \<open>sval\<close>; the identifier and the time of
  an event are arguments.
\<close>

section \<open>Decoded claims\<close>

datatype aval =
    ANil
  | AStr string
  | AMap "(string \<times> aval) list"
  | ANamedMap "(string \<times> aval) list"
  | AOther nat

type_synonym claims = "(string \<times> aval) list"

definition asStringMap :: "aval \<Rightarrow> claims option" where
  "asStringMap v = (case v of AMap m \<Rightarrow> Some m | ANamedMap m \<Rightarrow> Some m | _ \<Rightarrow> None)"

abbreviation hopClaimIss :: string where "hopClaimIss \<equiv> ''iss''"
abbreviation hopClaimSub :: string where "hopClaimSub \<equiv> ''sub''"
abbreviation hopClaimAct :: string where "hopClaimAct \<equiv> ''act''"

definition is_AStr :: "aval \<Rightarrow> bool" where
  "is_AStr v = (case v of AStr _ \<Rightarrow> True | _ \<Rightarrow> False)"

definition claims_size :: "claims \<Rightarrow> nat" where
  "claims_size m = size (AMap m)"

lemma map_of_claims_size: "map_of m k = Some v \<Longrightarrow> size v < claims_size m"
  by (induction m) (auto simp: claims_size_def split: if_splits)

lemma asStringMap_size: "asStringMap v = Some m \<Longrightarrow> claims_size m \<le> size v"
  by (cases v) (auto simp: asStringMap_def claims_size_def)

lemma nested_claims_size [termination_simp]:
  "map_of m k = Some v \<Longrightarrow> asStringMap v = Some m' \<Longrightarrow> claims_size m' < claims_size m"
  using map_of_claims_size[of m k v] asStringMap_size[of v m'] by linarith

section \<open>Chains\<close>

record DelegatedActor =
  Issuer :: string
  Subject :: string
  extra :: claims

type_synonym MalformedReason = string

abbreviation MalformedReasonActNotObject :: MalformedReason where
  "MalformedReasonActNotObject \<equiv> ''act_not_object''"
abbreviation MalformedReasonNestedActNotObject :: MalformedReason where
  "MalformedReasonNestedActNotObject \<equiv> ''nested_act_not_object''"
abbreviation MalformedReasonIssNotString :: MalformedReason where
  "MalformedReasonIssNotString \<equiv> ''iss_not_string''"
abbreviation MalformedReasonSubNotString :: MalformedReason where
  "MalformedReasonSubNotString \<equiv> ''sub_not_string''"

text \<open>\<open>Chain = None\<close> is a nil slice.\<close>

record DelegationChain =
  Chain :: "DelegatedActor list option"
  Truncated :: bool
  Omitted :: int
  Malformed :: bool
  Reason :: MalformedReason

definition DefaultMaxDelegationDepth :: int where
  "DefaultMaxDelegationDepth = 16"

definition hops_of :: "DelegationChain \<Rightarrow> DelegatedActor list" where
  "hops_of c = (case Chain c of None \<Rightarrow> [] | Some hs \<Rightarrow> hs)"

definition actor_String :: "DelegatedActor \<Rightarrow> string" where
  "actor_String a = ''{iss:'' @ Issuer a @ '' sub:'' @ Subject a @ ''}''"

definition Extra :: "DelegatedActor \<Rightarrow> claims option" where
  "Extra a = (if extra a = [] then None else Some (extra a))"

text \<open>A nil pointer to a chain is \<open>None\<close>.\<close>

definition IsZero :: "DelegationChain option \<Rightarrow> bool" where
  "IsZero c = (case c of None \<Rightarrow> True
    | Some c \<Rightarrow> hops_of c = [] \<and> \<not> Truncated c \<and> \<not> Malformed c)"

definition flagMalformed :: "MalformedReason \<Rightarrow> DelegationChain \<Rightarrow> DelegationChain" where
  "flagMalformed reason c =
     (let c = c\<lparr>Malformed := True\<rparr> in
      if Reason c = [] then c\<lparr>Reason := reason\<rparr> else c)"

fun extraClaims :: "claims \<Rightarrow> claims" where
  "extraClaims [] = []"
| "extraClaims ((k, v) # hop) =
     (if k = hopClaimAct then extraClaims hop
      else if (k = hopClaimIss \<or> k = hopClaimSub) \<and> is_AStr v then extraClaims hop
      else (k, v) # extraClaims hop)"

function countRemainingHops :: "claims \<Rightarrow> nat \<times> bool" where
  "countRemainingHops current =
     (case map_of current hopClaimAct of
        None \<Rightarrow> (1, False)
      | Some nxt \<Rightarrow>
          if nxt = ANil then (1, False)
          else (case asStringMap nxt of
                  None \<Rightarrow> (1, True)
                | Some nm \<Rightarrow> (let (n, bad) = countRemainingHops nm in (Suc n, bad))))"
  by pat_completeness auto
termination by (relation "measure claims_size") (auto simp: nested_claims_size)

declare countRemainingHops.simps [simp del]

text \<open>One iteration: the hop of a node, and the flags its identifiers raise.\<close>

definition set_iss :: "claims \<Rightarrow> DelegatedActor \<times> DelegationChain \<Rightarrow> DelegatedActor \<times> DelegationChain" where
  "set_iss current hc =
     (case map_of current hopClaimIss of
        None \<Rightarrow> hc
      | Some (AStr iss) \<Rightarrow> ((fst hc)\<lparr>Issuer := iss\<rparr>, snd hc)
      | Some _ \<Rightarrow> (fst hc, flagMalformed MalformedReasonIssNotString (snd hc)))"

definition set_sub :: "claims \<Rightarrow> DelegatedActor \<times> DelegationChain \<Rightarrow> DelegatedActor \<times> DelegationChain" where
  "set_sub current hc =
     (case map_of current hopClaimSub of
        None \<Rightarrow> hc
      | Some (AStr sub) \<Rightarrow> ((fst hc)\<lparr>Subject := sub\<rparr>, snd hc)
      | Some _ \<Rightarrow> (fst hc, flagMalformed MalformedReasonSubNotString (snd hc)))"

definition append_hop :: "DelegatedActor \<Rightarrow> DelegationChain \<Rightarrow> DelegationChain" where
  "append_hop hop c = c\<lparr>Chain := Some (hops_of c @ [hop])\<rparr>"

function parse_loop :: "int \<Rightarrow> int \<Rightarrow> claims \<Rightarrow> DelegationChain \<Rightarrow> DelegationChain" where
  "parse_loop maxDepth depth current chain =
     (if depth \<ge> maxDepth then
        (let chain = chain\<lparr>Truncated := True\<rparr>;
             (omitted, malformed) = countRemainingHops current;
             chain = chain\<lparr>Omitted := Omitted chain + int omitted\<rparr>
         in if malformed then flagMalformed MalformedReasonNestedActNotObject chain else chain)
      else
        (let hop = \<lparr>Issuer = [], Subject = [], extra = extraClaims current\<rparr>;
             (hop, chain) = set_sub current (set_iss current (hop, chain));
             chain = append_hop hop chain
         in case map_of current hopClaimAct of
              None \<Rightarrow> chain
            | Some nxt \<Rightarrow>
                if nxt = ANil then chain
                else (case asStringMap nxt of
                        None \<Rightarrow> flagMalformed MalformedReasonNestedActNotObject chain
                      | Some nextMap \<Rightarrow> parse_loop maxDepth (depth + 1) nextMap chain)))"
  by pat_completeness auto
termination
  by (relation "measure (\<lambda>(md, d, m, c). claims_size m)") (auto simp: nested_claims_size)

declare parse_loop.simps [simp del]

definition empty_chain :: DelegationChain where
  "empty_chain = \<lparr>Chain = Some [], Truncated = False, Omitted = 0, Malformed = False, Reason = []\<rparr>"

definition ParseDelegationChain :: "aval \<Rightarrow> int \<Rightarrow> DelegationChain" where
  "ParseDelegationChain raw maxDepth =
     (let maxDepth = (if maxDepth \<le> 0 then DefaultMaxDelegationDepth else maxDepth) in
      if raw = ANil then empty_chain
      else (case asStringMap raw of
              None \<Rightarrow> flagMalformed MalformedReasonActNotObject empty_chain
            | Some current \<Rightarrow> parse_loop maxDepth 0 current empty_chain))"

section \<open>Reference: the flattened claim\<close>

text \<open>All nodes of a claim from the outside in, and whether the walk ends on something that is not an object.\<close>

function nodes :: "claims \<Rightarrow> claims list \<times> bool" where
  "nodes m =
     (case map_of m hopClaimAct of
        None \<Rightarrow> ([m], False)
      | Some nxt \<Rightarrow>
          if nxt = ANil then ([m], False)
          else (case asStringMap nxt of
                  None \<Rightarrow> ([m], True)
                | Some m' \<Rightarrow> (m # fst (nodes m'), snd (nodes m'))))"
  by pat_completeness auto
termination by (relation "measure claims_size") (auto simp: nested_claims_size)

declare nodes.simps [simp del]

definition str_claim :: "string \<Rightarrow> claims \<Rightarrow> string" where
  "str_claim k m = (case map_of m k of Some (AStr s) \<Rightarrow> s | _ \<Rightarrow> [])"

definition bad_claim :: "string \<Rightarrow> claims \<Rightarrow> bool" where
  "bad_claim k m = (case map_of m k of None \<Rightarrow> False | Some v \<Rightarrow> \<not> is_AStr v)"

definition hop_of :: "claims \<Rightarrow> DelegatedActor" where
  "hop_of m = \<lparr>Issuer = str_claim hopClaimIss m, Subject = str_claim hopClaimSub m,
               extra = filter (\<lambda>(k, v). k \<noteq> hopClaimAct \<and> (k \<in> {hopClaimIss, hopClaimSub} \<longrightarrow> \<not> is_AStr v)) m\<rparr>"

text \<open>The violations a kept node shows, in the order they are met.\<close>

definition violations :: "claims \<Rightarrow> MalformedReason list" where
  "violations m = (if bad_claim hopClaimIss m then [MalformedReasonIssNotString] else []) @
                  (if bad_claim hopClaimSub m then [MalformedReasonSubNotString] else [])"

definition all_violations :: "nat \<Rightarrow> claims list \<times> bool \<Rightarrow> MalformedReason list" where
  "all_violations md nb = concat (map violations (take md (fst nb))) @
     (if snd nb then [MalformedReasonNestedActNotObject] else [])"

definition chain_spec :: "nat \<Rightarrow> claims list \<times> bool \<Rightarrow> DelegationChain" where
  "chain_spec md nb =
     \<lparr>Chain = Some (map hop_of (take md (fst nb))),
      Truncated = (md < length (fst nb)),
      Omitted = int (length (fst nb) - md),
      Malformed = (all_violations md nb \<noteq> []),
      Reason = (case all_violations md nb of [] \<Rightarrow> [] | r # _ \<Rightarrow> r)\<rparr>"

section \<open>Parsing meets the reference\<close>

lemma flagMalformed_fields [simp]:
  "Chain (flagMalformed r c) = Chain c" "Truncated (flagMalformed r c) = Truncated c"
  "Omitted (flagMalformed r c) = Omitted c" "Malformed (flagMalformed r c)"
  "Reason (flagMalformed r c) = (if Reason c = [] then r else Reason c)"
  "hops_of (flagMalformed r c) = hops_of c"
  by (simp_all add: flagMalformed_def Let_def hops_of_def)

lemma fold_flagMalformed:
  "[] \<notin> set vs \<Longrightarrow> fold flagMalformed vs c =
     c\<lparr>Malformed := Malformed c \<or> vs \<noteq> [],
       Reason := (if Reason c = [] then (case vs of [] \<Rightarrow> [] | r # _ \<Rightarrow> r) else Reason c)\<rparr>"
proof (induction vs arbitrary: c)
  case Nil
  then show ?case by simp
next
  case (Cons v vs)
  then have "v \<noteq> []" by auto
  with Cons show ?case by (cases "Reason c = []") (simp_all add: flagMalformed_def Let_def)
qed

lemma violations_nonempty: "[] \<notin> set (all_violations k nb)"
  by (auto simp: all_violations_def violations_def)

lemma extraClaims_filter: "extraClaims m = extra (hop_of m)"
  by (induction m) (auto simp: hop_of_def)

lemma countRemainingHops_nodes: "countRemainingHops m = (length (fst (nodes m)), snd (nodes m))"
proof (induction m rule: countRemainingHops.induct)
  case (1 m)
  then show ?case
    by (simp add: countRemainingHops.simps[of m] nodes.simps[of m] split: option.split)
qed

lemma nodes_not_Nil: "fst (nodes m) \<noteq> []"
  by (subst nodes.simps) (auto split: option.splits)

lemma set_iss_hop:
  "set_iss m (h, c) = (h\<lparr>Issuer := (if str_claim hopClaimIss m = [] then Issuer h else str_claim hopClaimIss m)\<rparr>,
     fold flagMalformed (if bad_claim hopClaimIss m then [MalformedReasonIssNotString] else []) c)"
  if "Issuer h = []"
  using that by (auto simp: set_iss_def str_claim_def bad_claim_def is_AStr_def split: option.split aval.split)

lemma set_sub_hop:
  "set_sub m (h, c) = (h\<lparr>Subject := (if str_claim hopClaimSub m = [] then Subject h else str_claim hopClaimSub m)\<rparr>,
     fold flagMalformed (if bad_claim hopClaimSub m then [MalformedReasonSubNotString] else []) c)"
  if "Subject h = []"
  using that by (auto simp: set_sub_def str_claim_def bad_claim_def is_AStr_def split: option.split aval.split)

lemma node_step:
  "set_sub m (set_iss m (\<lparr>Issuer = [], Subject = [], extra = extraClaims m\<rparr>, c)) =
     (hop_of m, fold flagMalformed (violations m) c)"
  by (simp add: set_iss_hop set_sub_hop extraClaims_filter violations_def) (simp add: hop_of_def)

text \<open>What a run of the loop with \<open>k\<close> hops left adds to a chain.\<close>

definition extend :: "nat \<Rightarrow> claims list \<times> bool \<Rightarrow> DelegationChain \<Rightarrow> DelegationChain" where
  "extend k nb c = fold flagMalformed (all_violations k nb)
     (c\<lparr>Chain := Some (hops_of c @ map hop_of (take k (fst nb))),
        Truncated := Truncated c \<or> k < length (fst nb),
        Omitted := Omitted c + int (length (fst nb) - k)\<rparr>)"

lemma fold_flag_append_hop: "append_hop h (fold flagMalformed vs c) = fold flagMalformed vs (append_hop h c)"
proof (induction vs arbitrary: c)
  case Nil
  then show ?case by simp
next
  case (Cons v vs)
  have "append_hop h (flagMalformed v c) = flagMalformed v (append_hop h c)"
    by (simp add: append_hop_def flagMalformed_def Let_def hops_of_def)
  with Cons show ?case by simp
qed

lemma fold_flag_upd:
  "(fold flagMalformed vs c)\<lparr>Chain := x, Truncated := t, Omitted := n\<rparr> =
   fold flagMalformed vs (c\<lparr>Chain := x, Truncated := t, Omitted := n\<rparr>)"
proof (induction vs arbitrary: c)
  case Nil
  then show ?case by simp
next
  case (Cons v vs)
  have "(flagMalformed v c)\<lparr>Chain := x, Truncated := t, Omitted := n\<rparr> =
        flagMalformed v (c\<lparr>Chain := x, Truncated := t, Omitted := n\<rparr>)"
    by (simp add: flagMalformed_def Let_def)
  then show ?case by (simp only: fold_Cons o_apply Cons.IH)
qed

lemma fold_flag_fields [simp]:
  "hops_of (fold flagMalformed vs c) = hops_of c" "Truncated (fold flagMalformed vs c) = Truncated c"
  "Omitted (fold flagMalformed vs c) = Omitted c" "Chain (fold flagMalformed vs c) = Chain c"
  by (induction vs arbitrary: c) simp_all

lemma append_hop_fields [simp]:
  "hops_of (append_hop h c) = hops_of c @ [h]" "Truncated (append_hop h c) = Truncated c"
  "Omitted (append_hop h c) = Omitted c" "Chain (append_hop h c) = Some (hops_of c @ [h])"
  by (simp_all add: append_hop_def hops_of_def)

lemma hops_of_upd [simp]: "hops_of (c\<lparr>Chain := Some hs\<rparr>) = hs"
  by (simp add: hops_of_def)

lemma extend_Suc:
  "extend k (ns, b) (fold flagMalformed (violations m) (append_hop (hop_of m) c)) = extend (Suc k) (m # ns, b) c"
  by (simp add: extend_def fold_flag_upd all_violations_def append_hop_def)

lemma extend_last:
  "extend (Suc k) ([m], b) c =
     fold flagMalformed (violations m @ (if b then [MalformedReasonNestedActNotObject] else [])) (append_hop (hop_of m) c)"
  by (simp add: extend_def all_violations_def append_hop_def)

lemma parse_loop_extend:
  "Chain c \<noteq> None \<Longrightarrow> parse_loop md d m c = extend (nat (md - d)) (nodes m) c"
proof (induction md d m c rule: parse_loop.induct)
  case (1 md d m c)
  show ?case
  proof (cases "d \<ge> md")
    case True
    then show ?thesis using 1(2) nodes_not_Nil[of m]
      by (subst parse_loop.simps)
         (auto simp: countRemainingHops_nodes extend_def all_violations_def hops_of_def Let_def)
  next
    case False
    define c' where "c' = append_hop (hop_of m) (fold flagMalformed (violations m) c)"
    obtain k where k: "nat (md - d) = Suc k" "nat (md - (d + 1)) = k"
      using False by (metis Suc_nat_eq_nat_zadd1 add.commute diff_diff_add diff_add_cancel int_one_le_iff_zero_less
          le_add_same_cancel2 linorder_not_le diff_gt_0_iff_gt zle_diff1_eq)
    have loop: "parse_loop md d m c =
      (case map_of m hopClaimAct of None \<Rightarrow> c'
       | Some nxt \<Rightarrow> if nxt = ANil then c'
           else (case asStringMap nxt of None \<Rightarrow> flagMalformed MalformedReasonNestedActNotObject c'
                 | Some m' \<Rightarrow> parse_loop md (d + 1) m' c'))"
      unfolding c'_def using False by (subst parse_loop.simps) (simp add: node_step Let_def)
    have ih: "parse_loop md (d + 1) m' c' = extend k (nodes m') c'"
      if "map_of m hopClaimAct = Some v" "v \<noteq> ANil" "asStringMap v = Some m'" for v m'
    proof -
      have "set_sub m (set_iss m (\<lparr>Issuer = [], Subject = [], extra = extraClaims m\<rparr>, c)) =
              (hop_of m, fold flagMalformed (violations m) c)" by (rule node_step)
      from 1(1)[OF False refl this[symmetric] refl c'_def that] show ?thesis using k by (simp add: c'_def)
    qed
    have c': "c' = fold flagMalformed (violations m) (append_hop (hop_of m) c)"
      by (simp add: c'_def fold_flag_append_hop)
    have ext: "extend (Suc k) (m # fst nb, snd nb) c = extend k nb c'" for nb
      using extend_Suc[of k "fst nb" "snd nb" m c] by (simp add: c')
    show ?thesis
      unfolding loop k(1)
      by (subst nodes.simps)
         (auto simp: ih extend_last ext c'[symmetric] split: option.split)
  qed
qed

definition depth_cap :: "int \<Rightarrow> nat" where
  "depth_cap maxDepth = nat (if maxDepth \<le> 0 then 16 else maxDepth)"

lemma depth_cap_pos: "0 < depth_cap d"
  by (simp add: depth_cap_def)

lemma extend_empty: "extend k nb empty_chain = chain_spec k nb"
  by (simp add: extend_def empty_chain_def chain_spec_def fold_flagMalformed violations_nonempty hops_of_def)

lemma parse_loop_empty: "parse_loop md 0 m empty_chain = chain_spec (nat md) (nodes m)"
  using parse_loop_extend[of empty_chain md 0 m] by (simp add: extend_empty) (simp add: empty_chain_def)

lemma ParseDelegationChain_obj:
  "asStringMap raw = Some m \<Longrightarrow> ParseDelegationChain raw d = chain_spec (depth_cap d) (nodes m)"
  by (auto simp: ParseDelegationChain_def parse_loop_empty depth_cap_def DefaultMaxDelegationDepth_def asStringMap_def Let_def)

lemma ParseDelegationChain_nil: "ParseDelegationChain ANil d = empty_chain"
  by (simp add: ParseDelegationChain_def Let_def)

lemma ParseDelegationChain_other:
  "asStringMap raw = None \<Longrightarrow> raw \<noteq> ANil \<Longrightarrow>
     ParseDelegationChain raw d = empty_chain\<lparr>Malformed := True, Reason := MalformedReasonActNotObject\<rparr>"
  by (simp add: ParseDelegationChain_def Let_def flagMalformed_def) (simp add: empty_chain_def)

text \<open>
  C21. Parsing is total, and its result is the reference chain of the flattened claim: nil gives the zero chain; something
  that is not an object gives no hops and the first reason; an object gives its outermost nodes up to the cap, with
  the number of nodes dropped, and the first violation found from the outside in.
\<close>
theorem ParseDelegationChain_spec:
  "ParseDelegationChain raw maxDepth =
     (case raw of
        ANil \<Rightarrow> \<lparr>Chain = Some [], Truncated = False, Omitted = 0, Malformed = False, Reason = []\<rparr>
      | AMap m \<Rightarrow> chain_spec (depth_cap maxDepth) (nodes m)
      | ANamedMap m \<Rightarrow> chain_spec (depth_cap maxDepth) (nodes m)
      | _ \<Rightarrow> \<lparr>Chain = Some [], Truncated = False, Omitted = 0, Malformed = True,
              Reason = MalformedReasonActNotObject\<rparr>)"
  by (cases raw)
     (simp_all add: ParseDelegationChain_obj ParseDelegationChain_nil ParseDelegationChain_other asStringMap_def,
      simp_all add: empty_chain_def)

lemma delegation_hops: "asStringMap raw = Some m \<Longrightarrow> hops_of (ParseDelegationChain raw d) \<noteq> []"
  using nodes_not_Nil[of m] depth_cap_pos[of d]
  by (simp add: ParseDelegationChain_obj chain_spec_def hops_of_def)

text \<open>
  For an object claim, whatever the cap: the chain is never longer than the cap and never empty, kept and omitted hops add up to the nodes of the
  claim, the hop of the current actor is the same for every cap, and a chain that is neither truncated nor malformed
  shows every node of a conformant claim.
\<close>
theorem delegation_truncation:
  assumes obj: "asStringMap raw = Some m"
  shows "let c = ParseDelegationChain raw maxDepth; ns = fst (nodes m) in
           hops_of c \<noteq> [] \<and> hd (hops_of c) = hop_of m \<and>
           length (hops_of c) \<le> depth_cap maxDepth \<and>
           int (length (hops_of c)) + Omitted c = int (length ns) \<and>
           (Truncated c \<longleftrightarrow> Omitted c > 0) \<and>
           (\<not> Truncated c \<and> \<not> Malformed c \<longleftrightarrow>
              length ns \<le> depth_cap maxDepth \<and> \<not> snd (nodes m) \<and>
              (\<forall>n \<in> set ns. \<not> bad_claim hopClaimIss n \<and> \<not> bad_claim hopClaimSub n))"
proof -
  note p = ParseDelegationChain_obj[OF obj, of maxDepth]
  have ns: "fst (nodes m) = m # tl (fst (nodes m))"
    by (subst (1 2) nodes.simps) (simp split: option.split)
  obtain k where k: "depth_cap maxDepth = Suc k" using depth_cap_pos[of maxDepth] by (cases "depth_cap maxDepth") auto
  have v: "violations n = [] \<longleftrightarrow> \<not> bad_claim hopClaimIss n \<and> \<not> bad_claim hopClaimSub n" for n
    by (simp add: violations_def)
  have hd: "hd (map hop_of (take (depth_cap maxDepth) (fst (nodes m)))) = hop_of m"
    by (subst ns) (simp add: k)
  show ?thesis
    using nodes_not_Nil[of m] depth_cap_pos[of maxDepth] hd
    by (auto simp: p chain_spec_def hops_of_def all_violations_def v min_def Let_def)
qed

definition sample_claim :: aval where
  "sample_claim = AMap [(''sub'', AStr ''agent''), (''role'', AStr ''admin''),
     (''act'', ANamedMap [(''iss'', AOther 7), (''act'', AMap [(''sub'', AStr ''first'')])])]"

text \<open>With a cap of two, the third actor is dropped and counted, and the unusable issuer of the second is recorded.\<close>

theorem delegation_truncation_witness:
  "\<exists>m. asStringMap sample_claim = Some m \<and>
     hops_of (ParseDelegationChain sample_claim 2) \<noteq> [] \<and>
     hd (hops_of (ParseDelegationChain sample_claim 2)) = hop_of m \<and>
     int (length (hops_of (ParseDelegationChain sample_claim 2))) + Omitted (ParseDelegationChain sample_claim 2) = 3"
proof -
  obtain m where m: "asStringMap sample_claim = Some m" by (simp add: sample_claim_def asStringMap_def)
  have n: "length (fst (nodes m)) = 3"
    using m by (auto simp: sample_claim_def asStringMap_def nodes.simps)
  show ?thesis using delegation_truncation[OF m, of 2] m n by (simp add: Let_def)
qed

text \<open>
  A hop past the cap whose identifiers are not strings is counted and leaves no other trace: the walk over dropped hops looks
  at \<open>act\<close> only.
\<close>
lemma identifier_violation_past_cap_unflagged:
  "ParseDelegationChain (AMap [(''act'', AMap [(''sub'', AOther 0)])]) 1 =
     \<lparr>Chain = Some [\<lparr>Issuer = [], Subject = [], extra = []\<rparr>], Truncated = True, Omitted = 1, Malformed = False, Reason = []\<rparr>"
proof -
  have "nodes [(''act'', AMap [(''sub'', AOther 0)])] =
          ([[(''act'', AMap [(''sub'', AOther 0)])], [(''sub'', AOther 0)]], False)"
    by (simp add: nodes.simps asStringMap_def)
  then show ?thesis
    using ParseDelegationChain_obj[of "AMap [(''act'', AMap [(''sub'', AOther 0)])]" "[(''act'', AMap [(''sub'', AOther 0)])]" 1]
    by (simp add: asStringMap_def depth_cap_def chain_spec_def all_violations_def violations_def bad_claim_def hop_of_def
        str_claim_def)
qed

section \<open>Rendering a chain\<close>

text \<open>
  What \<open>slog\<close> passes to a handler. \<open>SChain\<close> is a chain still to be resolved through its \<open>LogValue\<close> method; nil maps are
  \<open>None\<close>.
\<close>

datatype sval =
    SStr string | SBool bool | SInt int | STime int | SLevel int | SRaw string
  | SHops "(string \<times> string) list list"
  | SStrMap "(string \<times> string) list option"
  | SAnyMap "claims option"
  | SGroup "(string \<times> sval) list"
  | SChain DelegationChain

type_synonym attr = "string \<times> sval"

definition logged_hop :: "DelegatedActor \<Rightarrow> (string \<times> string) list" where
  "logged_hop hop = (if Issuer hop \<noteq> [] then [(hopClaimIss, Issuer hop)] else []) @
                    (if Subject hop \<noteq> [] then [(hopClaimSub, Subject hop)] else [])"

definition LogValue :: "DelegationChain option \<Rightarrow> sval" where
  "LogValue c = (case c of
      None \<Rightarrow> SGroup []
    | Some c \<Rightarrow> SGroup
        ([(''chain'', SHops (map logged_hop (hops_of c))),
          (''truncated'', SBool (Truncated c)),
          (''omitted'', SInt (Omitted c)),
          (''malformed'', SBool (Malformed c))] @
         (if Reason c \<noteq> [] then [(''malformedReason'', SStr (Reason c))] else [])))"

text \<open>The encoding of the two structs by their JSON tags: \<open>omitempty\<close> on \<open>iss\<close>, \<open>sub\<close> and \<open>malformedReason\<close>, the unexported map left out.\<close>

definition actor_json :: "DelegatedActor \<Rightarrow> json" where
  "actor_json a = JObj ((if Issuer a \<noteq> [] then [(''iss'', JStr (Issuer a))] else []) @
                        (if Subject a \<noteq> [] then [(''sub'', JStr (Subject a))] else []))"

definition chain_json :: "DelegationChain \<Rightarrow> json" where
  "chain_json c = JObj
     ([(''chain'', case Chain c of None \<Rightarrow> JNull | Some hs \<Rightarrow> JArr (map actor_json hs)),
       (''truncated'', JBool (Truncated c)),
       (''omitted'', JNum (Omitted c)),
       (''malformed'', JBool (Malformed c))] @
      (if Reason c \<noteq> [] then [(''malformedReason'', JStr (Reason c))] else []))"

text \<open>The JSON handler's rendering of resolved values; times, levels and maps of arbitrary values are rendered by \<open>other\<close>.\<close>

fun slog_json :: "(sval \<Rightarrow> json) \<Rightarrow> sval \<Rightarrow> json" where
  "slog_json other (SStr s) = JStr s"
| "slog_json other (SBool b) = JBool b"
| "slog_json other (SInt n) = JNum n"
| "slog_json other (SHops hs) = JArr (map (\<lambda>h. JObj (map (\<lambda>(k, v). (k, JStr v)) h)) hs)"
| "slog_json other (SGroup as) = JObj (map (\<lambda>(k, v). (k, slog_json other v)) as)"
| "slog_json other v = other v"

lemma LogValue_json: "Chain c \<noteq> None \<Longrightarrow> slog_json other (LogValue (Some c)) = chain_json c"
  by (auto simp: LogValue_def chain_json_def hops_of_def actor_json_def logged_hop_def)

text \<open>The two renderings differ on a chain built by hand with a nil slice: \<open>null\<close> in JSON, an empty array in the log.\<close>

lemma nil_chain_renderings_differ:
  "slog_json other (LogValue (Some \<lparr>Chain = None, Truncated = False, Omitted = 0, Malformed = True, Reason = []\<rparr>))
     \<noteq> chain_json \<lparr>Chain = None, Truncated = False, Omitted = 0, Malformed = True, Reason = []\<rparr>"
  by (simp add: LogValue_def chain_json_def hops_of_def)

section \<open>Events\<close>

record EventMetadata =
  AuditID :: string
  md_Extra :: "claims option"

record EventSource =
  es_Type :: string
  es_Value :: string
  es_Extra :: "claims option"

record AuditEvent =
  Metadata :: EventMetadata
  ev_Type :: string
  LoggedAt :: int
  Source :: EventSource
  Outcome :: string
  Subjects :: "(string \<times> string) list option"
  Component :: string
  Target :: "(string \<times> string) list option"
  Data :: "string option"
  ev_Chain :: "DelegationChain option"

text \<open>\<open>uuid\<close> and \<open>now\<close> are the results of \<open>uuid.New().String()\<close> and \<open>time.Now().UTC()\<close>.\<close>

definition NewAuditEventWithID ::
  "int \<Rightarrow> string \<Rightarrow> string \<Rightarrow> EventSource \<Rightarrow> string \<Rightarrow> (string \<times> string) list option \<Rightarrow> string \<Rightarrow> AuditEvent" where
  "NewAuditEventWithID now auditID eventType source outcome subjects component =
     \<lparr>Metadata = \<lparr>AuditID = auditID, md_Extra = None\<rparr>, ev_Type = eventType, LoggedAt = now, Source = source,
      Outcome = outcome, Subjects = subjects, Component = component, Target = None, Data = None, ev_Chain = None\<rparr>"

definition NewAuditEvent ::
  "string \<Rightarrow> int \<Rightarrow> string \<Rightarrow> EventSource \<Rightarrow> string \<Rightarrow> (string \<times> string) list option \<Rightarrow> string \<Rightarrow> AuditEvent" where
  "NewAuditEvent uuid now eventType source outcome subjects component =
     \<lparr>Metadata = \<lparr>AuditID = uuid, md_Extra = None\<rparr>, ev_Type = eventType, LoggedAt = now, Source = source,
      Outcome = outcome, Subjects = subjects, Component = component, Target = None, Data = None, ev_Chain = None\<rparr>"

definition WithTarget :: "(string \<times> string) list option \<Rightarrow> AuditEvent \<Rightarrow> AuditEvent" where
  "WithTarget target e = e\<lparr>Target := target\<rparr>"

definition WithData :: "string option \<Rightarrow> AuditEvent \<Rightarrow> AuditEvent" where
  "WithData data e = e\<lparr>Data := data\<rparr>"

definition WithDataFromString :: "string \<Rightarrow> AuditEvent \<Rightarrow> AuditEvent" where
  "WithDataFromString data e = WithData (Some data) e"

definition WithDelegationChain :: "DelegationChain option \<Rightarrow> AuditEvent \<Rightarrow> AuditEvent" where
  "WithDelegationChain chain e =
     (if IsZero chain then e\<lparr>ev_Chain := None\<rparr> else e\<lparr>ev_Chain := chain\<rparr>)"

definition LevelAudit :: int where
  "LevelAudit = 2"

definition log_attrs :: "AuditEvent \<Rightarrow> attr list" where
  "log_attrs e =
     [(''audit_id'', SStr (AuditID (Metadata e))),
      (''type'', SStr (ev_Type e)),
      (''logged_at'', STime (LoggedAt e)),
      (''outcome'', SStr (Outcome e)),
      (''component'', SStr (Component e)),
      (''source'', SGroup [(''type'', SStr (es_Type (Source e))),
                           (''value'', SStr (es_Value (Source e))),
                           (''extra'', SAnyMap (es_Extra (Source e)))]),
      (''subjects'', SStrMap (Subjects e))] @
     (if Target e \<noteq> None then [(''target'', SStrMap (Target e))] else []) @
     (if md_Extra (Metadata e) \<noteq> None then [(''metadata'', SGroup [(''extra'', SAnyMap (md_Extra (Metadata e)))])] else []) @
     (case Data e of None \<Rightarrow> [] | Some d \<Rightarrow> [(''data'', SRaw d)]) @
     (case ev_Chain e of
        None \<Rightarrow> []
      | Some c \<Rightarrow> if \<not> IsZero (Some c) then [(''delegation'', SChain c)] else [])"

section \<open>The audit logger\<close>

record 'w slog_logger =
  lg_w :: 'w
  lg_Level :: int
  lg_ReplaceAttr :: "attr \<Rightarrow> attr"

definition audit_ReplaceAttr :: "attr \<Rightarrow> attr" where
  "audit_ReplaceAttr a =
     (if fst a = ''level'' then
        (case snd a of SLevel level \<Rightarrow> if level = LevelAudit then (fst a, SStr ''AUDIT'') else a | _ \<Rightarrow> a)
      else a)"

definition NewAuditLogger :: "'w \<Rightarrow> 'w option \<Rightarrow> 'w slog_logger" where
  "NewAuditLogger stdout w =
     \<lparr>lg_w = (case w of None \<Rightarrow> stdout | Some w \<Rightarrow> w), lg_Level = LevelAudit, lg_ReplaceAttr = audit_ReplaceAttr\<rparr>"

text \<open>
  \<open>slog\<close>: a record below the handler's level is dropped; values are resolved, and \<open>ReplaceAttr\<close> sees every attribute that is
  not a group, the built-in ones first. A chain occurs at the top level of a record only.
\<close>

definition resolve :: "sval \<Rightarrow> sval" where
  "resolve v = (case v of SChain c \<Rightarrow> LogValue (Some c) | _ \<Rightarrow> v)"

primrec replace_val :: "(attr \<Rightarrow> attr) \<Rightarrow> string \<Rightarrow> sval \<Rightarrow> attr" where
  "replace_val f k (SStr s) = f (k, SStr s)"
| "replace_val f k (SBool b) = f (k, SBool b)"
| "replace_val f k (SInt n) = f (k, SInt n)"
| "replace_val f k (STime t) = f (k, STime t)"
| "replace_val f k (SLevel l) = f (k, SLevel l)"
| "replace_val f k (SRaw r) = f (k, SRaw r)"
| "replace_val f k (SHops h) = f (k, SHops h)"
| "replace_val f k (SStrMap m) = f (k, SStrMap m)"
| "replace_val f k (SAnyMap m) = f (k, SAnyMap m)"
| "replace_val f k (SChain c) = f (k, SChain c)"
| "replace_val f k (SGroup as) = (k, SGroup (map (\<lambda>(k, g). g k) (map (map_prod id (\<lambda>v k'. replace_val f k' v)) as)))"

definition LogAttrs :: "'w slog_logger \<Rightarrow> int \<Rightarrow> int \<Rightarrow> string \<Rightarrow> attr list \<Rightarrow> attr list option" where
  "LogAttrs logger now level msg attrs =
     (if level < lg_Level logger then None
      else Some (map (\<lambda>(k, v). replace_val (lg_ReplaceAttr logger) k (resolve v))
             ([(''time'', STime now), (''level'', SLevel level), (''msg'', SStr msg)] @ attrs)))"

definition LogTo :: "'w slog_logger \<Rightarrow> int \<Rightarrow> int \<Rightarrow> AuditEvent \<Rightarrow> attr list option" where
  "LogTo logger now level e = LogAttrs logger now level ''audit_event'' (log_attrs e)"

section \<open>What the log shows\<close>

definition strip :: "DelegationChain \<Rightarrow> DelegationChain" where
  "strip c = c\<lparr>Chain := map_option (map (\<lambda>a. a\<lparr>extra := []\<rparr>)) (Chain c)\<rparr>"

lemma logged_hop_strip: "logged_hop (a\<lparr>extra := x\<rparr>) = logged_hop a"
  by (simp add: logged_hop_def)

lemma hops_of_strip: "hops_of (strip c) = map (\<lambda>a. a\<lparr>extra := []\<rparr>) (hops_of c)"
  by (cases "Chain c") (simp_all add: hops_of_def strip_def)

lemma LogValue_strip: "LogValue (Some (strip c)) = LogValue (Some c)"
  by (simp add: LogValue_def hops_of_strip logged_hop_strip comp_def) (simp add: strip_def)

lemma chain_json_strip: "chain_json (strip c) = chain_json c"
  by (cases "Chain c") (simp_all add: chain_json_def strip_def actor_json_def)

lemma IsZero_strip: "IsZero (Some (strip c)) = IsZero (Some c)"
  by (simp add: IsZero_def hops_of_strip) (simp add: strip_def)

lemma LogTo_strip: "LogTo logger now level (e\<lparr>ev_Chain := map_option strip (ev_Chain e)\<rparr>) = LogTo logger now level e"
  by (cases "ev_Chain e")
     (simp_all add: LogTo_def LogAttrs_def log_attrs_def IsZero_strip resolve_def LogValue_strip del: replace_val.simps)

text \<open>
  No rendering depends on the extra claims of a hop: two events whose chains differ in the extra claims only give the same log record with every logger at
  every level, the same JSON, and the same string for every hop.
\<close>
theorem audit_log_hides_extra:
  assumes "e' = e\<lparr>ev_Chain := Some c'\<rparr>" "ev_Chain e = Some c" "strip c = strip c'"
  shows "LogTo logger now level e = LogTo logger now level e' \<and>
         chain_json c = chain_json c' \<and>
         map actor_String (hops_of c) = map actor_String (hops_of c')"
proof -
  have "e\<lparr>ev_Chain := map_option strip (ev_Chain e)\<rparr> = e'\<lparr>ev_Chain := map_option strip (ev_Chain e')\<rparr>"
    using assms by simp
  then have "LogTo logger now level e = LogTo logger now level e'"
    using LogTo_strip[of logger now level e] LogTo_strip[of logger now level e'] by simp
  moreover have "chain_json c = chain_json c'"
    using chain_json_strip[of c] chain_json_strip[of c'] assms(3) by simp
  moreover have "map actor_String (hops_of (strip d)) = map actor_String (hops_of d)" for d
    by (simp add: hops_of_strip actor_String_def)
  then have "map actor_String (hops_of c) = map actor_String (hops_of c')"
    using assms(3) by metis
  ultimately show ?thesis by simp
qed

definition sample_event :: AuditEvent where
  "sample_event = NewAuditEvent ''id'' 5 ''mcp_tool_call'' \<lparr>es_Type = ''network'', es_Value = ''10.0.0.1'', es_Extra = None\<rparr>
     ''success'' (Some [(''user'', ''alice'')]) ''toolhive-api''"

theorem audit_log_hides_extra_witness:
  "LogTo (NewAuditLogger () None) 0 2 (sample_event\<lparr>ev_Chain := Some (ParseDelegationChain sample_claim 2)\<rparr>) =
   LogTo (NewAuditLogger () None) 0 2 (sample_event\<lparr>ev_Chain := Some (strip (ParseDelegationChain sample_claim 2))\<rparr>)"
proof -
  have "strip (strip c) = strip c" for c
    by (cases "Chain c") (simp_all add: strip_def)
  then show ?thesis
    using audit_log_hides_extra[where e = "sample_event\<lparr>ev_Chain := Some (ParseDelegationChain sample_claim 2)\<rparr>"
        and e' = "sample_event\<lparr>ev_Chain := Some (strip (ParseDelegationChain sample_claim 2))\<rparr>"
        and c = "ParseDelegationChain sample_claim 2" and c' = "strip (ParseDelegationChain sample_claim 2)"
        and logger = "NewAuditLogger () None" and now = 0 and level = 2] by simp
qed

lemma parse_zero_iff: "IsZero (Some (ParseDelegationChain raw d)) \<longleftrightarrow> raw = ANil"
proof (cases "asStringMap raw")
  case (Some m)
  then have "raw \<noteq> ANil" by (auto simp: asStringMap_def)
  with delegation_hops[OF Some, of d] show ?thesis by (simp add: IsZero_def)
next
  case None
  then show ?thesis
    by (cases "raw = ANil")
       (simp_all add: ParseDelegationChain_nil ParseDelegationChain_other IsZero_def hops_of_def empty_chain_def)
qed

lemma parse_chain_Some: "Chain (ParseDelegationChain raw d) \<noteq> None"
  by (cases "asStringMap raw"; cases "raw = ANil")
     (simp_all add: ParseDelegationChain_nil ParseDelegationChain_other ParseDelegationChain_obj chain_spec_def empty_chain_def)

lemma replace_LogValue: "replace_val audit_ReplaceAttr k (LogValue (Some c)) = (k, LogValue (Some c))"
  by (simp add: LogValue_def audit_ReplaceAttr_def)

text \<open>
  From claim to record: an event with a parsed chain, logged at the audit level by the audit logger, is written with the level named AUDIT and its
  identifier; it has a delegation entry exactly if the claim is not nil, and that entry renders as the JSON form of the chain. An
  earlier chain of the event does not survive.
\<close>
theorem delegation_recorded:
  "\<exists>as. LogTo (NewAuditLogger stdout w) now LevelAudit (WithDelegationChain (Some (ParseDelegationChain raw d)) e) = Some as \<and>
     map_of as ''level'' = Some (SStr ''AUDIT'') \<and> map_of as ''audit_id'' = Some (SStr (AuditID (Metadata e))) \<and>
     map_option (slog_json other) (map_of as ''delegation'') =
       (if raw = ANil then None else Some (chain_json (ParseDelegationChain raw d)))"
proof -
  define c where "c = ParseDelegationChain raw d"
  have z: "IsZero (Some c) \<longleftrightarrow> raw = ANil" by (simp add: c_def parse_zero_iff)
  have j: "slog_json other (LogValue (Some c)) = chain_json c"
    using LogValue_json[of c other] parse_chain_Some[of raw d] by (simp add: c_def)
  show ?thesis
    unfolding c_def[symmetric]
    by (auto simp: z LogTo_def LogAttrs_def NewAuditLogger_def log_attrs_def WithDelegationChain_def resolve_def
        replace_LogValue audit_ReplaceAttr_def j LevelAudit_def split: option.split)
qed

end
