(* ===== verification/Net_Mask.thy ===== *)
theory Net_Mask
  imports Go_Prelude
begin

unbundle bit_operations_syntax

text \<open>
  The byte masks that occur in the address prefixes of \<open>networking/utilities.go\<close>, turned into
  ranges: every lemma is a check of the 256 byte values.
\<close>

section \<open>Masks as ranges\<close>

lemma word8_all:
  fixes x :: "8 word"
  assumes "list_all (\<lambda>n. P (word_of_nat n :: 8 word)) [0..<256]"
  shows "P x"
proof -
  have "unat x < 256" using unsigned_less [of x] by simp
  then have "unat x \<in> set [0..<256]" by simp
  with assms have "P (word_of_nat (unat x))" unfolding list_all_iff by blast
  then show ?thesis by simp
qed

lemma upt256: "[0..<256] = 0 # 1 # [2..<256]"
  by (simp add: upt_rec [of 0] upt_rec [of "Suc 0"] numeral_2_eq_2 [symmetric])

lemma and_255 [simp]: "(x :: 8 word) AND 255 = x"
  by (rule word8_all [where x = x]) (simp add: upt256 upt_rec_numeral)

lemma mask_ranges:
  fixes x :: "8 word"
  shows "x AND 240 = 16 \<longleftrightarrow> 16 \<le> x \<and> x \<le> 31"
    "x AND 192 = 64 \<longleftrightarrow> 64 \<le> x \<and> x \<le> 127"
    "x AND 192 = 128 \<longleftrightarrow> 128 \<le> x \<and> x \<le> 191"
    "x AND 240 = 224 \<or> x AND 240 = 240 \<longleftrightarrow> 224 \<le> x"
  by (rule word8_all [where x = x], simp add: upt256 upt_rec_numeral, simp add: word_le_def)+

lemma mask_254: "x AND 254 = 252 \<longleftrightarrow> x = 252 \<or> x = (253 :: 8 word)"
  by (rule word8_all [where x = x]) (simp add: upt256 upt_rec_numeral)

end
