(* ===== verification/Net_Addr.thy ===== *)
theory Net_Addr
  imports Net_Mask
begin

unbundle bit_operations_syntax

text \<open>
  IP addresses as \<open>networking/utilities.go\<close> classifies them: the standard library's \<open>net.IP\<close> (a byte slice
  of length 4 or 16), its parser, prefix matching and predicates, and on top of them the
  repository's block lists, \<open>embeddedIPv4\<close>, \<open>IsPrivateIP\<close>, \<open>AddressReferencesPrivateIp\<close>,
  \<open>IsLoopbackHost\<close> and \<open>ValidateLoopbackAddress\<close>.

  The block lists are parsed from the source's strings by the model of \<open>net.ParseCIDR\<close>. The main
  results compare the mask arithmetic with a reference classification by address ranges.
\<close>

section \<open>net.IP\<close>

type_synonym ip = "8 word list"

definition v4InV6Prefix :: ip where
  "v4InV6Prefix = [0, 0, 0, 0, 0, 0, 0, 0, 0, 0, 255, 255]"

definition IPv4 :: "8 word \<Rightarrow> 8 word \<Rightarrow> 8 word \<Rightarrow> 8 word \<Rightarrow> ip" where
  "IPv4 a b c d = v4InV6Prefix @ [a, b, c, d]"

definition To4 :: "ip \<Rightarrow> ip option" where
  "To4 x = (if length x = 4 then Some x
     else if length x = 16 \<and> take 12 x = v4InV6Prefix then Some (drop 12 x) else None)"

definition To16 :: "ip \<Rightarrow> ip option" where
  "To16 x = (if length x = 4 then Some (v4InV6Prefix @ x)
     else if length x = 16 then Some x else None)"

definition ip_equal :: "ip \<Rightarrow> ip \<Rightarrow> bool" where
  "ip_equal x y \<longleftrightarrow>
     (if length x = length y then x = y
      else if length x = 4 \<and> length y = 16 then y = v4InV6Prefix @ x
      else if length x = 16 \<and> length y = 4 then x = v4InV6Prefix @ y
      else False)"

definition IPv6loopback :: ip where
  "IPv6loopback = replicate 15 0 @ [1]"

definition IPv6unspecified :: ip where
  "IPv6unspecified = replicate 16 0"

definition IsLoopback :: "ip \<Rightarrow> bool" where
  "IsLoopback x = (case To4 x of Some y \<Rightarrow> y ! 0 = 127 | None \<Rightarrow> ip_equal x IPv6loopback)"

definition IsUnspecified :: "ip \<Rightarrow> bool" where
  "IsUnspecified x \<longleftrightarrow> ip_equal x (IPv4 0 0 0 0) \<or> ip_equal x IPv6unspecified"

definition IsLinkLocalUnicast :: "ip \<Rightarrow> bool" where
  "IsLinkLocalUnicast x =
     (case To4 x of
        Some y \<Rightarrow> y ! 0 = 169 \<and> y ! 1 = 254
      | None \<Rightarrow> length x = 16 \<and> x ! 0 = 0xfe \<and> x ! 1 AND 0xc0 = 0x80)"

definition IsLinkLocalMulticast :: "ip \<Rightarrow> bool" where
  "IsLinkLocalMulticast x =
     (case To4 x of
        Some y \<Rightarrow> y ! 0 = 224 \<and> y ! 1 = 0 \<and> y ! 2 = 0
      | None \<Rightarrow> length x = 16 \<and> x ! 0 = 0xff \<and> x ! 1 AND 0x0f = 0x02)"

section \<open>Parsing addresses (net/netip)\<close>

datatype addr = Addr4 ip | Addr6 ip string

definition v4_field :: "string \<Rightarrow> 8 word option" where
  "v4_field s =
     (if s = [] \<or> length s > 1 \<and> hd s = CHR ''0'' then None
      else case digits_val 0 s of
        None \<Rightarrow> None
      | Some n \<Rightarrow> if n > 255 then None else Some (word_of_nat n))"

definition parse_v4_fields :: "string \<Rightarrow> ip option" where
  "parse_v4_fields s =
     (let fs = map v4_field (split_on CHR ''.'' s)
      in if length fs = 4 \<and> list_all (\<lambda>f. f \<noteq> None) fs then Some (map the fs) else None)"

definition hex_val :: "char \<Rightarrow> nat option" where
  "hex_val c =
     (if is_digit c then Some (digit_val c)
      else if 97 \<le> ord c \<and> ord c \<le> 102 then Some (ord c - 87)
      else if 65 \<le> ord c \<and> ord c \<le> 70 then Some (ord c - 55)
      else None)"

definition is_hex :: "char \<Rightarrow> bool" where
  "is_hex c \<longleftrightarrow> hex_val c \<noteq> None"

definition hex_acc :: "string \<Rightarrow> nat" where
  "hex_acc ds = foldl (\<lambda>a c. 16 * a + the (hex_val c)) 0 ds"

text \<open>The hexadecimal number of up to four digits at the start of a text, and the rest.\<close>

definition v6_group :: "string \<Rightarrow> (nat \<times> string) option" where
  "v6_group s =
     (if takeWhile is_hex s = [] \<or> length (takeWhile is_hex s) > 4 then None
      else Some (hex_acc (takeWhile is_hex s), dropWhile is_hex s))"

text \<open>One iteration per 16-bit group: the bytes so far, the position of the ellipsis, the rest of
  the text. At most eight groups fit.\<close>

fun v6_loop :: "nat \<Rightarrow> ip \<Rightarrow> nat option \<Rightarrow> string \<Rightarrow> (ip \<times> nat option \<times> string) option" where
  "v6_loop 0 acc ell s = Some (acc, ell, s)"
| "v6_loop (Suc n) acc ell s =
     (case v6_group s of
        None \<Rightarrow> None
      | Some (v, rest) \<Rightarrow>
          if has_prefix rest ''.'' then
            (if ell = None \<and> length acc \<noteq> 12 then None
             else if length acc + 4 > 16 then None
             else case parse_v4_fields s of None \<Rightarrow> None | Some b \<Rightarrow> Some (acc @ b, ell, []))
          else if rest = [] then Some (acc @ [word_of_nat (v div 256), word_of_nat (v mod 256)], ell, [])
          else if hd rest \<noteq> CHR '':'' \<or> tl rest = [] then None
          else if has_prefix (tl rest) '':'' then
            (if ell \<noteq> None then None
             else if tl (tl rest) = []
             then Some (acc @ [word_of_nat (v div 256), word_of_nat (v mod 256)], Some (length acc + 2), [])
             else v6_loop n (acc @ [word_of_nat (v div 256), word_of_nat (v mod 256)]) (Some (length acc + 2))
                    (tl (tl rest)))
          else v6_loop n (acc @ [word_of_nat (v div 256), word_of_nat (v mod 256)]) ell (tl rest))"

definition v6_finish :: "(ip \<times> nat option \<times> string) option \<Rightarrow> ip option" where
  "v6_finish r =
     (case r of
        None \<Rightarrow> None
      | Some (acc, ell, s) \<Rightarrow>
          if s \<noteq> [] then None
          else if length acc < 16 then
            (case ell of
               None \<Rightarrow> None
             | Some e \<Rightarrow> Some (take e acc @ replicate (16 - length acc) 0 @ drop e acc))
          else if ell \<noteq> None then None else Some acc)"

definition parse_v6_body :: "string \<Rightarrow> ip option" where
  "parse_v6_body s =
     (if has_prefix s ''::'' then
        (if drop 2 s = [] then Some IPv6unspecified
         else v6_finish (v6_loop 8 [] (Some 0) (drop 2 s)))
      else v6_finish (v6_loop 8 [] None s))"

definition parse_v6 :: "string \<Rightarrow> addr option" where
  "parse_v6 s =
     (case index_byte CHR ''%'' s of
        None \<Rightarrow> map_option (\<lambda>b. Addr6 b []) (parse_v6_body s)
      | Some i \<Rightarrow>
          if drop (Suc i) s = [] then None
          else map_option (\<lambda>b. Addr6 b (drop (Suc i) s)) (parse_v6_body (take i s)))"

definition ParseAddr :: "string \<Rightarrow> addr option" where
  "ParseAddr s =
     (case find (\<lambda>c. c \<in> {CHR ''.'', CHR '':'', CHR ''%''}) s of
        None \<Rightarrow> None
      | Some c \<Rightarrow>
          if c = CHR ''.'' then map_option Addr4 (parse_v4_fields s)
          else if c = CHR '':'' then parse_v6 s
          else None)"

definition ParseIP :: "string \<Rightarrow> ip option" where
  "ParseIP s =
     (case ParseAddr s of
        Some (Addr4 b) \<Rightarrow> Some (v4InV6Prefix @ b)
      | Some (Addr6 b zone) \<Rightarrow> if zone = [] then Some b else None
      | None \<Rightarrow> None)"

section \<open>Prefixes (net.IPNet)\<close>

record ipnet =
  net_IP :: ip
  net_Mask :: ip

definition mask_byte :: "nat \<Rightarrow> 8 word" where
  "mask_byte n = (if n \<ge> 8 then 255 else NOT (drop_bit n 255))"

fun CIDRMask :: "nat \<Rightarrow> nat \<Rightarrow> ip" where
  "CIDRMask n 0 = []"
| "CIDRMask n (Suc len) = mask_byte n # CIDRMask (n - 8) len"

definition mask_ip :: "ip \<Rightarrow> ip \<Rightarrow> ip" where
  "mask_ip x m = map2 (AND) x m"

definition ParseCIDR :: "string \<Rightarrow> ipnet option" where
  "ParseCIDR s =
     (case index_byte CHR ''/'' s of
        None \<Rightarrow> None
      | Some i \<Rightarrow>
          (case (ParseAddr (take i s), digits_val 0 (drop (Suc i) s)) of
             (Some (Addr4 b), Some n) \<Rightarrow>
               if drop (Suc i) s = [] \<or> n > 32 then None
               else Some \<lparr>net_IP = mask_ip b (CIDRMask n 4), net_Mask = CIDRMask n 4\<rparr>
           | (Some (Addr6 b []), Some n) \<Rightarrow>
               if drop (Suc i) s = [] \<or> n > 128 then None
               else Some \<lparr>net_IP = mask_ip b (CIDRMask n 16), net_Mask = CIDRMask n 16\<rparr>
           | _ \<Rightarrow> None))"

definition net_contains :: "ipnet \<Rightarrow> ip \<Rightarrow> bool" where
  "net_contains n x =
     (let y = (case To4 x of Some z \<Rightarrow> z | None \<Rightarrow> x)
      in length y = length (net_IP n) \<and> mask_ip (net_IP n) (net_Mask n) = mask_ip y (net_Mask n))"

section \<open>The repository's classification\<close>

definition privateIPBlocks :: "ipnet list" where
  "privateIPBlocks = map (\<lambda>s. the (ParseCIDR s))
     [''0.0.0.0/8'', ''127.0.0.0/8'', ''10.0.0.0/8'', ''172.16.0.0/12'', ''192.168.0.0/16'',
      ''169.254.0.0/16'', ''2001::/32'', ''::1/128'', ''fe80::/10'', ''fc00::/7'', ''100.64.0.0/10'',
      ''192.0.2.0/24'', ''198.51.100.0/24'', ''203.0.113.0/24'', ''224.0.0.0/4'', ''240.0.0.0/4'',
      ''ff00::/8'', ''64:ff9b:1::/48'']"

definition nat64Prefixes :: "ipnet list" where
  "nat64Prefixes = map (\<lambda>s. the (ParseCIDR s)) [''64:ff9b::/96'', ''64:ff9b:1::/96'']"

definition sixToFourPrefix :: ipnet where
  "sixToFourPrefix = the (ParseCIDR ''2002::/16'')"

definition embeddedIPv4 :: "ip \<Rightarrow> ip option" where
  "embeddedIPv4 x =
     (case To16 x of
        None \<Rightarrow> None
      | Some v6 \<Rightarrow>
          if To4 x \<noteq> None then None
          else if list_ex (\<lambda>block. net_contains block x) nat64Prefixes
          then Some (IPv4 (v6 ! 12) (v6 ! 13) (v6 ! 14) (v6 ! 15))
          else if net_contains sixToFourPrefix x
          then Some (IPv4 (v6 ! 2) (v6 ! 3) (v6 ! 4) (v6 ! 5))
          else None)"

lemma To4_IPv4 [simp]: "To4 (IPv4 a b c d) = Some [a, b, c, d]"
  by (simp add: To4_def IPv4_def v4InV6Prefix_def)

lemma embeddedIPv4_is_v4: "embeddedIPv4 x = Some y \<Longrightarrow> To4 x = None \<and> To4 y \<noteq> None"
  by (auto simp: embeddedIPv4_def split: option.splits if_splits)

function IsPrivateIP :: "ip \<Rightarrow> bool" where
  "IsPrivateIP x =
     (if IsLoopback x \<or> IsUnspecified x \<or> IsLinkLocalUnicast x \<or> IsLinkLocalMulticast x then True
      else case embeddedIPv4 x of
        Some v4 \<Rightarrow> IsPrivateIP v4
      | None \<Rightarrow> list_ex (\<lambda>block. net_contains block x) privateIPBlocks)"
  by pat_completeness auto
termination
proof (relation "measure (\<lambda>x. if To4 x = None then 1 else 0)")
  fix x v4
  assume "embeddedIPv4 x = Some v4"
  then show "(v4, x) \<in> measure (\<lambda>x. if To4 x = None then 1 else 0)"
    using embeddedIPv4_is_v4 by auto
qed simp

declare IsPrivateIP.simps [simp del]

section \<open>Hosts and ports\<close>

datatype addr_error =
    MissingPort | TooManyColons | MissingBracket | UnexpectedOpen | UnexpectedClose
  | CouldNotParseIP string | PrivateIPAddress | NotLoopback string | InvalidListen string

text \<open>\<open>net.SplitHostPort\<close>.\<close>

definition SplitHostPort :: "string \<Rightarrow> (addr_error, string \<times> string) result" where
  "SplitHostPort hp =
     (case last_index_byte CHR '':'' hp of
        None \<Rightarrow> Inl MissingPort
      | Some i \<Rightarrow>
          bindE
            (if has_prefix hp ''['' then
               (case index_byte CHR '']'' hp of
                  None \<Rightarrow> Inl MissingBracket
                | Some e \<Rightarrow>
                    if Suc e = length hp then Inl MissingPort
                    else if Suc e = i then Inr (drop 1 (take e hp), 1, Suc e)
                    else if hp ! Suc e = CHR '':'' then Inl TooManyColons
                    else Inl MissingPort)
             else if CHR '':'' \<in> set (take i hp) then Inl TooManyColons
             else Inr (take i hp, 0, 0))
            (\<lambda>(host, j, k).
               if CHR ''['' \<in> set (drop j hp) then Inl UnexpectedOpen
               else if CHR '']'' \<in> set (drop k hp) then Inl UnexpectedClose
               else Inr (host, drop (Suc i) hp)))"

definition AddressReferencesPrivateIp :: "string \<Rightarrow> (addr_error, unit) result" where
  "AddressReferencesPrivateIp address =
     bindE (SplitHostPort address) (\<lambda>(host, _).
       case ParseIP host of
         None \<Rightarrow> Inl (CouldNotParseIP address)
       | Some x \<Rightarrow> if IsPrivateIP x then Inl PrivateIPAddress else Inr ())"

definition ValidateLoopbackAddress :: "string \<Rightarrow> (addr_error, unit) result" where
  "ValidateLoopbackAddress a =
     (case SplitHostPort a of
        Inl _ \<Rightarrow> Inl (InvalidListen a)
      | Inr (host, _) \<Rightarrow>
          (case ParseIP host of
             None \<Rightarrow> Inl (NotLoopback a)
           | Some x \<Rightarrow> if \<not> IsLoopback x then Inl (NotLoopback a) else Inr ()))"

definition hostLocalhost :: string where
  "hostLocalhost = ''localhost''"

definition IsLoopbackHost :: "string \<Rightarrow> bool" where
  "IsLoopbackHost host =
     (let h = (case SplitHostPort host of
                 Inr (h, _) \<Rightarrow> h
               | Inl _ \<Rightarrow>
                   if length host > 2 \<and> hd host = CHR ''['' \<and> last host = CHR '']''
                   then butlast (tl host) else host)
      in if equal_fold h hostLocalhost then True
         else case ParseIP h of None \<Rightarrow> False | Some x \<Rightarrow> IsLoopback x)"

definition IsLocalhost :: "string \<Rightarrow> bool" where
  "IsLocalhost host = IsLoopbackHost host"

section \<open>Evaluating the block lists\<close>

lemmas v6_loop_numeral = v6_loop.simps(2) [of "pred_numeral k" for k, folded numeral_eq_Suc]
lemmas CIDRMask_numeral = CIDRMask.simps(2) [of _ "pred_numeral k" for k, folded numeral_eq_Suc]

lemmas replicate_numeral = replicate_Suc [of "pred_numeral k" for k, folded numeral_eq_Suc]

lemmas parse_eval = ParseIP_def ParseAddr_def parse_v6_def parse_v6_body_def v6_finish_def v6_group_def
  parse_v4_fields_def v4_field_def is_hex_def hex_val_def is_digit_def digit_val_def hex_acc_def
  v6_loop_numeral

lemmas cidr_eval = ParseCIDR_def mask_ip_def mask_byte_def CIDRMask_numeral parse_eval

lemma block_v4:
  "ParseCIDR ''0.0.0.0/8'' = Some \<lparr>net_IP = [0, 0, 0, 0], net_Mask = [255, 0, 0, 0]\<rparr>"
  "ParseCIDR ''127.0.0.0/8'' = Some \<lparr>net_IP = [127, 0, 0, 0], net_Mask = [255, 0, 0, 0]\<rparr>"
  "ParseCIDR ''10.0.0.0/8'' = Some \<lparr>net_IP = [10, 0, 0, 0], net_Mask = [255, 0, 0, 0]\<rparr>"
  "ParseCIDR ''172.16.0.0/12'' = Some \<lparr>net_IP = [172, 16, 0, 0], net_Mask = [255, 240, 0, 0]\<rparr>"
  "ParseCIDR ''192.168.0.0/16'' = Some \<lparr>net_IP = [192, 168, 0, 0], net_Mask = [255, 255, 0, 0]\<rparr>"
  "ParseCIDR ''169.254.0.0/16'' = Some \<lparr>net_IP = [169, 254, 0, 0], net_Mask = [255, 255, 0, 0]\<rparr>"
  "ParseCIDR ''100.64.0.0/10'' = Some \<lparr>net_IP = [100, 64, 0, 0], net_Mask = [255, 192, 0, 0]\<rparr>"
  "ParseCIDR ''192.0.2.0/24'' = Some \<lparr>net_IP = [192, 0, 2, 0], net_Mask = [255, 255, 255, 0]\<rparr>"
  "ParseCIDR ''198.51.100.0/24'' = Some \<lparr>net_IP = [198, 51, 100, 0], net_Mask = [255, 255, 255, 0]\<rparr>"
  "ParseCIDR ''203.0.113.0/24'' = Some \<lparr>net_IP = [203, 0, 113, 0], net_Mask = [255, 255, 255, 0]\<rparr>"
  "ParseCIDR ''224.0.0.0/4'' = Some \<lparr>net_IP = [224, 0, 0, 0], net_Mask = [240, 0, 0, 0]\<rparr>"
  "ParseCIDR ''240.0.0.0/4'' = Some \<lparr>net_IP = [240, 0, 0, 0], net_Mask = [240, 0, 0, 0]\<rparr>"
  by (simp_all add: cidr_eval)

text \<open>A 128-bit block: its significant bytes, then zeros.\<close>

definition block6 :: "ip \<Rightarrow> ip \<Rightarrow> ipnet" where
  "block6 p m = \<lparr>net_IP = p @ replicate (16 - length p) 0, net_Mask = m @ replicate (16 - length m) 0\<rparr>"

lemma block_v6:
  "ParseCIDR ''2001::/32'' = Some (block6 [0x20, 0x01, 0, 0] [255, 255, 255, 255])"
  "ParseCIDR ''::1/128'' = Some (block6 IPv6loopback (replicate 16 255))"
  "ParseCIDR ''fe80::/10'' = Some (block6 [0xfe, 0x80] [255, 192])"
  "ParseCIDR ''fc00::/7'' = Some (block6 [0xfc] [254])"
  "ParseCIDR ''ff00::/8'' = Some (block6 [0xff] [255])"
  "ParseCIDR ''64:ff9b:1::/48'' = Some (block6 [0, 0x64, 0xff, 0x9b, 0, 1] (replicate 6 255))"
  "ParseCIDR ''64:ff9b::/96'' = Some (block6 [0, 0x64, 0xff, 0x9b, 0, 0, 0, 0, 0, 0, 0, 0] (replicate 12 255))"
  "ParseCIDR ''64:ff9b:1::/96'' = Some (block6 [0, 0x64, 0xff, 0x9b, 0, 1, 0, 0, 0, 0, 0, 0] (replicate 12 255))"
  "ParseCIDR ''2002::/16'' = Some (block6 [0x20, 0x02] [255, 255])"
  by (simp_all add: cidr_eval block6_def IPv6loopback_def replicate_numeral)

lemmas private_blocks = privateIPBlocks_def nat64Prefixes_def sixToFourPrefix_def block_v4 block_v6

section \<open>Reference classification\<close>

definition private_v4 :: "8 word \<Rightarrow> 8 word \<Rightarrow> 8 word \<Rightarrow> 8 word \<Rightarrow> bool" where
  "private_v4 a b c d \<longleftrightarrow>
     a = 0 \<or> a = 10 \<or> a = 127 \<or> 224 \<le> a \<or> a = 100 \<and> 64 \<le> b \<and> b \<le> 127
     \<or> a = 169 \<and> b = 254 \<or> a = 172 \<and> 16 \<le> b \<and> b \<le> 31 \<or> a = 192 \<and> b = 168
     \<or> a = 192 \<and> b = 0 \<and> c = 2 \<or> a = 198 \<and> b = 51 \<and> c = 100 \<or> a = 203 \<and> b = 0 \<and> c = 113"

definition nat64_prefix :: "ip \<Rightarrow> bool" where
  "nat64_prefix p \<longleftrightarrow> p \<in> {[0, 0x64, 0xff, 0x9b, 0, 0, 0, 0, 0, 0, 0, 0], [0, 0x64, 0xff, 0x9b, 0, 1, 0, 0, 0, 0, 0, 0]}"

definition private_v6 :: "ip \<Rightarrow> bool" where
  "private_v6 x \<longleftrightarrow>
     (if nat64_prefix (take 12 x) then private_v4 (x ! 12) (x ! 13) (x ! 14) (x ! 15)
      else if x ! 0 = 0x20 \<and> x ! 1 = 0x02 then private_v4 (x ! 2) (x ! 3) (x ! 4) (x ! 5)
      else x = IPv6unspecified \<or> x = IPv6loopback \<or> x ! 0 = 0xff \<or> x ! 0 = 0xfc \<or> x ! 0 = 0xfd
        \<or> x ! 0 = 0xfe \<and> 0x80 \<le> x ! 1 \<and> x ! 1 \<le> 0xbf \<or> take 4 x = [0x20, 0x01, 0, 0]
        \<or> take 6 x = [0, 0x64, 0xff, 0x9b, 0, 1])"

lemma list4: "length y = 4 \<Longrightarrow> \<exists>a b c d. y = [a, b, c, d]"
  by (auto simp: numeral_eq_Suc length_Suc_conv)

lemma To4_SomeD: "To4 x = Some y \<Longrightarrow> length y = 4 \<and> (x = y \<or> x = v4InV6Prefix @ y)"
  by (auto simp: To4_def split: if_splits) (metis append_take_drop_id)

lemma net_contains_v4:
  assumes "To4 x = Some [a, b, c, d]"
  shows "net_contains \<lparr>net_IP = [p, q, r, s], net_Mask = [m, n, k, l]\<rparr> x \<longleftrightarrow>
      p AND m = a AND m \<and> q AND n = b AND n \<and> r AND k = c AND k \<and> s AND l = d AND l"
    "net_contains (block6 pf ms) x \<longleftrightarrow> False"
proof -
  show "net_contains \<lparr>net_IP = [p, q, r, s], net_Mask = [m, n, k, l]\<rparr> x \<longleftrightarrow>
      p AND m = a AND m \<and> q AND n = b AND n \<and> r AND k = c AND k \<and> s AND l = d AND l"
    using assms by (simp add: net_contains_def mask_ip_def)
  have "length (pf @ replicate (16 - length pf) (0 :: 8 word)) \<noteq> 4" by (cases "length pf < 16") auto
  then show "net_contains (block6 pf ms) x \<longleftrightarrow> False"
    using assms by (simp add: net_contains_def block6_def del: length_append)
qed

lemma mask_ip_zero: "length x = n \<Longrightarrow> mask_ip x (replicate n 0) = replicate n 0"
  by (induction x arbitrary: n) (auto simp: mask_ip_def)

lemma mask_ip_append:
  "length x = length m \<Longrightarrow> mask_ip (x @ y) (m @ n) = mask_ip x m @ mask_ip y n"
  by (simp add: mask_ip_def)

lemma net_contains_v6:
  assumes "To4 x = None" "length x = 16"
  shows "net_contains \<lparr>net_IP = [p, q, r, s], net_Mask = ms\<rparr> x \<longleftrightarrow> False"
    "length pf = length m \<Longrightarrow> length m \<le> 16 \<Longrightarrow>
       net_contains (block6 pf m) x \<longleftrightarrow> mask_ip pf m = mask_ip (take (length m) x) m"
proof -
  show "net_contains \<lparr>net_IP = [p, q, r, s], net_Mask = ms\<rparr> x \<longleftrightarrow> False"
    using assms by (simp add: net_contains_def)
  assume l: "length pf = length m" "length m \<le> 16"
  let ?z = "replicate (16 - length m) (0 :: 8 word)"
  have split: "x = take (length m) x @ drop (length m) x" by simp
  have "mask_ip x (m @ ?z) = mask_ip (take (length m) x) m @ mask_ip (drop (length m) x) ?z"
    using l assms by (subst split, subst mask_ip_append) auto
  then have "mask_ip x (m @ ?z) = mask_ip (take (length m) x) m @ ?z"
    using l assms by (simp add: mask_ip_zero)
  moreover have "mask_ip (pf @ ?z) (m @ ?z) = mask_ip pf m @ ?z"
    using l by (simp add: mask_ip_append mask_ip_zero)
  ultimately show "net_contains (block6 pf m) x \<longleftrightarrow> mask_ip pf m = mask_ip (take (length m) x) m"
    using assms l by (simp add: net_contains_def block6_def)
qed

lemma IsPrivateIP_v4:
  assumes "To4 x = Some [a, b, c, d]"
  shows "IsPrivateIP x \<longleftrightarrow> private_v4 a b c d"
proof -
  have x: "x = [a, b, c, d] \<or> x = v4InV6Prefix @ [a, b, c, d]" using To4_SomeD [OF assms] by auto
  have unspec: "IsUnspecified x \<Longrightarrow> a = 0"
    using x by (auto simp: IsUnspecified_def ip_equal_def IPv4_def IPv6unspecified_def v4InV6Prefix_def replicate_numeral)
  have emb: "embeddedIPv4 x = None" using assms by (simp add: embeddedIPv4_def split: option.split)
  have blocks: "list_ex (\<lambda>block. net_contains block x) privateIPBlocks \<longleftrightarrow>
      private_v4 a b c d"
    using mask_ranges(4) [of a]
    by (simp add: private_blocks net_contains_v4 [OF assms] private_v4_def eq_commute [of _ "_ AND _"] mask_ranges(1-3)) blast
  show ?thesis
    using unspec assms by (subst IsPrivateIP.simps)
      (auto simp: emb blocks IsLoopback_def IsLinkLocalUnicast_def IsLinkLocalMulticast_def private_v4_def)
qed

lemma mask_ip_full: "length x = n \<Longrightarrow> mask_ip x (replicate n 255) = x"
  by (induction x arbitrary: n) (auto simp: mask_ip_def)

lemma take_two: "length x = 16 \<Longrightarrow> take 1 x = [x ! 0] \<and> take 2 x = [x ! 0, x ! 1]"
  by (cases x; cases "tl x") auto

lemma contains_full:
  assumes "To4 x = None" "length x = 16" "length p = n" "n \<le> 16"
  shows "net_contains (block6 p (replicate n 255)) x \<longleftrightarrow> take n x = p"
  using net_contains_v6(2) [OF assms(1,2), of p "replicate n 255"] assms(2-4) by (auto simp: mask_ip_full)

lemma contains_lits:
  assumes "To4 x = None" "length x = 16"
  shows "net_contains (block6 [a, b, c, d] [255, 255, 255, 255]) x \<longleftrightarrow> take 4 x = [a, b, c, d]"
    "net_contains (block6 [a, b] [255, 255]) x \<longleftrightarrow> x ! 0 = a \<and> x ! 1 = b"
    "net_contains (block6 [a] [255]) x \<longleftrightarrow> x ! 0 = a"
  using contains_full [OF assms, of "[a, b, c, d]" 4] contains_full [OF assms, of "[a, b]" 2]
    contains_full [OF assms, of "[a]" 1] take_two [OF assms(2)]
  by (simp_all add: replicate_numeral)

lemma embeddedIPv4_v6:
  assumes "To4 x = None" "length x = 16"
  shows "embeddedIPv4 x =
     (if nat64_prefix (take 12 x) then Some (IPv4 (x ! 12) (x ! 13) (x ! 14) (x ! 15))
      else if x ! 0 = 0x20 \<and> x ! 1 = 0x02 then Some (IPv4 (x ! 2) (x ! 3) (x ! 4) (x ! 5)) else None)"
proof -
  have "list_ex (\<lambda>block. net_contains block x) nat64Prefixes \<longleftrightarrow> nat64_prefix (take 12 x)"
    using assms by (simp add: private_blocks contains_full nat64_prefix_def)
  moreover have "net_contains sixToFourPrefix x \<longleftrightarrow> x ! 0 = 0x20 \<and> x ! 1 = 0x02"
    by (simp add: private_blocks contains_lits [OF assms])
  ultimately show ?thesis using assms by (simp add: embeddedIPv4_def To16_def)
qed

lemma contains_masked:
  assumes "To4 x = None" "length x = 16"
  shows "net_contains (block6 [0xfe, 0x80] [255, 192]) x \<longleftrightarrow> x ! 0 = 0xfe \<and> 0x80 \<le> x ! 1 \<and> x ! 1 \<le> 0xbf"
    "net_contains (block6 [0xfc] [254]) x \<longleftrightarrow> x ! 0 = 0xfc \<or> x ! 0 = 0xfd"
proof -
  have "net_contains (block6 [0xfe, 0x80] [255, 192]) x \<longleftrightarrow> 0xfe = x ! 0 \<and> 0x80 = x ! 1 AND 192"
    using net_contains_v6(2) [OF assms, of "[0xfe, 0x80]" "[255, 192]"] take_two [OF assms(2)]
    by (simp add: mask_ip_def numeral_2_eq_2)
  then show "net_contains (block6 [0xfe, 0x80] [255, 192]) x \<longleftrightarrow> x ! 0 = 0xfe \<and> 0x80 \<le> x ! 1 \<and> x ! 1 \<le> 0xbf"
    using mask_ranges(3) [of "x ! 1"] by metis
  have "net_contains (block6 [0xfc] [254]) x \<longleftrightarrow> 0xfc = x ! 0 AND 254"
    using net_contains_v6(2) [OF assms, of "[0xfc]" "[254]"] take_two [OF assms(2)]
    by (simp add: mask_ip_def)
  then show "net_contains (block6 [0xfc] [254]) x \<longleftrightarrow> x ! 0 = 0xfc \<or> x ! 0 = 0xfd"
    using mask_254 [of "x ! 0"] by metis
qed

lemma IsPrivateIP_v6:
  assumes "To4 x = None" "length x = 16"
  shows "IsPrivateIP x \<longleftrightarrow> private_v6 x"
proof -
  have early: "IsLoopback x \<or> IsUnspecified x \<or> IsLinkLocalUnicast x \<or> IsLinkLocalMulticast x \<longleftrightarrow>
      x = IPv6loopback \<or> x = IPv6unspecified \<or> x ! 0 = 0xfe \<and> 0x80 \<le> x ! 1 \<and> x ! 1 \<le> 0xbf
      \<or> x ! 0 = 0xff \<and> x ! 1 AND 0x0f = 0x02"
    using assms mask_ranges(3) [of "x ! 1"]
    by (auto simp: IsLoopback_def IsUnspecified_def IsLinkLocalUnicast_def IsLinkLocalMulticast_def
        ip_equal_def IPv6loopback_def IPv6unspecified_def IPv4_def v4InV6Prefix_def To4_def)
  have blocks: "list_ex (\<lambda>block. net_contains block x) privateIPBlocks \<longleftrightarrow>
      take 4 x = [0x20, 0x01, 0, 0] \<or> x = IPv6loopback \<or> x ! 0 = 0xfe \<and> 0x80 \<le> x ! 1 \<and> x ! 1 \<le> 0xbf
      \<or> x ! 0 = 0xfc \<or> x ! 0 = 0xfd \<or> x ! 0 = 0xff \<or> take 6 x = [0, 0x64, 0xff, 0x9b, 0, 1]"
  proof -
    have "net_contains (block6 [0x20, 0x01, 0, 0] [255, 255, 255, 255]) x \<longleftrightarrow> take 4 x = [0x20, 0x01, 0, 0]"
      "net_contains (block6 [0xff] [255]) x \<longleftrightarrow> x ! 0 = 0xff"
      "net_contains (block6 [0, 0x64, 0xff, 0x9b, 0, 1] (replicate 6 255)) x \<longleftrightarrow> take 6 x = [0, 0x64, 0xff, 0x9b, 0, 1]"
      using contains_full [OF assms, of "[0, 0x64, 0xff, 0x9b, 0, 1]" 6] by (simp_all add: contains_lits [OF assms])
    moreover have "net_contains (block6 IPv6loopback (replicate 16 255)) x \<longleftrightarrow> x = IPv6loopback"
      using contains_full [OF assms, of IPv6loopback 16] assms(2) by (simp add: IPv6loopback_def)
    ultimately show ?thesis
      by (simp only: privateIPBlocks_def list.map list_ex_Nil_iff list_ex_Cons_iff block_v4 block_v6 option.sel
          net_contains_v6(1) [OF assms] contains_masked [OF assms] simp_thms disj_ac)
  qed
  have n: "nat64_prefix (take 12 x) \<Longrightarrow> x ! 0 = 0 \<and> x ! 1 = 0x64 \<and> x \<noteq> IPv6loopback \<and> x \<noteq> IPv6unspecified"
  proof -
    assume p: "nat64_prefix (take 12 x)"
    have "take 12 x ! 0 = 0" "take 12 x ! 1 = 0x64"
      using p by (auto simp: nat64_prefix_def simp del: nth_take)
    then have "x ! 0 = 0" "x ! 1 = 0x64" by simp_all
    then show ?thesis by (auto simp: IPv6loopback_def IPv6unspecified_def replicate_numeral)
  qed
  have s: "x ! 0 = 0x20 \<Longrightarrow> x \<noteq> IPv6loopback \<and> x \<noteq> IPv6unspecified"
    by (auto simp: IPv6loopback_def IPv6unspecified_def replicate_numeral)
  show ?thesis
    unfolding IsPrivateIP.simps [of x] early embeddedIPv4_v6 [OF assms] blocks private_v6_def
    using n s by (auto simp: IsPrivateIP_v4)
qed

lemmas ip_cases = IsPrivateIP_v4 IsPrivateIP_v6

text \<open>
  C5. Classification of addresses: on every 4- or 16-byte address, the block lists, masks and
  embedded-address decoding of \<open>IsPrivateIP\<close> agree with the reference classification by ranges.
\<close>
theorem IsPrivateIP_classification:
  assumes "length x = 4 \<or> length x = 16"
  shows "IsPrivateIP x \<longleftrightarrow>
     (case To4 x of Some y \<Rightarrow> private_v4 (y ! 0) (y ! 1) (y ! 2) (y ! 3) | None \<Rightarrow> private_v6 x)"
proof (cases "To4 x")
  case None
  with assms have "length x = 16" by (auto simp: To4_def)
  with None show ?thesis by (simp add: IsPrivateIP_v6)
next
  case (Some y)
  then obtain a b c d where "y = [a, b, c, d]" using To4_SomeD [OF Some] list4 by blast
  with Some show ?thesis by (simp add: IsPrivateIP_v4)
qed

theorem IsPrivateIP_classification_witness:
  "IsPrivateIP [0, 0x64, 0xff, 0x9b, 0, 0, 0, 0, 0, 0, 0, 0, 169, 254, 169, 254]
   \<and> \<not> IsPrivateIP [0x20, 0x01, 0x48, 0x60, 0x48, 0x60, 0, 0, 0, 0, 0, 0, 0, 0, 0x88, 0x88]"
  by (subst IsPrivateIP_classification, simp, subst IsPrivateIP_classification, simp)
    (simp add: To4_def v4InV6Prefix_def private_v6_def nat64_prefix_def private_v4_def IPv6unspecified_def
      IPv6loopback_def replicate_numeral)

text \<open>
  No bypass by translation: the IPv4-mapped form, the two decodable NAT64 forms and the 6to4 form of an IPv4
  address (with any 6to4 suffix) are private exactly when the plain IPv4 address is.
\<close>
theorem IsPrivateIP_translation:
  "IsPrivateIP (IPv4 a b c d) = IsPrivateIP [a, b, c, d]
   \<and> IsPrivateIP [0, 0x64, 0xff, 0x9b, 0, 0, 0, 0, 0, 0, 0, 0, a, b, c, d] = IsPrivateIP [a, b, c, d]
   \<and> IsPrivateIP [0, 0x64, 0xff, 0x9b, 0, 1, 0, 0, 0, 0, 0, 0, a, b, c, d] = IsPrivateIP [a, b, c, d]
   \<and> IsPrivateIP [0x20, 0x02, a, b, c, d, e, f, g, h, i, j, k, l, m, n] = IsPrivateIP [a, b, c, d]"
proof -
  have v4: "IsPrivateIP [a, b, c, d] = private_v4 a b c d" by (rule IsPrivateIP_v4) (simp add: To4_def)
  have "IsPrivateIP (IPv4 a b c d) = private_v4 a b c d" by (rule IsPrivateIP_v4) simp
  moreover have "IsPrivateIP [0, 0x64, 0xff, 0x9b, 0, 0, 0, 0, 0, 0, 0, 0, a, b, c, d] = private_v4 a b c d"
    by (subst IsPrivateIP_v6) (simp_all add: To4_def v4InV6Prefix_def private_v6_def nat64_prefix_def)
  moreover have "IsPrivateIP [0, 0x64, 0xff, 0x9b, 0, 1, 0, 0, 0, 0, 0, 0, a, b, c, d] = private_v4 a b c d"
    by (subst IsPrivateIP_v6) (simp_all add: To4_def v4InV6Prefix_def private_v6_def nat64_prefix_def)
  moreover have "IsPrivateIP [0x20, 0x02, a, b, c, d, e, f, g, h, i, j, k, l, m, n] = private_v4 a b c d"
    by (subst IsPrivateIP_v6) (simp_all add: To4_def v4InV6Prefix_def private_v6_def nat64_prefix_def)
  ultimately show ?thesis by (simp add: v4)
qed

section \<open>Parsed addresses\<close>

lemma parse_v4_fields_length: "parse_v4_fields s = Some b \<Longrightarrow> length b = 4"
  by (auto simp: parse_v4_fields_def Let_def split: if_splits)

lemma v6_loop_length:
  "v6_loop n acc ell s = Some (b, e, r) \<Longrightarrow> length acc + 2 * n = 16 \<Longrightarrow> length b \<le> 16"
proof (induction n arbitrary: acc ell s)
  case 0
  then show ?case by simp
next
  case (Suc n)
  then show ?case
    by (auto simp: parse_v4_fields_length split: option.splits prod.splits if_splits)
qed

lemma v6_finish_length:
  "v6_finish r = Some b \<Longrightarrow> (\<And>acc e s. r = Some (acc, e, s) \<Longrightarrow> length acc \<le> 16) \<Longrightarrow> length b = 16"
  by (auto simp: v6_finish_def split: option.splits prod.splits if_splits)

lemma parse_v6_body_length: "parse_v6_body s = Some b \<Longrightarrow> length b = 16"
proof -
  have "length b = 16" if "v6_finish (v6_loop 8 [] e t) = Some b" for e t
    by (rule v6_finish_length [OF that]) (auto dest: v6_loop_length)
  then show "parse_v6_body s = Some b \<Longrightarrow> length b = 16"
    by (auto simp: parse_v6_body_def IPv6unspecified_def split: if_splits)
qed

lemma ParseAddr_length:
  "ParseAddr s = Some (Addr4 b) \<Longrightarrow> length b = 4" "ParseAddr s = Some (Addr6 b z) \<Longrightarrow> length b = 16"
  by (auto simp: ParseAddr_def parse_v6_def parse_v4_fields_length parse_v6_body_length
      split: option.splits if_splits)

lemma ParseIP_length: "ParseIP s = Some x \<Longrightarrow> length x = 16"
  using ParseAddr_length by (auto simp: ParseIP_def v4InV6Prefix_def split: option.splits addr.splits if_splits)

end
