(* ===== verification/Net_Host.thy ===== *)
theory Net_Host
  imports Net_Addr
begin

text \<open>
  Host and port strings: the guard \<open>AddressReferencesPrivateIp\<close> that runs on every dialled address, and the
  loopback tests of \<open>networking/utilities.go\<close>. The dotted-decimal round trip connects the
  text of an address to its classification.
\<close>

section \<open>Dotted decimal\<close>

definition dotted :: "8 word \<Rightarrow> 8 word \<Rightarrow> 8 word \<Rightarrow> 8 word \<Rightarrow> string" where
  "dotted a b c d = join_with ''.'' (map (\<lambda>x. show_nat (unat x)) [a, b, c, d])"

lemma show_nat_no_char: "\<not> is_digit c \<Longrightarrow> c \<notin> set (show_nat n)"
  using show_nat_digits by blast

lemma digit_char_zero: "d < 10 \<Longrightarrow> char_of (48 + d :: nat) = CHR ''0'' \<Longrightarrow> d = 0"
  using digit_val_char_of [of d] by (simp add: digit_val_def)

lemma show_nat_hd_zero: "length (show_nat n) > 1 \<Longrightarrow> hd (show_nat n) \<noteq> CHR ''0''"
proof (induction n rule: show_nat.induct)
  case (1 n)
  show ?case
  proof (cases "n < 10")
    case True
    with "1.prems" show ?thesis by (simp add: show_nat.simps [of n])
  next
    case False
    have "hd (show_nat (n div 10)) \<noteq> CHR ''0''"
    proof (cases "n div 10 < 10")
      case True
      have "n div 10 \<noteq> 0" using False by simp
      with True show ?thesis
        using digit_char_zero [of "n div 10"] by (subst show_nat.simps) auto
    next
      case big: False
      then have "length (show_nat (n div 10)) > 1"
        by (subst show_nat.simps) (simp add: length_greater_0_conv Suc_lessI)
      with "1.IH" False show ?thesis by blast
    qed
    with False show ?thesis by (simp add: show_nat.simps [of n] hd_append)
  qed
qed

lemma v4_field_show: "v4_field (show_nat (unat (x :: 8 word))) = Some x"
proof -
  have "unat x < 256" using unsigned_less [of x] by simp
  moreover have "\<not> (length (show_nat (unat x)) > 1 \<and> hd (show_nat (unat x)) = CHR ''0'')"
    using show_nat_hd_zero by blast
  ultimately show ?thesis by (simp add: v4_field_def digits_val_show_nat)
qed

lemma dotted_split: "split_on CHR ''.'' (dotted a b c d) = map (\<lambda>x. show_nat (unat x)) [a, b, c, d]"
proof -
  have "CHR ''.'' \<notin> set (show_nat n)" for n
    by (rule show_nat_no_char) (simp add: is_digit_def)
  then show ?thesis unfolding dotted_def
    using split_join [of "map (\<lambda>x. show_nat (unat x)) [a, b, c, d]" "CHR ''.''"] by simp
qed

lemma dotted_chars: "x \<in> set (dotted a b c d) \<Longrightarrow> is_digit x \<or> x = CHR ''.''"
  by (auto simp: dotted_def dest: show_nat_digits)

lemma ParseIP_dotted: "ParseIP (dotted a b c d) = Some (IPv4 a b c d)"
proof -
  have "parse_v4_fields (dotted a b c d) = Some [a, b, c, d]"
    unfolding parse_v4_fields_def dotted_split by (simp add: v4_field_show)
  moreover have "find (\<lambda>x. x \<in> {CHR ''.'', CHR '':'', CHR ''%''}) (dotted a b c d) = Some CHR ''.''"
  proof -
    have dot: "CHR ''.'' \<in> set (dotted a b c d)" by (simp add: dotted_def)
    have only: "x = CHR ''.''" if "x \<in> set (dotted a b c d)" "x \<in> {CHR ''.'', CHR '':'', CHR ''%''}" for x
      using dotted_chars [OF that(1)] that(2) by (auto simp: is_digit_def)
    obtain y where y: "find (\<lambda>x. x \<in> {CHR ''.'', CHR '':'', CHR ''%''}) (dotted a b c d) = Some y"
      using dot by (cases "find (\<lambda>x. x \<in> {CHR ''.'', CHR '':'', CHR ''%''}) (dotted a b c d)") (auto simp: find_None_iff)
    then have "y \<in> set (dotted a b c d)" "y \<in> {CHR ''.'', CHR '':'', CHR ''%''}"
      by (auto dest: find_SomeD)
    with only y show ?thesis by simp
  qed
  ultimately show ?thesis by (simp add: ParseIP_def ParseAddr_def IPv4_def)
qed

section \<open>The dial guard\<close>

lemma last_index_byte_append: "c \<notin> set t \<Longrightarrow> last_index_byte c (s @ c # t) = Some (length s)"
  by (induction s) (auto simp: last_index_byte_None [THEN iffD2])

lemma SplitHostPort_plain:
  assumes "set h \<inter> {CHR '':'', CHR ''['', CHR '']''} = {}" "set p \<inter> {CHR '':'', CHR ''['', CHR '']''} = {}"
  shows "SplitHostPort (h @ '':'' @ p) = Inr (h, p)"
proof -
  have "last_index_byte CHR '':'' (h @ CHR '':'' # p) = Some (length h)"
    using assms by (intro last_index_byte_append) auto
  moreover have "\<not> has_prefix (h @ CHR '':'' # p) ''[''" using assms(1) by (cases h) auto
  ultimately show ?thesis using assms by (auto simp: SplitHostPort_def)
qed

lemma AddressReferencesPrivateIp_ok:
  "AddressReferencesPrivateIp a = Inr () \<longleftrightarrow>
     (\<exists>host port x. SplitHostPort a = Inr (host, port) \<and> ParseIP host = Some x \<and> \<not> IsPrivateIP x)"
  by (auto simp: AddressReferencesPrivateIp_def bindE_eq_Inr split: option.splits if_splits)

text \<open>
  The dial guard on IPv4 literals: for every IPv4 address in dotted-decimal form and every numeric port,
  \<open>AddressReferencesPrivateIp\<close> refuses the address exactly when it lies in a private or reserved range.
\<close>
theorem AddressReferencesPrivateIp_ipv4:
  "AddressReferencesPrivateIp (dotted a b c d @ '':'' @ show_nat port) =
     (if private_v4 a b c d then Inl PrivateIPAddress else Inr ())"
proof -
  have "SplitHostPort (dotted a b c d @ '':'' @ show_nat port) = Inr (dotted a b c d, show_nat port)"
  proof (rule SplitHostPort_plain)
    show "set (dotted a b c d) \<inter> {CHR '':'', CHR ''['', CHR '']''} = {}"
      by (auto dest!: dotted_chars simp: is_digit_def)
    show "set (show_nat port) \<inter> {CHR '':'', CHR ''['', CHR '']''} = {}"
      by (auto dest!: show_nat_digits simp: is_digit_def)
  qed
  then show ?thesis
    by (simp add: AddressReferencesPrivateIp_def ParseIP_dotted IsPrivateIP_v4)
qed

text \<open>
  C13. The dial guard fails closed: an address passes only if it splits into host and port and the host is an
  IP literal, of 16 bytes, that the reference classification does not list as private.
\<close>
theorem AddressReferencesPrivateIp_fail_closed:
  assumes "AddressReferencesPrivateIp a = Inr ()"
  shows "\<exists>host port x. SplitHostPort a = Inr (host, port) \<and> ParseIP host = Some x \<and> length x = 16
     \<and> (case To4 x of Some y \<Rightarrow> \<not> private_v4 (y ! 0) (y ! 1) (y ! 2) (y ! 3) | None \<Rightarrow> \<not> private_v6 x)"
proof -
  obtain host port x where h: "SplitHostPort a = Inr (host, port)" "ParseIP host = Some x" "\<not> IsPrivateIP x"
    using assms by (auto simp: AddressReferencesPrivateIp_ok)
  have len: "length x = 16" using h(2) by (rule ParseIP_length)
  have "case To4 x of Some y \<Rightarrow> \<not> private_v4 (y ! 0) (y ! 1) (y ! 2) (y ! 3) | None \<Rightarrow> \<not> private_v6 x"
  proof (cases "To4 x")
    case None
    with h(3) len show ?thesis by (simp add: IsPrivateIP_v6)
  next
    case (Some y)
    then obtain p q r s where "y = [p, q, r, s]" using To4_SomeD [OF Some] list4 by blast
    with Some h(3) show ?thesis by (simp add: IsPrivateIP_v4)
  qed
  with h len show ?thesis by blast
qed

theorem AddressReferencesPrivateIp_fail_closed_witness:
  "AddressReferencesPrivateIp ''8.8.8.8:53'' = Inr ()
   \<and> (\<exists>host port x. SplitHostPort ''8.8.8.8:53'' = Inr (host, port) \<and> ParseIP host = Some x \<and> length x = 16
     \<and> (case To4 x of Some y \<Rightarrow> \<not> private_v4 (y ! 0) (y ! 1) (y ! 2) (y ! 3) | None \<Rightarrow> \<not> private_v6 x))"
proof -
  have ip: "ParseIP ''8.8.8.8'' = Some (IPv4 8 8 8 8)" by (simp add: parse_eval IPv4_def)
  have "SplitHostPort ''8.8.8.8:53'' = Inr (''8.8.8.8'', ''53'')" by (simp add: SplitHostPort_def)
  then have ok: "AddressReferencesPrivateIp ''8.8.8.8:53'' = Inr ()"
    by (simp add: AddressReferencesPrivateIp_def ip IsPrivateIP_v4 private_v4_def)
  from AddressReferencesPrivateIp_fail_closed [OF this] ok show ?thesis by blast
qed

section \<open>Loopback hosts\<close>

lemma IsLoopback_private: "IsLoopback x \<Longrightarrow> IsPrivateIP x"
  by (subst IsPrivateIP.simps) simp

text \<open>
  Loopback listeners: an address accepted by \<open>ValidateLoopbackAddress\<close> is recognised by \<open>IsLocalhost\<close> and is
  one the dial guard refuses.
\<close>
theorem loopback_listener:
  assumes "ValidateLoopbackAddress a = Inr ()"
  shows "IsLocalhost a \<and> AddressReferencesPrivateIp a = Inl PrivateIPAddress"
proof -
  obtain host port x where "SplitHostPort a = Inr (host, port)" "ParseIP host = Some x" "IsLoopback x"
    using assms by (auto simp: ValidateLoopbackAddress_def split: sum.splits option.splits if_splits)
  then show ?thesis
    by (simp add: IsLocalhost_def IsLoopbackHost_def AddressReferencesPrivateIp_def IsLoopback_private)
qed

theorem loopback_listener_witness:
  "ValidateLoopbackAddress ''[::1]:8080'' = Inr () \<and> IsLocalhost ''[::1]:8080''"
proof -
  have "ParseIP ''::1'' = Some IPv6loopback" by (simp add: parse_eval IPv6loopback_def replicate_numeral)
  then have "ValidateLoopbackAddress ''[::1]:8080'' = Inr ()"
    by (simp add: ValidateLoopbackAddress_def SplitHostPort_def IsLoopback_def IPv6loopback_def To4_def
        v4InV6Prefix_def ip_equal_def replicate_numeral)
  with loopback_listener show ?thesis by blast
qed

end
