(* ===== verification/Net_Client.thy ===== *)
theory Net_Client
  imports Net_Host Validation Go_Errors
begin

text \<open>
  The outbound HTTP side of \<open>networking\<close> and the package \<open>env\<close>: environment readers, URL
  validation (\<open>utilities.go\<close>), the redirect policy, the validating transport and the client builder
  (\<open>http_client.go\<close>), and the JSON fetch (\<open>fetch.go\<close>).

  Parameters: \<open>url.Parse\<close> (\<open>parse\<close>), the resolver, the file system, the PEM reader of crypto/x509, the canonical
  Unicode fold behind \<open>strings.EqualFold\<close> on two arbitrary strings (\<open>foldc\<close>), \<open>http.NewRequest\<close>,
  the client's \<open>Do\<close>, JSON decoding and \<open>mime.ParseMediaType\<close>.
  The interface \<open>env.Reader\<close> is the locale \<open>env_reader\<close>, interpreted by the process environment.
\<close>

section \<open>Environment readers (env)\<close>

type_synonym environ = "string \<Rightarrow> string option"

record Reader =
  Getenv :: "string \<Rightarrow> string"
  LookupEnv :: "string \<Rightarrow> string \<times> bool"

definition OSReader_Getenv :: "environ \<Rightarrow> string \<Rightarrow> string" where
  "OSReader_Getenv env key = (case env key of None \<Rightarrow> [] | Some v \<Rightarrow> v)"

definition OSReader_LookupEnv :: "environ \<Rightarrow> string \<Rightarrow> string \<times> bool" where
  "OSReader_LookupEnv env key = (case env key of None \<Rightarrow> ([], False) | Some v \<Rightarrow> (v, True))"

definition OSReader :: "environ \<Rightarrow> Reader" where
  "OSReader env = \<lparr>Getenv = OSReader_Getenv env, LookupEnv = OSReader_LookupEnv env\<rparr>"

abbreviation skipVar :: string where
  "skipVar \<equiv> ''INSECURE_DISABLE_URL_VALIDATION''"

definition skipFlag :: "(string \<Rightarrow> string) \<Rightarrow> bool" where
  "skipFlag getenv = equal_fold (getenv skipVar) ''true''"

locale env_reader =
  fixes getenv :: "string \<Rightarrow> string" and lookupenv :: "string \<Rightarrow> string \<times> bool"
  assumes get_lookup: "getenv key = fst (lookupenv key)"
    and lookup_missing: "\<not> snd (lookupenv key) \<Longrightarrow> fst (lookupenv key) = []"
begin

lemma unset_empty: "\<not> snd (lookupenv key) \<Longrightarrow> getenv key = []"
  by (simp add: get_lookup lookup_missing)

lemma skip_needs_variable: "skipFlag getenv \<Longrightarrow> snd (lookupenv skipVar)"
proof (rule ccontr)
  assume "skipFlag getenv" and "\<not> snd (lookupenv skipVar)"
  then have "equal_fold [] ''true''"
    using unset_empty [of skipVar] by (simp add: skipFlag_def)
  then show False
    by (simp add: equal_fold_def)
qed

lemma skip_value: "skipFlag getenv \<longleftrightarrow> equal_fold (fst (lookupenv skipVar)) ''true''"
  by (simp add: skipFlag_def get_lookup)

end

interpretation os: env_reader "OSReader_Getenv env" "OSReader_LookupEnv env" for env
  by unfold_locales (simp_all add: OSReader_Getenv_def OSReader_LookupEnv_def split: option.splits)

section \<open>URL validation\<close>

datatype url_error =
    InvalidURL | MustUseHTTPS string | URLNoHost string | SchemeNotHTTPS string
  | InvalidIssuer string | IssuerNoHost string | IssuerNotHTTPS string

abbreviation HttpsScheme :: string where "HttpsScheme \<equiv> ''https''"
abbreviation HttpScheme :: string where "HttpScheme \<equiv> ''http''"

definition validateEndpointURLWithSkip ::
  "(string \<Rightarrow> url option) \<Rightarrow> string \<Rightarrow> bool \<Rightarrow> (url_error, unit) result" where
  "validateEndpointURLWithSkip parse endpoint skipValidation =
     (if skipValidation then Inr ()
      else case parse endpoint of
        None \<Rightarrow> Inl InvalidURL
      | Some u \<Rightarrow>
          if u_scheme u \<noteq> HttpsScheme \<and> \<not> IsLocalhost (u_host u) then Inl (MustUseHTTPS endpoint)
          else Inr ())"

definition ValidateEndpointURLWithReader ::
  "(string \<Rightarrow> url option) \<Rightarrow> string \<Rightarrow> Reader \<Rightarrow> (url_error, unit) result" where
  "ValidateEndpointURLWithReader parse endpoint reader =
     validateEndpointURLWithSkip parse endpoint (skipFlag (Getenv reader))"

definition ValidateEndpointURL ::
  "(string \<Rightarrow> url option) \<Rightarrow> environ \<Rightarrow> string \<Rightarrow> (url_error, unit) result" where
  "ValidateEndpointURL parse env endpoint = ValidateEndpointURLWithReader parse endpoint (OSReader env)"

definition ValidateEndpointURLWithInsecureAndReader ::
  "(string \<Rightarrow> url option) \<Rightarrow> string \<Rightarrow> bool \<Rightarrow> Reader \<Rightarrow> (url_error, unit) result" where
  "ValidateEndpointURLWithInsecureAndReader parse endpoint insecureAllowHTTP reader =
     validateEndpointURLWithSkip parse endpoint (skipFlag (Getenv reader) \<or> insecureAllowHTTP)"

definition ValidateEndpointURLWithInsecure ::
  "(string \<Rightarrow> url option) \<Rightarrow> environ \<Rightarrow> string \<Rightarrow> bool \<Rightarrow> (url_error, unit) result" where
  "ValidateEndpointURLWithInsecure parse env endpoint insecureAllowHTTP =
     ValidateEndpointURLWithInsecureAndReader parse endpoint insecureAllowHTTP (OSReader env)"

definition ValidateHTTPSURL :: "(string \<Rightarrow> url option) \<Rightarrow> string \<Rightarrow> (url_error, unit) result" where
  "ValidateHTTPSURL parse rawURL =
     (case parse rawURL of
        None \<Rightarrow> Inl InvalidURL
      | Some parsed \<Rightarrow>
          if u_host parsed = [] then Inl (URLNoHost rawURL)
          else if u_scheme parsed \<noteq> HttpsScheme then Inl (SchemeNotHTTPS (u_scheme parsed))
          else Inr ())"

definition ValidateIssuerURL :: "(string \<Rightarrow> url option) \<Rightarrow> string \<Rightarrow> (url_error, unit) result" where
  "ValidateIssuerURL parse rawURL =
     (case parse rawURL of
        None \<Rightarrow> Inl (InvalidIssuer rawURL)
      | Some u \<Rightarrow>
          if u_host u = [] then Inl (IssuerNoHost rawURL)
          else if u_scheme u \<noteq> HttpsScheme \<and> \<not> IsLocalhost (u_host u) then Inl (IssuerNotHTTPS rawURL)
          else Inr ())"

definition IsURL :: "(string \<Rightarrow> url option) \<Rightarrow> string \<Rightarrow> bool" where
  "IsURL parse input =
     (case parse input of
        None \<Rightarrow> False
      | Some u \<Rightarrow> (u_scheme u = HttpScheme \<or> u_scheme u = HttpsScheme) \<and> u_host u \<noteq> [] \<and> u_host u \<noteq> ''//'')"

text \<open>\<open>URL.Hostname\<close>: the host without a valid port and without brackets.\<close>

definition valid_optional_port :: "string \<Rightarrow> bool" where
  "valid_optional_port p \<longleftrightarrow> p = [] \<or> hd p = CHR '':'' \<and> list_all is_digit (tl p)"

definition Hostname :: "url \<Rightarrow> string" where
  "Hostname u =
     (let host = (case last_index_byte CHR '':'' (u_host u) of
                    Some i \<Rightarrow> if valid_optional_port (drop i (u_host u)) then take i (u_host u) else u_host u
                  | None \<Rightarrow> u_host u)
      in if has_prefix host ''['' \<and> has_suffix host '']'' then butlast (tl host) else host)"

definition TargetIsPrivate ::
  "(string \<Rightarrow> url option) \<Rightarrow> (string \<Rightarrow> ip list option) \<Rightarrow> string \<Rightarrow> bool" where
  "TargetIsPrivate parse lookupIPAddr rawURL =
     (case parse rawURL of
        None \<Rightarrow> False
      | Some u \<Rightarrow>
          if Hostname u = [] then False
          else if IsLocalhost (Hostname u) then True
          else case ParseIP (Hostname u) of
            Some x \<Rightarrow> IsPrivateIP x
          | None \<Rightarrow>
              (case lookupIPAddr (Hostname u) of
                 None \<Rightarrow> False
               | Some addrs \<Rightarrow> list_ex IsPrivateIP addrs))"

section \<open>Redirect policy\<close>

datatype redirect_error =
    StoppedAfter nat | CrossHost string string | Downgrade string | IndexOutOfRange

definition MaxRedirects :: nat where
  "MaxRedirects = 10"

definition SameHostRedirectPolicy ::
  "(string \<Rightarrow> string) \<Rightarrow> url \<Rightarrow> url list \<Rightarrow> (redirect_error, unit) result" where
  "SameHostRedirectPolicy foldc req via =
     (if length via \<ge> MaxRedirects then Inl (StoppedAfter MaxRedirects)
      else case via of
        [] \<Rightarrow> Inl IndexOutOfRange
      | original # _ \<Rightarrow>
          if foldc (u_host req) \<noteq> foldc (u_host original) then Inl (CrossHost (u_host req) (u_host original))
          else if u_scheme original = HttpsScheme \<and> u_scheme req \<noteq> HttpsScheme then Inl (Downgrade (u_scheme req))
          else Inr ())"

text \<open>The requests \<open>http.Client\<close> makes: each one after the first is checked against all before it.\<close>

fun follows :: "(url \<Rightarrow> url list \<Rightarrow> (redirect_error, unit) result) \<Rightarrow> url list \<Rightarrow> url list \<Rightarrow> bool" where
  "follows check via [] = True"
| "follows check via (r # rs) = (check r via = Inr () \<and> follows check (via @ [r]) rs)"

section \<open>The client builder\<close>

datatype build_error =
    ReadCABundle string | ParseCABundle | ReadTokenFile string | EmptyToken | TokenSource build_error
  | NotHTTPSScheme | MalformedURL

record HttpClientBuilder =
  clientTimeout :: int
  tlsHandshakeTimeout :: int
  responseHeaderTimeout :: int
  caCertPath :: string
  authTokenFile :: string
  allowPrivate :: bool
  insecureAllowHTTP :: bool
  envReader :: Reader

definition HttpTimeout :: int where
  "HttpTimeout = 30 * 1000000000"

definition NewHttpClientBuilder :: "environ \<Rightarrow> HttpClientBuilder" where
  "NewHttpClientBuilder env =
     \<lparr>clientTimeout = HttpTimeout, tlsHandshakeTimeout = 10 * 1000000000,
      responseHeaderTimeout = 10 * 1000000000, caCertPath = [], authTokenFile = [],
      allowPrivate = False, insecureAllowHTTP = False, envReader = OSReader env\<rparr>"

definition WithCABundle :: "string \<Rightarrow> HttpClientBuilder \<Rightarrow> HttpClientBuilder" where
  "WithCABundle path b = b\<lparr>caCertPath := path\<rparr>"

definition WithTokenFromFile :: "string \<Rightarrow> HttpClientBuilder \<Rightarrow> HttpClientBuilder" where
  "WithTokenFromFile path b = b\<lparr>authTokenFile := path\<rparr>"

definition WithPrivateIPs :: "bool \<Rightarrow> HttpClientBuilder \<Rightarrow> HttpClientBuilder" where
  "WithPrivateIPs allow b = b\<lparr>allowPrivate := allow\<rparr>"

definition WithInsecureAllowHTTP :: "bool \<Rightarrow> HttpClientBuilder \<Rightarrow> HttpClientBuilder" where
  "WithInsecureAllowHTTP allow b = b\<lparr>insecureAllowHTTP := allow\<rparr>"

definition WithTimeout :: "int \<Rightarrow> HttpClientBuilder \<Rightarrow> HttpClientBuilder" where
  "WithTimeout timeout b = b\<lparr>clientTimeout := timeout\<rparr>"

text \<open>A nil reader (\<open>None\<close>) becomes the reader of the process environment.\<close>

definition WithEnvReader :: "environ \<Rightarrow> Reader option \<Rightarrow> HttpClientBuilder \<Rightarrow> HttpClientBuilder" where
  "WithEnvReader env reader b =
     b\<lparr>envReader := (case reader of None \<Rightarrow> OSReader env | Some r \<Rightarrow> r)\<rparr>"

definition NewHostScopedClientBuilderWithReader ::
  "environ \<Rightarrow> string \<Rightarrow> bool \<Rightarrow> bool \<Rightarrow> Reader option \<Rightarrow> HttpClientBuilder" where
  "NewHostScopedClientBuilderWithReader env host allowPrivateIPs insecureHTTP reader =
     (let builder = WithEnvReader env reader (NewHttpClientBuilder env);
          allowInsecure = IsLocalhost host \<or> insecureHTTP \<or> skipFlag (Getenv (envReader builder))
      in WithPrivateIPs (allowInsecure \<or> allowPrivateIPs) (WithInsecureAllowHTTP allowInsecure builder))"

definition NewHostScopedClientBuilder :: "environ \<Rightarrow> string \<Rightarrow> bool \<Rightarrow> bool \<Rightarrow> HttpClientBuilder" where
  "NewHostScopedClientBuilder env host allowPrivateIPs insecureHTTP =
     NewHostScopedClientBuilderWithReader env host allowPrivateIPs insecureHTTP (Some (OSReader env))"

definition createTokenSourceFromFile ::
  "(string \<Rightarrow> (string, string) result) \<Rightarrow> string \<Rightarrow> (build_error, string) result" where
  "createTokenSourceFromFile readFile tokenFile =
     (case readFile tokenFile of
        Inl e \<Rightarrow> Inl (ReadTokenFile e)
      | Inr bs \<Rightarrow> if trim_space bs = [] then Inl EmptyToken else Inr (trim_space bs))"

record ValidatingTransport =
  vt_InsecureAllowHTTP :: bool
  vt_EnvReader :: "Reader option"

record http_client =
  cl_TLSHandshakeTimeout :: int
  cl_ResponseHeaderTimeout :: int
  cl_dialGuard :: bool
  cl_DisableKeepAlives :: bool
  cl_RootCAs :: "string option"
  cl_transport :: ValidatingTransport
  cl_bearer :: "string option"
  cl_Timeout :: int
  cl_sameHostRedirects :: bool

definition Build ::
  "(string \<Rightarrow> (string, string) result) \<Rightarrow> (string \<Rightarrow> bool) \<Rightarrow> HttpClientBuilder \<Rightarrow> (build_error, http_client) result" where
  "Build readFile pemOK b =
     bindE
       (if caCertPath b \<noteq> [] then
          (case readFile (caCertPath b) of
             Inl e \<Rightarrow> Inl (ReadCABundle e)
           | Inr caCert \<Rightarrow> if \<not> pemOK caCert then Inl ParseCABundle else Inr (Some caCert))
        else Inr None)
       (\<lambda>cas. bindE
          (if authTokenFile b \<noteq> []
           then map_err TokenSource (map_sum id Some (createTokenSourceFromFile readFile (authTokenFile b)))
           else Inr None)
          (\<lambda>token. Inr
             \<lparr>cl_TLSHandshakeTimeout = tlsHandshakeTimeout b,
              cl_ResponseHeaderTimeout = responseHeaderTimeout b,
              cl_dialGuard = \<not> allowPrivate b, cl_DisableKeepAlives = \<not> allowPrivate b,
              cl_RootCAs = cas,
              cl_transport = \<lparr>vt_InsecureAllowHTTP = insecureAllowHTTP b, vt_EnvReader = Some (envReader b)\<rparr>,
              cl_bearer = token, cl_Timeout = clientTimeout b,
              cl_sameHostRedirects = (authTokenFile b \<noteq> [])\<rparr>))"

text \<open>\<open>ValidatingTransport.RoundTrip\<close>: refuse, or forward to the inner transport (\<open>next\<close>).\<close>

definition RoundTrip ::
  "environ \<Rightarrow> (string \<Rightarrow> url option) \<Rightarrow> ValidatingTransport \<Rightarrow> string \<Rightarrow> 'r \<Rightarrow> (build_error, 'r) result" where
  "RoundTrip env parse t requestURL forwarded =
     (let reader = (case vt_EnvReader t of None \<Rightarrow> OSReader env | Some r \<Rightarrow> r)
      in if skipFlag (Getenv reader) \<or> vt_InsecureAllowHTTP t then Inr forwarded
         else case parse requestURL of
           None \<Rightarrow> Inl MalformedURL
         | Some parsedUrl \<Rightarrow> if u_scheme parsedUrl \<noteq> HttpsScheme then Inl NotHTTPSScheme else Inr forwarded)"

definition protectedDialerControl :: "string \<Rightarrow> (addr_error, unit) result" where
  "protectedDialerControl address = AddressReferencesPrivateIp address"

text \<open>A new connection of a built client: the dialer consults the control function if one is installed.\<close>

definition dial :: "http_client \<Rightarrow> string \<Rightarrow> (addr_error, unit) result" where
  "dial c address = (if cl_dialGuard c then protectedDialerControl address else Inr ())"

section \<open>Redirect chains\<close>

definition no_downgrade :: "string \<Rightarrow> string \<Rightarrow> bool" where
  "no_downgrade before after \<longleftrightarrow> (before = HttpsScheme \<longrightarrow> after = HttpsScheme)"

lemma SameHost_ok:
  "SameHostRedirectPolicy foldc r via = Inr () \<longleftrightarrow>
     via \<noteq> [] \<and> length via < MaxRedirects \<and> foldc (u_host r) = foldc (u_host (hd via))
     \<and> (u_scheme (hd via) = HttpsScheme \<longrightarrow> u_scheme r = HttpsScheme)"
  by (cases via) (simp_all add: SameHostRedirectPolicy_def MaxRedirects_def)

lemma follows_SameHost:
  "via \<noteq> [] \<Longrightarrow> length via \<le> MaxRedirects \<Longrightarrow>
   follows (SameHostRedirectPolicy foldc) via rs \<longleftrightarrow>
     length via + length rs \<le> MaxRedirects
     \<and> list_all (\<lambda>r. foldc (u_host r) = foldc (u_host (hd via))
           \<and> (u_scheme (hd via) = HttpsScheme \<longrightarrow> u_scheme r = HttpsScheme)) rs"
  by (induction rs arbitrary: via) (auto simp: SameHost_ok)

text \<open>
  The redirect chains a client with \<open>SameHostRedirectPolicy\<close> follows, in full: from a first request \<open>r0\<close> the
  redirects \<open>rs\<close> are followed exactly when the requests are at most \<open>MaxRedirects\<close> in all, every hop stays
  on the host and port of \<open>r0\<close> up to case, and no hop leaves HTTPS when \<open>r0\<close> used it.
\<close>
theorem redirect_chain_accepted:
  "follows (SameHostRedirectPolicy foldc) [r0] rs =
     (1 + length rs \<le> MaxRedirects
      \<and> list_all (\<lambda>r. foldc (u_host r) = foldc (u_host r0)
           \<and> no_downgrade (u_scheme r0) (u_scheme r)) rs)"
proof -
  have "length [r0] \<le> MaxRedirects" by (simp add: MaxRedirects_def)
  from follows_SameHost [OF _ this] show ?thesis by (simp add: no_downgrade_def)
qed

text \<open>
  The cap counts requests, not redirects: although \<open>MaxRedirects\<close> is documented to bound the redirects at ten,
  a chain of ten same-host redirects is refused at its tenth hop, and nine are followed.
\<close>
theorem redirect_cap_counts_requests:
  "follows (SameHostRedirectPolicy foldc) [r0] (replicate 9 r0)
   \<and> \<not> follows (SameHostRedirectPolicy foldc) [r0] (replicate 10 r0)
   \<and> SameHostRedirectPolicy foldc r0 (replicate 10 r0) = Inl (StoppedAfter 10)"
proof (intro conjI)
  have "length [r0] \<le> MaxRedirects" by (simp add: MaxRedirects_def)
  note f = follows_SameHost [OF _ this]
  show "follows (SameHostRedirectPolicy foldc) [r0] (replicate 9 r0)"
    by (simp add: f list.pred_set) (simp add: MaxRedirects_def)
  show "\<not> follows (SameHostRedirectPolicy foldc) [r0] (replicate 10 r0)"
    by (simp add: f list.pred_set) (simp add: MaxRedirects_def)
qed (simp add: SameHostRedirectPolicy_def MaxRedirects_def)

section \<open>Built clients\<close>

lemma token_Some:
  "map_sum id Some (createTokenSourceFromFile rf f) = Inr y \<longleftrightarrow>
     (\<exists>bs. rf f = Inr bs \<and> trim_space bs \<noteq> [] \<and> y = Some (trim_space bs))"
  by (auto simp: createTokenSourceFromFile_def split: sum.splits)

lemma Build_ok:
  "Build readFile pemOK b = Inr c \<Longrightarrow>
     cl_dialGuard c = (\<not> allowPrivate b) \<and> cl_DisableKeepAlives c = (\<not> allowPrivate b)
     \<and> cl_transport c = \<lparr>vt_InsecureAllowHTTP = insecureAllowHTTP b, vt_EnvReader = Some (envReader b)\<rparr>
     \<and> cl_sameHostRedirects c = (authTokenFile b \<noteq> [])
     \<and> (cl_bearer c = None \<longleftrightarrow> authTokenFile b = [])
     \<and> cl_Timeout c = clientTimeout b"
  by (auto simp: Build_def bindE_eq_Inr map_err_def token_Some split: if_splits sum.splits)

lemma Build_bearer:
  "Build readFile pemOK b = Inr c \<Longrightarrow> cl_bearer c = Some t \<Longrightarrow>
     (\<exists>bs. readFile (authTokenFile b) = Inr bs \<and> t = trim_space bs \<and> t \<noteq> [])"
  by (auto simp: Build_def bindE_eq_Inr map_err_def token_Some
      split: if_splits sum.splits)

lemma RoundTrip_ok:
  "RoundTrip env parse t u x = Inr y \<longleftrightarrow>
     y = x \<and> (skipFlag (Getenv (case vt_EnvReader t of None \<Rightarrow> OSReader env | Some r \<Rightarrow> r))
              \<or> vt_InsecureAllowHTTP t
              \<or> (\<exists>p. parse u = Some p \<and> u_scheme p = HttpsScheme))"
  by (auto simp: RoundTrip_def Let_def split: option.splits)

lemma dial_guarded:
  "dial c a = Inr () \<longleftrightarrow>
     \<not> cl_dialGuard c \<or> AddressReferencesPrivateIp a = Inr ()"
  by (auto simp: dial_def protectedDialerControl_def)

text \<open>
  What a built client guarantees: the private-address dial guard and disabled keep-alives always come together
  (no pooled connection skips the guard); a client that carries a bearer token carries the trimmed,
  non-empty content of the token file and follows same-host redirects only; and a client without the insecure
  options sends no request whose URL is not HTTPS and dials no address that is private. The token is the content the file has when the client is built: it is not read again, although
  the comments on \<open>AuthTokenFile\<close> in \<open>authn/authn.go\<close> say that networking reads it for every request.
\<close>
theorem Build_guarantees:
  assumes "Build readFile pemOK b = Inr c"
  shows "cl_dialGuard c = cl_DisableKeepAlives c
    \<and> (case cl_bearer c of
         None \<Rightarrow> authTokenFile b = []
       | Some t \<Rightarrow> cl_sameHostRedirects c \<and> t \<noteq> [] \<and> (\<exists>bs. readFile (authTokenFile b) = Inr bs \<and> t = trim_space bs))
    \<and> (\<not> allowPrivate b \<longrightarrow> dial c a = Inr () \<longrightarrow> AddressReferencesPrivateIp a = Inr ())
    \<and> (\<not> insecureAllowHTTP b \<longrightarrow> \<not> skipFlag (Getenv (envReader b)) \<longrightarrow>
         is_ok (RoundTrip env parse (cl_transport c) u x) \<longrightarrow> (\<exists>p. parse u = Some p \<and> u_scheme p = HttpsScheme))"
proof -
  note b = Build_ok [OF assms]
  have "case cl_bearer c of
         None \<Rightarrow> authTokenFile b = []
       | Some t \<Rightarrow> cl_sameHostRedirects c \<and> t \<noteq> [] \<and> (\<exists>bs. readFile (authTokenFile b) = Inr bs \<and> t = trim_space bs)"
  proof (cases "cl_bearer c")
    case (Some t)
    with b have "cl_sameHostRedirects c" by simp
    moreover from Build_bearer [OF assms Some]
    have "t \<noteq> [] \<and> (\<exists>bs. readFile (authTokenFile b) = Inr bs \<and> t = trim_space bs)" by blast
    ultimately show ?thesis using Some by simp
  qed (use b in simp)
  moreover have "\<not> allowPrivate b \<longrightarrow> dial c a = Inr () \<longrightarrow> AddressReferencesPrivateIp a = Inr ()"
    using b by (simp add: dial_guarded)
  moreover have "is_ok (RoundTrip env parse (cl_transport c) u x) \<Longrightarrow> \<not> insecureAllowHTTP b \<Longrightarrow>
      \<not> skipFlag (Getenv (envReader b)) \<Longrightarrow> \<exists>p. parse u = Some p \<and> u_scheme p = HttpsScheme"
    using b by (auto simp: is_ok_def RoundTrip_ok split: sum.splits)
  ultimately show ?thesis using b by blast
qed

lemma Build_plain:
  "caCertPath b = [] \<Longrightarrow> authTokenFile b = [] \<Longrightarrow> is_ok (Build readFile pemOK b)"
  by (simp add: Build_def)

theorem Build_guarantees_witness:
  "\<exists>c. Build (\<lambda>_. Inr ''tok'') (\<lambda>_. True) (WithTokenFromFile ''t'' (NewHttpClientBuilder (\<lambda>_. None))) = Inr c
     \<and> cl_bearer c = Some ''tok'' \<and> cl_sameHostRedirects c \<and> cl_DisableKeepAlives c
     \<and> (dial c ''10.0.0.1:80'' = Inr () \<longrightarrow> AddressReferencesPrivateIp ''10.0.0.1:80'' = Inr ())"
proof -
  let ?b = "WithTokenFromFile ''t'' (NewHttpClientBuilder (\<lambda>_. None))"
  have tok: "trim_space ''tok'' = ''tok''"
    by (simp add: trim_space_ascii ascii_space_def)
  obtain c where c: "Build (\<lambda>_. Inr ''tok'') (\<lambda>_. True) ?b = Inr c" "cl_bearer c = Some ''tok''"
      "cl_DisableKeepAlives c"
    by (simp add: Build_def createTokenSourceFromFile_def WithTokenFromFile_def NewHttpClientBuilder_def
        tok map_err_def)
  have "\<not> allowPrivate ?b" by (simp add: WithTokenFromFile_def NewHttpClientBuilder_def)
  with Build_guarantees [OF c(1), of "''10.0.0.1:80''" "\<lambda>_. None" "\<lambda>_. None" "[]" "()"] c
  show ?thesis by auto
qed

section \<open>Host-scoped clients\<close>

lemma host_scoped_fields:
  fixes reader :: "Reader option" and env :: environ
  defines "r \<equiv> (case reader of None \<Rightarrow> OSReader env | Some r \<Rightarrow> r)"
  shows "insecureAllowHTTP (NewHostScopedClientBuilderWithReader env host ap ins reader)
           = (IsLocalhost host \<or> ins \<or> skipFlag (Getenv r))"
    and "allowPrivate (NewHostScopedClientBuilderWithReader env host ap ins reader)
           = (IsLocalhost host \<or> ins \<or> skipFlag (Getenv r) \<or> ap)"
    and "envReader (NewHostScopedClientBuilderWithReader env host ap ins reader) = r"
    and "caCertPath (NewHostScopedClientBuilderWithReader env host ap ins reader) = []"
    and "authTokenFile (NewHostScopedClientBuilderWithReader env host ap ins reader) = []"
  by (simp_all add: NewHostScopedClientBuilderWithReader_def Let_def WithEnvReader_def WithPrivateIPs_def
      WithInsecureAllowHTTP_def NewHttpClientBuilder_def r_def)

text \<open>
  C12. Host-scoped clients end to end: for a host that is not loopback, with the override variable not set in the
  process environment and without the insecure flag, building always succeeds; the built client sends a request
  exactly if its URL is HTTPS, whatever the private-address flag says, and a connection is opened exactly to the
  addresses the guard accepts, unless private addresses were asked for.
\<close>
theorem host_scoped_client_safe:
  assumes "\<not> IsLocalhost host" and "\<not> snd (OSReader_LookupEnv env skipVar)"
  shows "\<exists>c. Build readFile pemOK (NewHostScopedClientBuilder env host allowPriv False) = Inr c
     \<and> dial c a = (if allowPriv then Inr () else AddressReferencesPrivateIp a)
     \<and> cl_DisableKeepAlives c = (\<not> allowPriv)
     \<and> is_ok (RoundTrip env parse (cl_transport c) u x) = (\<exists>p. parse u = Some p \<and> u_scheme p = HttpsScheme)"
proof -
  let ?b = "NewHostScopedClientBuilder env host allowPriv False"
  have skip: "\<not> skipFlag (OSReader_Getenv env)" using assms(2) os.skip_needs_variable by blast
  note fields = host_scoped_fields [of env host allowPriv False "Some (OSReader env)",
      folded NewHostScopedClientBuilder_def]
  have flags: "insecureAllowHTTP ?b = False" "allowPrivate ?b = allowPriv" "envReader ?b = OSReader env"
      "caCertPath ?b = []" "authTokenFile ?b = []"
    using assms(1) skip fields by (simp_all add: OSReader_def)
  obtain c where c: "Build readFile pemOK ?b = Inr c"
    using Build_plain [OF flags(4,5)] by (auto simp: is_ok_iff)
  note b = Build_ok [OF this]
  have "dial c a = (if allowPriv then Inr () else AddressReferencesPrivateIp a)"
    using b flags by (simp add: dial_def protectedDialerControl_def)
  moreover have "is_ok (RoundTrip env parse (cl_transport c) u x) = (\<exists>p. parse u = Some p \<and> u_scheme p = HttpsScheme)"
    using b flags skip by (simp add: is_ok_iff RoundTrip_ok OSReader_def)
  ultimately show ?thesis using c b flags by auto
qed

theorem host_scoped_client_safe_witness:
  "\<exists>c. Build (\<lambda>_. Inl []) (\<lambda>_. False) (NewHostScopedClientBuilder (\<lambda>_. None) ''example.com'' False False) = Inr c
     \<and> dial c ''127.0.0.1:80'' = AddressReferencesPrivateIp ''127.0.0.1:80''"
proof -
  have "ParseIP ''example.com'' = None" by (simp add: parse_eval)
  then have "\<not> IsLocalhost ''example.com''"
    by (simp add: IsLocalhost_def IsLoopbackHost_def SplitHostPort_def hostLocalhost_def equal_fold_def lower_def)
  from host_scoped_client_safe [OF this, of "\<lambda>_. None" "\<lambda>_. Inl []" "\<lambda>_. False" False "''127.0.0.1:80''"
      "\<lambda>_. None" "[]" "()"]
  show ?thesis by (auto simp: OSReader_LookupEnv_def)
qed

section \<open>Endpoint URLs\<close>

text \<open>
  Endpoint validation: without an insecure flag, an endpoint is accepted exactly when it parses and is HTTPS or
  on a local host, or when the environment sets the override variable to a case variant of \<open>true\<close>; with the
  override not set, acceptance by \<open>ValidateIssuerURL\<close> implies it, and \<open>ValidateHTTPSURL\<close> is at least as strict as both.
\<close>
theorem endpoint_validation:
  "is_ok (ValidateEndpointURL parse env s) =
     (equal_fold (fst (OSReader_LookupEnv env skipVar)) ''true''
      \<or> (\<exists>u. parse s = Some u \<and> (u_scheme u = HttpsScheme \<or> IsLocalhost (u_host u))))
   \<and> {s. is_ok (ValidateHTTPSURL parse s)} \<subseteq> {s. is_ok (ValidateIssuerURL parse s)}
   \<and> {s. is_ok (ValidateIssuerURL parse s)} \<subseteq> {s. is_ok (ValidateEndpointURL parse env s)}"
proof -
  have e: "is_ok (ValidateEndpointURL parse env s) =
     (equal_fold (fst (OSReader_LookupEnv env skipVar)) ''true''
      \<or> (\<exists>u. parse s = Some u \<and> (u_scheme u = HttpsScheme \<or> IsLocalhost (u_host u))))" for s
    by (auto simp: ValidateEndpointURL_def ValidateEndpointURLWithReader_def OSReader_def os.skip_value
        validateEndpointURLWithSkip_def is_ok_def split: option.splits)
  have i: "is_ok (ValidateIssuerURL parse s) \<longleftrightarrow>
     (\<exists>u. parse s = Some u \<and> u_host u \<noteq> [] \<and> (u_scheme u = HttpsScheme \<or> IsLocalhost (u_host u)))" for s
    by (auto simp: ValidateIssuerURL_def is_ok_def split: option.splits)
  have h: "is_ok (ValidateHTTPSURL parse s) \<longleftrightarrow>
     (\<exists>u. parse s = Some u \<and> u_host u \<noteq> [] \<and> u_scheme u = HttpsScheme)" for s
    by (auto simp: ValidateHTTPSURL_def is_ok_def split: option.splits)
  show ?thesis by (auto simp only: e i h)
qed

end
