(* ===== verification/Net_Fetch.thy ===== *)
theory Net_Fetch
  imports Net_Client
begin

text \<open>
  The JSON fetch of \<open>networking/fetch.go\<close>: its functional options, the request it builds, the size-limited read of the
  answer and the order of its error checks.

  Parameters: \<open>http.NewRequestWithContext\<close> (whether method and URL are accepted), the client's \<open>Do\<close>,
  \<open>mime.ParseMediaType\<close>, \<open>json.Unmarshal\<close> and \<open>url.Values.Encode\<close>.
\<close>

section \<open>Headers\<close>

text \<open>\<open>textproto.CanonicalMIMEHeaderKey\<close>: unless a byte is not a token character, letters after the start
  and after a hyphen become upper case and the others lower case.\<close>

definition upper :: "char \<Rightarrow> char" where
  "upper c = (if 97 \<le> ord c \<and> ord c \<le> 122 then char_of (ord c - 32) else c)"

definition header_byte :: "char \<Rightarrow> bool" where
  "header_byte c \<longleftrightarrow> is_digit c \<or> 65 \<le> ord c \<and> ord c \<le> 90 \<or> 97 \<le> ord c \<and> ord c \<le> 122
     \<or> c \<in> set ''!#$%&*+-.^_`|~'' \<or> c = CHR 0x27"

primrec canon :: "bool \<Rightarrow> string \<Rightarrow> string" where
  "canon up [] = []"
| "canon up (c # cs) = (if up then upper c else lower c) # canon (c = CHR ''-'') cs"

definition CanonicalHeaderKey :: "string \<Rightarrow> string" where
  "CanonicalHeaderKey k = (if list_all header_byte k then canon True k else k)"

type_synonym header = "string \<rightharpoonup> string list"

definition header_Set :: "string \<Rightarrow> string \<Rightarrow> header \<Rightarrow> header" where
  "header_Set k v h = h(CanonicalHeaderKey k \<mapsto> [v])"

definition header_Add :: "string \<Rightarrow> string \<Rightarrow> header \<Rightarrow> header" where
  "header_Add k v h =
     h(CanonicalHeaderKey k \<mapsto> (case h (CanonicalHeaderKey k) of None \<Rightarrow> [] | Some vs \<Rightarrow> vs) @ [v])"

definition header_Get :: "string \<Rightarrow> header \<Rightarrow> string" where
  "header_Get k h = (case h (CanonicalHeaderKey k) of Some (v # _) \<Rightarrow> v | _ \<Rightarrow> [])"

section \<open>Options\<close>

record ('e) response =
  StatusCode :: int
  Status :: string
  resp_Header :: header
  resp_Body :: "(char, 'e) reader"

record ('e) fetchOptions =
  fo_method :: string
  fo_headers :: header
  fo_body :: "string option"
  fo_errorHandler :: "('e response \<Rightarrow> string \<Rightarrow> goerr option) option"
  fo_maxResponseSize :: int

definition maxResponseSize :: int where
  "maxResponseSize = 1024 * 1024"

abbreviation contentTypeJSON :: string where
  "contentTypeJSON \<equiv> ''application/json''"

abbreviation contentTypeFormURLEncoded :: string where
  "contentTypeFormURLEncoded \<equiv> ''application/x-www-form-urlencoded''"

definition newFetchOptions :: "'e fetchOptions" where
  "newFetchOptions =
     \<lparr>fo_method = ''GET'', fo_headers = Map.empty, fo_body = None, fo_errorHandler = None,
      fo_maxResponseSize = maxResponseSize\<rparr>"

type_synonym 'e fetchOption = "'e fetchOptions \<Rightarrow> 'e fetchOptions"

definition WithMethod :: "string \<Rightarrow> 'e fetchOption" where
  "WithMethod method opts = opts\<lparr>fo_method := method\<rparr>"

definition WithHeader :: "string \<Rightarrow> string \<Rightarrow> 'e fetchOption" where
  "WithHeader key value opts = opts\<lparr>fo_headers := header_Set key value (fo_headers opts)\<rparr>"

definition WithBody :: "string \<Rightarrow> 'e fetchOption" where
  "WithBody body opts = opts\<lparr>fo_body := Some body\<rparr>"

definition WithMaxResponseSize :: "int \<Rightarrow> 'e fetchOption" where
  "WithMaxResponseSize limit opts = opts\<lparr>fo_maxResponseSize := limit\<rparr>"

definition WithErrorHandler :: "('e response \<Rightarrow> string \<Rightarrow> goerr option) \<Rightarrow> 'e fetchOption" where
  "WithErrorHandler handler opts = opts\<lparr>fo_errorHandler := Some handler\<rparr>"

section \<open>The fetch\<close>

record request =
  req_method :: string
  req_url :: string
  req_body :: "string option"
  req_header :: header

text \<open>The loop that adds the option headers to the request, over the map's keys in an order \<open>keys\<close>.\<close>

primrec add_values :: "string \<Rightarrow> string list \<Rightarrow> header \<Rightarrow> header" where
  "add_values key [] h = h"
| "add_values key (v # vs) h = add_values key vs (header_Add key v h)"

fun apply_headers :: "string list \<Rightarrow> header \<Rightarrow> header \<Rightarrow> header" where
  "apply_headers [] src h = h"
| "apply_headers (key # keys) src h =
     apply_headers keys src (case src key of None \<Rightarrow> h | Some vs \<Rightarrow> add_values key vs h)"

definition json_media :: "string \<Rightarrow> bool" where
  "json_media mediaType \<longleftrightarrow>
     \<not> (mediaType \<noteq> contentTypeJSON
        \<and> (\<not> has_prefix mediaType ''application/'' \<or> \<not> has_suffix mediaType ''+json''))"

definition final_options :: "'e fetchOption list \<Rightarrow> 'e fetchOptions" where
  "final_options opts =
     (let options = foldl (\<lambda>opts opt. opt opts) newFetchOptions opts
      in if header_Get ''Accept'' (fo_headers options) = []
         then options\<lparr>fo_headers := header_Set ''Accept'' contentTypeJSON (fo_headers options)\<rparr>
         else options)"

record 'd FetchResult =
  Data :: 'd
  Headers :: header

definition handle_response ::
  "('e \<Rightarrow> goerr) \<Rightarrow> (string \<Rightarrow> string) \<Rightarrow> (string \<Rightarrow> (goerr, 'd) result) \<Rightarrow> string \<Rightarrow> 'e fetchOptions
     \<Rightarrow> 'e response \<Rightarrow> (goerr, 'd FetchResult) result" where
  "handle_response rdErr parseMediaType unmarshal requestURL options resp =
     (case read_limited (resp_Body resp) (fo_maxResponseSize options) of
        Inl e \<Rightarrow> Inl (Wrapf ''failed to read response body: '' (rdErr e))
      | Inr body \<Rightarrow>
          if StatusCode resp \<noteq> 200 then
            (case (case fo_errorHandler options of None \<Rightarrow> None | Some handler \<Rightarrow> handler resp body) of
               Some customErr \<Rightarrow> Inl customErr
             | None \<Rightarrow> Inl (NewHTTPError (StatusCode resp) requestURL (Status resp)))
          else let contentType = header_Get ''Content-Type'' (resp_Header resp) in
            if \<not> json_media (parseMediaType contentType) then Inl (Msg (''unexpected content type: '' @ contentType))
            else case unmarshal body of
              Inl e \<Rightarrow> Inl (Wrapf ''failed to parse JSON response: '' e)
            | Inr d \<Rightarrow> Inr \<lparr>Data = d, Headers = resp_Header resp\<rparr>)"

definition FetchJSON ::
  "(string \<Rightarrow> string \<Rightarrow> goerr option) \<Rightarrow> (request \<Rightarrow> (goerr, 'e response) result) \<Rightarrow> ('e \<Rightarrow> goerr)
     \<Rightarrow> (string \<Rightarrow> string) \<Rightarrow> (string \<Rightarrow> (goerr, 'd) result) \<Rightarrow> string list \<Rightarrow> string \<Rightarrow> 'e fetchOption list
     \<Rightarrow> (goerr, 'd FetchResult) result" where
  "FetchJSON newRequestErr Do rdErr parseMediaType unmarshal keys requestURL opts =
     (let options = final_options opts in
      case newRequestErr (fo_method options) requestURL of
        Some e \<Rightarrow> Inl (Wrapf ''failed to create request: '' e)
      | None \<Rightarrow>
          (case Do \<lparr>req_method = fo_method options, req_url = requestURL, req_body = fo_body options,
                    req_header = apply_headers keys (fo_headers options) Map.empty\<rparr> of
             Inl e \<Rightarrow> Inl (Wrapf ''request failed: '' e)
           | Inr resp \<Rightarrow> handle_response rdErr parseMediaType unmarshal requestURL options resp))"

definition FetchJSONWithForm ::
  "(string \<Rightarrow> string \<Rightarrow> goerr option) \<Rightarrow> (request \<Rightarrow> (goerr, 'e response) result) \<Rightarrow> ('e \<Rightarrow> goerr)
     \<Rightarrow> (string \<Rightarrow> string) \<Rightarrow> (string \<Rightarrow> (goerr, 'd) result) \<Rightarrow> string list \<Rightarrow> string \<Rightarrow> ('f \<Rightarrow> string) \<Rightarrow> 'f
     \<Rightarrow> 'e fetchOption list \<Rightarrow> (goerr, 'd FetchResult) result" where
  "FetchJSONWithForm newRequestErr Do rdErr parseMediaType unmarshal keys requestURL encode formData opts =
     (let formOpts = [WithMethod ''POST'', WithHeader ''Content-Type'' contentTypeFormURLEncoded,
                      WithBody (encode formData)]
      in FetchJSON newRequestErr Do rdErr parseMediaType unmarshal keys requestURL (formOpts @ opts))"

section \<open>Canonical headers\<close>

lemma ord_upper: "ord (upper c) = (if 97 \<le> ord c \<and> ord c \<le> 122 then ord c - 32 else ord c)"
  by (auto simp: upper_def intro!: mod_less)

lemma ord_lower: "ord (lower c) = (if 65 \<le> ord c \<and> ord c \<le> 90 then ord c + 32 else ord c)"
  by (auto simp: lower_def intro!: mod_less)

lemma ord_eq_iff: "c = d \<longleftrightarrow> ord c = ord d"
  by simp

lemma upper_upper [simp]: "upper (upper c) = upper c"
  by (simp only: ord_eq_iff [of "upper (upper c)"] ord_upper) auto

lemma lower_lower [simp]: "lower (lower c) = lower c"
  by (simp only: ord_eq_iff [of "lower (lower c)"] ord_lower) auto

lemma upper_hyphen [simp]: "upper c = CHR ''-'' \<longleftrightarrow> c = CHR ''-''"
  by (simp only: ord_eq_iff ord_upper) auto

lemma lower_hyphen [simp]: "lower c = CHR ''-'' \<longleftrightarrow> c = CHR ''-''"
  by (simp only: ord_eq_iff ord_lower) auto

lemma header_byte_upper: "header_byte c \<Longrightarrow> header_byte (upper c)"
proof (cases "97 \<le> ord c \<and> ord c \<le> 122")
  case True
  then have "65 \<le> ord (upper c) \<and> ord (upper c) \<le> 90" by (auto simp: ord_upper)
  then show ?thesis unfolding header_byte_def by blast
qed (auto simp: upper_def)

lemma header_byte_lower: "header_byte c \<Longrightarrow> header_byte (lower c)"
proof (cases "65 \<le> ord c \<and> ord c \<le> 90")
  case True
  then have "97 \<le> ord (lower c) \<and> ord (lower c) \<le> 122" by (auto simp: ord_lower)
  then show ?thesis unfolding header_byte_def by blast
qed (auto simp: lower_def)

lemma canon_canon: "canon up (canon up k) = canon up k"
  by (induction k arbitrary: up) auto

lemma canon_bytes: "list_all header_byte k \<Longrightarrow> list_all header_byte (canon up k)"
  by (induction k arbitrary: up) (auto simp: header_byte_upper header_byte_lower)

lemma CanonicalHeaderKey_idem [simp]: "CanonicalHeaderKey (CanonicalHeaderKey k) = CanonicalHeaderKey k"
  by (simp add: CanonicalHeaderKey_def canon_canon canon_bytes)

definition canonical :: "header \<Rightarrow> bool" where
  "canonical h \<longleftrightarrow> (\<forall>k\<in>dom h. CanonicalHeaderKey k = k \<and> h k \<noteq> Some [])"

lemma canonical_Set [intro]: "canonical h \<Longrightarrow> canonical (header_Set k v h)"
  by (auto simp: canonical_def header_Set_def)

lemma header_Get_Set [simp]: "header_Get k (header_Set k v h) = v"
  by (simp add: header_Get_def header_Set_def)

lemma add_values_canonical:
  "CanonicalHeaderKey key = key \<Longrightarrow> vs \<noteq> [] \<Longrightarrow>
     add_values key vs h = h(key \<mapsto> (case h key of None \<Rightarrow> [] | Some us \<Rightarrow> us) @ vs)"
proof (induction vs arbitrary: h)
  case (Cons v vs)
  have "header_Add key v h = h(key \<mapsto> (case h key of None \<Rightarrow> [] | Some us \<Rightarrow> us) @ [v])"
    using Cons.prems(1) by (simp add: header_Add_def)
  with Cons show ?case by (cases "vs = []") (simp_all add: fun_eq_iff)
qed simp

lemma apply_headers_map:
  "canonical src \<Longrightarrow> distinct keys \<Longrightarrow> set keys \<subseteq> dom src \<Longrightarrow> set keys \<inter> dom h = {} \<Longrightarrow>
     apply_headers keys src h = (\<lambda>k. if k \<in> set keys then src k else h k)"
proof (induction keys arbitrary: h)
  case (Cons key keys)
  then obtain vs where vs: "src key = Some vs" "CanonicalHeaderKey key = key" "vs \<noteq> []"
    by (fastforce simp: canonical_def)
  have "h key = None" using Cons.prems(4) by auto
  then have "add_values key vs h = h(key \<mapsto> vs)" using vs by (simp add: add_values_canonical)
  moreover have "apply_headers keys src (h(key \<mapsto> vs)) = (\<lambda>k. if k \<in> set keys then src k else (h(key \<mapsto> vs)) k)"
  proof (rule Cons.IH)
    show "set keys \<inter> dom (h(key \<mapsto> vs)) = {}"
      using Cons.prems(2,4) by (simp add: dom_fun_upd disjoint_iff)
  qed (use Cons.prems in auto)
  ultimately have "apply_headers (key # keys) src h = (\<lambda>k. if k \<in> set keys then src k else (h(key \<mapsto> vs)) k)"
    using vs by simp
  then show ?case using vs by (auto simp: fun_eq_iff)
qed simp

section \<open>What a fetch sends and when it succeeds\<close>

text \<open>The options callers can build: \<open>fetchOptions\<close> is not exported, so an option is one of these.\<close>

inductive fetch_option :: "'e fetchOption \<Rightarrow> bool" where
  "fetch_option (WithMethod m)"
| "fetch_option (WithHeader k v)"
| "fetch_option (WithBody b)"
| "fetch_option (WithMaxResponseSize n)"
| "fetch_option (WithErrorHandler f)"

lemma fetch_option_canonical: "fetch_option opt \<Longrightarrow> canonical (fo_headers o1) \<Longrightarrow> canonical (fo_headers (opt o1))"
  by (induction rule: fetch_option.induct)
     (auto simp: WithMethod_def WithHeader_def WithBody_def WithMaxResponseSize_def WithErrorHandler_def)

lemma fold_options_canonical:
  "list_all fetch_option opts \<Longrightarrow> canonical (fo_headers o1) \<Longrightarrow>
     canonical (fo_headers (foldl (\<lambda>opts opt. opt opts) o1 opts))"
  by (induction opts arbitrary: o1) (auto simp: fetch_option_canonical)

lemma final_options_canonical: "list_all fetch_option opts \<Longrightarrow> canonical (fo_headers (final_options opts))"
proof -
  assume "list_all fetch_option opts"
  then have "canonical (fo_headers (foldl (\<lambda>opts opt. opt opts) newFetchOptions opts))"
    by (rule fold_options_canonical) (simp add: newFetchOptions_def canonical_def)
  then show ?thesis by (auto simp: final_options_def Let_def)
qed

lemma final_options_accept: "header_Get ''Accept'' (fo_headers (final_options opts)) \<noteq> []"
  by (simp add: final_options_def Let_def)

definition fetch_request :: "string \<Rightarrow> 'e fetchOption list \<Rightarrow> request" where
  "fetch_request requestURL opts =
     \<lparr>req_method = fo_method (final_options opts), req_url = requestURL, req_body = fo_body (final_options opts),
      req_header = fo_headers (final_options opts)\<rparr>"

lemma handle_response_ok:
  "handle_response rdErr pm um requestURL options resp = Inr r \<longleftrightarrow>
     (\<exists>body. read_limited (resp_Body resp) (fo_maxResponseSize options) = Inr body \<and> StatusCode resp = 200
        \<and> json_media (pm (header_Get ''Content-Type'' (resp_Header resp)))
        \<and> um body = Inr (Data r) \<and> Headers r = resp_Header resp)"
  by (cases r) (auto simp: handle_response_def Let_def split: sum.splits option.splits)

text \<open>
  \<open>FetchJSON\<close> sends exactly one request and succeeds under exactly these conditions. For options built by the
  exported constructors, and whatever order the header map is iterated in, the request carries
  exactly the option headers, with a non-empty \<open>Accept\<close>; a result is returned if and only if the request can be built, the client answers
  with status 200 and a JSON media type, the body can be read up to the size limit and what was read is valid JSON.
\<close>
theorem FetchJSON_success:
  assumes "list_all fetch_option opts" and "distinct keys" and "set keys = dom (fo_headers (final_options opts))"
  shows "(FetchJSON nre Do rdErr pm um keys requestURL opts = Inr r \<longleftrightarrow>
     nre (fo_method (final_options opts)) requestURL = None
     \<and> (\<exists>resp body. Do (fetch_request requestURL opts) = Inr resp \<and> StatusCode resp = 200
          \<and> json_media (pm (header_Get ''Content-Type'' (resp_Header resp)))
          \<and> read_limited (resp_Body resp) (fo_maxResponseSize (final_options opts)) = Inr body
          \<and> um body = Inr (Data r) \<and> Headers r = resp_Header resp))
    \<and> header_Get ''Accept'' (req_header (fetch_request requestURL opts)) \<noteq> []"
proof (rule conjI)
  have "apply_headers keys (fo_headers (final_options opts)) Map.empty
      = (\<lambda>k. if k \<in> set keys then fo_headers (final_options opts) k else None)"
    using apply_headers_map [OF final_options_canonical [OF assms(1)] assms(2), of Map.empty] assms(3) by auto
  also have "\<dots> = fo_headers (final_options opts)" using assms(3) by (auto simp: fun_eq_iff)
  finally have hdr: "apply_headers keys (fo_headers (final_options opts)) Map.empty = fo_headers (final_options opts)" .
  have "FetchJSON nre Do rdErr pm um keys requestURL opts =
    (case nre (fo_method (final_options opts)) requestURL of
        Some e \<Rightarrow> Inl (Wrapf ''failed to create request: '' e)
      | None \<Rightarrow> (case Do (fetch_request requestURL opts) of
             Inl e \<Rightarrow> Inl (Wrapf ''request failed: '' e)
           | Inr resp \<Rightarrow> handle_response rdErr pm um requestURL (final_options opts) resp))"
    unfolding FetchJSON_def fetch_request_def Let_def hdr ..
  then show "FetchJSON nre Do rdErr pm um keys requestURL opts = Inr r \<longleftrightarrow>
     nre (fo_method (final_options opts)) requestURL = None
     \<and> (\<exists>resp body. Do (fetch_request requestURL opts) = Inr resp \<and> StatusCode resp = 200
          \<and> json_media (pm (header_Get ''Content-Type'' (resp_Header resp)))
          \<and> read_limited (resp_Body resp) (fo_maxResponseSize (final_options opts)) = Inr body
          \<and> um body = Inr (Data r) \<and> Headers r = resp_Header resp)"
    by (auto simp: handle_response_ok split: option.splits sum.splits)
  show "header_Get ''Accept'' (req_header (fetch_request requestURL opts)) \<noteq> []"
    by (simp add: fetch_request_def final_options_accept)
qed

lemma canonical_literals:
  "CanonicalHeaderKey ''Accept'' = ''Accept''" "CanonicalHeaderKey ''Content-Type'' = ''Content-Type''"
  "CanonicalHeaderKey ''X'' = ''X''"
  by (simp_all add: CanonicalHeaderKey_def header_byte_def is_digit_def upper_def lower_def)

theorem FetchJSON_success_witness:
  "\<exists>r. FetchJSON (\<lambda>_ _. None)
      (\<lambda>r. Inr \<lparr>StatusCode = 200, Status = [], resp_Header = [''Content-Type'' \<mapsto> [''application/json'']],
                resp_Body = \<lparr>rd_data = ''12345'', rd_fail = None, rd_joined = False\<rparr>\<rparr>)
      (\<lambda>e. Msg e) id (\<lambda>b. Inr (length b)) [''Accept''] ''https://x'' [WithMaxResponseSize 3] = Inr r
    \<and> Data r = 3"
proof -
  let ?opts = "[WithMaxResponseSize 3] :: string fetchOption list"
  have o: "list_all fetch_option ?opts" by (simp add: fetch_option.intros)
  have fo: "final_options ?opts = newFetchOptions\<lparr>fo_headers := [''Accept'' \<mapsto> [contentTypeJSON]], fo_maxResponseSize := 3\<rparr>"
    by (simp add: final_options_def WithMaxResponseSize_def newFetchOptions_def header_Get_def header_Set_def
        canonical_literals)
  have d: "set [''Accept''] = dom (fo_headers (final_options ?opts))" by (simp add: fo)
  show ?thesis
    by (rule exI [of _ "\<lparr>Data = 3, Headers = [''Content-Type'' \<mapsto> [''application/json'']]\<rparr>"])
       (simp add: FetchJSON_success [THEN conjunct1, OF o _ d] fo header_Get_def canonical_literals json_media_def read_limited_def
        numeral_eq_Suc)
qed

text \<open>
  The answers that are not 200: the caller gets the error of its handler, or the default HTTP error with
  the response's status and never its body, which \<open>IsHTTPError\<close> recognises by that status.
\<close>
theorem FetchJSON_error_status:
  assumes "nre (fo_method (final_options opts)) requestURL = None"
    and "\<And>r. Do r = Inr resp" and "StatusCode resp \<noteq> 200" and "rd_fail (resp_Body resp) = None"
  shows "FetchJSON nre Do rdErr pm um keys requestURL opts =
     Inl (case fo_errorHandler (final_options opts) of
            None \<Rightarrow> NewHTTPError (StatusCode resp) requestURL (Status resp)
          | Some handler \<Rightarrow>
             (case handler resp (take (nat (fo_maxResponseSize (final_options opts))) (rd_data (resp_Body resp))) of
                Some e \<Rightarrow> e
              | None \<Rightarrow> NewHTTPError (StatusCode resp) requestURL (Status resp)))"
    and "IsHTTPError (Some (NewHTTPError (StatusCode resp) requestURL (Status resp))) (StatusCode resp)"
proof -
  show "FetchJSON nre Do rdErr pm um keys requestURL opts =
     Inl (case fo_errorHandler (final_options opts) of
            None \<Rightarrow> NewHTTPError (StatusCode resp) requestURL (Status resp)
          | Some handler \<Rightarrow>
             (case handler resp (take (nat (fo_maxResponseSize (final_options opts))) (rd_data (resp_Body resp))) of
                Some e \<Rightarrow> e
              | None \<Rightarrow> NewHTTPError (StatusCode resp) requestURL (Status resp)))"
    using assms by (simp add: FetchJSON_def handle_response_def read_limited_clean split: option.splits)
  show "IsHTTPError (Some (NewHTTPError (StatusCode resp) requestURL (Status resp))) (StatusCode resp)"
    by (simp add: IsHTTPError_def NewHTTPError_def)
qed

theorem FetchJSON_error_status_witness:
  "FetchJSON (\<lambda>_ _. None)
      (\<lambda>r. Inr \<lparr>StatusCode = 404, Status = ''404 Not Found'', resp_Header = Map.empty,
                resp_Body = \<lparr>rd_data = ''secret'', rd_fail = None, rd_joined = False\<rparr>\<rparr>)
      (\<lambda>e. Msg e) id (\<lambda>b. Inr (length b)) [] ''https://x'' []
    = Inl (HTTPError 404 ''404 Not Found'' ''https://x'')"
  by (subst FetchJSON_error_status(1) [OF _ refl])
     (simp_all add: final_options_def newFetchOptions_def Let_def NewHTTPError_def)

end
