(* ===== verification/Net_Port.thy ===== *)
theory Net_Port
  imports Go_Prelude
begin

text \<open>
  Port selection (\<open>networking/port.go\<close>). The operating system is a record of effects on a world state \<open>'w\<close>: binding a
  TCP or UDP socket on 127.0.0.1, closing it, and \<open>crypto/rand.Int\<close>; each probe may see a different world, so the race the comments describe
  is part of the model. Listening sockets are identified by their port.
\<close>

section \<open>Operating system\<close>

record 'w port_os =
  ListenTCP :: "int \<Rightarrow> 'w \<Rightarrow> bool \<times> 'w"
  CloseTCP :: "int \<Rightarrow> 'w \<Rightarrow> 'w"
  ListenUDP :: "int \<Rightarrow> 'w \<Rightarrow> bool \<times> 'w"
  CloseUDP :: "int \<Rightarrow> 'w \<Rightarrow> 'w"
  randInt :: "int \<Rightarrow> 'w \<Rightarrow> int option \<times> 'w"

definition MinPort :: int where "MinPort = 10000"
definition MaxPort :: int where "MaxPort = 65535"
definition MaxAttempts :: nat where "MaxAttempts = 10"

text \<open>\<open>ResolveTCPAddr\<close> and \<open>ResolveUDPAddr\<close> on \<open>127.0.0.1:port\<close> fail exactly for a port outside 0--65535.\<close>

definition port_resolves :: "int \<Rightarrow> bool" where
  "port_resolves port \<longleftrightarrow> 0 \<le> port \<and> port \<le> 65535"

definition tryListenTCP :: "'w port_os \<Rightarrow> int \<Rightarrow> 'w \<Rightarrow> bool \<times> 'w" where
  "tryListenTCP os port w = (if \<not> port_resolves port then (False, w) else ListenTCP os port w)"

definition IsAvailable :: "'w port_os \<Rightarrow> int \<Rightarrow> 'w \<Rightarrow> bool \<times> 'w" where
  "IsAvailable os port w =
     (case tryListenTCP os port w of
        (False, w1) \<Rightarrow> (False, w1)
      | (True, w1) \<Rightarrow>
          let w2 = CloseTCP os port w1 in
          if \<not> port_resolves port then (False, w2)
          else case ListenUDP os port w2 of
            (False, w3) \<Rightarrow> (False, w3)
          | (True, w3) \<Rightarrow> (True, CloseUDP os port w3))"

section \<open>Searching\<close>

text \<open>The two search loops, shared by \<open>FindAvailable\<close> (with \<open>IsAvailable\<close>) and
  \<open>FindAvailableListener\<close> (with \<open>tryListenTCP\<close>): random attempts until one succeeds, the budget is spent or
  the generator fails, then every port in order.\<close>

primrec random_search ::
  "'w port_os \<Rightarrow> (int \<Rightarrow> 'w \<Rightarrow> bool \<times> 'w) \<Rightarrow> nat \<Rightarrow> 'w \<Rightarrow> int option \<times> 'w" where
  "random_search os probe 0 w = (None, w)"
| "random_search os probe (Suc n) w =
     (case randInt os (MaxPort - MinPort) w of
        (None, w1) \<Rightarrow> (None, w1)
      | (Some k, w1) \<Rightarrow>
          (case probe (k + MinPort) w1 of
             (True, w2) \<Rightarrow> (Some (k + MinPort), w2)
           | (False, w2) \<Rightarrow> random_search os probe n w2))"

function seq_search :: "(int \<Rightarrow> 'w \<Rightarrow> bool \<times> 'w) \<Rightarrow> int \<Rightarrow> 'w \<Rightarrow> int option \<times> 'w" where
  "seq_search probe port w =
     (if port > MaxPort then (None, w)
      else case probe port w of
        (True, w1) \<Rightarrow> (Some port, w1)
      | (False, w1) \<Rightarrow> seq_search probe (port + 1) w1)"
  by pat_completeness auto
termination
  by (relation "measure (\<lambda>(_, port, _). nat (MaxPort + 1 - port))") auto

declare seq_search.simps [simp del]

definition search :: "'w port_os \<Rightarrow> (int \<Rightarrow> 'w \<Rightarrow> bool \<times> 'w) \<Rightarrow> 'w \<Rightarrow> int option \<times> 'w" where
  "search os probe w =
     (case random_search os probe MaxAttempts w of
        (Some p, w1) \<Rightarrow> (Some p, w1)
      | (None, w1) \<Rightarrow> seq_search probe MinPort w1)"

definition FindAvailable :: "'w port_os \<Rightarrow> 'w \<Rightarrow> int \<times> 'w" where
  "FindAvailable os w =
     (case search os (IsAvailable os) w of (Some p, w1) \<Rightarrow> (p, w1) | (None, w1) \<Rightarrow> (0, w1))"

datatype port_error =
    InvalidPort int | NoPort | NoAlternative int | CallbackRange int | CallbackBusy int
  | ConnectionsFailed | BadSpec string | BadHostPort string | BadContainerPort string | NoPortFor int

definition FindOrUsePort :: "'w port_os \<Rightarrow> int \<Rightarrow> 'w \<Rightarrow> (port_error, int) result \<times> 'w" where
  "FindOrUsePort os port w =
     (if port \<noteq> 0 \<and> (port < 1 \<or> port > 65535) then (Inl (InvalidPort port), w)
      else if port = 0 then
        (case FindAvailable os w of (p, w1) \<Rightarrow> (if p = 0 then Inl NoPort else Inr p, w1))
      else case IsAvailable os port w of
        (True, w1) \<Rightarrow> (Inr port, w1)
      | (False, w1) \<Rightarrow>
          (case FindAvailable os w1 of (alt, w2) \<Rightarrow> (if alt = 0 then Inl (NoAlternative port) else Inr alt, w2)))"

definition FindAvailableListener :: "'w port_os \<Rightarrow> 'w \<Rightarrow> (port_error, int) result \<times> 'w" where
  "FindAvailableListener os w =
     (case search os (tryListenTCP os) w of (Some p, w1) \<Rightarrow> (Inr p, w1) | (None, w1) \<Rightarrow> (Inl NoPort, w1))"

definition FindOrUseListener :: "'w port_os \<Rightarrow> int \<Rightarrow> 'w \<Rightarrow> (port_error, int) result \<times> 'w" where
  "FindOrUseListener os port w =
     (if port \<noteq> 0 \<and> (port < 1 \<or> port > 65535) then (Inl (InvalidPort port), w)
      else if port = 0 then FindAvailableListener os w
      else case tryListenTCP os port w of
        (True, w1) \<Rightarrow> (Inr port, w1)
      | (False, w1) \<Rightarrow>
          (case FindAvailableListener os w1 of
             (Inl _, w2) \<Rightarrow> (Inl (NoAlternative port), w2)
           | (Inr l, w2) \<Rightarrow> (Inr l, w2)))"

section \<open>Callback ports, port holders and port specifications\<close>

definition IsPreRegisteredClient :: "string \<Rightarrow> bool" where
  "IsPreRegisteredClient clientID \<longleftrightarrow> clientID \<noteq> []"

definition ValidateCallbackPort :: "'w port_os \<Rightarrow> int \<Rightarrow> string \<Rightarrow> 'w \<Rightarrow> (port_error, unit) result \<times> 'w" where
  "ValidateCallbackPort os callbackPort clientID w =
     (if callbackPort = 0 then (Inr (), w)
      else if callbackPort < 1024 \<or> callbackPort > 65535 then (Inl (CallbackRange callbackPort), w)
      else if IsPreRegisteredClient clientID then
        (case IsAvailable os callbackPort w of
           (False, w1) \<Rightarrow> (Inl (CallbackBusy callbackPort), w1)
         | (True, w1) \<Rightarrow> (Inr (), w1))
      else (Inr (), w))"

record connection =
  laddr_port :: int
  conn_status :: string
  conn_pid :: int

definition GetProcessOnPort :: "connection list option \<Rightarrow> int \<Rightarrow> (port_error, int) result" where
  "GetProcessOnPort conns port =
     (if port \<le> 0 \<or> port > MaxPort then Inl (InvalidPort port)
      else case conns of
        None \<Rightarrow> Inl ConnectionsFailed
      | Some cs \<Rightarrow>
          (case find (\<lambda>c. laddr_port c = port \<and> conn_status c = ''LISTEN'' \<and> conn_pid c > 0) cs of
             Some c \<Rightarrow> Inr (conn_pid c)
           | None \<Rightarrow> Inr 0))"

definition ParsePortSpec :: "'w port_os \<Rightarrow> string \<Rightarrow> 'w \<Rightarrow> (port_error, string \<times> int) result \<times> 'w" where
  "ParsePortSpec os portSpec w =
     (if str_contains portSpec '':'' then
        (case split_on CHR '':'' portSpec of
           [hostPortStr, containerPortStr] \<Rightarrow>
             (case atoi hostPortStr of
                None \<Rightarrow> (Inl (BadHostPort portSpec), w)
              | Some hostPort \<Rightarrow>
                  if hostPort < 0 \<or> hostPort > 65535 then (Inl (BadHostPort portSpec), w)
                  else case atoi containerPortStr of
                    None \<Rightarrow> (Inl (BadContainerPort portSpec), w)
                  | Some containerPort \<Rightarrow>
                      if containerPort < 1 \<or> containerPort > 65535 then (Inl (BadContainerPort portSpec), w)
                      else (Inr (hostPortStr, containerPort), w))
         | _ \<Rightarrow> (Inl (BadSpec portSpec), w))
      else case atoi portSpec of
        Some containerPort \<Rightarrow>
          if containerPort < 1 \<or> containerPort > 65535 then (Inl (BadContainerPort portSpec), w)
          else (case FindAvailable os w of
                  (hostPort, w1) \<Rightarrow>
                    if hostPort = 0 then (Inl (NoPortFor containerPort), w1)
                    else (Inr (show_nat (nat hostPort), containerPort), w1))
      | None \<Rightarrow> (Inl (BadSpec portSpec), w))"

section \<open>What a search returns\<close>

text \<open>\<open>crypto/rand.Int\<close> returns a value in \<open>[0, max)\<close> or an error.\<close>

definition rand_in_range :: "'w port_os \<Rightarrow> bool" where
  "rand_in_range os \<longleftrightarrow> (\<forall>n w k w'. n > 0 \<longrightarrow> randInt os n w = (Some k, w') \<longrightarrow> 0 \<le> k \<and> k < n)"

lemma rand_in_rangeD: "rand_in_range os \<Longrightarrow> randInt os n w = (Some k, w') \<Longrightarrow> 0 < n \<Longrightarrow> 0 \<le> k \<and> k < n"
  unfolding rand_in_range_def by blast

abbreviation selectable :: "int \<Rightarrow> bool" where
  "selectable p \<equiv> MinPort \<le> p \<and> p \<le> MaxPort"

lemma random_search_sound:
  assumes "rand_in_range os"
  shows "random_search os probe n w = (Some p, w') \<Longrightarrow> selectable p \<and> (\<exists>w0. probe p w0 = (True, w'))"
proof (induction n arbitrary: w)
  case (Suc n)
  obtain r w1 where r: "randInt os (MaxPort - MinPort) w = (r, w1)" by fastforce
  with Suc.prems obtain k where k: "r = Some k" by (cases r) auto
  have "0 \<le> k \<and> k < MaxPort - MinPort"
    using rand_in_rangeD [OF assms, of _ w k w1] r k by (simp add: MaxPort_def MinPort_def)
  then have sel: "selectable (k + MinPort)" by auto
  obtain b w2 where b: "probe (k + MinPort) w1 = (b, w2)" by fastforce
  show ?case using Suc r k b sel by (cases b) auto
qed simp

lemma seq_search_sound:
  "seq_search probe port w = (Some p, w') \<Longrightarrow> port \<le> p \<and> p \<le> MaxPort \<and> (\<exists>w0. probe p w0 = (True, w'))"
proof (induction probe port w rule: seq_search.induct)
  case (1 probe port w)
  obtain b w1 where b: "probe port w = (b, w1)" by fastforce
  show ?case
    using 1 b by (cases b) (force simp: seq_search.simps [of probe port] split: if_splits)+
qed

lemma search_sound:
  assumes "rand_in_range os" and "search os probe w = (Some p, w')"
  shows "selectable p \<and> (\<exists>w0. probe p w0 = (True, w'))"
proof -
  obtain r w1 where r: "random_search os probe MaxAttempts w = (r, w1)" by fastforce
  show ?thesis
  proof (cases r)
    case None
    with assms(2) r have "seq_search probe MinPort w1 = (Some p, w')" by (simp add: search_def)
    from seq_search_sound [OF this] show ?thesis by blast
  next
    case (Some q)
    with assms(2) r have "random_search os probe MaxAttempts w = (Some p, w')" by (simp add: search_def)
    from random_search_sound [OF assms(1) this] show ?thesis .
  qed
qed

lemma seq_search_live:
  "port \<le> p \<Longrightarrow> p \<le> MaxPort \<Longrightarrow> (\<And>w. fst (probe p w)) \<Longrightarrow> fst (seq_search probe port w) \<noteq> None"
proof (induction probe port w rule: seq_search.induct)
  case (1 probe port w)
  obtain b w1 where b: "probe port w = (b, w1)" by fastforce
  show ?case
  proof (cases b)
    case True
    with 1 b show ?thesis by (simp add: seq_search.simps [of probe port])
  next
    case False
    with b 1(4) [of w] have "port \<noteq> p" by auto
    with 1 b False show ?thesis by (simp add: seq_search.simps [of probe port])
  qed
qed

lemma search_live:
  "selectable p \<Longrightarrow> (\<And>w. fst (probe p w)) \<Longrightarrow> fst (search os probe w) \<noteq> None"
  using seq_search_live [of MinPort p probe] by (auto simp: search_def split: prod.splits option.splits)

lemma FindAvailable_sound:
  assumes "rand_in_range os" and "FindAvailable os w = (p, w')" and "p \<noteq> 0"
  shows "selectable p \<and> (\<exists>w0. IsAvailable os p w0 = (True, w'))"
  using assms(2,3) search_sound [OF assms(1), of "IsAvailable os" w p w']
  by (auto simp: FindAvailable_def split: prod.splits option.splits)

lemma FindAvailable_live:
  assumes "rand_in_range os" and "selectable p" and "\<And>w. fst (IsAvailable os p w)"
  shows "fst (FindAvailable os w) \<noteq> 0"
proof -
  obtain q w1 where q: "search os (IsAvailable os) w = (Some q, w1)"
    using search_live [of p "IsAvailable os" os w] assms(2,3)
    by (cases "search os (IsAvailable os) w") auto
  with search_sound [OF assms(1) q] have "MinPort \<le> q" by blast
  with q show ?thesis by (simp add: FindAvailable_def MinPort_def)
qed

text \<open>
  \<open>FindOrUsePort\<close>, with every probe free to see a different state of the host: a returned port lies in 1--65535,
  is the requested one or a selectable one, and the run ended with a successful probe of exactly that port. An
  out-of-range request is refused without a probe. If some selectable port is free throughout, a valid request never fails.
\<close>
theorem FindOrUsePort_correct:
  assumes "rand_in_range os"
  shows "(FindOrUsePort os port w = (Inr p, w') \<longrightarrow>
           1 \<le> p \<and> p \<le> 65535 \<and> (p = port \<or> selectable p) \<and> (\<exists>w0. IsAvailable os p w0 = (True, w')))
    \<and> (port < 0 \<or> 65535 < port \<longrightarrow> FindOrUsePort os port w = (Inl (InvalidPort port), w))
    \<and> (0 \<le> port \<and> port \<le> 65535 \<and> selectable q \<and> (\<forall>v. fst (IsAvailable os q v)) \<longrightarrow>
           is_ok (fst (FindOrUsePort os port w)))"
proof (rule conjI [OF _ conjI]; (intro impI)?)
  assume ok: "FindOrUsePort os port w = (Inr p, w')"
  let ?good = "1 \<le> p \<and> p \<le> 65535 \<and> (p = port \<or> selectable p) \<and> (\<exists>w0. IsAvailable os p w0 = (True, w'))"
  have fa: "FindAvailable os v = (p, w') \<Longrightarrow> p \<noteq> 0 \<Longrightarrow> ?good" for v
    using FindAvailable_sound [OF assms, of v p w'] by (auto simp: MinPort_def MaxPort_def)
  show ?good
    using ok fa by (auto simp: FindOrUsePort_def split: if_splits prod.splits bool.splits)
next
  assume "port < 0 \<or> 65535 < port"
  then show "FindOrUsePort os port w = (Inl (InvalidPort port), w)" by (auto simp: FindOrUsePort_def)
next
  assume q: "0 \<le> port \<and> port \<le> 65535 \<and> selectable q \<and> (\<forall>v. fst (IsAvailable os q v))"
  then have live: "fst (FindAvailable os v) \<noteq> 0" for v using FindAvailable_live [OF assms, of q v] by blast
  obtain b w1 where b: "IsAvailable os port w = (b, w1)" by fastforce
  obtain q1 w2 q2 w3 where f: "FindAvailable os w = (q1, w2)" "FindAvailable os w1 = (q2, w3)" by fastforce
  from live [of w] live [of w1] f have "q1 \<noteq> 0" "q2 \<noteq> 0" by simp_all
  with b f q show "is_ok (fst (FindOrUsePort os port w))"
    by (cases b) (auto simp: FindOrUsePort_def)
qed

text \<open>A host where a fixed set of ports is free; its state records the ports held by open listeners.\<close>

definition sample_os :: "(int \<Rightarrow> bool) \<Rightarrow> int set port_os" where
  "sample_os free =
     \<lparr>ListenTCP = (\<lambda>p w. if free p \<and> p \<notin> w then (True, insert p w) else (False, w)),
      CloseTCP = (\<lambda>p w. w - {p}), ListenUDP = (\<lambda>p w. (free p, w)), CloseUDP = (\<lambda>p w. w),
      randInt = (\<lambda>n w. (None, w))\<rparr>"

lemma sample_rand: "rand_in_range (sample_os free)"
  by (simp add: rand_in_range_def sample_os_def)

theorem FindOrUsePort_correct_witness:
  "FindOrUsePort (sample_os (\<lambda>p. p = 10001)) 80 {} = (Inr 10001, {}) \<and> selectable 10001
   \<and> (\<exists>w0. IsAvailable (sample_os (\<lambda>p. p = 10001)) 10001 w0 = (True, {}))"
proof -
  have av: "IsAvailable (sample_os (\<lambda>p. p = 10001)) p {} = (p = 10001, {})" for p
    by (auto simp: IsAvailable_def tryListenTCP_def port_resolves_def sample_os_def)
  have "seq_search (IsAvailable (sample_os (\<lambda>p. p = 10001))) 10000 {} = (Some 10001, {})"
    by (simp add: seq_search.simps av MaxPort_def)
  moreover have "random_search (sample_os (\<lambda>p. p = 10001)) g MaxAttempts w = (None, w)" for g w
    by (simp add: MaxAttempts_def sample_os_def numeral_eq_Suc)
  ultimately have f: "FindOrUsePort (sample_os (\<lambda>p. p = 10001)) 80 {} = (Inr 10001, {})"
    by (simp add: FindOrUsePort_def FindAvailable_def search_def av MinPort_def)
  from FindOrUsePort_correct [OF sample_rand] f show ?thesis by (auto simp: MinPort_def MaxPort_def)
qed

section \<open>Listeners stay bound\<close>

lemma tryListenTCP_True: "tryListenTCP os p w = (True, w') \<longleftrightarrow> port_resolves p \<and> ListenTCP os p w = (True, w')"
  by (simp add: tryListenTCP_def)

text \<open>
  The listener variants close the race: with a predicate \<open>held\<close> that binding a port establishes, the port
  returned by \<open>FindOrUseListener\<close> is held in the final state (it was bound by the last effect of the run and
  never closed), and is the requested port or a selectable one.
\<close>
theorem FindOrUseListener_held:
  assumes "rand_in_range os" and "\<And>p w w'. ListenTCP os p w = (True, w') \<Longrightarrow> held p w'"
    and "FindOrUseListener os port w = (Inr p, w')"
  shows "held p w' \<and> 1 \<le> p \<and> p \<le> 65535 \<and> (p = port \<or> selectable p)"
proof -
  have fl: "FindAvailableListener os v = (Inr p, w') \<Longrightarrow> held p w' \<and> 1 \<le> p \<and> p \<le> 65535 \<and> selectable p" for v
    using search_sound [OF assms(1), of "tryListenTCP os" v p w'] assms(2)
    by (auto simp: FindAvailableListener_def tryListenTCP_True MinPort_def MaxPort_def split: prod.splits option.splits)
  show ?thesis
    using assms(3) fl assms(2)
    by (auto simp: FindOrUseListener_def tryListenTCP_True split: if_splits prod.splits bool.splits sum.splits)
qed

theorem FindOrUseListener_held_witness:
  "FindOrUseListener (sample_os (\<lambda>p. True)) 8080 {} = (Inr 8080, {8080}) \<and> (8080 :: int) \<in> {8080}"
proof -
  have f: "FindOrUseListener (sample_os (\<lambda>p. True)) 8080 {} = (Inr 8080, {8080})"
    by (simp add: FindOrUseListener_def tryListenTCP_def port_resolves_def sample_os_def)
  have h: "ListenTCP (sample_os (\<lambda>p. True)) p w = (True, w') \<Longrightarrow> p \<in> w'" for p w w'
    by (auto simp: sample_os_def split: if_splits)
  from FindOrUseListener_held [OF sample_rand h f] f show ?thesis by simp
qed

section \<open>Port specifications\<close>

lemma contains_colon: "str_contains s '':'' \<longleftrightarrow> CHR '':'' \<in> set s"
proof
  assume "sublist '':'' s" then show "CHR '':'' \<in> set s" by (auto simp: sublist_def)
next
  assume "CHR '':'' \<in> set s"
  then obtain a b where "s = a @ '':'' @ b" by (metis append_Cons append_Nil split_list)
  then show "sublist '':'' s" by (auto simp: sublist_def)
qed

lemma show_nat_no_colon [simp]: "CHR '':'' \<notin> set (show_nat n)"
  by (auto dest!: show_nat_digits simp: is_digit_def)

lemma split_host_container:
  "split_on CHR '':'' (show_nat h @ '':'' @ show_nat c) = [show_nat h, show_nat c]"
  by (simp add: split_on_append split_on_no_sep)

text \<open>
  \<open>ParsePortSpec\<close> inverts the printed forms: the form host:container is accepted exactly for a host port in
  0--65535 and a container port in 1--65535 and gives both back without touching the host, and a lone container
  port is completed with a port found by \<open>FindAvailable\<close>.
\<close>
theorem ParsePortSpec_printed:
  assumes "int h \<le> max_int64" "int c \<le> max_int64"
  shows "ParsePortSpec os (show_nat h @ '':'' @ show_nat c) w =
     (if h > 65535 then Inl (BadHostPort (show_nat h @ '':'' @ show_nat c))
      else if c < 1 \<or> c > 65535 then Inl (BadContainerPort (show_nat h @ '':'' @ show_nat c))
      else Inr (show_nat h, int c), w)"
    and "1 \<le> c \<Longrightarrow> c \<le> 65535 \<Longrightarrow> FindAvailable os w = (int p, w') \<Longrightarrow>
      ParsePortSpec os (show_nat c) w = (if p = 0 then Inl (NoPortFor (int c)) else Inr (show_nat p, int c), w')"
proof -
  have "str_contains (show_nat h @ '':'' @ show_nat c) '':''" by (simp add: contains_colon)
  then show "ParsePortSpec os (show_nat h @ '':'' @ show_nat c) w =
     (if h > 65535 then Inl (BadHostPort (show_nat h @ '':'' @ show_nat c))
      else if c < 1 \<or> c > 65535 then Inl (BadContainerPort (show_nat h @ '':'' @ show_nat c))
      else Inr (show_nat h, int c), w)"
    unfolding ParsePortSpec_def split_host_container using assms by (simp add: atoi_show_nat)
  assume "1 \<le> c" "c \<le> 65535" "FindAvailable os w = (int p, w')"
  moreover have "\<not> str_contains (show_nat c) '':''" by (simp add: contains_colon)
  ultimately show "ParsePortSpec os (show_nat c) w =
      (if p = 0 then Inl (NoPortFor (int c)) else Inr (show_nat p, int c), w')"
    unfolding ParsePortSpec_def using assms by (simp add: atoi_show_nat)
qed

theorem ParsePortSpec_printed_witness:
  "ParsePortSpec (sample_os (\<lambda>p. False)) (show_nat 8080 @ '':'' @ show_nat 80) {} = (Inr (show_nat 8080, 80), {})"
  using ParsePortSpec_printed(1) [of 8080 80 "sample_os (\<lambda>p. False)" "{}"] by (simp add: max_int64_def)

end
