(* ===== verification/Permissions.thy ===== *)
theory Permissions
  imports Go_Path
begin

text \<open>
  Permission profiles and mount declarations (\<open>permissions/profile.go\<close>). Strings are byte strings; the regular
  expressions are written out as predicates on them. \<open>filepath.Clean\<close> is that of a Unix build, where it is
  \<open>path.Clean\<close>. \<open>os.ReadFile\<close> and \<open>json.Unmarshal\<close> are parameters of \<open>FromFile\<close>.
\<close>

section \<open>Profiles\<close>

type_synonym MountDeclaration = string

record OutboundNetworkPermissions =
  InsecureAllowAll :: bool
  AllowHost :: "string list"
  AllowPort :: "int list"

record InboundNetworkPermissions =
  in_AllowHost :: "string list"

record NetworkPermissions =
  net_Mode :: string
  Outbound :: "OutboundNetworkPermissions option"
  Inbound :: "InboundNetworkPermissions option"

record Profile =
  pr_Name :: string
  pr_Read :: "MountDeclaration list"
  pr_Write :: "MountDeclaration list"
  pr_Network :: "NetworkPermissions option"
  Privileged :: bool

definition BuiltinNoneProfile :: Profile where
  "BuiltinNoneProfile =
     \<lparr>pr_Name = ''none'', pr_Read = [], pr_Write = [],
      pr_Network = Some \<lparr>net_Mode = [],
        Outbound = Some \<lparr>InsecureAllowAll = False, AllowHost = [], AllowPort = []\<rparr>,
        Inbound = Some \<lparr>in_AllowHost = []\<rparr>\<rparr>,
      Privileged = False\<rparr>"

definition BuiltinNetworkProfile :: Profile where
  "BuiltinNetworkProfile =
     \<lparr>pr_Name = ''network'', pr_Read = [], pr_Write = [],
      pr_Network = Some \<lparr>net_Mode = [],
        Outbound = Some \<lparr>InsecureAllowAll = True, AllowHost = [], AllowPort = []\<rparr>,
        Inbound = Some \<lparr>in_AllowHost = []\<rparr>\<rparr>,
      Privileged = False\<rparr>"

definition NewProfile :: Profile where
  "NewProfile = BuiltinNoneProfile"

datatype profile_error = ReadProfile string | ParseProfile string

definition FromFile ::
  "(string \<Rightarrow> (string, string) result) \<Rightarrow> (string \<Rightarrow> (string, Profile) result) \<Rightarrow> string \<Rightarrow> (profile_error, Profile) result" where
  "FromFile readFile unmarshal path =
     (case readFile path of
        Inl e \<Rightarrow> Inl (ReadProfile e)
      | Inr data \<Rightarrow> (case unmarshal data of Inl e \<Rightarrow> Inl (ParseProfile e) | Inr profile \<Rightarrow> Inr profile))"

section \<open>Path checks\<close>

definition letter :: "char \<Rightarrow> bool" where
  "letter c \<longleftrightarrow> 65 \<le> ord c \<and> ord c \<le> 90 \<or> 97 \<le> ord c \<and> ord c \<le> 122"

fun windowsPathRegex :: "string \<Rightarrow> bool" where
  "windowsPathRegex (d # c # s # _) = (letter d \<and> c = CHR '':'' \<and> (s = CHR ''/'' \<or> s = CHR 0x5C))"
| "windowsPathRegex _ = False"

definition commandInjectionPattern :: "string \<Rightarrow> bool" where
  "commandInjectionPattern p = list_ex (\<lambda>c. c \<in> set ''$&;|'' \<or> c = CHR ''`'') p"

definition resourceSchemeRegex :: "string \<Rightarrow> bool" where
  "resourceSchemeRegex s =
     (case s of
        [] \<Rightarrow> False
      | c # cs \<Rightarrow> letter c \<and> list_all (\<lambda>d. letter d \<or> is_digit d \<or> d = CHR ''_'' \<or> d = CHR ''-'') cs)"

datatype mount_error =
    CommandInjection string | NullByte string | WindowsTarget string
  | AmbiguousColons string | MultipleColons string | InvalidFormat string
  | InvalidDeclaration string mount_error | NotResource string

definition validatePath :: "string \<Rightarrow> (mount_error, unit) result" where
  "validatePath path =
     (if commandInjectionPattern path then Inl (CommandInjection path)
      else if CHR 0x00 \<in> set path then Inl (NullByte path)
      else Inr ())"

definition isWindowsPath :: "string \<Rightarrow> bool" where
  "isWindowsPath path = (if windowsPathRegex path then True else if has_prefix path [CHR 0x5C] then True else False)"

definition validateResourceScheme :: "string \<Rightarrow> bool" where
  "validateResourceScheme scheme = resourceSchemeRegex scheme"

definition isValidContainerPath :: "string \<Rightarrow> bool" where
  "isValidContainerPath path =
     (has_prefix path ''/'' \<or> isWindowsPath path \<or> path \<noteq> [] \<and> \<not> str_contains path '':'')"

section \<open>Declarations\<close>

fun colons_from :: "nat \<Rightarrow> string \<Rightarrow> nat list" where
  "colons_from i [] = []"
| "colons_from i (c # cs) = (if c = CHR '':'' then [i] else []) @ colons_from (Suc i) cs"

definition findColonPositions :: "string \<Rightarrow> nat list" where
  "findColonPositions s = colons_from 0 s"

text \<open>The loop over the colons from right to left; \<open>None\<close> is the index -1.\<close>

definition findResourceURISeparator :: "string \<Rightarrow> nat option" where
  "findResourceURISeparator remainder =
     find (\<lambda>colonIdx. colonIdx + 1 < length remainder \<and> isValidContainerPath (drop (colonIdx + 1) remainder))
          (rev (findColonPositions remainder))"

text \<open>\<open>strings.SplitN(s, sep, 2)\<close> for a non-empty separator: the parts around its first occurrence.\<close>

fun splitN2 :: "string \<Rightarrow> string \<Rightarrow> string list" where
  "splitN2 sep [] = [[]]"
| "splitN2 sep (c # cs) =
     (if prefix sep (c # cs) then [[], drop (length sep) (c # cs)]
      else (c # hd (splitN2 sep cs)) # tl (splitN2 sep cs))"

abbreviation uriSep :: string where "uriSep \<equiv> ''://''"

definition splitResourceURI :: "string \<Rightarrow> (string \<times> string) option" where
  "splitResourceURI declaration =
     (if \<not> str_contains declaration uriSep then None
      else case splitN2 uriSep declaration of
        [scheme, remainder] \<Rightarrow> if \<not> validateResourceScheme scheme then None else Some (scheme, remainder)
      | _ \<Rightarrow> None)"

text \<open>The checks every two-part form shares: no Windows target, then both parts validated, then cleaned. In the source they are
  written out in each of the three functions.\<close>

definition checked_pair :: "string \<Rightarrow> string \<Rightarrow> (mount_error, string \<times> string) result" where
  "checked_pair host container =
     (if isWindowsPath container then Inl (WindowsTarget container)
      else bindE (validatePath host) (\<lambda>_. bindE (validatePath container)
        (\<lambda>_. Inr (path_clean host, path_clean container))))"

text \<open>A pair of empty strings without an error means that the form does not apply.\<close>

definition parseResourceURI :: "string \<Rightarrow> (mount_error, string \<times> string) result" where
  "parseResourceURI declaration =
     (case splitResourceURI declaration of
        None \<Rightarrow> Inr ([], [])
      | Some (scheme, remainder) \<Rightarrow>
          (case findResourceURISeparator remainder of
             None \<Rightarrow> Inr ([], [])
           | Some separatorIdx \<Rightarrow>
               let resourceName = take separatorIdx remainder; containerPath = drop (separatorIdx + 1) remainder in
               if resourceName = [] \<or> containerPath = [] then Inr ([], [])
               else bindE (checked_pair resourceName containerPath)
                      (\<lambda>(source, target). Inr (scheme @ uriSep @ source, target))))"

definition parseSinglePath :: "string \<Rightarrow> (mount_error, string \<times> string) result" where
  "parseSinglePath declaration =
     bindE (validatePath declaration) (\<lambda>_. Inr (path_clean declaration, path_clean declaration))"

definition parseWindowsPath :: "string \<Rightarrow> nat list \<Rightarrow> (mount_error, string \<times> string) result" where
  "parseWindowsPath declaration colonPositions =
     (if length colonPositions = 1 \<and> colonPositions ! 0 = 1 then
        bindE (validatePath declaration) (\<lambda>_. Inr (path_clean declaration, path_clean declaration))
      else if length colonPositions = 2 \<and> colonPositions ! 0 = 1 then
        checked_pair (take (colonPositions ! 1) declaration) (drop (colonPositions ! 1 + 1) declaration)
      else if length colonPositions > 2 \<and> colonPositions ! 0 = 1 then Inl (AmbiguousColons declaration)
      else Inr ([], []))"

definition parseHostContainerPath :: "string \<Rightarrow> nat list \<Rightarrow> (mount_error, string \<times> string) result" where
  "parseHostContainerPath declaration colonPositions =
     (if length colonPositions = 1 then
        checked_pair (take (colonPositions ! 0) declaration) (drop (colonPositions ! 0 + 1) declaration)
      else if length colonPositions > 1 then Inl (MultipleColons declaration)
      else Inr ([], []))"

text \<open>\<open>if source, target, err := ...; err != nil { return } else if source != "" { return }\<close>\<close>

definition or_else ::
  "(mount_error, string \<times> string) result \<Rightarrow> (mount_error, string \<times> string) result \<Rightarrow> (mount_error, string \<times> string) result" where
  "or_else r rest = bindE r (\<lambda>(source, target). if source \<noteq> [] then Inr (source, target) else rest)"

definition Parse :: "MountDeclaration \<Rightarrow> (mount_error, string \<times> string) result" where
  "Parse declaration =
     or_else (parseResourceURI declaration)
       (let last_part =
              (if \<not> str_contains declaration '':'' then parseSinglePath declaration
               else Inl (InvalidFormat declaration))
        in if str_contains declaration '':'' then
             (let colonPositions = findColonPositions declaration;
                  rest = or_else (parseHostContainerPath declaration colonPositions) last_part
              in if windowsPathRegex declaration
                 then or_else (parseWindowsPath declaration colonPositions) rest else rest)
           else last_part)"

definition IsValid :: "MountDeclaration \<Rightarrow> bool" where
  "IsValid m = is_ok (Parse m)"

definition IsResourceURI :: "MountDeclaration \<Rightarrow> bool" where
  "IsResourceURI m =
     (case splitResourceURI m of
        None \<Rightarrow> False
      | Some (_, remainder) \<Rightarrow>
          (case findResourceURISeparator remainder of
             None \<Rightarrow> False
           | Some separatorIdx \<Rightarrow> take separatorIdx remainder \<noteq> [] \<and> drop (separatorIdx + 1) remainder \<noteq> []))"

definition GetResourceType :: "MountDeclaration \<Rightarrow> (mount_error, string) result" where
  "GetResourceType m = (if \<not> IsResourceURI m then Inl (NotResource m) else Inr (hd (splitN2 uriSep m)))"

fun ParseMountDeclarations :: "string list \<Rightarrow> (mount_error, MountDeclaration list) result" where
  "ParseMountDeclarations [] = Inr []"
| "ParseMountDeclarations (declaration # ds) =
     (case Parse declaration of
        Inl e \<Rightarrow> Inl (InvalidDeclaration declaration e)
      | Inr _ \<Rightarrow> bindE (ParseMountDeclarations ds) (\<lambda>r. Inr (declaration # r)))"

section \<open>Cleaning keeps the alphabet\<close>

lemma set_clean_step:
  assumes "\<forall>x\<in>set stk. set x \<subseteq> A" and "set c \<subseteq> A"
  shows "\<forall>x\<in>set (clean_step r stk c). set x \<subseteq> A"
proof -
  have "set (clean_step r stk c) \<subseteq> insert c (set stk)"
  proof (cases c rule: clean_step_cases)
    case up
    then show ?thesis by (cases stk) auto
  qed (auto simp: clean_step_push)
  with assms show ?thesis by blast
qed

lemma set_foldl_clean:
  "\<forall>x\<in>set stk. set x \<subseteq> A \<Longrightarrow> \<forall>c\<in>set cs. set c \<subseteq> A \<Longrightarrow>
     \<forall>x\<in>set (foldl (clean_step r) stk cs). set x \<subseteq> A"
proof (induction cs arbitrary: stk)
  case (Cons c cs)
  then have "\<forall>x\<in>set (clean_step r stk c). set x \<subseteq> A" by (intro set_clean_step) simp_all
  from Cons.IH [OF this] Cons.prems(2) show ?case by simp
qed simp

lemma set_join_with: "\<forall>x\<in>set cs. set x \<subseteq> A \<Longrightarrow> set sep \<subseteq> A \<Longrightarrow> set (join_with sep cs) \<subseteq> A"
  by (induction sep cs rule: join_with.induct) auto

lemma set_elems: "c \<in> set (elems p) \<Longrightarrow> set c \<subseteq> set p"
proof (induction p arbitrary: c)
  case (Cons x xs)
  obtain h t where ht: "elems xs = h # t" by (cases "elems xs") auto
  with Cons show ?case by (fastforce split: if_splits)
qed simp

lemma set_clean_join: "set (join_with ''/'' (clean_comps r (elems p))) \<subseteq> set p \<union> {CHR ''.'', CHR ''/''}"
proof (rule set_join_with)
  have "\<forall>c\<in>set (elems p). set c \<subseteq> set p \<union> {CHR ''.'', CHR ''/''}" using set_elems by blast
  then show "\<forall>x\<in>set (clean_comps r (elems p)). set x \<subseteq> set p \<union> {CHR ''.'', CHR ''/''}"
    using set_foldl_clean [of "[]"] by (simp add: clean_comps_def)
qed simp

lemma set_path_clean: "set (path_clean p) \<subseteq> set p \<union> {CHR ''.'', CHR ''/''}"
  using set_clean_join [of True p] set_clean_join [of False p] by (auto simp: path_clean_def Let_def)

lemma path_clean_not_Nil [simp]: "path_clean p \<noteq> []"
  by (cases p rule: path_clean_cases) auto

section \<open>Accepted declarations are safe\<close>

definition safe_char :: "char \<Rightarrow> bool" where
  "safe_char c \<longleftrightarrow> c \<notin> {CHR ''$'', CHR ''&'', CHR '';'', CHR ''|'', CHR ''`'', CHR 0x00}"

lemma validatePath_ok: "validatePath p = Inr () \<longleftrightarrow> list_all safe_char p"
proof -
  have "commandInjectionPattern p \<or> CHR 0x00 \<in> set p \<longleftrightarrow> \<not> list_all safe_char p"
    by (induction p) (auto simp: commandInjectionPattern_def safe_char_def)
  then show ?thesis by (auto simp: validatePath_def)
qed

lemma safe_clean: "list_all safe_char p \<Longrightarrow> list_all safe_char (path_clean p)"
  using set_path_clean [of p] by (auto simp: list_all_iff safe_char_def)

lemma checked_pair_ok:
  "checked_pair h c = Inr (s, t) \<longleftrightarrow>
     \<not> isWindowsPath c \<and> list_all safe_char h \<and> list_all safe_char c \<and> s = path_clean h \<and> t = path_clean c"
  by (auto simp: checked_pair_def bindE_eq_Inr validatePath_ok)

lemma safe_scheme: "resourceSchemeRegex s \<Longrightarrow> list_all safe_char s"
proof -
  assume "resourceSchemeRegex s"
  then have "list_all (\<lambda>d. letter d \<or> is_digit d \<or> d = CHR ''_'' \<or> d = CHR ''-'') s"
    by (cases s) (simp_all add: resourceSchemeRegex_def)
  moreover have "letter d \<or> is_digit d \<or> d = CHR ''_'' \<or> d = CHR ''-'' \<Longrightarrow> safe_char d" for d
    by (auto simp: safe_char_def letter_def is_digit_def)
  ultimately show ?thesis by (simp add: list_all_iff)
qed

definition clean_source :: "string \<Rightarrow> bool" where
  "clean_source s \<longleftrightarrow> path_clean s = s
     \<or> (\<exists>scheme r. resourceSchemeRegex scheme \<and> path_clean r = r \<and> s = scheme @ uriSep @ r)"

definition good_mount :: "string \<Rightarrow> string \<Rightarrow> bool" where
  "good_mount s t \<longleftrightarrow> t \<noteq> [] \<and> path_clean t = t \<and> clean_source s \<and> list_all safe_char s \<and> list_all safe_char t"

lemma good_mount_pair: "checked_pair h c = Inr (s, t) \<Longrightarrow> s \<noteq> [] \<and> good_mount s t"
  by (auto simp: checked_pair_ok good_mount_def clean_source_def safe_clean path_clean_idem)

lemma good_mount_single: "parseSinglePath d = Inr (s, t) \<Longrightarrow> s \<noteq> [] \<and> good_mount s t"
  by (auto simp: parseSinglePath_def bindE_eq_Inr validatePath_ok good_mount_def clean_source_def
      safe_clean path_clean_idem)

lemma splitResourceURI_scheme: "splitResourceURI d = Some (scheme, r) \<Longrightarrow> resourceSchemeRegex scheme"
  by (auto simp: splitResourceURI_def validateResourceScheme_def split: if_splits list.splits)

lemma good_mount_resource: "parseResourceURI d = Inr (s, t) \<Longrightarrow> s \<noteq> [] \<Longrightarrow> good_mount s t"
proof -
  assume p: "parseResourceURI d = Inr (s, t)" and s: "s \<noteq> []"
  obtain scheme r where r: "splitResourceURI d = Some (scheme, r)"
    using p s by (auto simp: parseResourceURI_def split: option.splits)
  then obtain i s' where s': "checked_pair (take i r) (drop (i + 1) r) = Inr (s', t)" "s = scheme @ uriSep @ s'"
    using p s unfolding parseResourceURI_def Let_def
    by (force simp: bindE_eq_Inr split: option.splits if_splits)
  have sch: "resourceSchemeRegex scheme" using r by (rule splitResourceURI_scheme)
  have "list_all safe_char uriSep" by (simp add: safe_char_def)
  with good_mount_pair [OF s'(1)] s' sch safe_scheme [OF sch] show ?thesis
    by (auto simp: good_mount_def clean_source_def checked_pair_ok path_clean_idem)
qed

lemma or_else_ok: "or_else r rest = Inr (s, t) \<longleftrightarrow> (s \<noteq> [] \<and> r = Inr (s, t)) \<or> ((\<exists>u. r = Inr ([], u)) \<and> rest = Inr (s, t))"
  by (cases r) (auto simp: or_else_def split: if_splits)

lemma good_mount_host: "parseHostContainerPath d cs = Inr (s, t) \<Longrightarrow> s \<noteq> [] \<Longrightarrow> good_mount s t"
  using good_mount_pair by (auto simp: parseHostContainerPath_def split: if_splits)

lemma good_mount_windows: "parseWindowsPath d cs = Inr (s, t) \<Longrightarrow> s \<noteq> [] \<Longrightarrow> good_mount s t"
  using good_mount_pair good_mount_single [unfolded parseSinglePath_def]
  by (auto simp: parseWindowsPath_def split: if_splits)

lemmas good_mounts = good_mount_resource good_mount_host good_mount_windows good_mount_single

text \<open>
  C14. Every accepted mount declaration yields a safe mount: source and target are free of the shell characters
  dollar, ampersand, semicolon, bar and back-quote and of NUL, the target is a non-empty path in normal form, and
  the source is a path in normal form or a URI with a well-formed scheme whose resource is in normal form.
\<close>
theorem Parse_safe:
  assumes "Parse d = Inr (s, t)"
  shows "s \<noteq> [] \<and> good_mount s t"
proof -
  have host: "s \<noteq> [] \<and> good_mount s t" if "or_else (parseHostContainerPath d cs) (Inl e) = Inr (s, t)" for cs e
    using that good_mounts by (auto simp: or_else_ok)
  from assms consider "s \<noteq> []" "parseResourceURI d = Inr (s, t)"
    | "parseSinglePath d = Inr (s, t)"
    | "s \<noteq> []" "parseWindowsPath d (findColonPositions d) = Inr (s, t)"
    | "or_else (parseHostContainerPath d (findColonPositions d)) (Inl (InvalidFormat d)) = Inr (s, t)"
    by (auto simp: Parse_def or_else_ok [of "parseResourceURI d"] or_else_ok [of "parseWindowsPath d w" for w]
        Let_def split: if_splits)
  then show ?thesis using host good_mounts by cases auto
qed

theorem Parse_safe_witness:
  "Parse ''/a//b:/c/../d'' = Inr (''/a/b'', ''/d'') \<and> good_mount ''/a/b'' ''/d''"
proof -
  have "Parse ''/a//b:/c/../d'' = Inr (''/a/b'', ''/d'')"
    by (simp add: Parse_def or_else_def parseResourceURI_def splitResourceURI_def sublist_eval
        findColonPositions_def parseHostContainerPath_def checked_pair_def isWindowsPath_def validatePath_def
        commandInjectionPattern_def path_clean_def clean_comps_def clean_step_def Let_def)
  with Parse_safe show ?thesis by blast
qed

section \<open>The three forms\<close>

lemma colon_sublist: "sublist '':'' s \<longleftrightarrow> CHR '':'' \<in> set s"
proof
  assume "sublist '':'' s" then show "CHR '':'' \<in> set s" by (auto simp: sublist_def)
next
  assume "CHR '':'' \<in> set s"
  then obtain a b where "s = a @ '':'' @ b" by (metis append_Cons append_Nil split_list)
  then show "sublist '':'' s" by (auto simp: sublist_def)
qed

lemma colons_from_append: "colons_from i (s @ t) = colons_from i s @ colons_from (i + length s) t"
  by (induction s arbitrary: i) simp_all

lemma colons_from_Nil: "colons_from i s = [] \<longleftrightarrow> CHR '':'' \<notin> set s"
  by (induction s arbitrary: i) simp_all

lemma findColonPositions_one:
  "CHR '':'' \<notin> set h \<Longrightarrow> CHR '':'' \<notin> set c \<Longrightarrow> findColonPositions (h @ CHR '':'' # c) = [length h]"
  by (simp add: findColonPositions_def colons_from_append colons_from_Nil [THEN iffD2])

lemma splitN2_two: "sep \<noteq> [] \<Longrightarrow> splitN2 sep s = [a, b] \<Longrightarrow> s = a @ sep @ b"
proof (induction s arbitrary: a)
  case (Cons c cs)
  show ?case
  proof (cases "prefix sep (c # cs)")
    case True
    with Cons.prems show ?thesis by (auto simp: prefix_def)
  next
    case False
    with Cons.prems have "splitN2 sep cs = [tl a, b]" "a = c # tl a"
      by (cases "splitN2 sep cs"; auto)+
    with Cons.IH [OF Cons.prems(1)] show ?thesis by simp
  qed
qed simp

lemma splitN2_first: "CHR '':'' \<notin> set a \<Longrightarrow> splitN2 uriSep (a @ uriSep @ b) = [a, b]"
  by (induction a) auto

lemma splitResourceURI_parts: "splitResourceURI d = Some (scheme, r) \<Longrightarrow> d = scheme @ uriSep @ r"
  using splitN2_two [of uriSep d] by (auto simp: splitResourceURI_def split: if_splits list.splits)

lemma no_separator: "CHR '':'' \<notin> set r \<Longrightarrow> findResourceURISeparator r = None"
  using colons_from_Nil [of 0 r] by (simp add: findResourceURISeparator_def findColonPositions_def)

lemma one_colon_not_resource:
  assumes "count_list d CHR '':'' \<le> 1"
  shows "parseResourceURI d = Inr ([], [])"
proof (cases "splitResourceURI d")
  case (Some p)
  obtain scheme r where p: "p = (scheme, r)" by (cases p)
  from splitResourceURI_parts [of d scheme r] Some p assms have "count_list r CHR '':'' = 0" by auto
  then have "CHR '':'' \<notin> set r" by (simp add: count_list_0_iff)
  with Some p show ?thesis by (simp add: parseResourceURI_def no_separator)
qed (simp add: parseResourceURI_def)

lemma or_else_Nil [simp]: "or_else (Inr ([], [])) rest = rest" "or_else (Inl e) rest = Inl e"
  by (simp_all add: or_else_def)

lemma or_else_pair [simp]: "or_else (checked_pair h c) rest = checked_pair h c"
  by (cases "checked_pair h c") (auto simp: or_else_def dest: good_mount_pair)

lemma or_else_single: "or_else (parseSinglePath d) rest = parseSinglePath d"
  by (cases "parseSinglePath d") (auto simp: or_else_def dest: good_mount_single)

lemma windowsPathRegex_length:
  "CHR '':'' \<notin> set h \<Longrightarrow> windowsPathRegex (h @ CHR '':'' # c) \<Longrightarrow> length h = 1"
  by (cases "h @ CHR '':'' # c" rule: windowsPathRegex.cases; cases h; cases "tl h")
     (auto simp: letter_def)

lemma scheme_no_colon: "resourceSchemeRegex s \<Longrightarrow> CHR '':'' \<notin> set s"
proof -
  assume "resourceSchemeRegex s"
  then have "list_all (\<lambda>d. letter d \<or> is_digit d \<or> d = CHR ''_'' \<or> d = CHR ''-'') s"
    by (cases s) (simp_all add: resourceSchemeRegex_def)
  moreover have "\<not> (letter CHR '':'' \<or> is_digit CHR '':'' \<or> CHR '':'' = CHR ''_'' \<or> CHR '':'' = CHR ''-'')"
    by (simp add: letter_def is_digit_def)
  ultimately show ?thesis by (auto simp: list_all_iff)
qed

lemma splitResourceURI_built:
  "resourceSchemeRegex scheme \<Longrightarrow> splitResourceURI (scheme @ uriSep @ r) = Some (scheme, r)"
proof -
  assume s: "resourceSchemeRegex scheme"
  have "sublist uriSep (scheme @ uriSep @ r)" by (simp only: sublist_appendI)
  with s splitN2_first [OF scheme_no_colon [OF s], of r] show ?thesis
    unfolding splitResourceURI_def validateResourceScheme_def by simp
qed

lemma separator_built:
  "CHR '':'' \<notin> set name \<Longrightarrow> CHR '':'' \<notin> set path \<Longrightarrow> path \<noteq> [] \<Longrightarrow>
     findResourceURISeparator (name @ CHR '':'' # path) = Some (length name)"
  by (simp add: findResourceURISeparator_def findColonPositions_one isValidContainerPath_def colon_sublist)

definition known_error :: "(mount_error, 'a) result \<Rightarrow> bool" where
  "known_error r \<longleftrightarrow> (case r of Inl (InvalidFormat _) \<Rightarrow> False | _ \<Rightarrow> True)"

lemma known_error_simps [simp]: "known_error (Inr x)" "known_error (Inl (WindowsTarget p))" "known_error (Inl (CommandInjection p))"
  "known_error (Inl (NullByte p))" "known_error (Inl (MultipleColons p))" "known_error (Inl (AmbiguousColons p))"
  by (simp_all add: known_error_def)

lemma known_bindE: "known_error r \<Longrightarrow> (\<And>x. known_error (f x)) \<Longrightarrow> known_error (bindE r f)"
  by (cases r) (auto simp: known_error_def split: mount_error.splits)

lemma known_validatePath: "known_error (validatePath p)"
  by (simp add: validatePath_def)

lemma known_pair: "known_error (checked_pair h c)"
  by (simp add: checked_pair_def known_bindE known_validatePath)

lemma known_single: "known_error (parseSinglePath d)"
  by (simp add: parseSinglePath_def known_bindE known_validatePath)

lemma known_resource: "known_error (parseResourceURI d)"
  by (auto simp: parseResourceURI_def Let_def intro!: known_bindE known_pair split: option.splits prod.splits)

lemma known_windows: "known_error (parseWindowsPath d cs)"
  by (simp add: parseWindowsPath_def known_bindE known_validatePath known_pair)

lemma known_or_else: "known_error r \<Longrightarrow> known_error rest \<Longrightarrow> known_error (or_else r rest)"
  by (simp add: or_else_def known_bindE split: prod.splits)

lemma known_host: "CHR '':'' \<in> set d \<Longrightarrow> known_error (or_else (parseHostContainerPath d (findColonPositions d)) rest)"
proof -
  assume "CHR '':'' \<in> set d"
  then have "findColonPositions d \<noteq> []" by (simp add: findColonPositions_def colons_from_Nil)
  then have "length (findColonPositions d) = 1 \<or> length (findColonPositions d) > 1"
    by (cases "findColonPositions d") auto
  then show ?thesis by (auto simp: parseHostContainerPath_def known_pair)
qed

lemma known_Parse: "known_error (Parse d)"
proof (cases "CHR '':'' \<in> set d")
  case True
  note host = known_host [OF True]
  show ?thesis unfolding Parse_def Let_def colon_sublist using True host
    by (simp add: known_or_else known_resource known_windows)
qed (simp add: Parse_def colon_sublist known_or_else known_resource known_single)

text \<open>
  The three documented forms parse as documented. A declaration without a colon is one path for both sides; with exactly one colon
  it is a drive-letter path or a checked pair of host and container path; a valid scheme, a resource and a
  container path give a resource mount whose type \<open>GetResourceType\<close> reports. The last error of \<open>Parse\<close> is unreachable.
\<close>
theorem Parse_forms:
  "(CHR '':'' \<notin> set d \<longrightarrow> Parse d = parseSinglePath d)
    \<and> (CHR '':'' \<notin> set h \<and> CHR '':'' \<notin> set c \<longrightarrow>
      Parse (h @ '':'' @ c) = (if windowsPathRegex (h @ '':'' @ c) then parseSinglePath (h @ '':'' @ c) else checked_pair h c))
    \<and> (resourceSchemeRegex scheme \<and> CHR '':'' \<notin> set h \<and> CHR '':'' \<notin> set c \<and> h \<noteq> [] \<and> c \<noteq> [] \<longrightarrow>
      Parse (scheme @ uriSep @ h @ '':'' @ c) = map_sum id (\<lambda>(s, t). (scheme @ uriSep @ s, t)) (checked_pair h c)
      \<and> GetResourceType (scheme @ uriSep @ h @ '':'' @ c) = Inr scheme)
    \<and> Parse d \<noteq> Inl (InvalidFormat e)"
proof (rule conjI [OF _ conjI [OF _ conjI]]; (intro impI)?; (elim conjE)?)
  show "CHR '':'' \<notin> set d \<Longrightarrow> Parse d = parseSinglePath d"
    using one_colon_not_resource [of d] by (simp add: Parse_def colon_sublist count_list_0_iff)
next
  assume hc: "CHR '':'' \<notin> set h" "CHR '':'' \<notin> set c"
  then have "count_list (h @ CHR '':'' # c) CHR '':'' \<le> 1" by (simp add: count_list_0_iff)
  note res = one_colon_not_resource [OF this]
  have "windowsPathRegex (h @ CHR '':'' # c) \<Longrightarrow>
      parseWindowsPath (h @ CHR '':'' # c) [length h] = parseSinglePath (h @ CHR '':'' # c)"
    using windowsPathRegex_length [OF hc(1)] by (simp add: parseWindowsPath_def parseSinglePath_def)
  then show "Parse (h @ '':'' @ c) =
      (if windowsPathRegex (h @ '':'' @ c) then parseSinglePath (h @ '':'' @ c) else checked_pair h c)"
    using hc res
    by (simp add: Parse_def colon_sublist findColonPositions_one Let_def or_else_single parseHostContainerPath_def)
next
  assume s: "resourceSchemeRegex scheme" and hc: "CHR '':'' \<notin> set h" "CHR '':'' \<notin> set c" "h \<noteq> []" "c \<noteq> []"
  note sp = splitResourceURI_built [OF s, of "h @ CHR '':'' # c"]
  note sep = separator_built [OF hc(1,2,4)]
  have "parseResourceURI (scheme @ uriSep @ h @ CHR '':'' # c) =
      map_sum id (\<lambda>(s, t). (scheme @ uriSep @ s, t)) (checked_pair h c)"
    unfolding parseResourceURI_def sp using hc sep by (cases "checked_pair h c") auto
  then have "Parse (scheme @ uriSep @ h @ CHR '':'' # c) =
      map_sum id (\<lambda>(s, t). (scheme @ uriSep @ s, t)) (checked_pair h c)"
    unfolding Parse_def by (cases "checked_pair h c") (auto simp: or_else_def)
  moreover have "GetResourceType (scheme @ uriSep @ h @ CHR '':'' # c) = Inr scheme"
    using hc sep splitN2_first [OF scheme_no_colon [OF s]] unfolding GetResourceType_def IsResourceURI_def sp by simp
  ultimately show "Parse (scheme @ uriSep @ h @ '':'' @ c) = map_sum id (\<lambda>(s, t). (scheme @ uriSep @ s, t)) (checked_pair h c)
      \<and> GetResourceType (scheme @ uriSep @ h @ '':'' @ c) = Inr scheme" by simp
next
  show "Parse d \<noteq> Inl (InvalidFormat e)" using known_Parse [of d] by (auto simp: known_error_def)
qed

theorem Parse_forms_witness:
  "Parse ''volume://v:/x'' = Inr (''volume://v'', ''/x'') \<and> GetResourceType ''volume://v:/x'' = Inr ''volume''
   \<and> Parse ''/h:/c'' = Inr (''/h'', ''/c'') \<and> Parse ''/h'' = Inr (''/h'', ''/h'')"
proof -
  have s: "resourceSchemeRegex ''volume''" by (simp add: resourceSchemeRegex_def letter_def)
  have c: "checked_pair ''v'' ''/x'' = Inr (''v'', ''/x'')" "checked_pair ''/h'' ''/c'' = Inr (''/h'', ''/c'')"
      "parseSinglePath ''/h'' = Inr (''/h'', ''/h'')"
    by (simp_all add: checked_pair_def parseSinglePath_def isWindowsPath_def validatePath_def commandInjectionPattern_def
        path_clean_def clean_comps_def clean_step_def Let_def)
  show ?thesis
    using s Parse_forms [of "''/h''" "''v''" "''/x''" "''volume''"] Parse_forms [of "''/h''" "''/h''" "''/c''"] c by simp
qed

section \<open>The Windows check and cleaning\<close>

text \<open>
  The target is tested for a Windows path before it is cleaned, and cleaning can produce one: a container path
  that starts with a dot element before a backslash passes the test, and the target handed to the runtime starts with a backslash, which the
  test itself classifies as a Windows path.
\<close>
theorem windows_target_check_before_clean:
  "Parse (''/h:./'' @ [CHR 0x5C] @ ''x'') = Inr (''/h'', [CHR 0x5C] @ ''x'') \<and> isWindowsPath ([CHR 0x5C] @ ''x'')
   \<and> Parse (''/h:'' @ [CHR 0x5C] @ ''x'') = Inl (WindowsTarget ([CHR 0x5C] @ ''x''))"
proof -
  have "checked_pair ''/h'' (''./'' @ [CHR 0x5C] @ ''x'') = Inr (''/h'', [CHR 0x5C] @ ''x'')"
      "checked_pair ''/h'' ([CHR 0x5C] @ ''x'') = Inl (WindowsTarget ([CHR 0x5C] @ ''x''))"
    by (simp_all add: checked_pair_def isWindowsPath_def validatePath_def commandInjectionPattern_def path_clean_def
        clean_comps_def clean_step_def Let_def)
  then show ?thesis
    by (simp add: Parse_def or_else_def parseResourceURI_def splitResourceURI_def sublist_eval
        findColonPositions_def parseHostContainerPath_def isWindowsPath_def)
qed

section \<open>Lists of declarations\<close>

text \<open>
  \<open>ParseMountDeclarations\<close> returns its input unchanged when every declaration is valid, and otherwise the
  error of the first invalid one, named with its declaration.
\<close>
theorem ParseMountDeclarations_all:
  "ParseMountDeclarations ds =
     (case find (\<lambda>d. \<not> IsValid d) ds of
        None \<Rightarrow> Inr ds
      | Some d \<Rightarrow> Inl (InvalidDeclaration d (projl (Parse d))))"
proof (induction ds)
  case (Cons d ds)
  show ?case
  proof (cases "Parse d")
    case (Inl e)
    then show ?thesis by (simp add: IsValid_def)
  next
    case (Inr st)
    with Cons show ?thesis by (auto simp: IsValid_def split: option.splits)
  qed
qed simp

end
