(* ===== verification/Authn_Config.thy ===== *)
theory Authn_Config
  imports Net_Client
begin

text \<open>
  The configuration of the token validator (\<open>authn/authn.go\<close>): the static policy checks of \<open>ValidateConfig\<close>, the HTTP client
  used for discovery and key fetches, and the response body whose size it caps.

  Parameters: \<open>url.Parse\<close>, the Unicode case mapping behind \<open>strings.ToLower\<close>, the file system and PEM
  reader of the client builder, and the underlying response body. A \<open>time.Duration\<close> is its number of nanoseconds.
\<close>

section \<open>Configuration\<close>

abbreviation second :: int where "second \<equiv> 1000000000"

definition defaultLeeway :: int where "defaultLeeway = 60 * second"
definition maxLeeway :: int where "maxLeeway = 120 * second"
definition maxAudienceLength :: nat where "maxAudienceLength = 1024"
definition maxResponseBody :: nat where "maxResponseBody = 1048576"
definition maxTokenLength :: nat where "maxTokenLength = 16384"
definition defaultHTTPTimeout :: int where "defaultHTTPTimeout = 15 * second"

text \<open>An \<open>http.Client\<close>: its transport (\<open>None\<close> for nil), redirect policy and timeout.\<close>

datatype rt = DefaultTransport | CallerTransport nat | BuiltTransport http_client | limitedTransport rt

datatype redirect_policy = refuseRedirects | SameHostPolicy | CallerPolicy nat

record httpClient =
  hc_Transport :: "rt option"
  hc_CheckRedirect :: "redirect_policy option"
  hc_Timeout :: int

record 'kp Config =
  cfg_Issuer :: string
  cfg_Audiences :: "string list"
  cfg_AllowAnyAudience :: bool
  cfg_JWKSURL :: string
  cfg_Leeway :: int
  cfg_DisableLeeway :: bool
  cfg_MaxJWKSStaleness :: int
  cfg_AcceptedTokenTypes :: "string list"
  cfg_MaxTokenLifetime :: int
  cfg_HTTPClient :: "httpClient option"
  cfg_InsecureAllowHTTP :: bool
  cfg_AllowPrivateIP :: bool
  cfg_CACertPath :: string
  cfg_AuthTokenFile :: string
  cfg_KeyProvider :: "'kp option"

datatype audience_error = AudienceEmpty | AudienceTooLong nat | AudienceControl

datatype config_error =
    NoKeySource
  | BadURI string http_error | UnparsableURI string | SchemeNotAllowed string string
  | AudienceRequired | AudienceConflict nat | BadAudience nat audience_error
  | LeewayNegative int | LeewayConflict int | LeewayTooLarge int
  | LifetimeNegative int | StalenessNegative int | TokenTypeEmpty nat

section \<open>Policy checks\<close>

text \<open>\<open>validateHTTPSURI\<close>; the scheme list is an allow-list.\<close>

definition validateHTTPSURI :: "(string \<Rightarrow> url option) \<Rightarrow> string \<Rightarrow> string \<Rightarrow> bool \<Rightarrow> (config_error, unit) result" where
  "validateHTTPSURI parse field raw allowHTTP =
     bindE (map_err (BadURI field) (ValidateResourceURI parse raw)) (\<lambda>_.
       case parse raw of
         None \<Rightarrow> Inl (UnparsableURI field)
       | Some u \<Rightarrow>
           if u_scheme u = HttpsScheme then Inr ()
           else if u_scheme u = HttpScheme \<and> allowHTTP then Inr ()
           else Inl (SchemeNotAllowed field raw))"

text \<open>A range over the runes of a string meets a control character (\<open>unicode.IsControl\<close>: U+0000--U+001F, U+007F--U+009F) exactly at
  an ASCII control byte, or at the byte C2 followed by a byte 80--9F: C2 is never a continuation byte, so it always starts a rune.\<close>

fun has_control :: "string \<Rightarrow> bool" where
  "has_control [] = False"
| "has_control (c # s) =
     (ord c < 32 \<or> ord c = 127
      \<or> c = CHR 0xC2 \<and> (case s of [] \<Rightarrow> False | d # _ \<Rightarrow> 128 \<le> ord d \<and> ord d \<le> 159)
      \<or> has_control s)"

definition validateAudience :: "string \<Rightarrow> (audience_error, unit) result" where
  "validateAudience aud =
     (if aud = [] then Inl AudienceEmpty
      else if length aud > maxAudienceLength then Inl (AudienceTooLong (length aud))
      else if has_control aud then Inl AudienceControl
      else Inr ())"

fun check_audiences :: "nat \<Rightarrow> string list \<Rightarrow> (config_error, unit) result" where
  "check_audiences i [] = Inr ()"
| "check_audiences i (aud # auds) =
     bindE (map_err (BadAudience i) (validateAudience aud)) (\<lambda>_. check_audiences (Suc i) auds)"

definition validateAudiences :: "'kp Config \<Rightarrow> (config_error, unit) result" where
  "validateAudiences c =
     (if cfg_Audiences c = [] \<and> \<not> cfg_AllowAnyAudience c then Inl AudienceRequired
      else if cfg_Audiences c \<noteq> [] \<and> cfg_AllowAnyAudience c then Inl (AudienceConflict (length (cfg_Audiences c)))
      else check_audiences 0 (cfg_Audiences c))"

definition validateLeeway :: "'kp Config \<Rightarrow> (config_error, 'kp Config) result" where
  "validateLeeway c =
     (if cfg_Leeway c < 0 then Inl (LeewayNegative (cfg_Leeway c))
      else if cfg_DisableLeeway c \<and> cfg_Leeway c \<noteq> 0 then Inl (LeewayConflict (cfg_Leeway c))
      else if cfg_Leeway c = 0 \<and> \<not> cfg_DisableLeeway c then Inr (c\<lparr>cfg_Leeway := defaultLeeway\<rparr>)
      else if cfg_Leeway c > maxLeeway then Inl (LeewayTooLarge (cfg_Leeway c))
      else Inr c)"

text \<open>\<open>normalizeTokenType\<close> (\<open>validate.go\<close>) and the loop over the accepted types.\<close>

definition trim_prefix :: "string \<Rightarrow> string \<Rightarrow> string" where
  "trim_prefix s p = (if has_prefix s p then drop (length p) s else s)"

definition normalizeTokenType :: "(string \<Rightarrow> string) \<Rightarrow> string \<Rightarrow> string" where
  "normalizeTokenType uni typ = trim_prefix (to_lower uni (trim_space typ)) ''application/''"

fun check_types :: "(string \<Rightarrow> string) \<Rightarrow> nat \<Rightarrow> string list \<Rightarrow> (config_error, unit) result" where
  "check_types uni i [] = Inr ()"
| "check_types uni i (tt # tts) =
     (if normalizeTokenType uni tt = [] then Inl (TokenTypeEmpty i) else check_types uni (Suc i) tts)"

definition validate :: "(string \<Rightarrow> url option) \<Rightarrow> (string \<Rightarrow> string) \<Rightarrow> 'kp Config \<Rightarrow> (config_error, 'kp Config) result" where
  "validate parse uni c =
     (if cfg_Issuer c = [] \<and> cfg_JWKSURL c = [] then Inl NoKeySource
      else
        bindE (if cfg_Issuer c \<noteq> [] then validateHTTPSURI parse ''issuer'' (cfg_Issuer c) (cfg_InsecureAllowHTTP c) else Inr ()) (\<lambda>_.
        bindE (validateAudiences c) (\<lambda>_.
        bindE (if cfg_JWKSURL c \<noteq> [] then validateHTTPSURI parse ''jwks_url'' (cfg_JWKSURL c) (cfg_InsecureAllowHTTP c) else Inr ()) (\<lambda>_.
        bindE (validateLeeway c) (\<lambda>c'.
          if cfg_MaxTokenLifetime c' < 0 then Inl (LifetimeNegative (cfg_MaxTokenLifetime c'))
          else if cfg_MaxJWKSStaleness c' < 0 then Inl (StalenessNegative (cfg_MaxJWKSStaleness c'))
          else bindE (check_types uni 0 (cfg_AcceptedTokenTypes c')) (\<lambda>_. Inr c'))))))"

text \<open>\<open>ValidateConfig\<close> works on a copy of the configuration; values have no aliases here, so cloning is the identity.\<close>

definition ValidateConfig :: "(string \<Rightarrow> url option) \<Rightarrow> (string \<Rightarrow> string) \<Rightarrow> 'kp Config \<Rightarrow> (config_error, 'kp Config) result" where
  "ValidateConfig parse uni cfg = validate parse uni cfg"

section \<open>The HTTP client\<close>

definition newHTTPClient ::
  "environ \<Rightarrow> (string \<Rightarrow> (string, string) result) \<Rightarrow> (string \<Rightarrow> bool) \<Rightarrow> httpClient option \<Rightarrow> bool \<Rightarrow> string \<Rightarrow> string
     \<Rightarrow> (build_error, httpClient) result" where
  "newHTTPClient env readFile pemOK base allowPrivateIP caCert authToken =
     bindE
       (case base of
          Some c \<Rightarrow> Inr c
        | None \<Rightarrow>
            bindE (Build readFile pemOK
                (WithTimeout defaultHTTPTimeout (WithInsecureAllowHTTP True (WithTokenFromFile authToken
                  (WithCABundle caCert (WithPrivateIPs allowPrivateIP (NewHttpClientBuilder env)))))))
              (\<lambda>built. Inr \<lparr>hc_Transport = Some (BuiltTransport built), hc_CheckRedirect = Some refuseRedirects,
                             hc_Timeout = cl_Timeout built\<rparr>))
       (\<lambda>c. let t = (case hc_Transport c of None \<Rightarrow> DefaultTransport | Some t \<Rightarrow> t)
             in Inr \<lparr>hc_Transport = Some (limitedTransport t),
                     hc_CheckRedirect = (case hc_CheckRedirect c of None \<Rightarrow> Some refuseRedirects | Some p \<Rightarrow> Some p),
                     hc_Timeout = (if hc_Timeout c = 0 then defaultHTTPTimeout else hc_Timeout c)\<rparr>)"

section \<open>Capped response bodies\<close>

text \<open>The underlying body is a state \<open>'r\<close> with a read operation \<open>rd\<close>: for a buffer length it yields the bytes read, the error that
  came with them, and the next state.\<close>

datatype read_err = EOF | ReadErr string | ExceedsLimit

record 'r limitedBody =
  lb_body :: 'r
  lb_read :: nat
  lb_eof :: bool

type_synonym 'r rd_op = "nat \<Rightarrow> 'r \<Rightarrow> (string \<times> read_err option) \<times> 'r"

definition Read :: "'r rd_op \<Rightarrow> nat \<Rightarrow> 'r limitedBody \<Rightarrow> (string \<times> read_err option) \<times> 'r limitedBody" where
  "Read rd p b =
     (if lb_read b \<ge> maxResponseBody then
        (if lb_eof b then (([], Some EOF), b)
         else case rd 1 (lb_body b) of
           ((bs, err), r) \<Rightarrow>
             let b' = b\<lparr>lb_body := r\<rparr> in
             if bs \<noteq> [] then (([], Some ExceedsLimit), b')
             else if err = Some EOF then (([], Some EOF), b'\<lparr>lb_eof := True\<rparr>)
             else (([], err), b'))
      else
        (case rd (min p (maxResponseBody - lb_read b)) (lb_body b) of
           ((bs, err), r) \<Rightarrow>
             ((bs, err), b\<lparr>lb_body := r, lb_read := lb_read b + length bs, lb_eof := lb_eof b \<or> err = Some EOF\<rparr>)))"

text \<open>\<open>limitedTransport.RoundTrip\<close> wraps the body of a response that has one.\<close>

definition limited_RoundTrip :: "(string, 'r option) result \<Rightarrow> (string, 'r limitedBody option) result" where
  "limited_RoundTrip resp = map_sum id (map_option (\<lambda>body. \<lparr>lb_body = body, lb_read = 0, lb_eof = False\<rparr>)) resp"


section \<open>The accepted configurations\<close>

definition allowed_uri :: "(string \<Rightarrow> url option) \<Rightarrow> bool \<Rightarrow> string \<Rightarrow> bool" where
  "allowed_uri parse allowHTTP raw \<longleftrightarrow>
     (\<exists>u. raw \<noteq> [] \<and> parse raw = Some u \<and> u_host u \<noteq> [] \<and> u_fragment u = []
        \<and> (u_scheme u = HttpsScheme \<or> allowHTTP \<and> u_scheme u = HttpScheme))"

lemma validateHTTPSURI_ok: "validateHTTPSURI parse field raw allowHTTP = Inr () \<longleftrightarrow> allowed_uri parse allowHTTP raw"
  by (auto simp: validateHTTPSURI_def allowed_uri_def ValidateResourceURI_def res_dest split: option.splits if_splits)

lemma validateAudience_ok:
  "validateAudience aud = Inr () \<longleftrightarrow> aud \<noteq> [] \<and> length aud \<le> maxAudienceLength \<and> \<not> has_control aud"
  by (auto simp: validateAudience_def)

lemma check_audiences_ok: "check_audiences i auds = Inr () \<longleftrightarrow> list_all (\<lambda>aud. validateAudience aud = Inr ()) auds"
  by (induction auds arbitrary: i) (auto simp: res_dest)

lemma check_types_ok: "check_types uni i tts = Inr () \<longleftrightarrow> list_all (\<lambda>tt. normalizeTokenType uni tt \<noteq> []) tts"
  by (induction tts arbitrary: i) auto

text \<open>The documented policy, field by field.\<close>

definition valid_config :: "(string \<Rightarrow> url option) \<Rightarrow> (string \<Rightarrow> string) \<Rightarrow> 'kp Config \<Rightarrow> bool" where
  "valid_config parse uni c \<longleftrightarrow>
     (cfg_Issuer c \<noteq> [] \<or> cfg_JWKSURL c \<noteq> [])
     \<and> (cfg_Issuer c = [] \<or> allowed_uri parse (cfg_InsecureAllowHTTP c) (cfg_Issuer c))
     \<and> (cfg_JWKSURL c = [] \<or> allowed_uri parse (cfg_InsecureAllowHTTP c) (cfg_JWKSURL c))
     \<and> (cfg_AllowAnyAudience c \<longleftrightarrow> cfg_Audiences c = [])
     \<and> list_all (\<lambda>aud. aud \<noteq> [] \<and> length aud \<le> maxAudienceLength \<and> \<not> has_control aud) (cfg_Audiences c)
     \<and> 0 \<le> cfg_Leeway c \<and> cfg_Leeway c \<le> maxLeeway
     \<and> (cfg_DisableLeeway c \<longrightarrow> cfg_Leeway c = 0)
     \<and> 0 \<le> cfg_MaxTokenLifetime c \<and> 0 \<le> cfg_MaxJWKSStaleness c
     \<and> list_all (\<lambda>tt. normalizeTokenType uni tt \<noteq> []) (cfg_AcceptedTokenTypes c)"

definition effective_leeway :: "'kp Config \<Rightarrow> int" where
  "effective_leeway c = (if cfg_Leeway c = 0 \<and> \<not> cfg_DisableLeeway c then defaultLeeway else cfg_Leeway c)"

lemma validateLeeway_ok:
  "validateLeeway c = Inr c' \<longleftrightarrow>
     0 \<le> cfg_Leeway c \<and> cfg_Leeway c \<le> maxLeeway \<and> (cfg_DisableLeeway c \<longrightarrow> cfg_Leeway c = 0)
     \<and> c' = c\<lparr>cfg_Leeway := effective_leeway c\<rparr>"
  by (auto simp: validateLeeway_def effective_leeway_def maxLeeway_def)

lemma validateAudiences_ok:
  "validateAudiences c = Inr () \<longleftrightarrow>
     (cfg_AllowAnyAudience c \<longleftrightarrow> cfg_Audiences c = [])
     \<and> list_all (\<lambda>aud. aud \<noteq> [] \<and> length aud \<le> maxAudienceLength \<and> \<not> has_control aud) (cfg_Audiences c)"
  by (auto simp: validateAudiences_def check_audiences_ok validateAudience_ok)

lemma unit_result: "(\<exists>x. r = Inr x) \<longleftrightarrow> r = Inr ()" for r :: "('e, unit) result"
  by auto

lemma ValidateConfig_ok:
  "ValidateConfig parse uni c = Inr c' \<longleftrightarrow> valid_config parse uni c \<and> c' = c\<lparr>cfg_Leeway := effective_leeway c\<rparr>"
  unfolding ValidateConfig_def validate_def valid_config_def
  by (auto simp: res_dest validateLeeway_ok validateAudiences_ok validateHTTPSURI_ok check_types_ok split: if_splits)

lemma valid_config_normalised:
  "valid_config parse uni c \<Longrightarrow> valid_config parse uni (c\<lparr>cfg_Leeway := effective_leeway c\<rparr>)"
  by (auto simp: valid_config_def effective_leeway_def maxLeeway_def defaultLeeway_def)

text \<open>
  Static policy. A configuration is accepted exactly if it names a key source, its URLs are absolute, without fragment and use https (or http when that is
  explicitly allowed), exactly one audience policy is chosen and its entries are bounded and free of control characters, the leeway lies
  between zero and two minutes and is not combined with its opt-out, the bounds are not negative and every accepted
  type is non-empty. The result differs only in the default leeway, and is itself accepted unchanged.
\<close>
theorem ValidateConfig_policy:
  "(ValidateConfig parse uni c = Inr c' \<longleftrightarrow> valid_config parse uni c \<and> c' = c\<lparr>cfg_Leeway := effective_leeway c\<rparr>)
   \<and> (ValidateConfig parse uni c = Inr c' \<longrightarrow> ValidateConfig parse uni c' = Inr c')"
proof (intro conjI impI)
  show "ValidateConfig parse uni c = Inr c' \<longleftrightarrow> valid_config parse uni c \<and> c' = c\<lparr>cfg_Leeway := effective_leeway c\<rparr>"
    by (rule ValidateConfig_ok)
  assume "ValidateConfig parse uni c = Inr c'"
  then have v: "valid_config parse uni c" and c': "c' = c\<lparr>cfg_Leeway := effective_leeway c\<rparr>"
    by (simp_all add: ValidateConfig_ok)
  have "effective_leeway c' = cfg_Leeway c'" by (simp add: c' effective_leeway_def)
  then have "c' = c'\<lparr>cfg_Leeway := effective_leeway c'\<rparr>" by simp
  with valid_config_normalised [OF v] show "ValidateConfig parse uni c' = Inr c'"
    unfolding ValidateConfig_ok c' by blast
qed

definition sample_config :: "unit Config" where
  "sample_config =
     \<lparr>cfg_Issuer = ''https://i'', cfg_Audiences = [''api''], cfg_AllowAnyAudience = False, cfg_JWKSURL = [],
      cfg_Leeway = 0, cfg_DisableLeeway = False, cfg_MaxJWKSStaleness = 0, cfg_AcceptedTokenTypes = [],
      cfg_MaxTokenLifetime = 0, cfg_HTTPClient = None, cfg_InsecureAllowHTTP = False, cfg_AllowPrivateIP = False,
      cfg_CACertPath = [], cfg_AuthTokenFile = [], cfg_KeyProvider = None\<rparr>"

definition sample_parse :: "string \<Rightarrow> url option" where
  "sample_parse s = Some \<lparr>u_scheme = ''https'', u_host = ''i'', u_fragment = []\<rparr>"

lemma sample_config_valid: "valid_config sample_parse uni sample_config"
  by (simp add: valid_config_def sample_config_def allowed_uri_def sample_parse_def maxLeeway_def maxAudienceLength_def)

theorem ValidateConfig_policy_witness:
  "ValidateConfig sample_parse id sample_config = Inr (sample_config\<lparr>cfg_Leeway := defaultLeeway\<rparr>)
   \<and> ValidateConfig sample_parse id (sample_config\<lparr>cfg_Leeway := defaultLeeway\<rparr>) = Inr (sample_config\<lparr>cfg_Leeway := defaultLeeway\<rparr>)"
  using ValidateConfig_policy [of sample_parse id sample_config "sample_config\<lparr>cfg_Leeway := defaultLeeway\<rparr>"] sample_config_valid [of id]
  by (simp add: effective_leeway_def sample_config_def)


section \<open>The client and its bodies\<close>

lemma map_sum_eq_Inr [res_dest]: "map_sum f g r = Inr y \<longleftrightarrow> (\<exists>x. r = Inr x \<and> y = g x)"
  by (cases r) auto

text \<open>
  The client of the validator. Every response body is capped, some redirect policy and a non-zero timeout are always installed; without an explicit
  policy of the caller every redirect is refused. The default client carries the dial guard on every new connection unless private
  addresses were asked for, never reuses a connection behind it, and presents a token only if a token file is configured.
\<close>
theorem newHTTPClient_guards:
  assumes "newHTTPClient env readFile pemOK base allowPrivateIP caCert authToken = Inr c"
  shows "\<exists>t. hc_Transport c = Some (limitedTransport t)
    \<and> hc_Timeout c \<noteq> 0 \<and> hc_CheckRedirect c \<noteq> None
    \<and> (hc_CheckRedirect c = Some refuseRedirects
        \<or> (\<exists>b p. base = Some b \<and> hc_CheckRedirect b = Some p \<and> hc_CheckRedirect c = Some p))
    \<and> (base = None \<longrightarrow> (\<exists>b. t = BuiltTransport b \<and> hc_CheckRedirect c = Some refuseRedirects
        \<and> hc_Timeout c = defaultHTTPTimeout
        \<and> dial b = (if allowPrivateIP then (\<lambda>_. Inr ()) else protectedDialerControl)
        \<and> cl_DisableKeepAlives b = (\<not> allowPrivateIP)
        \<and> (cl_bearer b = None \<longleftrightarrow> authToken = [])))"
proof (cases base)
  case None
  obtain b where b: "Build readFile pemOK
        (WithTimeout defaultHTTPTimeout (WithInsecureAllowHTTP True (WithTokenFromFile authToken
          (WithCABundle caCert (WithPrivateIPs allowPrivateIP (NewHttpClientBuilder env)))))) = Inr b"
    and c: "c = \<lparr>hc_Transport = Some (limitedTransport (BuiltTransport b)), hc_CheckRedirect = Some refuseRedirects,
      hc_Timeout = (if cl_Timeout b = 0 then defaultHTTPTimeout else cl_Timeout b)\<rparr>"
    using assms None by (auto simp: newHTTPClient_def res_dest)
  have "cl_Timeout b = defaultHTTPTimeout \<and> cl_dialGuard b = (\<not> allowPrivateIP)
      \<and> cl_DisableKeepAlives b = (\<not> allowPrivateIP) \<and> (cl_bearer b = None \<longleftrightarrow> authToken = [])"
    using b by (auto simp: Build_def res_dest WithTimeout_def WithInsecureAllowHTTP_def WithTokenFromFile_def
        WithCABundle_def WithPrivateIPs_def NewHttpClientBuilder_def split: if_splits)
  then show ?thesis using None c by (simp add: defaultHTTPTimeout_def dial_def fun_eq_iff)
next
  case (Some b)
  with assms show ?thesis
    by (auto simp: newHTTPClient_def Let_def defaultHTTPTimeout_def split: option.splits if_splits)
qed

theorem newHTTPClient_guards_witness:
  "\<exists>c b. newHTTPClient (\<lambda>_. None) (\<lambda>_. Inl ''x'') (\<lambda>_. False) None False [] [] = Inr c
     \<and> hc_Transport c = Some (limitedTransport (BuiltTransport b)) \<and> dial b = protectedDialerControl"
proof -
  obtain c where c: "newHTTPClient (\<lambda>_. None) (\<lambda>_. Inl ''x'') (\<lambda>_. False) None False [] [] = Inr c"
    by (simp add: newHTTPClient_def Build_def WithTimeout_def WithInsecureAllowHTTP_def WithTokenFromFile_def
        WithCABundle_def WithPrivateIPs_def NewHttpClientBuilder_def)
  with newHTTPClient_guards [OF c] show ?thesis by auto
qed

text \<open>What an \<open>io.Reader\<close> promises, over the bytes \<open>rest r\<close> it has still to deliver.\<close>

definition source_laws :: "'r rd_op \<Rightarrow> ('r \<Rightarrow> string) \<Rightarrow> bool" where
  "source_laws rd rest \<longleftrightarrow>
     (\<forall>p r bs err r'. rd p r = ((bs, err), r') \<longrightarrow>
        length bs \<le> p \<and> rest r = bs @ rest r' \<and> (err = Some EOF \<longrightarrow> rest r' = []) \<and> err \<noteq> Some ExceedsLimit)"

text \<open>Successive reads into buffers of the given lengths, up to the first error: the bytes delivered and that error.\<close>

fun read_seq :: "'r rd_op \<Rightarrow> nat list \<Rightarrow> 'r limitedBody \<Rightarrow> string \<times> read_err option" where
  "read_seq rd [] b = ([], None)"
| "read_seq rd (p # ps) b =
     (case Read rd p b of
        ((bs, Some e), b') \<Rightarrow> (bs, Some e)
      | ((bs, None), b') \<Rightarrow> (case read_seq rd ps b' of (out, e) \<Rightarrow> (bs @ out, e)))"

definition body_inv :: "('r \<Rightarrow> string) \<Rightarrow> 'r limitedBody \<Rightarrow> bool" where
  "body_inv rest b \<longleftrightarrow> lb_read b \<le> maxResponseBody \<and> (lb_eof b \<longrightarrow> rest (lb_body b) = [])"

lemma Read_step:
  assumes "source_laws rd rest" and "body_inv rest b" and "Read rd p b = ((bs, err), b')"
  shows "body_inv rest b'"
    and "lb_read b' = lb_read b + length bs"
    and "err = Some ExceedsLimit \<Longrightarrow> lb_read b = maxResponseBody \<and> bs = [] \<and> rest (lb_body b) \<noteq> []"
    and "err \<noteq> Some ExceedsLimit \<Longrightarrow> rest (lb_body b) = bs @ rest (lb_body b')"
    and "err = Some EOF \<Longrightarrow> rest (lb_body b') = []"
proof -
  let ?p = "if lb_read b \<ge> maxResponseBody then 1 else min p (maxResponseBody - lb_read b)"
  obtain xs e r where r: "rd ?p (lb_body b) = ((xs, e), r)" by (metis prod.exhaust)
  have l: "length xs \<le> ?p" "rest (lb_body b) = xs @ rest r" "e = Some EOF \<Longrightarrow> rest r = []" "e \<noteq> Some ExceedsLimit"
    using assms(1) r unfolding source_laws_def by blast+
  show "body_inv rest b'" "lb_read b' = lb_read b + length bs"
    "err = Some ExceedsLimit \<Longrightarrow> lb_read b = maxResponseBody \<and> bs = [] \<and> rest (lb_body b) \<noteq> []"
    "err \<noteq> Some ExceedsLimit \<Longrightarrow> rest (lb_body b) = bs @ rest (lb_body b')"
    "err = Some EOF \<Longrightarrow> rest (lb_body b') = []"
    using assms(2,3) r l by (auto simp: Read_def body_inv_def Let_def split: if_splits)
qed

lemma read_seq_inv:
  assumes "source_laws rd rest"
  shows "body_inv rest b \<Longrightarrow> read_seq rd ps b = (out, e) \<Longrightarrow>
     lb_read b + length out \<le> maxResponseBody \<and> prefix out (rest (lb_body b))
     \<and> (e = Some EOF \<longrightarrow> out = rest (lb_body b))
     \<and> (e = Some ExceedsLimit \<longrightarrow> lb_read b + length out = maxResponseBody \<and> out \<noteq> rest (lb_body b))"
proof (induction ps arbitrary: b out)
  case Nil
  then show ?case by (auto simp: body_inv_def)
next
  case (Cons p ps)
  obtain bs err b' where r: "Read rd p b = ((bs, err), b')" by (metis prod.exhaust)
  note s = Read_step [OF assms Cons.prems(1) r]
  show ?case
  proof (cases err)
    case None
    obtain o' where o': "read_seq rd ps b' = (o', e)" "out = bs @ o'"
      using Cons.prems(2) r None by (auto split: prod.splits)
    show ?thesis using Cons.IH [OF s(1) o'(1)] s(2,4) None o'(2) by auto
  next
    case (Some x)
    then have "out = bs" "e = Some x" using Cons.prems(2) r by auto
    then show ?thesis using s Some by (cases "x = ExceedsLimit") (auto simp: body_inv_def)
  qed
qed

text \<open>
  A capped body never truncates silently. However the caller sizes its reads and the server its chunks, at most one mebibyte is
  delivered, always a prefix of what was sent; a clean end of file is reported only after the whole body, and the
  limit error only for a body that is longer than the cap.
\<close>
theorem limitedBody_exact:
  assumes "source_laws rd rest" and "limited_RoundTrip (Inr (Some body)) = Inr (Some b)" and "read_seq rd ps b = (out, e)"
  shows "length out \<le> maxResponseBody \<and> prefix out (rest body)
     \<and> (e = Some EOF \<longrightarrow> out = rest body)
     \<and> (e = Some ExceedsLimit \<longrightarrow> length (rest body) > maxResponseBody)"
proof -
  have b: "b = \<lparr>lb_body = body, lb_read = 0, lb_eof = False\<rparr>"
    using assms(2) by (simp add: limited_RoundTrip_def)
  have p: "length out \<le> maxResponseBody" "prefix out (rest body)" "e = Some EOF \<Longrightarrow> out = rest body"
    "e = Some ExceedsLimit \<Longrightarrow> length out = maxResponseBody \<and> out \<noteq> rest body"
    using read_seq_inv [OF assms(1) _ assms(3)] by (auto simp: b body_inv_def)
  have "length out < length (rest body)" if "out \<noteq> rest body"
    using that p(2) by (meson linorder_not_le prefix_length_le prefix_order.order_iff_strict prefix_length_less)
  with p show ?thesis by auto
qed

definition list_read :: "string rd_op" where
  "list_read p s = ((take p s, if length s \<le> p then Some EOF else None), drop p s)"

lemma list_read_laws: "source_laws list_read (\<lambda>s. s)"
  by (auto simp: source_laws_def list_read_def split: if_splits)

theorem limitedBody_exact_witness:
  "read_seq list_read [2, 5] \<lparr>lb_body = ''abc'', lb_read = 0, lb_eof = False\<rparr> = (''abc'', Some EOF)
   \<and> prefix ''abc'' ''abc'' \<and> length ''abc'' \<le> maxResponseBody"
proof -
  have r: "read_seq list_read [2, 5] \<lparr>lb_body = ''abc'', lb_read = 0, lb_eof = False\<rparr> = (''abc'', Some EOF)"
    by (simp add: Read_def list_read_def maxResponseBody_def Let_def)
  have "limited_RoundTrip (Inr (Some ''abc'')) = Inr (Some \<lparr>lb_body = ''abc'', lb_read = 0, lb_eof = False\<rparr>)"
    by (simp add: limited_RoundTrip_def)
  from limitedBody_exact [OF list_read_laws this r] r show ?thesis by blast
qed

end
