(* ===== verification/Authn_Token.thy ===== *)
theory Authn_Token
  imports Authn_Config Complex_Main
begin

text \<open>
  Bearer tokens up to the choice of keys (\<open>authn/errors.go\<close> and the structural half of \<open>authn/validate.go\<close>): the error values with
  their client-safe code and reason, the header parser \<open>ParseBearer\<close>, the unverified algorithm gate, the mapping of parser errors, and the
  checks on verified claims.

  Parameters: base64url decoding of a token segment, JSON decoding of the header's \<open>alg\<close> member, the Unicode case mapping, and the conversion of a
  float64 outside the int64 range, which Go leaves to the implementation. The golang-jwt error tree is a datatype of its
  own: a node has a message and the errors it wraps. The detail of an error keeps the constant part of its message and the numbers
  it prints; durations, URLs and key IDs that a message quotes are left out, except in \<open>ParseBearer\<close>, whose messages are exact.
\<close>

section \<open>Errors\<close>

datatype acode = CodeInvalidRequest | CodeInvalidToken | CodeUnavailable

datatype reason =
    ReasonMissingHeader | ReasonMalformed | ReasonUnsupportedAlg | ReasonCriticalHeader | ReasonUnknownKID
  | ReasonSignature | ReasonExpired | ReasonExpirationMissing | ReasonNotYetValid | ReasonIssuedInFuture
  | ReasonLifetime | ReasonIssuer | ReasonAudience | ReasonMissingClaim | ReasonSubject
  | ReasonKeysUnavailable | ReasonKeyUnsupported | ReasonKeysStale | ReasonTokenType | ReasonInvalidClaims

text \<open>The wrapped detail of an error: a message, the golang-jwt error it was mapped from, or a failure of the key source.\<close>

datatype sentinel =
    ErrTokenMalformed | ErrTokenSignatureInvalid | ErrTokenUnverifiable | ErrTokenExpired | ErrTokenNotValidYet
  | ErrTokenUsedBeforeIssued | ErrTokenRequiredClaimMissing | ErrTokenInvalidIssuer | ErrTokenInvalidAudience
  | ErrOther nat

datatype aerr = AuthnError acode reason detail
  and detail = NoDetail | Text string | FromParser perr
  and perr = Sentinel sentinel string | FromKeyfunc aerr | Node string "perr list"

fun err_Code :: "aerr \<Rightarrow> acode" where "err_Code (AuthnError c r d) = c"
fun err_Reason :: "aerr \<Rightarrow> reason" where "err_Reason (AuthnError c r d) = r"
fun err_detail :: "aerr \<Rightarrow> detail" where "err_detail (AuthnError c r d) = d"

text \<open>\<open>errors.As(err, &authnErr)\<close> and \<open>errors.Is(err, s)\<close> on a golang-jwt error, in pre-order.\<close>

fun as_authn :: "perr \<Rightarrow> aerr option"
  and as_authn_list :: "perr list \<Rightarrow> aerr option" where
  "as_authn (Sentinel s m) = None"
| "as_authn (FromKeyfunc e) = Some e"
| "as_authn (Node m es) = as_authn_list es"
| "as_authn_list [] = None"
| "as_authn_list (e # es) = (case as_authn e of Some x \<Rightarrow> Some x | None \<Rightarrow> as_authn_list es)"

fun err_is :: "sentinel \<Rightarrow> perr \<Rightarrow> bool"
  and err_is_list :: "sentinel \<Rightarrow> perr list \<Rightarrow> bool" where
  "err_is s (Sentinel t m) \<longleftrightarrow> s = t"
| "err_is s (FromKeyfunc e) \<longleftrightarrow> False"
| "err_is s (Node m es) \<longleftrightarrow> err_is_list s es"
| "err_is_list s [] \<longleftrightarrow> False"
| "err_is_list s (e # es) \<longleftrightarrow> err_is s e \<or> err_is_list s es"

text \<open>The log message of an error, \<open>Error.Error\<close>; a nil receiver is \<open>None\<close>.\<close>

fun reason_string :: "reason \<Rightarrow> string" where
  "reason_string ReasonMissingHeader = ''missing_header''"
| "reason_string ReasonMalformed = ''malformed''"
| "reason_string ReasonUnsupportedAlg = ''unsupported_alg''"
| "reason_string ReasonCriticalHeader = ''critical_header''"
| "reason_string ReasonUnknownKID = ''unknown_kid''"
| "reason_string ReasonSignature = ''signature''"
| "reason_string ReasonExpired = ''expired''"
| "reason_string ReasonExpirationMissing = ''expiration_missing''"
| "reason_string ReasonNotYetValid = ''not_yet_valid''"
| "reason_string ReasonIssuedInFuture = ''issued_in_future''"
| "reason_string ReasonLifetime = ''lifetime''"
| "reason_string ReasonIssuer = ''issuer''"
| "reason_string ReasonAudience = ''audience''"
| "reason_string ReasonMissingClaim = ''missing_claim''"
| "reason_string ReasonSubject = ''subject''"
| "reason_string ReasonKeysUnavailable = ''keys_unavailable''"
| "reason_string ReasonKeyUnsupported = ''key_unsupported''"
| "reason_string ReasonKeysStale = ''keys_stale''"
| "reason_string ReasonTokenType = ''token_type''"
| "reason_string ReasonInvalidClaims = ''invalid_claims''"

fun error_string :: "aerr \<Rightarrow> string" and err_msg :: "perr \<Rightarrow> string" where
  "error_string (AuthnError c r NoDetail) = ''authn: '' @ reason_string r"
| "error_string (AuthnError c r (Text m)) = ''authn: '' @ reason_string r @ '': '' @ m"
| "error_string (AuthnError c r (FromParser e)) = ''authn: '' @ reason_string r @ '': '' @ err_msg e"
| "err_msg (Sentinel s m) = m"
| "err_msg (FromKeyfunc e) = error_string e"
| "err_msg (Node m es) = m"


text \<open>\<open>PossiblyOpaque\<close> on a result of this package: \<open>None\<close> is a nil error.\<close>

definition PossiblyOpaque :: "aerr option \<Rightarrow> bool" where
  "PossiblyOpaque err =
     (case err of None \<Rightarrow> False
      | Some e \<Rightarrow> err_Code e = CodeInvalidToken \<and> err_Reason e = ReasonMalformed)"

section \<open>ParseBearer\<close>

definition trim_left_byte :: "char \<Rightarrow> string \<Rightarrow> string" where
  "trim_left_byte c s = dropWhile (\<lambda>x. x = c) s"

definition printable :: "char \<Rightarrow> bool" where
  "printable c \<longleftrightarrow> 0x21 \<le> ord c \<and> ord c \<le> 0x7E"

abbreviation bad_request :: "reason \<Rightarrow> string \<Rightarrow> (aerr, 'a) result" where
  "bad_request r m \<equiv> Inl (AuthnError CodeInvalidRequest r (Text m))"

abbreviation bad_token :: "reason \<Rightarrow> string \<Rightarrow> (aerr, 'a) result" where
  "bad_token r m \<equiv> Inl (AuthnError CodeInvalidToken r (Text m))"

abbreviation too_long_msg :: "nat \<Rightarrow> string" where
  "too_long_msg n \<equiv> ''token length '' @ show_nat n @ '' exceeds '' @ show_nat maxTokenLength @ '' byte limit''"

datatype bearer_fault = NoHeader | NoSeparator | BadScheme | EmptyCredential | TooLong nat | NonPrintable

fun fault_msg :: "bearer_fault \<Rightarrow> string" where
  "fault_msg NoHeader = ''no Authorization header''"
| "fault_msg NoSeparator = ''expected 'Bearer <token>': no scheme/credential separator''"
| "fault_msg BadScheme = ''unsupported auth scheme: expected Bearer''"
| "fault_msg EmptyCredential = ''expected 'Bearer <token>': empty credential''"
| "fault_msg (TooLong n) = too_long_msg n"
| "fault_msg NonPrintable = ''credential contains a non-printable-ASCII character''"

definition ParseBearer :: "string \<Rightarrow> (aerr, string) result" where
  "ParseBearer headerValue =
     (if headerValue = [] then bad_request ReasonMissingHeader (fault_msg NoHeader)
      else case cut_at '' '' headerValue of
        None \<Rightarrow> bad_request ReasonMalformed (fault_msg NoSeparator)
      | Some (scheme, rest) \<Rightarrow>
          if scheme = [] then bad_request ReasonMalformed (fault_msg NoSeparator)
          else if \<not> equal_fold scheme ''bearer'' then bad_request ReasonMalformed (fault_msg BadScheme)
          else let token = trim_left_byte CHR '' '' rest in
            if token = [] then bad_request ReasonMalformed (fault_msg EmptyCredential)
            else if length token > maxTokenLength then bad_request ReasonMalformed (fault_msg (TooLong (length token)))
            else if \<not> list_all printable token then bad_request ReasonMalformed (fault_msg NonPrintable)
            else Inr token)"

declare fault_msg.simps [simp del]

section \<open>The algorithm gate\<close>

definition allowedAlgs :: "string list" where
  "allowedAlgs =
     [''RS256'', ''RS384'', ''RS512'', ''PS256'', ''PS384'', ''PS512'', ''ES256'', ''ES384'', ''ES512'']"

text \<open>\<open>decodeSegment\<close> is base64url decoding, \<open>jsonAlg\<close> the decoding of a JSON object with a string member \<open>alg\<close> (\<open>""\<close> when absent).\<close>

definition unverifiedAlg ::
  "(string \<Rightarrow> (string, string) result) \<Rightarrow> (string \<Rightarrow> (string, string) result) \<Rightarrow> string \<Rightarrow> (string, string) result" where
  "unverifiedAlg decodeSegment jsonAlg token =
     (let parts = split_on CHR ''.'' token in
      if length parts \<noteq> 3 then
        Inl (''token contains an invalid number of segments: '' @ show_nat (length parts))
      else case decodeSegment (parts ! 0) of
        Inl e \<Rightarrow> Inl (''failed to decode header segment: '' @ e)
      | Inr hdr \<Rightarrow>
          (case jsonAlg hdr of Inl e \<Rightarrow> Inl (''failed to parse header JSON: '' @ e) | Inr alg \<Rightarrow> Inr alg))"

section \<open>Parser errors\<close>

definition mapParseError :: "perr \<Rightarrow> bool \<Rightarrow> aerr" where
  "mapParseError err kidSeen =
     (let invalid = (\<lambda>r. AuthnError CodeInvalidToken r (FromParser err)) in
      case as_authn err of
        Some e \<Rightarrow> e
      | None \<Rightarrow>
          if err_is ErrTokenMalformed err then invalid ReasonMalformed
          else if err_is ErrTokenSignatureInvalid err then invalid ReasonSignature
          else if err_is ErrTokenUnverifiable err then
            (if kidSeen then invalid ReasonUnknownKID else invalid ReasonSignature)
          else if err_is ErrTokenExpired err then invalid ReasonExpired
          else if err_is ErrTokenNotValidYet err then invalid ReasonNotYetValid
          else if err_is ErrTokenUsedBeforeIssued err then invalid ReasonIssuedInFuture
          else if err_is ErrTokenRequiredClaimMissing err then
            (if str_contains (err_msg err) ''iss claim is required'' then invalid ReasonIssuer
             else if str_contains (err_msg err) ''aud claim is required'' then invalid ReasonAudience
             else if str_contains (err_msg err) ''exp claim is required'' then invalid ReasonExpirationMissing
             else invalid ReasonMissingClaim)
          else if err_is ErrTokenInvalidIssuer err then invalid ReasonIssuer
          else if err_is ErrTokenInvalidAudience err then invalid ReasonAudience
          else invalid ReasonInvalidClaims)"


section \<open>Verified claims\<close>

text \<open>The decoded value of a claim or header member. A float64 from JSON is finite, so it is a rational number.\<close>

datatype cval = VString string | VFloat rat | VInt64 int | VInt int | VNumber string | VList "cval list" | VOther

type_synonym claims = "string \<rightharpoonup> cval"

text \<open>A \<open>time.Time\<close> is its nanoseconds since the internal epoch; \<open>time.Unix\<close> adds the epoch offset in int64 arithmetic and \<open>Sub\<close> saturates.\<close>

definition go_Unix :: "int \<Rightarrow> int" where
  "go_Unix sec = wrap64 (sec + 62135596800) * second"

definition go_Sub :: "int \<Rightarrow> int \<Rightarrow> int" where
  "go_Sub t u = (if t - u > max_int64 then max_int64 else if t - u < - max_int64 - 1 then - max_int64 - 1 else t - u)"

text \<open>Conversion of a float64 to int64: truncation in range, and the implementation's choice (\<open>ovf\<close>) outside.\<close>

definition float_int64 :: "(rat \<Rightarrow> int) \<Rightarrow> rat \<Rightarrow> int" where
  "float_int64 ovf x =
     (let n = (if 0 \<le> x then \<lfloor>x\<rfloor> else \<lceil>x\<rceil>) in if is_int64 n then n else ovf x)"

definition issuedAt :: "(rat \<Rightarrow> int) \<Rightarrow> claims \<Rightarrow> int option" where
  "issuedAt ovf claims =
     (case claims ''iat'' of
        None \<Rightarrow> None
      | Some raw \<Rightarrow>
          (case raw of
             VFloat n \<Rightarrow> Some (go_Unix (float_int64 ovf n))
           | VInt64 n \<Rightarrow> Some (go_Unix n)
           | VInt n \<Rightarrow> Some (go_Unix n)
           | VNumber s \<Rightarrow> (case atoi s of None \<Rightarrow> None | Some secs \<Rightarrow> Some (go_Unix secs))
           | _ \<Rightarrow> None))"

text \<open>\<open>getExp\<close> is golang-jwt's \<open>GetExpirationTime\<close>: \<open>None\<close> for an error or an absent claim.\<close>

definition checkLifetime ::
  "(rat \<Rightarrow> int) \<Rightarrow> (claims \<Rightarrow> int option) \<Rightarrow> 'kp Config \<Rightarrow> claims \<Rightarrow> (aerr, unit) result" where
  "checkLifetime ovf getExp cfg claims =
     (if cfg_MaxTokenLifetime cfg = 0 then Inr ()
      else case getExp claims of
        None \<Rightarrow> Inr ()
      | Some expiry \<Rightarrow>
          (case issuedAt ovf claims of
             None \<Rightarrow> Inr ()
           | Some iat \<Rightarrow>
               if go_Sub expiry iat > cfg_MaxTokenLifetime cfg
               then bad_token ReasonLifetime ''token lifetime exceeds maximum'' else Inr ()))"

definition checkTokenType :: "(string \<Rightarrow> string) \<Rightarrow> 'kp Config \<Rightarrow> claims \<Rightarrow> (aerr, unit) result" where
  "checkTokenType uni cfg header =
     (if cfg_AcceptedTokenTypes cfg = [] then Inr ()
      else let typ = (case header ''typ'' of Some (VString s) \<Rightarrow> s | _ \<Rightarrow> []);
               got = normalizeTokenType uni typ
           in if got = [] then
                bad_token ReasonTokenType (''token has no usable typ header; ''
                  @ show_nat (length (cfg_AcceptedTokenTypes cfg)) @ '' type(s) accepted'')
              else if list_ex (\<lambda>want. got = normalizeTokenType uni want) (cfg_AcceptedTokenTypes cfg) then Inr ()
              else bad_token ReasonTokenType ''token typ is not accepted'')"

definition stringClaim :: "claims \<Rightarrow> string \<Rightarrow> string" where
  "stringClaim claims name = (case claims name of Some (VString s) \<Rightarrow> s | _ \<Rightarrow> [])"

section \<open>Header parsing is exact and log-safe\<close>

lemma cut_at_char_built: "c \<notin> set s \<Longrightarrow> cut_at [c] (s @ c # t) = Some (s, t)"
  by (induction s) auto










text \<open>
  A header with another scheme is malformed. The comment on \<open>ReasonMissingHeader\<close> (\<open>authn/errors.go\<close>) gives that reason for a request with no
  Bearer scheme too; \<open>ParseBearer\<close> reports \<open>ReasonMalformed\<close> there.
\<close>

lemma other_scheme_malformed:
  assumes "CHR '' '' \<notin> set scheme" and "\<not> equal_fold scheme ''bearer''"
  shows "\<exists>e. ParseBearer (scheme @ CHR '' '' # rest) = Inl e \<and> err_Code e = CodeInvalidRequest \<and> err_Reason e = ReasonMalformed"
  using assms(2) by (simp add: ParseBearer_def cut_at_char_built [OF assms(1)])



section \<open>Classification of parser errors\<close>

text \<open>
  Parser errors. The error of a key lookup passes through unchanged; every other parser error becomes an invalid token, and it is reported as malformed, which
  triggers introspection of opaque tokens, exactly if golang-jwt itself found the token malformed. In particular no claim failure is.
\<close>
theorem mapParseError_classes:
  "(as_authn err = Some e \<longrightarrow> mapParseError err kidSeen = e)
   \<and> (as_authn err = None \<longrightarrow>
        err_Code (mapParseError err kidSeen) = CodeInvalidToken
        \<and> err_detail (mapParseError err kidSeen) = FromParser err
        \<and> (PossiblyOpaque (Some (mapParseError err kidSeen)) \<longleftrightarrow> err_is ErrTokenMalformed err)
        \<and> (err_Reason (mapParseError err kidSeen) = ReasonUnknownKID \<longrightarrow> kidSeen))"
proof (cases "as_authn err")
  case (Some x)
  then show ?thesis by (simp add: mapParseError_def)
next
  case None
  then show ?thesis by (simp add: mapParseError_def Let_def PossiblyOpaque_def)
qed

theorem mapParseError_classes_witness:
  "err_Reason (mapParseError (Node ''token is malformed: x'' [Sentinel ErrTokenMalformed ''token is malformed'']) False) = ReasonMalformed
   \<and> PossiblyOpaque (Some (mapParseError (Node ''x'' [Sentinel ErrTokenMalformed ''m'']) False))
   \<and> mapParseError (Node ''x'' [Sentinel ErrTokenUnverifiable ''m'', FromKeyfunc (AuthnError CodeUnavailable ReasonKeysStale NoDetail)]) True
       = AuthnError CodeUnavailable ReasonKeysStale NoDetail"
  using mapParseError_classes [of "Node ''x'' [Sentinel ErrTokenMalformed ''m'']" _ False]
    mapParseError_classes [of "Node ''x'' [Sentinel ErrTokenUnverifiable ''m'', FromKeyfunc (AuthnError CodeUnavailable ReasonKeysStale NoDetail)]"
      "AuthnError CodeUnavailable ReasonKeysStale NoDetail" True]
  by (simp add: mapParseError_def)

end
