(* ===== verification/Authn_Keys.thy ===== *)
theory Authn_Keys
  imports Authn_Token "HOL-Library.AList"
begin

text \<open>
  Verification keys (\<open>authn/validate.go\<close>, \<open>authn/keyprovider.go\<close>): the filters a key must pass, the candidates of a JWKS and of an
  in-process provider, the bounded negative cache, the rate-limited refresh and the keyfunc \<open>verificationKeys\<close> that
  puts them together.

  Parameters: the clock, the JWKS cache of the jwx library (\<open>Lookup\<close> and \<open>Refresh\<close>, which also fail when a context is
  done) and the provider are effects on a world \<open>'w\<close>; a JWK is a record of what its accessors return. The map of the negative cache is an
  association list in the order the runtime iterates it.
\<close>

section \<open>Keys\<close>

datatype keyRejection =
    rejectNone | rejectKeyUse | rejectKeyOps | rejectDeclaredAlg | rejectKeyType | rejectCurve | rejectWeakRSA | rejectExport

fun rejection_String :: "keyRejection \<Rightarrow> string" where
  "rejection_String rejectNone = ''eligible''"
| "rejection_String rejectKeyUse = ''key \"use\" is not \"sig\"''"
| "rejection_String rejectKeyOps = ''key \"key_ops\" does not include \"verify\"''"
| "rejection_String rejectDeclaredAlg = ''key declares a different \"alg\" than the token''"
| "rejection_String rejectKeyType = ''key type is not usable with the token's alg''"
| "rejection_String rejectCurve = ''key curve does not match the token's alg''"
| "rejection_String rejectWeakRSA = ''RSA key is shorter than the 2048-bit minimum (RFC 7518 '' @ [CHR 0xC2, CHR 0xA7] @ ''3.3)''"
| "rejection_String rejectExport = ''key could not be decoded''"

text \<open>An RSA key has a modulus (\<open>None\<close> for a nil pointer); an ECDSA key a curve, which may be nil and whose parameters may be
  nil. A key of another type has neither.\<close>

record rsa_key =
  rsa_N :: "nat option"

record ec_key =
  ec_Curve :: "string option option"

datatype pubkey = RSAKey rsa_key | ECKey ec_key | OtherKey nat

fun BitLen :: "nat \<Rightarrow> nat" where
  "BitLen n = (if n = 0 then 0 else Suc (BitLen (n div 2)))"

declare BitLen.simps [simp del]

record jwk =
  jk_KeyID :: "string option"
  jk_KeyUsage :: "string option"
  jk_KeyOps :: "string list option"
  jk_Algorithm :: "string option"
  jk_KeyType :: string
  jk_ExportRSA :: "(string, rsa_key) result"
  jk_ExportEC :: "(string, ec_key) result"

definition maxKeyCandidates :: nat where "maxKeyCandidates = 8"
definition refreshFloor :: int where "refreshFloor = second"
definition negativeCacheTTL :: int where "negativeCacheTTL = 30 * second"
definition negativeCacheMaxEntries :: nat where "negativeCacheMaxEntries = 128"
definition minRSAKeyBits :: nat where "minRSAKeyBits = 2048"

section \<open>Eligibility\<close>

definition curveMatchesAlg :: "string \<Rightarrow> string \<Rightarrow> bool" where
  "curveMatchesAlg curveName alg \<longleftrightarrow>
     (if alg = ''ES256'' then curveName = ''P-256''
      else if alg = ''ES384'' then curveName = ''P-384''
      else if alg = ''ES512'' then curveName = ''P-521''
      else False)"

abbreviation rsa_alg :: "string \<Rightarrow> bool" where
  "rsa_alg alg \<equiv> has_prefix alg ''RS'' \<or> has_prefix alg ''PS''"

definition keyTypeMatchesAlg :: "jwk \<Rightarrow> string \<Rightarrow> keyRejection" where
  "keyTypeMatchesAlg key alg =
     (if rsa_alg alg then
        (if jk_KeyType key \<noteq> ''RSA'' then rejectKeyType
         else case jk_ExportRSA key of
           Inl _ \<Rightarrow> rejectExport
         | Inr raw \<Rightarrow>
             (case rsa_N raw of
                None \<Rightarrow> rejectExport
              | Some n \<Rightarrow> if BitLen n < minRSAKeyBits then rejectWeakRSA else rejectNone))
      else if has_prefix alg ''ES'' then
        (if jk_KeyType key \<noteq> ''EC'' then rejectKeyType
         else case jk_ExportEC key of
           Inl _ \<Rightarrow> rejectExport
         | Inr raw \<Rightarrow>
             (case ec_Curve raw of
                None \<Rightarrow> rejectExport
              | Some None \<Rightarrow> rejectExport
              | Some (Some name) \<Rightarrow> if \<not> curveMatchesAlg name alg then rejectCurve else rejectNone))
      else rejectKeyType)"

definition keyEligible :: "jwk \<Rightarrow> string \<Rightarrow> keyRejection" where
  "keyEligible key alg =
     (if (case jk_KeyUsage key of None \<Rightarrow> False | Some use \<Rightarrow> use \<noteq> ''sig'') then rejectKeyUse
      else if (case jk_KeyOps key of None \<Rightarrow> False | Some ops \<Rightarrow> ''verify'' \<notin> set ops) then rejectKeyOps
      else if (case jk_Algorithm key of None \<Rightarrow> False | Some keyAlg \<Rightarrow> keyAlg \<noteq> alg) then rejectDeclaredAlg
      else keyTypeMatchesAlg key alg)"

text \<open>\<open>candidateKeys\<close>: the loop keeps the eligible keys and the first cause of a rejection. \<open>set.Key(i)\<close> may report no key (\<open>None\<close>).\<close>

fun cand_loop :: "string \<Rightarrow> string \<Rightarrow> jwk option list \<Rightarrow> jwk list \<Rightarrow> keyRejection \<Rightarrow> jwk list \<times> keyRejection" where
  "cand_loop kid alg [] out why = (out, why)"
| "cand_loop kid alg (None # ks) out why = cand_loop kid alg ks out why"
| "cand_loop kid alg (Some key # ks) out why =
     (if kid \<noteq> [] \<and> jk_KeyID key \<noteq> Some kid then cand_loop kid alg ks out why
      else let r = keyEligible key alg in
        if r \<noteq> rejectNone then cand_loop kid alg ks out (if why = rejectNone then r else why)
        else cand_loop kid alg ks (out @ [key]) why)"

definition candidateKeys :: "jwk option list \<Rightarrow> string \<Rightarrow> string \<Rightarrow> jwk list \<times> keyRejection" where
  "candidateKeys keySet kid alg =
     (case cand_loop kid alg keySet [] rejectNone of
        (out, why) \<Rightarrow>
          let out' = (if length out > maxKeyCandidates then take maxKeyCandidates out else out) in
          if length out' > 0 then (out', rejectNone) else (out', why))"

section \<open>The in-process provider\<close>

record PublicKey =
  pk_KeyID :: string
  pk_Alg :: string
  pk_Key :: "pubkey option"

text \<open>\<open>pk_Key\<close> is \<open>None\<close> for a nil interface; a typed nil pointer has no modulus or curve to offer and is rejected the same way, so it is \<open>None\<close> too.\<close>

definition providerKeyTypeMatchesAlg :: "pubkey option \<Rightarrow> string \<Rightarrow> keyRejection" where
  "providerKeyTypeMatchesAlg key alg =
     (if rsa_alg alg then
        (case key of
           Some (RSAKey pub) \<Rightarrow>
             (case rsa_N pub of
                None \<Rightarrow> rejectExport
              | Some n \<Rightarrow> if BitLen n < minRSAKeyBits then rejectWeakRSA else rejectNone)
         | _ \<Rightarrow> rejectKeyType)
      else if has_prefix alg ''ES'' then
        (case key of
           Some (ECKey pub) \<Rightarrow>
             (case ec_Curve pub of
                None \<Rightarrow> rejectExport
              | Some None \<Rightarrow> rejectExport
              | Some (Some name) \<Rightarrow> if \<not> curveMatchesAlg name alg then rejectCurve else rejectNone)
         | _ \<Rightarrow> rejectKeyType)
      else rejectKeyType)"

fun provider_loop :: "string \<Rightarrow> string \<Rightarrow> PublicKey list \<Rightarrow> pubkey list \<Rightarrow> keyRejection \<Rightarrow> pubkey list \<times> keyRejection" where
  "provider_loop kid alg [] out why = (out, why)"
| "provider_loop kid alg (pk # pks) out why =
     (if pk_KeyID pk \<noteq> [] \<and> kid \<noteq> [] \<and> pk_KeyID pk \<noteq> kid then provider_loop kid alg pks out why
      else if pk_Alg pk \<noteq> [] \<and> pk_Alg pk \<noteq> alg then
        provider_loop kid alg pks out (if why = rejectNone then rejectDeclaredAlg else why)
      else let r = providerKeyTypeMatchesAlg (pk_Key pk) alg in
        if r \<noteq> rejectNone then provider_loop kid alg pks out (if why = rejectNone then r else why)
        else case pk_Key pk of
          None \<Rightarrow> provider_loop kid alg pks out why
        | Some k \<Rightarrow>
            (let out' = out @ [k] in
             if length out' = maxKeyCandidates then (out', why) else provider_loop kid alg pks out' why))"

definition providerCandidates :: "PublicKey list \<Rightarrow> string \<Rightarrow> string \<Rightarrow> pubkey list \<times> keyRejection" where
  "providerCandidates keys kid alg =
     (case provider_loop kid alg keys [] rejectNone of
        (out, why) \<Rightarrow> if length out > 0 then (out, rejectNone) else (out, why))"


section \<open>The validator's state\<close>

type_synonym 'w provider = "'w \<Rightarrow> (string, PublicKey list) result \<times> 'w"

record 'w jwks_env =
  env_Now :: "'w \<Rightarrow> int \<times> 'w"
  env_Lookup :: "'w \<Rightarrow> (bool, jwk option list) result \<times> 'w"
  env_Refresh :: "'w \<Rightarrow> (string, unit) result \<times> 'w"

text \<open>\<open>env_Lookup\<close> fails with \<open>True\<close> for httprc's not-ready error. Times are as in \<open>go_Sub\<close>; the zero time is 0.\<close>

record 'w Validator =
  v_cfg :: "'w provider Config"
  v_jwksCache :: bool
  v_jwksURL :: string
  v_closed :: bool
  v_lastRefresh :: int
  v_lastSuccess :: int
  v_negativeKids :: "(string \<times> int) list"

type_synonym 'w vstate = "'w Validator \<times> 'w"

definition knownBadKID :: "'w jwks_env \<Rightarrow> string \<Rightarrow> 'w vstate \<Rightarrow> bool \<times> 'w vstate" where
  "knownBadKID env kid = (\<lambda>(v, w).
     case map_of (v_negativeKids v) kid of
       None \<Rightarrow> (False, (v, w))
     | Some expiry \<Rightarrow> (case env_Now env w of (now, w') \<Rightarrow> (now < expiry, (v, w'))))"

fun oldest :: "(string \<times> int) list \<Rightarrow> string \<times> int \<Rightarrow> string \<times> int" where
  "oldest [] best = best"
| "oldest ((k, expiry) # m) best =
     oldest m (if fst best = [] \<or> expiry < snd best then (k, expiry) else best)"

definition recordBadKID :: "'w jwks_env \<Rightarrow> string \<Rightarrow> 'w vstate \<Rightarrow> 'w vstate" where
  "recordBadKID env kid = (\<lambda>(v, w).
     let m = v_negativeKids v;
         m' = (if length m \<ge> negativeCacheMaxEntries then AList.delete (fst (oldest m ([], 0))) m else m)
     in case env_Now env w of (now, w') \<Rightarrow>
          (v\<lparr>v_negativeKids := AList.update kid (now + negativeCacheTTL) m'\<rparr>, w'))"

definition refreshOnce :: "'w jwks_env \<Rightarrow> 'w vstate \<Rightarrow> (bool \<times> string option) \<times> 'w vstate" where
  "refreshOnce env = (\<lambda>(v, w).
     case env_Now env w of (now, w1) \<Rightarrow>
       if go_Sub now (v_lastRefresh v) < refreshFloor then ((False, None), (v, w1))
       else case env_Refresh env w1 of (res, w2) \<Rightarrow>
         case env_Now env w2 of (now', w3) \<Rightarrow>
           (case res of
              Inl e \<Rightarrow> ((True, Some e), (v\<lparr>v_lastRefresh := now'\<rparr>, w3))
            | Inr _ \<Rightarrow> ((True, None), (v\<lparr>v_lastRefresh := now', v_lastSuccess := now'\<rparr>, w3))))"

definition staleness :: "'w jwks_env \<Rightarrow> 'w vstate \<Rightarrow> int \<times> 'w vstate" where
  "staleness env = (\<lambda>(v, w). case env_Now env w of (now, w') \<Rightarrow> (go_Sub now (v_lastSuccess v), (v, w')))"

definition jwksFresh :: "'w jwks_env \<Rightarrow> 'w vstate \<Rightarrow> bool \<times> 'w vstate" where
  "jwksFresh env s =
     (let bound = cfg_MaxJWKSStaleness (v_cfg (fst s)) in
      if bound \<le> 0 then (True, s)
      else case staleness env s of (old, s1) \<Rightarrow>
        if old \<le> bound then (True, s1)
        else case refreshOnce env s1 of ((_, err), s2) \<Rightarrow>
          if err \<noteq> None then (False, s2)
          else case staleness env s2 of (old', s3) \<Rightarrow> (old' \<le> bound, s3))"

section \<open>The keyfunc\<close>

abbreviation unavailable :: "reason \<Rightarrow> string \<Rightarrow> (aerr, 'a) result" where
  "unavailable r m \<equiv> Inl (AuthnError CodeUnavailable r (Text m))"

definition exportKey :: "jwk \<Rightarrow> string \<Rightarrow> (string, pubkey) result" where
  "exportKey key alg =
     (if rsa_alg alg then map_sum id RSAKey (jk_ExportRSA key)
      else if has_prefix alg ''ES'' then map_sum id ECKey (jk_ExportEC key)
      else Inl ''unsupported alg'')"

fun exportCandidates :: "jwk list \<Rightarrow> string \<Rightarrow> (aerr, pubkey list) result" where
  "exportCandidates [] alg = Inr []"
| "exportCandidates (key # keys) alg =
     (case exportKey key alg of
        Inl e \<Rightarrow> unavailable ReasonKeysUnavailable ''failed to export JWK to crypto key''
      | Inr raw \<Rightarrow> bindE (exportCandidates keys alg) (\<lambda>raws. Inr (raw # raws)))"

definition lookupCandidates :: "'w jwks_env \<Rightarrow> string \<Rightarrow> string \<Rightarrow> 'w vstate \<Rightarrow> (aerr, jwk list) result \<times> 'w vstate" where
  "lookupCandidates env kid alg = (\<lambda>(v, w).
     case env_Lookup env w of (res, w') \<Rightarrow>
       ((case res of
           Inl notReady \<Rightarrow>
             (if notReady then unavailable ReasonKeysUnavailable ''JWKS fetch pending''
              else unavailable ReasonKeysUnavailable ''JWKS unavailable'')
         | Inr keySet \<Rightarrow>
             (case candidateKeys keySet kid alg of
                (keys, why) \<Rightarrow>
                  if length keys = 0 \<and> why \<noteq> rejectNone
                  then bad_token ReasonKeyUnsupported (''no usable key for alg: '' @ rejection_String why)
                  else Inr keys)),
        (v, w')))"

definition keysFromProvider :: "'w provider \<Rightarrow> string \<Rightarrow> string \<Rightarrow> 'w \<Rightarrow> (aerr, pubkey list \<times> keyRejection) result \<times> 'w" where
  "keysFromProvider publicKeys kid alg w =
     (case publicKeys w of
        (Inl e, w') \<Rightarrow> (unavailable ReasonKeysUnavailable ''key provider failed'', w')
      | (Inr keys, w') \<Rightarrow> (Inr (providerCandidates keys kid alg), w'))"

text \<open>The result \<open>Inr None\<close> is a provider miss with a JWKS to fall back to.\<close>

definition providerKeySet ::
  "'w provider \<Rightarrow> string \<Rightarrow> string \<Rightarrow> 'w vstate \<Rightarrow> (aerr, pubkey list option) result \<times> 'w vstate" where
  "providerKeySet publicKeys kid alg = (\<lambda>(v, w).
     case keysFromProvider publicKeys kid alg w of
       (Inl e, w') \<Rightarrow> (Inl e, (v, w'))
     | (Inr (keys, why), w') \<Rightarrow>
         (if length keys > 0 then Inr (Some keys)
          else if why \<noteq> rejectNone then
            bad_token ReasonKeyUnsupported (''key provider offered no usable key for alg: '' @ rejection_String why)
          else if \<not> v_jwksCache v then
            bad_token ReasonUnknownKID ''kid not offered by the key provider and no JWKS is configured''
          else Inr None, (v, w')))"

text \<open>Unknown-kid recovery, after a first lookup without a match.\<close>

definition recover_kid :: "'w jwks_env \<Rightarrow> string \<Rightarrow> string \<Rightarrow> 'w vstate \<Rightarrow> (aerr, jwk list) result \<times> 'w vstate" where
  "recover_kid env kid alg s =
     (case knownBadKID env kid s of
        (True, s1) \<Rightarrow> (bad_token ReasonUnknownKID ''kid not in JWKS (negative cache)'', s1)
      | (False, s1) \<Rightarrow>
          (case refreshOnce env s1 of
             ((_, Some e), s2) \<Rightarrow> (unavailable ReasonKeysUnavailable ''JWKS refresh for unknown kid failed'', s2)
           | ((refreshed, None), s2) \<Rightarrow>
               (case lookupCandidates env kid alg s2 of
                  (Inl e, s3) \<Rightarrow> (Inl e, s3)
                | (Inr keys, s3) \<Rightarrow>
                    if length keys = 0 then
                      (bad_token ReasonUnknownKID ''kid not in JWKS'',
                       if refreshed then recordBadKID env kid s3 else s3)
                    else (Inr keys, s3))))"

definition jwks_keys :: "'w jwks_env \<Rightarrow> string \<Rightarrow> string \<Rightarrow> 'w vstate \<Rightarrow> (aerr, pubkey list) result \<times> 'w vstate" where
  "jwks_keys env kid alg s =
     (case jwksFresh env s of
        (False, s1) \<Rightarrow> (unavailable ReasonKeysStale ''cached JWKS exceeds the staleness bound'', s1)
      | (True, s1) \<Rightarrow>
          (case lookupCandidates env kid alg s1 of
             (Inl e, s2) \<Rightarrow> (Inl e, s2)
           | (Inr keys, s2) \<Rightarrow>
               (case (if length keys = 0 \<and> kid \<noteq> [] then recover_kid env kid alg s2 else (Inr keys, s2)) of
                  (Inl e, s3) \<Rightarrow> (Inl e, s3)
                | (Inr keys', s3) \<Rightarrow> (exportCandidates keys' alg, s3))))"

definition verificationKeys :: "'w jwks_env \<Rightarrow> string \<Rightarrow> string \<Rightarrow> 'w vstate \<Rightarrow> (aerr, pubkey list) result \<times> 'w vstate" where
  "verificationKeys env kid alg s =
     (case cfg_KeyProvider (v_cfg (fst s)) of
        None \<Rightarrow> jwks_keys env kid alg s
      | Some publicKeys \<Rightarrow>
          (case providerKeySet publicKeys kid alg s of
             (Inl e, s1) \<Rightarrow> (Inl e, s1)
           | (Inr (Some keys), s1) \<Rightarrow> (Inr keys, s1)
           | (Inr None, s1) \<Rightarrow> jwks_keys env kid alg s1))"


section \<open>Candidates as a filter\<close>

lemma BitLen_ge: "Suc m \<le> BitLen n \<longleftrightarrow> 2 ^ m \<le> n"
proof (induction m arbitrary: n)
  case 0
  then show ?case by (subst BitLen.simps) auto
next
  case (Suc m)
  have "2 * (2::nat) ^ m \<le> n \<longleftrightarrow> 2 ^ m \<le> n div 2" by (simp add: less_eq_div_iff_mult_less_eq mult.commute)
  moreover have "Suc (Suc m) \<le> BitLen n \<longleftrightarrow> n \<noteq> 0 \<and> Suc m \<le> BitLen (n div 2)" by (subst BitLen.simps) auto
  moreover have "n = 0 \<Longrightarrow> \<not> 2 ^ m \<le> n div 2" by simp
  ultimately show ?case using Suc.IH [of "n div 2"] by auto
qed

text \<open>A modulus of at least 2048 bits.\<close>

definition strong_modulus :: "nat \<Rightarrow> bool" where
  "strong_modulus n \<longleftrightarrow> 2 ^ 2047 \<le> n"

definition key_fits :: "string \<Rightarrow> pubkey \<Rightarrow> bool" where
  "key_fits alg k =
     (case k of
        RSAKey r \<Rightarrow> rsa_alg alg \<and> (\<exists>n. rsa_N r = Some n \<and> strong_modulus n)
      | ECKey e \<Rightarrow> has_prefix alg ''ES'' \<and> (\<exists>name. ec_Curve e = Some (Some name) \<and> curveMatchesAlg name alg)
      | OtherKey _ \<Rightarrow> False)"

lemma BitLen_strong: "BitLen n < minRSAKeyBits \<longleftrightarrow> \<not> strong_modulus n"
  using BitLen_ge [of 2047 n] by (auto simp: minRSAKeyBits_def strong_modulus_def simp del: power_Suc)

lemma rsa_ec_disjoint: "rsa_alg alg \<Longrightarrow> \<not> has_prefix alg ''ES''"
  by (auto simp: prefix_def)

lemma keyTypeMatchesAlg_fits:
  "keyTypeMatchesAlg key alg = rejectNone \<longleftrightarrow>
     (\<exists>k. exportKey key alg = Inr k \<and> key_fits alg k) \<and> jk_KeyType key = (if rsa_alg alg then ''RSA'' else ''EC'')"
proof (cases "rsa_alg alg")
  case True
  then show ?thesis
    by (auto simp: BitLen_strong keyTypeMatchesAlg_def exportKey_def key_fits_def split: sum.splits option.splits if_splits)
next
  case False
  then show ?thesis
    by (auto simp: keyTypeMatchesAlg_def exportKey_def key_fits_def split: sum.splits option.splits if_splits)
qed

lemma keyEligible_fits: "keyEligible key alg = rejectNone \<Longrightarrow> \<exists>k. exportKey key alg = Inr k \<and> key_fits alg k"
  by (auto simp: keyEligible_def keyTypeMatchesAlg_fits split: if_splits)

lemma providerKeyType_fits:
  "providerKeyTypeMatchesAlg key alg = rejectNone \<longleftrightarrow> (\<exists>k. key = Some k \<and> key_fits alg k)"
proof (cases "rsa_alg alg")
  case True
  then show ?thesis
    using rsa_ec_disjoint [OF True]
    by (auto simp: BitLen_strong providerKeyTypeMatchesAlg_def key_fits_def split: option.splits pubkey.splits if_splits)
next
  case False
  then show ?thesis
    by (auto simp: providerKeyTypeMatchesAlg_def key_fits_def split: option.splits pubkey.splits if_splits)
qed


text \<open>A reference definition: filter by key ID, keep what passes the filters, take the first eight; without any, report the first cause of
  a rejection.\<close>

definition first_cause :: "('k \<Rightarrow> keyRejection) \<Rightarrow> 'k list \<Rightarrow> keyRejection" where
  "first_cause f ks = (case filter (\<lambda>k. f k \<noteq> rejectNone) ks of [] \<Rightarrow> rejectNone | k # _ \<Rightarrow> f k)"

definition select_keys :: "('k \<Rightarrow> bool) \<Rightarrow> ('k \<Rightarrow> keyRejection) \<Rightarrow> 'k list \<Rightarrow> 'k list \<times> keyRejection" where
  "select_keys matches f ks =
     (let ms = filter matches ks; good = filter (\<lambda>k. f k = rejectNone) ms
      in (take maxKeyCandidates good, if good = [] then first_cause f ms else rejectNone))"

definition present :: "'k option list \<Rightarrow> 'k list" where
  "present ks = map the (filter (\<lambda>k. k \<noteq> None) ks)"

abbreviation jwk_matches :: "string \<Rightarrow> jwk \<Rightarrow> bool" where
  "jwk_matches kid key \<equiv> kid = [] \<or> jk_KeyID key = Some kid"

lemma first_cause_simps [simp]:
  "first_cause f [] = rejectNone"
  "first_cause f (k # ks) = (if f k \<noteq> rejectNone then f k else first_cause f ks)"
  by (simp_all add: first_cause_def)

lemma cand_loop_filter:
  "cand_loop kid alg ks out why =
     (let ms = filter (jwk_matches kid) (present ks)
      in (out @ filter (\<lambda>k. keyEligible k alg = rejectNone) ms,
          if why = rejectNone then first_cause (\<lambda>k. keyEligible k alg) ms else why))"
  by (induction kid alg ks out why rule: cand_loop.induct) (auto simp: present_def Let_def)

lemma candidateKeys_select:
  "candidateKeys ks kid alg = select_keys (jwk_matches kid) (\<lambda>k. keyEligible k alg) (present ks)"
  by (auto simp: candidateKeys_def cand_loop_filter select_keys_def Let_def maxKeyCandidates_def)

definition pk_reject :: "string \<Rightarrow> PublicKey \<Rightarrow> keyRejection" where
  "pk_reject alg pk =
     (if pk_Alg pk \<noteq> [] \<and> pk_Alg pk \<noteq> alg then rejectDeclaredAlg else providerKeyTypeMatchesAlg (pk_Key pk) alg)"

abbreviation pk_matches :: "string \<Rightarrow> PublicKey \<Rightarrow> bool" where
  "pk_matches kid pk \<equiv> pk_KeyID pk = [] \<or> kid = [] \<or> pk_KeyID pk = kid"

lemma pk_reject_none: "pk_reject alg pk = rejectNone \<Longrightarrow> \<exists>k. pk_Key pk = Some k \<and> key_fits alg k"
  by (auto simp: pk_reject_def providerKeyType_fits split: if_splits)

definition pk_good :: "string \<Rightarrow> string \<Rightarrow> PublicKey list \<Rightarrow> pubkey list" where
  "pk_good kid alg pks = map (\<lambda>pk. the (pk_Key pk)) (filter (\<lambda>pk. pk_reject alg pk = rejectNone) (filter (pk_matches kid) pks))"

lemma pk_good_simps [simp]:
  "pk_good kid alg [] = []"
  "pk_good kid alg (pk # pks) =
     (if pk_matches kid pk \<and> pk_reject alg pk = rejectNone then the (pk_Key pk) # pk_good kid alg pks else pk_good kid alg pks)"
  by (simp_all add: pk_good_def)

lemma provider_loop_Cons:
  "provider_loop kid alg (pk # pks) out why =
     (if \<not> pk_matches kid pk then provider_loop kid alg pks out why
      else if pk_reject alg pk \<noteq> rejectNone then
        provider_loop kid alg pks out (if why = rejectNone then pk_reject alg pk else why)
      else let out' = out @ [the (pk_Key pk)] in
        if length out' = maxKeyCandidates then (out', why) else provider_loop kid alg pks out' why)"
proof (cases "pk_reject alg pk = rejectNone")
  case True
  then obtain k where "pk_Key pk = Some k" using pk_reject_none by blast
  with True show ?thesis by (auto simp: pk_reject_def Let_def split: if_splits)
next
  case False
  then show ?thesis by (auto simp: pk_reject_def Let_def)
qed

lemma provider_loop_keys:
  "length out < maxKeyCandidates \<Longrightarrow>
     fst (provider_loop kid alg pks out why) = take maxKeyCandidates (out @ pk_good kid alg pks)"
proof (induction pks arbitrary: out why)
  case Nil
  then show ?case by simp
next
  case (Cons pk pks)
  show ?case
  proof (cases "pk_matches kid pk \<and> pk_reject alg pk = rejectNone")
    case True
    have "fst (provider_loop kid alg (pk # pks) out why) =
        (if Suc (length out) = maxKeyCandidates then out @ [the (pk_Key pk)]
         else fst (provider_loop kid alg pks (out @ [the (pk_Key pk)]) why))"
      unfolding provider_loop_Cons using True by (simp add: Let_def)
    also have "\<dots> = take maxKeyCandidates ((out @ [the (pk_Key pk)]) @ pk_good kid alg pks)"
    proof (cases "Suc (length out) = maxKeyCandidates")
      case True
      then have "maxKeyCandidates - length out = 1" by simp
      with True show ?thesis by simp
    next
      case False
      then show ?thesis using Cons.prems by (simp only: if_False) (intro Cons.IH, simp)
    qed
    finally show ?thesis using True by simp
  next
    case False
    then show ?thesis unfolding provider_loop_Cons using Cons.IH [OF Cons.prems] by auto
  qed
qed

lemma provider_loop_cause:
  "pk_good kid alg pks = [] \<Longrightarrow>
     snd (provider_loop kid alg pks out why) =
       (if why = rejectNone then first_cause (pk_reject alg) (filter (pk_matches kid) pks) else why)"
proof (induction pks arbitrary: why)
  case Nil
  then show ?case by simp
next
  case (Cons pk pks)
  from Cons.prems have "pk_good kid alg pks = []" "\<not> (pk_matches kid pk \<and> pk_reject alg pk = rejectNone)"
    by (simp_all split: if_splits)
  then show ?case unfolding provider_loop_Cons using Cons.IH by auto
qed

lemma providerCandidates_select:
  "providerCandidates pks kid alg =
     (case select_keys (pk_matches kid) (pk_reject alg) pks of (ks, why) \<Rightarrow> (map (\<lambda>pk. the (pk_Key pk)) ks, why))"
proof -
  have m: "fst (provider_loop kid alg pks [] rejectNone) = take maxKeyCandidates (pk_good kid alg pks)"
    using provider_loop_keys [of "[]"] by (simp add: maxKeyCandidates_def)
  show ?thesis
  proof (cases "pk_good kid alg pks = []")
    case True
    with m provider_loop_cause [OF True, of "[]" rejectNone] show ?thesis
      by (cases "provider_loop kid alg pks [] rejectNone")
         (simp add: providerCandidates_def select_keys_def Let_def pk_good_def)
  next
    case False
    then have "take maxKeyCandidates (pk_good kid alg pks) \<noteq> []" by (simp add: maxKeyCandidates_def)
    with m False show ?thesis
      by (cases "provider_loop kid alg pks [] rejectNone")
         (simp add: providerCandidates_def select_keys_def Let_def pk_good_def take_map)
  qed
qed


section \<open>Provider and JWKS agree\<close>

text \<open>The JWK that publishes a provider key.\<close>

definition as_jwk :: "PublicKey \<Rightarrow> jwk" where
  "as_jwk pk =
     \<lparr>jk_KeyID = (if pk_KeyID pk = [] then None else Some (pk_KeyID pk)), jk_KeyUsage = None, jk_KeyOps = None,
      jk_Algorithm = (if pk_Alg pk = [] then None else Some (pk_Alg pk)),
      jk_KeyType = (case pk_Key pk of Some (RSAKey _) \<Rightarrow> ''RSA'' | Some (ECKey _) \<Rightarrow> ''EC'' | _ \<Rightarrow> ''OKP''),
      jk_ExportRSA = (case pk_Key pk of Some (RSAKey r) \<Rightarrow> Inr r | _ \<Rightarrow> Inl ''not an RSA key''),
      jk_ExportEC = (case pk_Key pk of Some (ECKey e) \<Rightarrow> Inr e | _ \<Rightarrow> Inl ''not an EC key'')\<rparr>"

lemma keyEligible_as_jwk: "keyEligible (as_jwk pk) alg = pk_reject alg pk"
  by (auto simp: keyEligible_def as_jwk_def keyTypeMatchesAlg_def pk_reject_def providerKeyTypeMatchesAlg_def
      split: option.splits pubkey.splits)

lemma exportKey_as_jwk:
  assumes "pk_reject alg pk = rejectNone"
  shows "exportKey (as_jwk pk) alg = Inr (the (pk_Key pk))"
proof -
  obtain k where "pk_Key pk = Some k" "key_fits alg k" using pk_reject_none [OF assms] by blast
  then show ?thesis using rsa_ec_disjoint [of alg] by (cases k) (auto simp: exportKey_def as_jwk_def key_fits_def)
qed

lemma exportCandidates_map:
  "(\<And>k. k \<in> set ks \<Longrightarrow> exportKey (f k) alg = Inr (g k)) \<Longrightarrow> exportCandidates (map f ks) alg = Inr (map g ks)"
  by (induction ks) auto

lemma first_cause_map: "first_cause f (map g xs) = first_cause (\<lambda>x. f (g x)) xs"
  by (induction xs) auto

lemma select_keys_map:
  "select_keys m f (map g xs) = (case select_keys (\<lambda>x. m (g x)) (\<lambda>x. f (g x)) xs of (ks, why) \<Rightarrow> (map g ks, why))"
  by (simp add: select_keys_def Let_def filter_map o_def first_cause_map take_map)

lemma select_keys_good: "k \<in> set (fst (select_keys m f xs)) \<Longrightarrow> f k = rejectNone \<and> m k"
  by (auto simp: select_keys_def Let_def dest!: in_set_takeD)

lemma select_keys_cong: "(\<And>x. x \<in> set xs \<Longrightarrow> m x = m' x) \<Longrightarrow> select_keys m f xs = select_keys m' f xs"
  by (simp add: select_keys_def cong: filter_cong)

lemma present_map_Some [simp]: "present (map (\<lambda>x. Some (g x)) xs) = map g xs"
  by (induction xs) (simp_all add: present_def)

text \<open>
  One policy for both key sources. Whether keys come from the in-process provider or are published as a JWKS, the same ones are handed to the signature check, in the same
  order and under the same limit of eight, and if none is usable the same cause is reported; keys without an ID, which the provider offers to every token, are set apart.
\<close>
theorem provider_jwks_agree:
  assumes "kid = [] \<or> (\<forall>pk\<in>set pks. pk_KeyID pk \<noteq> [])"
    and "candidateKeys (map (\<lambda>pk. Some (as_jwk pk)) pks) kid alg = (ks, why)"
    and "providerCandidates pks kid alg = (keys, why')"
  shows "exportCandidates ks alg = Inr keys \<and> why' = why"
proof -
  obtain sel c where sel: "select_keys (pk_matches kid) (pk_reject alg) pks = (sel, c)" by fastforce
  have "select_keys (\<lambda>pk. jwk_matches kid (as_jwk pk)) (pk_reject alg) pks = select_keys (pk_matches kid) (pk_reject alg) pks"
    using assms(1) by (intro select_keys_cong) (auto simp: as_jwk_def)
  then have k: "ks = map as_jwk sel" "why = c"
    using assms(2) sel by (simp_all add: candidateKeys_select select_keys_map keyEligible_as_jwk)
  have p: "keys = map (\<lambda>pk. the (pk_Key pk)) sel" "why' = c"
    using assms(3) sel by (simp_all add: providerCandidates_select)
  have "pk_reject alg pk = rejectNone" if "pk \<in> set sel" for pk
    using select_keys_good [of pk "pk_matches kid" "pk_reject alg" pks] sel that by simp
  then show ?thesis unfolding k p by (simp add: exportCandidates_map exportKey_as_jwk)
qed

definition sample_pk :: PublicKey where
  "sample_pk = \<lparr>pk_KeyID = ''k1'', pk_Alg = [], pk_Key = Some (ECKey \<lparr>ec_Curve = Some (Some ''P-256'')\<rparr>)\<rparr>"

theorem provider_jwks_agree_witness:
  "exportCandidates (fst (candidateKeys [Some (as_jwk sample_pk)] ''k1'' ''ES256'')) ''ES256''
     = Inr (fst (providerCandidates [sample_pk] ''k1'' ''ES256''))
   \<and> providerCandidates [sample_pk] ''k1'' ''ES256'' = ([ECKey \<lparr>ec_Curve = Some (Some ''P-256'')\<rparr>], rejectNone)"
proof -
  have "providerCandidates [sample_pk] ''k1'' ''ES256'' = ([ECKey \<lparr>ec_Curve = Some (Some ''P-256'')\<rparr>], rejectNone)"
    by (simp add: providerCandidates_def sample_pk_def providerKeyTypeMatchesAlg_def curveMatchesAlg_def maxKeyCandidates_def)
  moreover obtain ks why where "candidateKeys (map (\<lambda>pk. Some (as_jwk pk)) [sample_pk]) ''k1'' ''ES256'' = (ks, why)" by fastforce
  ultimately show ?thesis
    using provider_jwks_agree [of "''k1''" "[sample_pk]" "''ES256''"] by (simp add: sample_pk_def)
qed

section \<open>Keys handed to the signature check\<close>

lemma candidateKeys_bounds:
  "candidateKeys ks kid alg = (keys, why) \<Longrightarrow>
     length keys \<le> maxKeyCandidates \<and> (\<forall>k\<in>set keys. keyEligible k alg = rejectNone)"
proof -
  assume "candidateKeys ks kid alg = (keys, why)"
  then have k: "keys = fst (select_keys (jwk_matches kid) (\<lambda>k. keyEligible k alg) (present ks))"
    unfolding candidateKeys_select by simp
  then have "length keys \<le> maxKeyCandidates" by (simp add: select_keys_def Let_def)
  moreover have "keyEligible x alg = rejectNone" if "x \<in> set keys" for x
    by (rule select_keys_good [OF that [unfolded k], THEN conjunct1])
  ultimately show ?thesis by blast
qed

lemma lookupCandidates_ok:
  assumes "lookupCandidates env kid alg s = (Inr keys, s')"
  shows "length keys \<le> maxKeyCandidates \<and> (\<forall>k\<in>set keys. keyEligible k alg = rejectNone)"
proof -
  obtain ks why where "candidateKeys ks kid alg = (keys, why)"
    using assms by (auto simp: lookupCandidates_def split: prod.splits sum.splits if_splits)
  then show ?thesis by (rule candidateKeys_bounds)
qed

lemma recover_kid_ok:
  assumes "recover_kid env kid alg s = (Inr keys, s')"
  shows "\<exists>s1 s2. lookupCandidates env kid alg s1 = (Inr keys, s2) \<and> keys \<noteq> []"
proof -
  obtain b s1 where k: "knownBadKID env kid s = (b, s1)" by (metis prod.exhaust)
  obtain refreshed err s2 where r: "refreshOnce env s1 = ((refreshed, err), s2)" by (metis prod.exhaust)
  obtain res s3 where l: "lookupCandidates env kid alg s2 = (res, s3)" by (metis prod.exhaust)
  have "res = Inr keys" "keys \<noteq> []"
    using assms by (auto simp: recover_kid_def k r l split: bool.splits option.splits sum.splits if_splits)
  with l show ?thesis by blast
qed

lemma exportCandidates_ok:
  "exportCandidates ks alg = Inr keys \<Longrightarrow> (\<forall>k\<in>set ks. keyEligible k alg = rejectNone) \<Longrightarrow>
     length keys = length ks \<and> (\<forall>k\<in>set keys. key_fits alg k)"
proof (induction ks arbitrary: keys)
  case Nil
  then show ?case by simp
next
  case (Cons k ks)
  obtain x where "exportKey k alg = Inr x" "key_fits alg x" using keyEligible_fits [of k alg] Cons.prems(2) by auto
  with Cons show ?case by (auto simp: res_dest)
qed

definition usable_keys :: "string \<Rightarrow> string \<Rightarrow> pubkey list \<Rightarrow> bool" where
  "usable_keys kid alg keys \<longleftrightarrow>
     length keys \<le> maxKeyCandidates \<and> (\<forall>k\<in>set keys. key_fits alg k) \<and> (keys = [] \<longrightarrow> kid = [])"

lemma jwks_keys_usable:
  assumes "jwks_keys env kid alg s = (Inr keys, s')"
  shows "usable_keys kid alg keys"
proof -
  obtain ks s1 s2 where l: "lookupCandidates env kid alg s1 = (Inr ks, s2)" and e: "exportCandidates ks alg = Inr keys"
    and n: "ks = [] \<longrightarrow> kid = []"
    using assms
    by (auto simp: jwks_keys_def split: prod.splits bool.splits sum.splits if_splits dest!: recover_kid_ok)
  from lookupCandidates_ok [OF l] exportCandidates_ok [OF e] n show ?thesis by (auto simp: usable_keys_def)
qed

lemma provider_usable:
  assumes "providerKeySet publicKeys kid alg s = (Inr (Some keys), s')"
  shows "usable_keys kid alg keys"
proof -
  obtain pks why where p: "providerCandidates pks kid alg = (keys, why)" "keys \<noteq> []"
    using assms by (auto simp: providerKeySet_def keysFromProvider_def split: prod.splits sum.splits if_splits)
  have "key_fits alg k" if k: "k \<in> set keys" for k
  proof -
    obtain pk where "pk \<in> set (fst (select_keys (pk_matches kid) (pk_reject alg) pks))" "k = the (pk_Key pk)"
      using p(1) k by (auto simp: providerCandidates_select split: prod.splits)
    then show ?thesis using select_keys_good pk_reject_none by fastforce
  qed
  moreover have "length keys \<le> maxKeyCandidates"
    using p(1) by (auto simp: providerCandidates_select select_keys_def Let_def)
  ultimately show ?thesis using p(2) by (simp add: usable_keys_def)
qed

lemma verificationKeys_usable:
  assumes "verificationKeys env kid alg s = (Inr keys, s')"
  shows "usable_keys kid alg keys"
  using assms
  by (auto simp: verificationKeys_def split: option.splits prod.splits sum.splits dest: jwks_keys_usable provider_usable)

end
