(* ===== verification/Authn_Refresh.thy ===== *)
theory Authn_Refresh
  imports Authn_Keys
begin

text \<open>
  Runs of the key lookup (\<open>verificationKeys\<close> of \<open>authn/validate.go\<close>) over time: an invariant kept by every operation gives the bound on the
  requests sent to the issuer and on the negative cache, and the exact effect of recording an unknown key ID.
\<close>

section \<open>Runs of the validator\<close>

text \<open>What the environment promises: \<open>clk\<close> reads the clock without advancing it, \<open>fetches\<close> counts the JWKS requests sent so far.\<close>

definition clock_laws :: "'w jwks_env \<Rightarrow> ('w \<Rightarrow> int) \<Rightarrow> ('w \<Rightarrow> nat) \<Rightarrow> bool" where
  "clock_laws env clk fetches \<longleftrightarrow>
     (\<forall>w t w'. env_Now env w = (t, w') \<longrightarrow> clk w \<le> t \<and> t \<le> clk w' \<and> fetches w' = fetches w)
     \<and> (\<forall>w r w'. env_Lookup env w = (r, w') \<longrightarrow> clk w \<le> clk w' \<and> fetches w' = fetches w)
     \<and> (\<forall>w r w'. env_Refresh env w = (r, w') \<longrightarrow> clk w \<le> clk w' \<and> fetches w' = Suc (fetches w))"

definition quiet_provider :: "('w \<Rightarrow> int) \<Rightarrow> ('w \<Rightarrow> nat) \<Rightarrow> 'w provider option \<Rightarrow> bool" where
  "quiet_provider clk fetches p \<longleftrightarrow>
     (case p of None \<Rightarrow> True
      | Some f \<Rightarrow> \<forall>w r w'. f w = (r, w') \<longrightarrow> clk w \<le> clk w' \<and> fetches w' = fetches w)"

text \<open>Calls of the keyfunc for any kid and algorithm, with time passing in between.\<close>

inductive key_step :: "'w jwks_env \<Rightarrow> ('w \<Rightarrow> int) \<Rightarrow> ('w \<Rightarrow> nat) \<Rightarrow> 'w vstate \<Rightarrow> 'w vstate \<Rightarrow> bool"
  for env clk fetches where
  call: "verificationKeys env kid alg s = (r, s') \<Longrightarrow> key_step env clk fetches s s'"
| idle: "clk w \<le> clk w' \<Longrightarrow> fetches w' = fetches w \<Longrightarrow> key_step env clk fetches (v, w) (v, w')"

definition cache_ok :: "(string \<times> int) list \<Rightarrow> bool" where
  "cache_ok m \<longleftrightarrow> distinct (map fst m) \<and> length m \<le> negativeCacheMaxEntries \<and> [] \<notin> fst ` set m"

definition key_inv :: "('w \<Rightarrow> int) \<Rightarrow> ('w \<Rightarrow> nat) \<Rightarrow> int \<Rightarrow> nat \<Rightarrow> 'w vstate \<Rightarrow> bool" where
  "key_inv clk fetches c0 n0 s \<longleftrightarrow>
     (case s of (v, w) \<Rightarrow>
        quiet_provider clk fetches (cfg_KeyProvider (v_cfg v))
        \<and> cache_ok (v_negativeKids v)
        \<and> c0 \<le> clk w \<and> n0 \<le> fetches w
        \<and> (n0 < fetches w \<longrightarrow>
             c0 + (int (fetches w - n0) - 1) * refreshFloor \<le> v_lastRefresh v \<and> v_lastRefresh v \<le> clk w))"

lemma oldest_in: "oldest m best = best \<or> oldest m best \<in> set m"
  by (induction m best rule: oldest.induct) auto

lemma oldest_le:
  assumes "[] \<notin> fst ` set m" and "fst best \<noteq> []"
  shows "snd (oldest m best) \<le> snd best \<and> (\<forall>(k, e)\<in>set m. snd (oldest m best) \<le> e)"
  using assms
proof (induction m best rule: oldest.induct)
  case (1 best)
  then show ?case by simp
next
  case (2 k e m best)
  then show ?case by (cases "e < snd best") (fastforce split: if_splits)+
qed

lemma oldest_minimal:
  assumes "m \<noteq> []" and "[] \<notin> fst ` set m"
  shows "oldest m ([], 0) \<in> set m \<and> (\<forall>(k, e)\<in>set m. snd (oldest m ([], 0)) \<le> e)"
proof -
  obtain k e m' where m: "m = (k, e) # m'" using assms(1) by (cases m) auto
  then show ?thesis using assms(2) oldest_in [of m' "(k, e)"] oldest_le [of m' "(k, e)"] by auto
qed

lemma length_update: "length (AList.update k v m) = (if k \<in> fst ` set m then length m else Suc (length m))"
  by (induction m) auto

lemma length_delete_distinct:
  "distinct (map fst m) \<Longrightarrow> k \<in> fst ` set m \<Longrightarrow> Suc (length (AList.delete k m)) = length m"
proof (induction m)
  case Nil
  then show ?case by simp
next
  case (Cons x m)
  then show ?case by (cases "fst x = k") (auto simp: delete_id)
qed

definition evicted :: "(string \<times> int) list \<Rightarrow> (string \<times> int) list" where
  "evicted m = (if length m \<ge> negativeCacheMaxEntries then AList.delete (fst (oldest m ([], 0))) m else m)"

lemma evicted_ok:
  assumes "cache_ok m"
  shows "cache_ok (evicted m) \<and> length (evicted m) < negativeCacheMaxEntries"
proof (cases "length m \<ge> negativeCacheMaxEntries")
  case True
  then have "m \<noteq> []" by (auto simp: negativeCacheMaxEntries_def)
  then have "fst (oldest m ([], 0)) \<in> fst ` set m" using oldest_minimal [of m] assms by (auto simp: cache_ok_def)
  then have "Suc (length (evicted m)) = length m"
    using length_delete_distinct [of m "fst (oldest m ([], 0))"] assms True by (simp add: evicted_def cache_ok_def)
  then show ?thesis
    using assms True distinct_delete [of m] by (auto simp: cache_ok_def evicted_def AList.delete_eq)
next
  case False
  with assms show ?thesis by (simp add: evicted_def)
qed

lemma recordBadKID_evicted:
  "recordBadKID env kid (v, w) =
     (case env_Now env w of (now, w') \<Rightarrow>
        (v\<lparr>v_negativeKids := AList.update kid (now + negativeCacheTTL) (evicted (v_negativeKids v))\<rparr>, w'))"
  by (simp add: recordBadKID_def evicted_def Let_def)

lemma recordBadKID_cache:
  assumes "cache_ok m" and "kid \<noteq> []"
  shows "cache_ok (AList.update kid e (evicted m))"
proof -
  have "cache_ok (evicted m)" "length (evicted m) < negativeCacheMaxEntries" using evicted_ok [OF assms(1)] by simp_all
  then show ?thesis using assms(2) distinct_update [of "evicted m" kid e]
    by (simp add: cache_ok_def length_update dom_update)
qed


text \<open>An operation is quiet if it sends no request: it keeps the configuration, the cache and the time of the last refresh.\<close>

definition quiet_op :: "('w \<Rightarrow> int) \<Rightarrow> ('w \<Rightarrow> nat) \<Rightarrow> 'w vstate \<Rightarrow> 'w vstate \<Rightarrow> bool" where
  "quiet_op clk fetches s s' \<longleftrightarrow> fst s' = fst s \<and> clk (snd s) \<le> clk (snd s') \<and> fetches (snd s') = fetches (snd s)"

lemma quiet_inv: "quiet_op clk fetches s s' \<Longrightarrow> key_inv clk fetches c0 n0 s \<Longrightarrow> key_inv clk fetches c0 n0 s'"
  by (cases s; cases s') (auto simp: quiet_op_def key_inv_def)

lemma go_Sub_ge: "refreshFloor \<le> go_Sub t u \<Longrightarrow> u + refreshFloor \<le> t"
  by (auto simp: go_Sub_def refreshFloor_def max_int64_def split: if_splits)

lemma now_law: "clock_laws env clk fetches \<Longrightarrow> env_Now env w = (t, w') \<Longrightarrow> clk w \<le> t \<and> t \<le> clk w' \<and> fetches w' = fetches w"
  and lookup_law: "clock_laws env clk fetches \<Longrightarrow> env_Lookup env w = (r, w') \<Longrightarrow> clk w \<le> clk w' \<and> fetches w' = fetches w"
  and refresh_law: "clock_laws env clk fetches \<Longrightarrow> env_Refresh env w = (r', w') \<Longrightarrow> clk w \<le> clk w' \<and> fetches w' = Suc (fetches w)"
  unfolding clock_laws_def by blast+

lemma knownBadKID_quiet:
  assumes "clock_laws env clk fetches" and "knownBadKID env kid s = (b, s')"
  shows "quiet_op clk fetches s s'"
  using assms(2) by (cases s) (auto simp: knownBadKID_def quiet_op_def split: option.splits prod.splits dest!: now_law [OF assms(1)])

lemma staleness_quiet:
  assumes "clock_laws env clk fetches" and "staleness env s = (d, s')"
  shows "quiet_op clk fetches s s'"
  using assms(2) by (cases s) (auto simp: staleness_def quiet_op_def split: prod.splits dest!: now_law [OF assms(1)])

lemma lookupCandidates_quiet:
  assumes "clock_laws env clk fetches" and "lookupCandidates env kid alg s = (r, s')"
  shows "quiet_op clk fetches s s'"
proof -
  obtain v w where s: "s = (v, w)" by (cases s)
  obtain res w' where l: "env_Lookup env w = (res, w')" by fastforce
  have "s' = (v, w')" using assms(2) by (simp add: lookupCandidates_def s l)
  with lookup_law [OF assms(1) l] show ?thesis by (simp add: quiet_op_def s)
qed

lemma providerKeySet_quiet:
  assumes "quiet_provider clk fetches (Some p)" and "providerKeySet p kid alg s = (r, s')"
  shows "quiet_op clk fetches s s'"
proof -
  obtain v w where s: "s = (v, w)" by (cases s)
  obtain res w' where p: "p w = (res, w')" by fastforce
  have "s' = (v, w')"
    using assms(2) by (auto simp: providerKeySet_def keysFromProvider_def s p split: sum.splits prod.splits)
  with assms(1) p show ?thesis by (simp add: quiet_op_def quiet_provider_def s)
qed

lemma recordBadKID_inv:
  assumes "clock_laws env clk fetches" and "key_inv clk fetches c0 n0 s" and "kid \<noteq> []"
  shows "key_inv clk fetches c0 n0 (recordBadKID env kid s)"
proof -
  obtain v w where s: "s = (v, w)" by (cases s)
  obtain t w' where n: "env_Now env w = (t, w')" by fastforce
  show ?thesis
    using now_law [OF assms(1) n] assms(2) recordBadKID_cache [OF _ assms(3), of "v_negativeKids v" "t + negativeCacheTTL"]
    by (auto simp: s recordBadKID_evicted n key_inv_def)
qed

lemma refreshOnce_inv:
  assumes "clock_laws env clk fetches" and "key_inv clk fetches c0 n0 s" and "refreshOnce env s = (r, s')"
  shows "key_inv clk fetches c0 n0 s'"
proof -
  obtain v w where s: "s = (v, w)" by (cases s)
  obtain t w1 where n: "env_Now env w = (t, w1)" by fastforce
  note l1 = now_law [OF assms(1) n]
  show ?thesis
  proof (cases "go_Sub t (v_lastRefresh v) < refreshFloor")
    case True
    then have "s' = (v, w1)" using assms(3) by (simp add: refreshOnce_def s n)
    with l1 assms(2) show ?thesis by (auto simp: s key_inv_def)
  next
    case False
    then have old: "v_lastRefresh v + refreshFloor \<le> t" by (intro go_Sub_ge) simp
    obtain res w2 where f: "env_Refresh env w1 = (res, w2)" by fastforce
    obtain t' w3 where n': "env_Now env w2 = (t', w3)" by fastforce
    note l2 = refresh_law [OF assms(1) f] and l3 = now_law [OF assms(1) n']
    obtain v' where s': "s' = (v', w3)" "v_lastRefresh v' = t'" "v_cfg v' = v_cfg v" "v_negativeKids v' = v_negativeKids v"
      using assms(3) False by (cases res) (auto simp: refreshOnce_def s n f n')
    have "c0 + (int (fetches w3 - n0) - 1) * refreshFloor \<le> t'"
    proof (cases "n0 < fetches w")
      case True
      then have "c0 + (int (fetches w - n0) - 1) * refreshFloor + refreshFloor \<le> t"
        using assms(2) old by (simp add: s key_inv_def)
      moreover have "fetches w3 - n0 = Suc (fetches w - n0)" using l1 l2 l3 True by simp
      ultimately show ?thesis using l2 l3 l1 by (simp add: algebra_simps)
    next
      case False
      then have "fetches w3 - n0 = 1" using l1 l2 l3 assms(2) by (simp add: s key_inv_def)
      then show ?thesis using l1 l2 l3 assms(2) by (simp add: s key_inv_def)
    qed
    with l1 l2 l3 s' assms(2) show ?thesis by (auto simp: s key_inv_def)
  qed
qed


lemma recover_kid_inv:
  assumes "clock_laws env clk fetches" and "key_inv clk fetches c0 n0 s" and "kid \<noteq> []" and "recover_kid env kid alg s = (r, s')"
  shows "key_inv clk fetches c0 n0 s'"
proof -
  obtain b s1 where k: "knownBadKID env kid s = (b, s1)" by (metis prod.exhaust)
  note i1 = quiet_inv [OF knownBadKID_quiet [OF assms(1) k] assms(2)]
  obtain refreshed err s2 where f: "refreshOnce env s1 = ((refreshed, err), s2)" by (metis prod.exhaust)
  note i2 = refreshOnce_inv [OF assms(1) i1 f]
  obtain res s3 where l: "lookupCandidates env kid alg s2 = (res, s3)" by (metis prod.exhaust)
  note i3 = quiet_inv [OF lookupCandidates_quiet [OF assms(1) l] i2]
  note i4 = recordBadKID_inv [OF assms(1) i3 assms(3)]
  have "s' \<in> {s1, s2, s3, recordBadKID env kid s3}"
    using assms(4) by (auto simp: recover_kid_def k f l split: bool.splits option.splits sum.splits if_splits)
  with i1 i2 i3 i4 show ?thesis by auto
qed

lemma jwksFresh_inv:
  assumes "clock_laws env clk fetches" and "key_inv clk fetches c0 n0 s" and "jwksFresh env s = (b, s')"
  shows "key_inv clk fetches c0 n0 s'"
proof -
  obtain d s1 where d: "staleness env s = (d, s1)" by (metis prod.exhaust)
  note i1 = quiet_inv [OF staleness_quiet [OF assms(1) d] assms(2)]
  obtain x err s2 where f: "refreshOnce env s1 = ((x, err), s2)" by (metis prod.exhaust)
  note i2 = refreshOnce_inv [OF assms(1) i1 f]
  obtain d' s3 where d': "staleness env s2 = (d', s3)" by (metis prod.exhaust)
  note i3 = quiet_inv [OF staleness_quiet [OF assms(1) d'] i2]
  have "s' \<in> {s, s1, s2, s3}"
    using assms(3) by (auto simp: jwksFresh_def d f d' Let_def split: if_splits)
  with assms(2) i1 i2 i3 show ?thesis by auto
qed

lemma jwks_keys_inv:
  assumes "clock_laws env clk fetches" and "key_inv clk fetches c0 n0 s" and "jwks_keys env kid alg s = (r, s')"
  shows "key_inv clk fetches c0 n0 s'"
proof -
  obtain b s1 where f: "jwksFresh env s = (b, s1)" by (metis prod.exhaust)
  note i1 = jwksFresh_inv [OF assms(1,2) f]
  obtain res s2 where l: "lookupCandidates env kid alg s1 = (res, s2)" by (metis prod.exhaust)
  note i2 = quiet_inv [OF lookupCandidates_quiet [OF assms(1) l] i1]
  obtain res' s3 where k: "recover_kid env kid alg s2 = (res', s3)" by (metis prod.exhaust)
  have i3: "kid \<noteq> [] \<Longrightarrow> key_inv clk fetches c0 n0 s3" using recover_kid_inv [OF assms(1) i2 _ k] .
  have "s' \<in> {s1, s2} \<or> kid \<noteq> [] \<and> s' = s3"
    using assms(3) by (auto simp: jwks_keys_def f l k split: bool.splits sum.splits if_splits prod.splits)
  with i1 i2 i3 show ?thesis by auto
qed

lemma verificationKeys_inv:
  assumes "clock_laws env clk fetches" and "key_inv clk fetches c0 n0 s" and "verificationKeys env kid alg s = (r, s')"
  shows "key_inv clk fetches c0 n0 s'"
proof (cases "cfg_KeyProvider (v_cfg (fst s))")
  case None
  then show ?thesis using assms by (auto simp: verificationKeys_def intro: jwks_keys_inv)
next
  case (Some p)
  obtain res s1 where q: "providerKeySet p kid alg s = (res, s1)" by (metis prod.exhaust)
  have "quiet_provider clk fetches (Some p)" using assms(2) Some by (auto simp: key_inv_def split: prod.splits)
  then have i1: "key_inv clk fetches c0 n0 s1" using quiet_inv [OF providerKeySet_quiet [OF _ q] assms(2)] by blast
  obtain r2 s2 where j: "jwks_keys env kid alg s1 = (r2, s2)" by (metis prod.exhaust)
  have "s' = s1 \<or> s' = s2"
    using assms(3) by (auto simp: verificationKeys_def Some q j split: sum.splits option.splits)
  with i1 jwks_keys_inv [OF assms(1) i1 j] show ?thesis by auto
qed

lemma key_run_inv:
  assumes "clock_laws env clk fetches" and "(key_step env clk fetches)\<^sup>*\<^sup>* s s'" and "key_inv clk fetches c0 n0 s"
  shows "key_inv clk fetches c0 n0 s'"
  using assms(2,3)
proof (induction rule: rtranclp_induct)
  case base
  then show ?case by simp
next
  case (step y z)
  note i = step.IH [OF step.prems]
  from step.hyps(2) show ?case
  proof cases
    case (call kid alg r)
    then show ?thesis using verificationKeys_inv [OF assms(1) i] by blast
  next
    case (idle w w' v)
    then show ?thesis using quiet_inv [OF _ i, of z] by (simp add: quiet_op_def)
  qed
qed

text \<open>
  C9. Tokens cannot drive the validator into flooding its issuer or its memory. Over any run of key lookups, for kids and algorithms chosen by an attacker and any behaviour of the
  issuer, at most one key request per second is sent (plus one), and the cache of unknown kids never exceeds 128 entries.
\<close>
theorem refresh_rate_bounded:
  assumes "clock_laws env clk fetches" and "(key_step env clk fetches)\<^sup>*\<^sup>* (v, w) (v', w')"
    and "quiet_provider clk fetches (cfg_KeyProvider (v_cfg v))" and "v_negativeKids v = []"
  shows "int (fetches w' - fetches w) \<le> 1 + (clk w' - clk w) div second
    \<and> length (v_negativeKids v') \<le> 128"
proof -
  have "key_inv clk fetches (clk w) (fetches w) (v, w)"
    using assms(3,4) by (simp add: key_inv_def cache_ok_def)
  from key_run_inv [OF assms(1,2) this]
  have i: "cache_ok (v_negativeKids v')" "clk w \<le> clk w'"
    "fetches w < fetches w' \<Longrightarrow> clk w + (int (fetches w' - fetches w) - 1) * second \<le> clk w'"
    by (auto simp: key_inv_def refreshFloor_def)
  have "int (fetches w' - fetches w) \<le> 1 + (clk w' - clk w) div second"
  proof (cases "fetches w < fetches w'")
    case True
    then have "(int (fetches w' - fetches w) - 1) * second \<le> clk w' - clk w" using i(3) by simp
    then have "(int (fetches w' - fetches w) - 1) * second div second \<le> (clk w' - clk w) div second"
      by (intro zdiv_mono1) simp_all
    then show ?thesis by simp
  next
    case False
    have "0 \<le> (clk w' - clk w) div second" using i(2) by (simp add: pos_imp_zdiv_nonneg_iff)
    with False show ?thesis by simp
  qed
  with i(1) show ?thesis by (simp add: cache_ok_def negativeCacheMaxEntries_def)
qed


text \<open>A sample environment: the world is the time and the number of requests; the issuer publishes nothing.\<close>

definition sample_env :: "(int \<times> nat) jwks_env" where
  "sample_env =
     \<lparr>env_Now = (\<lambda>w. (fst w, w)), env_Lookup = (\<lambda>w. (Inr [], w)), env_Refresh = (\<lambda>(t, n). (Inr (), (t, Suc n)))\<rparr>"

definition sample_validator :: "(int \<times> nat) Validator" where
  "sample_validator =
     \<lparr>v_cfg = \<lparr>cfg_Issuer = ''https://i'', cfg_Audiences = [''api''], cfg_AllowAnyAudience = False, cfg_JWKSURL = [],
        cfg_Leeway = defaultLeeway, cfg_DisableLeeway = False, cfg_MaxJWKSStaleness = 0, cfg_AcceptedTokenTypes = [],
        cfg_MaxTokenLifetime = 0, cfg_HTTPClient = None, cfg_InsecureAllowHTTP = False, cfg_AllowPrivateIP = False,
        cfg_CACertPath = [], cfg_AuthTokenFile = [], cfg_KeyProvider = None\<rparr>,
      v_jwksCache = True, v_jwksURL = ''https://i/k'', v_closed = False, v_lastRefresh = 0, v_lastSuccess = 0,
      v_negativeKids = []\<rparr>"

lemma sample_clock: "clock_laws sample_env fst snd"
  by (auto simp: clock_laws_def sample_env_def)

theorem refresh_rate_bounded_witness:
  "\<exists>v' w'. (key_step sample_env fst snd)\<^sup>*\<^sup>* (sample_validator, (5 * second, 0)) (v', w')
     \<and> snd w' = 1 \<and> length (v_negativeKids v') = 1
     \<and> int (snd w' - 0) \<le> 1 + (fst w' - 5 * second) div second"
proof -
  let ?s = "(sample_validator, (5 * second, 0 :: nat))"
  obtain r v' w' where c: "verificationKeys sample_env ''x'' ''RS256'' ?s = (r, (v', w'))" by (metis prod.exhaust)
  have "snd w' = 1 \<and> length (v_negativeKids v') = 1"
    using c by (auto simp: verificationKeys_def sample_validator_def jwks_keys_def jwksFresh_def lookupCandidates_def sample_env_def
        candidateKeys_def recover_kid_def knownBadKID_def refreshOnce_def go_Sub_def refreshFloor_def max_int64_def recordBadKID_def
        negativeCacheMaxEntries_def Let_def)
  moreover have run: "(key_step sample_env fst snd)\<^sup>*\<^sup>* ?s (v', w')" using key_step.call [OF c] by blast
  moreover have "int (snd w' - 0) \<le> 1 + (fst w' - 5 * second) div second"
    using refresh_rate_bounded [OF sample_clock run] by (simp add: sample_validator_def quiet_provider_def)
  ultimately show ?thesis by blast
qed

text \<open>
  The negative cache of key IDs. Recording a kid marks it as bad for exactly thirty seconds; every other entry is kept, except that a full cache drops one entry, and that entry has the earliest
  expiry of all.
\<close>
theorem negative_cache_correct:
  assumes "cache_ok (v_negativeKids v)" and "env_Now env w = (t, w')" and "recordBadKID env kid (v, w) = (v', w'')"
  shows "w'' = w' \<and> map_of (v_negativeKids v') kid = Some (t + 30 * second)
    \<and> (\<forall>u. env_Now env u = (t1, u') \<longrightarrow> fst (knownBadKID env kid (v', u)) = (t1 < t + 30 * second))
    \<and> (\<forall>k e. k \<noteq> kid \<and> map_of (v_negativeKids v) k = Some e \<longrightarrow>
          map_of (v_negativeKids v') k = Some e
          \<or> length (v_negativeKids v) = 128 \<and> map_of (v_negativeKids v') k = None
             \<and> (\<forall>(k', e')\<in>set (v_negativeKids v). e \<le> e'))"
proof -
  let ?m = "v_negativeKids v"
  have v': "v_negativeKids v' = AList.update kid (t + negativeCacheTTL) (evicted ?m)" "w'' = w'"
    using assms(3) by (auto simp: recordBadKID_evicted assms(2))
  have bad: "map_of (v_negativeKids v') kid = Some (t + 30 * second)"
    by (simp add: v' update_conv' negativeCacheTTL_def)
  have keep: "map_of (v_negativeKids v') k = Some e
      \<or> length ?m = 128 \<and> map_of (v_negativeKids v') k = None \<and> (\<forall>(k', e')\<in>set ?m. e \<le> e')"
    if k: "k \<noteq> kid" "map_of ?m k = Some e" for k e
  proof (cases "evicted ?m = ?m \<or> k \<noteq> fst (oldest ?m ([], 0))")
    case True
    then have "map_of (evicted ?m) k = Some e" using k
      by (cases "evicted ?m = ?m") (simp, simp add: evicted_def delete_conv')
    then show ?thesis using k(1) by (simp add: v' update_conv')
  next
    case False
    then have full: "length ?m \<ge> negativeCacheMaxEntries" by (auto simp: evicted_def split: if_split_asm)
    have "?m \<noteq> []" using k(2) by auto
    with oldest_minimal [of ?m] assms(1) have old: "oldest ?m ([], 0) \<in> set ?m" "\<forall>(k', e')\<in>set ?m. snd (oldest ?m ([], 0)) \<le> e'"
      by (auto simp: cache_ok_def)
    have "map_of ?m (fst (oldest ?m ([], 0))) = Some (snd (oldest ?m ([], 0)))"
      using old(1) assms(1) by (simp add: cache_ok_def)
    then have "e = snd (oldest ?m ([], 0))" using False k(2) by simp
    moreover have "map_of (v_negativeKids v') k = None"
      using False full k(1) by (simp add: v' update_conv' evicted_def delete_conv')
    moreover have "length ?m = 128" using full assms(1) by (simp add: cache_ok_def negativeCacheMaxEntries_def)
    ultimately show ?thesis using old(2) by simp
  qed
  from v'(2) bad keep show ?thesis by (auto simp: knownBadKID_def)
qed

theorem negative_cache_correct_witness:
  "map_of (v_negativeKids (fst (recordBadKID sample_env ''x'' (sample_validator, (7, 0))))) ''x'' = Some (7 + 30 * second)"
proof -
  obtain v' w'' where r: "recordBadKID sample_env ''x'' (sample_validator, (7, 0)) = (v', w'')" by (metis prod.exhaust)
  have "cache_ok (v_negativeKids sample_validator)" "env_Now sample_env (7, 0) = (7, (7, 0))"
    by (simp_all add: cache_ok_def sample_validator_def sample_env_def)
  from negative_cache_correct [OF this r] r show ?thesis by simp
qed

end
