(* ===== verification/Authn_Validate.thy ===== *)
theory Authn_Validate
  imports Authn_Keys
begin

text \<open>
  Token validation (\<open>Validate\<close> of \<open>authn/validate.go\<close>): the fixed order of its checks, the parser options and the keyfunc.

  golang-jwt's parser is a parameter \<open>parse\<close> that calls the keyfunc it is given; the state it threads is the validator, the world and the flag
  \<open>kidSeen\<close> the keyfunc captures. \<open>jwt_laws\<close> states what the library documents of it. \<open>getExp\<close> and \<open>getSub\<close> are the library's claim accessors.
\<close>

section \<open>Parser options and the keyfunc\<close>

record parser_options =
  po_ValidMethods :: "string list"
  po_StrictDecoding :: bool
  po_ExpirationRequired :: bool
  po_IssuedAt :: bool
  po_Leeway :: int
  po_Issuer :: "string option"
  po_Audience :: "string list option"

definition parserOptions :: "'kp Config \<Rightarrow> parser_options" where
  "parserOptions cfg =
     \<lparr>po_ValidMethods = allowedAlgs, po_StrictDecoding = True, po_ExpirationRequired = True, po_IssuedAt = True,
      po_Leeway = (if cfg_DisableLeeway cfg then 0 else cfg_Leeway cfg),
      po_Issuer = (if cfg_Issuer cfg \<noteq> [] then Some (cfg_Issuer cfg) else None),
      po_Audience = (if length (cfg_Audiences cfg) > 0 then Some (cfg_Audiences cfg) else None)\<rparr>"

record jwtTok =
  tk_Header :: claims
  tk_alg :: string

type_synonym 'w pstate = "'w vstate \<times> bool"

definition header_kid :: "claims \<Rightarrow> string" where
  "header_kid header = (case header ''kid'' of Some (VString k) \<Rightarrow> k | _ \<Rightarrow> [])"

definition crit_shape :: "cval \<Rightarrow> string" where
  "crit_shape c = (case c of VList es \<Rightarrow> show_nat (length es) | _ \<Rightarrow> ''-1'')"

definition keyfunc ::
  "'w jwks_env \<Rightarrow> (string \<Rightarrow> string) \<Rightarrow> jwtTok \<Rightarrow> 'w pstate \<Rightarrow> (aerr, pubkey list) result \<times> 'w pstate" where
  "keyfunc env uni tok = (\<lambda>(s, kidSeen).
     case tk_Header tok ''crit'' of
       Some crit \<Rightarrow>
         (bad_token ReasonCriticalHeader (''token header carries unsupported crit member ('' @ crit_shape crit @ '' element(s))''),
          (s, kidSeen))
     | None \<Rightarrow>
         (case checkTokenType uni (v_cfg (fst s)) (tk_Header tok) of
            Inl e \<Rightarrow> (Inl e, (s, kidSeen))
          | Inr _ \<Rightarrow>
              let kid = header_kid (tk_Header tok) in
              case verificationKeys env kid (tk_alg tok) s of (r, s') \<Rightarrow> (r, (s', kid \<noteq> []))))"

section \<open>Validate\<close>

record Principal =
  p_Issuer :: string
  p_Subject :: string
  p_Name :: string
  p_Claims :: claims

type_synonym 'w jwt_parser =
  "parser_options \<Rightarrow> (jwtTok \<Rightarrow> 'w pstate \<Rightarrow> (aerr, pubkey list) result \<times> 'w pstate) \<Rightarrow> string \<Rightarrow> 'w pstate
     \<Rightarrow> (perr, claims) result \<times> 'w pstate"

record 'w jwt_lib =
  lib_DecodeSegment :: "string \<Rightarrow> (string, string) result"
  lib_jsonAlg :: "string \<Rightarrow> (string, string) result"
  lib_Parse :: "'w jwt_parser"
  lib_getExp :: "claims \<Rightarrow> int option"
  lib_getSub :: "claims \<Rightarrow> string option"
  lib_floatOvf :: "rat \<Rightarrow> int"
  lib_toLower :: "string \<Rightarrow> string"

text \<open>The checks on the verified claims, after the parser accepted the token.\<close>

definition verified_principal :: "'w jwt_lib \<Rightarrow> 'kp Config \<Rightarrow> claims \<Rightarrow> (aerr, Principal) result" where
  "verified_principal lib cfg claims =
     bindE (checkLifetime (lib_floatOvf lib) (lib_getExp lib) cfg claims) (\<lambda>_.
       case lib_getSub lib claims of
         None \<Rightarrow> bad_token ReasonSubject ''missing or empty sub claim''
       | Some sub \<Rightarrow>
           if sub = [] then bad_token ReasonSubject ''missing or empty sub claim''
           else Inr \<lparr>p_Issuer = stringClaim claims ''iss'', p_Subject = sub, p_Name = stringClaim claims ''name'',
                     p_Claims = claims\<rparr>)"

definition Validate :: "'w jwks_env \<Rightarrow> 'w jwt_lib \<Rightarrow> string \<Rightarrow> 'w vstate \<Rightarrow> (aerr, Principal) result \<times> 'w vstate" where
  "Validate env lib token s =
     (let cfg = v_cfg (fst s) in
      if v_closed (fst s) then (unavailable ReasonKeysUnavailable ''validator is closed'', s)
      else if token = [] then (bad_token ReasonMalformed ''empty token'', s)
      else if length token > maxTokenLength then (bad_token ReasonMalformed (too_long_msg (length token)), s)
      else case unverifiedAlg (lib_DecodeSegment lib) (lib_jsonAlg lib) token of
        Inl e \<Rightarrow> (bad_token ReasonMalformed e, s)
      | Inr alg \<Rightarrow>
          if alg \<notin> set allowedAlgs then (bad_token ReasonUnsupportedAlg ''alg is not in the allow-list'', s)
          else case lib_Parse lib (parserOptions cfg) (keyfunc env (lib_toLower lib)) token (s, False) of
            (Inl err, (s', kidSeen)) \<Rightarrow> (Inl (mapParseError err kidSeen), s')
          | (Inr claims, (s', _)) \<Rightarrow> (verified_principal lib cfg claims, s'))"

section \<open>What the parser documents\<close>

text \<open>
  \<open>decode\<close> is the content of a token, \<open>sig_ok alg key token\<close> that the key verifies its signature, and \<open>claims_ok options claims\<close> that the
  claims pass the checks the options ask for. A token is accepted only with all of these and a key the keyfunc returned; a failure of the keyfunc is wrapped; an error that
  did not come from the keyfunc carries no error of this package; and the keyfunc runs at most once.
\<close>

definition jwt_laws ::
  "(string \<Rightarrow> (jwtTok \<times> claims) option) \<Rightarrow> (string \<Rightarrow> pubkey \<Rightarrow> string \<Rightarrow> bool) \<Rightarrow> (parser_options \<Rightarrow> claims \<Rightarrow> bool)
     \<Rightarrow> 'w jwt_parser \<Rightarrow> bool" where
  "jwt_laws decode sig_ok claims_ok parse \<longleftrightarrow>
     (\<forall>opts kf token s claims s'. parse opts kf token s = (Inr claims, s') \<longrightarrow>
        (\<exists>tok keys k. decode token = Some (tok, claims) \<and> tk_alg tok \<in> set (po_ValidMethods opts)
           \<and> kf tok s = (Inr keys, s') \<and> k \<in> set keys \<and> sig_ok (tk_alg tok) k token \<and> claims_ok opts claims))
     \<and> (\<forall>opts kf token s err s'. parse opts kf token s = (Inl err, s') \<longrightarrow>
          (s' = s \<and> as_authn err = None)
          \<or> (\<exists>tok r. kf tok s = (r, s') \<and> as_authn err = (case r of Inl e \<Rightarrow> Some e | Inr _ \<Rightarrow> None)))"

lemma jwt_accept:
  assumes "jwt_laws decode sig_ok claims_ok parse" and "parse opts kf token s = (Inr claims, s')"
  obtains tok keys k where "decode token = Some (tok, claims)" "tk_alg tok \<in> set (po_ValidMethods opts)"
    "kf tok s = (Inr keys, s')" "k \<in> set keys" "sig_ok (tk_alg tok) k token" "claims_ok opts claims"
  using assms unfolding jwt_laws_def by blast


text \<open>
  What the library's \<open>Validator\<close> documents of the claims of an accepted token, for the options it was given and the time \<open>now\<close> it read: \<open>exp\<close> is present if it is required and has not passed, \<open>nbf\<close> and
  (with \<open>WithIssuedAt\<close>) \<open>iat\<close> are not in the future, each up to the leeway; \<open>iss\<close> is the expected issuer; and one of the \<open>aud\<close> values is an expected audience. The readers are the library's
  \<open>GetExpirationTime\<close>, \<open>GetNotBefore\<close> and \<open>GetIssuedAt\<close>.
\<close>

record claim_times =
  ct_exp :: "claims \<Rightarrow> int option"
  ct_nbf :: "claims \<Rightarrow> int option"
  ct_iat :: "claims \<Rightarrow> int option"

definition aud_values :: "claims \<Rightarrow> string list" where
  "aud_values claims =
     (case claims ''aud'' of
        Some (VString a) \<Rightarrow> [a]
      | Some (VList vs) \<Rightarrow> List.map_filter (\<lambda>v. case v of VString a \<Rightarrow> Some a | _ \<Rightarrow> None) vs
      | _ \<Rightarrow> [])"

definition reached :: "int \<Rightarrow> int \<Rightarrow> int option \<Rightarrow> bool" where
  "reached leeway now t = (case t of None \<Rightarrow> True | Some t \<Rightarrow> t - leeway \<le> now)"

definition claims_accepted :: "claim_times \<Rightarrow> parser_options \<Rightarrow> int \<Rightarrow> claims \<Rightarrow> bool" where
  "claims_accepted ct opts now claims \<longleftrightarrow>
     (case ct_exp ct claims of None \<Rightarrow> \<not> po_ExpirationRequired opts | Some e \<Rightarrow> now < e + po_Leeway opts)
     \<and> reached (po_Leeway opts) now (ct_nbf ct claims)
     \<and> (po_IssuedAt opts \<longrightarrow> reached (po_Leeway opts) now (ct_iat ct claims))
     \<and> (case po_Issuer opts of None \<Rightarrow> True | Some i \<Rightarrow> claims ''iss'' = Some (VString i))
     \<and> (case po_Audience opts of None \<Rightarrow> True | Some as \<Rightarrow> list_ex (\<lambda>a. a \<in> set as) (aud_values claims))"

text \<open>\<open>clk\<close> reads the clock; the parser checks the claims after the keyfunc has returned, at the time of its final state.\<close>

definition claims_law :: "claim_times \<Rightarrow> ('w \<Rightarrow> int) \<Rightarrow> 'w jwt_parser \<Rightarrow> bool" where
  "claims_law ct clk parse \<longleftrightarrow>
     (\<forall>opts kf token s claims v w b. parse opts kf token s = (Inr claims, ((v, w), b)) \<longrightarrow> claims_accepted ct opts (clk w) claims)"

lemma claims_lawD:
  "claims_law ct clk parse \<Longrightarrow> parse opts kf token s = (Inr claims, (s', b)) \<Longrightarrow> claims_accepted ct opts (clk (snd s')) claims"
  unfolding claims_law_def by (metis surjective_pairing)

lemma configured_claims:
  assumes "claims_accepted ct (parserOptions cfg) now claims"
  shows "(\<exists>e. ct_exp ct claims = Some e \<and> now < e + (if cfg_DisableLeeway cfg then 0 else cfg_Leeway cfg))
    \<and> (\<forall>t. ct_nbf ct claims = Some t \<or> ct_iat ct claims = Some t
         \<longrightarrow> t - (if cfg_DisableLeeway cfg then 0 else cfg_Leeway cfg) \<le> now)
    \<and> (cfg_Issuer cfg \<noteq> [] \<longrightarrow> claims ''iss'' = Some (VString (cfg_Issuer cfg)))
    \<and> (cfg_Audiences cfg \<noteq> [] \<longrightarrow> (\<exists>a \<in> set (cfg_Audiences cfg). a \<in> set (aud_values claims)))"
  using assms by (auto simp: claims_accepted_def parserOptions_def reached_def list_ex_iff split: option.splits if_splits)

section \<open>Accepted tokens\<close>

lemma keyfunc_ok:
  assumes "keyfunc env uni tok (s, b) = (Inr keys, (s', b'))"
  shows "tk_Header tok ''crit'' = None \<and> checkTokenType uni (v_cfg (fst s)) (tk_Header tok) = Inr ()
    \<and> verificationKeys env (header_kid (tk_Header tok)) (tk_alg tok) s = (Inr keys, s')"
  using assms by (auto simp: keyfunc_def Let_def split: option.splits sum.splits prod.splits)

lemma verified_principal_ok:
  "verified_principal lib cfg claims = Inr p \<longleftrightarrow>
     checkLifetime (lib_floatOvf lib) (lib_getExp lib) cfg claims = Inr () \<and> lib_getSub lib claims = Some (p_Subject p)
     \<and> p_Subject p \<noteq> [] \<and> p_Issuer p = stringClaim claims ''iss'' \<and> p_Name p = stringClaim claims ''name'' \<and> p_Claims p = claims"
  by (auto simp: verified_principal_def res_dest split: option.splits if_splits)

lemma checkLifetime_ok:
  "checkLifetime ovf getExp cfg claims = Inr () \<longleftrightarrow>
     cfg_MaxTokenLifetime cfg = 0
     \<or> (\<forall>e i. getExp claims = Some e \<and> issuedAt ovf claims = Some i \<longrightarrow> go_Sub e i \<le> cfg_MaxTokenLifetime cfg)"
  by (auto simp: checkLifetime_def split: option.splits)

lemma checkTokenType_ok:
  "checkTokenType uni cfg header = Inr () \<longleftrightarrow>
     cfg_AcceptedTokenTypes cfg = []
     \<or> (\<exists>t want. header ''typ'' = Some (VString t) \<and> want \<in> set (cfg_AcceptedTokenTypes cfg)
          \<and> normalizeTokenType uni t = normalizeTokenType uni want \<and> normalizeTokenType uni t \<noteq> [])"
proof (cases "\<exists>t. header ''typ'' = Some (VString t)")
  case True
  then show ?thesis by (auto simp: checkTokenType_def Let_def list_ex_iff)
next
  case False
  have "normalizeTokenType uni [] = []"
    by (simp add: normalizeTokenType_def trim_prefix_def to_lower_def trim_space_def trim_left_id find_None_iff)
  moreover have "(case header ''typ'' of Some (VString s) \<Rightarrow> s | _ \<Rightarrow> []) = []"
    using False by (auto split: option.split cval.split)
  ultimately show ?thesis using False unfolding checkTokenType_def Let_def by simp
qed

text \<open>
  C3. No token is accepted without proof. If \<open>Validate\<close> returns a principal, the validator was open, the token is bounded, its algorithm and that of its verified header are allowed, it has no critical
  header extension, its type is accepted, and its signature verifies under one of at most eight keys, each fitting the algorithm (an RSA modulus of at least 2048 bits, or the
  prescribed curve). Every check the configuration asks for was made on the claims: \<open>exp\<close> is present and had not passed when the parser read the clock, \<open>nbf\<close> and \<open>iat\<close> were not in the future, each with
  the configured leeway and none under \<open>DisableLeeway\<close>; a configured issuer is byte for byte the \<open>iss\<close> claim and the issuer of the principal; with configured audiences one of them is among the \<open>aud\<close>
  values; and the lifetime bound holds. The principal reports exactly the verified claims with a non-empty subject. golang-jwt is a parameter: \<open>jwt_laws\<close> and \<open>claims_law\<close> say what it documents of the options it is given.
\<close>
theorem Validate_sound:
  assumes "jwt_laws decode sig_ok claims_ok (lib_Parse lib)" and "claims_law ct clk (lib_Parse lib)" and "ct_exp ct = lib_getExp lib"
    and "Validate env lib token s = (Inr p, s')"
  shows "\<exists>tok keys k.
      \<not> v_closed (fst s) \<and> token \<noteq> [] \<and> length token \<le> maxTokenLength
    \<and> decode token = Some (tok, p_Claims p) \<and> tk_alg tok \<in> set allowedAlgs
    \<and> tk_Header tok ''crit'' = None
    \<and> (cfg_AcceptedTokenTypes (v_cfg (fst s)) = []
        \<or> (\<exists>t want. tk_Header tok ''typ'' = Some (VString t) \<and> want \<in> set (cfg_AcceptedTokenTypes (v_cfg (fst s)))
             \<and> normalizeTokenType (lib_toLower lib) t = normalizeTokenType (lib_toLower lib) want))
    \<and> k \<in> set keys \<and> length keys \<le> 8 \<and> key_fits (tk_alg tok) k \<and> sig_ok (tk_alg tok) k token
    \<and> (\<exists>e. lib_getExp lib (p_Claims p) = Some e
         \<and> clk (snd s') < e + (if cfg_DisableLeeway (v_cfg (fst s)) then 0 else cfg_Leeway (v_cfg (fst s))))
    \<and> (\<forall>t. ct_nbf ct (p_Claims p) = Some t \<or> ct_iat ct (p_Claims p) = Some t
         \<longrightarrow> t - (if cfg_DisableLeeway (v_cfg (fst s)) then 0 else cfg_Leeway (v_cfg (fst s))) \<le> clk (snd s'))
    \<and> (cfg_Issuer (v_cfg (fst s)) \<noteq> [] \<longrightarrow>
         p_Claims p ''iss'' = Some (VString (cfg_Issuer (v_cfg (fst s)))) \<and> p_Issuer p = cfg_Issuer (v_cfg (fst s)))
    \<and> (cfg_Audiences (v_cfg (fst s)) \<noteq> [] \<longrightarrow>
         (\<exists>a \<in> set (cfg_Audiences (v_cfg (fst s))). a \<in> set (aud_values (p_Claims p))))
    \<and> (cfg_MaxTokenLifetime (v_cfg (fst s)) = 0
        \<or> (\<forall>e i. lib_getExp lib (p_Claims p) = Some e \<and> issuedAt (lib_floatOvf lib) (p_Claims p) = Some i
             \<longrightarrow> go_Sub e i \<le> cfg_MaxTokenLifetime (v_cfg (fst s))))
    \<and> lib_getSub lib (p_Claims p) = Some (p_Subject p) \<and> p_Subject p \<noteq> []
    \<and> p_Issuer p = stringClaim (p_Claims p) ''iss''"
proof -
  let ?cfg = "v_cfg (fst s)"
  obtain claims b where parsed: "lib_Parse lib (parserOptions ?cfg) (keyfunc env (lib_toLower lib)) token (s, False) = (Inr claims, (s', b))"
    and vp: "verified_principal lib ?cfg claims = Inr p"
    and pre: "\<not> v_closed (fst s)" "token \<noteq> []" "length token \<le> maxTokenLength"
    using assms(4) by (auto simp: Validate_def Let_def split: if_splits sum.splits prod.splits)
  from jwt_accept [OF assms(1) parsed] obtain tok keys k where j: "decode token = Some (tok, claims)"
    "tk_alg tok \<in> set (po_ValidMethods (parserOptions ?cfg))"
    "keyfunc env (lib_toLower lib) tok (s, False) = (Inr keys, (s', b))" "k \<in> set keys" "sig_ok (tk_alg tok) k token" .
  note kf = keyfunc_ok [OF j(3)]
  have u: "usable_keys (header_kid (tk_Header tok)) (tk_alg tok) keys" using kf verificationKeys_usable by blast
  have "length keys \<le> 8" "key_fits (tk_alg tok) k"
    using u j(4) by (simp_all add: usable_keys_def maxKeyCandidates_def)
  moreover have "tk_alg tok \<in> set allowedAlgs" using j(2) by (simp add: parserOptions_def)
  moreover have v: "p_Claims p = claims" "p_Issuer p = stringClaim claims ''iss''" using vp by (simp_all add: verified_principal_ok)
  moreover note c = configured_claims [OF claims_lawD [OF assms(2) parsed]]
  then have "cfg_Issuer ?cfg \<noteq> [] \<longrightarrow> p_Issuer p = cfg_Issuer ?cfg" using v by (simp add: stringClaim_def)
  ultimately show ?thesis
    using pre j(1,4,5) kf vp c assms(3) by (intro exI [of _ tok] exI [of _ keys] exI [of _ k])
      (simp add: verified_principal_ok checkLifetime_ok checkTokenType_ok, blast?)
qed


text \<open>A sample library, for tokens with the text \<open>h.p.s\<close>, and a validator with one in-process key.\<close>

definition sample_tok :: jwtTok where
  "sample_tok = \<lparr>tk_Header = [''kid'' \<mapsto> VString ''k1''], tk_alg = ''ES256''\<rparr>"

definition sample_claims :: claims where
  "sample_claims = [''sub'' \<mapsto> VString ''ann'', ''iss'' \<mapsto> VString ''https://i'', ''aud'' \<mapsto> VList [VString ''web'', VString ''api''],
     ''exp'' \<mapsto> VInt64 200, ''nbf'' \<mapsto> VInt64 90, ''iat'' \<mapsto> VInt64 90]"

definition time_claim :: "string \<Rightarrow> claims \<Rightarrow> int option" where
  "time_claim name claims = (case claims name of Some (VInt64 n) \<Rightarrow> Some (go_Unix n) | _ \<Rightarrow> None)"

definition sample_times :: claim_times where
  "sample_times = \<lparr>ct_exp = time_claim ''exp'', ct_nbf = time_claim ''nbf'', ct_iat = time_claim ''iat''\<rparr>"

definition sample_decode :: "string \<Rightarrow> (jwtTok \<times> claims) option" where
  "sample_decode t = (if t = ''h.p.s'' then Some (sample_tok, sample_claims) else None)"

definition sample_jwt_parse :: "'w jwt_parser" where
  "sample_jwt_parse opts kf token s =
     (case sample_decode token of
        None \<Rightarrow> (Inl (Sentinel ErrTokenMalformed ''token is malformed''), s)
      | Some (tok, claims) \<Rightarrow>
          if tk_alg tok \<notin> set (po_ValidMethods opts) then (Inl (Sentinel ErrTokenSignatureInvalid ''alg''), s)
          else case kf tok s of
            (Inl e, s') \<Rightarrow> (Inl (Node ''unverifiable'' [Sentinel ErrTokenUnverifiable ''unverifiable'', FromKeyfunc e]), s')
          | (Inr keys, s') \<Rightarrow>
              if keys = [] then (Inl (Sentinel ErrTokenUnverifiable ''no keys''), s')
              else if \<not> claims_accepted sample_times opts (go_Unix 100) claims then (Inl (Sentinel ErrTokenExpired ''claims''), s')
              else (Inr claims, s'))"

lemma sample_claims_law: "claims_law sample_times (\<lambda>_. go_Unix 100) sample_jwt_parse"
  unfolding claims_law_def by (auto simp: sample_jwt_parse_def split: option.splits prod.splits sum.splits if_splits)

lemma sample_jwt_laws: "jwt_laws sample_decode (\<lambda>_ _ _. True) (\<lambda>_ _. True) sample_jwt_parse"
  unfolding jwt_laws_def
proof (intro conjI allI impI)
  fix opts token claims s and s' :: "'w pstate" and kf :: "jwtTok \<Rightarrow> 'w pstate \<Rightarrow> (aerr, pubkey list) result \<times> 'w pstate"
  assume "sample_jwt_parse opts kf token s = (Inr claims, s')"
  then obtain tok keys where k: "sample_decode token = Some (tok, claims)" "tk_alg tok \<in> set (po_ValidMethods opts)"
    "kf tok s = (Inr keys, s')" "keys \<noteq> []"
    by (auto simp: sample_jwt_parse_def split: option.splits prod.splits sum.splits if_splits)
  then have "hd keys \<in> set keys" by simp
  with k show "\<exists>tok keys k. sample_decode token = Some (tok, claims) \<and> tk_alg tok \<in> set (po_ValidMethods opts)
      \<and> kf tok s = (Inr keys, s') \<and> k \<in> set keys \<and> True \<and> True" by blast
next
  fix opts token err s and s' :: "'w pstate" and kf :: "jwtTok \<Rightarrow> 'w pstate \<Rightarrow> (aerr, pubkey list) result \<times> 'w pstate"
  assume a: "sample_jwt_parse opts kf token s = (Inl err, s')"
  show "s' = s \<and> as_authn err = None \<or> (\<exists>tok r. kf tok s = (r, s') \<and> as_authn err = (case r of Inl e \<Rightarrow> Some e | Inr _ \<Rightarrow> None))"
  proof (cases "sample_decode token")
    case None
    then show ?thesis using a by (auto simp: sample_jwt_parse_def)
  next
    case (Some q)
    obtain tok c where q: "q = (tok, c)" by (cases q)
    obtain r s1 where k: "kf tok s = (r, s1)" by (metis prod.exhaust)
    have "s' = s \<and> as_authn err = None \<or> s' = s1 \<and> as_authn err = (case r of Inl e \<Rightarrow> Some e | Inr _ \<Rightarrow> None)"
      using a by (cases r) (auto simp: sample_jwt_parse_def Some q k split: if_splits)
    with k show ?thesis by blast
  qed
qed

definition sample_lib :: "unit jwt_lib" where
  "sample_lib =
     \<lparr>lib_DecodeSegment = (\<lambda>s. Inr s), lib_jsonAlg = (\<lambda>s. if s = ''h'' then Inr ''ES256'' else Inr ''none''),
      lib_Parse = sample_jwt_parse, lib_getExp = time_claim ''exp'',
      lib_getSub = (\<lambda>c. Some (stringClaim c ''sub'')), lib_floatOvf = (\<lambda>_. 0), lib_toLower = id\<rparr>"

definition demo_env :: "unit jwks_env" where
  "demo_env = \<lparr>env_Now = (\<lambda>w. (0, w)), env_Lookup = (\<lambda>w. (Inl False, w)), env_Refresh = (\<lambda>w. (Inl ''down'', w))\<rparr>"

definition demo_state :: "unit vstate" where
  "demo_state =
     (\<lparr>v_cfg = \<lparr>cfg_Issuer = ''https://i'', cfg_Audiences = [''api''], cfg_AllowAnyAudience = False, cfg_JWKSURL = [],
        cfg_Leeway = defaultLeeway, cfg_DisableLeeway = False, cfg_MaxJWKSStaleness = 0, cfg_AcceptedTokenTypes = [],
        cfg_MaxTokenLifetime = 0, cfg_HTTPClient = None, cfg_InsecureAllowHTTP = False, cfg_AllowPrivateIP = False,
        cfg_CACertPath = [], cfg_AuthTokenFile = [], cfg_KeyProvider = Some (\<lambda>w. (Inr [sample_pk], w))\<rparr>,
      v_jwksCache = False, v_jwksURL = [], v_closed = False, v_lastRefresh = 0, v_lastSuccess = 0, v_negativeKids = []\<rparr>, ())"

lemma demo_keys:
  "verificationKeys demo_env ''k1'' ''ES256'' demo_state = (Inr [ECKey \<lparr>ec_Curve = Some (Some ''P-256'')\<rparr>], demo_state)"
  by (simp add: verificationKeys_def demo_state_def providerKeySet_def keysFromProvider_def providerCandidates_def
      sample_pk_def providerKeyTypeMatchesAlg_def curveMatchesAlg_def maxKeyCandidates_def)

lemma demo_alg: "unverifiedAlg (lib_DecodeSegment sample_lib) (lib_jsonAlg sample_lib) ''h.p.s'' = Inr ''ES256''"
  by (simp add: unverifiedAlg_def sample_lib_def)

theorem Validate_sound_witness:
  "\<exists>p. Validate demo_env sample_lib ''h.p.s'' demo_state = (Inr p, demo_state) \<and> p_Subject p = ''ann'' \<and> p_Subject p \<noteq> []
     \<and> p_Issuer p = ''https://i'' \<and> (\<exists>a \<in> {''api''}. a \<in> set (aud_values (p_Claims p)))
     \<and> (\<exists>e. time_claim ''exp'' (p_Claims p) = Some e \<and> go_Unix 100 < e + defaultLeeway)"
proof -
  have k: "keyfunc demo_env id sample_tok (demo_state, False) = (Inr [ECKey \<lparr>ec_Curve = Some (Some ''P-256'')\<rparr>], (demo_state, True))"
  proof -
    have "checkTokenType id (v_cfg (fst demo_state)) (tk_Header sample_tok) = Inr ()"
      by (simp add: demo_state_def checkTokenType_def)
    moreover have "tk_Header sample_tok ''crit'' = None" "header_kid (tk_Header sample_tok) = ''k1''" "tk_alg sample_tok = ''ES256''"
      by (simp_all add: sample_tok_def header_kid_def)
    ultimately show ?thesis using demo_keys by (simp add: keyfunc_def Let_def)
  qed
  have "lib_Parse sample_lib (parserOptions (v_cfg (fst demo_state))) (keyfunc demo_env id) ''h.p.s'' (demo_state, False)
      = (Inr sample_claims, (demo_state, True))"
  proof -
    have a: "claims_accepted sample_times (parserOptions (v_cfg (fst demo_state))) (go_Unix 100) sample_claims"
      by (simp add: claims_accepted_def reached_def parserOptions_def demo_state_def sample_times_def time_claim_def sample_claims_def
          aud_values_def List.map_filter_simps go_Unix_def wrap64_def defaultLeeway_def)
    have "tk_alg sample_tok \<in> set (po_ValidMethods (parserOptions (v_cfg (fst demo_state))))"
      by (simp add: sample_tok_def parserOptions_def allowedAlgs_def)
    then show ?thesis using k a by (simp add: sample_lib_def sample_jwt_parse_def sample_decode_def)
  qed
  moreover have "lib_toLower sample_lib = id" "\<not> v_closed (fst demo_state)" "cfg_MaxTokenLifetime (v_cfg (fst demo_state)) = 0"
    "lib_getSub sample_lib sample_claims = Some ''ann''"
    by (simp_all add: sample_lib_def demo_state_def sample_claims_def stringClaim_def)
  ultimately obtain p where p: "Validate demo_env sample_lib ''h.p.s'' demo_state = (Inr p, demo_state)" "p_Claims p = sample_claims"
    by (simp add: Validate_def demo_alg verified_principal_def checkLifetime_def maxTokenLength_def allowedAlgs_def Let_def)
  have "jwt_laws sample_decode (\<lambda>_ _ _. True) (\<lambda>_ _. True) (lib_Parse sample_lib)"
    by (simp add: sample_lib_def sample_jwt_laws)
  moreover have "claims_law sample_times (\<lambda>_. go_Unix 100) (lib_Parse sample_lib)" "ct_exp sample_times = lib_getExp sample_lib"
    using sample_claims_law by (simp add: sample_lib_def) (simp add: sample_lib_def sample_times_def)
  moreover have "cfg_Issuer (v_cfg (fst demo_state)) = ''https://i''" "cfg_Audiences (v_cfg (fst demo_state)) = [''api'']"
    "\<not> cfg_DisableLeeway (v_cfg (fst demo_state))" "cfg_Leeway (v_cfg (fst demo_state)) = defaultLeeway"
    "lib_getExp sample_lib = time_claim ''exp''" "lib_getSub sample_lib sample_claims = Some ''ann''"
    by (simp_all add: demo_state_def sample_lib_def sample_claims_def stringClaim_def)
  ultimately show ?thesis using Validate_sound [OF _ _ _ p(1)] p by (intro exI [of _ p]) fastforce
qed

section \<open>Rejected tokens\<close>

definition key_failure :: "aerr \<Rightarrow> bool" where
  "key_failure e \<longleftrightarrow>
     err_Code e = CodeUnavailable \<and> err_Reason e \<in> {ReasonKeysUnavailable, ReasonKeysStale}
     \<or> err_Code e = CodeInvalidToken \<and> err_Reason e \<in> {ReasonUnknownKID, ReasonKeyUnsupported}"

lemma key_failure_intros [simp]:
  "key_failure (AuthnError CodeUnavailable ReasonKeysUnavailable d)" "key_failure (AuthnError CodeUnavailable ReasonKeysStale d)"
  "key_failure (AuthnError CodeInvalidToken ReasonUnknownKID d)" "key_failure (AuthnError CodeInvalidToken ReasonKeyUnsupported d)"
  by (simp_all add: key_failure_def)










end
