(* ===== verification/Authn_Setup.thy ===== *)
theory Authn_Setup
  imports Authn_Keys
begin

text \<open>
  Construction of a validator (\<open>NewValidator\<close> and \<open>init\<close> of \<open>authn/authn.go\<close>, \<open>authn/discovery.go\<close>): OIDC discovery with its retries, the first key fetch, and what becomes
  optional with an in-process key provider.

  Parameters: building and sending the discovery request, waiting between attempts (which reports whether the context ended), and the jwx cache.
\<close>

section \<open>Discovery\<close>

record oidcDiscoveryDocument =
  dd_Issuer :: string
  dd_JWKSURI :: string

datatype disc_error =
    DiscRequest string | DiscFetch string | DiscStatus int | DiscDecode string
  | DiscIssuerMismatch string string | DiscMissingURI | DiscBadURI config_error
  | DiscAborted nat "disc_error option" | DiscExhausted "disc_error option"

text \<open>\<open>errors.Is(err, errDiscoveryNotTransient)\<close>\<close>

fun not_transient :: "disc_error \<Rightarrow> bool" where
  "not_transient (DiscIssuerMismatch a b) = True"
| "not_transient DiscMissingURI = True"
| "not_transient (DiscBadURI e) = True"
| "not_transient (DiscAborted n (Some e)) = not_transient e"
| "not_transient (DiscExhausted (Some e)) = not_transient e"
| "not_transient _ = False"

definition oidcDiscoveryPath :: string where "oidcDiscoveryPath = ''/.well-known/openid-configuration''"
definition discoveryAttempts :: nat where "discoveryAttempts = 3"
definition discoveryInitialBackoff :: int where "discoveryInitialBackoff = 250000000"

text \<open>An answer of the endpoint: its status and its body decoded as a document.\<close>

record 'w disc_env =
  de_NewRequest :: "string \<Rightarrow> string option"
  de_Do :: "string \<Rightarrow> 'w \<Rightarrow> (string, int \<times> (string, oidcDiscoveryDocument) result) result \<times> 'w"
  de_Wait :: "int \<Rightarrow> 'w \<Rightarrow> bool \<times> 'w"

definition discoverJWKSURI ::
  "'w disc_env \<Rightarrow> (string \<Rightarrow> url option) \<Rightarrow> bool \<Rightarrow> string \<Rightarrow> 'w \<Rightarrow> (disc_error, string) result \<times> 'w" where
  "discoverJWKSURI de parse allowHTTP issuer w =
     (let wellKnown = trim_suffix issuer ''/'' @ oidcDiscoveryPath in
      case de_NewRequest de wellKnown of
        Some e \<Rightarrow> (Inl (DiscRequest e), w)
      | None \<Rightarrow>
          (case de_Do de wellKnown w of
             (Inl e, w') \<Rightarrow> (Inl (DiscFetch e), w')
           | (Inr (status, body), w') \<Rightarrow>
               (if status \<noteq> 200 then Inl (DiscStatus status)
                else case body of
                  Inl e \<Rightarrow> Inl (DiscDecode e)
                | Inr doc \<Rightarrow>
                    if dd_Issuer doc \<noteq> issuer then Inl (DiscIssuerMismatch (dd_Issuer doc) issuer)
                    else if dd_JWKSURI doc = [] then Inl DiscMissingURI
                    else case validateHTTPSURI parse ''discovered jwks_uri'' (dd_JWKSURI doc) allowHTTP of
                      Inl e \<Rightarrow> Inl (DiscBadURI e)
                    | Inr _ \<Rightarrow> Inr (dd_JWKSURI doc), w')))"

text \<open>The retry loop; its first argument is the number of attempts left.\<close>

fun retry_loop ::
  "nat \<Rightarrow> 'w disc_env \<Rightarrow> ('w \<Rightarrow> (disc_error, string) result \<times> 'w) \<Rightarrow> nat \<Rightarrow> int \<Rightarrow> disc_error option \<Rightarrow> 'w
     \<Rightarrow> (disc_error, string) result \<times> 'w" where
  "retry_loop 0 de disc attempt backoff lastErr w = (Inl (DiscExhausted lastErr), w)"
| "retry_loop (Suc n) de disc attempt backoff lastErr w =
     (case (if attempt > 0 then de_Wait de backoff w else (False, w)) of
        (True, w1) \<Rightarrow> (Inl (DiscAborted attempt lastErr), w1)
      | (False, w1) \<Rightarrow>
          (case disc w1 of
             (Inr uri, w2) \<Rightarrow> (Inr uri, w2)
           | (Inl e, w2) \<Rightarrow>
               if not_transient e then (Inl e, w2)
               else retry_loop n de disc (Suc attempt) (if attempt > 0 then backoff * 2 else backoff) (Some e) w2))"

definition discoverWithRetry ::
  "'w disc_env \<Rightarrow> (string \<Rightarrow> url option) \<Rightarrow> bool \<Rightarrow> string \<Rightarrow> 'w \<Rightarrow> (disc_error, string) result \<times> 'w" where
  "discoverWithRetry de parse allowHTTP issuer w =
     retry_loop discoveryAttempts de (discoverJWKSURI de parse allowHTTP issuer) 0 discoveryInitialBackoff None w"

section \<open>Construction\<close>

datatype init_error =
    InitDiscovery disc_error | InitCache string | InitRegister string | InitFetch string | InitLookup bool

record 'w jwks_setup =
  su_NewCache :: "string list \<Rightarrow> 'w \<Rightarrow> (string, unit) result \<times> 'w"
  su_Register :: "string \<Rightarrow> int \<Rightarrow> 'w \<Rightarrow> (string, unit) result \<times> 'w"

definition jwksRefreshInterval :: int where "jwksRefreshInterval = 900 * second"

text \<open>The first fetch: \<open>Refresh\<close>, then \<open>Lookup\<close>.\<close>

definition first_fetch :: "'w jwks_env \<Rightarrow> 'w \<Rightarrow> init_error option \<times> 'w" where
  "first_fetch env w =
     (case env_Refresh env w of
        (Inl e, w1) \<Rightarrow> (Some (InitFetch e), w1)
      | (Inr _, w1) \<Rightarrow>
          (case env_Lookup env w1 of
             (Inl e, w2) \<Rightarrow> (Some (InitLookup e), w2)
           | (Inr _, w2) \<Rightarrow> (None, w2)))"

definition start_cache :: "'w jwks_env \<Rightarrow> 'w jwks_setup \<Rightarrow> 'w vstate \<Rightarrow> (init_error, unit) result \<times> 'w vstate" where
  "start_cache env su = (\<lambda>(v, w).
     case su_NewCache su [v_jwksURL v] w of
       (Inl e, w1) \<Rightarrow> (Inl (InitCache e), (v, w1))
     | (Inr _, w1) \<Rightarrow>
         let v1 = v\<lparr>v_jwksCache := True\<rparr> in
         (case su_Register su (v_jwksURL v1) jwksRefreshInterval w1 of
            (Inl e, w2) \<Rightarrow> (Inl (InitRegister e), (v1, w2))
          | (Inr _, w2) \<Rightarrow>
              (case first_fetch env w2 of
                 (refreshErr, w3) \<Rightarrow>
                   (case (if refreshErr = None
                          then (case env_Now env w3 of (now, w4) \<Rightarrow> (v1\<lparr>v_lastSuccess := now\<rparr>, w4)) else (v1, w3)) of
                      s4 \<Rightarrow>
                        (if cfg_KeyProvider (v_cfg v) \<noteq> None then (Inr (), s4)
                         else (case refreshErr of None \<Rightarrow> Inr () | Some e \<Rightarrow> Inl e, s4))))))"

definition init ::
  "'w jwks_env \<Rightarrow> 'w jwks_setup \<Rightarrow> 'w disc_env \<Rightarrow> (string \<Rightarrow> url option) \<Rightarrow> 'w vstate \<Rightarrow> (init_error, unit) result \<times> 'w vstate" where
  "init env su de parse = (\<lambda>(v0, w).
     let v = v0\<lparr>v_jwksURL := cfg_JWKSURL (v_cfg v0)\<rparr> in
     if v_jwksURL v = [] then
       (case discoverWithRetry de parse (cfg_InsecureAllowHTTP (v_cfg v)) (cfg_Issuer (v_cfg v)) w of
          (Inr uri, w1) \<Rightarrow> start_cache env su (v\<lparr>v_jwksURL := uri\<rparr>, w1)
        | (Inl e, w1) \<Rightarrow>
            if cfg_KeyProvider (v_cfg v) \<noteq> None \<and> \<not> not_transient e then (Inr (), (v, w1))
            else (Inl (InitDiscovery e), (v, w1)))
     else start_cache env su (v, w))"

datatype new_error = NewConfig config_error | NewClient build_error | NewInit init_error

text \<open>The HTTP client only matters to the environment that uses it, so it is part of the result. \<open>ctxDone\<close> is the state of the context passed in.\<close>

definition NewValidator ::
  "environ \<Rightarrow> (string \<Rightarrow> (string, string) result) \<Rightarrow> (string \<Rightarrow> bool) \<Rightarrow> (string \<Rightarrow> url option) \<Rightarrow> (string \<Rightarrow> string)
     \<Rightarrow> 'w jwks_env \<Rightarrow> 'w jwks_setup \<Rightarrow> 'w disc_env \<Rightarrow> bool \<Rightarrow> 'w provider Config \<Rightarrow> 'w
     \<Rightarrow> (new_error, 'w Validator \<times> httpClient) result \<times> 'w" where
  "NewValidator osenv readFile pemOK parse uni env su de ctxDone cfg0 w =
     (case ValidateConfig parse uni cfg0 of
        Inl e \<Rightarrow> (Inl (NewConfig e), w)
      | Inr cfg \<Rightarrow>
          (case newHTTPClient osenv readFile pemOK (cfg_HTTPClient cfg) (cfg_AllowPrivateIP cfg) (cfg_CACertPath cfg)
                  (cfg_AuthTokenFile cfg) of
             Inl e \<Rightarrow> (Inl (NewClient e), w)
           | Inr client \<Rightarrow>
               (case init env su de parse
                   (\<lparr>v_cfg = cfg, v_jwksCache = False, v_jwksURL = [], v_closed = ctxDone, v_lastRefresh = 0, v_lastSuccess = 0,
                     v_negativeKids = []\<rparr>, w) of
                  (Inl e, (v, w')) \<Rightarrow> (Inl (NewInit e), w')
                | (Inr _, (v, w')) \<Rightarrow> (Inr (v, client), w'))))"

definition Close :: "'w Validator \<Rightarrow> 'w Validator" where
  "Close v = v\<lparr>v_closed := True\<rparr>"

definition closed :: "'w Validator \<Rightarrow> bool" where
  "closed v = v_closed v"


section \<open>Trust in the discovered key URL\<close>

lemma discoverJWKSURI_ok:
  assumes "discoverJWKSURI de parse allowHTTP issuer w = (Inr uri, w')"
  shows "\<exists>doc. de_Do de (trim_suffix issuer ''/'' @ oidcDiscoveryPath) w = (Inr (200, Inr doc), w')
    \<and> dd_Issuer doc = issuer \<and> dd_JWKSURI doc = uri \<and> allowed_uri parse allowHTTP uri"
proof -
  let ?u = "trim_suffix issuer ''/'' @ oidcDiscoveryPath"
  obtain res w1 where d: "de_Do de ?u w = (res, w1)" by fastforce
  have r: "de_NewRequest de ?u = None" using assms by (auto simp: discoverJWKSURI_def Let_def split: option.splits)
  obtain status body where res: "res = Inr (status, body)"
    using assms by (cases res) (auto simp: discoverJWKSURI_def Let_def r d)
  have s: "status = 200" using assms by (auto simp: discoverJWKSURI_def Let_def r d res split: if_splits)
  obtain doc where doc: "body = Inr doc"
    using assms by (cases body) (auto simp: discoverJWKSURI_def Let_def r d res s)
  show ?thesis
    using assms
    by (auto simp: discoverJWKSURI_def Let_def r d res s doc validateHTTPSURI_ok split: if_splits sum.splits)
qed

text \<open>A counter of requests that only \<open>Do\<close> advances.\<close>

definition counts_requests :: "'w disc_env \<Rightarrow> ('w \<Rightarrow> nat) \<Rightarrow> bool" where
  "counts_requests de reqs \<longleftrightarrow>
     (\<forall>u w r w'. de_Do de u w = (r, w') \<longrightarrow> reqs w' = Suc (reqs w))
     \<and> (\<forall>d w b w'. de_Wait de d w = (b, w') \<longrightarrow> reqs w' = reqs w)"

lemma discoverJWKSURI_count:
  "counts_requests de reqs \<Longrightarrow> discoverJWKSURI de parse allowHTTP issuer w = (r, w') \<Longrightarrow> reqs w' \<le> Suc (reqs w)"
  by (auto simp: discoverJWKSURI_def Let_def counts_requests_def split: option.splits prod.splits sum.splits)

lemma retry_loop_spec:
  assumes wait: "\<forall>b u d u'. de_Wait de b u = (d, u') \<longrightarrow> reqs u' = reqs u"
    and disc: "\<forall>u x u'. disc u = (x, u') \<longrightarrow> reqs u' \<le> Suc (reqs u)"
  shows "retry_loop n de disc attempt backoff lastErr w = (r, w') \<Longrightarrow>
    reqs w' \<le> reqs w + n
    \<and> (\<forall>uri. r = Inr uri \<longrightarrow> (\<exists>u. disc u = (Inr uri, w')))
    \<and> (\<forall>e. r = Inl e \<longrightarrow> (\<exists>u. disc u = (Inl e, w') \<and> not_transient e)
         \<or> (\<exists>k last. e = DiscAborted k last \<or> e = DiscExhausted last))"
proof (induction n arbitrary: attempt backoff lastErr w)
  case 0
  then show ?case by auto
next
  case (Suc n)
  obtain b w1 where b: "(if attempt > 0 then de_Wait de backoff w else (False, w)) = (b, w1)" by fastforce
  have r1: "reqs w1 = reqs w" using b wait by (auto split: if_splits)
  show ?case
  proof (cases b)
    case True
    then show ?thesis using Suc.prems b r1 by auto
  next
    case False
    obtain x w2 where x: "disc w1 = (x, w2)" by fastforce
    have r2: "reqs w2 \<le> Suc (reqs w)" using disc [rule_format, OF x] r1 by simp
    show ?thesis
    proof (cases "\<exists>e. x = Inl e \<and> \<not> not_transient e")
      case True
      then obtain e where "retry_loop n de disc (Suc attempt) (if attempt > 0 then backoff * 2 else backoff) (Some e) w2 = (r, w')"
        using Suc.prems b False x by auto
      from Suc.IH [OF this] r2 show ?thesis by auto
    next
      case rej: False
      then have "r = x" "w' = w2" using Suc.prems b False x by (auto split: sum.splits)
      then show ?thesis using r2 x rej by auto
    qed
  qed
qed

text \<open>
  C16. Discovery trusts only what the issuer says of itself. A discovered key URL comes from a document served with status 200 at the issuer's well-known path whose issuer is byte-identical to the
  configured one, and is an allowed URL. At most three requests are sent, and an error other than a spent budget or an ended context is the verdict on the last document.
\<close>
theorem discovery_trusted:
  assumes "counts_requests de reqs" and "discoverWithRetry de parse allowHTTP issuer w = (r, w')"
  shows "reqs w' \<le> reqs w + 3
    \<and> (\<forall>uri. r = Inr uri \<longrightarrow>
         (\<exists>u doc. de_Do de (trim_suffix issuer ''/'' @ oidcDiscoveryPath) u = (Inr (200, Inr doc), w')
            \<and> dd_Issuer doc = issuer \<and> dd_JWKSURI doc = uri \<and> allowed_uri parse allowHTTP uri))
    \<and> (\<forall>e. r = Inl e \<longrightarrow> (\<exists>u. discoverJWKSURI de parse allowHTTP issuer u = (Inl e, w') \<and> not_transient e)
         \<or> (\<exists>k last. e = DiscAborted k last \<or> e = DiscExhausted last))"
proof -
  have "reqs w' \<le> reqs w + 3
    \<and> (\<forall>uri. r = Inr uri \<longrightarrow> (\<exists>u. discoverJWKSURI de parse allowHTTP issuer u = (Inr uri, w')))
    \<and> (\<forall>e. r = Inl e \<longrightarrow> (\<exists>u. discoverJWKSURI de parse allowHTTP issuer u = (Inl e, w') \<and> not_transient e)
         \<or> (\<exists>k last. e = DiscAborted k last \<or> e = DiscExhausted last))"
  proof (rule retry_loop_spec)
    show "\<forall>b u d u'. de_Wait de b u = (d, u') \<longrightarrow> reqs u' = reqs u" using assms(1) by (simp add: counts_requests_def)
    show "\<forall>u x u'. discoverJWKSURI de parse allowHTTP issuer u = (x, u') \<longrightarrow> reqs u' \<le> Suc (reqs u)"
      using discoverJWKSURI_count [OF assms(1)] by blast
    show "retry_loop 3 de (discoverJWKSURI de parse allowHTTP issuer) 0 discoveryInitialBackoff None w = (r, w')"
      using assms(2) by (simp add: discoverWithRetry_def discoveryAttempts_def)
  qed
  moreover have "\<exists>u doc. de_Do de (trim_suffix issuer ''/'' @ oidcDiscoveryPath) u = (Inr (200, Inr doc), w')
      \<and> dd_Issuer doc = issuer \<and> dd_JWKSURI doc = uri \<and> allowed_uri parse allowHTTP uri"
    if "discoverJWKSURI de parse allowHTTP issuer u = (Inr uri, w')" for u uri
    by (rule exI [of _ u]) (rule discoverJWKSURI_ok [OF that])
  ultimately show ?thesis by (elim conjE) (intro conjI, assumption, metis, assumption)
qed

definition sample_disc :: "string \<Rightarrow> nat disc_env" where
  "sample_disc i =
     \<lparr>de_NewRequest = (\<lambda>_. None), de_Do = (\<lambda>_ n. (Inr (200, Inr \<lparr>dd_Issuer = i, dd_JWKSURI = ''https://k''\<rparr>), Suc n)),
      de_Wait = (\<lambda>_ n. (False, n))\<rparr>"

lemma sample_disc_counts: "counts_requests (sample_disc i) id"
  by (simp add: counts_requests_def sample_disc_def)

theorem discovery_trusted_witness:
  "discoverWithRetry (sample_disc ''https://i'') sample_parse False ''https://i'' 0 = (Inr ''https://k'', 1)
   \<and> allowed_uri sample_parse False ''https://k''
   \<and> (\<exists>e. discoverWithRetry (sample_disc ''https://evil'') sample_parse False ''https://i'' 0 = (Inl e, 1) \<and> not_transient e)"
proof -
  have v: "validateHTTPSURI sample_parse f ''https://k'' False = Inr ()" for f
    unfolding validateHTTPSURI_ok by (simp add: allowed_uri_def sample_parse_def)
  have ok: "discoverWithRetry (sample_disc ''https://i'') sample_parse False ''https://i'' 0 = (Inr ''https://k'', 1)"
    by (simp add: discoverWithRetry_def discoveryAttempts_def numeral_3_eq_3 discoverJWKSURI_def sample_disc_def v Let_def)
  moreover have "discoverWithRetry (sample_disc ''https://evil'') sample_parse False ''https://i'' 0
      = (Inl (DiscIssuerMismatch ''https://evil'' ''https://i''), 1)"
    by (simp add: discoverWithRetry_def discoveryAttempts_def numeral_3_eq_3 discoverJWKSURI_def sample_disc_def Let_def)
  ultimately show ?thesis using discovery_trusted [OF sample_disc_counts ok] by auto
qed


section \<open>Construction fails closed\<close>

lemma start_cache_ok:
  assumes "start_cache env su (v, w) = (Inr x, (v', w'))"
  shows "v_jwksCache v' \<and> v_jwksURL v' = v_jwksURL v \<and> v_cfg v' = v_cfg v \<and> v_negativeKids v' = v_negativeKids v
    \<and> (cfg_KeyProvider (v_cfg v) = None \<longrightarrow>
        (\<exists>w1 w2. first_fetch env w1 = (None, w2) \<and> env_Now env w2 = (v_lastSuccess v', w')))"
proof -
  obtain r1 w1 where c: "su_NewCache su [v_jwksURL v] w = (r1, w1)" by fastforce
  obtain r2 w2 where g: "su_Register su (v_jwksURL v) jwksRefreshInterval w1 = (r2, w2)" by fastforce
  obtain e w3 where f: "first_fetch env w2 = (e, w3)" by fastforce
  obtain now w4 where n: "env_Now env w3 = (now, w4)" by fastforce
  have ok: "\<exists>x. r1 = Inr x" "\<exists>x. r2 = Inr x"
    using assms by (auto simp: start_cache_def c g Let_def split: sum.splits)
  then have "cfg_KeyProvider (v_cfg v) = None \<Longrightarrow> e = None"
    using assms by (auto simp: start_cache_def c g f n Let_def split: option.splits)
  moreover have "(v', w') = (if e = None then (v\<lparr>v_jwksCache := True, v_lastSuccess := now\<rparr>, w4) else (v\<lparr>v_jwksCache := True\<rparr>, w3))"
    using assms ok by (auto simp: start_cache_def c g f n Let_def split: option.splits if_splits)
  ultimately show ?thesis using f n by (auto split: if_splits)
qed

text \<open>
  C15. Construction fails closed. A validator that was built has a valid configuration and an empty negative cache; its key URL is allowed, and is the configured one if there is one. Without an in-process provider the
  first key fetch succeeded and its time is the last success. A validator without a key cache exists only with a provider, when no URL was configured and discovery failed for a transient reason: a rejected document is always fatal.
\<close>
theorem NewValidator_fail_closed:
  assumes "NewValidator osenv readFile pemOK parse uni env su de ctxDone cfg0 w = (Inr (v, client), w')"
  shows "valid_config parse uni (v_cfg v) \<and> v_negativeKids v = []
    \<and> (v_jwksCache v \<longrightarrow> allowed_uri parse (cfg_InsecureAllowHTTP (v_cfg v)) (v_jwksURL v)
         \<and> (cfg_JWKSURL (v_cfg v) \<noteq> [] \<longrightarrow> v_jwksURL v = cfg_JWKSURL (v_cfg v)))
    \<and> (cfg_KeyProvider (v_cfg v) = None \<longrightarrow> v_jwksCache v
         \<and> (\<exists>w1 w2. first_fetch env w1 = (None, w2) \<and> env_Now env w2 = (v_lastSuccess v, w')))
    \<and> (\<not> v_jwksCache v \<longrightarrow> cfg_KeyProvider (v_cfg v) \<noteq> None \<and> cfg_JWKSURL (v_cfg v) = []
         \<and> (\<exists>e. discoverWithRetry de parse (cfg_InsecureAllowHTTP (v_cfg v)) (cfg_Issuer (v_cfg v)) w = (Inl e, w') \<and> \<not> not_transient e))"
proof -
  obtain cfg where cfg: "ValidateConfig parse uni cfg0 = Inr cfg"
    using assms by (auto simp: NewValidator_def split: sum.splits)
  then have valid: "valid_config parse uni cfg" using ValidateConfig_ok valid_config_normalised by metis
  define v0 where "v0 = \<lparr>v_cfg = cfg, v_jwksCache = False, v_jwksURL = [], v_closed = ctxDone, v_lastRefresh = 0, v_lastSuccess = 0,
    v_negativeKids = []\<rparr>"
  have init: "init env su de parse (v0, w) = (Inr (), (v, w'))"
    using assms by (auto simp: NewValidator_def cfg v0_def split: sum.splits prod.splits)
  show ?thesis
  proof (cases "cfg_JWKSURL cfg = []")
    case False
    then have "start_cache env su (v0\<lparr>v_jwksURL := cfg_JWKSURL cfg\<rparr>, w) = (Inr (), (v, w'))"
      using init by (simp add: init_def v0_def Let_def)
    from start_cache_ok [OF this] False valid show ?thesis by (auto simp: v0_def valid_config_def)
  next
    case True
    obtain r w1 where d: "discoverWithRetry de parse (cfg_InsecureAllowHTTP cfg) (cfg_Issuer cfg) w = (r, w1)" by fastforce
    show ?thesis
    proof (cases r)
      case (Inr uri)
      then have "start_cache env su (v0\<lparr>v_jwksURL := uri\<rparr>, w1) = (Inr (), (v, w'))"
        using init True d by (simp add: init_def v0_def Let_def)
      moreover obtain u where "discoverJWKSURI de parse (cfg_InsecureAllowHTTP cfg) (cfg_Issuer cfg) u = (Inr uri, w1)"
        using retry_loop_spec [of de "\<lambda>_. 0" _ discoveryAttempts 0 discoveryInitialBackoff None w r w1] d Inr
        by (auto simp: discoverWithRetry_def)
      ultimately show ?thesis
        using start_cache_ok [of env su "v0\<lparr>v_jwksURL := uri\<rparr>" w1 "()" v w'] discoverJWKSURI_ok [of de parse] valid True
        by (fastforce simp: v0_def)
    next
      case (Inl e)
      then have "cfg_KeyProvider cfg \<noteq> None \<and> \<not> not_transient e \<and> v = v0 \<and> w' = w1"
        using init True d by (auto simp: init_def v0_def Let_def split: if_splits)
      with d Inl valid True show ?thesis by (auto simp: v0_def)
    qed
  qed
qed


definition sample_setup :: "nat jwks_setup" where
  "sample_setup = \<lparr>su_NewCache = (\<lambda>_ n. (Inr (), n)), su_Register = (\<lambda>_ _ n. (Inr (), n))\<rparr>"

definition sample_jwks :: "nat jwks_env" where
  "sample_jwks = \<lparr>env_Now = (\<lambda>n. (7, n)), env_Lookup = (\<lambda>n. (Inr [], n)), env_Refresh = (\<lambda>n. (Inr (), n))\<rparr>"

definition sample_cfg :: "nat provider Config" where
  "sample_cfg =
     \<lparr>cfg_Issuer = ''https://i'', cfg_Audiences = [''api''], cfg_AllowAnyAudience = False, cfg_JWKSURL = [],
      cfg_Leeway = 0, cfg_DisableLeeway = False, cfg_MaxJWKSStaleness = 0, cfg_AcceptedTokenTypes = [],
      cfg_MaxTokenLifetime = 0, cfg_HTTPClient = Some \<lparr>hc_Transport = None, hc_CheckRedirect = None, hc_Timeout = 0\<rparr>,
      cfg_InsecureAllowHTTP = False, cfg_AllowPrivateIP = False, cfg_CACertPath = [], cfg_AuthTokenFile = [],
      cfg_KeyProvider = None\<rparr>"

theorem NewValidator_fail_closed_witness:
  "\<exists>v client w'. NewValidator (\<lambda>_. None) (\<lambda>_. Inl []) (\<lambda>_. False) sample_parse id sample_jwks sample_setup (sample_disc ''https://i'') False
      sample_cfg 0 = (Inr (v, client), w') \<and> v_jwksCache v \<and> allowed_uri sample_parse False (v_jwksURL v)"
proof -
  let ?new = "NewValidator (\<lambda>_. None) (\<lambda>_. Inl []) (\<lambda>_. False) sample_parse id sample_jwks sample_setup (sample_disc ''https://i'') False
      sample_cfg 0"
  have "ValidateConfig sample_parse id sample_cfg = Inr (sample_cfg\<lparr>cfg_Leeway := effective_leeway sample_cfg\<rparr>)"
    unfolding ValidateConfig_ok
    by (simp add: valid_config_def sample_cfg_def allowed_uri_def sample_parse_def maxLeeway_def maxAudienceLength_def)
  moreover have "discoverWithRetry (sample_disc ''https://i'') sample_parse False ''https://i'' 0 = (Inr ''https://k'', 1)"
    using validateHTTPSURI_ok [of sample_parse _ "''https://k''" False]
    by (simp add: discoverWithRetry_def discoveryAttempts_def numeral_3_eq_3 discoverJWKSURI_def sample_disc_def Let_def
        allowed_uri_def sample_parse_def)
  ultimately have "\<exists>v client w'. ?new = (Inr (v, client), w') \<and> cfg_KeyProvider (v_cfg v) = None \<and> \<not> cfg_InsecureAllowHTTP (v_cfg v)"
    by (simp add: NewValidator_def sample_cfg_def newHTTPClient_def init_def start_cache_def sample_setup_def first_fetch_def
        sample_jwks_def Let_def)
  then obtain v client w' where n: "?new = (Inr (v, client), w')" "cfg_KeyProvider (v_cfg v) = None" "\<not> cfg_InsecureAllowHTTP (v_cfg v)" by blast
  from NewValidator_fail_closed [OF n(1)] n show ?thesis by auto
qed

end
