(* ===== verification/Mcp_Server.thy ===== *)
theory Mcp_Server
  imports Go_Prelude "HOL-Library.AList"
begin

text \<open>
  The server object of \<open>mcpcompat/server/server.go\<close>: registration of tools, resources, templates and prompts, the options,
  the advertised capabilities, the normalisation of tool schemas and the construction of a per-session SDK
  server from the registered features.

  Go maps are association lists with distinct keys, in the order the runtime iterates them. The SDK server is a state \<open>'srv\<close> with
  the operations of the record \<open>gosdk\<close> (a panic of \<open>AddTool\<close> or \<open>AddResourceTemplate\<close> is \<open>None\<close>); the JSON
  conversion between the two type families is a parameter.
\<close>

section \<open>Tool schemas\<close>

abbreviation schemaTypeKey :: string where "schemaTypeKey \<equiv> ''type''"
abbreviation schemaTypeObject :: string where "schemaTypeObject \<equiv> ''object''"

definition has_key :: "string \<Rightarrow> (string \<times> 'v) list \<Rightarrow> bool" where
  "has_key k m \<longleftrightarrow> map_of m k \<noteq> None"

definition withTypeObject :: "(string \<times> json) list \<Rightarrow> (string \<times> json) list" where
  "withTypeObject s = AList.update schemaTypeKey (JStr schemaTypeObject) s"

definition emptyObject :: json where
  "emptyObject = JObj [(schemaTypeKey, JStr schemaTypeObject)]"

definition normalizeObjectSchema :: "json \<Rightarrow> json" where
  "normalizeObjectSchema schema =
     (case schema of
        JNull \<Rightarrow> emptyObject
      | JObj s \<Rightarrow>
          if s = [] then emptyObject
          else (case map_of s schemaTypeKey of
                  Some (JStr typeStr) \<Rightarrow>
                    if typeStr = [] then
                      (if has_key ''properties'' s then JObj (withTypeObject s)
                       else if has_key ''required'' s then JObj (withTypeObject s)
                       else emptyObject)
                    else JObj s
                | Some _ \<Rightarrow> JObj s
                | None \<Rightarrow>
                    if has_key ''properties'' s then JObj (withTypeObject s)
                    else if has_key ''required'' s then JObj (withTypeObject s)
                    else JObj s)
      | JStr s \<Rightarrow> if s = [] then emptyObject else JStr s
      | other \<Rightarrow> other)"

text \<open>What the SDK accepts: a schema whose top-level type is literally \<open>object\<close>.\<close>

definition object_schema :: "json \<Rightarrow> bool" where
  "object_schema j = (case j of JObj s \<Rightarrow> map_of s schemaTypeKey = Some (JStr schemaTypeObject) | _ \<Rightarrow> False)"

section \<open>Registration units and the SDK\<close>

record 'x gotool =
  gt_Name :: string
  gt_InputSchema :: json
  gt_rest :: 'x

record 'x ServerTool =
  st_Name :: string
  st_Tool :: "'x gotool option"
  st_Handler :: nat

text \<open>A tool carries its name, the result of the JSON conversion to the SDK's type (\<open>None\<close>: the
  conversion fails) and a handle of its handler. Resources, templates and prompts likewise carry their
  key, whether the conversion succeeds, and handles of their two handlers.\<close>

record ServerResource =
  sr_Key :: string
  sr_converts :: bool
  sr_Handler :: nat
  sr_resultHandler :: "nat option"

record ServerPrompt =
  sp_Name :: string
  sp_converts :: bool
  sp_Handler :: nat

datatype wrapped = ContentsHandler nat | ResultHandler nat

record ('srv, 'x) gosdk =
  sdkAddTool :: "'x gotool \<Rightarrow> nat \<Rightarrow> 'srv \<Rightarrow> 'srv option"
  sdkRemoveTools :: "string list \<Rightarrow> 'srv \<Rightarrow> 'srv"
  sdkAddResource :: "ServerResource \<Rightarrow> wrapped \<Rightarrow> 'srv \<Rightarrow> 'srv"
  sdkAddResourceTemplate :: "ServerResource \<Rightarrow> wrapped \<Rightarrow> 'srv \<Rightarrow> 'srv option"
  sdkAddPrompt :: "ServerPrompt \<Rightarrow> 'srv \<Rightarrow> 'srv"

definition toGoSDKTool :: "'x ServerTool \<Rightarrow> 'x gotool option" where
  "toGoSDKTool t =
     (case st_Tool t of
        None \<Rightarrow> None
      | Some out \<Rightarrow> Some (out\<lparr>gt_InputSchema := normalizeObjectSchema (gt_InputSchema out)\<rparr>))"

definition wrapServerResource :: "ServerResource \<Rightarrow> wrapped" where
  "wrapServerResource sr =
     (case sr_resultHandler sr of Some h \<Rightarrow> ResultHandler h | None \<Rightarrow> ContentsHandler (sr_Handler sr))"

definition wrapServerResourceTemplate :: "ServerResource \<Rightarrow> wrapped" where
  "wrapServerResourceTemplate srt =
     (case sr_resultHandler srt of Some h \<Rightarrow> ResultHandler h | None \<Rightarrow> ContentsHandler (sr_Handler srt))"

section \<open>The server object\<close>

record 'x MCPServer =
  srv_name :: string
  srv_version :: string
  toolsDeclared :: bool
  toolListChanged :: bool
  resourcesDeclared :: bool
  resourceSubscribe :: bool
  resourceListChanged :: bool
  promptsDeclared :: bool
  promptListChanged :: bool
  logging_on :: bool
  pageSize :: int
  completionHandler :: "nat option"
  subscribeHandler :: "nat option"
  unsubscribeHandler :: "nat option"
  g_tools :: "(string \<times> 'x ServerTool) list"
  g_resources :: "(string \<times> ServerResource) list"
  g_resourceTemplates :: "(string \<times> ServerResource) list"
  g_prompts :: "(string \<times> ServerPrompt) list"

type_synonym 'x serverOption = "'x MCPServer \<Rightarrow> 'x MCPServer"

definition NewMCPServer :: "string \<Rightarrow> string \<Rightarrow> 'x serverOption list \<Rightarrow> 'x MCPServer" where
  "NewMCPServer name version opts =
     foldl (\<lambda>s opt. opt s)
       \<lparr>srv_name = name, srv_version = version, toolsDeclared = False, toolListChanged = False,
        resourcesDeclared = False, resourceSubscribe = False, resourceListChanged = False,
        promptsDeclared = False, promptListChanged = False, logging_on = False, pageSize = 0,
        completionHandler = None, subscribeHandler = None, unsubscribeHandler = None,
        g_tools = [], g_resources = [], g_resourceTemplates = [], g_prompts = []\<rparr> opts"

definition WithToolCapabilities :: "bool \<Rightarrow> 'x serverOption" where
  "WithToolCapabilities listChanged s = s\<lparr>toolsDeclared := True, toolListChanged := listChanged\<rparr>"

definition WithResourceCapabilities :: "bool \<Rightarrow> bool \<Rightarrow> 'x serverOption" where
  "WithResourceCapabilities subscribe listChanged s =
     s\<lparr>resourcesDeclared := True, resourceSubscribe := subscribe, resourceListChanged := listChanged\<rparr>"

definition WithPromptCapabilities :: "bool \<Rightarrow> 'x serverOption" where
  "WithPromptCapabilities listChanged s = s\<lparr>promptsDeclared := True, promptListChanged := listChanged\<rparr>"

definition WithLogging :: "'x serverOption" where
  "WithLogging s = s\<lparr>logging_on := True\<rparr>"

definition WithCompletionHandler :: "nat option \<Rightarrow> 'x serverOption" where
  "WithCompletionHandler h s = s\<lparr>completionHandler := h\<rparr>"

definition WithSubscribeHandlers :: "nat option \<Rightarrow> nat option \<Rightarrow> 'x serverOption" where
  "WithSubscribeHandlers subscribe unsubscribe s =
     (if subscribe = None \<or> unsubscribe = None then s
      else s\<lparr>subscribeHandler := subscribe, unsubscribeHandler := unsubscribe\<rparr>)"

definition WithPageSize :: "int \<Rightarrow> 'x serverOption" where
  "WithPageSize n s = s\<lparr>pageSize := (if n < 0 then 0 else n)\<rparr>"

record capabilities =
  cap_Tools :: "bool option"
  cap_Resources :: "(bool \<times> bool) option"
  cap_Prompts :: "bool option"
  cap_Logging :: bool

definition serverCapabilities :: "'x MCPServer \<Rightarrow> capabilities" where
  "serverCapabilities s =
     \<lparr>cap_Tools = (if toolsDeclared s then Some (toolListChanged s) else None),
      cap_Resources = (if resourcesDeclared s then Some (resourceSubscribe s, resourceListChanged s) else None),
      cap_Prompts = (if promptsDeclared s then Some (promptListChanged s) else None),
      cap_Logging = logging_on s\<rparr>"

definition AddTool :: "'x ServerTool \<Rightarrow> 'x MCPServer \<Rightarrow> 'x MCPServer" where
  "AddTool t s = s\<lparr>g_tools := AList.update (st_Name t) t (g_tools s)\<rparr>"

primrec add_all :: "'x ServerTool list \<Rightarrow> (string \<times> 'x ServerTool) list \<Rightarrow> (string \<times> 'x ServerTool) list" where
  "add_all [] m = m"
| "add_all (t # ts) m = add_all ts (AList.update (st_Name t) t m)"

definition AddTools :: "'x ServerTool list \<Rightarrow> 'x MCPServer \<Rightarrow> 'x MCPServer" where
  "AddTools tools s = s\<lparr>g_tools := add_all tools (g_tools s)\<rparr>"

definition SetTools :: "'x ServerTool list \<Rightarrow> 'x MCPServer \<Rightarrow> 'x MCPServer" where
  "SetTools tools s = s\<lparr>g_tools := add_all tools []\<rparr>"

primrec delete_all :: "string list \<Rightarrow> (string \<times> 'v) list \<Rightarrow> (string \<times> 'v) list" where
  "delete_all [] m = m"
| "delete_all (n # ns) m = delete_all ns (AList.delete n m)"

definition DeleteTools :: "string list \<Rightarrow> 'x MCPServer \<Rightarrow> 'x MCPServer" where
  "DeleteTools names s = s\<lparr>g_tools := delete_all names (g_tools s)\<rparr>"

definition AddResource :: "ServerResource \<Rightarrow> 'x MCPServer \<Rightarrow> 'x MCPServer" where
  "AddResource r s = s\<lparr>g_resources := AList.update (sr_Key r) (r\<lparr>sr_resultHandler := None\<rparr>) (g_resources s)\<rparr>"

definition AddResourceTemplate :: "ServerResource \<Rightarrow> 'x MCPServer \<Rightarrow> 'x MCPServer" where
  "AddResourceTemplate r s =
     s\<lparr>g_resourceTemplates := AList.update (sr_Key r) (r\<lparr>sr_resultHandler := None\<rparr>) (g_resourceTemplates s)\<rparr>"

text \<open>The contents adapter of a result handler \<open>h\<close> is identified with the handle of \<open>h\<close> itself.\<close>

definition NewServerResourceWithResult :: "string \<Rightarrow> bool \<Rightarrow> nat \<Rightarrow> ServerResource" where
  "NewServerResourceWithResult key converts h =
     \<lparr>sr_Key = key, sr_converts = converts, sr_Handler = h, sr_resultHandler = Some h\<rparr>"

definition AddResourceWithResult :: "string \<Rightarrow> bool \<Rightarrow> nat \<Rightarrow> 'x MCPServer \<Rightarrow> 'x MCPServer" where
  "AddResourceWithResult key converts h s =
     s\<lparr>g_resources := AList.update key (NewServerResourceWithResult key converts h) (g_resources s)\<rparr>"

definition AddResourceTemplateWithResult :: "string \<Rightarrow> bool \<Rightarrow> nat \<Rightarrow> 'x MCPServer \<Rightarrow> 'x MCPServer" where
  "AddResourceTemplateWithResult key converts h s =
     s\<lparr>g_resourceTemplates := AList.update key (NewServerResourceWithResult key converts h) (g_resourceTemplates s)\<rparr>"

definition AddPrompt :: "ServerPrompt \<Rightarrow> 'x MCPServer \<Rightarrow> 'x MCPServer" where
  "AddPrompt p s = s\<lparr>g_prompts := AList.update (sp_Name p) p (g_prompts s)\<rparr>"

section \<open>Building a per-session SDK server\<close>

datatype build_fail =
    ConvertTool string | RejectTool string | ConvertResource string | ConvertPrompt string
  | ConvertTemplate string | RejectTemplate string

definition addGlobalTool ::
  "('srv, 'x) gosdk \<Rightarrow> 'x gotool \<Rightarrow> nat \<Rightarrow> string \<Rightarrow> 'srv \<Rightarrow> (build_fail, 'srv) result" where
  "addGlobalTool sdk gt h name srv =
     (case sdkAddTool sdk gt h srv of None \<Rightarrow> Inl (RejectTool name) | Some srv' \<Rightarrow> Inr srv')"

definition addGlobalResourceTemplate ::
  "('srv, 'x) gosdk \<Rightarrow> ServerResource \<Rightarrow> wrapped \<Rightarrow> string \<Rightarrow> 'srv \<Rightarrow> (build_fail, 'srv) result" where
  "addGlobalResourceTemplate sdk grt h name srv =
     (case sdkAddResourceTemplate sdk grt h srv of None \<Rightarrow> Inl (RejectTemplate name) | Some srv' \<Rightarrow> Inr srv')"

primrec register_tools :: "('srv, 'x) gosdk \<Rightarrow> (string \<times> 'x ServerTool) list \<Rightarrow> 'srv \<Rightarrow> (build_fail, 'srv) result" where
  "register_tools sdk [] srv = Inr srv"
| "register_tools sdk (p # ps) srv =
     (case toGoSDKTool (snd p) of
        None \<Rightarrow> Inl (ConvertTool (st_Name (snd p)))
      | Some gt \<Rightarrow> bindE (addGlobalTool sdk gt (st_Handler (snd p)) (st_Name (snd p)) srv) (register_tools sdk ps))"

primrec register_resources :: "('srv, 'x) gosdk \<Rightarrow> (string \<times> ServerResource) list \<Rightarrow> 'srv \<Rightarrow> (build_fail, 'srv) result" where
  "register_resources sdk [] srv = Inr srv"
| "register_resources sdk (p # ps) srv =
     (if \<not> sr_converts (snd p) then Inl (ConvertResource (sr_Key (snd p)))
      else register_resources sdk ps (sdkAddResource sdk (snd p) (wrapServerResource (snd p)) srv))"

primrec register_prompts :: "('srv, 'x) gosdk \<Rightarrow> (string \<times> ServerPrompt) list \<Rightarrow> 'srv \<Rightarrow> (build_fail, 'srv) result" where
  "register_prompts sdk [] srv = Inr srv"
| "register_prompts sdk (p # ps) srv =
     (if \<not> sp_converts (snd p) then Inl (ConvertPrompt (sp_Name (snd p)))
      else register_prompts sdk ps (sdkAddPrompt sdk (snd p) srv))"

primrec register_templates :: "('srv, 'x) gosdk \<Rightarrow> (string \<times> ServerResource) list \<Rightarrow> 'srv \<Rightarrow> (build_fail, 'srv) result" where
  "register_templates sdk [] srv = Inr srv"
| "register_templates sdk (p # ps) srv =
     (if \<not> sr_converts (snd p) then Inl (ConvertTemplate (sr_Key (snd p)))
      else bindE (addGlobalResourceTemplate sdk (snd p) (wrapServerResourceTemplate (snd p)) (sr_Key (snd p)) srv)
             (register_templates sdk ps))"

definition registerGlobalFeatures :: "('srv, 'x) gosdk \<Rightarrow> 'x MCPServer \<Rightarrow> 'srv \<Rightarrow> (build_fail, 'srv) result" where
  "registerGlobalFeatures sdk s srv =
     bindE (register_tools sdk (g_tools s) srv) (\<lambda>srv1.
     bindE (register_resources sdk (g_resources s) srv1) (\<lambda>srv2.
     bindE (register_prompts sdk (g_prompts s) srv2) (register_templates sdk (g_resourceTemplates s))))"

text \<open>The options handed to the SDK constructor (\<open>NewServer\<close>, the parameter \<open>fresh\<close>).\<close>

record sdk_options =
  opt_PageSize :: int
  opt_Capabilities :: capabilities
  opt_Completion :: "nat option"
  opt_Subscribe :: "nat option"
  opt_Unsubscribe :: "nat option"
  opt_GetSessionID :: bool

definition wireSubscribeHandlers :: "'x MCPServer \<Rightarrow> sdk_options \<Rightarrow> sdk_options" where
  "wireSubscribeHandlers s opts =
     (if subscribeHandler s = None \<or> unsubscribeHandler s = None then opts
      else opts\<lparr>opt_Subscribe := subscribeHandler s, opt_Unsubscribe := unsubscribeHandler s\<rparr>)"

definition server_options :: "'x MCPServer \<Rightarrow> bool \<Rightarrow> sdk_options" where
  "server_options s genSessionID =
     (let opts = wireSubscribeHandlers s
            \<lparr>opt_PageSize = pageSize s, opt_Capabilities = serverCapabilities s,
             opt_Completion = completionHandler s, opt_Subscribe = None, opt_Unsubscribe = None,
             opt_GetSessionID = False\<rparr>
      in if genSessionID then opts\<lparr>opt_GetSessionID := True\<rparr> else opts)"

definition buildServer ::
  "('srv, 'x) gosdk \<Rightarrow> (string \<Rightarrow> string \<Rightarrow> sdk_options \<Rightarrow> 'srv) \<Rightarrow> 'x MCPServer \<Rightarrow> bool \<Rightarrow> (build_fail, 'srv) result" where
  "buildServer sdk newServer s genSessionID =
     registerGlobalFeatures sdk s (newServer (srv_name s) (srv_version s) (server_options s genSessionID))"

section \<open>Schema normalisation\<close>

text \<open>The shapes the normalisation rewrites, as its documentation lists them.\<close>

definition lenient :: "json \<Rightarrow> bool" where
  "lenient j =
     (case j of
        JNull \<Rightarrow> True
      | JStr s \<Rightarrow> s = []
      | JObj s \<Rightarrow> s = [] \<or> map_of s schemaTypeKey = Some (JStr [])
          \<or> map_of s schemaTypeKey = None \<and> (has_key ''properties'' s \<or> has_key ''required'' s)
      | _ \<Rightarrow> False)"

lemma emptyObject_object [simp]: "object_schema emptyObject"
  by (simp add: object_schema_def emptyObject_def)

lemma withTypeObject_object [simp]: "object_schema (JObj (withTypeObject s))"
  by (simp add: object_schema_def withTypeObject_def update_conv')

lemma withTypeObject_other: "k \<noteq> schemaTypeKey \<Longrightarrow> map_of (withTypeObject s) k = map_of s k"
  by (simp add: withTypeObject_def update_conv')

lemma normalize_lenient: "lenient j \<Longrightarrow> object_schema (normalizeObjectSchema j)"
  by (cases j) (auto simp: lenient_def normalizeObjectSchema_def split: if_splits option.splits)

lemma normalize_other: "\<not> lenient j \<Longrightarrow> normalizeObjectSchema j = j"
  by (cases j) (auto simp: lenient_def normalizeObjectSchema_def split: if_splits option.splits json.splits)

lemma object_not_lenient: "object_schema j \<Longrightarrow> \<not> lenient j"
  by (cases j) (auto simp: lenient_def object_schema_def)

text \<open>
  Schema normalisation, exactly: the result is acceptable to the SDK if and only if the schema already was or
  has one of the documented lenient shapes; every other schema passes through verbatim; normalising twice changes
  nothing; and a schema with \<open>properties\<close> or \<open>required\<close> keeps all its other fields.
\<close>
theorem normalizeObjectSchema_spec:
  "object_schema (normalizeObjectSchema j) = (object_schema j \<or> lenient j)
   \<and> normalizeObjectSchema (normalizeObjectSchema j) = normalizeObjectSchema j
   \<and> (if lenient j then
        (case j of
           JObj s \<Rightarrow> (if has_key ''properties'' s \<or> has_key ''required'' s
                   then (\<exists>s'. normalizeObjectSchema j = JObj s' \<and> (map_of s')(schemaTypeKey := None) = (map_of s)(schemaTypeKey := None))
                   else normalizeObjectSchema j = emptyObject)
         | _ \<Rightarrow> normalizeObjectSchema j = emptyObject)
      else normalizeObjectSchema j = j)"
proof (cases "lenient j")
  case True
  note ob = normalize_lenient [OF True]
  have idem: "normalizeObjectSchema (normalizeObjectSchema j) = normalizeObjectSchema j"
    by (rule normalize_other [OF object_not_lenient [OF ob]])
  have same: "(map_of (withTypeObject s))(schemaTypeKey := None) = (map_of s)(schemaTypeKey := None)" for s
    by (auto simp: fun_eq_iff withTypeObject_other)
  have "case j of
           JObj s \<Rightarrow> (if has_key ''properties'' s \<or> has_key ''required'' s
                   then (\<exists>s'. normalizeObjectSchema j = JObj s' \<and> (map_of s')(schemaTypeKey := None) = (map_of s)(schemaTypeKey := None))
                   else normalizeObjectSchema j = emptyObject)
         | _ \<Rightarrow> normalizeObjectSchema j = emptyObject"
  proof (cases j)
    case (JObj s)
    show ?thesis
    proof (cases "has_key ''properties'' s \<or> has_key ''required'' s")
      case has: True
      then have "s \<noteq> []" by (auto simp: has_key_def)
      then have "normalizeObjectSchema j = JObj (withTypeObject s)"
        using JObj has True by (auto simp: normalizeObjectSchema_def lenient_def)
      with JObj has same show ?thesis by auto
    next
      case False
      with JObj True show ?thesis by (auto simp: normalizeObjectSchema_def lenient_def)
    qed
  qed (use True in \<open>auto simp: normalizeObjectSchema_def lenient_def\<close>)
  with True ob idem show ?thesis by simp
qed (simp add: normalize_other)

text \<open>
  Fields are not always preserved: for an empty type string without \<open>properties\<close> or \<open>required\<close> the other fields of
  the schema are dropped, here a closed-object constraint, although the documentation says existing fields are kept.
\<close>
theorem normalize_drops_fields:
  "normalizeObjectSchema (JObj [(''type'', JStr []), (''additionalProperties'', JBool False)])
     = JObj [(''type'', JStr ''object'')]"
  by (simp add: normalizeObjectSchema_def emptyObject_def has_key_def)

section \<open>Building succeeds exactly for acceptable registrations\<close>

text \<open>\<open>out_ok\<close> says that the SDK takes the part of a tool beside its input schema: the output schema, when there is one, is an object schema too.\<close>

definition tool_accepted :: "('x \<Rightarrow> bool) \<Rightarrow> 'x ServerTool \<Rightarrow> bool" where
  "tool_accepted out_ok t = (case st_Tool t of None \<Rightarrow> False
     | Some g \<Rightarrow> (object_schema (gt_InputSchema g) \<or> lenient (gt_InputSchema g)) \<and> out_ok (gt_rest g))"

lemma toGoSDKTool_accepted:
  "tool_accepted out_ok t \<longleftrightarrow> (\<exists>g. toGoSDKTool t = Some g \<and> object_schema (gt_InputSchema g) \<and> out_ok (gt_rest g))"
  using normalize_lenient normalize_other
  by (fastforce simp: tool_accepted_def toGoSDKTool_def split: option.splits)

text \<open>The documented panics of the SDK: \<open>AddTool\<close> rejects exactly the tools whose input schema or output schema is not an object schema,
  \<open>AddResourceTemplate\<close> exactly templates whose URI template is invalid or not absolute.\<close>

definition sdk_panics :: "('srv, 'x) gosdk \<Rightarrow> ('x \<Rightarrow> bool) \<Rightarrow> (ServerResource \<Rightarrow> bool) \<Rightarrow> bool" where
  "sdk_panics sdk out_ok absolute \<longleftrightarrow>
     (\<forall>g h srv. (sdkAddTool sdk g h srv = None) = (\<not> (object_schema (gt_InputSchema g) \<and> out_ok (gt_rest g))))
     \<and> (\<forall>r h srv. (sdkAddResourceTemplate sdk r h srv = None) = (\<not> absolute r))"

lemma register_tools_ok:
  assumes "sdk_panics sdk out_ok absolute"
  shows "is_ok (register_tools sdk ps srv) \<longleftrightarrow> list_all (\<lambda>p. tool_accepted out_ok (snd p)) ps"
proof (induction ps arbitrary: srv)
  case (Cons p ps)
  show ?case
  proof (cases "toGoSDKTool (snd p)")
    case None
    then show ?thesis by (simp add: toGoSDKTool_accepted)
  next
    case (Some gt)
    have "sdkAddTool sdk gt (st_Handler (snd p)) srv = None \<longleftrightarrow> \<not> (object_schema (gt_InputSchema gt) \<and> out_ok (gt_rest gt))"
      using assms by (simp add: sdk_panics_def)
    with Some Cons show ?thesis
      by (cases "sdkAddTool sdk gt (st_Handler (snd p)) srv")
         (auto simp: addGlobalTool_def toGoSDKTool_accepted)
  qed
qed simp

lemma register_templates_ok:
  assumes "sdk_panics sdk out_ok absolute"
  shows "is_ok (register_templates sdk ps srv) \<longleftrightarrow> list_all (\<lambda>p. sr_converts (snd p) \<and> absolute (snd p)) ps"
proof (induction ps arbitrary: srv)
  case (Cons p ps)
  have "sdkAddResourceTemplate sdk (snd p) (wrapServerResourceTemplate (snd p)) srv = None \<longleftrightarrow> \<not> absolute (snd p)"
    using assms by (simp add: sdk_panics_def)
  with Cons show ?case
    by (cases "sdkAddResourceTemplate sdk (snd p) (wrapServerResourceTemplate (snd p)) srv")
       (simp_all add: addGlobalResourceTemplate_def)
qed simp

lemma register_resources_ok: "is_ok (register_resources sdk ps srv) \<longleftrightarrow> list_all (\<lambda>p. sr_converts (snd p)) ps"
  by (induction ps arbitrary: srv) auto

lemma register_prompts_ok: "is_ok (register_prompts sdk ps srv) \<longleftrightarrow> list_all (\<lambda>p. sp_converts (snd p)) ps"
  by (induction ps arbitrary: srv) auto

lemma is_ok_bindE: "is_ok (bindE r f) \<longleftrightarrow> (\<exists>x. r = Inr x \<and> is_ok (f x))"
  by (cases r) auto

text \<open>
  Building the SDK server is total: no SDK panic escapes, and the build succeeds exactly when every tool converts to a
  schema that is, or normalises to, an object schema with an output schema the SDK takes, every resource and prompt converts and every template
  converts and is absolute; the answer does not depend on the order the feature maps are iterated in.
\<close>
theorem buildServer_ok_iff:
  assumes "sdk_panics sdk out_ok absolute"
  shows "is_ok (buildServer sdk newServer s gen) \<longleftrightarrow>
     list_all (\<lambda>p. tool_accepted out_ok (snd p)) (g_tools s) \<and> list_all (\<lambda>p. sr_converts (snd p)) (g_resources s)
     \<and> list_all (\<lambda>p. sp_converts (snd p)) (g_prompts s)
     \<and> list_all (\<lambda>p. sr_converts (snd p) \<and> absolute (snd p)) (g_resourceTemplates s)"
proof -
  have step: "(\<exists>x. r = Inr x \<and> P) \<longleftrightarrow> is_ok r \<and> P" for r :: "(build_fail, 'a) result" and P
    by (auto simp: is_ok_iff)
  show ?thesis
    unfolding buildServer_def registerGlobalFeatures_def is_ok_bindE register_templates_ok [OF assms] step
      register_prompts_ok register_resources_ok register_tools_ok [OF assms] ..
qed

definition sample_sdk :: "(string list, 'x) gosdk" where
  "sample_sdk =
     \<lparr>sdkAddTool = (\<lambda>g h srv. if object_schema (gt_InputSchema g) then Some (gt_Name g # srv) else None),
      sdkRemoveTools = (\<lambda>ns srv. filter (\<lambda>n. n \<notin> set ns) srv),
      sdkAddResource = (\<lambda>r h srv. srv), sdkAddResourceTemplate = (\<lambda>r h srv. Some srv), sdkAddPrompt = (\<lambda>p srv. srv)\<rparr>"

theorem buildServer_ok_iff_witness:
  "sdk_panics (sample_sdk :: (string list, unit) gosdk) (\<lambda>_. True) (\<lambda>_. True)
   \<and> is_ok (buildServer (sample_sdk :: (string list, unit) gosdk) (\<lambda>_ _ _. [])
       (AddTool \<lparr>st_Name = ''t'', st_Tool = Some \<lparr>gt_Name = ''t'', gt_InputSchema = JNull, gt_rest = ()\<rparr>, st_Handler = 0\<rparr>
         (NewMCPServer ''n'' ''v'' [])) False)"
proof -
  have p: "sdk_panics (sample_sdk :: (string list, unit) gosdk) (\<lambda>_. True) (\<lambda>_. True)"
    by (simp add: sdk_panics_def sample_sdk_def)
  show ?thesis using p
    by (simp add: buildServer_ok_iff [OF p] AddTool_def NewMCPServer_def tool_accepted_def lenient_def)
qed

text \<open>
  Subscription handlers reach the SDK only in pairs, whatever options a server is created with, so the SDK's
  panic on a lone handler cannot occur; and a declared capability is advertised with the last declared flags.
\<close>
theorem server_options_paired:
  "(opt_Subscribe (server_options s gen) = None) = (opt_Unsubscribe (server_options s gen) = None)
   \<and> cap_Tools (opt_Capabilities (server_options (WithToolCapabilities b s) gen)) = Some b
   \<and> cap_Resources (opt_Capabilities (server_options (WithResourceCapabilities c d s) gen)) = Some (c, d)
   \<and> cap_Prompts (opt_Capabilities (server_options (WithPromptCapabilities e s) gen)) = Some e
   \<and> 0 \<le> opt_PageSize (server_options (WithPageSize n s) gen)"
  by (auto simp: server_options_def wireSubscribeHandlers_def serverCapabilities_def WithToolCapabilities_def
      WithResourceCapabilities_def WithPromptCapabilities_def WithPageSize_def Let_def)

end
