(* ===== verification/Mcp_Session.thy ===== *)
theory Mcp_Session
  imports Mcp_Server
begin

text \<open>
  Client sessions (\<open>mcpcompat/server/session.go\<close>). The state \<open>world\<close> holds the session objects by address, the two registries
  of the server (\<open>sessions\<close> and \<open>localSessions\<close>), the per-session SDK servers by address, and a
  log of the objects whose registration hooks ran. Closing a closed channel panics; the result \<open>None\<close> stands
  for that panic. A hook of the host acts on a session through the interfaces \<open>SessionWithTools\<close>,
  \<open>SessionWithResources\<close>, \<open>SessionWithResourceTemplates\<close> and \<open>SessionWithPrompts\<close>: it is a function that yields the list of overlays it sets.

  The locale \<open>session_registry\<close> is the contract of the registry towards the dispatch code; its
  interpretation discharges it for \<open>sessionFor\<close> and \<open>forgetSession\<close>.
\<close>

section \<open>State\<close>

record 'x clientSession =
  cs_id :: string
  initialized :: bool
  registered :: bool
  chan_open :: bool
  closeOnce :: bool
  goSession :: "nat option"
  has_owner :: bool
  boundServer :: "nat option"
  s_tools :: "(string \<times> 'x ServerTool) list"
  s_resources :: "(string \<times> ServerResource) list"
  s_resourceTemplates :: "(string \<times> ServerResource) list"
  s_prompts :: "(string \<times> ServerPrompt) list"
  sdkToolNames :: "string list"

record ('srv, 'x) world =
  w_objs :: "nat \<Rightarrow> 'x clientSession"
  w_next :: nat
  w_sessions :: "string \<rightharpoonup> nat"
  w_local :: "string set"
  w_srvs :: "nat \<Rightarrow> 'srv"
  w_fired :: "nat list"

text \<open>An SDK session as the shim sees it: its identity and its ID, empty for a stateless temporary session.\<close>

record serverSession =
  ss_addr :: nat
  ss_ID :: string

text \<open>A context: the value under \<open>sessionContextKey\<close> and the values of the host under its own keys.\<close>

record ctx =
  ctx_session :: "nat option"
  ctx_vals :: "string \<rightharpoonup> string"

definition upd_obj :: "nat \<Rightarrow> ('x clientSession \<Rightarrow> 'x clientSession) \<Rightarrow> ('srv, 'x) world \<Rightarrow> ('srv, 'x) world" where
  "upd_obj a f w = w\<lparr>w_objs := (w_objs w)(a := f (w_objs w a))\<rparr>"

definition set_srv :: "nat \<Rightarrow> 'srv \<Rightarrow> ('srv, 'x) world \<Rightarrow> ('srv, 'x) world" where
  "set_srv i v w = w\<lparr>w_srvs := (w_srvs w)(i := v)\<rparr>"

section \<open>Sessions\<close>

definition fresh_session :: "string \<Rightarrow> 'x clientSession" where
  "fresh_session sid =
     \<lparr>cs_id = sid, initialized = False, registered = False, chan_open = True, closeOnce = False, goSession = None,
      has_owner = False, boundServer = None, s_tools = [], s_resources = [], s_resourceTemplates = [], s_prompts = [],
      sdkToolNames = []\<rparr>"

definition newClientSession :: "string \<Rightarrow> ('srv, 'x) world \<Rightarrow> nat \<times> ('srv, 'x) world" where
  "newClientSession sid w =
     (w_next w, w\<lparr>w_objs := (w_objs w)(w_next w := fresh_session sid), w_next := Suc (w_next w)\<rparr>)"

definition Initialize :: "nat \<Rightarrow> ('srv, 'x) world \<Rightarrow> ('srv, 'x) world" where
  "Initialize a = upd_obj a (\<lambda>cs. cs\<lparr>initialized := True\<rparr>)"

definition Initialized :: "nat \<Rightarrow> ('srv, 'x) world \<Rightarrow> bool" where
  "Initialized a w = initialized (w_objs w a)"

definition SessionID :: "nat \<Rightarrow> ('srv, 'x) world \<Rightarrow> string" where
  "SessionID a w = cs_id (w_objs w a)"

text \<open>\<open>notifClose.Do(close(notifCh))\<close>\<close>

definition close_notif :: "nat \<Rightarrow> ('srv, 'x) world \<Rightarrow> ('srv, 'x) world option" where
  "close_notif a w =
     (if closeOnce (w_objs w a) then Some w
      else if \<not> chan_open (w_objs w a) then None
      else Some (upd_obj a (\<lambda>cs. cs\<lparr>closeOnce := True, chan_open := False\<rparr>) w))"

section \<open>Reconciling overlays with the SDK server\<close>

definition addSessionTool :: "('srv, 'x) gosdk \<Rightarrow> 'x gotool \<Rightarrow> nat \<Rightarrow> 'srv \<Rightarrow> 'srv \<times> bool" where
  "addSessionTool sdk gt h srv = (case sdkAddTool sdk gt h srv of None \<Rightarrow> (srv, False) | Some srv' \<Rightarrow> (srv', True))"

primrec add_overlay ::
  "('srv, 'x) gosdk \<Rightarrow> (string \<times> 'x ServerTool) list \<Rightarrow> 'srv \<Rightarrow> string list \<Rightarrow> 'srv \<times> string list" where
  "add_overlay sdk [] srv names = (srv, names)"
| "add_overlay sdk (p # ps) srv names =
     (case toGoSDKTool (snd p) of
        None \<Rightarrow> add_overlay sdk ps srv names
      | Some gt \<Rightarrow>
          (case addSessionTool sdk gt (st_Handler (snd p)) srv of
             (srv', False) \<Rightarrow> add_overlay sdk ps srv' names
           | (srv', True) \<Rightarrow> add_overlay sdk ps srv' (fst p # names)))"

definition syncSessionTools :: "('srv, 'x) gosdk \<Rightarrow> nat \<Rightarrow> nat \<Rightarrow> ('srv, 'x) world \<Rightarrow> ('srv, 'x) world" where
  "syncSessionTools sdk srv a w =
     (case add_overlay sdk (s_tools (w_objs w a)) (w_srvs w srv) [] of
        (v, newNames) \<Rightarrow>
          let removed = filter (\<lambda>name. name \<notin> set newNames) (sdkToolNames (w_objs w a));
              v' = (if removed \<noteq> [] then sdkRemoveTools sdk removed v else v)
          in upd_obj a (\<lambda>cs. cs\<lparr>sdkToolNames := newNames\<rparr>) (set_srv srv v' w))"

definition syncSessionResources :: "('srv, 'x) gosdk \<Rightarrow> nat \<Rightarrow> nat \<Rightarrow> ('srv, 'x) world \<Rightarrow> ('srv, 'x) world" where
  "syncSessionResources sdk srv a w =
     set_srv srv
       (foldl (\<lambda>v p. if sr_converts (snd p) then sdkAddResource sdk (snd p) (wrapServerResource (snd p)) v else v)
          (w_srvs w srv) (s_resources (w_objs w a))) w"

definition addSessionResourceTemplate :: "('srv, 'x) gosdk \<Rightarrow> ServerResource \<Rightarrow> 'srv \<Rightarrow> 'srv \<times> bool" where
  "addSessionResourceTemplate sdk srt srv =
     (case sdkAddResourceTemplate sdk srt (wrapServerResourceTemplate srt) srv of
        None \<Rightarrow> (srv, False) | Some srv' \<Rightarrow> (srv', True))"

definition syncSessionResourceTemplates :: "('srv, 'x) gosdk \<Rightarrow> nat \<Rightarrow> nat \<Rightarrow> ('srv, 'x) world \<Rightarrow> ('srv, 'x) world" where
  "syncSessionResourceTemplates sdk srv a w =
     set_srv srv
       (foldl (\<lambda>v p. if sr_converts (snd p) then fst (addSessionResourceTemplate sdk (snd p) v) else v)
          (w_srvs w srv) (s_resourceTemplates (w_objs w a))) w"

definition syncSessionPrompts :: "('srv, 'x) gosdk \<Rightarrow> nat \<Rightarrow> nat \<Rightarrow> ('srv, 'x) world \<Rightarrow> ('srv, 'x) world" where
  "syncSessionPrompts sdk srv a w =
     set_srv srv
       (foldl (\<lambda>v p. if sp_converts (snd p) then sdkAddPrompt sdk (snd p) v else v)
          (w_srvs w srv) (s_prompts (w_objs w a))) w"

text \<open>The tail of every \<open>SetSession\<close> method: reconcile if a server and an owner are bound.\<close>

definition if_bound :: "nat \<Rightarrow> (nat \<Rightarrow> ('srv, 'x) world \<Rightarrow> ('srv, 'x) world) \<Rightarrow> ('srv, 'x) world \<Rightarrow> ('srv, 'x) world" where
  "if_bound a sync w =
     (case boundServer (w_objs w a) of
        None \<Rightarrow> w
      | Some srv \<Rightarrow> if has_owner (w_objs w a) then sync srv w else w)"

definition GetSessionTools :: "nat \<Rightarrow> ('srv, 'x) world \<Rightarrow> (string \<times> 'x ServerTool) list" where
  "GetSessionTools a w = s_tools (w_objs w a)"

definition SetSessionTools ::
  "('srv, 'x) gosdk \<Rightarrow> (string \<times> 'x ServerTool) list \<Rightarrow> nat \<Rightarrow> ('srv, 'x) world \<Rightarrow> ('srv, 'x) world" where
  "SetSessionTools sdk ts a w =
     if_bound a (\<lambda>srv. syncSessionTools sdk srv a) (upd_obj a (\<lambda>cs. cs\<lparr>s_tools := ts\<rparr>) w)"

definition GetSessionResources :: "nat \<Rightarrow> ('srv, 'x) world \<Rightarrow> (string \<times> ServerResource) list" where
  "GetSessionResources a w = s_resources (w_objs w a)"

definition SetSessionResources ::
  "('srv, 'x) gosdk \<Rightarrow> (string \<times> ServerResource) list \<Rightarrow> nat \<Rightarrow> ('srv, 'x) world \<Rightarrow> ('srv, 'x) world" where
  "SetSessionResources sdk rs a w =
     if_bound a (\<lambda>srv. syncSessionResources sdk srv a) (upd_obj a (\<lambda>cs. cs\<lparr>s_resources := rs\<rparr>) w)"

definition GetSessionResourceTemplates :: "nat \<Rightarrow> ('srv, 'x) world \<Rightarrow> (string \<times> ServerResource) list" where
  "GetSessionResourceTemplates a w = s_resourceTemplates (w_objs w a)"

definition SetSessionResourceTemplates ::
  "('srv, 'x) gosdk \<Rightarrow> (string \<times> ServerResource) list \<Rightarrow> nat \<Rightarrow> ('srv, 'x) world \<Rightarrow> ('srv, 'x) world" where
  "SetSessionResourceTemplates sdk rs a w =
     if_bound a (\<lambda>srv. syncSessionResourceTemplates sdk srv a) (upd_obj a (\<lambda>cs. cs\<lparr>s_resourceTemplates := rs\<rparr>) w)"

definition GetSessionPrompts :: "nat \<Rightarrow> ('srv, 'x) world \<Rightarrow> (string \<times> ServerPrompt) list" where
  "GetSessionPrompts a w = s_prompts (w_objs w a)"

definition SetSessionPrompts ::
  "('srv, 'x) gosdk \<Rightarrow> (string \<times> ServerPrompt) list \<Rightarrow> nat \<Rightarrow> ('srv, 'x) world \<Rightarrow> ('srv, 'x) world" where
  "SetSessionPrompts sdk ps a w =
     if_bound a (\<lambda>srv. syncSessionPrompts sdk srv a) (upd_obj a (\<lambda>cs. cs\<lparr>s_prompts := ps\<rparr>) w)"

section \<open>The registry\<close>

definition sessionFor :: "string \<Rightarrow> ('srv, 'x) world \<Rightarrow> nat \<times> ('srv, 'x) world" where
  "sessionFor sid w =
     (case w_sessions w sid of
        Some a \<Rightarrow> (a, w)
      | None \<Rightarrow> (case newClientSession sid w of (a, w1) \<Rightarrow> (a, w1\<lparr>w_sessions := (w_sessions w1)(sid \<mapsto> a)\<rparr>)))"

definition contextWithSession ::
  "ctx \<Rightarrow> serverSession option \<Rightarrow> ('srv, 'x) world \<Rightarrow> ctx \<times> ('srv, 'x) world" where
  "contextWithSession c ss w =
     (case ss of
        None \<Rightarrow> (c, w)
      | Some s \<Rightarrow>
          if ss_ID s = [] then (c, w)
          else case sessionFor (ss_ID s) w of
            (a, w1) \<Rightarrow> (c\<lparr>ctx_session := Some a\<rparr>, upd_obj a (\<lambda>cs. cs\<lparr>goSession := Some (ss_addr s)\<rparr>) w1))"

definition bind_to :: "nat \<Rightarrow> serverSession \<Rightarrow> nat \<Rightarrow> ('srv, 'x) world \<Rightarrow> ('srv, 'x) world" where
  "bind_to a s srv =
     upd_obj a (\<lambda>cs. cs\<lparr>goSession := Some (ss_addr s), has_owner := True, boundServer := Some srv\<rparr>)"

definition bindEphemeralSession ::
  "ctx \<Rightarrow> serverSession \<Rightarrow> nat \<Rightarrow> ('srv, 'x) world \<Rightarrow> ctx \<times> nat \<times> ('srv, 'x) world" where
  "bindEphemeralSession c s srv w =
     (case newClientSession [] w of
        (a, w1) \<Rightarrow> (c\<lparr>ctx_session := Some a\<rparr>, a, Initialize a (bind_to a s srv w1)))"

text \<open>Hooks.\<close>

datatype 'x overlay_op =
    OpTools "(string \<times> 'x ServerTool) list"
  | OpResources "(string \<times> ServerResource) list"
  | OpTemplates "(string \<times> ServerResource) list"
  | OpPrompts "(string \<times> ServerPrompt) list"

fun run_op :: "('srv, 'x) gosdk \<Rightarrow> nat \<Rightarrow> ('srv, 'x) world \<Rightarrow> 'x overlay_op \<Rightarrow> ('srv, 'x) world" where
  "run_op sdk a w (OpTools ts) = SetSessionTools sdk ts a w"
| "run_op sdk a w (OpResources rs) = SetSessionResources sdk rs a w"
| "run_op sdk a w (OpTemplates rs) = SetSessionResourceTemplates sdk rs a w"
| "run_op sdk a w (OpPrompts ps) = SetSessionPrompts sdk ps a w"

type_synonym ('srv, 'x) hook = "nat \<Rightarrow> ('srv, 'x) world \<Rightarrow> 'x overlay_op list"

definition run_hooks :: "('srv, 'x) gosdk \<Rightarrow> ('srv, 'x) hook list \<Rightarrow> nat \<Rightarrow> ('srv, 'x) world \<Rightarrow> ('srv, 'x) world" where
  "run_hooks sdk hooks a w = foldl (\<lambda>v h. foldl (run_op sdk a) v (h a v)) w hooks"

definition registerSession :: "('srv, 'x) gosdk \<Rightarrow> ('srv, 'x) hook list \<Rightarrow> nat \<Rightarrow> ('srv, 'x) world \<Rightarrow> ('srv, 'x) world" where
  "registerSession sdk hooks a w = run_hooks sdk hooks a (w\<lparr>w_fired := a # w_fired w\<rparr>)"

definition registerAndSync ::
  "('srv, 'x) gosdk \<Rightarrow> ('srv, 'x) hook list option \<Rightarrow> serverSession option \<Rightarrow> nat \<Rightarrow> ('srv, 'x) world \<Rightarrow> ('srv, 'x) world" where
  "registerAndSync sdk hooks ss srv w =
     (case ss of
        None \<Rightarrow> w
      | Some s \<Rightarrow>
          if ss_ID s = [] then w
          else case sessionFor (ss_ID s) w of
            (a, w1) \<Rightarrow>
              let w2 = bind_to a s srv w1;
                  w3 = w2\<lparr>w_local := insert (ss_ID s) (w_local w2)\<rparr>
              in if registered (w_objs w3 a) then w3
                 else let w4 = Initialize a (upd_obj a (\<lambda>cs. cs\<lparr>registered := True\<rparr>) w3);
                          w5 = (case hooks of None \<Rightarrow> w4 | Some hs \<Rightarrow> registerSession sdk hs a w4)
                      in syncSessionPrompts sdk srv a (syncSessionResourceTemplates sdk srv a
                           (syncSessionResources sdk srv a (syncSessionTools sdk srv a w5))))"

definition isLocalSession :: "string \<Rightarrow> ('srv, 'x) world \<Rightarrow> bool" where
  "isLocalSession sid w \<longleftrightarrow> sid \<in> w_local w"

definition forgetSession :: "string \<Rightarrow> ('srv, 'x) world \<Rightarrow> ('srv, 'x) world option" where
  "forgetSession sid w =
     (if sid = [] then Some w
      else let w1 = w\<lparr>w_sessions := (w_sessions w)(sid := None), w_local := w_local w - {sid}\<rparr>
           in case w_sessions w sid of None \<Rightarrow> Some w1 | Some a \<Rightarrow> close_notif a w1)"

definition bindRehydratedSession :: "string \<Rightarrow> serverSession \<Rightarrow> nat \<Rightarrow> ('srv, 'x) world \<Rightarrow> ('srv, 'x) world" where
  "bindRehydratedSession sid s srv w =
     (case sessionFor sid w of (a, w1) \<Rightarrow> Initialize a (bind_to a s srv w1))"

definition ClientSessionFromContext :: "ctx \<Rightarrow> nat option" where
  "ClientSessionFromContext c = ctx_session c"

section \<open>What reconciliation leaves alone\<close>

text \<open>The part of the state the lifecycle arguments depend on; binding, overlays and SDK servers are outside it.\<close>

definition core :: "'x clientSession \<Rightarrow> string \<times> bool \<times> bool \<times> bool" where
  "core cs = (cs_id cs, registered cs, chan_open cs, closeOnce cs)"

definition frame :: "('srv, 'x) world \<Rightarrow> ('srv, 'x) world \<Rightarrow> bool" where
  "frame w w' \<longleftrightarrow> w_next w' = w_next w \<and> w_sessions w' = w_sessions w \<and> w_local w' = w_local w
     \<and> w_fired w' = w_fired w \<and> (\<forall>a. core (w_objs w' a) = core (w_objs w a))"

named_theorems frames

lemma frame_refl [frames]: "frame w w"
  by (simp add: frame_def)

lemma frame_trans: "frame w v \<Longrightarrow> frame v u \<Longrightarrow> frame w u"
  by (simp add: frame_def)

lemma frame_upd [frames]: "(\<And>cs. core (f cs) = core cs) \<Longrightarrow> frame w (upd_obj a f w)"
  by (simp add: frame_def upd_obj_def)

lemma frame_set_srv [frames]: "frame w (set_srv i v w)"
  by (simp add: frame_def set_srv_def)

lemma frame_bind [frames]: "frame w (bind_to a s srv w)"
  unfolding bind_to_def by (rule frame_upd) (simp add: core_def)

lemma frame_Initialize [frames]: "frame w (Initialize a w)"
  unfolding Initialize_def by (rule frame_upd) (simp add: core_def)

lemma frame_syncTools [frames]: "frame w (syncSessionTools sdk srv a w)"
proof -
  have "frame w (upd_obj a (\<lambda>cs. cs\<lparr>sdkToolNames := ns\<rparr>) (set_srv srv v w))" for ns v
    by (rule frame_trans [OF frame_set_srv frame_upd]) (simp add: core_def)
  then show ?thesis by (simp add: syncSessionTools_def Let_def split: prod.split)
qed

lemma frame_syncs [frames]:
  "frame w (syncSessionResources sdk srv a w)" "frame w (syncSessionResourceTemplates sdk srv a w)"
  "frame w (syncSessionPrompts sdk srv a w)"
  unfolding syncSessionResources_def syncSessionResourceTemplates_def syncSessionPrompts_def
  by (rule frame_set_srv)+

lemma frame_if_bound: "(\<And>srv v. frame v (f srv v)) \<Longrightarrow> frame w (if_bound a f w)"
  by (simp add: if_bound_def frame_refl split: option.split)

lemma frame_set_overlay:
  assumes "\<And>cs. core (f cs) = core cs" "\<And>srv v. frame v (g srv v)"
  shows "frame w (if_bound a g (upd_obj a f w))"
  using frame_trans [OF frame_upd [of f w a, OF assms(1)] frame_if_bound [of g, OF assms(2)]] .

lemma frame_SetSession [frames]:
  "frame w (SetSessionTools sdk ts a w)" "frame w (SetSessionResources sdk rs a w)"
  "frame w (SetSessionResourceTemplates sdk rs a w)" "frame w (SetSessionPrompts sdk ps a w)"
  unfolding SetSessionTools_def SetSessionResources_def SetSessionResourceTemplates_def SetSessionPrompts_def
  by (rule frame_set_overlay, simp add: core_def, rule frame_syncTools frame_syncs)+

lemma frame_run_op [frames]: "frame w (run_op sdk a w op)"
  by (cases op) (simp_all add: frames)

lemma frame_run_ops: "frame w (foldl (run_op sdk a) w ops)"
  by (induction ops arbitrary: w) (auto intro: frames frame_trans)

lemma frame_run_hooks [frames]: "frame w (run_hooks sdk hooks a w)"
proof (induction hooks arbitrary: w)
  case (Cons h hs)
  have "run_hooks sdk (h # hs) a w = run_hooks sdk hs a (foldl (run_op sdk a) w (h a w))"
    by (simp add: run_hooks_def)
  with Cons frame_trans [OF frame_run_ops] show ?case by metis
qed (simp add: run_hooks_def frame_refl)

section \<open>Well-formed registries\<close>

definition reg_wf :: "('srv, 'x) world \<Rightarrow> bool" where
  "reg_wf w \<longleftrightarrow>
     (\<forall>sid a. w_sessions w sid = Some a \<longrightarrow>
        sid \<noteq> [] \<and> a < w_next w \<and> cs_id (w_objs w a) = sid \<and> chan_open (w_objs w a))
     \<and> (\<forall>a < w_next w. chan_open (w_objs w a) = (\<not> closeOnce (w_objs w a)))
     \<and> [] \<notin> w_local w
     \<and> distinct (w_fired w) \<and> (\<forall>a \<in> set (w_fired w). a < w_next w \<and> registered (w_objs w a))"

lemma wf_frame: "reg_wf w \<Longrightarrow> frame w w' \<Longrightarrow> reg_wf w'"
  unfolding reg_wf_def frame_def core_def by simp

lemma wf_sessionD:
  "reg_wf w \<Longrightarrow> w_sessions w sid = Some a \<Longrightarrow> sid \<noteq> [] \<and> a < w_next w \<and> cs_id (w_objs w a) = sid \<and> chan_open (w_objs w a)"
  by (simp add: reg_wf_def)

lemma wf_empty_key: "reg_wf w \<Longrightarrow> w_sessions w [] = None"
  by (cases "w_sessions w []") (auto dest: wf_sessionD)

lemma wf_new:
  assumes "reg_wf w"
  shows "reg_wf (snd (newClientSession sid w))"
  unfolding reg_wf_def newClientSession_def snd_conv
proof (intro conjI)
  show "\<forall>s a. w_sessions (w\<lparr>w_objs := (w_objs w)(w_next w := fresh_session sid), w_next := Suc (w_next w)\<rparr>) s = Some a \<longrightarrow>
     s \<noteq> [] \<and> a < w_next (w\<lparr>w_objs := (w_objs w)(w_next w := fresh_session sid), w_next := Suc (w_next w)\<rparr>)
     \<and> cs_id (w_objs (w\<lparr>w_objs := (w_objs w)(w_next w := fresh_session sid), w_next := Suc (w_next w)\<rparr>) a) = s
     \<and> chan_open (w_objs (w\<lparr>w_objs := (w_objs w)(w_next w := fresh_session sid), w_next := Suc (w_next w)\<rparr>) a)"
    using wf_sessionD [OF assms] by (fastforce simp: fresh_session_def)
qed (use assms in \<open>auto simp: reg_wf_def fresh_session_def less_Suc_eq\<close>)

lemma sessionFor_hit: "w_sessions w sid = Some a \<Longrightarrow> sessionFor sid w = (a, w)"
  by (simp add: sessionFor_def)

lemma sessionFor_miss:
  "w_sessions w sid = None \<Longrightarrow>
     sessionFor sid w = (w_next w, (snd (newClientSession sid w))\<lparr>w_sessions := (w_sessions w)(sid \<mapsto> w_next w)\<rparr>)"
  by (simp add: sessionFor_def newClientSession_def)

lemma sessionFor_wf:
  assumes "reg_wf w" and "sid \<noteq> []" and "sessionFor sid w = (a, w')"
  shows "reg_wf w' \<and> w_sessions w' = (w_sessions w)(sid \<mapsto> a) \<and> w_local w' = w_local w"
proof (cases "w_sessions w sid")
  case (Some b)
  then show ?thesis using assms by (auto simp: sessionFor_hit fun_eq_iff)
next
  case None
  let ?v = "snd (newClientSession sid w)"
  from assms(3) None have w': "a = w_next w" "w' = ?v\<lparr>w_sessions := (w_sessions w)(sid \<mapsto> w_next w)\<rparr>"
    by (auto simp: sessionFor_miss)
  have v: "reg_wf ?v" using assms(1) by (rule wf_new)
  have new: "w_next ?v = Suc (w_next w)" "w_objs ?v (w_next w) = fresh_session sid" "w_sessions ?v = w_sessions w"
      "w_local ?v = w_local w" "w_fired ?v = w_fired w"
    by (simp_all add: newClientSession_def)
  have "reg_wf w'"
    using v assms(2) unfolding w' reg_wf_def by (simp add: new fresh_session_def)
  then show ?thesis using w' new by simp
qed

section \<open>The registry's contract\<close>

datatype registry_req = Use string | Forget string

primrec run_reqs ::
  "(string \<Rightarrow> 'w \<Rightarrow> nat \<times> 'w) \<Rightarrow> (string \<Rightarrow> 'w \<Rightarrow> 'w option) \<Rightarrow> registry_req list \<Rightarrow> 'w \<Rightarrow> 'w option" where
  "run_reqs obt forget [] w = Some w"
| "run_reqs obt forget (r # rs) w =
     (case r of
        Use sid \<Rightarrow> if sid = [] then run_reqs obt forget rs w else run_reqs obt forget rs (snd (obt sid w))
      | Forget sid \<Rightarrow> (case forget sid w of None \<Rightarrow> None | Some w' \<Rightarrow> run_reqs obt forget rs w'))"

locale session_registry =
  fixes inv :: "'w \<Rightarrow> bool" and lookup :: "'w \<Rightarrow> string \<Rightarrow> nat option"
    and obtain_for :: "string \<Rightarrow> 'w \<Rightarrow> nat \<times> 'w" and forget :: "string \<Rightarrow> 'w \<Rightarrow> 'w option"
  assumes no_empty: "inv w \<Longrightarrow> lookup w [] = None"
    and lookup_inj: "inv w \<Longrightarrow> lookup w i = Some a \<Longrightarrow> lookup w j = Some a \<Longrightarrow> i = j"
    and obtain_law: "inv w \<Longrightarrow> sid \<noteq> [] \<Longrightarrow> obtain_for sid w = (a, w') \<Longrightarrow> inv w' \<and> lookup w' = (lookup w)(sid \<mapsto> a)"
    and obtain_stable: "lookup w sid = Some a \<Longrightarrow> obtain_for sid w = (a, w)"
    and forget_law: "inv w \<Longrightarrow> \<exists>w'. forget sid w = Some w' \<and> inv w' \<and> lookup w' = (lookup w)(sid := None)"
begin

lemma obtain_again:
  assumes "inv w" "sid \<noteq> []" "obtain_for sid w = (a, w')"
  shows "obtain_for sid w' = (a, w')"
  using obtain_law [OF assms] by (intro obtain_stable) simp

lemma isolation:
  assumes "inv w" "i \<noteq> []" "j \<noteq> []" "i \<noteq> j" "obtain_for i w = (a, w1)" "obtain_for j w1 = (b, w2)"
  shows "a \<noteq> b"
proof
  assume "a = b"
  have w1: "inv w1" "lookup w1 = (lookup w)(i \<mapsto> a)" using obtain_law [OF assms(1,2,5)] by auto
  have w2: "inv w2" "lookup w2 = (lookup w1)(j \<mapsto> b)" using obtain_law [OF w1(1) assms(3,6)] by auto
  from w1 w2 assms(4) have "lookup w2 i = Some a" "lookup w2 j = Some b" by auto
  with lookup_inj [OF w2(1)] \<open>a = b\<close> assms(4) show False by blast
qed

lemma never_stuck: "inv w \<Longrightarrow> \<exists>w'. run_reqs obtain_for forget rs w = Some w' \<and> inv w'"
proof (induction rs arbitrary: w)
  case (Cons r rs)
  show ?case
  proof (cases r)
    case (Use sid)
    obtain a v where v: "obtain_for sid w = (a, v)" by fastforce
    show ?thesis
      using Use v Cons obtain_law [OF Cons.prems _ v] by (cases "sid = []") auto
  next
    case (Forget sid)
    obtain v where "forget sid w = Some v" "inv v" using forget_law [OF Cons.prems] by blast
    with Forget Cons.IH show ?thesis by simp
  qed
qed simp

lemma forgotten_is_new:
  assumes "inv w" "sid \<noteq> []" "lookup w sid = Some a" "forget sid w = Some w1" "obtain_for sid w1 = (b, w2)"
  shows "inv w2 \<and> lookup w2 = (lookup w)(sid \<mapsto> b)"
proof -
  from forget_law [OF assms(1), of sid] assms(4) have "inv w1" "lookup w1 = (lookup w)(sid := None)" by auto
  with obtain_law [OF \<open>inv w1\<close> assms(2,5)] show ?thesis by simp
qed

end

lemma close_notif_wf:
  assumes "reg_wf w" and "a < w_next w" and "\<And>sid. w_sessions w sid \<noteq> Some a"
  shows "\<exists>w'. close_notif a w = Some w' \<and> reg_wf w' \<and> w_sessions w' = w_sessions w \<and> \<not> chan_open (w_objs w' a)
     \<and> w_local w' = w_local w \<and> w_fired w' = w_fired w \<and> w_next w' = w_next w"
proof (cases "closeOnce (w_objs w a)")
  case True
  then have "\<not> chan_open (w_objs w a)" using assms(1,2) by (simp add: reg_wf_def)
  with True assms(1) show ?thesis by (simp add: close_notif_def)
next
  case False
  let ?v = "upd_obj a (\<lambda>cs. cs\<lparr>closeOnce := True, chan_open := False\<rparr>) w"
  have "chan_open (w_objs w a)" using False assms(1,2) by (simp add: reg_wf_def)
  then have c: "close_notif a w = Some ?v" using False by (simp add: close_notif_def)
  have "reg_wf ?v"
    using assms(1,3) unfolding reg_wf_def upd_obj_def by auto
  with c show ?thesis by (simp add: upd_obj_def)
qed

lemma forgetSession_wf:
  assumes "reg_wf w"
  shows "\<exists>w'. forgetSession sid w = Some w' \<and> reg_wf w' \<and> w_sessions w' = (w_sessions w)(sid := None)
     \<and> (sid \<noteq> [] \<longrightarrow> w_local w' = w_local w - {sid})
     \<and> (\<forall>a. w_sessions w sid = Some a \<longrightarrow> \<not> chan_open (w_objs w' a))"
proof (cases "sid = []")
  case True
  then show ?thesis using assms wf_empty_key [OF assms] by (auto simp: forgetSession_def fun_eq_iff)
next
  case False
  let ?w1 = "w\<lparr>w_sessions := (w_sessions w)(sid := None), w_local := w_local w - {sid}\<rparr>"
  have w1: "reg_wf ?w1" using assms unfolding reg_wf_def by simp
  show ?thesis
  proof (cases "w_sessions w sid")
    case None
    with False w1 show ?thesis by (auto simp: forgetSession_def)
  next
    case (Some a)
    have a: "a < w_next ?w1" using wf_sessionD [OF assms Some] by simp
    have "w_sessions ?w1 s \<noteq> Some a" for s
      using wf_sessionD [OF assms] Some by (cases "s = sid") auto
    from close_notif_wf [OF w1 a this] obtain v where
      "close_notif a ?w1 = Some v" "reg_wf v" "w_sessions v = w_sessions ?w1" "\<not> chan_open (w_objs v a)" "w_local v = w_local ?w1"
      by blast
    with False Some show ?thesis by (auto simp: forgetSession_def)
  qed
qed

interpretation reg: session_registry reg_wf w_sessions sessionFor forgetSession
proof
  show "reg_wf w \<Longrightarrow> w_sessions w [] = None" for w :: "('a, 'b) world" by (rule wf_empty_key)
  show "reg_wf w \<Longrightarrow> w_sessions w i = Some a \<Longrightarrow> w_sessions w j = Some a \<Longrightarrow> i = j" for w :: "('a, 'b) world" and i j a
    using wf_sessionD by metis
  show "reg_wf w \<Longrightarrow> sid \<noteq> [] \<Longrightarrow> sessionFor sid w = (a, w') \<Longrightarrow> reg_wf w' \<and> w_sessions w' = (w_sessions w)(sid \<mapsto> a)"
    for w w' :: "('a, 'b) world" and sid a using sessionFor_wf by blast
  show "w_sessions w sid = Some a \<Longrightarrow> sessionFor sid w = (a, w)" for w :: "('a, 'b) world" and sid a
    by (rule sessionFor_hit)
  show "reg_wf w \<Longrightarrow> \<exists>w'. forgetSession sid w = Some w' \<and> reg_wf w' \<and> w_sessions w' = (w_sessions w)(sid := None)"
    for w :: "('a, 'b) world" and sid using forgetSession_wf by blast
qed

section \<open>Every run keeps the registry well-formed\<close>

lemma contextWithSession_wf:
  assumes "reg_wf w" and "contextWithSession c ss w = (c', w')"
  shows "reg_wf w' \<and> w_local w' = w_local w \<and> (case ss of
     None \<Rightarrow> c' = c \<and> w' = w
   | Some s \<Rightarrow> if ss_ID s = [] then c' = c \<and> w' = w
             else \<exists>a. c' = c\<lparr>ctx_session := Some a\<rparr> \<and> w_sessions w' = (w_sessions w)(ss_ID s \<mapsto> a))"
proof (cases "ss = None \<or> (\<exists>s. ss = Some s \<and> ss_ID s = [])")
  case False
  then obtain s where s: "ss = Some s" "ss_ID s \<noteq> []" by auto
  obtain a w1 where a: "sessionFor (ss_ID s) w = (a, w1)" by fastforce
  let ?f = "\<lambda>cs :: 'b clientSession. cs\<lparr>goSession := Some (ss_addr s)\<rparr>"
  have w': "w' = upd_obj a ?f w1" "c' = c\<lparr>ctx_session := Some a\<rparr>"
    using assms(2) s a by (simp_all add: contextWithSession_def)
  have f: "frame w1 (upd_obj a ?f w1)" by (rule frame_upd) (simp add: core_def)
  from sessionFor_wf [OF assms(1) s(2) a] wf_frame [OF _ f] w' s f show ?thesis
    by (auto simp: frame_def)
qed (use assms in \<open>auto simp: contextWithSession_def\<close>)

lemma bindEphemeralSession_wf:
  assumes "reg_wf w" and "bindEphemeralSession c s srv w = (c', a, w')"
  shows "reg_wf w' \<and> a = w_next w \<and> a < w_next w' \<and> cs_id (w_objs w' a) = [] \<and> w_sessions w' = w_sessions w \<and> w_local w' = w_local w
     \<and> w_fired w' = w_fired w \<and> ctx_session c' = Some a"
proof -
  let ?v = "snd (newClientSession [] w)"
  have w': "a = w_next w" "w' = Initialize a (bind_to a s srv ?v)" "ctx_session c' = Some a"
    using assms(2) by (auto simp: bindEphemeralSession_def newClientSession_def)
  have f: "frame ?v w'" unfolding w'(2) by (rule frame_trans [OF frame_bind frame_Initialize])
  have "cs_id (w_objs ?v a) = []" by (simp add: w' newClientSession_def fresh_session_def)
  moreover have "core (w_objs w' a) = core (w_objs ?v a)" using f by (simp add: frame_def)
  ultimately have "cs_id (w_objs w' a) = []" by (simp add: core_def)
  with wf_frame [OF wf_new [OF assms(1), of "[]"] f] f w'(1,3) show ?thesis
    by (simp add: frame_def newClientSession_def)
qed

lemma bindRehydratedSession_wf:
  assumes "reg_wf w" and "sid \<noteq> []"
  shows "reg_wf (bindRehydratedSession sid s srv w) \<and> w_local (bindRehydratedSession sid s srv w) = w_local w"
proof -
  obtain a w1 where a: "sessionFor sid w = (a, w1)" by fastforce
  have f: "frame w1 (Initialize a (bind_to a s srv w1))" by (rule frame_trans [OF frame_bind frame_Initialize])
  have w1: "reg_wf w1" "w_local w1 = w_local w" using sessionFor_wf [OF assms a] by auto
  from wf_frame [OF w1(1) f] f w1(2) a show ?thesis
    by (simp add: bindRehydratedSession_def frame_def)
qed

lemma registered_fire_wf:
  assumes "reg_wf w" and "a < w_next w" and "\<not> registered (w_objs w a)"
  defines "v \<equiv> Initialize a (upd_obj a (\<lambda>cs. cs\<lparr>registered := True\<rparr>) w)"
  shows "reg_wf v" "reg_wf (v\<lparr>w_fired := a # w_fired v\<rparr>)" "w_local v = w_local w"
proof -
  have nf: "a \<notin> set (w_fired w)" using assms(1,3) by (auto simp: reg_wf_def)
  have "reg_wf (upd_obj a (\<lambda>cs. cs\<lparr>registered := True\<rparr>) w)"
    using assms(1) by (auto simp: reg_wf_def upd_obj_def)
  then show v: "reg_wf v" unfolding v_def by (rule wf_frame [OF _ frame_Initialize])
  have vv: "w_fired v = w_fired w" "w_next v = w_next w" "registered (w_objs v a)"
    by (simp_all add: v_def Initialize_def upd_obj_def)
  show "reg_wf (v\<lparr>w_fired := a # w_fired v\<rparr>)"
    using v nf vv assms(2) by (auto simp: reg_wf_def)
  show "w_local v = w_local w" by (simp add: v_def Initialize_def upd_obj_def)
qed

lemma syncs_frame:
  "frame w (syncSessionPrompts sdk srv a (syncSessionResourceTemplates sdk srv a
     (syncSessionResources sdk srv a (syncSessionTools sdk srv a w))))"
  by (rule frame_trans [OF frame_trans [OF frame_trans [OF frame_syncTools frame_syncs(1)] frame_syncs(2)] frame_syncs(3)])

lemma registerAndSync_wf:
  assumes "reg_wf w"
  shows "reg_wf (registerAndSync sdk hooks ss srv w)"
proof (cases "ss = None \<or> (\<exists>s. ss = Some s \<and> ss_ID s = [])")
  case False
  then obtain s where s: "ss = Some s" "ss_ID s \<noteq> []" by auto
  obtain a w1 where a: "sessionFor (ss_ID s) w = (a, w1)" by fastforce
  let ?w2 = "bind_to a s srv w1"
  let ?w3 = "?w2\<lparr>w_local := insert (ss_ID s) (w_local ?w2)\<rparr>"
  let ?w4 = "Initialize a (upd_obj a (\<lambda>cs. cs\<lparr>registered := True\<rparr>) ?w3)"
  have w1: "reg_wf w1" "w_sessions w1 (ss_ID s) = Some a" using sessionFor_wf [OF assms s(2) a] by auto
  have "reg_wf ?w2" by (rule wf_frame [OF w1(1) frame_bind])
  then have w3: "reg_wf ?w3" using s(2) by (auto simp: reg_wf_def)
  have "a < w_next w1" using wf_sessionD [OF w1] by simp
  then have lt: "a < w_next ?w3" by (simp add: bind_to_def upd_obj_def)
  show ?thesis
  proof (cases "registered (w_objs ?w3 a)")
    case True
    then show ?thesis using s a w3 by (simp add: registerAndSync_def Let_def)
  next
    case nreg: False
    let ?w5 = "case hooks of None \<Rightarrow> ?w4 | Some hs \<Rightarrow> registerSession sdk hs a ?w4"
    have "reg_wf ?w5"
      using registered_fire_wf(1,2) [OF w3 lt nreg] wf_frame [OF _ frame_run_hooks]
      by (auto simp: registerSession_def split: option.split)
    from wf_frame [OF this syncs_frame] show ?thesis
      using s a nreg by (simp add: registerAndSync_def Let_def)
  qed
qed (use assms in \<open>auto simp: registerAndSync_def\<close>)

text \<open>The steps that touch sessions, in any order: lookups and ephemeral bindings of the dispatch, the
  deferred cleanup of an ephemeral session, registration, termination, rehydration and overlay updates by the host.\<close>

inductive session_step ::
  "('srv, 'x) gosdk \<Rightarrow> ('srv, 'x) hook list option \<Rightarrow> ('srv, 'x) world \<Rightarrow> ('srv, 'x) world \<Rightarrow> bool"
  for sdk hooks where
  lookup: "contextWithSession c ss w = (c', w') \<Longrightarrow> session_step sdk hooks w w'"
| ephemeral: "bindEphemeralSession c s srv w = (c', a, w') \<Longrightarrow> session_step sdk hooks w w'"
| cleanup: "a < w_next w \<Longrightarrow> SessionID a w = [] \<Longrightarrow> close_notif a w = Some w' \<Longrightarrow> session_step sdk hooks w w'"
| register: "session_step sdk hooks w (registerAndSync sdk hooks ss srv w)"
| forget: "forgetSession sid w = Some w' \<Longrightarrow> session_step sdk hooks w w'"
| rehydrate: "sid \<noteq> [] \<Longrightarrow> session_step sdk hooks w (bindRehydratedSession sid s srv w)"
| overlay: "session_step sdk hooks w (run_op sdk a w op)"

lemma cleanup_wf:
  assumes "reg_wf w" "a < w_next w" "SessionID a w = []"
  shows "\<exists>w'. close_notif a w = Some w' \<and> reg_wf w' \<and> w_sessions w' = w_sessions w \<and> \<not> chan_open (w_objs w' a)
     \<and> w_local w' = w_local w \<and> w_fired w' = w_fired w \<and> w_next w' = w_next w"
proof (rule close_notif_wf [OF assms(1,2)])
  show "w_sessions w sid \<noteq> Some a" for sid
    using wf_sessionD [OF assms(1), of sid a] assms(3) by (auto simp: SessionID_def)
qed

lemma session_step_wf: "session_step sdk hooks w w' \<Longrightarrow> reg_wf w \<Longrightarrow> reg_wf w'"
proof (induction rule: session_step.induct)
  case (cleanup a w w')
  with cleanup_wf [of w a] show ?case by auto
next
  case (forget sid w w')
  with forgetSession_wf [of w sid] show ?case by auto
next
  case (lookup c ss w c' w')
  with contextWithSession_wf [of w c ss c' w'] show ?case by simp
next
  case (ephemeral c s srv w c' a w')
  with bindEphemeralSession_wf [of w c s srv c' a w'] show ?case by simp
next
  case (register w ss srv)
  then show ?case by (rule registerAndSync_wf)
next
  case (rehydrate sid w s srv)
  with bindRehydratedSession_wf [of w sid s srv] show ?case by simp
next
  case (overlay w a op)
  then show ?case by (rule wf_frame [OF _ frame_run_op])
qed

lemma session_run_wf: "(session_step sdk hooks)\<^sup>*\<^sup>* w w' \<Longrightarrow> reg_wf w \<Longrightarrow> reg_wf w'"
  by (induction rule: rtranclp_induct) (auto intro: session_step_wf)

definition initial_world :: "(nat \<Rightarrow> 'srv) \<Rightarrow> ('srv, 'x) world" where
  "initial_world srvs =
     \<lparr>w_objs = (\<lambda>_. fresh_session []), w_next = 0, w_sessions = Map.empty, w_local = {}, w_srvs = srvs, w_fired = []\<rparr>"

lemma initial_wf: "reg_wf (initial_world srvs)"
  by (simp add: reg_wf_def initial_world_def)

text \<open>
  C6. Session lifecycle, for every order of lookups, stateless bindings and their cleanups, registrations,
  terminations, rehydrations and overlay updates: the registry never holds an entry for the empty ID (the one that all
  stateless requests would share), two IDs never share a session object, every registration hook run is for a different session object
  (the hooks fire at most once per session), and a termination never panics and leaves the ID free and its
  notification channel closed.
\<close>
theorem session_lifecycle:
  assumes "(session_step sdk hooks)\<^sup>*\<^sup>* (initial_world srvs) w"
  shows "w_sessions w [] = None
    \<and> (\<forall>i j a. w_sessions w i = Some a \<longrightarrow> w_sessions w j = Some a \<longrightarrow> i = j)
    \<and> distinct (w_fired w)
    \<and> (\<exists>w'. forgetSession sid w = Some w' \<and> w_sessions w' sid = None
          \<and> (\<forall>a. w_sessions w sid = Some a \<longrightarrow> \<not> chan_open (w_objs w' a)))"
proof (intro conjI)
  have w: "reg_wf w" by (rule session_run_wf [OF assms initial_wf])
  show "w_sessions w [] = None" by (rule reg.no_empty [OF w])
  show "\<forall>i j a. w_sessions w i = Some a \<longrightarrow> w_sessions w j = Some a \<longrightarrow> i = j" using reg.lookup_inj [OF w] by blast
  show "distinct (w_fired w)" using w by (simp add: reg_wf_def)
  show "\<exists>w'. forgetSession sid w = Some w' \<and> w_sessions w' sid = None
          \<and> (\<forall>a. w_sessions w sid = Some a \<longrightarrow> \<not> chan_open (w_objs w' a))"
    using forgetSession_wf [OF w, of sid] by auto
qed

theorem session_lifecycle_witness:
  "\<exists>w. (session_step (sample_sdk :: (string list, unit) gosdk) (Some []))\<^sup>*\<^sup>* (initial_world (\<lambda>_. [])) w
     \<and> w_sessions w ''s1'' = Some 0 \<and> w_fired w = [0] \<and> w_sessions w [] = None \<and> distinct (w_fired w)"
proof -
  let ?i = "initial_world (\<lambda>_. []) :: (string list, unit) world"
  let ?w = "registerAndSync sample_sdk (Some []) (Some \<lparr>ss_addr = 7, ss_ID = ''s1''\<rparr>) 3 ?i"
  have r: "(session_step sample_sdk (Some []))\<^sup>*\<^sup>* ?i ?w"
    by (rule r_into_rtranclp) (rule session_step.register)
  have "w_sessions ?w ''s1'' = Some 0 \<and> w_fired ?w = [0]"
    by (simp add: registerAndSync_def sessionFor_def newClientSession_def initial_world_def bind_to_def upd_obj_def
        Initialize_def fresh_session_def registerSession_def run_hooks_def syncSessionPrompts_def
        syncSessionResourceTemplates_def syncSessionResources_def syncSessionTools_def set_srv_def Let_def)
  with r session_lifecycle [OF r] show ?thesis by blast
qed

section \<open>Per-session tools on the live server\<close>

text \<open>What the SDK documents of its tool operations, over the set of tool names a server offers: \<open>AddTool\<close> panics unless the input schema and any output
  schema are object schemas, and otherwise adds or replaces the tool of that name.\<close>

definition sdk_tool_laws :: "('srv, 'x) gosdk \<Rightarrow> ('x \<Rightarrow> bool) \<Rightarrow> ('srv \<Rightarrow> string set) \<Rightarrow> bool" where
  "sdk_tool_laws sdk out_ok names \<longleftrightarrow>
     (\<forall>g h srv. case sdkAddTool sdk g h srv of
        None \<Rightarrow> \<not> (object_schema (gt_InputSchema g) \<and> out_ok (gt_rest g))
      | Some srv' \<Rightarrow> object_schema (gt_InputSchema g) \<and> out_ok (gt_rest g) \<and> names srv' = insert (gt_Name g) (names srv))
     \<and> (\<forall>ns srv. names (sdkRemoveTools sdk ns srv) = names srv - set ns)"

lemma sdk_tool_lawsD:
  assumes "sdk_tool_laws sdk out_ok names"
  shows "sdkAddTool sdk g h srv = None \<Longrightarrow> \<not> (object_schema (gt_InputSchema g) \<and> out_ok (gt_rest g))"
    and "sdkAddTool sdk g h srv = Some srv' \<Longrightarrow>
      object_schema (gt_InputSchema g) \<and> out_ok (gt_rest g) \<and> names srv' = insert (gt_Name g) (names srv)"
proof -
  have "case sdkAddTool sdk g h srv of
        None \<Rightarrow> \<not> (object_schema (gt_InputSchema g) \<and> out_ok (gt_rest g))
      | Some srv' \<Rightarrow> object_schema (gt_InputSchema g) \<and> out_ok (gt_rest g) \<and> names srv' = insert (gt_Name g) (names srv)"
    using assms unfolding sdk_tool_laws_def by blast
  then show "sdkAddTool sdk g h srv = None \<Longrightarrow> \<not> (object_schema (gt_InputSchema g) \<and> out_ok (gt_rest g))"
    and "sdkAddTool sdk g h srv = Some srv' \<Longrightarrow>
      object_schema (gt_InputSchema g) \<and> out_ok (gt_rest g) \<and> names srv' = insert (gt_Name g) (names srv)"
    by simp_all
qed

text \<open>The keys of the overlay entries the SDK takes, and the names it registers them under; an overlay is keyed by name when the two agree.\<close>

definition accepted_keys :: "('x \<Rightarrow> bool) \<Rightarrow> (string \<times> 'x ServerTool) list \<Rightarrow> string set" where
  "accepted_keys out_ok ts = {k. \<exists>t. (k, t) \<in> set ts \<and> tool_accepted out_ok t}"

definition accepted_names :: "('x \<Rightarrow> bool) \<Rightarrow> (string \<times> 'x ServerTool) list \<Rightarrow> string set" where
  "accepted_names out_ok ts = {gt_Name g |k t g. (k, t) \<in> set ts \<and> tool_accepted out_ok t \<and> st_Tool t = Some g}"

definition keyed_by_name :: "(string \<times> 'x ServerTool) list \<Rightarrow> bool" where
  "keyed_by_name ts \<longleftrightarrow> list_all (\<lambda>(k, t). case st_Tool t of None \<Rightarrow> True | Some g \<Rightarrow> gt_Name g = k) ts"

lemma accepted_Cons:
  "accepted_keys out_ok ((k, t) # ts) = (if tool_accepted out_ok t then insert k (accepted_keys out_ok ts) else accepted_keys out_ok ts)"
  by (auto simp: accepted_keys_def)

lemma accepted_names_Cons:
  "accepted_names out_ok ((k, t) # ts) =
     (if tool_accepted out_ok t then insert (gt_Name (the (st_Tool t))) (accepted_names out_ok ts) else accepted_names out_ok ts)"
proof -
  have "\<exists>g. st_Tool t = Some g" if "tool_accepted out_ok t" using that by (auto simp: tool_accepted_def split: option.splits)
  then show ?thesis unfolding accepted_names_def by (auto simp: insert_Collect) fastforce+
qed

lemma keyed_accepted:
  assumes "keyed_by_name ts"
  shows "accepted_names out_ok ts = accepted_keys out_ok ts"
proof -
  have "gt_Name g = k" if "(k, t) \<in> set ts" "st_Tool t = Some g" for k t g
    using assms that by (auto simp: keyed_by_name_def list_all_iff)
  moreover have "\<exists>g. st_Tool t = Some g" if "tool_accepted out_ok t" for t :: "'a ServerTool"
    using that by (auto simp: tool_accepted_def split: option.splits)
  ultimately show ?thesis unfolding accepted_names_def accepted_keys_def by fastforce
qed

lemma add_overlay_names:
  assumes "sdk_tool_laws sdk out_ok names"
  shows "add_overlay sdk ts srv acc = (srv', acc') \<Longrightarrow>
     set acc' = set acc \<union> accepted_keys out_ok ts \<and> names srv' = names srv \<union> accepted_names out_ok ts"
proof (induction ts arbitrary: srv acc)
  case (Cons p ts)
  obtain k t where p: "p = (k, t)" by (cases p)
  note cons = accepted_Cons accepted_names_Cons
  show ?case
  proof (cases "toGoSDKTool t")
    case None
    with Cons p show ?thesis by (auto simp: cons toGoSDKTool_accepted)
  next
    case (Some gt)
    then have name: "gt_Name gt = gt_Name (the (st_Tool t))"
      by (auto simp: toGoSDKTool_def split: option.splits)
    show ?thesis
    proof (cases "sdkAddTool sdk gt (st_Handler t) srv")
      case None
      then have "\<not> tool_accepted out_ok t"
        using sdk_tool_lawsD(1) [OF assms] Some by (auto simp: toGoSDKTool_accepted)
      with None Some Cons p show ?thesis by (simp add: cons addSessionTool_def)
    next
      case (Some srv1)
      note ok = sdk_tool_lawsD(2) [OF assms Some]
      then have "tool_accepted out_ok t" using \<open>toGoSDKTool t = Some gt\<close> by (auto simp: toGoSDKTool_accepted)
      with Some ok name \<open>toGoSDKTool t = Some gt\<close> Cons.IH [of srv1 "k # acc"] Cons.prems p show ?thesis
        by (simp add: cons addSessionTool_def)
    qed
  qed
qed (simp add: accepted_keys_def accepted_names_def)

lemma syncSessionTools_names:
  assumes "sdk_tool_laws sdk out_ok names"
  defines "K \<equiv> \<lambda>w a. accepted_keys out_ok (s_tools (w_objs w a))"
  shows "names (w_srvs (syncSessionTools sdk srv a w) srv) =
      (names (w_srvs w srv) \<union> accepted_names out_ok (s_tools (w_objs w a))) - (set (sdkToolNames (w_objs w a)) - K w a)"
    and "set (sdkToolNames (w_objs (syncSessionTools sdk srv a w) a)) = K w a"
proof -
  obtain v ns where o: "add_overlay sdk (s_tools (w_objs w a)) (w_srvs w srv) [] = (v, ns)" by fastforce
  from add_overlay_names [OF assms(1) this] have n: "set ns = K w a"
    "names v = names (w_srvs w srv) \<union> accepted_names out_ok (s_tools (w_objs w a))"
    by (simp_all add: K_def)
  have r: "names (sdkRemoveTools sdk xs v) = names v - set xs" for xs
    using assms(1) by (simp add: sdk_tool_laws_def)
  have "filter (\<lambda>name. name \<notin> set ns) (sdkToolNames (w_objs w a)) = [] \<longleftrightarrow> set (sdkToolNames (w_objs w a)) \<subseteq> K w a"
    using n by (auto simp: filter_empty_conv)
  then show "names (w_srvs (syncSessionTools sdk srv a w) srv) =
      (names (w_srvs w srv) \<union> accepted_names out_ok (s_tools (w_objs w a))) - (set (sdkToolNames (w_objs w a)) - K w a)"
    using o n r by (auto simp: syncSessionTools_def Let_def upd_obj_def set_srv_def)
  show "set (sdkToolNames (w_objs (syncSessionTools sdk srv a w) a)) = K w a"
    using o n by (simp add: syncSessionTools_def Let_def upd_obj_def set_srv_def)
qed

text \<open>
  C11. Replacing the tools of a connected session takes effect on its live server: every tool of the new overlay whose schemas the SDK takes is registered under its own name, a tool that does not
  convert or that the SDK rejects (for its input or its output schema) is skipped and the others still register, and the session's record then lists exactly the overlay keys of the accepted
  tools. What is removed are the previously recorded keys that are not keys of accepted tools. So for overlays keyed by tool name the server offers exactly what
  it offered before, less what this session had recorded, plus the accepted tools; for an overlay with a key that is not the tool's name the removal misses the tool, since keys are removed where names were registered
  (the finding at \<open>session.go:411\<close>).
\<close>
theorem SetSessionTools_reconciles:
  assumes "sdk_tool_laws sdk out_ok names"
    and "boundServer (w_objs w a) = Some srv" and "has_owner (w_objs w a)"
  shows "names (w_srvs (SetSessionTools sdk ts a w) srv) =
      (names (w_srvs w srv) \<union> accepted_names out_ok ts) - (set (sdkToolNames (w_objs w a)) - accepted_keys out_ok ts)
    \<and> (keyed_by_name ts \<longrightarrow> names (w_srvs (SetSessionTools sdk ts a w) srv) =
        (names (w_srvs w srv) - set (sdkToolNames (w_objs w a))) \<union> accepted_keys out_ok ts)
    \<and> set (sdkToolNames (w_objs (SetSessionTools sdk ts a w) a)) = accepted_keys out_ok ts
    \<and> GetSessionTools a (SetSessionTools sdk ts a w) = ts"
proof -
  let ?v = "upd_obj a (\<lambda>cs. cs\<lparr>s_tools := ts\<rparr>) w"
  have eq: "SetSessionTools sdk ts a w = syncSessionTools sdk srv a ?v"
    using assms(2,3) by (simp add: SetSessionTools_def if_bound_def upd_obj_def)
  have v: "s_tools (w_objs ?v a) = ts" "w_srvs ?v = w_srvs w" "sdkToolNames (w_objs ?v a) = sdkToolNames (w_objs w a)"
    by (simp_all add: upd_obj_def)
  have n: "names (w_srvs (SetSessionTools sdk ts a w) srv) =
      (names (w_srvs w srv) \<union> accepted_names out_ok ts) - (set (sdkToolNames (w_objs w a)) - accepted_keys out_ok ts)"
    using syncSessionTools_names(1) [OF assms(1), of srv a ?v] v eq by simp
  moreover have "set (sdkToolNames (w_objs (SetSessionTools sdk ts a w) a)) = accepted_keys out_ok ts"
    using syncSessionTools_names(2) [OF assms(1), of srv a ?v] v eq by simp
  moreover have "GetSessionTools a (SetSessionTools sdk ts a w) = ts"
    unfolding eq by (simp add: GetSessionTools_def syncSessionTools_def Let_def upd_obj_def set_srv_def split: prod.split)
  ultimately show ?thesis using keyed_accepted [of ts out_ok] by auto
qed

definition sample_tool :: "string \<Rightarrow> json \<Rightarrow> 'x \<Rightarrow> 'x ServerTool" where
  "sample_tool n j x = \<lparr>st_Name = n, st_Tool = Some \<lparr>gt_Name = n, gt_InputSchema = j, gt_rest = x\<rparr>, st_Handler = 0\<rparr>"

text \<open>An SDK whose tools carry a flag saying whether their output schema is an object schema.\<close>

definition flag_sdk :: "(string list, bool) gosdk" where
  "flag_sdk = sample_sdk\<lparr>sdkAddTool :=
     (\<lambda>g h srv. if object_schema (gt_InputSchema g) \<and> gt_rest g then Some (gt_Name g # srv) else None)\<rparr>"

lemma flag_laws: "sdk_tool_laws flag_sdk (\<lambda>x. x) set"
  by (auto simp: sdk_tool_laws_def flag_sdk_def sample_sdk_def split: option.splits)

theorem SetSessionTools_reconciles_witness:
  "set (w_srvs (SetSessionTools flag_sdk
       [(''b'', sample_tool ''b'' JNull True), (''bad'', sample_tool ''bad'' (JBool True) True), (''out'', sample_tool ''out'' JNull False)] 0
     ((initial_world (\<lambda>_. [''g'', ''a'']))\<lparr>w_objs := (\<lambda>_. (fresh_session ''s'')
        \<lparr>boundServer := Some 3, has_owner := True, sdkToolNames := [''a'']\<rparr>)\<rparr>)) 3) = {''g'', ''b''}"
proof -
  let ?ts = "[(''b'', sample_tool ''b'' JNull True), (''bad'', sample_tool ''bad'' (JBool True) True), (''out'', sample_tool ''out'' JNull False)]"
  let ?w = "(initial_world (\<lambda>_. [''g'', ''a'']) :: (string list, bool) world)\<lparr>w_objs := (\<lambda>_. (fresh_session ''s'')
        \<lparr>boundServer := Some 3, has_owner := True, sdkToolNames := [''a'']\<rparr>)\<rparr>"
  have k: "keyed_by_name ?ts" by (simp add: keyed_by_name_def sample_tool_def)
  have a: "accepted_keys (\<lambda>x. x) ?ts = {''b''}"
    by (simp add: accepted_Cons) (simp add: accepted_keys_def tool_accepted_def sample_tool_def lenient_def object_schema_def)
  have w: "boundServer (w_objs ?w 0) = Some 3" "has_owner (w_objs ?w 0)" "set (w_srvs ?w 3) - set (sdkToolNames (w_objs ?w 0)) = {''g''}"
    by (auto simp: initial_world_def fresh_session_def)
  have "set (w_srvs (SetSessionTools flag_sdk ?ts 0 ?w) 3) = (set (w_srvs ?w 3) - set (sdkToolNames (w_objs ?w 0))) \<union> accepted_keys (\<lambda>x. x) ?ts"
    using SetSessionTools_reconciles [OF flag_laws w(1,2)] k by blast
  also have "\<dots> = {''g'', ''b''}" unfolding a w(3) by (simp add: insert_commute)
  finally show ?thesis .
qed

text \<open>
  The reconciliation tracks overlay keys while the server registers tool names: when a session stores a tool under a key
  other than its name, clearing the overlay leaves the tool callable on the live server.
\<close>
theorem overlay_key_mismatch_stays:
  "set (w_srvs (SetSessionTools sample_sdk [] 0 (SetSessionTools sample_sdk [(''key'', sample_tool ''name'' JNull ())] 0
     ((initial_world (\<lambda>_. []) :: (string list, unit) world)\<lparr>w_objs := (\<lambda>_. (fresh_session ''s'')
        \<lparr>boundServer := Some 3, has_owner := True\<rparr>)\<rparr>))) 3) = {''name''}"
  by (simp add: SetSessionTools_def if_bound_def syncSessionTools_def upd_obj_def set_srv_def initial_world_def
      fresh_session_def sample_tool_def sample_sdk_def toGoSDKTool_def addSessionTool_def normalizeObjectSchema_def Let_def)

end
