(* ===== verification/Mcp_Race.thy ===== *)
theory Mcp_Race
  imports Mcp_Session
begin

text \<open>
  Concurrent calls of \<open>sessionFor\<close> (\<open>mcpcompat/server/session.go\<close>) for one ID. The function makes two atomic accesses
  to the registry, a load and a load-or-store, with the creation of a session object in between; other goroutines run
  between them. Each goroutine has a program counter, and a step moves one of them.
\<close>

section \<open>Interleaved executions\<close>

datatype sf_pc = SfStart | SfMissed | SfNew nat | SfDone nat

inductive sf_step ::
  "string \<Rightarrow> ('srv, 'x) world \<times> (nat \<Rightarrow> sf_pc) \<Rightarrow> ('srv, 'x) world \<times> (nat \<Rightarrow> sf_pc) \<Rightarrow> bool"
  for sid where
  hit: "pc t = SfStart \<Longrightarrow> w_sessions w sid = Some a \<Longrightarrow> sf_step sid (w, pc) (w, pc(t := SfDone a))"
| miss: "pc t = SfStart \<Longrightarrow> w_sessions w sid = None \<Longrightarrow> sf_step sid (w, pc) (w, pc(t := SfMissed))"
| create: "pc t = SfMissed \<Longrightarrow> newClientSession sid w = (a, w') \<Longrightarrow> sf_step sid (w, pc) (w', pc(t := SfNew a))"
| loaded: "pc t = SfNew a \<Longrightarrow> w_sessions w sid = Some b \<Longrightarrow> sf_step sid (w, pc) (w, pc(t := SfDone b))"
| stored: "pc t = SfNew a \<Longrightarrow> w_sessions w sid = None \<Longrightarrow>
    sf_step sid (w, pc) (w\<lparr>w_sessions := (w_sessions w)(sid \<mapsto> a)\<rparr>, pc(t := SfDone a))"

inductive_cases sf_stepE: "sf_step sid p q"

definition sf_inv :: "string \<Rightarrow> ('srv, 'x) world \<times> (nat \<Rightarrow> sf_pc) \<Rightarrow> bool" where
  "sf_inv sid p \<longleftrightarrow> reg_wf (fst p)
     \<and> (\<forall>t a. snd p t = SfDone a \<longrightarrow> w_sessions (fst p) sid = Some a)
     \<and> (\<forall>t a. snd p t = SfNew a \<longrightarrow> a < w_next (fst p) \<and> cs_id (w_objs (fst p) a) = sid \<and> chan_open (w_objs (fst p) a))"

lemma sf_inv_pc:
  "sf_inv sid (w, pc) \<Longrightarrow>
     (case s of SfDone a \<Rightarrow> w_sessions w sid = Some a
      | SfNew a \<Rightarrow> a < w_next w \<and> cs_id (w_objs w a) = sid \<and> chan_open (w_objs w a) | _ \<Rightarrow> True) \<Longrightarrow>
     sf_inv sid (w, pc(t := s))"
  unfolding sf_inv_def by (auto split: sf_pc.splits)

lemma sf_inv_create:
  assumes "sf_inv sid (w, pc)" and "newClientSession sid w = (a, w')"
  shows "sf_inv sid (w', pc(t := SfNew a))"
proof (rule sf_inv_pc)
  have w': "a = w_next w" "w' = snd (newClientSession sid w)" using assms(2) by (auto simp: newClientSession_def)
  have old: "b < w_next w \<Longrightarrow> w_objs w' b = w_objs w b" for b by (simp add: w' newClientSession_def)
  have nx: "w_next w' = Suc (w_next w)" "w_sessions w' = w_sessions w" by (simp_all add: w' newClientSession_def)
  have "reg_wf w'" unfolding w' using assms(1) by (simp add: sf_inv_def wf_new)
  with assms(1) old nx show "sf_inv sid (w', pc)" by (auto simp: sf_inv_def intro: less_SucI)
  show "case SfNew a of SfDone a \<Rightarrow> w_sessions w' sid = Some a
      | SfNew a \<Rightarrow> a < w_next w' \<and> cs_id (w_objs w' a) = sid \<and> chan_open (w_objs w' a) | _ \<Rightarrow> True"
    by (simp add: w' newClientSession_def fresh_session_def)
qed

lemma sf_inv_store:
  assumes "sf_inv sid (w, pc)" and "sid \<noteq> []" and "pc t = SfNew a" and "w_sessions w sid = None"
  shows "sf_inv sid (w\<lparr>w_sessions := (w_sessions w)(sid \<mapsto> a)\<rparr>, pc(t := SfDone a))"
proof (rule sf_inv_pc)
  have a: "a < w_next w" "cs_id (w_objs w a) = sid" "chan_open (w_objs w a)"
    using assms(1,3) by (auto simp: sf_inv_def)
  have wf: "reg_wf w" using assms(1) by (simp add: sf_inv_def)
  have "reg_wf (w\<lparr>w_sessions := (w_sessions w)(sid \<mapsto> a)\<rparr>)"
    using wf a assms(2) unfolding reg_wf_def by simp
  with assms(1,4) show "sf_inv sid (w\<lparr>w_sessions := (w_sessions w)(sid \<mapsto> a)\<rparr>, pc)"
    by (auto simp: sf_inv_def)
qed simp

lemma sf_step_inv: "sf_step sid p q \<Longrightarrow> sid \<noteq> [] \<Longrightarrow> sf_inv sid p \<Longrightarrow> sf_inv sid q"
proof (induction rule: sf_step.induct)
  case (create pc t w a w')
  then show ?case by (blast intro: sf_inv_create)
next
  case (stored pc t a w)
  then show ?case by (blast intro: sf_inv_store)
qed (auto intro: sf_inv_pc)

text \<open>
  C19. Racing lookups agree: however the accesses of any number of goroutines looking up the same session ID interleave, all
  calls that have returned returned the same session object, and it is the one the registry holds.
\<close>
theorem sessionFor_race_agrees:
  assumes "reg_wf w" and "sid \<noteq> []" and "(sf_step sid)\<^sup>*\<^sup>* (w, \<lambda>_. SfStart) (w', pc)"
    and "pc t = SfDone a" and "pc u = SfDone b"
  shows "a = b \<and> w_sessions w' sid = Some a"
proof -
  have "sf_inv sid (w, \<lambda>_. SfStart)" using assms(1) by (simp add: sf_inv_def)
  with assms(3) have "sf_inv sid (w', pc)"
    by (induction rule: rtranclp_induct) (use sf_step_inv [OF _ assms(2)] in blast)+
  then have "w_sessions w' sid = Some a" "w_sessions w' sid = Some b"
    using assms(4,5) unfolding sf_inv_def by (metis fst_conv snd_conv)+
  then show ?thesis by simp
qed

theorem sessionFor_race_agrees_witness:
  "\<exists>w' pc. (sf_step ''s'')\<^sup>*\<^sup>* (initial_world (\<lambda>_. ()) :: (unit, unit) world, \<lambda>_. SfStart) (w', pc)
     \<and> pc 0 = SfDone 0 \<and> pc 1 = SfDone 0 \<and> w_sessions w' ''s'' = Some 0"
proof -
  let ?i = "initial_world (\<lambda>_. ()) :: (unit, unit) world"
  let ?w1 = "snd (newClientSession ''s'' ?i)"
  let ?w = "?w1\<lparr>w_sessions := (w_sessions ?w1)(''s'' \<mapsto> 0)\<rparr>"
  let ?p1 = "(\<lambda>_ :: nat. SfStart)(0 := SfMissed)"
  let ?p2 = "?p1(0 := SfNew 0)"
  let ?p3 = "?p2(0 := SfDone 0)"
  let ?p4 = "?p3(1 := SfDone 0)"
  have "sf_step ''s'' (?i, \<lambda>_. SfStart) (?i, ?p1)" by (rule sf_step.miss) (simp_all add: initial_world_def)
  moreover have "sf_step ''s'' (?i, ?p1) (?w1, ?p2)"
    by (rule sf_step.create) (simp_all add: initial_world_def newClientSession_def)
  moreover have "sf_step ''s'' (?w1, ?p2) (?w, ?p3)"
    by (rule sf_step.stored) (simp_all add: initial_world_def newClientSession_def)
  moreover have "sf_step ''s'' (?w, ?p3) (?w, ?p4)" by (rule sf_step.hit) simp_all
  ultimately have run: "(sf_step ''s'')\<^sup>*\<^sup>* (?i, \<lambda>_. SfStart) (?w, ?p4)"
    by (meson converse_rtranclp_into_rtranclp rtranclp.rtrancl_refl)
  have "0 = (0 :: nat) \<and> w_sessions ?w ''s'' = Some 0"
    by (rule sessionFor_race_agrees [OF initial_wf _ run, of 0 0 1 0]) simp_all
  with run show ?thesis by (intro exI [of _ ?w] exI [of _ ?p4]) simp
qed

section \<open>The losing goroutine's object\<close>

text \<open>A session object nobody can reach through the registry, whose notification channel is open, hence whose
  drain goroutine is still running.\<close>

definition orphan :: "nat \<Rightarrow> ('srv, 'x) world \<Rightarrow> bool" where
  "orphan a w \<longleftrightarrow> a < w_next w \<and> cs_id (w_objs w a) \<noteq> [] \<and> chan_open (w_objs w a)
     \<and> (\<forall>sid. w_sessions w sid \<noteq> Some a)"

lemma orphan_frame: "orphan a w \<Longrightarrow> frame w w' \<Longrightarrow> orphan a w'"
  by (simp add: orphan_def frame_def core_def)

lemma orphan_new: "orphan a w \<Longrightarrow> newClientSession s w = (b, w') \<Longrightarrow> orphan a w' \<and> b \<noteq> a"
  by (auto simp: orphan_def newClientSession_def)

lemma orphan_sessionFor: "orphan a w \<Longrightarrow> sessionFor s w = (b, w') \<Longrightarrow> orphan a w' \<and> b \<noteq> a"
  by (cases "w_sessions w s") (auto simp: orphan_def sessionFor_def newClientSession_def split: if_splits)

lemma orphan_close: "orphan a w \<Longrightarrow> b \<noteq> a \<Longrightarrow> close_notif b w = Some w' \<Longrightarrow> orphan a w'"
  by (auto simp: orphan_def close_notif_def upd_obj_def split: if_splits)

lemma orphan_register:
  assumes "orphan a w"
  shows "orphan a (registerAndSync sdk hooks ss srv w)"
proof (cases "ss = None \<or> (\<exists>s. ss = Some s \<and> ss_ID s = [])")
  case False
  then obtain s where s: "ss = Some s" "ss_ID s \<noteq> []" by auto
  obtain b w1 where b: "sessionFor (ss_ID s) w = (b, w1)" by fastforce
  let ?w2 = "bind_to b s srv w1"
  let ?w3 = "?w2\<lparr>w_local := insert (ss_ID s) (w_local ?w2)\<rparr>"
  let ?w4 = "Initialize b (upd_obj b (\<lambda>cs. cs\<lparr>registered := True\<rparr>) ?w3)"
  have "orphan a ?w2" using orphan_sessionFor [OF assms b] orphan_frame [OF _ frame_bind] by blast
  then have w3: "orphan a ?w3" by (simp add: orphan_def)
  then have "orphan a (upd_obj b (\<lambda>cs. cs\<lparr>registered := True\<rparr>) ?w3)" by (auto simp: orphan_def upd_obj_def)
  then have w4: "orphan a ?w4" by (rule orphan_frame [OF _ frame_Initialize])
  then have "orphan a (?w4\<lparr>w_fired := b # w_fired ?w4\<rparr>)" by (simp add: orphan_def)
  then have "orphan a (registerSession sdk hs b ?w4)" for hs
    unfolding registerSession_def by (rule orphan_frame [OF _ frame_run_hooks])
  then have "orphan a (case hooks of None \<Rightarrow> ?w4 | Some hs \<Rightarrow> registerSession sdk hs b ?w4)"
    using w4 by (simp split: option.split)
  from orphan_frame [OF this syncs_frame] w3 show ?thesis
    using s b by (simp add: registerAndSync_def Let_def)
qed (use assms in \<open>auto simp: registerAndSync_def\<close>)

lemma orphan_forget:
  assumes "orphan a w" and "forgetSession s w = Some w'"
  shows "orphan a w'"
proof (cases "s = [] \<or> w_sessions w s = None")
  case True
  with assms show ?thesis by (auto simp: forgetSession_def orphan_def Let_def split: if_splits)
next
  case False
  then obtain b where b: "w_sessions w s = Some b" by auto
  with assms(1) have "b \<noteq> a" by (auto simp: orphan_def)
  moreover have "orphan a (w\<lparr>w_sessions := (w_sessions w)(s := None), w_local := w_local w - {s}\<rparr>)"
    using assms(1) by (simp add: orphan_def)
  moreover have "close_notif b (w\<lparr>w_sessions := (w_sessions w)(s := None), w_local := w_local w - {s}\<rparr>) = Some w'"
    using assms(2) b False by (simp add: forgetSession_def)
  ultimately show ?thesis using orphan_close by blast
qed

lemma orphan_step: "session_step sdk hooks w w' \<Longrightarrow> orphan a w \<Longrightarrow> orphan a w'"
proof (induction rule: session_step.induct)
  case (lookup c ss w c' w')
  have g: "frame v (upd_obj b (\<lambda>cs. cs\<lparr>goSession := x\<rparr>) v)" for b x and v :: "('a, 'b) world"
    by (rule frame_upd) (simp add: core_def)
  from lookup orphan_sessionFor orphan_frame [OF _ g] show ?case
    by (fastforce simp: contextWithSession_def split: option.splits if_splits prod.splits)
next
  case (ephemeral c s srv w c' b w')
  then have "w' = Initialize b (bind_to b s srv (snd (newClientSession [] w)))"
    by (auto simp: bindEphemeralSession_def newClientSession_def)
  moreover have "orphan a (snd (newClientSession [] w))"
    using orphan_new [OF ephemeral.prems] by (metis prod.collapse)
  ultimately show ?case using orphan_frame frame_trans [OF frame_bind frame_Initialize] by metis
next
  case (cleanup b w w')
  then have "b \<noteq> a" by (auto simp: orphan_def SessionID_def)
  with cleanup show ?case using orphan_close by blast
next
  case (register w ss srv)
  then show ?case by (rule orphan_register)
next
  case (forget s w w')
  then show ?case using orphan_forget by blast
next
  case (rehydrate s w ss srv)
  obtain b w1 where b: "sessionFor s w = (b, w1)" by fastforce
  then have "orphan a w1" using orphan_sessionFor [OF rehydrate.prems] by blast
  from orphan_frame [OF this frame_trans [OF frame_bind frame_Initialize]] show ?case
    using b by (simp add: bindRehydratedSession_def)
next
  case (overlay w b op)
  then show ?case by (rule orphan_frame [OF _ frame_run_op])
qed

lemma orphan_run: "(session_step sdk hooks)\<^sup>*\<^sup>* w w' \<Longrightarrow> orphan a w \<Longrightarrow> orphan a w'"
  by (induction rule: rtranclp_induct) (auto intro: orphan_step)

text \<open>
  A lookup race leaks: two goroutines that both miss the same new ID each create a session object, and the loser's object is
  dropped with its notification channel open. No later operation of the server, in any order, closes that channel, so
  the goroutine draining it never ends.
\<close>
theorem sessionFor_race_leaks:
  fixes sdk :: "('srv, 'x) gosdk" and srvs :: "nat \<Rightarrow> 'srv"
  shows "\<exists>w pc. (sf_step ''s'')\<^sup>*\<^sup>* (initial_world srvs, \<lambda>_. SfStart) (w, pc) \<and> pc 0 = SfDone 0 \<and> pc 1 = SfDone 0
     \<and> reg_wf w \<and> {w'. (session_step sdk hooks)\<^sup>*\<^sup>* w w'} \<subseteq> {w'. chan_open (w_objs w' 1)}"
proof -
  let ?i = "initial_world srvs :: ('srv, 'x) world"
  let ?w1 = "snd (newClientSession ''s'' ?i)"
  let ?w2 = "snd (newClientSession ''s'' ?w1)"
  let ?w = "?w2\<lparr>w_sessions := (w_sessions ?w2)(''s'' \<mapsto> 0)\<rparr>"
  let ?p1 = "(\<lambda>_ :: nat. SfStart)(0 := SfMissed)"
  let ?p2 = "?p1(1 := SfMissed)"
  let ?p3 = "?p2(0 := SfNew 0)"
  let ?p4 = "?p3(1 := SfNew 1)"
  let ?p5 = "?p4(0 := SfDone 0)"
  let ?p6 = "?p5(1 := SfDone 0)"
  note d = initial_world_def newClientSession_def
  have n1: "newClientSession ''s'' ?i = (0, ?w1)" and n2: "newClientSession ''s'' ?w1 = (1, ?w2)"
    by (simp_all add: d)
  have s: "sf_step ''s'' (?i, \<lambda>_. SfStart) (?i, ?p1)" "sf_step ''s'' (?i, ?p1) (?i, ?p2)"
      "sf_step ''s'' (?i, ?p2) (?w1, ?p3)" "sf_step ''s'' (?w1, ?p3) (?w2, ?p4)"
      "sf_step ''s'' (?w2, ?p4) (?w, ?p5)" "sf_step ''s'' (?w, ?p5) (?w, ?p6)"
    by (rule sf_step.miss, simp, simp add: d)+
       (rule sf_step.create, simp, rule n1, rule sf_step.create, simp, rule n2,
        rule sf_step.stored, simp, simp add: d, rule sf_step.loaded [where a = 1], simp, simp)
  then have run: "(sf_step ''s'')\<^sup>*\<^sup>* (?i, \<lambda>_. SfStart) (?w, ?p6)"
    by (meson converse_rtranclp_into_rtranclp rtranclp.rtrancl_refl)
  have "orphan 1 ?w" by (simp add: orphan_def d fresh_session_def)
  then have o: "(session_step sdk hooks)\<^sup>*\<^sup>* ?w w' \<Longrightarrow> orphan 1 w'" for w'
    by (blast intro: orphan_run)
  have "reg_wf ?w" by (simp add: reg_wf_def d fresh_session_def less_Suc_eq)
  then show ?thesis using run o by (intro exI [of _ ?w] exI [of _ ?p6]) (auto simp: orphan_def)
qed

end
