(* ===== verification/Mcp_Dispatch.thy ===== *)
theory Mcp_Dispatch
  imports Mcp_Session
begin

text \<open>
  Request dispatch (\<open>mcpcompat/server/server.go\<close>): the bridge of per-request context values by nonce, the choice of the session a
  request runs under, the before-hooks, the middleware around the SDK's dispatch, and the adapters that
  wrap the host's tool, resource and prompt handlers.

  Parameters: the SDK's own dispatch (\<open>next\<close>), the JSON conversions, the host's handlers and hooks.
\<close>

section \<open>Per-request context values\<close>

type_synonym pending = "string \<rightharpoonup> ctx"

definition setPendingRequestContext :: "ctx \<Rightarrow> string \<Rightarrow> pending \<Rightarrow> pending" where
  "setPendingRequestContext c nonce m = m(nonce \<mapsto> c)"

definition pendingRequestContext :: "string \<Rightarrow> pending \<Rightarrow> ctx option" where
  "pendingRequestContext nonce m = m nonce"

definition clearPendingRequestContext :: "string \<Rightarrow> pending \<Rightarrow> pending" where
  "clearPendingRequestContext nonce m = m(nonce := None)"

text \<open>\<open>valueBridgeContext\<close>: every key is looked up in the request's context first.\<close>

definition valueBridgeContext :: "ctx \<Rightarrow> ctx \<Rightarrow> ctx" where
  "valueBridgeContext base values =
     \<lparr>ctx_session = (case ctx_session values of Some a \<Rightarrow> Some a | None \<Rightarrow> ctx_session base),
      ctx_vals = (\<lambda>key. case ctx_vals values key of Some v \<Rightarrow> Some v | None \<Rightarrow> ctx_vals base key)\<rparr>"

section \<open>Choosing the session\<close>

definition bindSessionForDispatch ::
  "ctx \<Rightarrow> serverSession option \<Rightarrow> nat \<Rightarrow> bool \<Rightarrow> ('srv, 'x) world \<Rightarrow> ctx \<times> nat option \<times> ('srv, 'x) world" where
  "bindSessionForDispatch c ss srv stateless w =
     (case ss of
        None \<Rightarrow> (c, None, w)
      | Some s \<Rightarrow>
          if stateless \<or> ss_ID s = [] then
            (case bindEphemeralSession c s srv w of (c', a, w') \<Rightarrow> (c', Some a, w'))
          else (case contextWithSession c (Some s) w of (c', w') \<Rightarrow> (c', None, w')))"

section \<open>Requests and before-hooks\<close>

datatype goparams = ListToolsParams string | CallToolParamsRaw string string | OtherParams

record gorequest =
  rq_session :: "serverSession option"
  rq_nonce :: string
  rq_params :: goparams

record listReq =
  lr_Cursor :: string

record callReq =
  cr_Name :: string
  cr_Arguments :: "json option"

type_synonym ('srv, 'x, 'q) bhook = "ctx \<Rightarrow> 'q \<Rightarrow> ('srv, 'x) world \<Rightarrow> 'x overlay_op list"

record ('srv, 'x) Hooks =
  registerSessionHooks :: "('srv, 'x) hook list"
  listToolsHooks :: "('srv, 'x, listReq) bhook list"
  callToolHooks :: "('srv, 'x, callReq) bhook list"

definition AddOnRegisterSession :: "('srv, 'x) hook \<Rightarrow> ('srv, 'x) Hooks \<Rightarrow> ('srv, 'x) Hooks" where
  "AddOnRegisterSession h c = c\<lparr>registerSessionHooks := registerSessionHooks c @ [h]\<rparr>"

definition AddBeforeListTools :: "('srv, 'x, listReq) bhook \<Rightarrow> ('srv, 'x) Hooks \<Rightarrow> ('srv, 'x) Hooks" where
  "AddBeforeListTools h c = c\<lparr>listToolsHooks := listToolsHooks c @ [h]\<rparr>"

definition AddBeforeCallTool :: "('srv, 'x, callReq) bhook \<Rightarrow> ('srv, 'x) Hooks \<Rightarrow> ('srv, 'x) Hooks" where
  "AddBeforeCallTool h c = c\<lparr>callToolHooks := callToolHooks c @ [h]\<rparr>"

text \<open>A hook sets overlays on the session of its context, if there is one.\<close>

definition run_before ::
  "('srv, 'x) gosdk \<Rightarrow> ('srv, 'x, 'q) bhook list \<Rightarrow> ctx \<Rightarrow> 'q \<Rightarrow> ('srv, 'x) world \<Rightarrow> ('srv, 'x) world" where
  "run_before sdk hooks c q w =
     foldl (\<lambda>v h. case ClientSessionFromContext c of None \<Rightarrow> v | Some a \<Rightarrow> foldl (run_op sdk a) v (h c q v)) w hooks"

definition fireBeforeHooks ::
  "('srv, 'x) gosdk \<Rightarrow> (string \<Rightarrow> json option) \<Rightarrow> ('srv, 'x) Hooks option \<Rightarrow> ctx \<Rightarrow> string \<Rightarrow> gorequest
     \<Rightarrow> ('srv, 'x) world \<Rightarrow> ('srv, 'x) world" where
  "fireBeforeHooks sdk unmarshal hooks c method req w =
     (case hooks of
        None \<Rightarrow> w
      | Some hs \<Rightarrow>
          if method = ''tools/list'' then
            run_before sdk (listToolsHooks hs) c
              (case rq_params req of ListToolsParams cur \<Rightarrow> \<lparr>lr_Cursor = cur\<rparr> | _ \<Rightarrow> \<lparr>lr_Cursor = []\<rparr>) w
          else if method = ''tools/call'' then
            run_before sdk (callToolHooks hs) c
              (case rq_params req of
                 CallToolParamsRaw name args \<Rightarrow>
                   \<lparr>cr_Name = name, cr_Arguments = (if args = [] then None else unmarshal args)\<rparr>
               | _ \<Rightarrow> \<lparr>cr_Name = [], cr_Arguments = None\<rparr>) w
          else w)"

section \<open>Results\<close>

datatype res_kind =
    ListToolsResult | ListResourcesResult | ListResourceTemplatesResult | ListPromptsResult | DiscoverResult
  | ReadResourceResult | OtherCacheable | NotCacheable

record 'b gores =
  rs_kind :: res_kind
  rs_scope :: string
  rs_body :: 'b

abbreviation cacheScopePublic :: string where "cacheScopePublic \<equiv> ''public''"
abbreviation cacheScopePrivate :: string where "cacheScopePrivate \<equiv> ''private''"

definition stripPublicCacheScope :: "'b gores \<Rightarrow> 'b gores" where
  "stripPublicCacheScope res =
     (case rs_kind res of
        OtherCacheable \<Rightarrow> res
      | NotCacheable \<Rightarrow> res
      | _ \<Rightarrow> if rs_scope res = cacheScopePublic then res\<lparr>rs_scope := cacheScopePrivate\<rparr> else res)"

datatype goerror = JsonRpcError int string | OtherError string

definition translateUnknownToolError :: "goerror \<Rightarrow> gorequest \<Rightarrow> goerror" where
  "translateUnknownToolError err req =
     (case err of
        JsonRpcError code msg \<Rightarrow>
          if \<not> str_contains msg ''unknown tool'' then err
          else let name = (case rq_params req of CallToolParamsRaw n _ \<Rightarrow> n | _ \<Rightarrow> [])
               in JsonRpcError code (''tool \"'' @ name @ ''\" not found'')
      | OtherError _ \<Rightarrow> err)"

section \<open>The middleware\<close>

definition bridge :: "pending \<Rightarrow> gorequest \<Rightarrow> ctx \<Rightarrow> ctx" where
  "bridge pend req c =
     (if rq_nonce req = [] then c
      else case pendingRequestContext (rq_nonce req) pend of
        None \<Rightarrow> c
      | Some reqCtx \<Rightarrow> valueBridgeContext c reqCtx)"

definition sessionDispatchMiddleware ::
  "('srv, 'x) gosdk \<Rightarrow> (string \<Rightarrow> json option) \<Rightarrow> ('srv, 'x) Hooks option \<Rightarrow> nat \<Rightarrow> bool \<Rightarrow> pending
     \<Rightarrow> (ctx \<Rightarrow> string \<Rightarrow> gorequest \<Rightarrow> ('srv, 'x) world \<Rightarrow> (goerror, 'b gores) result \<times> ('srv, 'x) world)
     \<Rightarrow> ctx \<Rightarrow> string \<Rightarrow> gorequest \<Rightarrow> ('srv, 'x) world \<Rightarrow> ((goerror, 'b gores) result \<times> ('srv, 'x) world) option" where
  "sessionDispatchMiddleware sdk unmarshal hooks srv stateless pend nxt c method req w =
     (case bindSessionForDispatch c (rq_session req) srv stateless w of
        (c1, cleanup, w1) \<Rightarrow>
          let c2 = bridge pend req c1;
              w2 = fireBeforeHooks sdk unmarshal hooks c2 method req w1
          in case nxt c2 method req w2 of
               (r, w3) \<Rightarrow>
                 let r' = (case r of
                             Inr res \<Rightarrow> Inr (stripPublicCacheScope res)
                           | Inl e \<Rightarrow> Inl (if method = ''tools/call'' then translateUnknownToolError e req else e));
                     w4 = (if is_ok r \<and> method = ''initialize'' \<and> rq_session req \<noteq> None \<and> \<not> stateless
                           then registerAndSync sdk (map_option registerSessionHooks hooks) (rq_session req) srv w3 else w3)
                 in (case cleanup of
                       None \<Rightarrow> Some (r', w4)
                     | Some a \<Rightarrow> map_option (\<lambda>v. (r', v)) (close_notif a w4)))"

section \<open>Handler adapters\<close>

datatype 'r outcome = Returned 'r | Failed string | Panicked string

datatype wrap_error =
    PanicRecovered string string | BadArguments | BadMeta | HandlerError string | BadResult

text \<open>The part the adapters share: run the handler under the session context, turn a panic into an error, convert the result.\<close>

definition run_handler ::
  "string \<Rightarrow> ('r \<Rightarrow> 'o option) \<Rightarrow> 'r outcome \<times> ('srv, 'x) world \<Rightarrow> (wrap_error, 'o) result \<times> ('srv, 'x) world" where
  "run_handler name conv p =
     (case p of
        (Panicked m, w) \<Rightarrow> (Inl (PanicRecovered name m), w)
      | (Failed e, w) \<Rightarrow> (Inl (HandlerError e), w)
      | (Returned r, w) \<Rightarrow> (case conv r of None \<Rightarrow> (Inl BadResult, w) | Some out \<Rightarrow> (Inr out, w)))"

record toolCall =
  tc_Name :: string
  tc_Arguments :: "json option"
  tc_Meta :: "json option"

definition wrapToolHandler ::
  "(string \<Rightarrow> json option) \<Rightarrow> (json \<Rightarrow> json option) \<Rightarrow> ('r \<Rightarrow> 'o option)
     \<Rightarrow> (ctx \<Rightarrow> toolCall \<Rightarrow> ('srv, 'x) world \<Rightarrow> 'r outcome \<times> ('srv, 'x) world)
     \<Rightarrow> ctx \<Rightarrow> serverSession option \<Rightarrow> string \<Rightarrow> string \<Rightarrow> json option \<Rightarrow> ('srv, 'x) world
     \<Rightarrow> (wrap_error, 'o) result \<times> ('srv, 'x) world" where
  "wrapToolHandler unmarshal convMeta conv h c ss name args meta w =
     (case contextWithSession c ss w of
        (c1, w1) \<Rightarrow>
          if args \<noteq> [] \<and> unmarshal args = None then (Inl BadArguments, w1)
          else if meta \<noteq> None \<and> convMeta (the meta) = None then (Inl BadMeta, w1)
          else run_handler name conv
                 (h c1 \<lparr>tc_Name = name, tc_Arguments = (if args = [] then None else unmarshal args),
                        tc_Meta = (case meta of None \<Rightarrow> None | Some m \<Rightarrow> convMeta m)\<rparr> w1))"

definition wrapResourceResultHandler ::
  "('r \<Rightarrow> 'o option) \<Rightarrow> 'r \<Rightarrow> (ctx \<Rightarrow> string \<Rightarrow> ('srv, 'x) world \<Rightarrow> ('r option) outcome \<times> ('srv, 'x) world)
     \<Rightarrow> ctx \<Rightarrow> serverSession option \<Rightarrow> string \<Rightarrow> ('srv, 'x) world \<Rightarrow> (wrap_error, 'o) result \<times> ('srv, 'x) world" where
  "wrapResourceResultHandler conv emptyResult h c ss uri w =
     (case contextWithSession c ss w of
        (c1, w1) \<Rightarrow>
          run_handler uri (\<lambda>r. conv (case r of None \<Rightarrow> emptyResult | Some x \<Rightarrow> x)) (h c1 uri w1))"

definition wrapResourceHandler ::
  "('r \<Rightarrow> 'o option) \<Rightarrow> 'r \<Rightarrow> ('cs \<Rightarrow> 'r) \<Rightarrow> (ctx \<Rightarrow> string \<Rightarrow> ('srv, 'x) world \<Rightarrow> 'cs outcome \<times> ('srv, 'x) world)
     \<Rightarrow> ctx \<Rightarrow> serverSession option \<Rightarrow> string \<Rightarrow> ('srv, 'x) world \<Rightarrow> (wrap_error, 'o) result \<times> ('srv, 'x) world" where
  "wrapResourceHandler conv emptyResult contentsOnly h =
     wrapResourceResultHandler conv emptyResult
       (\<lambda>c uri w. case h c uri w of
          (Returned cs, w') \<Rightarrow> (Returned (Some (contentsOnly cs)), w')
        | (Failed e, w') \<Rightarrow> (Failed e, w')
        | (Panicked m, w') \<Rightarrow> (Panicked m, w'))"

definition wrapPromptHandler ::
  "('r \<Rightarrow> 'o option) \<Rightarrow> (ctx \<Rightarrow> string \<Rightarrow> 'a \<Rightarrow> ('srv, 'x) world \<Rightarrow> 'r outcome \<times> ('srv, 'x) world)
     \<Rightarrow> ctx \<Rightarrow> serverSession option \<Rightarrow> string \<Rightarrow> 'a \<Rightarrow> ('srv, 'x) world \<Rightarrow> (wrap_error, 'o) result \<times> ('srv, 'x) world" where
  "wrapPromptHandler conv h c ss name args w =
     (case contextWithSession c ss w of (c1, w1) \<Rightarrow> run_handler name conv (h c1 name args w1))"

definition wrapCompletionHandler ::
  "('q \<Rightarrow> 'm option) \<Rightarrow> 'm \<Rightarrow> ('r \<Rightarrow> 'o option) \<Rightarrow> (ctx \<Rightarrow> 'm \<Rightarrow> ('srv, 'x) world \<Rightarrow> 'r outcome \<times> ('srv, 'x) world)
     \<Rightarrow> ctx \<Rightarrow> 'q option \<Rightarrow> ('srv, 'x) world \<Rightarrow> (wrap_error, 'o) result \<times> ('srv, 'x) world" where
  "wrapCompletionHandler convReq emptyReq conv h c params w =
     (case params of
        None \<Rightarrow> run_handler ''completion'' conv (h c emptyReq w)
      | Some q \<Rightarrow>
          (case convReq q of
             None \<Rightarrow> (Inl BadArguments, w)
           | Some m \<Rightarrow> run_handler ''completion'' conv (h c m w)))"

section \<open>Sessions keep their identity\<close>

definition grows :: "('srv, 'x) world \<Rightarrow> ('srv, 'x) world \<Rightarrow> bool" where
  "grows w w' \<longleftrightarrow> w_next w \<le> w_next w' \<and> (\<forall>a < w_next w. cs_id (w_objs w' a) = cs_id (w_objs w a))"

lemma grows_refl: "grows w w"
  by (simp add: grows_def)

lemma grows_trans: "grows w v \<Longrightarrow> grows v u \<Longrightarrow> grows w u"
  by (simp add: grows_def)

lemma grows_frame: "frame w w' \<Longrightarrow> grows w w'"
  by (simp add: grows_def frame_def core_def)

lemma grows_upd: "(\<And>cs. cs_id (f cs) = cs_id cs) \<Longrightarrow> grows w (upd_obj a f w)"
  by (simp add: grows_def upd_obj_def)

lemma grows_sessionFor: "sessionFor s w = (a, w') \<Longrightarrow> grows w w'"
  by (cases "w_sessions w s") (auto simp: grows_def sessionFor_def newClientSession_def)

lemma grows_close: "close_notif a w = Some w' \<Longrightarrow> grows w w'"
  by (auto simp: close_notif_def grows_def upd_obj_def split: if_splits)

lemma grows_fields: "grows w (w\<lparr>w_local := l\<rparr>)" "grows w (w\<lparr>w_fired := f\<rparr>)" "grows w (w\<lparr>w_sessions := m, w_local := l\<rparr>)"
  by (simp_all add: grows_def)

lemma grows_register: "grows w (registerAndSync sdk hooks ss srv w)"
proof (cases "ss = None \<or> (\<exists>s. ss = Some s \<and> ss_ID s = [])")
  case False
  then obtain s where s: "ss = Some s" "ss_ID s \<noteq> []" by auto
  obtain b w1 where b: "sessionFor (ss_ID s) w = (b, w1)" by fastforce
  let ?w2 = "bind_to b s srv w1"
  let ?w3 = "?w2\<lparr>w_local := insert (ss_ID s) (w_local ?w2)\<rparr>"
  let ?w4 = "Initialize b (upd_obj b (\<lambda>cs. cs\<lparr>registered := True\<rparr>) ?w3)"
  let ?w5 = "case hooks of None \<Rightarrow> ?w4 | Some hs \<Rightarrow> registerSession sdk hs b ?w4"
  have w3: "grows w ?w3"
    using grows_trans [OF grows_sessionFor [OF b]] grows_trans [OF grows_frame [OF frame_bind] grows_fields(1)] by blast
  have "grows ?w3 (upd_obj b (\<lambda>cs. cs\<lparr>registered := True\<rparr>) ?w3)" by (rule grows_upd) simp
  then have w4: "grows ?w3 ?w4" by (rule grows_trans [OF _ grows_frame [OF frame_Initialize]])
  have "grows ?w4 (registerSession sdk hs b ?w4)" for hs
    unfolding registerSession_def by (rule grows_trans [OF grows_fields(2) grows_frame [OF frame_run_hooks]])
  then have "grows ?w4 ?w5" by (simp add: grows_refl split: option.split)
  then have "grows ?w3 (syncSessionPrompts sdk srv b (syncSessionResourceTemplates sdk srv b
     (syncSessionResources sdk srv b (syncSessionTools sdk srv b ?w5))))"
    using grows_trans [OF w4] grows_trans [OF _ grows_frame [OF syncs_frame]] by blast
  with w3 show ?thesis using s b grows_trans [OF w3] by (simp add: registerAndSync_def Let_def)
qed (auto simp: registerAndSync_def grows_refl)

lemma grows_step: "session_step sdk hooks w w' \<Longrightarrow> grows w w'"
proof (induction rule: session_step.induct)
  case (lookup c ss w c' w')
  have "grows v (upd_obj b (\<lambda>cs. cs\<lparr>goSession := x\<rparr>) v)" for b x and v :: "('a, 'b) world"
    by (rule grows_upd) simp
  note g = grows_trans [OF grows_sessionFor this]
  from lookup show ?case
    by (cases ss) (auto simp: contextWithSession_def grows_refl intro: g split: if_splits prod.splits)
next
  case (ephemeral c s srv w c' b w')
  then have w': "w' = Initialize b (bind_to b s srv (snd (newClientSession [] w)))"
    by (auto simp: bindEphemeralSession_def newClientSession_def)
  have "grows w (snd (newClientSession [] w))" by (simp add: grows_def newClientSession_def)
  from grows_trans [OF this grows_frame [OF frame_trans [OF frame_bind frame_Initialize]]] w' show ?case by simp
next
  case (forget s w w')
  then show ?case
    using grows_trans [OF grows_fields(3) grows_close]
    by (auto simp: forgetSession_def grows_refl grows_fields Let_def split: if_splits option.splits)
next
  case (rehydrate s w ss srv)
  obtain b w1 where b: "sessionFor s w = (b, w1)" by fastforce
  from grows_trans [OF grows_sessionFor [OF b] grows_frame [OF frame_trans [OF frame_bind frame_Initialize]]] b
  show ?case by (simp add: bindRehydratedSession_def)
qed (auto intro: grows_close grows_register grows_frame [OF frame_run_op])

lemma grows_run: "(session_step sdk hooks)\<^sup>*\<^sup>* w w' \<Longrightarrow> grows w w'"
  by (induction rule: rtranclp_induct) (auto intro: grows_refl grows_trans grows_step)

lemma frame_run_before [frames]: "frame w (run_before sdk hooks c q w)"
proof (induction hooks arbitrary: w)
  case (Cons h hs)
  let ?v = "case ClientSessionFromContext c of None \<Rightarrow> w | Some a \<Rightarrow> foldl (run_op sdk a) w (h c q w)"
  have "run_before sdk (h # hs) c q w = run_before sdk hs c q ?v" by (simp add: run_before_def)
  moreover have "frame w ?v" by (simp add: frame_refl frame_run_ops split: option.split)
  from frame_trans [OF this Cons.IH] have "frame w (run_before sdk hs c q ?v)" .
  ultimately show ?case by (simp only:)
qed (simp add: run_before_def frame_refl)

lemma frame_fireBeforeHooks [frames]: "frame w (fireBeforeHooks sdk um hooks c method req w)"
  by (simp add: fireBeforeHooks_def frame_refl frame_run_before split: option.split)

section \<open>Stateless requests\<close>

lemma bridge_session:
  "(\<And>v. pend (rq_nonce req) = Some v \<Longrightarrow> ctx_session v = None) \<Longrightarrow> ctx_session (bridge pend req c) = ctx_session c"
  by (auto simp: bridge_def pendingRequestContext_def valueBridgeContext_def split: option.splits)

text \<open>
  C7. Isolation of stateless requests. A dispatch on a stateless server, or of an SDK session without an ID, runs the SDK's dispatch
  under a session object of its own: one that did not exist before and is in no registry; up to that point neither
  registry has changed. Whatever session operations the dispatch itself performs, the middleware then returns (no
  panic), the private session's notification channel is closed so that its goroutine ends, and no registration happens.
\<close>
theorem stateless_dispatch_isolated:
  assumes "reg_wf w" and "rq_session req = Some s" and "stateless \<or> ss_ID s = []"
    and "\<And>v. pend (rq_nonce req) = Some v \<Longrightarrow> ctx_session v = None"
    and "\<And>c v r v'. nxt c method req v = (r, v') \<Longrightarrow> (session_step sdk hs)\<^sup>*\<^sup>* v v'"
  shows "\<exists>c2 w2 r w3 r' w'.
     ctx_session c2 = Some (w_next w) \<and> reg_wf w2 \<and> w_sessions w2 = w_sessions w \<and> w_local w2 = w_local w
     \<and> nxt c2 method req w2 = (r, w3)
     \<and> sessionDispatchMiddleware sdk um hooks srv stateless pend nxt c method req w = Some (r', w')
     \<and> w_sessions w' = w_sessions w3 \<and> w_local w' = w_local w3 \<and> w_fired w' = w_fired w3
     \<and> \<not> chan_open (w_objs w' (w_next w))"
proof -
  obtain c1 a w1 where b: "bindEphemeralSession c s srv w = (c1, a, w1)" by (metis prod_cases3)
  note e = bindEphemeralSession_wf [OF assms(1) b]
  let ?c2 = "bridge pend req c1"
  let ?w2 = "fireBeforeHooks sdk um hooks ?c2 method req w1"
  have f: "frame w1 ?w2" by (rule frame_fireBeforeHooks)
  have w2: "reg_wf ?w2" by (rule wf_frame [OF _ f]) (use e in simp)
  have id2: "w_next w < w_next ?w2" "cs_id (w_objs ?w2 (w_next w)) = []"
    using f e by (auto simp: frame_def core_def)
  obtain r w3 where n: "nxt ?c2 method req ?w2 = (r, w3)" by fastforce
  note run = assms(5) [OF n]
  have w3: "reg_wf w3" by (rule session_run_wf [OF run w2])
  have id3: "w_next w < w_next w3" "SessionID (w_next w) w3 = []"
    using grows_run [OF run] id2 by (auto simp: grows_def SessionID_def)
  obtain w' where w': "close_notif (w_next w) w3 = Some w'" "w_sessions w' = w_sessions w3"
      "\<not> chan_open (w_objs w' (w_next w))" "w_local w' = w_local w3" "w_fired w' = w_fired w3"
    using cleanup_wf [OF w3 id3] by blast
  let ?r = "case r of Inr res \<Rightarrow> Inr (stripPublicCacheScope res)
     | Inl e \<Rightarrow> Inl (if method = ''tools/call'' then translateUnknownToolError e req else e)"
  have reg: "(if is_ok r \<and> method = ''initialize'' \<and> rq_session req \<noteq> None \<and> \<not> stateless
        then registerAndSync sdk (map_option registerSessionHooks hooks) (rq_session req) srv w3 else w3) = w3"
    using assms(2,3) by (auto simp: registerAndSync_def)
  have bind: "bindSessionForDispatch c (rq_session req) srv stateless w = (c1, Some a, w1)"
    using assms(2,3) b by (auto simp: bindSessionForDispatch_def)
  have "sessionDispatchMiddleware sdk um hooks srv stateless pend nxt c method req w = Some (?r, w')"
    unfolding sessionDispatchMiddleware_def bind prod.case Let_def n reg using e w'(1) by simp
  moreover have "ctx_session ?c2 = Some (w_next w)" using e bridge_session [OF assms(4)] by simp
  moreover have "w_sessions ?w2 = w_sessions w" "w_local ?w2 = w_local w" using f e by (auto simp: frame_def)
  ultimately show ?thesis using n w' w2 by blast
qed

definition stateless_req :: gorequest where
  "stateless_req = \<lparr>rq_session = Some \<lparr>ss_addr = 5, ss_ID = []\<rparr>, rq_nonce = [], rq_params = OtherParams\<rparr>"

theorem stateless_dispatch_isolated_witness:
  "\<exists>r' w'. sessionDispatchMiddleware (sample_sdk :: (string list, unit) gosdk) (\<lambda>_. None) None 0 True Map.empty
      (\<lambda>c m q v. (Inl (OtherError ''x''), v) :: (goerror, unit gores) result \<times> (string list, unit) world)
      \<lparr>ctx_session = None, ctx_vals = Map.empty\<rparr> ''tools/list'' stateless_req (initial_world (\<lambda>_. [])) = Some (r', w')
    \<and> w_sessions w' = Map.empty \<and> \<not> chan_open (w_objs w' 0)"
proof -
  let ?i = "initial_world (\<lambda>_. []) :: (string list, unit) world"
  let ?nxt = "\<lambda>c m q v. (Inl (OtherError ''x''), v) :: (goerror, unit gores) result \<times> (string list, unit) world"
  let ?c = "\<lparr>ctx_session = None, ctx_vals = Map.empty\<rparr>"
  have "\<exists>r' w'. sessionDispatchMiddleware sample_sdk (\<lambda>_. None) None 0 True Map.empty ?nxt ?c ''tools/list''
      stateless_req ?i = Some (r', w') \<and> w_sessions w' = w_sessions ?i \<and> \<not> chan_open (w_objs w' (w_next ?i))"
    using stateless_dispatch_isolated [of ?i stateless_req "\<lparr>ss_addr = 5, ss_ID = []\<rparr>" True Map.empty ?nxt
        "''tools/list''" sample_sdk None "\<lambda>_. None" None 0 ?c, OF initial_wf]
    by (auto simp: stateless_req_def)
  then show ?thesis by (auto simp: initial_world_def)
qed

text \<open>
  The isolation does not reach the handlers of a stateless request that carries a session ID. The middleware binds a private session, but the
  tool adapter looks the session up again by its ID: the handler runs under the session object the shared registry
  holds for that ID, not the private one, and a second request with the same ID, from any caller, runs under the same object.
\<close>
theorem stateless_handler_shares_session:
  assumes "reg_wf w" and "ss_ID s = sid" and "sid \<noteq> []"
    and "bindSessionForDispatch c (Some s) srv True w = (c1, Some a, w1)"
  shows "\<exists>b c2 w2. b \<noteq> a \<and> ctx_session c1 = Some a \<and> ctx_session c2 = Some b \<and> w_sessions w2 sid = Some b
     \<and> wrapToolHandler um convMeta conv h c1 (Some s) name [] None w1 =
         run_handler name conv (h c2 \<lparr>tc_Name = name, tc_Arguments = None, tc_Meta = None\<rparr> w2)
     \<and> (\<exists>c3 w3. wrapToolHandler um convMeta conv h c' (Some (s\<lparr>ss_addr := other\<rparr>)) name [] None w2 =
         run_handler name conv (h c3 \<lparr>tc_Name = name, tc_Arguments = None, tc_Meta = None\<rparr> w3)
         \<and> ctx_session c3 = Some b)"
proof -
  have be: "bindEphemeralSession c s srv w = (c1, a, w1)"
    using assms(4) by (auto simp: bindSessionForDispatch_def split: prod.splits)
  note e = bindEphemeralSession_wf [OF assms(1) be]
  obtain c2 w2 where l: "contextWithSession c1 (Some s) w1 = (c2, w2)" by fastforce
  from contextWithSession_wf [OF _ l] e assms(2,3) obtain b where
    b: "reg_wf w2" "c2 = c1\<lparr>ctx_session := Some b\<rparr>" "w_sessions w2 = (w_sessions w1)(sid \<mapsto> b)" by auto
  have "SessionID b w2 = sid" using wf_sessionD [OF b(1), of sid b] b(3) by (simp add: SessionID_def)
  moreover have "SessionID a w2 = []"
  proof -
    have "session_step undefined undefined w1 w2" by (rule session_step.lookup [OF l])
    from grows_step [OF this] e show ?thesis by (auto simp: grows_def SessionID_def)
  qed
  ultimately have "b \<noteq> a" using assms(3) by auto
  let ?s' = "s\<lparr>ss_addr := other\<rparr>"
  have "sessionFor sid w2 = (b, w2)" by (rule reg.obtain_stable) (simp add: b)
  then obtain c3 w3 where l3: "contextWithSession c' (Some ?s') w2 = (c3, w3)" "ctx_session c3 = Some b"
    using assms(2,3) by (simp add: contextWithSession_def)
  have "wrapToolHandler um convMeta conv h c1 (Some s) name [] None w1 =
         run_handler name conv (h c2 \<lparr>tc_Name = name, tc_Arguments = None, tc_Meta = None\<rparr> w2)"
    unfolding wrapToolHandler_def l by simp
  moreover have "wrapToolHandler um convMeta conv h c' (Some ?s') name [] None w2 =
         run_handler name conv (h c3 \<lparr>tc_Name = name, tc_Arguments = None, tc_Meta = None\<rparr> w3)"
    unfolding wrapToolHandler_def l3(1) by simp
  ultimately show ?thesis using \<open>b \<noteq> a\<close> b e l3(2)
    by (intro exI [of _ b] exI [of _ c2] exI [of _ w2]) (simp, blast)
qed

theorem stateless_handler_shares_session_witness:
  "\<exists>c1 w1 c2. bindSessionForDispatch \<lparr>ctx_session = None, ctx_vals = Map.empty\<rparr> (Some \<lparr>ss_addr = 1, ss_ID = ''v''\<rparr>) 0 True
        (initial_world (\<lambda>_. ()) :: (unit, unit) world) = (c1, Some 0, w1)
     \<and> ctx_session c1 = Some 0 \<and> ctx_session c2 \<noteq> Some 0
     \<and> fst (wrapToolHandler (\<lambda>_. None) (\<lambda>_. None) Some (\<lambda>c q v. (Returned c, v)) c1 (Some \<lparr>ss_addr = 1, ss_ID = ''v''\<rparr>)
         ''t'' [] None w1) = Inr c2"
proof -
  let ?i = "initial_world (\<lambda>_. ()) :: (unit, unit) world"
  let ?c = "\<lparr>ctx_session = None, ctx_vals = Map.empty\<rparr>"
  let ?s = "\<lparr>ss_addr = 1, ss_ID = ''v''\<rparr>"
  obtain c1 w1 where b: "bindSessionForDispatch ?c (Some ?s) 0 True ?i = (c1, Some 0, w1)"
    by (simp add: bindSessionForDispatch_def bindEphemeralSession_def newClientSession_def initial_world_def)
  from stateless_handler_shares_session [OF initial_wf _ _ b, of "''v''" "\<lambda>_. None" "\<lambda>_. None" Some
      "\<lambda>c q v. (Returned c, v)" "''t''" ?c 2]
  obtain x c2 w2 where "x \<noteq> 0" "ctx_session c1 = Some 0" "ctx_session c2 = Some x"
    "wrapToolHandler (\<lambda>_. None) (\<lambda>_. None) Some (\<lambda>c q v. (Returned c, v)) c1 (Some ?s) ''t'' [] None w1 =
       run_handler ''t'' Some (Returned c2, w2)"
    by auto
  with b show ?thesis by (auto simp: run_handler_def)
qed

section \<open>The nonce bridge\<close>

datatype pend_op = PSet ctx string | PClear string

fun run_pend :: "pend_op list \<Rightarrow> pending \<Rightarrow> pending" where
  "run_pend [] m = m"
| "run_pend (PSet c n # ops) m = run_pend ops (setPendingRequestContext c n m)"
| "run_pend (PClear n # ops) m = run_pend ops (clearPendingRequestContext n m)"

fun pend_nonce :: "pend_op \<Rightarrow> string" where
  "pend_nonce (PSet c n) = n"
| "pend_nonce (PClear n) = n"

lemma run_pend_other: "nonce \<notin> pend_nonce ` set ops \<Longrightarrow> run_pend ops m nonce = m nonce"
proof (induction ops arbitrary: m)
  case (Cons op ops)
  then show ?case
    by (cases op) (auto simp: setPendingRequestContext_def clearPendingRequestContext_def)
qed simp

text \<open>
  No request sees another request's context: after a request stored its context under its nonce, and whatever other
  requests with other nonces store and clear in between, the dispatch reading that nonce sees every value of this
  request's own context, falls back to the session's context for the rest, and sees nothing of the others; once cleared, the nonce yields nothing.
\<close>
theorem nonce_bridge_isolated:
  fixes c :: ctx and pend :: pending
  assumes "nonce \<noteq> []" and "nonce \<notin> pend_nonce ` set ops" and "rq_nonce req = nonce"
  defines "m \<equiv> run_pend ops (setPendingRequestContext c nonce pend)"
  shows "bridge m req base = valueBridgeContext base c
    \<and> ctx_vals (bridge m req base) key = (case ctx_vals c key of Some v \<Rightarrow> Some v | None \<Rightarrow> ctx_vals base key)
    \<and> bridge (clearPendingRequestContext nonce m) req base = base"
proof (intro conjI)
  have "m nonce = Some c" using assms(2) by (simp add: m_def run_pend_other setPendingRequestContext_def)
  then show b: "bridge m req base = valueBridgeContext base c"
    using assms(1,3) by (simp add: bridge_def pendingRequestContext_def)
  show "ctx_vals (bridge m req base) key = (case ctx_vals c key of Some v \<Rightarrow> Some v | None \<Rightarrow> ctx_vals base key)"
    unfolding b by (simp add: valueBridgeContext_def)
  show "bridge (clearPendingRequestContext nonce m) req base = base"
    using assms(1,3) by (simp add: bridge_def pendingRequestContext_def clearPendingRequestContext_def)
qed

theorem nonce_bridge_isolated_witness:
  "ctx_vals (bridge (run_pend [PSet \<lparr>ctx_session = None, ctx_vals = [''user'' \<mapsto> ''bob'']\<rparr> ''n2'', PClear ''n2'']
      (setPendingRequestContext \<lparr>ctx_session = None, ctx_vals = [''user'' \<mapsto> ''ann'']\<rparr> ''n1'' Map.empty))
      \<lparr>rq_session = None, rq_nonce = ''n1'', rq_params = OtherParams\<rparr> \<lparr>ctx_session = None, ctx_vals = Map.empty\<rparr>) ''user''
    = Some ''ann''"
  by (subst nonce_bridge_isolated [THEN conjunct2, THEN conjunct1]) simp_all

section \<open>Cache scope\<close>

text \<open>
  Nothing the middleware returns is marked shareable: a successful result of any of the six cacheable kinds never
  carries the public scope, and the rewrite changes nothing but that scope.
\<close>
theorem dispatch_never_public:
  assumes "sessionDispatchMiddleware sdk um hooks srv stateless pend nxt c method req w = Some (Inr res, w')"
    and "rs_kind res \<noteq> OtherCacheable" and "rs_kind res \<noteq> NotCacheable"
  shows "rs_scope res \<noteq> cacheScopePublic
     \<and> (\<exists>c2 w2 raw w3. nxt c2 method req w2 = (Inr raw, w3) \<and> rs_kind raw = rs_kind res \<and> rs_body raw = rs_body res)"
proof -
  obtain c1 cl w1 where b: "bindSessionForDispatch c (rq_session req) srv stateless w = (c1, cl, w1)"
    by (metis prod_cases3)
  let ?c2 = "bridge pend req c1"
  let ?w2 = "fireBeforeHooks sdk um hooks ?c2 method req w1"
  obtain r w3 where n: "nxt ?c2 method req ?w2 = (r, w3)" by fastforce
  have "\<exists>raw. r = Inr raw \<and> res = stripPublicCacheScope raw"
    using assms(1) unfolding sessionDispatchMiddleware_def b prod.case Let_def n
    by (cases r; cases cl) auto
  then obtain raw where raw: "r = Inr raw" "res = stripPublicCacheScope raw" by blast
  have k: "rs_kind res = rs_kind raw" "rs_body res = rs_body raw"
    unfolding raw(2) by (simp_all add: stripPublicCacheScope_def split: res_kind.split)
  have "rs_scope res \<noteq> cacheScopePublic"
    using assms(2,3) k(1) unfolding raw(2) by (cases "rs_kind raw") (simp_all add: stripPublicCacheScope_def)
  with n raw(1) k show ?thesis by auto
qed

theorem dispatch_never_public_witness:
  "\<exists>res w'. sessionDispatchMiddleware (sample_sdk :: (string list, unit) gosdk) (\<lambda>_. None) None 0 False Map.empty
      (\<lambda>c m q v. (Inr \<lparr>rs_kind = ListToolsResult, rs_scope = ''public'', rs_body = ()\<rparr>, v))
      \<lparr>ctx_session = None, ctx_vals = Map.empty\<rparr> ''tools/list''
      \<lparr>rq_session = None, rq_nonce = [], rq_params = OtherParams\<rparr> (initial_world (\<lambda>_. [])) = Some (Inr res, w')
    \<and> rs_scope res \<noteq> ''public''"
proof -
  let ?m = "sessionDispatchMiddleware (sample_sdk :: (string list, unit) gosdk) (\<lambda>_. None) None 0 False Map.empty
      (\<lambda>c m q v. (Inr \<lparr>rs_kind = ListToolsResult, rs_scope = ''public'', rs_body = ()\<rparr>, v))
      \<lparr>ctx_session = None, ctx_vals = Map.empty\<rparr> ''tools/list''
      \<lparr>rq_session = None, rq_nonce = [], rq_params = OtherParams\<rparr> (initial_world (\<lambda>_. []))"
  obtain res w' where r: "?m = Some (Inr res, w')" "rs_kind res = ListToolsResult"
    by (simp add: sessionDispatchMiddleware_def bindSessionForDispatch_def stripPublicCacheScope_def)
  with dispatch_never_public [OF r(1)] show ?thesis by auto
qed

end
