(* ===== verification/Mcp_Http.thy ===== *)
theory Mcp_Http
  imports Mcp_Dispatch
begin

text \<open>
  The Streamable HTTP transport (\<open>mcpcompat/server/transports.go\<close>) with its call gate (\<open>callgate.go\<close>). \<open>ServeHTTP\<close> is
  a function from a request and the server's state to the dispatcher it ends in, or the error it answers with, and the new
  state. A panic of the session code would be \<open>None\<close>.

  Parameters: the SDK's local handler and transports (their effect on the state), the host's \<open>SessionIdManager\<close>
  (state \<open>'m\<close>), the host's gate and context function, \<open>mime.ParseMediaType\<close>, JSON decoding of a request ID, and the SDK's \<open>Connect\<close>.
\<close>

section \<open>Requests and the Accept header\<close>

record httpreq =
  hr_method :: string
  hr_sid :: string
  hr_accept :: "string list"
  hr_protocol :: string
  hr_nonce :: string
  hr_ctx :: ctx
  hr_body :: "(char, string) reader option"

abbreviation bothAcceptMediaTypes :: string where
  "bothAcceptMediaTypes \<equiv> ''application/json, text/event-stream''"

definition accept_parts :: "string list \<Rightarrow> string list" where
  "accept_parts values = concat (map (split_on CHR '','') values)"

definition ensureAcceptMediaTypes :: "(string \<Rightarrow> string option) \<Rightarrow> httpreq \<Rightarrow> httpreq" where
  "ensureAcceptMediaTypes parseMedia r =
     (let media = List.map_filter parseMedia (accept_parts (hr_accept r));
          jsonOK = list_ex (\<lambda>m. m = ''application/json'' \<or> m = ''application/*'' \<or> m = ''*/*'') media;
          streamOK = list_ex (\<lambda>m. m = ''text/event-stream'' \<or> m = ''text/*'' \<or> m = ''*/*'') media
      in if \<not> jsonOK \<or> \<not> streamOK then r\<lparr>hr_accept := [bothAcceptMediaTypes]\<rparr> else r)"

section \<open>The call gate\<close>

record Denial =
  d_Code :: int
  d_Message :: string
  d_HTTPStatus :: int

text \<open>The two decoding steps of \<open>extractRequestID\<close> are one parameter: the ID of a single message, if there is one.\<close>

definition extractRequestID :: "(string \<Rightarrow> json option) \<Rightarrow> httpreq \<Rightarrow> json" where
  "extractRequestID decodeID r =
     (case hr_body r of
        None \<Rightarrow> JNull
      | Some body \<Rightarrow>
          (case rd_fail body of
             Some _ \<Rightarrow> JNull
           | None \<Rightarrow>
               if rd_data body = [] then JNull
               else (case decodeID (rd_data body) of None \<Rightarrow> JNull | Some ident \<Rightarrow> ident)))"

record envelope =
  env_status :: int
  env_id :: json
  env_code :: int
  env_message :: string

definition writeDenial :: "(string \<Rightarrow> json option) \<Rightarrow> httpreq \<Rightarrow> Denial \<Rightarrow> envelope" where
  "writeDenial decodeID r d =
     \<lparr>env_status = (if d_HTTPStatus d = 0 then 403 else d_HTTPStatus d), env_id = extractRequestID decodeID r,
      env_code = d_Code d, env_message = d_Message d\<rparr>"

type_synonym CallGate = "ctx \<Rightarrow> httpreq \<Rightarrow> Denial option"

definition denied :: "CallGate option \<Rightarrow> (string \<Rightarrow> json option) \<Rightarrow> httpreq \<Rightarrow> envelope option" where
  "denied gate decodeID r =
     (case gate of
        None \<Rightarrow> None
      | Some g \<Rightarrow>
          if hr_method r \<noteq> ''POST'' then None
          else (case g (hr_ctx r) r of None \<Rightarrow> None | Some d \<Rightarrow> Some (writeDenial decodeID r d)))"

section \<open>The server\<close>

text \<open>\<open>Validate\<close> yields (isTerminated, err is non-nil).\<close>

record 'm SessionIdManager =
  Validate :: "string \<Rightarrow> 'm \<Rightarrow> (bool \<times> bool) \<times> 'm"
  Terminate :: "string \<Rightarrow> 'm \<Rightarrow> 'm"

record ('srv, 'x, 'm) StreamableHTTPServer =
  h_mcp :: "'x MCPServer"
  h_endpointPath :: string
  h_contextFunc :: "(ctx \<Rightarrow> httpreq \<Rightarrow> ctx) option"
  h_sessionIDMgr :: "'m SessionIdManager option"
  h_callGate :: "CallGate option"
  h_heartbeat :: int
  h_disableLocalhostProtection :: bool
  h_stateless :: bool

definition NewStreamableHTTPServer ::
  "'x MCPServer \<Rightarrow> (('srv, 'x, 'm) StreamableHTTPServer \<Rightarrow> ('srv, 'x, 'm) StreamableHTTPServer) list
     \<Rightarrow> ('srv, 'x, 'm) StreamableHTTPServer" where
  "NewStreamableHTTPServer server opts =
     foldl (\<lambda>s opt. opt s)
       \<lparr>h_mcp = server, h_endpointPath = ''/mcp'', h_contextFunc = None, h_sessionIDMgr = None, h_callGate = None,
        h_heartbeat = 0, h_disableLocalhostProtection = False, h_stateless = False\<rparr> opts"

definition WithEndpointPath :: "string \<Rightarrow> ('srv, 'x, 'm) StreamableHTTPServer \<Rightarrow> ('srv, 'x, 'm) StreamableHTTPServer" where
  "WithEndpointPath p s = s\<lparr>h_endpointPath := p\<rparr>"

definition WithSessionIdManager ::
  "'m SessionIdManager option \<Rightarrow> ('srv, 'x, 'm) StreamableHTTPServer \<Rightarrow> ('srv, 'x, 'm) StreamableHTTPServer" where
  "WithSessionIdManager m s = s\<lparr>h_sessionIDMgr := m\<rparr>"

definition WithHeartbeatInterval :: "int \<Rightarrow> ('srv, 'x, 'm) StreamableHTTPServer \<Rightarrow> ('srv, 'x, 'm) StreamableHTTPServer" where
  "WithHeartbeatInterval i s = s\<lparr>h_heartbeat := i\<rparr>"

definition WithDisableLocalhostProtection ::
  "bool \<Rightarrow> ('srv, 'x, 'm) StreamableHTTPServer \<Rightarrow> ('srv, 'x, 'm) StreamableHTTPServer" where
  "WithDisableLocalhostProtection d s = s\<lparr>h_disableLocalhostProtection := d\<rparr>"

definition WithStateless :: "bool \<Rightarrow> ('srv, 'x, 'm) StreamableHTTPServer \<Rightarrow> ('srv, 'x, 'm) StreamableHTTPServer" where
  "WithStateless b s = s\<lparr>h_stateless := b\<rparr>"

definition WithHTTPContextFunc ::
  "(ctx \<Rightarrow> httpreq \<Rightarrow> ctx) option \<Rightarrow> ('srv, 'x, 'm) StreamableHTTPServer \<Rightarrow> ('srv, 'x, 'm) StreamableHTTPServer" where
  "WithHTTPContextFunc f s = s\<lparr>h_contextFunc := f\<rparr>"

definition WithCallGate ::
  "CallGate option \<Rightarrow> ('srv, 'x, 'm) StreamableHTTPServer \<Rightarrow> ('srv, 'x, 'm) StreamableHTTPServer" where
  "WithCallGate g s = s\<lparr>h_callGate := g\<rparr>"

text \<open>The state that changes between requests; \<open>st_closed\<close> logs the SDK sessions closed by the server, \<open>st_nextsrv\<close>
  the address the next SDK server gets.\<close>

record ('srv, 'x, 'm) hstate =
  st_world :: "('srv, 'x) world"
  st_rehydrated :: "string \<rightharpoonup> serverSession"
  st_mgr :: 'm
  st_pend :: pending
  st_closed :: "nat list"
  st_nextsrv :: nat

definition build ::
  "('srv, 'x) gosdk \<Rightarrow> (string \<Rightarrow> string \<Rightarrow> sdk_options \<Rightarrow> 'srv) \<Rightarrow> ('srv, 'x, 'm) StreamableHTTPServer \<Rightarrow> build_fail option" where
  "build sdk newServer s =
     (case buildServer sdk newServer (h_mcp s) (h_sessionIDMgr s \<noteq> None \<and> \<not> h_stateless s) of
        Inl e \<Rightarrow> Some e | Inr _ \<Rightarrow> None)"

definition wrapKeepAlive :: "('srv, 'x, 'm) StreamableHTTPServer \<Rightarrow> httpreq \<Rightarrow> int option" where
  "wrapKeepAlive s r =
     (if hr_method r \<noteq> ''GET'' \<or> h_heartbeat s \<le> 0 \<or> h_stateless s then None else Some (h_heartbeat s))"

definition getRehydrated :: "string \<Rightarrow> ('srv, 'x, 'm) hstate \<Rightarrow> serverSession option" where
  "getRehydrated sid st = st_rehydrated st sid"

definition deleteRehydrated :: "string \<Rightarrow> ('srv, 'x, 'm) hstate \<Rightarrow> ('srv, 'x, 'm) hstate" where
  "deleteRehydrated sid st =
     (if sid = [] then st
      else let st1 = st\<lparr>st_rehydrated := (st_rehydrated st)(sid := None)\<rparr>
           in case st_rehydrated st sid of None \<Rightarrow> st1 | Some rt \<Rightarrow> st1\<lparr>st_closed := ss_addr rt # st_closed st1\<rparr>)"

definition forget :: "string \<Rightarrow> ('srv, 'x, 'm) hstate \<Rightarrow> ('srv, 'x, 'm) hstate option" where
  "forget sid st = map_option (\<lambda>w. st\<lparr>st_world := w\<rparr>) (forgetSession sid (st_world st))"

abbreviation defaultRehydratedProtocolVersion :: string where
  "defaultRehydratedProtocolVersion \<equiv> ''2025-06-18''"

text \<open>\<open>Connect\<close> receives the session ID and the seeded protocol version, and fails or yields the address of the SDK session.\<close>

definition rehydrate ::
  "('srv, 'x) gosdk \<Rightarrow> (string \<Rightarrow> string \<Rightarrow> sdk_options \<Rightarrow> 'srv) \<Rightarrow> (string \<Rightarrow> string \<Rightarrow> nat option)
     \<Rightarrow> ('srv, 'x, 'm) StreamableHTTPServer \<Rightarrow> httpreq \<Rightarrow> string \<Rightarrow> ('srv, 'x, 'm) hstate
     \<Rightarrow> serverSession option \<times> ('srv, 'x, 'm) hstate" where
  "rehydrate sdk newServer connect s r sid st =
     (case st_rehydrated st sid of
        Some rt \<Rightarrow> (Some rt, st)
      | None \<Rightarrow>
          (case buildServer sdk newServer (h_mcp s) False of
             Inl _ \<Rightarrow> (None, st)
           | Inr srv \<Rightarrow>
               let protocolVersion = (if hr_protocol r = [] then defaultRehydratedProtocolVersion else hr_protocol r)
               in (case connect sid protocolVersion of
                     None \<Rightarrow> (None, st)
                   | Some addr \<Rightarrow>
                       let session = \<lparr>ss_addr = addr, ss_ID = sid\<rparr>;
                           w = bindRehydratedSession sid session (st_nextsrv st) (set_srv (st_nextsrv st) srv (st_world st))
                       in (Some session, st\<lparr>st_world := w, st_rehydrated := (st_rehydrated st)(sid \<mapsto> session),
                                           st_nextsrv := Suc (st_nextsrv st)\<rparr>))))"

datatype http_out =
    BuildFailed build_fail | Rejected envelope
  | ServedLocal | ServedDelete
  | ServedRehydrated serverSession
  | NotFound string | Unavailable | RehydrateFailed

definition statusRewriter :: "int \<Rightarrow> int \<Rightarrow> int \<Rightarrow> int" where
  "statusRewriter frm to code = (if code = frm then to else code)"

definition serveRehydrated ::
  "('srv, 'x) gosdk \<Rightarrow> (string \<Rightarrow> string \<Rightarrow> sdk_options \<Rightarrow> 'srv) \<Rightarrow> (string \<Rightarrow> string \<Rightarrow> nat option)
     \<Rightarrow> (serverSession \<Rightarrow> httpreq \<Rightarrow> ('srv, 'x, 'm) hstate \<Rightarrow> ('srv, 'x, 'm) hstate)
     \<Rightarrow> ('srv, 'x, 'm) StreamableHTTPServer \<Rightarrow> 'm SessionIdManager \<Rightarrow> httpreq \<Rightarrow> string \<Rightarrow> ('srv, 'x, 'm) hstate
     \<Rightarrow> http_out \<times> ('srv, 'x, 'm) hstate" where
  "serveRehydrated sdk newServer connect transport s mgr r sid st0 =
     (case Validate mgr sid (st_mgr st0) of
        ((isTerminated, err), m) \<Rightarrow>
          let st = st0\<lparr>st_mgr := m\<rparr> in
          if err then
            (if isTerminated then (NotFound ''Session terminated'', deleteRehydrated sid st)
             else if getRehydrated sid st \<noteq> None then (Unavailable, st)
             else (NotFound ''Invalid session ID'', st))
          else if isTerminated then (NotFound ''Session terminated'', deleteRehydrated sid st)
          else case getRehydrated sid st of
            Some rt \<Rightarrow> (ServedRehydrated rt, transport rt r st)
          | None \<Rightarrow>
              (case rehydrate sdk newServer connect s r sid st of
                 (None, st1) \<Rightarrow> (RehydrateFailed, st1)
               | (Some rt, st1) \<Rightarrow> (ServedRehydrated rt, transport rt r st1)))"

text \<open>The body of \<open>ServeHTTP\<close> after the gate, with the nonce stored.\<close>

definition route ::
  "('srv, 'x) gosdk \<Rightarrow> (string \<Rightarrow> string \<Rightarrow> sdk_options \<Rightarrow> 'srv) \<Rightarrow> (string \<Rightarrow> string \<Rightarrow> nat option)
     \<Rightarrow> (httpreq \<Rightarrow> ('srv, 'x, 'm) hstate \<Rightarrow> ('srv, 'x, 'm) hstate)
     \<Rightarrow> (serverSession \<Rightarrow> httpreq \<Rightarrow> ('srv, 'x, 'm) hstate \<Rightarrow> ('srv, 'x, 'm) hstate)
     \<Rightarrow> ('srv, 'x, 'm) StreamableHTTPServer \<Rightarrow> httpreq \<Rightarrow> ('srv, 'x, 'm) hstate
     \<Rightarrow> (http_out \<times> ('srv, 'x, 'm) hstate) option" where
  "route sdk newServer connect handler transport s r st =
     (if h_stateless s then Some (ServedLocal, handler r st)
      else if hr_method r = ''DELETE'' then
        (case forget (hr_sid r) (deleteRehydrated (hr_sid r) st) of
           None \<Rightarrow> None
         | Some st1 \<Rightarrow>
             let st2 = handler r st1
             in Some (ServedDelete,
                  case h_sessionIDMgr s of
                    None \<Rightarrow> st2
                  | Some mgr \<Rightarrow> if hr_sid r \<noteq> [] then st2\<lparr>st_mgr := Terminate mgr (hr_sid r) (st_mgr st2)\<rparr> else st2))
      else case h_sessionIDMgr s of
        None \<Rightarrow> Some (ServedLocal, handler r st)
      | Some mgr \<Rightarrow>
          if hr_sid r = [] then Some (ServedLocal, handler r st)
          else if \<not> isLocalSession (hr_sid r) (st_world st) then
            Some (serveRehydrated sdk newServer connect transport s mgr r (hr_sid r) st)
          else case Validate mgr (hr_sid r) (st_mgr st) of
            ((isTerminated, err), m) \<Rightarrow>
              let st1 = st\<lparr>st_mgr := m\<rparr> in
              if isTerminated then
                map_option (\<lambda>st2. (NotFound ''Session terminated'', deleteRehydrated (hr_sid r) st2)) (forget (hr_sid r) st1)
              else if err then Some (Unavailable, st1)
              else Some (ServedLocal, handler r st1))"

text \<open>The request the gate sees: with a lenient Accept header, under the host's context.\<close>

definition prepare :: "(string \<Rightarrow> string option) \<Rightarrow> ('srv, 'x, 'm) StreamableHTTPServer \<Rightarrow> httpreq \<Rightarrow> httpreq" where
  "prepare parseMedia s r =
     (let r1 = ensureAcceptMediaTypes parseMedia r
      in case h_contextFunc s of None \<Rightarrow> r1 | Some f \<Rightarrow> r1\<lparr>hr_ctx := f (hr_ctx r1) r1\<rparr>)"

definition ServeHTTP ::
  "('srv, 'x) gosdk \<Rightarrow> (string \<Rightarrow> string \<Rightarrow> sdk_options \<Rightarrow> 'srv) \<Rightarrow> (string \<Rightarrow> string \<Rightarrow> nat option)
     \<Rightarrow> (httpreq \<Rightarrow> ('srv, 'x, 'm) hstate \<Rightarrow> ('srv, 'x, 'm) hstate)
     \<Rightarrow> (serverSession \<Rightarrow> httpreq \<Rightarrow> ('srv, 'x, 'm) hstate \<Rightarrow> ('srv, 'x, 'm) hstate)
     \<Rightarrow> (string \<Rightarrow> string option) \<Rightarrow> (string \<Rightarrow> json option) \<Rightarrow> string
     \<Rightarrow> ('srv, 'x, 'm) StreamableHTTPServer \<Rightarrow> httpreq \<Rightarrow> ('srv, 'x, 'm) hstate
     \<Rightarrow> (http_out \<times> ('srv, 'x, 'm) hstate) option" where
  "ServeHTTP sdk newServer connect handler transport parseMedia decodeID nonce s r st =
     (case build sdk newServer s of
        Some e \<Rightarrow> Some (BuildFailed e, st)
      | None \<Rightarrow>
          let r2 = prepare parseMedia s r
          in case denied (h_callGate s) decodeID r2 of
               Some e \<Rightarrow> Some (Rejected e, st)
             | None \<Rightarrow>
                 let r3 = r2\<lparr>hr_nonce := nonce\<rparr>;
                     st1 = st\<lparr>st_pend := setPendingRequestContext (hr_ctx r2) nonce (st_pend st)\<rparr>
                 in map_option (\<lambda>(out, st2). (out, st2\<lparr>st_pend := clearPendingRequestContext nonce (st_pend st2)\<rparr>))
                      (route sdk newServer connect handler transport s r3 st1))"

section \<open>What a request can reach\<close>

definition http_wf :: "('srv, 'x, 'm) hstate \<Rightarrow> bool" where
  "http_wf st \<longleftrightarrow> reg_wf (st_world st)
     \<and> (\<forall>sid rt. st_rehydrated st sid = Some rt \<longrightarrow> sid \<noteq> [] \<and> ss_ID rt = sid)"

lemma deleteRehydrated_fields:
  "st_world (deleteRehydrated sid st) = st_world st" "st_mgr (deleteRehydrated sid st) = st_mgr st"
  "sid \<noteq> [] \<Longrightarrow> st_rehydrated (deleteRehydrated sid st) = (st_rehydrated st)(sid := None)"
  "sid \<noteq> [] \<Longrightarrow> st_rehydrated st sid = Some rt \<Longrightarrow> ss_addr rt \<in> set (st_closed (deleteRehydrated sid st))"
  "st_pend (deleteRehydrated sid st) = st_pend st"
  by (auto simp: deleteRehydrated_def Let_def split: option.splits)

lemma deleteRehydrated_wf: "http_wf st \<Longrightarrow> http_wf (deleteRehydrated sid st)"
proof (cases "sid = []")
  case False
  assume "http_wf st"
  then show ?thesis unfolding http_wf_def by (simp add: deleteRehydrated_fields False)
qed (simp add: deleteRehydrated_def)

lemma forget_wf:
  assumes "http_wf st"
  shows "\<exists>w'. forget sid st = Some (st\<lparr>st_world := w'\<rparr>) \<and> reg_wf w' \<and> w_sessions w' = (w_sessions (st_world st))(sid := None)
     \<and> (sid \<noteq> [] \<longrightarrow> w_local w' = w_local (st_world st) - {sid})"
  using forgetSession_wf [of "st_world st" sid] assms by (auto simp: forget_def http_wf_def)

lemma rehydrate_wf:
  assumes "http_wf st" and "sid \<noteq> []" and "rehydrate sdk newServer connect s r sid st = (o1, st')"
  shows "http_wf st' \<and> (\<forall>rt. o1 = Some rt \<longrightarrow> ss_ID rt = sid \<and> st_rehydrated st' sid = Some rt)
     \<and> w_local (st_world st') = w_local (st_world st)"
proof (cases "st_rehydrated st sid")
  case (Some rt)
  then show ?thesis using assms by (auto simp: rehydrate_def http_wf_def)
next
  case None
  show ?thesis
  proof (cases "\<exists>srv addr. buildServer sdk newServer (h_mcp s) False = Inr srv \<and>
      connect sid (if hr_protocol r = [] then defaultRehydratedProtocolVersion else hr_protocol r) = Some addr")
    case False
    then have "o1 = None \<and> st' = st"
      using assms(3) None by (auto simp: rehydrate_def Let_def split: sum.splits option.splits)
    then show ?thesis using assms(1) by simp
  next
    case True
    then obtain srv addr where c: "buildServer sdk newServer (h_mcp s) False = Inr srv"
        "connect sid (if hr_protocol r = [] then defaultRehydratedProtocolVersion else hr_protocol r) = Some addr" by blast
    let ?ses = "\<lparr>ss_addr = addr, ss_ID = sid\<rparr>"
    let ?v = "set_srv (st_nextsrv st) srv (st_world st)"
    have st': "o1 = Some ?ses" "st' = st\<lparr>st_world := bindRehydratedSession sid ?ses (st_nextsrv st) ?v,
        st_rehydrated := (st_rehydrated st)(sid \<mapsto> ?ses), st_nextsrv := Suc (st_nextsrv st)\<rparr>"
      using assms(3) None c by (auto simp: rehydrate_def Let_def)
    have "reg_wf ?v" using assms(1) wf_frame [OF _ frame_set_srv] by (auto simp: http_wf_def)
    from bindRehydratedSession_wf [OF this assms(2)] assms(1,2) show ?thesis
      unfolding st' by (auto simp: http_wf_def set_srv_def)
  qed
qed

lemma serveRehydrated_served:
  assumes "http_wf st" and "sid \<noteq> []"
    and "serveRehydrated sdk newServer connect transport s mgr r sid st = (ServedRehydrated rt, st')"
  shows "ss_ID rt = sid \<and> (\<exists>m. Validate mgr sid (st_mgr st) = ((False, False), m))"
proof -
  obtain tm err m where v: "Validate mgr sid (st_mgr st) = ((tm, err), m)" by (metis prod.exhaust)
  let ?st = "st\<lparr>st_mgr := m\<rparr>"
  have wf: "http_wf ?st" using assms(1) by (simp add: http_wf_def)
  have ok: "\<not> tm" "\<not> err"
    using assms(3) v by (cases tm; cases err; simp add: serveRehydrated_def Let_def split: if_splits)+
  show ?thesis
  proof (cases "st_rehydrated ?st sid")
    case (Some rt')
    then have "rt = rt'" using assms(3) v ok by (simp add: serveRehydrated_def getRehydrated_def)
    moreover have "ss_ID rt' = sid" using Some wf by (simp add: http_wf_def)
    ultimately show ?thesis using v ok by simp
  next
    case None
    obtain o1 st1 where rh: "rehydrate sdk newServer connect s r sid ?st = (o1, st1)" by fastforce
    then have "o1 = Some rt"
      using assms(3) v ok None by (cases o1) (auto simp: serveRehydrated_def getRehydrated_def)
    with rehydrate_wf [OF wf assms(2) rh] v ok show ?thesis by simp
  qed
qed

text \<open>
  C8. No dead session is served. On a stateful server with a session-ID manager, every request that carries a session ID and is
  served, by the local handler or by a reconstructed session, was confirmed live by the manager during that very
  request: the validation returned neither an error nor a termination. A reconstructed session serves only its own ID, and never an ID initialised on this instance.
\<close>
theorem served_is_validated:
  assumes "http_wf st" and "\<not> h_stateless s" and "h_sessionIDMgr s = Some mgr"
    and "hr_sid r \<noteq> []" and "hr_method r \<noteq> ''DELETE''"
    and "route sdk newServer connect handler transport s r st = Some (out, st')"
    and "out = ServedLocal \<or> out = ServedRehydrated rt"
  shows "(\<exists>m. Validate mgr (hr_sid r) (st_mgr st) = ((False, False), m))
    \<and> (out = ServedRehydrated rt \<longrightarrow> ss_ID rt = hr_sid r \<and> \<not> isLocalSession (hr_sid r) (st_world st))"
proof (rule conjI)
  obtain tm err m where v: "Validate mgr (hr_sid r) (st_mgr st) = ((tm, err), m)" by (metis prod.exhaust)
  let ?sr = "serveRehydrated sdk newServer connect transport s mgr r (hr_sid r) st"
  have loc: "isLocalSession (hr_sid r) (st_world st) \<Longrightarrow> out = ServedLocal \<and> \<not> tm \<and> \<not> err"
    using assms(2-7) v by (auto simp: route_def Let_def forget_def split: if_splits option.splits)
  have nolocal: "fst ?sr \<noteq> ServedLocal"
    by (simp add: serveRehydrated_def Let_def split: prod.split option.split)
  have remote: "\<not> isLocalSession (hr_sid r) (st_world st) \<Longrightarrow> ?sr = (ServedRehydrated rt, st') \<and> out = ServedRehydrated rt"
    using assms(2-7) nolocal by (auto simp: route_def)
  show "\<exists>m. Validate mgr (hr_sid r) (st_mgr st) = ((False, False), m)"
  proof (cases "isLocalSession (hr_sid r) (st_world st)")
    case True
    with loc v show ?thesis by simp
  next
    case False
    with remote serveRehydrated_served [OF assms(1,4)] show ?thesis by blast
  qed
  show "out = ServedRehydrated rt \<longrightarrow> ss_ID rt = hr_sid r \<and> \<not> isLocalSession (hr_sid r) (st_world st)"
    using loc remote serveRehydrated_served [OF assms(1,4)] by blast
qed

definition sample_mgr :: "(string \<Rightarrow> bool \<times> bool) \<Rightarrow> string list SessionIdManager" where
  "sample_mgr answer = \<lparr>Validate = (\<lambda>sid m. (answer sid, m)), Terminate = (\<lambda>sid m. sid # m)\<rparr>"

definition sample_server :: "(string \<Rightarrow> bool \<times> bool) \<Rightarrow> (unit, unit, string list) StreamableHTTPServer" where
  "sample_server answer = NewStreamableHTTPServer (NewMCPServer ''n'' ''v'' []) [WithSessionIdManager (Some (sample_mgr answer))]"

definition sample_state :: "(unit, unit, string list) hstate" where
  "sample_state =
     \<lparr>st_world = (initial_world (\<lambda>_. ()))\<lparr>w_local := {''loc''}\<rparr>, st_rehydrated = Map.empty, st_mgr = [], st_pend = Map.empty,
      st_closed = [], st_nextsrv = 0\<rparr>"

definition sample_http :: "string \<Rightarrow> string \<Rightarrow> httpreq" where
  "sample_http method sid =
     \<lparr>hr_method = method, hr_sid = sid, hr_accept = [], hr_protocol = [], hr_nonce = [],
      hr_ctx = \<lparr>ctx_session = None, ctx_vals = Map.empty\<rparr>, hr_body = None\<rparr>"

definition unit_sdk :: "(unit, unit) gosdk" where
  "unit_sdk =
     \<lparr>sdkAddTool = (\<lambda>g h srv. Some ()), sdkRemoveTools = (\<lambda>ns srv. ()), sdkAddResource = (\<lambda>r h srv. ()),
      sdkAddResourceTemplate = (\<lambda>r h srv. Some ()), sdkAddPrompt = (\<lambda>p srv. ())\<rparr>"

abbreviation sample_route :: "(string \<Rightarrow> bool \<times> bool) \<Rightarrow> httpreq \<Rightarrow> (http_out \<times> (unit, unit, string list) hstate) option" where
  "sample_route answer r \<equiv>
     route unit_sdk (\<lambda>_ _ _. ()) (\<lambda>_ _. Some 9) (\<lambda>r st. st) (\<lambda>rt r st. st) (sample_server answer) r sample_state"

lemma sample_wf: "http_wf sample_state"
  by (simp add: http_wf_def sample_state_def initial_world_def reg_wf_def)

lemma sample_fields:
  "\<not> h_stateless (sample_server answer)" "h_sessionIDMgr (sample_server answer) = Some (sample_mgr answer)"
  "h_mcp (sample_server answer) = NewMCPServer ''n'' ''v'' []"
  by (simp_all add: sample_server_def NewStreamableHTTPServer_def WithSessionIdManager_def)

theorem served_is_validated_witness:
  "\<exists>rt st'. sample_route (\<lambda>_. (False, False)) (sample_http ''POST'' ''other'') = Some (ServedRehydrated rt, st')
     \<and> ss_ID rt = ''other''"
proof -
  let ?r = "sample_http ''POST'' ''other''"
  have "\<exists>rt st'. sample_route (\<lambda>_. (False, False)) ?r = Some (ServedRehydrated rt, st')"
    by (simp add: route_def sample_fields sample_http_def isLocalSession_def sample_state_def serveRehydrated_def
        sample_mgr_def getRehydrated_def rehydrate_def buildServer_def registerGlobalFeatures_def NewMCPServer_def Let_def)
  then obtain rt st' where o: "sample_route (\<lambda>_. (False, False)) ?r = Some (ServedRehydrated rt, st')" by blast
  have "ss_ID rt = hr_sid ?r"
    using served_is_validated [OF sample_wf sample_fields(1,2) _ _ o, of rt] by (simp add: sample_http_def)
  with o show ?thesis by (auto simp: sample_http_def)
qed

section \<open>Local sessions\<close>

text \<open>
  No split brain. A request for a session initialised on this instance is never handed to a reconstructed session. If the manager
  reports a termination, the request gets a not-found answer and the ID disappears from both registries and from the reconstructed
  sessions; if validation merely fails, the request is answered as retryable and all session state is unchanged, so the session is
  still local for the retry; otherwise the local handler serves it.
\<close>
theorem local_session_routing:
  assumes "http_wf st" and "\<not> h_stateless s" and "h_sessionIDMgr s = Some mgr"
    and "hr_sid r \<noteq> []" and "hr_method r \<noteq> ''DELETE''" and "isLocalSession (hr_sid r) (st_world st)"
    and "Validate mgr (hr_sid r) (st_mgr st) = ((isTerminated, err), m)"
  shows "\<exists>out st'. route sdk newServer connect handler transport s r st = Some (out, st')
     \<and> (if isTerminated then out = NotFound ''Session terminated'' \<and> http_wf st' \<and> \<not> isLocalSession (hr_sid r) (st_world st')
            \<and> w_sessions (st_world st') (hr_sid r) = None \<and> st_rehydrated st' (hr_sid r) = None
        else if err then out = Unavailable \<and> st' = st\<lparr>st_mgr := m\<rparr>
        else out = ServedLocal \<and> st' = handler r (st\<lparr>st_mgr := m\<rparr>))"
proof (cases isTerminated)
  case False
  then show ?thesis using assms(2-7) by (auto simp: route_def Let_def)
next
  case True
  let ?st = "st\<lparr>st_mgr := m\<rparr>"
  have wf: "http_wf ?st" using assms(1) by (simp add: http_wf_def)
  obtain w' where w': "forget (hr_sid r) ?st = Some (?st\<lparr>st_world := w'\<rparr>)" "reg_wf w'"
      "w_sessions w' = (w_sessions (st_world ?st))(hr_sid r := None)" "w_local w' = w_local (st_world ?st) - {hr_sid r}"
    using forget_wf [OF wf, of "hr_sid r"] assms(4) by auto
  let ?st' = "deleteRehydrated (hr_sid r) (?st\<lparr>st_world := w'\<rparr>)"
  have "http_wf (?st\<lparr>st_world := w'\<rparr>)" using wf w'(2) by (simp add: http_wf_def)
  then have "http_wf ?st'" by (rule deleteRehydrated_wf)
  moreover have "route sdk newServer connect handler transport s r st = Some (NotFound ''Session terminated'', ?st')"
    using assms(2-7) True w'(1) by (simp add: route_def Let_def)
  ultimately show ?thesis using True w' assms(4)
    by (auto simp: isLocalSession_def deleteRehydrated_fields)
qed

theorem local_session_routing_witness:
  "\<exists>st'. sample_route (\<lambda>_. (False, True)) (sample_http ''POST'' ''loc'') = Some (Unavailable, st') \<and> st' = sample_state"
proof -
  let ?r = "sample_http ''POST'' ''loc''"
  have v: "Validate (sample_mgr (\<lambda>_. (False, True))) (hr_sid ?r) (st_mgr sample_state) = ((False, True), [])"
    by (simp add: sample_mgr_def sample_state_def)
  have h: "hr_sid ?r \<noteq> []" "hr_method ?r \<noteq> ''DELETE''" "isLocalSession (hr_sid ?r) (st_world sample_state)"
    by (simp_all add: sample_http_def isLocalSession_def sample_state_def)
  have "sample_state\<lparr>st_mgr := []\<rparr> = sample_state" by (simp add: sample_state_def)
  with local_session_routing [OF sample_wf sample_fields(1,2) h v,
      of unit_sdk "\<lambda>_ _ _. ()" "\<lambda>_ _. Some 9" "\<lambda>r st. st" "\<lambda>rt r st. st"]
  show ?thesis by auto
qed

section \<open>Termination\<close>

text \<open>
  DELETE. A delete request on a stateful server always completes; before the SDK's handler runs, the session ID has left both registries and the
  reconstructed sessions, whose SDK session has been closed, and afterwards the manager, if any, has been told to terminate
  exactly that ID. The SDK's no-content answer reaches the client as 200.
\<close>
theorem delete_forgets:
  assumes "http_wf st" and "\<not> h_stateless s" and "hr_method r = ''DELETE''" and "hr_sid r \<noteq> []"
  shows "\<exists>st1. http_wf st1 \<and> \<not> isLocalSession (hr_sid r) (st_world st1) \<and> w_sessions (st_world st1) (hr_sid r) = None
     \<and> st_rehydrated st1 (hr_sid r) = None
     \<and> (case st_rehydrated st (hr_sid r) of None \<Rightarrow> True | Some rt \<Rightarrow> ss_addr rt \<in> set (st_closed st1))
     \<and> route sdk newServer connect handler transport s r st = Some (ServedDelete,
         (case h_sessionIDMgr s of None \<Rightarrow> handler r st1
          | Some mgr \<Rightarrow> (handler r st1)\<lparr>st_mgr := Terminate mgr (hr_sid r) (st_mgr (handler r st1))\<rparr>))
     \<and> statusRewriter 204 200 204 = 200"
proof -
  let ?d = "deleteRehydrated (hr_sid r) st"
  have wf: "http_wf ?d" by (rule deleteRehydrated_wf [OF assms(1)])
  obtain w' where w': "forget (hr_sid r) ?d = Some (?d\<lparr>st_world := w'\<rparr>)" "reg_wf w'"
      "w_sessions w' = (w_sessions (st_world ?d))(hr_sid r := None)" "w_local w' = w_local (st_world ?d) - {hr_sid r}"
    using forget_wf [OF wf, of "hr_sid r"] assms(4) by auto
  let ?st1 = "?d\<lparr>st_world := w'\<rparr>"
  have "http_wf ?st1" using wf w'(2) by (simp add: http_wf_def)
  moreover have "case st_rehydrated st (hr_sid r) of None \<Rightarrow> True | Some rt \<Rightarrow> ss_addr rt \<in> set (st_closed ?st1)"
    using assms(4) by (simp add: deleteRehydrated_fields(4) split: option.split)
  moreover have "route sdk newServer connect handler transport s r st = Some (ServedDelete,
         (case h_sessionIDMgr s of None \<Rightarrow> handler r ?st1
          | Some mgr \<Rightarrow> (handler r ?st1)\<lparr>st_mgr := Terminate mgr (hr_sid r) (st_mgr (handler r ?st1))\<rparr>))"
    using assms(2-4) w'(1) by (simp add: route_def Let_def split: option.split)
  ultimately show ?thesis using w' assms(4)
    by (intro exI [of _ ?st1]) (simp add: isLocalSession_def deleteRehydrated_fields statusRewriter_def)
qed

theorem delete_forgets_witness:
  "\<exists>st'. sample_route (\<lambda>_. (False, False)) (sample_http ''DELETE'' ''loc'') = Some (ServedDelete, st') \<and> st_mgr st' = [''loc'']"
proof -
  let ?r = "sample_http ''DELETE'' ''loc''"
  have "hr_method ?r = ''DELETE''" "hr_sid ?r \<noteq> []" by (simp_all add: sample_http_def)
  from delete_forgets [OF sample_wf sample_fields(1) this, of unit_sdk "\<lambda>_ _ _. ()" "\<lambda>_ _. Some 9" "\<lambda>r st. st" "\<lambda>rt r st. st"]
  have "\<exists>st'. sample_route (\<lambda>_. (False, False)) ?r = Some (ServedDelete, st')" by auto
  moreover have "sample_route (\<lambda>_. (False, False)) ?r = Some (ServedDelete, st') \<Longrightarrow> st_mgr st' = [''loc'']" for st'
    by (auto simp: route_def sample_fields sample_http_def sample_state_def deleteRehydrated_def forget_def forgetSession_def
        initial_world_def sample_mgr_def)
  ultimately show ?thesis by blast
qed

section \<open>The gate comes first\<close>

text \<open>
  The gate decides before any session state is looked at: on a server that builds, a POST the gate denies is
  answered with the denial, at the gate's status or 403, and the whole state (sessions, manager, pending contexts) is
  unchanged, whatever session ID the request carries; a request is rejected in no other case.
\<close>
theorem gate_decides_first:
  assumes "build sdk newServer s = None"
  shows "ServeHTTP sdk newServer connect handler transport parseMedia decodeID nonce s r st = Some (Rejected e, st') \<longleftrightarrow>
     st' = st \<and> hr_method r = ''POST''
     \<and> (\<exists>gate d. h_callGate s = Some gate \<and> gate (hr_ctx (prepare parseMedia s r)) (prepare parseMedia s r) = Some d
          \<and> e = writeDenial decodeID (prepare parseMedia s r) d)"
proof -
  let ?r = "prepare parseMedia s r"
  have m: "hr_method ?r = hr_method r"
    by (simp add: prepare_def ensureAcceptMediaTypes_def Let_def split: option.split)
  have nr: "route sdk newServer connect handler transport s r' st1 \<noteq> Some (Rejected e, st2)" for r' st1 e st2
    by (auto simp: route_def serveRehydrated_def Let_def split: if_splits option.splits prod.splits)
  have d: "denied (h_callGate s) decodeID ?r = Some e \<longleftrightarrow> hr_method r = ''POST''
      \<and> (\<exists>gate d. h_callGate s = Some gate \<and> gate (hr_ctx ?r) ?r = Some d \<and> e = writeDenial decodeID ?r d)" for e
    unfolding denied_def m by (cases "h_callGate s"; cases "hr_method r = ''POST''") (auto split: option.splits)
  have "ServeHTTP sdk newServer connect handler transport parseMedia decodeID nonce s r st = Some (Rejected e, st') \<longleftrightarrow>
      denied (h_callGate s) decodeID ?r = Some e \<and> st' = st"
    using assms nr by (cases "denied (h_callGate s) decodeID ?r") (auto simp: ServeHTTP_def Let_def)
  then show ?thesis using d by auto
qed

theorem gate_decides_first_witness:
  "\<exists>e. ServeHTTP unit_sdk (\<lambda>_ _ _. ()) (\<lambda>_ _. None) (\<lambda>r st. st) (\<lambda>rt r st. st) (\<lambda>_. None) (\<lambda>_. None) ''n''
     (WithCallGate (Some (\<lambda>c r. Some \<lparr>d_Code = 7, d_Message = ''no'', d_HTTPStatus = 0\<rparr>)) (sample_server (\<lambda>_. (True, False))))
     (sample_http ''POST'' ''loc'') sample_state = Some (Rejected e, sample_state) \<and> env_status e = 403"
proof -
  let ?s = "WithCallGate (Some (\<lambda>c r. Some \<lparr>d_Code = 7, d_Message = ''no'', d_HTTPStatus = 0\<rparr>)) (sample_server (\<lambda>_. (True, False)))"
  have b: "build unit_sdk (\<lambda>_ _ _. ()) ?s = None"
    by (simp add: build_def WithCallGate_def sample_fields buildServer_def registerGlobalFeatures_def NewMCPServer_def)
  show ?thesis
    by (simp only: gate_decides_first [OF b])
       (simp add: WithCallGate_def sample_http_def writeDenial_def)
qed

end
