(* ===== verification/Mcp_KeepAlive.thy ===== *)
theory Mcp_KeepAlive
  imports Go_Prelude
begin

text \<open>
  The passive SSE keep-alive (\<open>mcpcompat/server/keepalive.go\<close>). Each method of \<open>keepAliveWriter\<close> runs under its mutex and is one
  atomic operation on the state; \<open>stopKeepAlive\<close> is two, since it closes the stop channel before it takes the
  mutex. The step relation interleaves the handler, the ticker goroutine and the teardown.

  Parameters: \<open>mime.ParseMediaType\<close> (\<open>parseMedia\<close>, \<open>None\<close> on error) and whether a write to the underlying writer succeeds.
\<close>

section \<open>State and operations\<close>

datatype frame = Head int | Bytes string | Comment | Flushed

record keepAliveWriter =
  k_interval :: int
  k_ctype :: string
  k_out :: "frame list"
  wroteHeader :: bool
  streaming :: bool
  stopped :: bool
  k_stop :: bool
  k_done :: bool
  k_runs :: nat
  k_started :: "(int \<times> string) list"

text \<open>\<open>k_out\<close> is what reached the underlying writer, \<open>k_stop\<close> and \<open>k_done\<close> whether the two channels are closed, \<open>k_runs\<close>
  how many ticker goroutines were started and \<open>k_started\<close> the status and media type at each start.\<close>

definition newKeepAliveWriter :: "int \<Rightarrow> keepAliveWriter" where
  "newKeepAliveWriter interval =
     \<lparr>k_interval = interval, k_ctype = [], k_out = [], wroteHeader = False, streaming = False, stopped = False,
      k_stop = False, k_done = False, k_runs = 0, k_started = []\<rparr>"

definition SetContentType :: "string \<Rightarrow> keepAliveWriter \<Rightarrow> keepAliveWriter" where
  "SetContentType v k = k\<lparr>k_ctype := v\<rparr>"

definition maybeStartLocked :: "(string \<Rightarrow> string option) \<Rightarrow> int \<Rightarrow> keepAliveWriter \<Rightarrow> keepAliveWriter" where
  "maybeStartLocked parseMedia status k =
     (if streaming k \<or> stopped k \<or> k_interval k \<le> 0 \<or> status \<noteq> 200 then k
      else case parseMedia (k_ctype k) of
        None \<Rightarrow> k
      | Some mediaType \<Rightarrow>
          if mediaType \<noteq> ''text/event-stream'' then k
          else k\<lparr>streaming := True, k_runs := Suc (k_runs k), k_started := (status, mediaType) # k_started k\<rparr>)"

definition WriteHeader :: "(string \<Rightarrow> string option) \<Rightarrow> int \<Rightarrow> keepAliveWriter \<Rightarrow> keepAliveWriter" where
  "WriteHeader parseMedia code k =
     maybeStartLocked parseMedia code (k\<lparr>k_out := k_out k @ [Head code], wroteHeader := True\<rparr>)"

definition Write :: "(string \<Rightarrow> string option) \<Rightarrow> string \<Rightarrow> keepAliveWriter \<Rightarrow> keepAliveWriter" where
  "Write parseMedia b k =
     (let k1 = (if \<not> wroteHeader k then maybeStartLocked parseMedia 200 (k\<lparr>wroteHeader := True\<rparr>) else k)
      in k1\<lparr>k_out := k_out k1 @ [Bytes b]\<rparr>)"

definition Flush :: "keepAliveWriter \<Rightarrow> keepAliveWriter" where
  "Flush k = k\<lparr>k_out := k_out k @ [Flushed]\<rparr>"

definition writeComment :: "bool \<Rightarrow> keepAliveWriter \<Rightarrow> bool \<times> keepAliveWriter" where
  "writeComment ok k =
     (if stopped k then (False, k)
      else if \<not> ok then (False, k)
      else (True, k\<lparr>k_out := k_out k @ [Comment, Flushed]\<rparr>))"

definition stop_close :: "keepAliveWriter \<Rightarrow> keepAliveWriter" where
  "stop_close k = k\<lparr>k_stop := True\<rparr>"

definition stop_flag :: "keepAliveWriter \<Rightarrow> keepAliveWriter" where
  "stop_flag k = k\<lparr>stopped := True\<rparr>"

definition stopKeepAlive :: "keepAliveWriter \<Rightarrow> keepAliveWriter" where
  "stopKeepAlive k = stop_flag (stop_close k)"

text \<open>One iteration of the ticker goroutine's loop; a failed comment ends it.\<close>

definition tick :: "bool \<Rightarrow> keepAliveWriter \<Rightarrow> keepAliveWriter" where
  "tick ok k = (case writeComment ok k of (go_on, k1) \<Rightarrow> if go_on then k1 else k1\<lparr>k_done := True\<rparr>)"

section \<open>Interleavings\<close>

inductive ka_step :: "(string \<Rightarrow> string option) \<Rightarrow> keepAliveWriter \<Rightarrow> keepAliveWriter \<Rightarrow> bool" for parseMedia where
  header: "\<not> wroteHeader k \<Longrightarrow> ka_step parseMedia k (SetContentType v k)"
| write_header: "ka_step parseMedia k (WriteHeader parseMedia code k)"
| handler_write: "ka_step parseMedia k (Write parseMedia b k)"
| flush: "ka_step parseMedia k (Flush k)"
| ticker: "streaming k \<Longrightarrow> \<not> k_done k \<Longrightarrow> ka_step parseMedia k (tick ok k)"
| ticker_exit: "streaming k \<Longrightarrow> \<not> k_done k \<Longrightarrow> k_stop k \<Longrightarrow> ka_step parseMedia k (k\<lparr>k_done := True\<rparr>)"
| stop_1: "ka_step parseMedia k (stop_close k)"
| stop_2: "k_stop k \<Longrightarrow> ka_step parseMedia k (stop_flag k)"

definition ka_inv :: "keepAliveWriter \<Rightarrow> bool" where
  "ka_inv k \<longleftrightarrow> (Comment \<in> set (k_out k) \<longrightarrow> streaming k)
     \<and> k_runs k = length (k_started k)
     \<and> (if streaming k then k_started k = [(200, ''text/event-stream'')] \<and> 0 < k_interval k else k_started k = [])
     \<and> (streaming k \<longrightarrow> wroteHeader k) \<and> (stopped k \<longrightarrow> k_stop k)"

lemma maybeStart_cases:
  obtains (same) "maybeStartLocked parseMedia status k = k"
  | (start) "\<not> streaming k" "\<not> stopped k" "0 < k_interval k" "status = 200"
      "maybeStartLocked parseMedia status k =
         k\<lparr>streaming := True, k_runs := Suc (k_runs k), k_started := (200, ''text/event-stream'') # k_started k\<rparr>"
proof (cases "\<not> streaming k \<and> \<not> stopped k \<and> 0 < k_interval k \<and> status = 200
      \<and> parseMedia (k_ctype k) = Some ''text/event-stream''")
  case True
  then show ?thesis by (intro start) (simp_all add: maybeStartLocked_def)
next
  case False
  then have "maybeStartLocked parseMedia status k = k"
    by (auto simp: maybeStartLocked_def split: option.split)
  then show ?thesis by (rule same)
qed

lemma maybeStart_out [simp]: "k_out (maybeStartLocked p s k) = k_out k" "stopped (maybeStartLocked p s k) = stopped k"
  by (cases rule: maybeStart_cases [of p s k]; simp)+

lemma maybeStart_inv: "ka_inv k \<Longrightarrow> wroteHeader k \<Longrightarrow> ka_inv (maybeStartLocked p s k)"
  by (cases rule: maybeStart_cases [of p s k]) (auto simp: ka_inv_def split: if_splits)

lemma inv_out: "ka_inv k \<Longrightarrow> f \<noteq> Comment \<Longrightarrow> ka_inv (k\<lparr>k_out := k_out k @ [f]\<rparr>)"
  by (auto simp: ka_inv_def)

lemma inv_wrote: "ka_inv k \<Longrightarrow> ka_inv (k\<lparr>wroteHeader := True\<rparr>)"
  by (auto simp: ka_inv_def)

lemma ka_step_inv: "ka_step p k k' \<Longrightarrow> ka_inv k \<Longrightarrow> ka_inv k'"
proof (induction rule: ka_step.induct)
  case (write_header k code)
  then have "ka_inv (k\<lparr>k_out := k_out k @ [Head code], wroteHeader := True\<rparr>)" by (auto simp: ka_inv_def)
  then show ?case unfolding WriteHeader_def by (rule maybeStart_inv) simp
next
  case (handler_write k b)
  then have "ka_inv (if \<not> wroteHeader k then maybeStartLocked p 200 (k\<lparr>wroteHeader := True\<rparr>) else k)"
    using maybeStart_inv [OF inv_wrote] by simp
  then show ?case unfolding Write_def Let_def by (rule inv_out) simp
qed (auto simp: ka_inv_def SetContentType_def Flush_def tick_def writeComment_def stop_close_def stop_flag_def
       split: if_splits)

lemma ka_run_inv: "(ka_step p)\<^sup>*\<^sup>* k k' \<Longrightarrow> ka_inv k \<Longrightarrow> ka_inv k'"
  by (induction rule: rtranclp_induct) (auto intro: ka_step_inv)

definition comments :: "keepAliveWriter \<Rightarrow> nat" where
  "comments k = length (filter (\<lambda>f. f = Comment) (k_out k))"

lemma stopped_quiet: "ka_step p k k' \<Longrightarrow> stopped k \<Longrightarrow> stopped k' \<and> comments k' = comments k"
proof (induction rule: ka_step.induct)
  case (handler_write k b)
  then show ?case by (simp add: Write_def Let_def comments_def)
qed (simp_all add: comments_def SetContentType_def WriteHeader_def Flush_def tick_def writeComment_def stop_close_def
       stop_flag_def)

lemma stopped_run_quiet: "(ka_step p)\<^sup>*\<^sup>* k k' \<Longrightarrow> stopped k \<Longrightarrow> stopped k' \<and> comments k' = comments k"
  by (induction rule: rtranclp_induct) (auto dest: stopped_quiet)

lemma newKeepAlive_inv: "ka_inv (newKeepAliveWriter i)"
  by (simp add: ka_inv_def newKeepAliveWriter_def)

text \<open>
  C20. The keep-alive is invisible except on an established stream, in every interleaving of handler, ticker and teardown. A comment is only ever written if the
  interval is positive and the ticker was started by a 200 response of type text/event-stream; the ticker goroutine is started at
  most once; and once the teardown has returned, no further comment is written, whatever happens afterwards, and the goroutine can exit.
\<close>
theorem keepalive_safe:
  assumes "(ka_step parseMedia)\<^sup>*\<^sup>* (newKeepAliveWriter interval) k"
  shows "k_runs k \<le> 1
    \<and> (Comment \<in> set (k_out k) \<longrightarrow> k_started k = [(200, ''text/event-stream'')] \<and> 0 < k_interval k)
    \<and> (\<forall>k'. (ka_step parseMedia)\<^sup>*\<^sup>* (stopKeepAlive k) k' \<longrightarrow> comments k' = comments k)
    \<and> (streaming k \<longrightarrow> \<not> k_done k \<longrightarrow> (\<exists>k'. ka_step parseMedia (stopKeepAlive k) k' \<and> k_done k'))"
proof (intro conjI allI impI)
  have inv: "ka_inv k" by (rule ka_run_inv [OF assms newKeepAlive_inv])
  show "k_runs k \<le> 1" using inv by (auto simp: ka_inv_def split: if_splits)
  show "Comment \<in> set (k_out k) \<Longrightarrow> k_started k = [(200, ''text/event-stream'')]"
    and "Comment \<in> set (k_out k) \<Longrightarrow> 0 < k_interval k"
    using inv by (auto simp: ka_inv_def)
  show "(ka_step parseMedia)\<^sup>*\<^sup>* (stopKeepAlive k) k' \<Longrightarrow> comments k' = comments k" for k'
    using stopped_run_quiet [of parseMedia "stopKeepAlive k" k']
    by (simp add: stopKeepAlive_def stop_flag_def stop_close_def comments_def)
  assume "streaming k" "\<not> k_done k"
  then have "ka_step parseMedia (stopKeepAlive k) ((stopKeepAlive k)\<lparr>k_done := True\<rparr>)"
    by (intro ka_step.ticker_exit) (simp_all add: stopKeepAlive_def stop_flag_def stop_close_def)
  then show "\<exists>k'. ka_step parseMedia (stopKeepAlive k) k' \<and> k_done k'" by auto
qed

theorem keepalive_safe_witness:
  "\<exists>k. (ka_step Some)\<^sup>*\<^sup>* (newKeepAliveWriter 5) k \<and> Comment \<in> set (k_out k)
     \<and> k_started k = [(200, ''text/event-stream'')] \<and> k_runs k \<le> 1"
proof -
  let ?k1 = "SetContentType ''text/event-stream'' (newKeepAliveWriter 5)"
  let ?k2 = "WriteHeader Some 200 ?k1"
  let ?k3 = "tick True ?k2"
  note d = SetContentType_def newKeepAliveWriter_def WriteHeader_def maybeStartLocked_def tick_def writeComment_def
  have "ka_step Some (newKeepAliveWriter 5) ?k1" by (rule ka_step.header) (simp add: newKeepAliveWriter_def)
  moreover have "ka_step Some ?k1 ?k2" by (rule ka_step.write_header)
  moreover have "ka_step Some ?k2 ?k3" by (rule ka_step.ticker) (simp_all add: d)
  ultimately have run: "(ka_step Some)\<^sup>*\<^sup>* (newKeepAliveWriter 5) ?k3"
    by (meson converse_rtranclp_into_rtranclp rtranclp.rtrancl_refl)
  have c: "Comment \<in> set (k_out ?k3)" by (simp add: d)
  from keepalive_safe [OF run] run c show ?thesis by blast
qed

end
