(* ===== verification/Mcp_Content.thy ===== *)
theory Mcp_Content
  imports Go_Json
begin

text \<open>
  The content elements of the MCP messages (\<open>mcpcompat/mcp/content.go\<close>, the resource contents of \<open>resources.go\<close>, the metadata of \<open>jsonrpc.go\<close>,
  the constructors of \<open>helpers.go\<close>): their types, their encoding by struct tags and their polymorphic decoding. A byte slice handed to
  \<open>UnmarshalContent\<close> is the document it holds, \<open>None\<close> if it is not JSON.
\<close>

section \<open>Metadata\<close>

record Meta =
  mt_ProgressToken :: json
  mt_AdditionalFields :: "(string \<times> json) list option"

definition map_get :: "string \<Rightarrow> (string \<times> json) list option \<Rightarrow> json" where
  "map_get k m = (case m of None \<Rightarrow> JNull | Some xs \<Rightarrow> (case map_of xs k of None \<Rightarrow> JNull | Some v \<Rightarrow> v))"

definition Meta_MarshalJSON :: "Meta \<Rightarrow> json" where
  "Meta_MarshalJSON m =
     (let raw = (if mt_ProgressToken m \<noteq> JNull then [(''progressToken'', mt_ProgressToken m)] else [])
      in enc_any (JObj (map_puts (case mt_AdditionalFields m of None \<Rightarrow> [] | Some a \<Rightarrow> a) raw)))"

definition Meta_UnmarshalJSON :: "Meta decoder" where
  "Meta_UnmarshalJSON j m =
     (case dec_map JNull dec_iface j (Some []) of
        (raw, Fine) \<Rightarrow>
          (\<lparr>mt_ProgressToken = map_get ''progressToken'' raw,
            mt_AdditionalFields = map_option (map_del [''progressToken'']) raw\<rparr>, Fine)
      | _ \<Rightarrow> (m, Abort))"

text \<open>The second result is the map argument after the call, which shares its storage with the additional fields.\<close>

definition NewMetaFromMap :: "(string \<times> json) list option \<Rightarrow> Meta \<times> (string \<times> json) list option" where
  "NewMetaFromMap m =
     (let progressToken = map_get ''progressToken'' m;
          m' = (if progressToken \<noteq> JNull then map_option (map_del [''progressToken'']) m else m)
      in (\<lparr>mt_ProgressToken = progressToken, mt_AdditionalFields = m'\<rparr>, m'))"

definition zero_Meta :: Meta where
  "zero_Meta = \<lparr>mt_ProgressToken = JNull, mt_AdditionalFields = None\<rparr>"

section \<open>Annotations\<close>

record Annotations =
  an_Audience :: "string list option"
  an_Priority :: "(int \<times> int) option"
  an_LastModified :: string

definition zero_Annotations :: Annotations where
  "zero_Annotations = \<lparr>an_Audience = None, an_Priority = None, an_LastModified = []\<rparr>"

definition enc_Annotations :: "Annotations \<Rightarrow> json" where
  "enc_Annotations a = JObj
     (omit (empty_slice (an_Audience a)) ''audience'' (enc_slice enc_string (an_Audience a)) @
      omit (an_Priority a = None) ''priority'' (enc_ptr (\<lambda>(m, e). enc_float m e) (an_Priority a)) @
      omit (an_LastModified a = []) ''lastModified'' (enc_string (an_LastModified a)) @ [])"

definition upd_Annotations :: "string \<Rightarrow> Annotations decoder" where
  "upd_Annotations k j x =
     (if key_eq k ''audience'' then into (dec_slice [] dec_string j (an_Audience x)) (\<lambda>v. x\<lparr>an_Audience := v\<rparr>)
      else if key_eq k ''priority'' then into (dec_ptr (0, 0) dec_float j (an_Priority x)) (\<lambda>v. x\<lparr>an_Priority := v\<rparr>)
      else if key_eq k ''lastModified'' then into (dec_string j (an_LastModified x)) (\<lambda>v. x\<lparr>an_LastModified := v\<rparr>)
      else (x, Fine))"

section \<open>Resource contents\<close>

record TextResourceContents =
  trc_Meta :: "(string \<times> json) list option"
  trc_URI :: string
  trc_MIMEType :: string
  trc_Text :: string

record BlobResourceContents =
  brc_Meta :: "(string \<times> json) list option"
  brc_URI :: string
  brc_MIMEType :: string
  brc_Blob :: string

datatype ResourceContents = TextResource TextResourceContents | BlobResource BlobResourceContents

definition enc_TextResourceContents :: "TextResourceContents \<Rightarrow> json" where
  "enc_TextResourceContents r = JObj
     (omit (empty_slice (trc_Meta r)) ''_meta'' (enc_map enc_any (trc_Meta r)) @
      omit False ''uri'' (enc_string (trc_URI r)) @
      omit (trc_MIMEType r = []) ''mimeType'' (enc_string (trc_MIMEType r)) @
      omit False ''text'' (enc_string (trc_Text r)) @ [])"

definition upd_TextResourceContents :: "string \<Rightarrow> TextResourceContents decoder" where
  "upd_TextResourceContents k j x =
     (if key_eq k ''_meta'' then into (dec_map JNull dec_iface j (trc_Meta x)) (\<lambda>v. x\<lparr>trc_Meta := v\<rparr>)
      else if key_eq k ''uri'' then into (dec_string j (trc_URI x)) (\<lambda>v. x\<lparr>trc_URI := v\<rparr>)
      else if key_eq k ''mimeType'' then into (dec_string j (trc_MIMEType x)) (\<lambda>v. x\<lparr>trc_MIMEType := v\<rparr>)
      else if key_eq k ''text'' then into (dec_string j (trc_Text x)) (\<lambda>v. x\<lparr>trc_Text := v\<rparr>)
      else (x, Fine))"

definition enc_BlobResourceContents :: "BlobResourceContents \<Rightarrow> json" where
  "enc_BlobResourceContents r = JObj
     (omit (empty_slice (brc_Meta r)) ''_meta'' (enc_map enc_any (brc_Meta r)) @
      omit False ''uri'' (enc_string (brc_URI r)) @
      omit (brc_MIMEType r = []) ''mimeType'' (enc_string (brc_MIMEType r)) @
      omit False ''blob'' (enc_string (brc_Blob r)) @ [])"

definition upd_BlobResourceContents :: "string \<Rightarrow> BlobResourceContents decoder" where
  "upd_BlobResourceContents k j x =
     (if key_eq k ''_meta'' then into (dec_map JNull dec_iface j (brc_Meta x)) (\<lambda>v. x\<lparr>brc_Meta := v\<rparr>)
      else if key_eq k ''uri'' then into (dec_string j (brc_URI x)) (\<lambda>v. x\<lparr>brc_URI := v\<rparr>)
      else if key_eq k ''mimeType'' then into (dec_string j (brc_MIMEType x)) (\<lambda>v. x\<lparr>brc_MIMEType := v\<rparr>)
      else if key_eq k ''blob'' then into (dec_string j (brc_Blob x)) (\<lambda>v. x\<lparr>brc_Blob := v\<rparr>)
      else (x, Fine))"

definition enc_ResourceContents :: "ResourceContents option \<Rightarrow> json" where
  "enc_ResourceContents r =
     (case r of
        None \<Rightarrow> JNull
      | Some (TextResource t) \<Rightarrow> enc_TextResourceContents t
      | Some (BlobResource b) \<Rightarrow> enc_BlobResourceContents b)"

text \<open>Content errors: a document that does not fit the type, a missing or unknown type, and the wrapped errors of nested elements.\<close>

datatype content_err =
    ErrDecode | ErrMissingType | ErrUnknownType string | ErrEmbeddedResource content_err | ErrToolResult content_err

definition decoded :: "'a \<times> dstat \<Rightarrow> (content_err, 'a) result" where
  "decoded r = (if snd r = Fine then Inr (fst r) else Inl ErrDecode)"

text \<open>The probe reads only the \<open>blob\<close> member, as a pointer.\<close>

definition upd_probe :: "string \<Rightarrow> string option decoder" where
  "upd_probe k j x = (if key_eq k ''blob'' then dec_ptr [] dec_string j x else (x, Fine))"

definition unmarshalResourceContents :: "json \<Rightarrow> (content_err, ResourceContents) result" where
  "unmarshalResourceContents j =
     bindE (decoded (dec_struct upd_probe j None)) (\<lambda>blob.
       if blob \<noteq> None then
         map_sum id BlobResource (decoded (dec_struct upd_BlobResourceContents j
           \<lparr>brc_Meta = None, brc_URI = [], brc_MIMEType = [], brc_Blob = []\<rparr>))
       else
         map_sum id TextResource (decoded (dec_struct upd_TextResourceContents j
           \<lparr>trc_Meta = None, trc_URI = [], trc_MIMEType = [], trc_Text = []\<rparr>)))"

section \<open>Content elements\<close>

record TextContent =
  txt_Annotations :: "Annotations option"
  txt_Meta :: "Meta option"
  txt_Type :: string
  txt_Text :: string

definition zero_TextContent :: TextContent where
  "zero_TextContent = \<lparr>txt_Annotations = None, txt_Meta = None, txt_Type = [], txt_Text = []\<rparr>"

definition enc_TextContent :: "TextContent \<Rightarrow> json" where
  "enc_TextContent c = JObj
     (omit (txt_Annotations c = None) ''annotations'' (enc_ptr enc_Annotations (txt_Annotations c)) @
      omit (txt_Meta c = None) ''_meta'' (enc_ptr Meta_MarshalJSON (txt_Meta c)) @
      omit False ''type'' (enc_string (txt_Type c)) @
      omit False ''text'' (enc_string (txt_Text c)) @ [])"

definition upd_TextContent :: "string \<Rightarrow> TextContent decoder" where
  "upd_TextContent k j x =
     (if key_eq k ''annotations'' then into (dec_ptr zero_Annotations (dec_struct upd_Annotations) j (txt_Annotations x)) (\<lambda>v. x\<lparr>txt_Annotations := v\<rparr>)
      else if key_eq k ''_meta'' then into (dec_ptr zero_Meta Meta_UnmarshalJSON j (txt_Meta x)) (\<lambda>v. x\<lparr>txt_Meta := v\<rparr>)
      else if key_eq k ''type'' then into (dec_string j (txt_Type x)) (\<lambda>v. x\<lparr>txt_Type := v\<rparr>)
      else if key_eq k ''text'' then into (dec_string j (txt_Text x)) (\<lambda>v. x\<lparr>txt_Text := v\<rparr>)
      else (x, Fine))"

record ImageContent =
  img_Annotations :: "Annotations option"
  img_Meta :: "Meta option"
  img_Type :: string
  img_Data :: string
  img_MIMEType :: string

definition zero_ImageContent :: ImageContent where
  "zero_ImageContent = \<lparr>img_Annotations = None, img_Meta = None, img_Type = [], img_Data = [], img_MIMEType = []\<rparr>"

definition enc_ImageContent :: "ImageContent \<Rightarrow> json" where
  "enc_ImageContent c = JObj
     (omit (img_Annotations c = None) ''annotations'' (enc_ptr enc_Annotations (img_Annotations c)) @
      omit (img_Meta c = None) ''_meta'' (enc_ptr Meta_MarshalJSON (img_Meta c)) @
      omit False ''type'' (enc_string (img_Type c)) @
      omit False ''data'' (enc_string (img_Data c)) @
      omit False ''mimeType'' (enc_string (img_MIMEType c)) @ [])"

definition upd_ImageContent :: "string \<Rightarrow> ImageContent decoder" where
  "upd_ImageContent k j x =
     (if key_eq k ''annotations'' then into (dec_ptr zero_Annotations (dec_struct upd_Annotations) j (img_Annotations x)) (\<lambda>v. x\<lparr>img_Annotations := v\<rparr>)
      else if key_eq k ''_meta'' then into (dec_ptr zero_Meta Meta_UnmarshalJSON j (img_Meta x)) (\<lambda>v. x\<lparr>img_Meta := v\<rparr>)
      else if key_eq k ''type'' then into (dec_string j (img_Type x)) (\<lambda>v. x\<lparr>img_Type := v\<rparr>)
      else if key_eq k ''data'' then into (dec_string j (img_Data x)) (\<lambda>v. x\<lparr>img_Data := v\<rparr>)
      else if key_eq k ''mimeType'' then into (dec_string j (img_MIMEType x)) (\<lambda>v. x\<lparr>img_MIMEType := v\<rparr>)
      else (x, Fine))"

record AudioContent =
  aud_Annotations :: "Annotations option"
  aud_Meta :: "Meta option"
  aud_Type :: string
  aud_Data :: string
  aud_MIMEType :: string

definition zero_AudioContent :: AudioContent where
  "zero_AudioContent = \<lparr>aud_Annotations = None, aud_Meta = None, aud_Type = [], aud_Data = [], aud_MIMEType = []\<rparr>"

definition enc_AudioContent :: "AudioContent \<Rightarrow> json" where
  "enc_AudioContent c = JObj
     (omit (aud_Annotations c = None) ''annotations'' (enc_ptr enc_Annotations (aud_Annotations c)) @
      omit (aud_Meta c = None) ''_meta'' (enc_ptr Meta_MarshalJSON (aud_Meta c)) @
      omit False ''type'' (enc_string (aud_Type c)) @
      omit False ''data'' (enc_string (aud_Data c)) @
      omit False ''mimeType'' (enc_string (aud_MIMEType c)) @ [])"

definition upd_AudioContent :: "string \<Rightarrow> AudioContent decoder" where
  "upd_AudioContent k j x =
     (if key_eq k ''annotations'' then into (dec_ptr zero_Annotations (dec_struct upd_Annotations) j (aud_Annotations x)) (\<lambda>v. x\<lparr>aud_Annotations := v\<rparr>)
      else if key_eq k ''_meta'' then into (dec_ptr zero_Meta Meta_UnmarshalJSON j (aud_Meta x)) (\<lambda>v. x\<lparr>aud_Meta := v\<rparr>)
      else if key_eq k ''type'' then into (dec_string j (aud_Type x)) (\<lambda>v. x\<lparr>aud_Type := v\<rparr>)
      else if key_eq k ''data'' then into (dec_string j (aud_Data x)) (\<lambda>v. x\<lparr>aud_Data := v\<rparr>)
      else if key_eq k ''mimeType'' then into (dec_string j (aud_MIMEType x)) (\<lambda>v. x\<lparr>aud_MIMEType := v\<rparr>)
      else (x, Fine))"

record ResourceLink =
  lnk_Annotations :: "Annotations option"
  lnk_Type :: string
  lnk_URI :: string
  lnk_Name :: string
  lnk_Title :: string
  lnk_Description :: string
  lnk_MIMEType :: string
  lnk_Size :: "int option"

definition zero_ResourceLink :: ResourceLink where
  "zero_ResourceLink = \<lparr>lnk_Annotations = None, lnk_Type = [], lnk_URI = [], lnk_Name = [], lnk_Title = [], lnk_Description = [], lnk_MIMEType = [], lnk_Size = None\<rparr>"

definition enc_ResourceLink :: "ResourceLink \<Rightarrow> json" where
  "enc_ResourceLink c = JObj
     (omit (lnk_Annotations c = None) ''annotations'' (enc_ptr enc_Annotations (lnk_Annotations c)) @
      omit False ''type'' (enc_string (lnk_Type c)) @
      omit False ''uri'' (enc_string (lnk_URI c)) @
      omit False ''name'' (enc_string (lnk_Name c)) @
      omit (lnk_Title c = []) ''title'' (enc_string (lnk_Title c)) @
      omit False ''description'' (enc_string (lnk_Description c)) @
      omit False ''mimeType'' (enc_string (lnk_MIMEType c)) @
      omit (lnk_Size c = None) ''size'' (enc_ptr JNum (lnk_Size c)) @ [])"

definition upd_ResourceLink :: "string \<Rightarrow> ResourceLink decoder" where
  "upd_ResourceLink k j x =
     (if key_eq k ''annotations'' then into (dec_ptr zero_Annotations (dec_struct upd_Annotations) j (lnk_Annotations x)) (\<lambda>v. x\<lparr>lnk_Annotations := v\<rparr>)
      else if key_eq k ''type'' then into (dec_string j (lnk_Type x)) (\<lambda>v. x\<lparr>lnk_Type := v\<rparr>)
      else if key_eq k ''uri'' then into (dec_string j (lnk_URI x)) (\<lambda>v. x\<lparr>lnk_URI := v\<rparr>)
      else if key_eq k ''name'' then into (dec_string j (lnk_Name x)) (\<lambda>v. x\<lparr>lnk_Name := v\<rparr>)
      else if key_eq k ''title'' then into (dec_string j (lnk_Title x)) (\<lambda>v. x\<lparr>lnk_Title := v\<rparr>)
      else if key_eq k ''description'' then into (dec_string j (lnk_Description x)) (\<lambda>v. x\<lparr>lnk_Description := v\<rparr>)
      else if key_eq k ''mimeType'' then into (dec_string j (lnk_MIMEType x)) (\<lambda>v. x\<lparr>lnk_MIMEType := v\<rparr>)
      else if key_eq k ''size'' then into (dec_ptr 0 dec_int j (lnk_Size x)) (\<lambda>v. x\<lparr>lnk_Size := v\<rparr>)
      else (x, Fine))"

record ToolUseContent =
  use_Annotations :: "Annotations option"
  use_Meta :: "Meta option"
  use_Type :: string
  use_ID :: string
  use_Name :: string
  use_Input :: json

definition zero_ToolUseContent :: ToolUseContent where
  "zero_ToolUseContent = \<lparr>use_Annotations = None, use_Meta = None, use_Type = [], use_ID = [], use_Name = [], use_Input = JNull\<rparr>"

definition enc_ToolUseContent :: "ToolUseContent \<Rightarrow> json" where
  "enc_ToolUseContent c = JObj
     (omit (use_Annotations c = None) ''annotations'' (enc_ptr enc_Annotations (use_Annotations c)) @
      omit (use_Meta c = None) ''_meta'' (enc_ptr Meta_MarshalJSON (use_Meta c)) @
      omit False ''type'' (enc_string (use_Type c)) @
      omit False ''id'' (enc_string (use_ID c)) @
      omit False ''name'' (enc_string (use_Name c)) @
      omit False ''input'' (enc_any (use_Input c)) @ [])"

definition upd_ToolUseContent :: "string \<Rightarrow> ToolUseContent decoder" where
  "upd_ToolUseContent k j x =
     (if key_eq k ''annotations'' then into (dec_ptr zero_Annotations (dec_struct upd_Annotations) j (use_Annotations x)) (\<lambda>v. x\<lparr>use_Annotations := v\<rparr>)
      else if key_eq k ''_meta'' then into (dec_ptr zero_Meta Meta_UnmarshalJSON j (use_Meta x)) (\<lambda>v. x\<lparr>use_Meta := v\<rparr>)
      else if key_eq k ''type'' then into (dec_string j (use_Type x)) (\<lambda>v. x\<lparr>use_Type := v\<rparr>)
      else if key_eq k ''id'' then into (dec_string j (use_ID x)) (\<lambda>v. x\<lparr>use_ID := v\<rparr>)
      else if key_eq k ''name'' then into (dec_string j (use_Name x)) (\<lambda>v. x\<lparr>use_Name := v\<rparr>)
      else if key_eq k ''input'' then into (dec_iface j (use_Input x)) (\<lambda>v. x\<lparr>use_Input := v\<rparr>)
      else (x, Fine))"

record EmbeddedResource =
  emb_Annotations :: "Annotations option"
  emb_Meta :: "Meta option"
  emb_Type :: string
  emb_Resource :: "ResourceContents option"

definition enc_EmbeddedResource :: "EmbeddedResource \<Rightarrow> json" where
  "enc_EmbeddedResource c = JObj
     (omit (emb_Annotations c = None) ''annotations'' (enc_ptr enc_Annotations (emb_Annotations c)) @
      omit (emb_Meta c = None) ''_meta'' (enc_ptr Meta_MarshalJSON (emb_Meta c)) @
      omit False ''type'' (enc_string (emb_Type c)) @
      omit False ''resource'' (enc_ResourceContents (emb_Resource c)) @ [])"

record embeddedResourceJSON =
  erj_Annotations :: "Annotations option"
  erj_Meta :: "Meta option"
  erj_Type :: string
  erj_Resource :: "json option"

definition upd_embeddedResourceJSON :: "string \<Rightarrow> embeddedResourceJSON decoder" where
  "upd_embeddedResourceJSON k j x =
     (if key_eq k ''annotations'' then into (dec_ptr zero_Annotations (dec_struct upd_Annotations) j (erj_Annotations x)) (\<lambda>v. x\<lparr>erj_Annotations := v\<rparr>)
      else if key_eq k ''_meta'' then into (dec_ptr zero_Meta Meta_UnmarshalJSON j (erj_Meta x)) (\<lambda>v. x\<lparr>erj_Meta := v\<rparr>)
      else if key_eq k ''type'' then into (dec_string j (erj_Type x)) (\<lambda>v. x\<lparr>erj_Type := v\<rparr>)
      else if key_eq k ''resource'' then into (dec_raw j (erj_Resource x)) (\<lambda>v. x\<lparr>erj_Resource := v\<rparr>)
      else (x, Fine))"

definition EmbeddedResource_UnmarshalJSON :: "json \<Rightarrow> (content_err, EmbeddedResource) result" where
  "EmbeddedResource_UnmarshalJSON j =
     bindE (decoded (dec_struct upd_embeddedResourceJSON j
              \<lparr>erj_Annotations = None, erj_Meta = None, erj_Type = [], erj_Resource = None\<rparr>)) (\<lambda>raw.
       let er = (\<lambda>r. \<lparr>emb_Annotations = erj_Annotations raw, emb_Meta = erj_Meta raw, emb_Type = erj_Type raw, emb_Resource = r\<rparr>)
       in case erj_Resource raw of
            None \<Rightarrow> Inr (er None)
          | Some JNull \<Rightarrow> Inr (er None)
          | Some res \<Rightarrow> map_sum ErrEmbeddedResource (\<lambda>r. er (Some r)) (unmarshalResourceContents res))"

text \<open>The tool result is the recursive element.\<close>

datatype Content =
    Text TextContent
  | Image ImageContent
  | Audio AudioContent
  | Link ResourceLink
  | Embedded EmbeddedResource
  | ToolUse ToolUseContent
  | ToolResultContent (tr_Annotations: "Annotations option") (tr_Meta: "Meta option") (tr_Type: string)
      (tr_ToolUseID: string) (tr_Content: "Content list option") (tr_IsError: bool)

record toolResultContentJSON =
  trj_Annotations :: "Annotations option"
  trj_Meta :: "Meta option"
  trj_Type :: string
  trj_ToolUseID :: string
  trj_Content :: "json list option"
  trj_IsError :: bool

definition zero_toolResultContentJSON :: toolResultContentJSON where
  "zero_toolResultContentJSON =
     \<lparr>trj_Annotations = None, trj_Meta = None, trj_Type = [], trj_ToolUseID = [], trj_Content = None, trj_IsError = False\<rparr>"

definition upd_toolResultContentJSON :: "string \<Rightarrow> toolResultContentJSON decoder" where
  "upd_toolResultContentJSON k j x =
     (if key_eq k ''annotations'' then into (dec_ptr zero_Annotations (dec_struct upd_Annotations) j (trj_Annotations x)) (\<lambda>v. x\<lparr>trj_Annotations := v\<rparr>)
      else if key_eq k ''_meta'' then into (dec_ptr zero_Meta Meta_UnmarshalJSON j (trj_Meta x)) (\<lambda>v. x\<lparr>trj_Meta := v\<rparr>)
      else if key_eq k ''type'' then into (dec_string j (trj_Type x)) (\<lambda>v. x\<lparr>trj_Type := v\<rparr>)
      else if key_eq k ''toolUseId'' then into (dec_string j (trj_ToolUseID x)) (\<lambda>v. x\<lparr>trj_ToolUseID := v\<rparr>)
      else if key_eq k ''content'' then into (dec_slice JNull (\<lambda>j x. (j, Fine)) j (trj_Content x)) (\<lambda>v. x\<lparr>trj_Content := v\<rparr>)
      else if key_eq k ''isError'' then into (dec_bool j (trj_IsError x)) (\<lambda>v. x\<lparr>trj_IsError := v\<rparr>)
      else (x, Fine))"

function MarshalContent :: "Content \<Rightarrow> json" where
  "MarshalContent (Text c) = enc_TextContent c"
| "MarshalContent (Image c) = enc_ImageContent c"
| "MarshalContent (Audio c) = enc_AudioContent c"
| "MarshalContent (Link c) = enc_ResourceLink c"
| "MarshalContent (Embedded c) = enc_EmbeddedResource c"
| "MarshalContent (ToolUse c) = enc_ToolUseContent c"
| "MarshalContent (ToolResultContent a m t i cs e) = JObj
     (omit (a = None) ''annotations'' (enc_ptr enc_Annotations a) @
      omit (m = None) ''_meta'' (enc_ptr Meta_MarshalJSON m) @
      omit False ''type'' (enc_string t) @
      omit False ''toolUseId'' (enc_string i) @
      omit False ''content'' (enc_slice MarshalContent cs) @
      omit (\<not> e) ''isError'' (JBool e) @ [])"
  by pat_completeness auto
termination
  by (relation "measure size") (auto simp: less_Suc_eq_le intro!: le_SucI size_list_estimation' [OF _ order_refl])

text \<open>The \<open>type\<close> member, read as \<open>any\<close>.\<close>

definition upd_type :: "string \<Rightarrow> json decoder" where
  "upd_type k j x = (if key_eq k ''type'' then dec_iface j x else (x, Fine))"

definition raw_tool_result :: "json \<Rightarrow> toolResultContentJSON \<times> dstat" where
  "raw_tool_result j = dec_struct upd_toolResultContentJSON j zero_toolResultContentJSON"

definition raw_items :: "json \<Rightarrow> json list" where
  "raw_items j = (case trj_Content (fst (raw_tool_result j)) of None \<Rightarrow> [] | Some rs \<Rightarrow> rs)"

lemma raw_items_smaller: "r \<in> set (raw_items j) \<Longrightarrow> size r < size j"
proof (cases j)
  case (JObj m)
  define P where "P x \<longleftrightarrow> (\<forall>rs. trj_Content x = Some rs \<longrightarrow> (\<forall>r\<in>set rs. size r < size (JObj m)))" for x :: toolResultContentJSON
  have slice: "P (x\<lparr>trj_Content := fst (dec_slice JNull (\<lambda>j x. (j, Fine)) v (trj_Content x))\<rparr>)"
    if "P x" "size v < size (JObj m)" for v x
  proof (cases v)
    case (JArr js)
    have "dec_elems JNull (\<lambda>j x. (j, Fine)) js = (js, Fine)"
      by (induction js) simp_all
    moreover have "r \<in> set js \<Longrightarrow> size r < size (JObj m)" for r
      using size_element [of r js] that(2) by (simp add: JArr)
    ultimately show ?thesis by (simp add: P_def JArr dec_slice_def)
  qed (use that in \<open>auto simp: P_def dec_slice_def\<close>)
  have "P (fst (dec_fields upd_toolResultContentJSON m zero_toolResultContentJSON))"
  proof (rule dec_fields_inv)
    show "P zero_toolResultContentJSON" by (simp add: P_def zero_toolResultContentJSON_def)
    fix k v y
    assume "(k, v) \<in> set m" and y: "P y"
    then have "size v < size (JObj m)" by (rule_tac size_member)
    from slice [OF y this] y show "P (fst (upd_toolResultContentJSON k v y))"
      by (simp add: upd_toolResultContentJSON_def into_def P_def)
  qed
  moreover assume "r \<in> set (raw_items j)"
  ultimately show ?thesis
    by (cases "trj_Content (fst (dec_fields upd_toolResultContentJSON m zero_toolResultContentJSON))")
       (simp_all add: raw_items_def raw_tool_result_def JObj dec_struct_def P_def)
qed (auto simp: raw_items_def raw_tool_result_def dec_struct_def zero_toolResultContentJSON_def)

text \<open>\<open>UnmarshalContent\<close> on the document of its argument, with the body of \<open>ToolResultContent.UnmarshalJSON\<close> in its last case.\<close>

function unmarshal_content :: "json \<Rightarrow> (content_err, Content) result" where
  "unmarshal_content j =
     (case dec_struct upd_type j JNull of
        (JStr contentType, Fine) \<Rightarrow>
          if contentType = ''text'' then map_sum id Text (decoded (dec_struct upd_TextContent j zero_TextContent))
          else if contentType = ''image'' then map_sum id Image (decoded (dec_struct upd_ImageContent j zero_ImageContent))
          else if contentType = ''audio'' then map_sum id Audio (decoded (dec_struct upd_AudioContent j zero_AudioContent))
          else if contentType = ''resource_link'' then map_sum id Link (decoded (dec_struct upd_ResourceLink j zero_ResourceLink))
          else if contentType = ''resource'' then map_sum id Embedded (EmbeddedResource_UnmarshalJSON j)
          else if contentType = ''tool_use'' then map_sum id ToolUse (decoded (dec_struct upd_ToolUseContent j zero_ToolUseContent))
          else if contentType = ''tool_result'' then
            bindE (decoded (raw_tool_result j)) (\<lambda>raw.
              bindE (map_err ErrToolResult (traverse unmarshal_content (raw_items j))) (\<lambda>cs.
                Inr (ToolResultContent (trj_Annotations raw) (trj_Meta raw) (trj_Type raw) (trj_ToolUseID raw)
                       (if raw_items j = [] then None else Some cs) (trj_IsError raw))))
          else Inl (ErrUnknownType contentType)
      | (_, Fine) \<Rightarrow> Inl ErrMissingType
      | _ \<Rightarrow> Inl ErrDecode)"
  by pat_completeness auto
termination
  by (relation "measure size") (auto simp: raw_items_smaller)

declare unmarshal_content.simps [simp del]

definition UnmarshalContent :: "json option \<Rightarrow> (content_err, Content) result" where
  "UnmarshalContent data = (case data of None \<Rightarrow> Inl ErrDecode | Some j \<Rightarrow> unmarshal_content j)"

section \<open>Round trips\<close>

lemma content_keys [json_dec]:
  "ascii_fold ''audience'' = ''audience''" "ascii_fold ''priority'' = ''priority''" "ascii_fold ''lastModified'' = ''lastmodified''"
  "ascii_fold ''_meta'' = ''_meta''" "ascii_fold ''uri'' = ''uri''" "ascii_fold ''mimeType'' = ''mimetype''"
  "ascii_fold ''text'' = ''text''" "ascii_fold ''blob'' = ''blob''" "ascii_fold ''annotations'' = ''annotations''"
  "ascii_fold ''type'' = ''type''" "ascii_fold ''data'' = ''data''" "ascii_fold ''name'' = ''name''" "ascii_fold ''title'' = ''title''"
  "ascii_fold ''description'' = ''description''" "ascii_fold ''size'' = ''size''" "ascii_fold ''id'' = ''id''" "ascii_fold ''input'' = ''input''"
  "ascii_fold ''resource'' = ''resource''" "ascii_fold ''toolUseId'' = ''tooluseid''" "ascii_fold ''content'' = ''content''"
  "ascii_fold ''isError'' = ''iserror''"
  by (code_simp)+

lemma ascii_fold_TYPE: "ascii_fold ''TYPE'' = ''type''"
  by code_simp

text \<open>Values that survive encoding: valid strings, values of \<open>any\<close> as decoding produces them, no empty but non-nil slice in a
  member that is left out when empty.\<close>

definition wf_Meta :: "Meta \<Rightarrow> bool" where
  "wf_Meta m \<longleftrightarrow> wf_any (mt_ProgressToken m) \<and>
     (\<exists>a. mt_AdditionalFields m = Some a \<and> wf_map a \<and> ''progressToken'' \<notin> fst ` set a)"

definition wf_Annotations :: "Annotations \<Rightarrow> bool" where
  "wf_Annotations a \<longleftrightarrow> an_Audience a \<noteq> Some [] \<and> pred_option (list_all valid_utf8) (an_Audience a)
     \<and> pred_option (\<lambda>(m, e). canon_float m e) (an_Priority a) \<and> valid_utf8 (an_LastModified a)"

lemmas upd_content [json_dec] =
  upd_Annotations_def upd_TextResourceContents_def upd_BlobResourceContents_def upd_TextContent_def upd_ImageContent_def
  upd_AudioContent_def upd_ResourceLink_def upd_ToolUseContent_def upd_embeddedResourceJSON_def upd_toolResultContentJSON_def

lemma enc_not_null [simp]:
  "enc_Annotations a \<noteq> JNull" "Meta_MarshalJSON m \<noteq> JNull" "enc_ResourceContents (Some r) \<noteq> JNull"
  by (simp_all add: enc_Annotations_def Meta_MarshalJSON_def Let_def enc_ResourceContents_def enc_TextResourceContents_def
      enc_BlobResourceContents_def split: ResourceContents.splits)

lemma Annotations_round_trip:
  assumes "wf_Annotations a"
  shows "dec_struct upd_Annotations (enc_Annotations a) zero_Annotations = (a, Fine)"
  using assms unfolding enc_Annotations_def dec_struct_def wf_Annotations_def json.case zero_Annotations_def
  by - ((rule dec_member, (simp add: json_dec)[1], (simp; fail)[1])+, simp)

lemma Annotations_ptr [simp]:
  "pred_option wf_Annotations a
     \<Longrightarrow> dec_ptr zero_Annotations (dec_struct upd_Annotations) (enc_ptr enc_Annotations a) None = (a, Fine)"
  by (rule dec_enc_ptr) (simp add: pred_option_def Annotations_round_trip)

lemma Meta_document:
  assumes "wf_Meta m"
  shows "\<exists>raw. Meta_MarshalJSON m = enc_any (JObj raw) \<and> wf_map raw \<and> map_get ''progressToken'' (Some raw) = mt_ProgressToken m \<and>
    mt_AdditionalFields m = Some (map_del [''progressToken''] raw) \<and> (mt_ProgressToken m = JNull \<longrightarrow> mt_AdditionalFields m = Some raw)"
proof -
  obtain a where a: "mt_AdditionalFields m = Some a" "wf_map a" "''progressToken'' \<notin> fst ` set a" and t: "wf_any (mt_ProgressToken m)"
    using assms by (auto simp: wf_Meta_def)
  define raw where "raw = map_puts a (if mt_ProgressToken m \<noteq> JNull then [(''progressToken'', mt_ProgressToken m)] else [])"
  have g: "go_map raw" "go_map a" using a by (auto simp: raw_def)
  have d: "map_of a ''progressToken'' = None" using a(3) by (metis map_of_eq_None_iff)
  have m: "map_of raw = (if mt_ProgressToken m \<noteq> JNull then (map_of a)(''progressToken'' \<mapsto> mt_ProgressToken m) else map_of a)"
    using g d by (auto simp: raw_def map_of_puts map_of_rev_distinct go_map_distinct fun_eq_iff map_add_def split: option.splits)
  have "(k, v) \<in> set raw \<Longrightarrow> valid_utf8 k \<and> wf_any v" for k v
    using a(2) t map_of_SomeD [of a k v] g
    by (auto simp: m list_all_iff valid_utf8_ascii dest!: map_of_is_SomeI [OF go_map_distinct] split: if_splits)
  then have wf: "wf_map raw" using g by (auto simp: list_all_iff)
  have tok: "map_get ''progressToken'' (Some raw) = mt_ProgressToken m"
    using d by (auto simp: map_get_def m)
  have del: "map_del [''progressToken''] raw = a"
    using g d by (intro go_map_eqI) (auto simp: map_of_del m restrict_map_def fun_eq_iff)
  have "mt_ProgressToken m = JNull \<Longrightarrow> raw = a"
    using g by (simp add: raw_def map_puts_sorted)
  moreover have "Meta_MarshalJSON m = enc_any (JObj raw)"
    by (simp add: Meta_MarshalJSON_def raw_def a)
  ultimately show ?thesis
    using wf tok del a(1) by (intro exI [of _ raw]) simp
qed

lemma Meta_round_trip:
  assumes "wf_Meta m"
  shows "Meta_UnmarshalJSON (Meta_MarshalJSON m) x = (m, Fine)"
proof -
  obtain raw where raw: "Meta_MarshalJSON m = enc_any (JObj raw)" "wf_map raw" "map_get ''progressToken'' (Some raw) = mt_ProgressToken m"
      "mt_AdditionalFields m = Some (map_del [''progressToken''] raw)"
    using Meta_document [OF assms] by blast
  have "dec_map JNull dec_iface (enc_any (JObj raw)) (Some []) = (Some raw, Fine)"
    using dec_enc_any_map [of "Some raw" JNull] raw(2) by (simp add: dec_map_def enc_map_def)
  then show ?thesis
    by (simp add: Meta_UnmarshalJSON_def raw)
qed

lemma NewMetaFromMap_encoded:
  assumes "wf_Meta m"
  shows "\<exists>raw. dec_any (Meta_MarshalJSON m) = JObj raw \<and> fst (NewMetaFromMap (Some raw)) = m"
proof -
  obtain raw where raw: "Meta_MarshalJSON m = enc_any (JObj raw)" "wf_map raw" "map_get ''progressToken'' (Some raw) = mt_ProgressToken m"
      "mt_AdditionalFields m = Some (map_del [''progressToken''] raw)" "mt_ProgressToken m = JNull \<longrightarrow> mt_AdditionalFields m = Some raw"
    using Meta_document [OF assms] by blast
  have "dec_any (Meta_MarshalJSON m) = JObj raw"
    using raw(2) by (simp only: raw(1) dec_enc_any)
  moreover have "fst (NewMetaFromMap (Some raw)) = m"
    using raw by (intro Meta.equality) (auto simp: NewMetaFromMap_def Let_def)
  ultimately show ?thesis by blast
qed

lemma Meta_ptr [simp]:
  "pred_option wf_Meta m \<Longrightarrow> dec_ptr zero_Meta Meta_UnmarshalJSON (enc_ptr Meta_MarshalJSON m) None = (m, Fine)"
  by (rule dec_enc_ptr) (simp add: pred_option_def Meta_round_trip)

definition wf_ResourceContents :: "ResourceContents \<Rightarrow> bool" where
  "wf_ResourceContents r =
     (case r of
        TextResource t \<Rightarrow> trc_Meta t \<noteq> Some [] \<and> pred_option wf_map (trc_Meta t) \<and> valid_utf8 (trc_URI t)
          \<and> valid_utf8 (trc_MIMEType t) \<and> valid_utf8 (trc_Text t)
      | BlobResource b \<Rightarrow> brc_Meta b \<noteq> Some [] \<and> pred_option wf_map (brc_Meta b) \<and> valid_utf8 (brc_URI b)
          \<and> valid_utf8 (brc_MIMEType b) \<and> valid_utf8 (brc_Blob b))"

lemma dec_fields_skip:
  "(\<not> b \<Longrightarrow> upd k j x = (x, Fine)) \<Longrightarrow> dec_fields upd (omit b k j @ m) x = dec_fields upd m x"
  by (auto simp: omit_def)

lemma ResourceContents_round_trip:
  assumes "wf_ResourceContents r"
  shows "unmarshalResourceContents (enc_ResourceContents (Some r)) = Inr r"
proof (cases r)
  case (TextResource t)
  have probe: "dec_struct upd_probe (enc_TextResourceContents t) None = (None, Fine)"
    unfolding enc_TextResourceContents_def dec_struct_def json.case
    by (simp add: dec_fields_skip upd_probe_def json_dec) (simp add: omit_def json_dec upd_probe_def)
  have "dec_struct upd_TextResourceContents (enc_TextResourceContents t)
      \<lparr>trc_Meta = None, trc_URI = [], trc_MIMEType = [], trc_Text = []\<rparr> = (t, Fine)"
    using assms unfolding enc_TextResourceContents_def dec_struct_def json.case wf_ResourceContents_def TextResource ResourceContents.case
    by - ((rule dec_member, (simp add: json_dec)[1], (simp; fail)[1])+, simp)
  with probe show ?thesis
    by (simp add: TextResource enc_ResourceContents_def unmarshalResourceContents_def decoded_def)
next
  case (BlobResource b)
  have probe: "dec_struct upd_probe (enc_BlobResourceContents b) None = (Some (brc_Blob b), Fine)"
    using assms unfolding enc_BlobResourceContents_def dec_struct_def json.case wf_ResourceContents_def BlobResource
    by (simp add: dec_fields_skip upd_probe_def json_dec) (simp add: omit_def dec_ptr_def json_dec upd_probe_def)
  have "dec_struct upd_BlobResourceContents (enc_BlobResourceContents b)
      \<lparr>brc_Meta = None, brc_URI = [], brc_MIMEType = [], brc_Blob = []\<rparr> = (b, Fine)"
    using assms unfolding enc_BlobResourceContents_def dec_struct_def json.case wf_ResourceContents_def BlobResource ResourceContents.case
    by - ((rule dec_member, (simp add: json_dec)[1], (simp; fail)[1])+, simp)
  with probe show ?thesis
    by (simp add: BlobResource enc_ResourceContents_def unmarshalResourceContents_def decoded_def)
qed

text \<open>The content type that stands for the Go type of an element, and its \<open>Type\<close> field.\<close>

fun tag_of :: "Content \<Rightarrow> string" where
  "tag_of (Text _) = ''text''"
| "tag_of (Image _) = ''image''"
| "tag_of (Audio _) = ''audio''"
| "tag_of (Link _) = ''resource_link''"
| "tag_of (Embedded _) = ''resource''"
| "tag_of (ToolUse _) = ''tool_use''"
| "tag_of (ToolResultContent _ _ _ _ _ _) = ''tool_result''"

fun type_of :: "Content \<Rightarrow> string" where
  "type_of (Text c) = txt_Type c"
| "type_of (Image c) = img_Type c"
| "type_of (Audio c) = aud_Type c"
| "type_of (Link c) = lnk_Type c"
| "type_of (Embedded c) = emb_Type c"
| "type_of (ToolUse c) = use_Type c"
| "type_of (ToolResultContent _ _ t _ _ _) = t"

inductive well_typed :: "Content \<Rightarrow> bool" where
  "type_of c = tag_of c \<Longrightarrow> (\<And>ds d. tag_of c = ''tool_result'' \<Longrightarrow> tr_Content c = Some ds \<Longrightarrow> d \<in> set ds \<Longrightarrow> well_typed d)
     \<Longrightarrow> well_typed c"

text \<open>Content elements whose \<open>Type\<close> is that of their Go type.\<close>

fun wf_content :: "Content \<Rightarrow> bool" where
  "wf_content (Text c) \<longleftrightarrow> txt_Type c = ''text'' \<and> pred_option wf_Annotations (txt_Annotations c) \<and> pred_option wf_Meta (txt_Meta c)
     \<and> valid_utf8 (txt_Text c)"
| "wf_content (Image c) \<longleftrightarrow> img_Type c = ''image'' \<and> pred_option wf_Annotations (img_Annotations c) \<and> pred_option wf_Meta (img_Meta c)
     \<and> valid_utf8 (img_Data c) \<and> valid_utf8 (img_MIMEType c)"
| "wf_content (Audio c) \<longleftrightarrow> aud_Type c = ''audio'' \<and> pred_option wf_Annotations (aud_Annotations c) \<and> pred_option wf_Meta (aud_Meta c)
     \<and> valid_utf8 (aud_Data c) \<and> valid_utf8 (aud_MIMEType c)"
| "wf_content (Link c) \<longleftrightarrow> lnk_Type c = ''resource_link'' \<and> pred_option wf_Annotations (lnk_Annotations c)
     \<and> valid_utf8 (lnk_URI c) \<and> valid_utf8 (lnk_Name c) \<and> valid_utf8 (lnk_Title c) \<and> valid_utf8 (lnk_Description c)
     \<and> valid_utf8 (lnk_MIMEType c) \<and> pred_option is_int64 (lnk_Size c)"
| "wf_content (Embedded c) \<longleftrightarrow> emb_Type c = ''resource'' \<and> pred_option wf_Annotations (emb_Annotations c) \<and> pred_option wf_Meta (emb_Meta c)
     \<and> pred_option wf_ResourceContents (emb_Resource c)"
| "wf_content (ToolUse c) \<longleftrightarrow> use_Type c = ''tool_use'' \<and> pred_option wf_Annotations (use_Annotations c) \<and> pred_option wf_Meta (use_Meta c)
     \<and> valid_utf8 (use_ID c) \<and> valid_utf8 (use_Name c) \<and> wf_any (use_Input c)"
| "wf_content (ToolResultContent a m t i cs e) \<longleftrightarrow> t = ''tool_result'' \<and> pred_option wf_Annotations a \<and> pred_option wf_Meta m
     \<and> valid_utf8 i \<and> cs \<noteq> Some [] \<and> pred_option (list_all wf_content) cs"

lemma valid_types [simp]:
  "valid_utf8 ''text''" "valid_utf8 ''image''" "valid_utf8 ''audio''" "valid_utf8 ''resource_link''" "valid_utf8 ''resource''"
  "valid_utf8 ''tool_use''" "valid_utf8 ''tool_result''"
  by (simp_all add: valid_utf8_ascii)

text \<open>Reading the type of an encoded element.\<close>

lemma type_member:
  "dec_fields upd_type m (dec_any j) = r \<Longrightarrow> dec_fields upd_type (omit False ''type'' j @ m) x = r"
  by (cases r) (simp add: omit_def upd_type_def json_dec dec_iface_def)

lemma type_skip:
  "\<not> key_eq k ''type'' \<Longrightarrow> dec_fields upd_type (omit b k j @ m) x = dec_fields upd_type m x"
  by (simp add: dec_fields_skip upd_type_def)

lemma content_type:
  "wf_content c \<Longrightarrow> dec_struct upd_type (MarshalContent c) JNull =
     (JStr (tag_of c), Fine)"
  by (cases c)
     (simp_all add: dec_struct_def enc_TextContent_def enc_ImageContent_def enc_AudioContent_def enc_ResourceLink_def
       enc_EmbeddedResource_def enc_ToolUseContent_def type_skip type_member [OF refl] json_dec enc_string_def del: append_Nil2)

lemma Text_round_trip: "wf_content (Text c) \<Longrightarrow> dec_struct upd_TextContent (enc_TextContent c) zero_TextContent = (c, Fine)"
  unfolding enc_TextContent_def dec_struct_def json.case zero_TextContent_def
  by - ((rule dec_member, (simp add: json_dec)[1], (simp; fail)[1])+, simp)

lemma Image_round_trip: "wf_content (Image c) \<Longrightarrow> dec_struct upd_ImageContent (enc_ImageContent c) zero_ImageContent = (c, Fine)"
  unfolding enc_ImageContent_def dec_struct_def json.case zero_ImageContent_def
  by - ((rule dec_member, (simp add: json_dec)[1], (simp; fail)[1])+, simp)

lemma Audio_round_trip: "wf_content (Audio c) \<Longrightarrow> dec_struct upd_AudioContent (enc_AudioContent c) zero_AudioContent = (c, Fine)"
  unfolding enc_AudioContent_def dec_struct_def json.case zero_AudioContent_def
  by - ((rule dec_member, (simp add: json_dec)[1], (simp; fail)[1])+, simp)

lemma Link_round_trip: "wf_content (Link c) \<Longrightarrow> dec_struct upd_ResourceLink (enc_ResourceLink c) zero_ResourceLink = (c, Fine)"
  unfolding enc_ResourceLink_def dec_struct_def json.case zero_ResourceLink_def
  by - ((rule dec_member, (simp add: json_dec)[1], (simp; fail)[1])+, simp)

lemma ToolUse_round_trip:
  "wf_content (ToolUse c) \<Longrightarrow> dec_struct upd_ToolUseContent (enc_ToolUseContent c) zero_ToolUseContent = (c, Fine)"
  unfolding enc_ToolUseContent_def dec_struct_def json.case zero_ToolUseContent_def
  by - ((rule dec_member, (simp add: json_dec)[1], (simp; fail)[1])+, simp)

lemma Embedded_round_trip:
  assumes "wf_content (Embedded c)"
  shows "EmbeddedResource_UnmarshalJSON (enc_EmbeddedResource c) = Inr c"
proof -
  have "dec_struct upd_embeddedResourceJSON (enc_EmbeddedResource c)
      \<lparr>erj_Annotations = None, erj_Meta = None, erj_Type = [], erj_Resource = None\<rparr>
    = (\<lparr>erj_Annotations = emb_Annotations c, erj_Meta = emb_Meta c, erj_Type = emb_Type c,
         erj_Resource = Some (enc_ResourceContents (emb_Resource c))\<rparr>, Fine)"
    using assms unfolding enc_EmbeddedResource_def dec_struct_def json.case
    by - ((rule dec_member, (simp add: json_dec dec_raw_def)[1], (simp; fail)[1])+, simp)
  note raw = this
  show ?thesis
  proof (cases "emb_Resource c")
    case None
    with raw show ?thesis by (simp add: EmbeddedResource_UnmarshalJSON_def decoded_def enc_ResourceContents_def)
  next
    case (Some r)
    have "unmarshalResourceContents (enc_ResourceContents (Some r)) = Inr r"
      using assms Some by (simp add: ResourceContents_round_trip)
    moreover have "enc_ResourceContents (Some r) \<noteq> JNull" by simp
    ultimately show ?thesis
      using raw Some by (cases "enc_ResourceContents (Some r)") (simp_all add: EmbeddedResource_UnmarshalJSON_def decoded_def)
  qed
qed

lemma raw_tool_result_enc:
  assumes "wf_content (ToolResultContent a m t i cs e)"
  shows "raw_tool_result (MarshalContent (ToolResultContent a m t i cs e)) =
    (\<lparr>trj_Annotations = a, trj_Meta = m, trj_Type = t, trj_ToolUseID = i,
      trj_Content = map_option (map MarshalContent) cs, trj_IsError = e\<rparr>, Fine)"
proof -
  have c: "dec_slice JNull (\<lambda>j x. (j, Fine)) (enc_slice MarshalContent cs) x = (map_option (map MarshalContent) cs, Fine)" for x
  proof (cases cs)
    case (Some ys)
    have "dec_elems JNull (\<lambda>j x. (j, Fine)) js = (js, Fine)" for js
      by (induction js) simp_all
    then show ?thesis by (simp add: Some dec_slice_def enc_slice_def)
  qed (simp add: dec_slice_def enc_slice_def)
  show ?thesis
    using assms unfolding MarshalContent.simps raw_tool_result_def dec_struct_def json.case zero_toolResultContentJSON_def
    by - (cases e; ((rule dec_member, (simp add: json_dec c)[1], (simp; fail)[1])+, simp))
qed

lemma traverse_map: "list_all (\<lambda>y. f (g y) = Inr y) ys \<Longrightarrow> traverse f (map g ys) = Inr ys"
  by (induction ys) simp_all

text \<open>
  C27. Contents: every content element whose type member fits its Go type, tool results with their nested elements
  included, is given back by the polymorphic decoder from its encoding.
\<close>

theorem content_round_trip: "wf_content c \<Longrightarrow> UnmarshalContent (Some (MarshalContent c)) = Inr c"
proof -
  assume "wf_content c"
  then have "unmarshal_content (MarshalContent c) = Inr c"
  proof (induction c rule: MarshalContent.induct)
    case (7 a m t i cs e)
    let ?c = "ToolResultContent a m t i cs e"
    have items: "raw_items (MarshalContent ?c) = (case cs of None \<Rightarrow> [] | Some ys \<Rightarrow> map MarshalContent ys)"
      by (simp only: raw_items_def raw_tool_result_enc [OF 7(2)] fst_conv toolResultContentJSON.simps) (cases cs; simp)
    have "traverse unmarshal_content (raw_items (MarshalContent ?c)) = Inr (case cs of None \<Rightarrow> [] | Some ys \<Rightarrow> ys)"
      unfolding items using 7 by (cases cs) (simp_all add: traverse_map list_all_iff)
    moreover have "cs \<noteq> Some []" using 7(2) by simp
    ultimately show ?case
      unfolding unmarshal_content.simps [of "MarshalContent ?c"] content_type [OF 7(2)] raw_tool_result_enc [OF 7(2)]
      using items by (cases cs) (simp_all add: decoded_def del: MarshalContent.simps)
  qed (subst unmarshal_content.simps, subst content_type, assumption,
       simp add: Text_round_trip Image_round_trip Audio_round_trip Link_round_trip ToolUse_round_trip Embedded_round_trip decoded_def
         del: wf_content.simps)+
  then show ?thesis by (simp add: UnmarshalContent_def)
qed

text \<open>Two decoders run over the same members: a relation kept by every member holds at the end, if the second one met no error.\<close>

lemma dec_fields_sim:
  assumes "R x y" "snd (dec_fields upd' m y) = Fine"
    and "\<And>k j x y. R x y \<Longrightarrow> snd (upd' k j y) = Fine \<Longrightarrow> R (fst (upd k j x)) (fst (upd' k j y)) \<and> snd (upd k j x) \<noteq> Abort"
  shows "R (fst (dec_fields upd m x)) (fst (dec_fields upd' m y))"
  using assms(1,2)
proof (induction m arbitrary: x y)
  case (Cons kj m)
  obtain k j where kj: "kj = (k, j)" by fastforce
  obtain x1 s y1 t where u: "upd k j x = (x1, s)" "upd' k j y = (y1, t)" by fastforce
  have t: "t = Fine" "snd (dec_fields upd' m y1) = Fine"
    using Cons.prems(2) by (auto simp: kj u split: dstat.splits prod.splits if_splits)
  then have "R x1 y1" "s \<noteq> Abort"
    using assms(3) [OF Cons.prems(1), of k j] u by auto
  with Cons.IH [of x1 y1] t(2) show ?case
    by (cases s) (auto simp: kj u t(1) split: prod.splits)
qed simp

lemma type_agrees:
  assumes "dec_struct upd_type j JNull = (JStr t, Fine)" "dec_struct upd j z = (c, Fine)"
    and "\<And>k v y. key_eq k ''type'' \<Longrightarrow> upd k v y = into (dec_string v (f y)) (g y)" "\<And>y v. f (g y v) = v"
    and "\<And>k v y. \<not> key_eq k ''type'' \<Longrightarrow> f (fst (upd k v y)) = f y"
  shows "f c = t"
proof (cases j)
  case (JObj m)
  define R where "R x y \<longleftrightarrow> (\<forall>t. x = JStr t \<longrightarrow> f y = t)" for x y
  have "R (fst (dec_fields upd_type m JNull)) (fst (dec_fields upd m z))"
  proof (rule dec_fields_sim)
    show "R JNull z" by (simp add: R_def)
    show "snd (dec_fields upd m z) = Fine" using assms(2) JObj by (simp add: dec_struct_def)
    fix k v x y
    assume "R x y" "snd (upd k v y) = Fine"
    then show "R (fst (upd_type k v x)) (fst (upd k v y)) \<and> snd (upd_type k v x) \<noteq> Abort"
      using assms(3) [of k v y] assms(4,5)
      by (cases "key_eq k ''type''"; cases v) (auto simp: upd_type_def dec_iface_def R_def f64_def split: prod.splits)
  qed
  with assms(1,2) JObj show ?thesis by (simp add: dec_struct_def R_def)
qed (use assms in \<open>auto simp: dec_struct_def\<close>)

lemma TextContent_type:
  "dec_struct upd_type j JNull = (JStr t, Fine) \<Longrightarrow> dec_struct upd_TextContent j z = (c, Fine) \<Longrightarrow> txt_Type c = t"
  by (rule type_agrees [where upd = upd_TextContent and f = txt_Type and g = "\<lambda>y v. y\<lparr>txt_Type := v\<rparr>"], assumption, assumption)
     (auto simp: upd_TextContent_def json_dec into_def)

lemma ImageContent_type:
  "dec_struct upd_type j JNull = (JStr t, Fine) \<Longrightarrow> dec_struct upd_ImageContent j z = (c, Fine) \<Longrightarrow> img_Type c = t"
  by (rule type_agrees [where upd = upd_ImageContent and f = img_Type and g = "\<lambda>y v. y\<lparr>img_Type := v\<rparr>"], assumption, assumption)
     (auto simp: upd_ImageContent_def json_dec into_def)

lemma AudioContent_type:
  "dec_struct upd_type j JNull = (JStr t, Fine) \<Longrightarrow> dec_struct upd_AudioContent j z = (c, Fine) \<Longrightarrow> aud_Type c = t"
  by (rule type_agrees [where upd = upd_AudioContent and f = aud_Type and g = "\<lambda>y v. y\<lparr>aud_Type := v\<rparr>"], assumption, assumption)
     (auto simp: upd_AudioContent_def json_dec into_def)

lemma ResourceLink_type:
  "dec_struct upd_type j JNull = (JStr t, Fine) \<Longrightarrow> dec_struct upd_ResourceLink j z = (c, Fine) \<Longrightarrow> lnk_Type c = t"
  by (rule type_agrees [where upd = upd_ResourceLink and f = lnk_Type and g = "\<lambda>y v. y\<lparr>lnk_Type := v\<rparr>"], assumption, assumption)
     (auto simp: upd_ResourceLink_def json_dec into_def)

lemma ToolUseContent_type:
  "dec_struct upd_type j JNull = (JStr t, Fine) \<Longrightarrow> dec_struct upd_ToolUseContent j z = (c, Fine) \<Longrightarrow> use_Type c = t"
  by (rule type_agrees [where upd = upd_ToolUseContent and f = use_Type and g = "\<lambda>y v. y\<lparr>use_Type := v\<rparr>"], assumption, assumption)
     (auto simp: upd_ToolUseContent_def json_dec into_def)

lemma embeddedResourceJSON_type:
  "dec_struct upd_type j JNull = (JStr t, Fine) \<Longrightarrow> dec_struct upd_embeddedResourceJSON j z = (c, Fine) \<Longrightarrow> erj_Type c = t"
  by (rule type_agrees [where upd = upd_embeddedResourceJSON and f = erj_Type and g = "\<lambda>y v. y\<lparr>erj_Type := v\<rparr>"], assumption, assumption)
     (auto simp: upd_embeddedResourceJSON_def json_dec into_def)

lemma toolResultContentJSON_type:
  "dec_struct upd_type j JNull = (JStr t, Fine) \<Longrightarrow> dec_struct upd_toolResultContentJSON j z = (c, Fine) \<Longrightarrow> trj_Type c = t"
  by (rule type_agrees [where upd = upd_toolResultContentJSON and f = trj_Type and g = "\<lambda>y v. y\<lparr>trj_Type := v\<rparr>"], assumption, assumption)
     (auto simp: upd_toolResultContentJSON_def json_dec into_def)

lemma traverse_set: "traverse f xs = Inr ys \<Longrightarrow> y \<in> set ys \<Longrightarrow> \<exists>x\<in>set xs. f x = Inr y"
  by (induction xs arbitrary: ys) (auto simp: bindE_eq_Inr)

lemma decoded_Inr: "decoded r = Inr x \<longleftrightarrow> r = (x, Fine)"
  by (cases r) (auto simp: decoded_def)

lemma map_sum_Inr: "map_sum f g r = Inr y \<longleftrightarrow> (\<exists>x. r = Inr x \<and> y = g x)"
  by (cases r) auto

lemma Embedded_type:
  assumes "dec_struct upd_type j JNull = (JStr t, Fine)" "EmbeddedResource_UnmarshalJSON j = Inr c"
  shows "emb_Type c = t"
proof -
  let ?z = "\<lparr>erj_Annotations = None, erj_Meta = None, erj_Type = [], erj_Resource = None\<rparr>"
  obtain raw where raw: "dec_struct upd_embeddedResourceJSON j ?z = (raw, Fine)"
    using assms(2) by (auto simp: EmbeddedResource_UnmarshalJSON_def bindE_eq_Inr decoded_Inr)
  have "emb_Type c = erj_Type raw"
    using assms(2) unfolding EmbeddedResource_UnmarshalJSON_def raw
    by (cases "erj_Resource raw"; cases "the (erj_Resource raw)") (auto simp: decoded_def map_sum_Inr)
  with embeddedResourceJSON_type [OF assms(1) raw] show ?thesis by simp
qed

lemma unmarshal_content_typed: "unmarshal_content j = Inr c \<Longrightarrow> well_typed c"
proof (induction j arbitrary: c rule: measure_induct_rule [where f = size])
  case (less j)
  obtain t where t: "dec_struct upd_type j JNull = (JStr t, Fine)"
    using less(2) by (subst (asm) unmarshal_content.simps) (auto split: prod.splits json.splits dstat.splits)
  note c = less(2) [unfolded unmarshal_content.simps [of j] t prod.case json.case dstat.case]
  consider "tag_of c \<noteq> ''tool_result''" "type_of c = tag_of c" | raw cs where "t = ''tool_result''"
      "raw_tool_result j = (raw, Fine)" "traverse unmarshal_content (raw_items j) = Inr cs"
      "c = ToolResultContent (trj_Annotations raw) (trj_Meta raw) (trj_Type raw) (trj_ToolUseID raw)
             (if raw_items j = [] then None else Some cs) (trj_IsError raw)"
    using c TextContent_type [OF t] ImageContent_type [OF t] AudioContent_type [OF t] ResourceLink_type [OF t] ToolUseContent_type [OF t]
      Embedded_type [OF t]
    by (auto simp: map_sum_Inr decoded_Inr bindE_eq_Inr split: if_splits)
  then show ?case
  proof cases
    case 1
    then show ?thesis by (intro well_typed.intros [of c]) auto
  next
    case 2
    then have "trj_Type raw = ''tool_result''"
      using toolResultContentJSON_type [OF t] by (simp add: raw_tool_result_def)
    moreover have "well_typed d" if d: "d \<in> set cs" for d
    proof -
      obtain r where "r \<in> set (raw_items j)" "unmarshal_content r = Inr d"
        using traverse_set [OF 2(3) d] by blast
      then show ?thesis by (intro less(1) [OF raw_items_smaller])
    qed
    ultimately show ?thesis
      using 2(4) by (intro well_typed.intros [of c]) (auto split: if_splits)
  qed
qed

text \<open>
  C26. Typing of contents: whatever the document, a decoded content element carries in its \<open>Type\<close> field the type of its Go value, at
  every level of nesting; any other document is an error.
\<close>

theorem UnmarshalContent_typed: "UnmarshalContent data = Inr c \<Longrightarrow> well_typed c"
  by (auto simp: UnmarshalContent_def unmarshal_content_typed split: option.splits)

text \<open>A tool result with the image it produced, and a resource with its metadata.\<close>

definition sample_content :: Content where
  "sample_content = ToolResultContent None None ''tool_result'' ''id-1''
     (Some [Text \<lparr>txt_Annotations = Some \<lparr>an_Audience = Some [''user''], an_Priority = Some (1, -1), an_LastModified = []\<rparr>,
                  txt_Meta = None, txt_Type = ''text'', txt_Text = ''done''\<rparr>,
            Embedded \<lparr>emb_Annotations = None,
                      emb_Meta = Some \<lparr>mt_ProgressToken = JFloat 7 0, mt_AdditionalFields = Some [(''k'', JBool True)]\<rparr>,
                      emb_Type = ''resource'',
                      emb_Resource = Some (BlobResource \<lparr>brc_Meta = None, brc_URI = ''file:///a'', brc_MIMEType = [], brc_Blob = ''AA==''\<rparr>)\<rparr>]) True"

lemma sample_content_wf: "wf_content sample_content"
  by (simp add: sample_content_def wf_Annotations_def wf_Meta_def wf_ResourceContents_def canon_float_def valid_utf8_ascii)

theorem content_round_trip_witness: "UnmarshalContent (Some (MarshalContent sample_content)) = Inr sample_content"
  by (rule content_round_trip [OF sample_content_wf])

text \<open>A tool result with an empty content list is written back with the content \<open>null\<close>.\<close>

lemma empty_tool_result_becomes_null:
  "unmarshal_content (JObj [(''type'', JStr ''tool_result''), (''toolUseId'', JStr ''1''), (''content'', JArr [])])
     = Inr (ToolResultContent None None ''tool_result'' ''1'' None False)"
  "MarshalContent (ToolResultContent None None ''tool_result'' ''1'' None False)
     = JObj [(''type'', JStr ''tool_result''), (''toolUseId'', JStr ''1''), (''content'', JNull)]"
  subgoal
    by (subst unmarshal_content.simps)
       (simp add: dec_struct_def upd_type_def json_dec dec_iface_def raw_tool_result_def raw_items_def zero_toolResultContentJSON_def
         dec_slice_def decoded_def)
  subgoal
    by (simp add: omit_def enc_string_def enc_slice_def valid_utf8_ascii)
  done

theorem UnmarshalContent_typed_witness:
  "UnmarshalContent (Some (JObj [(''TYPE'', JStr ''text''), (''text'', JStr ''hi'')])) = Inr (Text \<lparr>txt_Annotations = None, txt_Meta = None, txt_Type = ''text'', txt_Text = ''hi''\<rparr>)
   \<and> well_typed (Text \<lparr>txt_Annotations = None, txt_Meta = None, txt_Type = ''text'', txt_Text = ''hi''\<rparr>)"
proof -
  have "UnmarshalContent (Some (JObj [(''TYPE'', JStr ''text''), (''text'', JStr ''hi'')])) = Inr (Text \<lparr>txt_Annotations = None, txt_Meta = None, txt_Type = ''text'', txt_Text = ''hi''\<rparr>)"
    by (simp add: UnmarshalContent_def, subst unmarshal_content.simps)
       (simp add: dec_struct_def upd_type_def json_dec ascii_fold_TYPE dec_iface_def zero_TextContent_def decoded_def)
  with UnmarshalContent_typed [OF this] show ?thesis by blast
qed

section \<open>Constructors and casts\<close>

definition NewTextContent :: "string \<Rightarrow> TextContent" where
  "NewTextContent text = zero_TextContent\<lparr>txt_Type := ''text'', txt_Text := text\<rparr>"

definition NewImageContent :: "string \<Rightarrow> string \<Rightarrow> ImageContent" where
  "NewImageContent data mimeType = zero_ImageContent\<lparr>img_Type := ''image'', img_Data := data, img_MIMEType := mimeType\<rparr>"

definition NewAudioContent :: "string \<Rightarrow> string \<Rightarrow> AudioContent" where
  "NewAudioContent data mimeType = zero_AudioContent\<lparr>aud_Type := ''audio'', aud_Data := data, aud_MIMEType := mimeType\<rparr>"

definition NewResourceLink :: "string \<Rightarrow> string \<Rightarrow> string \<Rightarrow> string \<Rightarrow> ResourceLink" where
  "NewResourceLink uri name description mimeType =
     zero_ResourceLink\<lparr>lnk_Type := ''resource_link'', lnk_URI := uri, lnk_Name := name, lnk_Description := description,
       lnk_MIMEType := mimeType\<rparr>"

definition NewEmbeddedResource :: "ResourceContents option \<Rightarrow> EmbeddedResource" where
  "NewEmbeddedResource resource = \<lparr>emb_Annotations = None, emb_Meta = None, emb_Type = ''resource'', emb_Resource = resource\<rparr>"

text \<open>A value of type \<open>any\<close> that may hold one of the types of the package.\<close>

datatype anyval = AContent Content | AResource ResourceContents | AJson json | AOther nat

definition AsTextContent :: "anyval \<Rightarrow> TextContent option" where
  "AsTextContent v = (case v of AContent (Text c) \<Rightarrow> Some c | _ \<Rightarrow> None)"

definition AsImageContent :: "anyval \<Rightarrow> ImageContent option" where
  "AsImageContent v = (case v of AContent (Image c) \<Rightarrow> Some c | _ \<Rightarrow> None)"

definition AsAudioContent :: "anyval \<Rightarrow> AudioContent option" where
  "AsAudioContent v = (case v of AContent (Audio c) \<Rightarrow> Some c | _ \<Rightarrow> None)"

definition AsEmbeddedResource :: "anyval \<Rightarrow> EmbeddedResource option" where
  "AsEmbeddedResource v = (case v of AContent (Embedded c) \<Rightarrow> Some c | _ \<Rightarrow> None)"

definition AsToolUseContent :: "anyval \<Rightarrow> ToolUseContent option" where
  "AsToolUseContent v = (case v of AContent (ToolUse c) \<Rightarrow> Some c | _ \<Rightarrow> None)"

definition AsToolResultContent :: "anyval \<Rightarrow> Content option" where
  "AsToolResultContent v = (case v of AContent (ToolResultContent a m t i cs e) \<Rightarrow> Some (ToolResultContent a m t i cs e) | _ \<Rightarrow> None)"

definition AsTextResourceContents :: "anyval \<Rightarrow> TextResourceContents option" where
  "AsTextResourceContents v = (case v of AResource (TextResource r) \<Rightarrow> Some r | _ \<Rightarrow> None)"

definition AsBlobResourceContents :: "anyval \<Rightarrow> BlobResourceContents option" where
  "AsBlobResourceContents v = (case v of AResource (BlobResource r) \<Rightarrow> Some r | _ \<Rightarrow> None)"

text \<open>\<open>sprint\<close> is \<open>fmt.Sprintf("%v", content)\<close>.\<close>

definition GetTextFromContent :: "(anyval \<Rightarrow> string) \<Rightarrow> anyval \<Rightarrow> string" where
  "GetTextFromContent sprint content =
     (case content of
        AContent (Text c) \<Rightarrow> txt_Text c
      | AJson (JObj c) \<Rightarrow>
          if map_of c ''type'' = Some (JStr ''text'') then (case map_of c ''text'' of Some (JStr text) \<Rightarrow> text | _ \<Rightarrow> sprint content)
          else sprint content
      | AJson (JStr s) \<Rightarrow> s
      | _ \<Rightarrow> sprint content)"

text \<open>The text of a text element is found in the typed value and in its generic decoded form alike.\<close>

lemma GetTextFromContent_decoded:
  assumes "wf_content (Text c)"
  shows "GetTextFromContent sprint (AJson (dec_any (MarshalContent (Text c)))) = GetTextFromContent sprint (AContent (Text c))"
proof -
  define m where "m = omit (txt_Annotations c = None) ''annotations'' (enc_ptr enc_Annotations (txt_Annotations c)) @
      omit (txt_Meta c = None) ''_meta'' (enc_ptr Meta_MarshalJSON (txt_Meta c)) @ [(''type'', enc_string (txt_Type c)), (''text'', enc_string (txt_Text c))]"
  have "MarshalContent (Text c) = JObj m"
    by (simp add: m_def enc_TextContent_def omit_def)
  moreover have "map_of (rev (map (\<lambda>(k, v). (k, dec_any v)) m)) ''type'' = Some (JStr ''text'')"
      "map_of (rev (map (\<lambda>(k, v). (k, dec_any v)) m)) ''text'' = Some (JStr (txt_Text c))"
    using assms by (simp_all add: m_def enc_string_def)
  ultimately show ?thesis by (simp add: GetTextFromContent_def map_of_puts map_add_def)
qed

end
