(* ===== verification/Mcp_Tools.thy ===== *)
theory Mcp_Tools
  imports Mcp_Content
begin

text \<open>
  Tools of the MCP messages (\<open>mcpcompat/mcp/tools.go\<close>): tool schemas with the keywords they do not model, tool definitions, the
  builders of tools, call results, and the typed accessors of call arguments.
\<close>

section \<open>Schemas\<close>

record ToolArgumentsSchema =
  tas_Defs :: "(string \<times> json) list option"
  tas_Type :: string
  tas_Properties :: "(string \<times> json) list option"
  tas_Required :: "string list option"
  tas_AdditionalProperties :: json
  tas_Extra :: "(string \<times> json) list option"

definition zero_schema :: ToolArgumentsSchema where
  "zero_schema =
     \<lparr>tas_Defs = None, tas_Type = [], tas_Properties = None, tas_Required = None, tas_AdditionalProperties = JNull, tas_Extra = None\<rparr>"

lemma zero_schema_type [simp]: "tas_Type zero_schema = []"
  by (simp add: zero_schema_def)

definition schema_members :: "ToolArgumentsSchema \<Rightarrow> (string \<times> json) list" where
  "schema_members tas =
     (let isObjectSchema = (tas_Type tas = ''object'')
      in omit (tas_Type tas = []) ''type'' (enc_string (tas_Type tas)) @
         omit (tas_Defs tas = None) ''$defs'' (enc_map enc_any (tas_Defs tas)) @
         omit (tas_Properties tas = None \<and> \<not> isObjectSchema) ''properties''
           (if tas_Properties tas \<noteq> None then enc_map enc_any (tas_Properties tas) else JObj []) @
         omit (empty_slice (tas_Required tas) \<and> \<not> isObjectSchema) ''required''
           (if \<not> empty_slice (tas_Required tas) then enc_slice enc_string (tas_Required tas) else JArr []) @
         omit (tas_AdditionalProperties tas = JNull) ''additionalProperties'' (enc_any (tas_AdditionalProperties tas)) @ [])"

definition schema_MarshalJSON :: "ToolArgumentsSchema \<Rightarrow> json" where
  "schema_MarshalJSON tas =
     (let m = map_puts (case tas_Extra tas of None \<Rightarrow> [] | Some e \<Rightarrow> e) []
      in JObj (map (\<lambda>(k, v). (utf8_fix k, v)) (map_puts (schema_members tas) m)))"

text \<open>The auxiliary struct: the schema and the member \<open>definitions\<close>.\<close>

definition upd_schema :: "string \<Rightarrow> (ToolArgumentsSchema \<times> (string \<times> json) list option) decoder" where
  "upd_schema k j x =
     (if key_eq k ''definitions'' then into (dec_map JNull dec_iface j (snd x)) (\<lambda>v. (fst x, v))
      else if key_eq k ''$defs'' then into (dec_map JNull dec_iface j (tas_Defs (fst x))) (\<lambda>v. ((fst x)\<lparr>tas_Defs := v\<rparr>, snd x))
      else if key_eq k ''type'' then into (dec_string j (tas_Type (fst x))) (\<lambda>v. ((fst x)\<lparr>tas_Type := v\<rparr>, snd x))
      else if key_eq k ''properties'' then
        into (dec_map JNull dec_iface j (tas_Properties (fst x))) (\<lambda>v. ((fst x)\<lparr>tas_Properties := v\<rparr>, snd x))
      else if key_eq k ''required'' then
        into (dec_slice [] dec_string j (tas_Required (fst x))) (\<lambda>v. ((fst x)\<lparr>tas_Required := v\<rparr>, snd x))
      else if key_eq k ''additionalProperties'' then
        into (dec_iface j (tas_AdditionalProperties (fst x))) (\<lambda>v. ((fst x)\<lparr>tas_AdditionalProperties := v\<rparr>, snd x))
      else (x, Fine))"

abbreviation modeled :: "string list" where
  "modeled \<equiv> [''$defs'', ''definitions'', ''type'', ''properties'', ''required'', ''additionalProperties'']"

definition schema_UnmarshalJSON :: "ToolArgumentsSchema decoder" where
  "schema_UnmarshalJSON j tas =
     (case dec_struct upd_schema j (tas, None) of
        ((tas, definitions), Fine) \<Rightarrow>
          let tas = (if tas_Defs tas = None \<and> definitions \<noteq> None then tas\<lparr>tas_Defs := definitions\<rparr> else tas);
              extra = map_del modeled (case j of JObj m \<Rightarrow> map_puts m [] | _ \<Rightarrow> [])
          in (if extra \<noteq> [] then tas\<lparr>tas_Extra := Some extra\<rparr> else tas, Fine)
      | ((tas, _), _) \<Rightarrow> (tas, Abort))"

lemma schema_keys [json_dec]:
  "ascii_fold ''$defs'' = ''$defs''" "ascii_fold ''definitions'' = ''definitions''" "ascii_fold ''properties'' = ''properties''"
  "ascii_fold ''required'' = ''required''" "ascii_fold ''additionalProperties'' = ''additionalproperties''"
  by (code_simp)+

text \<open>The fields after decoding an object whose keys are not case variants of the modelled keywords.\<close>

definition plain_keys :: "(string \<times> 'a) list \<Rightarrow> bool" where
  "plain_keys m \<longleftrightarrow> distinct (map fst m) \<and> list_all (\<lambda>name. exact_key name m) modeled"

lemma schema_fields:
  assumes m: "plain_keys m" and u: "dec_fields upd_schema m (zero_schema, None) = ((s, defs), st)" "st \<noteq> Abort"
  shows "tas_Type s = (case map_of m ''type'' of None \<Rightarrow> [] | Some j \<Rightarrow> fst (dec_string j []))"
    "tas_Defs s = (case map_of m ''$defs'' of None \<Rightarrow> None | Some j \<Rightarrow> fst (dec_map JNull dec_iface j None))"
    "defs = (case map_of m ''definitions'' of None \<Rightarrow> None | Some j \<Rightarrow> fst (dec_map JNull dec_iface j None))"
    "tas_Properties s = (case map_of m ''properties'' of None \<Rightarrow> None | Some j \<Rightarrow> fst (dec_map JNull dec_iface j None))"
    "tas_Required s = (case map_of m ''required'' of None \<Rightarrow> None | Some j \<Rightarrow> fst (dec_slice [] dec_string j None))"
    "tas_AdditionalProperties s = (case map_of m ''additionalProperties'' of None \<Rightarrow> JNull | Some j \<Rightarrow> dec_any j)"
    "tas_Extra s = None"
proof -
  have d: "distinct (map fst m)" and e: "\<And>n. n \<in> set modeled \<Longrightarrow> exact_key n m"
    using m by (auto simp: plain_keys_def)
  have ok: "snd (dec_fields upd_schema m (zero_schema, None)) \<noteq> Abort" using u by simp
  have field: "f (fst (dec_fields upd_schema m (zero_schema, None))) = (case map_of m n of None \<Rightarrow> f (zero_schema, None) | Some j \<Rightarrow> fst (dd j (f (zero_schema, None))))"
    if "\<And>k j x. key_eq k n \<Longrightarrow> f (fst (upd_schema k j x)) = fst (dd j (f x))" "\<And>k j x. \<not> key_eq k n \<Longrightarrow> f (fst (upd_schema k j x)) = f x"
      "n \<in> set modeled" for n and f :: "ToolArgumentsSchema \<times> (string \<times> json) list option \<Rightarrow> 'f" and dd
    using that e [OF that(3)] d ok by (intro dec_fields_field) auto
  show "tas_Type s = (case map_of m ''type'' of None \<Rightarrow> [] | Some j \<Rightarrow> fst (dec_string j []))"
    using field [of "''type''" "tas_Type \<circ> fst" dec_string] u by (auto simp: upd_schema_def json_dec into_def zero_schema_def dec_iface_def split: option.splits)
  show "tas_Defs s = (case map_of m ''$defs'' of None \<Rightarrow> None | Some j \<Rightarrow> fst (dec_map JNull dec_iface j None))"
    using field [of "''$defs''" "tas_Defs \<circ> fst" "dec_map JNull dec_iface"] u by (auto simp: upd_schema_def json_dec into_def zero_schema_def dec_iface_def split: option.splits)
  show "defs = (case map_of m ''definitions'' of None \<Rightarrow> None | Some j \<Rightarrow> fst (dec_map JNull dec_iface j None))"
    using field [of "''definitions''" snd "dec_map JNull dec_iface"] u by (auto simp: upd_schema_def json_dec into_def zero_schema_def dec_iface_def split: option.splits)
  show "tas_Properties s = (case map_of m ''properties'' of None \<Rightarrow> None | Some j \<Rightarrow> fst (dec_map JNull dec_iface j None))"
    using field [of "''properties''" "tas_Properties \<circ> fst" "dec_map JNull dec_iface"] u by (auto simp: upd_schema_def json_dec into_def zero_schema_def dec_iface_def split: option.splits)
  show "tas_Required s = (case map_of m ''required'' of None \<Rightarrow> None | Some j \<Rightarrow> fst (dec_slice [] dec_string j None))"
    using field [of "''required''" "tas_Required \<circ> fst" "dec_slice [] dec_string"] u by (auto simp: upd_schema_def json_dec into_def zero_schema_def dec_iface_def split: option.splits)
  show "tas_AdditionalProperties s = (case map_of m ''additionalProperties'' of None \<Rightarrow> JNull | Some j \<Rightarrow> dec_any j)"
    using field [of "''additionalProperties''" "tas_AdditionalProperties \<circ> fst" dec_iface] u by (auto simp: upd_schema_def json_dec into_def zero_schema_def dec_iface_def split: option.splits)
  have "tas_Extra (fst (fst (dec_fields upd_schema m (zero_schema, None)))) = None"
    by (rule dec_fields_inv [where P = "\<lambda>x. tas_Extra (fst x) = None"]) (auto simp: zero_schema_def upd_schema_def into_def)
  then show "tas_Extra s = None" using u by simp
qed

lemma schema_members_keys: "fst ` set (schema_members s) \<subseteq> set modeled - {''definitions''}" "distinct (map fst (schema_members s))"
  by (auto simp: schema_members_def Let_def keys_omit omit_in distinct_omit)

lemma schema_members_lookup:
  "map_of (schema_members s) ''type'' = (if tas_Type s \<noteq> [] then Some (enc_string (tas_Type s)) else None)"
  "map_of (schema_members s) ''$defs'' = (if tas_Defs s \<noteq> None then Some (enc_map enc_any (tas_Defs s)) else None)"
  "map_of (schema_members s) ''properties'' =
     (if tas_Properties s \<noteq> None then Some (enc_map enc_any (tas_Properties s)) else if tas_Type s = ''object'' then Some (JObj []) else None)"
  "map_of (schema_members s) ''required'' =
     (if \<not> empty_slice (tas_Required s) then Some (enc_slice enc_string (tas_Required s))
      else if tas_Type s = ''object'' then Some (JArr []) else None)"
  "map_of (schema_members s) ''additionalProperties'' =
     (if tas_AdditionalProperties s \<noteq> JNull then Some (enc_any (tas_AdditionalProperties s)) else None)"
  "k \<notin> set modeled \<Longrightarrow> map_of (schema_members s) k = None" "map_of (schema_members s) ''definitions'' = None"
  by (simp_all add: schema_members_def Let_def map_of_omit map_of_omit_last del: map_of_append)

text \<open>The marshalled document: the modelled members over the preserved ones.\<close>

lemma schema_MarshalJSON_lookup:
  assumes "list_all valid_utf8 (map fst (case tas_Extra s of None \<Rightarrow> [] | Some e \<Rightarrow> e))"
  shows "\<exists>m'. schema_MarshalJSON s = JObj m' \<and> go_map m' \<and>
    map_of m' = map_of (rev (case tas_Extra s of None \<Rightarrow> [] | Some e \<Rightarrow> e)) ++ map_of (schema_members s)"
proof -
  define e where "e = (case tas_Extra s of None \<Rightarrow> [] | Some e \<Rightarrow> e)"
  let ?m = "map_puts (schema_members s) (map_puts e [])"
  have "valid_utf8 k" if "k \<in> fst ` set ?m" for k
    using that assms schema_members_keys(1) [of s] unfolding e_def [symmetric]
    by (auto simp: keys_map_puts list_all_iff valid_utf8_ascii subset_iff)
  then have "map (\<lambda>(k, v). (utf8_fix k, v)) ?m = ?m"
    by (intro map_of_fix_keys) (auto simp: list_all_iff)
  moreover have "map_of ?m = map_of (rev e) ++ map_of (schema_members s)"
    by (simp add: map_of_puts map_of_rev_distinct schema_members_keys(2))
  ultimately show ?thesis unfolding e_def [symmetric] by (auto simp: schema_MarshalJSON_def e_def)
qed

text \<open>A member that is present and not null.\<close>

definition present :: "(string \<times> json) list \<Rightarrow> string \<Rightarrow> json option" where
  "present m k = (case map_of m k of Some JNull \<Rightarrow> None | r \<Rightarrow> r)"

lemma schema_UnmarshalJSON_object:
  assumes "schema_UnmarshalJSON (JObj m) zero_schema = (s, Fine)" "plain_keys m"
  shows "\<exists>s0 defs. dec_fields upd_schema m (zero_schema, None) = ((s0, defs), Fine) \<and>
    tas_Type s = tas_Type s0 \<and> tas_Properties s = tas_Properties s0 \<and> tas_Required s = tas_Required s0 \<and>
    tas_AdditionalProperties s = tas_AdditionalProperties s0 \<and>
    tas_Defs s = (if tas_Defs s0 = None then defs else tas_Defs s0) \<and>
    (case tas_Extra s of None \<Rightarrow> [] | Some e \<Rightarrow> e) = map_del modeled (map_puts m [])"
proof -
  obtain s0 defs st where d: "dec_fields upd_schema m (zero_schema, None) = ((s0, defs), st)" by (metis prod.exhaust)
  have st: "st = Fine"
    using assms(1) by (cases st) (simp_all add: schema_UnmarshalJSON_def dec_struct_def d)
  have "tas_Extra s0 = None" using schema_fields(7) [OF assms(2) d] st by simp
  with assms(1) st d show ?thesis
    by (auto simp: schema_UnmarshalJSON_def dec_struct_def Let_def)
qed

lemma schema_kinds:
  assumes "snd (dec_fields upd_schema m x) = Fine"
  shows "map_of m ''type'' = Some j \<Longrightarrow> j = JNull \<or> (\<exists>t. j = JStr t)"
    "name \<in> {''$defs'', ''definitions'', ''properties''} \<Longrightarrow> map_of m name = Some j \<Longrightarrow> j = JNull \<or> (\<exists>o'. j = JObj o')"
    "map_of m ''required'' = Some j \<Longrightarrow> j = JNull \<or> (\<exists>js. j = JArr js \<and> (\<forall>i\<in>set js. i = JNull \<or> (\<exists>s. i = JStr s)))"
proof -
  note K = dec_fields_member_fine [OF assms]
  show "j = JNull \<or> (\<exists>t. j = JStr t)" if "map_of m ''type'' = Some j"
    using K [OF that] by (auto simp: upd_schema_def json_dec into_def dec_string_fine)
  show "j = JNull \<or> (\<exists>o'. j = JObj o')" if "name \<in> {''$defs'', ''definitions'', ''properties''}" "map_of m name = Some j"
    using K [OF that(2)] that(1) by (auto simp: upd_schema_def json_dec into_def dec_map_any_fine)
  show "j = JNull \<or> (\<exists>js. j = JArr js \<and> (\<forall>i\<in>set js. i = JNull \<or> (\<exists>s. i = JStr s)))" if "map_of m ''required'' = Some j"
    using K [OF that] by (auto simp: upd_schema_def json_dec into_def dec_strings_fine)
qed

lemma dec_map_present:
  assumes "\<And>j. map_of m name = Some j \<Longrightarrow> j = JNull \<or> (\<exists>o'. j = JObj o')"
    and "r = (case map_of m name of None \<Rightarrow> None | Some j \<Rightarrow> fst (dec_map JNull dec_iface j None))"
  shows "r = None \<longleftrightarrow> present m name = None" "r \<noteq> None \<Longrightarrow> Some (enc_map enc_any r) = map_option norm_json (present m name)"
  using assms by (cases "map_of m name"; force simp: present_def dec_map_def dec_any_fields enc_map_def norm_json_def)+

lemma required_present:
  assumes "\<And>j. map_of m ''required'' = Some j \<Longrightarrow> j = JNull \<or> (\<exists>js. j = JArr js \<and> (\<forall>i\<in>set js. i = JNull \<or> (\<exists>s. i = JStr s)))"
    and "r = (case map_of m ''required'' of None \<Rightarrow> None | Some j \<Rightarrow> fst (dec_slice [] dec_string j None))"
    and "valid_doc (JObj m)"
  shows "(if \<not> empty_slice r then Some (enc_slice enc_string r) else x) =
    (case present m ''required'' of
       Some (JArr (r # rs)) \<Rightarrow> Some (JArr (map (\<lambda>i. case i of JStr n \<Rightarrow> JStr n | _ \<Rightarrow> JStr []) (r # rs)))
     | _ \<Rightarrow> x)"
proof (cases "present m ''required''")
  case (Some j)
  then have j: "map_of m ''required'' = Some j" "j \<noteq> JNull"
    by (auto simp: present_def split: option.splits json.splits)
  then obtain js where js: "j = JArr js" "\<forall>i\<in>set js. i = JNull \<or> (\<exists>s. i = JStr s)"
    using assms(1) by blast
  have fine: "snd (dec_elems [] dec_string js) = Fine"
    using dec_strings_fine [of "[]" "JArr js" None] js(2) by (simp add: dec_slice_def into_def)
  have r: "r = Some (map (\<lambda>i. case i of JStr s \<Rightarrow> s | _ \<Rightarrow> []) js)"
    using assms(2) j js dec_strings_value [OF fine] by (simp add: dec_slice_def into_def)
  have "valid_doc (JArr js)"
    using assms(3) map_of_SomeD [OF j(1)] js by (auto simp: list_all_iff)
  then have "enc_string (case i of JStr s \<Rightarrow> s | _ \<Rightarrow> []) = (case i of JStr n \<Rightarrow> JStr n | _ \<Rightarrow> JStr [])" if "i \<in> set js" for i
    using that js(2) by (cases i) (auto simp: enc_string_def list_all_iff)
  then show ?thesis
    by (cases js) (auto simp: r Some js enc_slice_def)
next
  case None
  then have "r = None"
    using assms(1,2) by (auto simp: present_def dec_slice_def split: option.splits json.splits)
  with None show ?thesis by simp
qed

text \<open>
  C28. Schema keywords survive: if a schema document whose keys are not case variants of the modelled keywords is decoded and encoded again,
  every keyword outside the modelled ones is there with its exact value, and nothing else is; \<open>definitions\<close> has become \<open>$defs\<close>; the modelled
  keywords keep their value as decoding into \<open>any\<close> represents it, and an object schema gets explicit \<open>properties\<close> and \<open>required\<close>.
\<close>

theorem schema_keywords_preserved:
  assumes m: "plain_keys m" "valid_doc (JObj m)" and s: "schema_UnmarshalJSON (JObj m) zero_schema = (s, Fine)"
  shows "\<exists>m'. schema_MarshalJSON s = JObj m' \<and>
    (\<forall>k. k \<notin> set modeled \<longrightarrow> map_of m' k = map_of m k) \<and>
    map_of m' ''definitions'' = None \<and>
    map_of m' ''$defs'' = map_option norm_json (case present m ''$defs'' of None \<Rightarrow> present m ''definitions'' | d \<Rightarrow> d) \<and>
    map_of m' ''type'' = (if present m ''type'' = Some (JStr []) then None else present m ''type'') \<and>
    map_of m' ''additionalProperties'' = map_option norm_json (present m ''additionalProperties'') \<and>
    map_of m' ''properties'' = (case present m ''properties'' of
        None \<Rightarrow> if present m ''type'' = Some (JStr ''object'') then Some (JObj []) else None
      | Some p \<Rightarrow> Some (norm_json p)) \<and>
    map_of m' ''required'' = (case present m ''required'' of
        Some (JArr (r # rs)) \<Rightarrow> Some (JArr (map (\<lambda>i. case i of JStr n \<Rightarrow> JStr n | _ \<Rightarrow> JStr []) (r # rs)))
      | _ \<Rightarrow> if present m ''type'' = Some (JStr ''object'') then Some (JArr []) else None)"
proof -
  obtain s0 defs where d: "dec_fields upd_schema m (zero_schema, None) = ((s0, defs), Fine)"
    and f: "tas_Type s = tas_Type s0" "tas_Properties s = tas_Properties s0" "tas_Required s = tas_Required s0"
      "tas_AdditionalProperties s = tas_AdditionalProperties s0" "tas_Defs s = (if tas_Defs s0 = None then defs else tas_Defs s0)"
    and e: "(case tas_Extra s of None \<Rightarrow> [] | Some e \<Rightarrow> e) = map_del modeled (map_puts m [])"
    using schema_UnmarshalJSON_object [OF s m(1)] by blast
  have dist: "distinct (map fst m)" using m by (simp add: plain_keys_def)
  have fine: "snd (dec_fields upd_schema m (zero_schema, None)) = Fine" using d by simp
  note F = schema_fields [OF m(1) d dstat.distinct(3)]
  note K = schema_kinds [OF fine]
  have obj: "map_of m n = Some j \<Longrightarrow> j = JNull \<or> (\<exists>o'. j = JObj o')" if "n \<in> {''$defs'', ''definitions'', ''properties''}" for n j
    using K(2) [OF that] .
  note D = dec_map_present [OF obj [of "''$defs''", OF insertI1] F(2)]
  note E = dec_map_present [OF obj [of "''definitions''", OF insertI2, OF insertI1] F(3)]
  note P = dec_map_present [OF obj [of "''properties''", OF insertI2, OF insertI2, OF insertI1] F(4)]
  have valid: "map_of m k = Some j \<Longrightarrow> valid_utf8 k \<and> valid_doc j" for k j
    using m(2) by (auto simp: list_all_iff dest: map_of_SomeD)
  have extra: "map_of (map_del modeled (map_puts m [])) = map_of m |` (- set modeled)"
    by (simp add: map_of_del map_of_puts map_of_rev_distinct dist)
  have "fst ` set (map_del modeled (map_puts m [])) \<subseteq> fst ` set m"
    using keys_map_puts [of m "[]"] by (auto simp: map_del_def)
  moreover have "\<forall>k\<in>fst ` set m. valid_utf8 k"
    using m(2) by (auto simp: list_all_iff)
  ultimately have "list_all valid_utf8 (map fst (map_del modeled (map_puts m [])))"
    by (auto simp only: list_all_iff set_map)
  from schema_MarshalJSON_lookup [of s, unfolded e, OF this] obtain m' where m': "schema_MarshalJSON s = JObj m'"
      "map_of m' = map_of (rev (map_del modeled (map_puts m []))) ++ map_of (schema_members s)" by blast
  have look: "map_of m' k = (case map_of (schema_members s) k of None \<Rightarrow> (map_of m |` (- set modeled)) k | Some v \<Rightarrow> Some v)" for k
    by (simp add: m'(2) map_add_def map_of_rev_distinct go_map_distinct extra split: option.split)
  have type: "tas_Type s = (case present m ''type'' of Some (JStr t) \<Rightarrow> t | _ \<Rightarrow> [])"
    "present m ''type'' \<noteq> None \<Longrightarrow> present m ''type'' = Some (enc_string (tas_Type s))"
    using F(1) K(1) valid [of "''type''"] by (auto simp: f present_def enc_string_def split: option.splits json.splits)
  have object: "tas_Type s = ''object'' \<longleftrightarrow> present m ''type'' = Some (JStr ''object'')"
    using type by (auto simp: enc_string_def split: option.splits json.splits)
  have rest: "(map_of m |` (- set modeled)) k = None" if "k \<in> set modeled" for k
    using that by simp
  show ?thesis
  proof (intro exI [of _ m'] conjI)
    show "schema_MarshalJSON s = JObj m'" by (rule m'(1))
    show "\<forall>k. k \<notin> set modeled \<longrightarrow> map_of m' k = map_of m k"
      by (simp add: look schema_members_lookup del: list.set)
    show "map_of m' ''definitions'' = None"
      by (simp add: look schema_members_lookup)
    show "map_of m' ''$defs'' = map_option norm_json (case present m ''$defs'' of None \<Rightarrow> present m ''definitions'' | d \<Rightarrow> d)"
      using D E by (cases "tas_Defs s0"; cases "present m ''$defs''"; cases "present m ''definitions''")
        (auto simp: look schema_members_lookup f)
    show "map_of m' ''type'' = (if present m ''type'' = Some (JStr []) then None else present m ''type'')"
      using type by (cases "present m ''type''") (auto simp: look schema_members_lookup enc_string_def)
    show "map_of m' ''additionalProperties'' = map_option norm_json (present m ''additionalProperties'')"
      using F(6) by (auto simp: look schema_members_lookup f present_def norm_json_def split: option.splits json.splits)
    show "map_of m' ''properties'' = (case present m ''properties'' of
        None \<Rightarrow> if present m ''type'' = Some (JStr ''object'') then Some (JObj []) else None
      | Some p \<Rightarrow> Some (norm_json p))"
      using P by (cases "tas_Properties s0") (auto simp: look schema_members_lookup f object simp flip: object)
    show "map_of m' ''required'' = (case present m ''required'' of
        Some (JArr (r # rs)) \<Rightarrow> Some (JArr (map (\<lambda>i. case i of JStr n \<Rightarrow> JStr n | _ \<Rightarrow> JStr []) (r # rs)))
      | _ \<Rightarrow> if present m ''type'' = Some (JStr ''object'') then Some (JArr []) else None)"
      unfolding look schema_members_lookup object f(3)
      using required_present [OF K(3) F(5) m(2), of "if present m ''type'' = Some (JStr ''object'') then Some (JArr []) else None"]
      by (auto split: if_splits option.splits)
  qed
qed

definition sample_schema :: "(string \<times> json) list" where
  "sample_schema = [(''oneOf'', JArr [JObj [(''const'', JNum 9007199254740993)]]), (''type'', JStr ''object''),
     (''definitions'', JObj [(''n'', JObj [(''type'', JStr ''integer'')])])]"

definition sample_decoded :: ToolArgumentsSchema where
  "sample_decoded = zero_schema\<lparr>tas_Type := ''object'', tas_Defs := Some [(''n'', JObj [(''type'', JStr ''integer'')])],
     tas_Extra := Some [(''oneOf'', JArr [JObj [(''const'', JNum 9007199254740993)]])]\<rparr>"

lemma fold_oneOf [json_dec]: "ascii_fold ''oneOf'' = ''oneof''" "ascii_fold ''Type'' = ''type''"
  by (code_simp)+

theorem schema_keywords_preserved_witness:
  "schema_UnmarshalJSON (JObj sample_schema) zero_schema = (sample_decoded, Fine) \<and>
   (\<exists>m'. schema_MarshalJSON sample_decoded = JObj m' \<and> map_of m' ''oneOf'' = Some (JArr [JObj [(''const'', JNum 9007199254740993)]]) \<and>
     map_of m' ''definitions'' = None \<and> map_of m' ''properties'' = Some (JObj []))"
proof -
  have u: "schema_UnmarshalJSON (JObj sample_schema) zero_schema = (sample_decoded, Fine)"
    by (simp add: schema_UnmarshalJSON_def dec_struct_def sample_schema_def sample_decoded_def upd_schema_def json_dec zero_schema_def
        dec_map_def dec_entry_def dec_iface_def map_del_def map_puts_def)
  have "plain_keys sample_schema" "valid_doc (JObj sample_schema)"
    by (simp_all add: plain_keys_def sample_schema_def json_dec valid_utf8_ascii)
  from schema_keywords_preserved [OF this u] obtain m' where "schema_MarshalJSON sample_decoded = JObj m'"
    "\<forall>k. k \<notin> set modeled \<longrightarrow> map_of m' k = map_of sample_schema k" "map_of m' ''definitions'' = None"
    "map_of m' ''properties'' = (case present sample_schema ''properties'' of
        None \<Rightarrow> if present sample_schema ''type'' = Some (JStr ''object'') then Some (JObj []) else None
      | Some p \<Rightarrow> Some (norm_json p))" by blast
  moreover from this(2) have "map_of m' ''oneOf'' = map_of sample_schema ''oneOf''" by simp
  ultimately show ?thesis using u by (simp add: sample_schema_def present_def)
qed

text \<open>A case variant of a modelled keyword is decoded into the field and preserved as an unmodelled keyword too: it comes back twice.\<close>

lemma case_variant_duplicated:
  "fst (schema_UnmarshalJSON (JObj [(''Type'', JStr ''string'')]) zero_schema)
     = zero_schema\<lparr>tas_Type := ''string'', tas_Extra := Some [(''Type'', JStr ''string'')]\<rparr>"
  "schema_MarshalJSON (zero_schema\<lparr>tas_Type := ''string'', tas_Extra := Some [(''Type'', JStr ''string'')]\<rparr>)
     = JObj [(''Type'', JStr ''string''), (''type'', JStr ''string'')]"
  by (simp_all add: schema_UnmarshalJSON_def dec_struct_def upd_schema_def json_dec zero_schema_def map_puts_def map_del_def
      schema_MarshalJSON_def schema_members_def enc_string_def valid_utf8_ascii omit_def)

section \<open>Tools\<close>

record ToolAnnotation =
  ta_Title :: string
  ta_ReadOnlyHint :: "bool option"
  ta_DestructiveHint :: "bool option"
  ta_IdempotentHint :: "bool option"
  ta_OpenWorldHint :: "bool option"

record Icon =
  ic_Src :: string
  ic_MIMEType :: string
  ic_Sizes :: "string list option"
  ic_Theme :: string

record ToolExecution =
  te_TaskSupport :: string

text \<open>A \<open>json.RawMessage\<close>: nil, or bytes that are a document or not.\<close>

type_synonym raw_message = "json option option"

record Tool =
  t_Meta :: "Meta option"
  t_Name :: string
  t_Title :: string
  t_Description :: string
  t_InputSchema :: ToolArgumentsSchema
  t_RawInputSchema :: raw_message
  t_OutputSchema :: ToolArgumentsSchema
  t_RawOutputSchema :: raw_message
  t_Annotations :: ToolAnnotation
  t_DeferLoading :: bool
  t_Icons :: "Icon list option"
  t_Execution :: "ToolExecution option"

definition enc_ToolAnnotation :: "ToolAnnotation \<Rightarrow> json" where
  "enc_ToolAnnotation a = JObj
     (omit (ta_Title a = []) ''title'' (enc_string (ta_Title a)) @
      omit (ta_ReadOnlyHint a = None) ''readOnlyHint'' (enc_ptr JBool (ta_ReadOnlyHint a)) @
      omit (ta_DestructiveHint a = None) ''destructiveHint'' (enc_ptr JBool (ta_DestructiveHint a)) @
      omit (ta_IdempotentHint a = None) ''idempotentHint'' (enc_ptr JBool (ta_IdempotentHint a)) @
      omit (ta_OpenWorldHint a = None) ''openWorldHint'' (enc_ptr JBool (ta_OpenWorldHint a)) @ [])"

definition upd_ToolAnnotation :: "string \<Rightarrow> ToolAnnotation decoder" where
  "upd_ToolAnnotation k j x =
     (if key_eq k ''title'' then into (dec_string j (ta_Title x)) (\<lambda>v. x\<lparr>ta_Title := v\<rparr>)
      else if key_eq k ''readOnlyHint'' then into (dec_ptr False dec_bool j (ta_ReadOnlyHint x)) (\<lambda>v. x\<lparr>ta_ReadOnlyHint := v\<rparr>)
      else if key_eq k ''destructiveHint'' then into (dec_ptr False dec_bool j (ta_DestructiveHint x)) (\<lambda>v. x\<lparr>ta_DestructiveHint := v\<rparr>)
      else if key_eq k ''idempotentHint'' then into (dec_ptr False dec_bool j (ta_IdempotentHint x)) (\<lambda>v. x\<lparr>ta_IdempotentHint := v\<rparr>)
      else if key_eq k ''openWorldHint'' then into (dec_ptr False dec_bool j (ta_OpenWorldHint x)) (\<lambda>v. x\<lparr>ta_OpenWorldHint := v\<rparr>)
      else (x, Fine))"

definition zero_ToolAnnotation :: ToolAnnotation where
  "zero_ToolAnnotation =
     \<lparr>ta_Title = [], ta_ReadOnlyHint = None, ta_DestructiveHint = None, ta_IdempotentHint = None, ta_OpenWorldHint = None\<rparr>"

definition enc_Icon :: "Icon \<Rightarrow> json" where
  "enc_Icon i = JObj
     (omit False ''src'' (enc_string (ic_Src i)) @
      omit (ic_MIMEType i = []) ''mimeType'' (enc_string (ic_MIMEType i)) @
      omit (empty_slice (ic_Sizes i)) ''sizes'' (enc_slice enc_string (ic_Sizes i)) @
      omit (ic_Theme i = []) ''theme'' (enc_string (ic_Theme i)) @ [])"

definition upd_Icon :: "string \<Rightarrow> Icon decoder" where
  "upd_Icon k j x =
     (if key_eq k ''src'' then into (dec_string j (ic_Src x)) (\<lambda>v. x\<lparr>ic_Src := v\<rparr>)
      else if key_eq k ''mimeType'' then into (dec_string j (ic_MIMEType x)) (\<lambda>v. x\<lparr>ic_MIMEType := v\<rparr>)
      else if key_eq k ''sizes'' then into (dec_slice [] dec_string j (ic_Sizes x)) (\<lambda>v. x\<lparr>ic_Sizes := v\<rparr>)
      else if key_eq k ''theme'' then into (dec_string j (ic_Theme x)) (\<lambda>v. x\<lparr>ic_Theme := v\<rparr>)
      else (x, Fine))"

definition zero_Icon :: Icon where
  "zero_Icon = \<lparr>ic_Src = [], ic_MIMEType = [], ic_Sizes = None, ic_Theme = []\<rparr>"

definition enc_ToolExecution :: "ToolExecution \<Rightarrow> json" where
  "enc_ToolExecution e = JObj (omit (te_TaskSupport e = []) ''taskSupport'' (enc_string (te_TaskSupport e)) @ [])"

definition upd_ToolExecution :: "string \<Rightarrow> ToolExecution decoder" where
  "upd_ToolExecution k j x =
     (if key_eq k ''taskSupport'' then into (dec_string j (te_TaskSupport x)) (\<lambda>v. x\<lparr>te_TaskSupport := v\<rparr>) else (x, Fine))"

datatype tool_err = ErrSchemaConflict string | ErrRawSchema

definition raw_doc :: "raw_message \<Rightarrow> (tool_err, json) result" where
  "raw_doc r = (case r of Some (Some j) \<Rightarrow> Inr j | Some None \<Rightarrow> Inl ErrRawSchema | None \<Rightarrow> Inr JNull)"

definition tool_input :: "Tool \<Rightarrow> (tool_err, json) result" where
  "tool_input t =
     (if t_RawInputSchema t \<noteq> None then raw_doc (t_RawInputSchema t)
      else Inr (schema_MarshalJSON (t_InputSchema t)))"

definition tool_output :: "Tool \<Rightarrow> (tool_err, (string \<times> json) list) result" where
  "tool_output t =
     (if t_RawOutputSchema t \<noteq> None then bindE (raw_doc (t_RawOutputSchema t)) (\<lambda>j. Inr (omit False ''outputSchema'' j))
      else Inr (omit (tas_Type (t_OutputSchema t) = []) ''outputSchema'' (schema_MarshalJSON (t_OutputSchema t))))"

definition tool_members :: "Tool \<Rightarrow> json \<Rightarrow> (string \<times> json) list \<Rightarrow> (string \<times> json) list" where
  "tool_members t input output =
     omit False ''name'' (enc_string (t_Name t)) @
     omit (t_Title t = []) ''title'' (enc_string (t_Title t)) @
     omit (t_Description t = []) ''description'' (enc_string (t_Description t)) @
     omit False ''inputSchema'' input @ output @
     omit False ''annotations'' (enc_ToolAnnotation (t_Annotations t)) @
     omit (\<not> t_DeferLoading t) ''defer_loading'' (JBool (t_DeferLoading t)) @
     omit (t_Meta t = None) ''_meta'' (enc_ptr Meta_MarshalJSON (t_Meta t)) @
     omit (t_Icons t = None) ''icons'' (enc_slice enc_Icon (t_Icons t)) @
     omit (t_Execution t = None) ''execution'' (enc_ptr enc_ToolExecution (t_Execution t)) @ []"

text \<open>The conflict checks run in the order of the code; an invalid raw message is met when the finished map is written.\<close>

definition Tool_MarshalJSON :: "Tool \<Rightarrow> (tool_err, json) result" where
  "Tool_MarshalJSON t =
     (if t_RawInputSchema t \<noteq> None \<and> tas_Type (t_InputSchema t) \<noteq> [] then Inl (ErrSchemaConflict (t_Name t))
      else if t_RawOutputSchema t \<noteq> None \<and> tas_Type (t_OutputSchema t) \<noteq> [] then Inl (ErrSchemaConflict (t_Name t))
      else bindE (tool_input t) (\<lambda>input. bindE (tool_output t) (\<lambda>output.
        Inr (JObj (map_puts (tool_members t input output) [])))))"

definition upd_Tool :: "string \<Rightarrow> Tool decoder" where
  "upd_Tool k j x =
     (if key_eq k ''_meta'' then into (dec_ptr zero_Meta Meta_UnmarshalJSON j (t_Meta x)) (\<lambda>v. x\<lparr>t_Meta := v\<rparr>)
      else if key_eq k ''name'' then into (dec_string j (t_Name x)) (\<lambda>v. x\<lparr>t_Name := v\<rparr>)
      else if key_eq k ''title'' then into (dec_string j (t_Title x)) (\<lambda>v. x\<lparr>t_Title := v\<rparr>)
      else if key_eq k ''description'' then into (dec_string j (t_Description x)) (\<lambda>v. x\<lparr>t_Description := v\<rparr>)
      else if key_eq k ''inputSchema'' then into (schema_UnmarshalJSON j (t_InputSchema x)) (\<lambda>v. x\<lparr>t_InputSchema := v\<rparr>)
      else if key_eq k ''outputSchema'' then into (schema_UnmarshalJSON j (t_OutputSchema x)) (\<lambda>v. x\<lparr>t_OutputSchema := v\<rparr>)
      else if key_eq k ''annotations'' then into (dec_struct upd_ToolAnnotation j (t_Annotations x)) (\<lambda>v. x\<lparr>t_Annotations := v\<rparr>)
      else if key_eq k ''defer_loading'' then into (dec_bool j (t_DeferLoading x)) (\<lambda>v. x\<lparr>t_DeferLoading := v\<rparr>)
      else if key_eq k ''icons'' then into (dec_slice zero_Icon (dec_struct upd_Icon) j (t_Icons x)) (\<lambda>v. x\<lparr>t_Icons := v\<rparr>)
      else if key_eq k ''execution'' then
        into (dec_ptr \<lparr>te_TaskSupport = []\<rparr> (dec_struct upd_ToolExecution) j (t_Execution x)) (\<lambda>v. x\<lparr>t_Execution := v\<rparr>)
      else (x, Fine))"

definition zero_Tool :: Tool where
  "zero_Tool =
     \<lparr>t_Meta = None, t_Name = [], t_Title = [], t_Description = [], t_InputSchema = zero_schema, t_RawInputSchema = None,
      t_OutputSchema = zero_schema, t_RawOutputSchema = None, t_Annotations = zero_ToolAnnotation, t_DeferLoading = False,
      t_Icons = None, t_Execution = None\<rparr>"

lemma zero_Tool_simps [simp]:
  "t_Meta zero_Tool = None" "t_Name zero_Tool = []" "t_Title zero_Tool = []" "t_Description zero_Tool = []"
  "t_InputSchema zero_Tool = zero_schema" "t_RawInputSchema zero_Tool = None" "t_OutputSchema zero_Tool = zero_schema"
  "t_RawOutputSchema zero_Tool = None" "t_Annotations zero_Tool = zero_ToolAnnotation" "\<not> t_DeferLoading zero_Tool"
  "t_Icons zero_Tool = None" "t_Execution zero_Tool = None"
  by (simp_all add: zero_Tool_def)

section \<open>Builders\<close>

text \<open>An option may panic (\<open>None\<close>): \<open>WithString\<close> stores into the property map, which is nil in a tool with a raw schema.\<close>

type_synonym ToolOption = "Tool \<Rightarrow> Tool option"
type_synonym PropertyOption = "(string \<times> json) list \<Rightarrow> (string \<times> json) list"

fun apply_opts :: "ToolOption list \<Rightarrow> Tool \<Rightarrow> Tool option" where
  "apply_opts [] t = Some t"
| "apply_opts (opt # opts) t = (case opt t of None \<Rightarrow> None | Some t' \<Rightarrow> apply_opts opts t')"

definition NewTool :: "string \<Rightarrow> ToolOption list \<Rightarrow> Tool option" where
  "NewTool name opts = apply_opts opts (zero_Tool\<lparr>t_Name := name,
     t_InputSchema := zero_schema\<lparr>tas_Type := ''object'', tas_Properties := Some []\<rparr>,
     t_Annotations := \<lparr>ta_Title = [], ta_ReadOnlyHint = Some False, ta_DestructiveHint = Some True, ta_IdempotentHint = Some False,
       ta_OpenWorldHint = Some True\<rparr>\<rparr>)"

definition NewToolWithRawSchema :: "string \<Rightarrow> string \<Rightarrow> raw_message \<Rightarrow> Tool" where
  "NewToolWithRawSchema name description schema = zero_Tool\<lparr>t_Name := name, t_Description := description, t_RawInputSchema := schema\<rparr>"

definition WithDescription :: "string \<Rightarrow> ToolOption" where
  "WithDescription description t = Some (t\<lparr>t_Description := description\<rparr>)"

definition WithString :: "string \<Rightarrow> PropertyOption list \<Rightarrow> ToolOption" where
  "WithString name opts t =
     (let schema = foldl (\<lambda>s opt. opt s) [(''type'', JStr ''string'')] opts;
          required = (map_of schema ''required'' = Some (JBool True));
          schema = (if required then map_del [''required''] schema else schema);
          reqs = (case tas_Required (t_InputSchema t) of None \<Rightarrow> [] | Some rs \<Rightarrow> rs)
      in case tas_Properties (t_InputSchema t) of
           None \<Rightarrow> None
         | Some ps \<Rightarrow> Some (t\<lparr>t_InputSchema := (t_InputSchema t)\<lparr>tas_Properties := Some (map_put name (JObj schema) ps),
             tas_Required := (if required then Some (reqs @ [name]) else tas_Required (t_InputSchema t))\<rparr>\<rparr>))"

definition Description :: "string \<Rightarrow> PropertyOption" where
  "Description desc schema = map_put ''description'' (JStr desc) schema"

definition Required :: PropertyOption where
  "Required schema = map_put ''required'' (JBool True) schema"

text \<open>A built tool has an object schema in which exactly the required properties are listed as such.\<close>

lemma WithString_spec:
  assumes "tas_Properties (t_InputSchema t) = Some ps" "WithString name opts t = Some t'"
  shows "\<exists>schema. tas_Properties (t_InputSchema t') = Some (map_put name (JObj schema) ps) \<and>
    map_of schema ''required'' \<noteq> Some (JBool True)"
  using assms by (auto simp: WithString_def Let_def map_of_del split: if_splits)

lemma raw_tool_option_panics: "WithString name opts (NewToolWithRawSchema n d s) = None"
  by (simp add: WithString_def NewToolWithRawSchema_def zero_Tool_def zero_schema_def)

section \<open>Round trips of schemas and tools\<close>

definition schema_ok :: "ToolArgumentsSchema \<Rightarrow> bool" where
  "schema_ok s \<longleftrightarrow>
     pred_option wf_map (tas_Defs s) \<and> valid_utf8 (tas_Type s) \<and> pred_option wf_map (tas_Properties s) \<and>
     pred_option (list_all valid_utf8) (tas_Required s) \<and> wf_any (tas_AdditionalProperties s) \<and>
     (if tas_Type s = ''object'' then tas_Properties s \<noteq> None \<and> tas_Required s \<noteq> None else tas_Required s \<noteq> Some []) \<and>
     pred_option (\<lambda>e. e \<noteq> [] \<and> go_map e \<and> list_all (\<lambda>(k, v). valid_utf8 k \<and> list_all (\<lambda>n. \<not> key_eq k n) modeled) e) (tas_Extra s)"

lemma schema_member_fine:
  assumes "(k, j) \<in> set (schema_members s)"
  shows "snd (upd_schema k j x) = Fine"
proof -
  have m: "snd (dec_map JNull dec_iface (enc_map enc_any d) y) = Fine" for d y
    by (cases d) (simp_all add: dec_map_any_fine enc_map_def)
  have r: "snd (dec_slice [] dec_string (enc_slice enc_string r) y) = Fine" for r y
    by (cases r) (auto simp: dec_strings_fine enc_slice_def enc_string_def)
  have "snd (dec_map JNull dec_iface (JObj []) y) = Fine" for y by (simp add: dec_map_any_fine)
  with assms m r show ?thesis
    unfolding schema_members_def Let_def
    by (simp add: omit_in, elim disjE) (simp_all add: upd_schema_def json_dec into_def dec_iface_def dec_slice_empty)
qed

lemma modeled_exact: "k \<in> set modeled \<Longrightarrow> n \<in> set modeled \<Longrightarrow> key_eq k n \<Longrightarrow> k = n"
  by (auto simp: json_dec)

lemma schema_document:
  assumes ok: "schema_ok s"
  obtains m e where "schema_MarshalJSON s = JObj m" "go_map m" "map_of m = map_of e ++ map_of (schema_members s)"
    "go_map e" "\<And>k n. k \<in> fst ` set e \<Longrightarrow> n \<in> set modeled \<Longrightarrow> \<not> key_eq k n" "tas_Extra s = (if e = [] then None else Some e)"
    "\<And>k j. (k, j) \<in> set m \<Longrightarrow> (k, j) \<in> set (schema_members s) \<or> (k, j) \<in> set e"
    "\<And>x. snd (dec_fields upd_schema m x) = Fine"
proof -
  define e where "e = (case tas_Extra s of None \<Rightarrow> [] | Some e \<Rightarrow> e)"
  have e: "go_map e" "list_all valid_utf8 (map fst e)" "\<And>k n. k \<in> fst ` set e \<Longrightarrow> n \<in> set modeled \<Longrightarrow> \<not> key_eq k n"
      "tas_Extra s = (if e = [] then None else Some e)"
    using ok by (cases "tas_Extra s"; auto simp: e_def schema_ok_def list_all_iff)+
  obtain m where m: "schema_MarshalJSON s = JObj m" "go_map m" "map_of m = map_of e ++ map_of (schema_members s)"
    using schema_MarshalJSON_lookup [of s] e(1,2) unfolding e_def [symmetric]
    by (auto simp: map_of_rev_distinct go_map_distinct)
  have mem: "(k, j) \<in> set (schema_members s) \<or> (k, j) \<in> set e" if "(k, j) \<in> set m" for k j
    using map_of_is_SomeI [OF go_map_distinct [OF m(2)] that] by (auto simp: m(3) map_add_Some_iff dest: map_of_SomeD)
  have fine: "snd (dec_fields upd_schema m x) = Fine" for x
  proof (rule dec_fields_fine)
    fix k j x assume "(k, j) \<in> set m"
    from mem [OF this] show "snd (upd_schema k j x) = Fine"
    proof
      assume "(k, j) \<in> set e"
      then have "k \<in> fst ` set e" by force
      then have "\<not> key_eq k n" if "n \<in> set modeled" for n using e(3) that by blast
      then show ?thesis by (simp add: upd_schema_def)
    qed (rule schema_member_fine)
  qed
  show ?thesis
    by (rule that [OF m e(1) e(3) e(4) mem fine])
qed

lemma schema_fine: "schema_ok s \<Longrightarrow> snd (schema_UnmarshalJSON (schema_MarshalJSON s) x) = Fine"
proof (erule schema_document)
  fix m assume "schema_MarshalJSON s = JObj m" "\<And>x. snd (dec_fields upd_schema m x) = Fine"
  then show ?thesis
    by (simp add: schema_UnmarshalJSON_def dec_struct_def Let_def split: prod.splits dstat.splits) (metis dstat.distinct snd_conv)
qed

lemma schema_round_trip:
  assumes ok: "schema_ok s"
  shows "schema_UnmarshalJSON (schema_MarshalJSON s) zero_schema = (s, Fine)"
proof -
  obtain m e where m: "schema_MarshalJSON s = JObj m" "go_map m" "map_of m = map_of e ++ map_of (schema_members s)"
    and e1: "go_map e" and e3: "\<And>k n. k \<in> fst ` set e \<Longrightarrow> n \<in> set modeled \<Longrightarrow> \<not> key_eq k n"
    and e4: "tas_Extra s = (if e = [] then None else Some e)"
    and mem: "\<And>k j. (k, j) \<in> set m \<Longrightarrow> (k, j) \<in> set (schema_members s) \<or> (k, j) \<in> set e"
    and fine: "\<And>x. snd (dec_fields upd_schema m x) = Fine"
    using schema_document [OF ok] by blast
  have keys: "k \<in> set modeled \<or> k \<in> fst ` set e" if k: "k \<in> fst ` set m" for k
  proof -
    obtain j where "(k, j) \<in> set m" using k by auto
    from mem [OF this] have "k \<in> fst ` set (schema_members s) \<or> k \<in> fst ` set e" by (metis fst_conv image_eqI)
    with schema_members_keys(1) [of s] show ?thesis by blast
  qed
  have exact: "exact_key n m" if n: "n \<in> set modeled" for n
    unfolding exact_key_def
  proof (intro ballI impI)
    fix k assume k: "k \<in> fst ` set m" "key_eq k n"
    from keys [OF k(1)] show "k = n"
    proof
      assume "k \<in> set modeled"
      from modeled_exact [OF this n k(2)] show ?thesis .
    next
      assume "k \<in> fst ` set e"
      from e3 [OF this n] k(2) show ?thesis by simp
    qed
  qed
  have plain: "plain_keys m"
    using m(2) exact by (simp add: plain_keys_def go_map_distinct)
  obtain s0 defs where d: "dec_fields upd_schema m (zero_schema, None) = ((s0, defs), Fine)"
    using fine [of "(zero_schema, None)"] by (metis prod.collapse)
  note F = schema_fields [OF plain d dstat.distinct(3)]
  have none: "map_of e n = None" if "n \<in> set modeled" for n
    using e3 [of n n] that by (auto simp: map_of_eq_None_iff)
  have look: "map_of m n = map_of (schema_members s) n" if "n \<in> set modeled" for n
    using none [OF that] by (simp add: m(3) map_add_def split: option.splits)
  have extra: "map_del modeled (map_puts m []) = e"
  proof (rule go_map_eqI)
    show "map_of (map_del modeled (map_puts m [])) = map_of e"
      using none by (auto simp: map_of_del map_puts_sorted m(2) m(3) fun_eq_iff restrict_map_def map_add_def schema_members_lookup(6)
          simp del: list.set split: option.splits)
  qed (use e1 m in auto)
  have defs: "defs = None" using F(3) by (simp add: look schema_members_lookup)
  have s0: "s0 = s\<lparr>tas_Extra := None\<rparr>"
  proof (rule ToolArgumentsSchema.equality)
    show "tas_Type s0 = tas_Type (s\<lparr>tas_Extra := None\<rparr>)"
      using F(1) ok by (auto simp: look schema_members_lookup schema_ok_def)
    show "tas_Defs s0 = tas_Defs (s\<lparr>tas_Extra := None\<rparr>)"
      using F(2) ok by (auto simp: look schema_members_lookup schema_ok_def)
    show "tas_Properties s0 = tas_Properties (s\<lparr>tas_Extra := None\<rparr>)"
      using F(4) ok by (auto simp: look schema_members_lookup schema_ok_def split: if_splits)
    show "tas_Required s0 = tas_Required (s\<lparr>tas_Extra := None\<rparr>)"
      using F(5) ok by (auto simp: look schema_members_lookup schema_ok_def dec_slice_empty split: if_splits)
    show "tas_AdditionalProperties s0 = tas_AdditionalProperties (s\<lparr>tas_Extra := None\<rparr>)"
      using F(6) ok by (auto simp: look schema_members_lookup schema_ok_def)
  qed (simp_all add: F(7))
  show ?thesis
    unfolding m(1) schema_UnmarshalJSON_def dec_struct_def json.case d prod.case dstat.case extra Let_def
    by (auto simp: defs s0 e4)
qed

abbreviation tool_keys :: "string list" where
  "tool_keys \<equiv> [''_meta'', ''name'', ''title'', ''description'', ''inputSchema'', ''outputSchema'', ''annotations'', ''defer_loading'', ''icons'', ''execution'']"

lemma tool_fold [json_dec]:
  "ascii_fold ''inputSchema'' = ''inputschema''" "ascii_fold ''outputSchema'' = ''outputschema''" "ascii_fold ''defer_loading'' = ''defer_loading''"
  "ascii_fold ''icons'' = ''icons''" "ascii_fold ''execution'' = ''execution''" "ascii_fold ''readOnlyHint'' = ''readonlyhint''"
  "ascii_fold ''destructiveHint'' = ''destructivehint''" "ascii_fold ''idempotentHint'' = ''idempotenthint''"
  "ascii_fold ''openWorldHint'' = ''openworldhint''" "ascii_fold ''src'' = ''src''" "ascii_fold ''sizes'' = ''sizes''"
  "ascii_fold ''theme'' = ''theme''" "ascii_fold ''taskSupport'' = ''tasksupport''"
  by (code_simp)+

lemma tool_fields:
  assumes d: "distinct (map fst m)" and e: "\<forall>n\<in>set tool_keys. exact_key n m" and ok: "snd (dec_fields upd_Tool m zero_Tool) \<noteq> Abort"
  defines "t \<equiv> fst (dec_fields upd_Tool m zero_Tool)"
  shows "t_Meta t = (case map_of m ''_meta'' of None \<Rightarrow> t_Meta zero_Tool | Some j \<Rightarrow> fst ((dec_ptr zero_Meta Meta_UnmarshalJSON) j (t_Meta zero_Tool)))"
    "t_Name t = (case map_of m ''name'' of None \<Rightarrow> t_Name zero_Tool | Some j \<Rightarrow> fst ((dec_string) j (t_Name zero_Tool)))"
    "t_Title t = (case map_of m ''title'' of None \<Rightarrow> t_Title zero_Tool | Some j \<Rightarrow> fst ((dec_string) j (t_Title zero_Tool)))"
    "t_Description t = (case map_of m ''description'' of None \<Rightarrow> t_Description zero_Tool | Some j \<Rightarrow> fst ((dec_string) j (t_Description zero_Tool)))"
    "t_InputSchema t = (case map_of m ''inputSchema'' of None \<Rightarrow> t_InputSchema zero_Tool | Some j \<Rightarrow> fst ((schema_UnmarshalJSON) j (t_InputSchema zero_Tool)))"
    "t_OutputSchema t = (case map_of m ''outputSchema'' of None \<Rightarrow> t_OutputSchema zero_Tool | Some j \<Rightarrow> fst ((schema_UnmarshalJSON) j (t_OutputSchema zero_Tool)))"
    "t_Annotations t = (case map_of m ''annotations'' of None \<Rightarrow> t_Annotations zero_Tool | Some j \<Rightarrow> fst ((dec_struct upd_ToolAnnotation) j (t_Annotations zero_Tool)))"
    "t_DeferLoading t = (case map_of m ''defer_loading'' of None \<Rightarrow> t_DeferLoading zero_Tool | Some j \<Rightarrow> fst ((dec_bool) j (t_DeferLoading zero_Tool)))"
    "t_Icons t = (case map_of m ''icons'' of None \<Rightarrow> t_Icons zero_Tool | Some j \<Rightarrow> fst ((dec_slice zero_Icon (dec_struct upd_Icon)) j (t_Icons zero_Tool)))"
    "t_Execution t = (case map_of m ''execution'' of None \<Rightarrow> t_Execution zero_Tool | Some j \<Rightarrow> fst ((dec_ptr \<lparr>te_TaskSupport = []\<rparr> (dec_struct upd_ToolExecution)) j (t_Execution zero_Tool)))"
    "t_RawInputSchema t = None" "t_RawOutputSchema t = None"
proof -
  have field: "f t = (case map_of m n of None \<Rightarrow> f zero_Tool | Some j \<Rightarrow> fst (dd j (f zero_Tool)))"
    if "\<And>k j x. key_eq k n \<Longrightarrow> f (fst (upd_Tool k j x)) = fst (dd j (f x))" "\<And>k j x. \<not> key_eq k n \<Longrightarrow> f (fst (upd_Tool k j x)) = f x"
      "n \<in> set tool_keys" for n and f :: "Tool \<Rightarrow> 'f" and dd
    unfolding t_def using that(1,2) d bspec [OF e that(3)] ok by (rule dec_fields_field)
  show "t_Meta t = (case map_of m ''_meta'' of None \<Rightarrow> t_Meta zero_Tool | Some j \<Rightarrow> fst ((dec_ptr zero_Meta Meta_UnmarshalJSON) j (t_Meta zero_Tool)))"
    by (rule field) (auto simp: upd_Tool_def json_dec into_def)
  show "t_Name t = (case map_of m ''name'' of None \<Rightarrow> t_Name zero_Tool | Some j \<Rightarrow> fst ((dec_string) j (t_Name zero_Tool)))"
    by (rule field) (auto simp: upd_Tool_def json_dec into_def)
  show "t_Title t = (case map_of m ''title'' of None \<Rightarrow> t_Title zero_Tool | Some j \<Rightarrow> fst ((dec_string) j (t_Title zero_Tool)))"
    by (rule field) (auto simp: upd_Tool_def json_dec into_def)
  show "t_Description t = (case map_of m ''description'' of None \<Rightarrow> t_Description zero_Tool | Some j \<Rightarrow> fst ((dec_string) j (t_Description zero_Tool)))"
    by (rule field) (auto simp: upd_Tool_def json_dec into_def)
  show "t_InputSchema t = (case map_of m ''inputSchema'' of None \<Rightarrow> t_InputSchema zero_Tool | Some j \<Rightarrow> fst ((schema_UnmarshalJSON) j (t_InputSchema zero_Tool)))"
    by (rule field) (auto simp: upd_Tool_def json_dec into_def)
  show "t_OutputSchema t = (case map_of m ''outputSchema'' of None \<Rightarrow> t_OutputSchema zero_Tool | Some j \<Rightarrow> fst ((schema_UnmarshalJSON) j (t_OutputSchema zero_Tool)))"
    by (rule field) (auto simp: upd_Tool_def json_dec into_def)
  show "t_Annotations t = (case map_of m ''annotations'' of None \<Rightarrow> t_Annotations zero_Tool | Some j \<Rightarrow> fst ((dec_struct upd_ToolAnnotation) j (t_Annotations zero_Tool)))"
    by (rule field) (auto simp: upd_Tool_def json_dec into_def)
  show "t_DeferLoading t = (case map_of m ''defer_loading'' of None \<Rightarrow> t_DeferLoading zero_Tool | Some j \<Rightarrow> fst ((dec_bool) j (t_DeferLoading zero_Tool)))"
    by (rule field) (auto simp: upd_Tool_def json_dec into_def)
  show "t_Icons t = (case map_of m ''icons'' of None \<Rightarrow> t_Icons zero_Tool | Some j \<Rightarrow> fst ((dec_slice zero_Icon (dec_struct upd_Icon)) j (t_Icons zero_Tool)))"
    by (rule field) (auto simp: upd_Tool_def json_dec into_def)
  show "t_Execution t = (case map_of m ''execution'' of None \<Rightarrow> t_Execution zero_Tool | Some j \<Rightarrow> fst ((dec_ptr \<lparr>te_TaskSupport = []\<rparr> (dec_struct upd_ToolExecution)) j (t_Execution zero_Tool)))"
    by (rule field) (auto simp: upd_Tool_def json_dec into_def)
  show "t_RawInputSchema t = None" "t_RawOutputSchema t = None"
    unfolding t_def
    by (rule dec_fields_inv [where P = "\<lambda>x. t_RawInputSchema x = None"], auto simp: zero_Tool_def upd_Tool_def into_def)
       (rule dec_fields_inv [where P = "\<lambda>x. t_RawOutputSchema x = None"], auto simp: zero_Tool_def upd_Tool_def into_def)
qed

definition wf_ToolAnnotation :: "ToolAnnotation \<Rightarrow> bool" where
  "wf_ToolAnnotation a \<longleftrightarrow> valid_utf8 (ta_Title a)"

definition wf_Icon :: "Icon \<Rightarrow> bool" where
  "wf_Icon i \<longleftrightarrow> valid_utf8 (ic_Src i) \<and> valid_utf8 (ic_MIMEType i) \<and> valid_utf8 (ic_Theme i) \<and> ic_Sizes i \<noteq> Some []
     \<and> pred_option (list_all valid_utf8) (ic_Sizes i)"

definition wf_Tool :: "Tool \<Rightarrow> bool" where
  "wf_Tool t \<longleftrightarrow> t_RawInputSchema t = None \<and> t_RawOutputSchema t = None \<and>
     valid_utf8 (t_Name t) \<and> valid_utf8 (t_Title t) \<and> valid_utf8 (t_Description t) \<and> pred_option wf_Meta (t_Meta t) \<and>
     schema_ok (t_InputSchema t) \<and> (t_OutputSchema t = zero_schema \<or> schema_ok (t_OutputSchema t) \<and> tas_Type (t_OutputSchema t) \<noteq> []) \<and>
     wf_ToolAnnotation (t_Annotations t) \<and> pred_option (list_all wf_Icon) (t_Icons t) \<and>
     pred_option (\<lambda>e. valid_utf8 (te_TaskSupport e)) (t_Execution t)"

lemmas upd_tool [json_dec] = upd_ToolAnnotation_def upd_Icon_def upd_ToolExecution_def

lemma ToolAnnotation_round_trip:
  "wf_ToolAnnotation a \<Longrightarrow> dec_struct upd_ToolAnnotation (enc_ToolAnnotation a) zero_ToolAnnotation = (a, Fine)"
  unfolding enc_ToolAnnotation_def dec_struct_def json.case zero_ToolAnnotation_def wf_ToolAnnotation_def
  by - ((rule dec_member, (simp add: json_dec)[1], (simp; fail)[1])+, simp)

lemma ToolAnnotation_fine: "snd (dec_struct upd_ToolAnnotation (enc_ToolAnnotation a) x) = Fine"
proof -
  have "snd (dec_ptr False dec_bool (enc_ptr JBool v) x) = Fine" for v x
    by (cases v) (simp_all add: dec_ptr_status enc_ptr_def)
  then show ?thesis
    unfolding enc_ToolAnnotation_def dec_struct_def json.case
    by (intro dec_fields_fine) (auto simp: omit_in upd_ToolAnnotation_def json_dec into_def)
qed

lemma Icon_round_trip: "wf_Icon i \<Longrightarrow> dec_struct upd_Icon (enc_Icon i) zero_Icon = (i, Fine)"
  unfolding enc_Icon_def dec_struct_def json.case zero_Icon_def wf_Icon_def
  by - ((rule dec_member, (simp add: json_dec)[1], (simp; fail)[1])+, simp)

lemma ToolExecution_round_trip:
  "valid_utf8 (te_TaskSupport e) \<Longrightarrow> dec_struct upd_ToolExecution (enc_ToolExecution e) \<lparr>te_TaskSupport = []\<rparr> = (e, Fine)"
  unfolding enc_ToolExecution_def dec_struct_def json.case
  by - ((rule dec_member, (simp add: json_dec)[1], (simp; fail)[1])+, simp)

lemma enc_ToolExecution_not_null: "enc_ToolExecution e \<noteq> JNull"
  by (simp add: enc_ToolExecution_def)

lemma ToolExecution_fine: "snd (dec_struct upd_ToolExecution (enc_ToolExecution e) x) = Fine"
  unfolding enc_ToolExecution_def dec_struct_def json.case
  by (intro dec_fields_fine) (auto simp: omit_in upd_ToolExecution_def json_dec into_def)

lemma tool_parts:
  assumes "wf_Tool t"
  shows "dec_slice zero_Icon (dec_struct upd_Icon) (enc_slice enc_Icon (t_Icons t)) x = (t_Icons t, Fine)"
    "dec_ptr \<lparr>te_TaskSupport = []\<rparr> (dec_struct upd_ToolExecution) (enc_ptr enc_ToolExecution (t_Execution t)) None = (t_Execution t, Fine)"
    "snd (dec_ptr \<lparr>te_TaskSupport = []\<rparr> (dec_struct upd_ToolExecution) (enc_ptr enc_ToolExecution (t_Execution t)) y) = Fine"
    "snd (dec_ptr zero_Meta Meta_UnmarshalJSON (enc_ptr Meta_MarshalJSON (t_Meta t)) z) = Fine"
proof -
  show "dec_slice zero_Icon (dec_struct upd_Icon) (enc_slice enc_Icon (t_Icons t)) x = (t_Icons t, Fine)"
    using assms by (intro dec_enc_slice) (auto simp: wf_Tool_def Icon_round_trip list_all_iff pred_option_def)
  show "dec_ptr \<lparr>te_TaskSupport = []\<rparr> (dec_struct upd_ToolExecution) (enc_ptr enc_ToolExecution (t_Execution t)) None = (t_Execution t, Fine)"
    using assms by (intro dec_enc_ptr) (auto simp: wf_Tool_def ToolExecution_round_trip pred_option_def enc_ToolExecution_not_null)
  show "snd (dec_ptr \<lparr>te_TaskSupport = []\<rparr> (dec_struct upd_ToolExecution) (enc_ptr enc_ToolExecution (t_Execution t)) y) = Fine"
    by (cases "t_Execution t") (simp_all add: dec_ptr_status enc_ptr_def ToolExecution_fine)
  show "snd (dec_ptr zero_Meta Meta_UnmarshalJSON (enc_ptr Meta_MarshalJSON (t_Meta t)) z) = Fine"
    using assms by (cases "t_Meta t") (simp_all add: dec_ptr_status enc_ptr_def Meta_round_trip wf_Tool_def)
qed

text \<open>
  Tools: a tool definition with structured schemas is given back by decoding its encoding.
\<close>

theorem tool_round_trip:
  assumes "wf_Tool t"
  shows "\<exists>j. Tool_MarshalJSON t = Inr j \<and> dec_struct upd_Tool j zero_Tool = (t, Fine)"
proof -
  let ?out = "omit (tas_Type (t_OutputSchema t) = []) ''outputSchema'' (schema_MarshalJSON (t_OutputSchema t))"
  define E where "E = tool_members t (schema_MarshalJSON (t_InputSchema t)) ?out"
  have M: "Tool_MarshalJSON t = Inr (JObj (map_puts E []))"
    using assms by (simp add: Tool_MarshalJSON_def tool_input_def tool_output_def wf_Tool_def E_def)
  have dist: "distinct (map fst E)" "fst ` set E \<subseteq> set tool_keys"
    unfolding E_def tool_members_def by (auto simp: distinct_omit keys_omit omit_in)
  have mo: "map_of (map_puts E []) = map_of E" by (simp add: map_of_puts map_of_rev_distinct dist(1))
  have sub: "(k, j) \<in> set E" if "(k, j) \<in> set (map_puts E [])" for k j
    using map_of_is_SomeI [OF go_map_distinct that] by (simp add: mo map_of_SomeD)
  have fine: "snd (dec_fields upd_Tool (map_puts E []) x) = Fine" for x
  proof (rule dec_fields_fine)
    fix k j x assume "(k, j) \<in> set (map_puts E [])"
    from sub [OF this] show "snd (upd_Tool k j x) = Fine"
      using assms tool_parts [OF assms] schema_fine
      unfolding E_def tool_members_def
      by (simp add: omit_in wf_Tool_def, elim disjE conjE) (simp_all add: upd_Tool_def json_dec into_def ToolAnnotation_fine)
  qed
  have exact: "\<forall>n\<in>set tool_keys. exact_key n (map_puts E [])"
    using dist(2) by (auto simp: exact_key_def keys_map_puts json_dec)
  have ok: "snd (dec_fields upd_Tool (map_puts E []) zero_Tool) \<noteq> Abort" by (simp add: fine)
  have look:
    "map_of E ''_meta'' = (if t_Meta t = None then None else Some (enc_ptr Meta_MarshalJSON (t_Meta t)))"
    "map_of E ''name'' = Some (enc_string (t_Name t))"
    "map_of E ''title'' = (if t_Title t = [] then None else Some (enc_string (t_Title t)))"
    "map_of E ''description'' = (if t_Description t = [] then None else Some (enc_string (t_Description t)))"
    "map_of E ''inputSchema'' = Some (schema_MarshalJSON (t_InputSchema t))"
    "map_of E ''outputSchema'' = (if tas_Type (t_OutputSchema t) = [] then None else Some (schema_MarshalJSON (t_OutputSchema t)))"
    "map_of E ''annotations'' = Some (enc_ToolAnnotation (t_Annotations t))"
    "map_of E ''defer_loading'' = (if \<not> t_DeferLoading t then None else Some (JBool (t_DeferLoading t)))"
    "map_of E ''icons'' = (if t_Icons t = None then None else Some (enc_slice enc_Icon (t_Icons t)))"
    "map_of E ''execution'' = (if t_Execution t = None then None else Some (enc_ptr enc_ToolExecution (t_Execution t)))"
    by (simp_all add: E_def tool_members_def map_of_omit map_of_omit_last del: map_of_append)
  note F = tool_fields [OF go_map_distinct [OF go_map_puts [OF go_map_Nil]] exact ok, unfolded mo]
  have "fst (dec_fields upd_Tool (map_puts E []) zero_Tool) = t"
    using assms tool_parts [OF assms]
    by (intro Tool.equality)
       (simp_all add: F look wf_Tool_def schema_round_trip ToolAnnotation_round_trip, auto simp: schema_round_trip)
  then show ?thesis
    using fine [of zero_Tool] by (auto simp: M dec_struct_def intro: prod_eqI)
qed

definition sample_tool_def :: Tool where
  "sample_tool_def = zero_Tool\<lparr>t_Name := ''search'', t_Description := ''find'',
     t_InputSchema := zero_schema\<lparr>tas_Type := ''object'', tas_Properties := Some [(''q'', JObj [(''type'', JStr ''string'')])],
       tas_Required := Some [''q''], tas_Extra := Some [(''oneOf'', JArr [])]\<rparr>,
     t_Annotations := zero_ToolAnnotation\<lparr>ta_ReadOnlyHint := Some True\<rparr>, t_DeferLoading := True\<rparr>"

theorem tool_round_trip_witness:
  "wf_Tool sample_tool_def \<and> (\<exists>j. Tool_MarshalJSON sample_tool_def = Inr j \<and> dec_struct upd_Tool j zero_Tool = (sample_tool_def, Fine))"
proof -
  have "wf_Tool sample_tool_def"
    by (simp add: wf_Tool_def sample_tool_def_def schema_ok_def zero_schema_def wf_ToolAnnotation_def zero_ToolAnnotation_def valid_utf8_ascii
        json_dec)
  with tool_round_trip [OF this] show ?thesis by blast
qed

text \<open>A tool fails to encode exactly for a raw schema next to a typed one, or a raw schema that is not JSON; the conflict is reported first.\<close>

lemma Tool_MarshalJSON_error:
  "Tool_MarshalJSON t = Inl e \<longleftrightarrow>
     (let conflict = (t_RawInputSchema t \<noteq> None \<and> tas_Type (t_InputSchema t) \<noteq> [] \<or>
                      t_RawOutputSchema t \<noteq> None \<and> tas_Type (t_OutputSchema t) \<noteq> [])
      in if conflict then e = ErrSchemaConflict (t_Name t)
         else e = ErrRawSchema \<and> (t_RawInputSchema t = Some None \<or> t_RawOutputSchema t = Some None))"
  by (auto simp: Tool_MarshalJSON_def tool_input_def tool_output_def raw_doc_def bindE_def split: option.splits sum.splits)

section \<open>Call results\<close>

record CallToolResult =
  ctr_Meta :: "Meta option"
  ctr_Content :: "Content list option"
  ctr_StructuredContent :: json
  ctr_IsError :: bool
  ctr_resultType :: string

definition zero_CallToolResult :: CallToolResult where
  "zero_CallToolResult = \<lparr>ctr_Meta = None, ctr_Content = None, ctr_StructuredContent = JNull, ctr_IsError = False, ctr_resultType = []\<rparr>"

definition CallToolResult_MarshalJSON :: "CallToolResult \<Rightarrow> json" where
  "CallToolResult_MarshalJSON r = JObj (map_puts
     (omit (ctr_Meta r = None) ''_meta'' (enc_ptr Meta_MarshalJSON (ctr_Meta r)) @
      omit False ''content'' (JArr (map MarshalContent (case ctr_Content r of None \<Rightarrow> [] | Some cs \<Rightarrow> cs))) @
      omit (ctr_StructuredContent r = JNull) ''structuredContent'' (enc_any (ctr_StructuredContent r)) @
      omit (\<not> ctr_IsError r) ''isError'' (JBool (ctr_IsError r)) @ []) [])"

text \<open>Each member is looked at only if it has the expected dynamic type; the items of the content are encoded again and decoded by type.\<close>

definition CallToolResult_UnmarshalJSON :: "json option \<Rightarrow> CallToolResult \<Rightarrow> (content_err, CallToolResult) result" where
  "CallToolResult_UnmarshalJSON data r =
     (case data of
        None \<Rightarrow> Inl ErrDecode
      | Some j \<Rightarrow>
          (case dec_map JNull dec_iface j None of
             (raw, Fine) \<Rightarrow>
               let raw = (case raw of None \<Rightarrow> [] | Some m \<Rightarrow> m);
                   r = (case map_of raw ''_meta'' of Some (JObj m) \<Rightarrow> r\<lparr>ctr_Meta := Some (fst (NewMetaFromMap (Some m)))\<rparr> | _ \<Rightarrow> r)
               in bindE (case map_of raw ''content'' of
                           Some (JArr items) \<Rightarrow>
                             bindE (traverse (\<lambda>item. UnmarshalContent (Some (enc_any item))) items) (\<lambda>cs. Inr (r\<lparr>ctr_Content := Some cs\<rparr>))
                         | _ \<Rightarrow> Inr r) (\<lambda>r.
                  let r = (case map_of raw ''structuredContent'' of Some s \<Rightarrow> r\<lparr>ctr_StructuredContent := s\<rparr> | None \<Rightarrow> r);
                      r = (case map_of raw ''isError'' of Some (JBool b) \<Rightarrow> r\<lparr>ctr_IsError := b\<rparr> | _ \<Rightarrow> r)
                  in Inr (case map_of raw ''resultType'' of Some (JStr rt) \<Rightarrow> r\<lparr>ctr_resultType := rt\<rparr> | _ \<Rightarrow> r))
           | _ \<Rightarrow> Inl ErrDecode))"

definition NeedsInput :: "CallToolResult \<Rightarrow> bool" where
  "NeedsInput r \<longleftrightarrow> ctr_resultType r = ''input_required''"

definition NewToolResultText :: "string \<Rightarrow> CallToolResult" where
  "NewToolResultText text = zero_CallToolResult\<lparr>ctr_Content := Some [Text (NewTextContent text)]\<rparr>"

definition NewToolResultError :: "string \<Rightarrow> CallToolResult" where
  "NewToolResultError text = zero_CallToolResult\<lparr>ctr_Content := Some [Text (NewTextContent text)], ctr_IsError := True\<rparr>"

text \<open>\<open>print\<close> is the text of the encoded value; the values modelled here are always encodable.\<close>

definition NewToolResultStructuredOnly :: "(json \<Rightarrow> string) \<Rightarrow> json \<Rightarrow> CallToolResult" where
  "NewToolResultStructuredOnly print structured =
     zero_CallToolResult\<lparr>ctr_Content := Some [Text (NewTextContent (print (enc_any structured)))], ctr_StructuredContent := structured\<rparr>"

lemma fold_result_keys [json_dec]: "ascii_fold ''structuredContent'' = ''structuredcontent''" "ascii_fold ''resultType'' = ''resulttype''"
  by (code_simp)+

text \<open>A text element survives the generic decoding of the result.\<close>

lemma text_through_any:
  assumes "valid_utf8 s"
  shows "UnmarshalContent (Some (norm_json (MarshalContent (Text (NewTextContent s))))) = Inr (Text (NewTextContent s))"
proof -
  have "norm_json (MarshalContent (Text (NewTextContent s))) = JObj [(''text'', JStr s), (''type'', JStr ''text'')]"
    using assms by (simp add: norm_json_def enc_TextContent_def NewTextContent_def zero_TextContent_def omit_def enc_string_def map_puts_def
        valid_utf8_ascii)
  moreover have "unmarshal_content (JObj [(''text'', JStr s), (''type'', JStr ''text'')]) = Inr (Text (NewTextContent s))"
    by (subst unmarshal_content.simps)
       (simp add: dec_struct_def upd_type_def json_dec dec_iface_def decoded_def zero_TextContent_def NewTextContent_def)
  ultimately show ?thesis by (simp add: UnmarshalContent_def)
qed

lemma traverse_texts:
  "list_all valid_utf8 texts \<Longrightarrow>
     traverse (\<lambda>item. UnmarshalContent (Some (enc_any item))) (map (\<lambda>s. dec_any (MarshalContent (Text (NewTextContent s)))) texts)
       = Inr (map (\<lambda>s. Text (NewTextContent s)) texts)"
  using text_through_any by (induction texts) (simp_all add: norm_json_def del: MarshalContent.simps)

text \<open>
  Call results: a result whose content is a list of texts, with any metadata, structured content and error flag, is given back by
  decoding its encoding, and it never asks for input.
\<close>

theorem text_result_round_trip:
  assumes "ctr_Content r = Some (map (\<lambda>s. Text (NewTextContent s)) texts)" "list_all valid_utf8 texts"
    and "pred_option wf_Meta (ctr_Meta r)" "wf_any (ctr_StructuredContent r)" "ctr_resultType r = []"
  shows "CallToolResult_UnmarshalJSON (Some (CallToolResult_MarshalJSON r)) zero_CallToolResult = Inr r \<and> \<not> NeedsInput r"
proof -
  define E where "E = omit (ctr_Meta r = None) ''_meta'' (enc_ptr Meta_MarshalJSON (ctr_Meta r)) @
      omit False ''content'' (JArr (map MarshalContent (map (\<lambda>s. Text (NewTextContent s)) texts))) @
      omit (ctr_StructuredContent r = JNull) ''structuredContent'' (enc_any (ctr_StructuredContent r)) @
      omit (\<not> ctr_IsError r) ''isError'' (JBool (ctr_IsError r)) @ []"
  have d: "distinct (map fst E)" by (simp add: E_def distinct_omit keys_omit)
  obtain raw where raw: "dec_map JNull dec_iface (JObj (map_puts E [])) None = (Some raw, Fine)"
      "map_of raw = map_option dec_any \<circ> map_of E"
    using dec_map_lookup [OF go_map_distinct [OF go_map_puts [OF go_map_Nil]], of E] d by (auto simp: map_of_puts map_of_rev_distinct)
  have look: "map_of raw ''_meta'' = (if ctr_Meta r = None then None else Some (dec_any (enc_ptr Meta_MarshalJSON (ctr_Meta r))))"
    "map_of raw ''content'' = Some (JArr (map (\<lambda>s. dec_any (MarshalContent (Text (NewTextContent s)))) texts))"
    "map_of raw ''structuredContent'' = (if ctr_StructuredContent r = JNull then None else Some (ctr_StructuredContent r))"
    "map_of raw ''isError'' = (if ctr_IsError r then Some (JBool True) else None)" "map_of raw ''resultType'' = None"
    using assms(4) by (auto simp: raw(2) E_def map_of_omit map_of_omit_last simp del: map_of_append MarshalContent.simps)
  have M: "CallToolResult_MarshalJSON r = JObj (map_puts E [])"
    by (simp add: CallToolResult_MarshalJSON_def E_def assms(1) del: MarshalContent.simps)
  have meta: "(case map_of raw ''_meta'' of Some (JObj m) \<Rightarrow> zero_CallToolResult\<lparr>ctr_Meta := Some (fst (NewMetaFromMap (Some m)))\<rparr>
      | _ \<Rightarrow> zero_CallToolResult) = zero_CallToolResult\<lparr>ctr_Meta := ctr_Meta r\<rparr>"
  proof (cases "ctr_Meta r")
    case (Some m)
    with NewMetaFromMap_encoded [of m] assms(3) show ?thesis by (auto simp: look enc_ptr_def)
  qed (simp add: look zero_CallToolResult_def)
  show ?thesis
    unfolding CallToolResult_UnmarshalJSON_def M option.case raw(1) prod.case dstat.case Let_def meta look(2-) json.case
    using traverse_texts [OF assms(2)] assms(1,5)
    by (auto simp: NeedsInput_def zero_CallToolResult_def intro!: CallToolResult.equality)
qed

theorem text_result_round_trip_witness:
  "CallToolResult_UnmarshalJSON (Some (CallToolResult_MarshalJSON (NewToolResultError ''no such file''))) zero_CallToolResult
     = Inr (NewToolResultError ''no such file'') \<and> \<not> NeedsInput (NewToolResultError ''no such file'')"
  by (rule text_result_round_trip [of _ "[''no such file'']"]) (simp_all add: NewToolResultError_def zero_CallToolResult_def valid_utf8_ascii)

section \<open>Call arguments\<close>

text \<open>The arguments of a call are a value of type \<open>any\<close>. \<open>conv\<close> is the conversion of a float64 outside the range of \<open>int\<close>, which Go leaves to the
  implementation, and \<open>parseFloat\<close> is \<open>strconv.ParseFloat\<close>.\<close>

datatype arg_err = ErrArgNotString string | ErrArgNotFound string

definition GetArguments :: "json \<Rightarrow> (string \<times> json) list option" where
  "GetArguments a = (case a of JObj m \<Rightarrow> Some m | _ \<Rightarrow> None)"

definition arg :: "json \<Rightarrow> string \<Rightarrow> json option" where
  "arg a key = (case GetArguments a of None \<Rightarrow> None | Some m \<Rightarrow> map_of m key)"

definition GetString :: "json \<Rightarrow> string \<Rightarrow> string \<Rightarrow> string" where
  "GetString a key defaultValue = (case arg a key of Some (JStr s) \<Rightarrow> s | _ \<Rightarrow> defaultValue)"

definition RequireString :: "json \<Rightarrow> string \<Rightarrow> (arg_err, string) result" where
  "RequireString a key =
     (case arg a key of
        Some (JStr s) \<Rightarrow> Inr s
      | Some _ \<Rightarrow> Inl (ErrArgNotString key)
      | None \<Rightarrow> Inl (ErrArgNotFound key))"

definition float_to_int :: "(int \<Rightarrow> int \<Rightarrow> int) \<Rightarrow> int \<Rightarrow> int \<Rightarrow> int" where
  "float_to_int conv m e =
     (let n = (if 0 \<le> e then m * 2 ^ nat e else sgn m * (\<bar>m\<bar> div 2 ^ nat (- e))) in if is_int64 n then n else conv m e)"

definition GetInt :: "(int \<Rightarrow> int \<Rightarrow> int) \<Rightarrow> json \<Rightarrow> string \<Rightarrow> int \<Rightarrow> int" where
  "GetInt conv a key defaultValue =
     (case arg a key of
        Some (JNum n) \<Rightarrow> n
      | Some (JFloat m e) \<Rightarrow> float_to_int conv m e
      | Some (JStr s) \<Rightarrow> (case atoi s of Some i \<Rightarrow> i | None \<Rightarrow> defaultValue)
      | _ \<Rightarrow> defaultValue)"

definition GetFloat :: "(string \<Rightarrow> (int \<times> int) option) \<Rightarrow> json \<Rightarrow> string \<Rightarrow> int \<times> int \<Rightarrow> int \<times> int" where
  "GetFloat parseFloat a key defaultValue =
     (case arg a key of
        Some (JFloat m e) \<Rightarrow> (m, e)
      | Some (JNum n) \<Rightarrow> (case f64 n of JFloat m e \<Rightarrow> (m, e) | _ \<Rightarrow> defaultValue)
      | Some (JStr s) \<Rightarrow> (case parseFloat s of Some f \<Rightarrow> f | None \<Rightarrow> defaultValue)
      | _ \<Rightarrow> defaultValue)"

definition ParseBool :: "string \<Rightarrow> bool option" where
  "ParseBool s =
     (if s \<in> {''1'', ''t'', ''T'', ''TRUE'', ''true'', ''True''} then Some True
      else if s \<in> {''0'', ''f'', ''F'', ''FALSE'', ''false'', ''False''} then Some False else None)"

definition GetBool :: "json \<Rightarrow> string \<Rightarrow> bool \<Rightarrow> bool" where
  "GetBool a key defaultValue =
     (case arg a key of
        Some (JBool b) \<Rightarrow> b
      | Some (JStr s) \<Rightarrow> (case ParseBool s of Some b \<Rightarrow> b | None \<Rightarrow> defaultValue)
      | Some (JNum n) \<Rightarrow> n \<noteq> 0
      | Some (JFloat m e) \<Rightarrow> m \<noteq> 0
      | _ \<Rightarrow> defaultValue)"

text \<open>An integer argument below \<open>2 ^ 53\<close> in size is read exactly, although the wire carries it as a float64.\<close>

lemma GetInt_wire:
  assumes "\<bar>n\<bar> < 2 ^ 53" "map_of m key = Some (JNum n)" "distinct (map fst m)"
  shows "GetInt conv (dec_any (JObj m)) key d = n"
proof -
  obtain x e where f: "f64 n = JFloat x e" "0 \<le> e" "x * 2 ^ nat e = n"
    using f64_small [OF assms(1)] by blast
  have "is_int64 n" using assms(1) by (auto simp: is_int64_def max_int64_def)
  moreover have "arg (dec_any (JObj m)) key = Some (f64 n)"
    using assms(2,3) by (simp add: arg_def GetArguments_def map_of_decoded del: map_of_eq_Some_iff)
  ultimately show ?thesis by (simp add: GetInt_def f float_to_int_def)
qed

lemma RequireString_GetString:
  "RequireString a key = Inr s \<Longrightarrow> GetString a key d = s" "RequireString a key = Inl e \<Longrightarrow> GetString a key d = d"
  by (auto simp: RequireString_def GetString_def split: option.splits json.splits)

end
