(* ===== verification/Mcp_Messages.thy ===== *)
theory Mcp_Messages
  imports Mcp_Tools
begin

text \<open>
  The JSON-RPC layer of the MCP messages (\<open>mcpcompat/mcp/jsonrpc.go\<close>, \<open>elicitation.go\<close>, \<open>prompts.go\<close>, \<open>resources.go\<close>, \<open>helpers.go\<close>): request
  identifiers, error details, notification parameters, the checks of elicitation parameters, and prompts.
\<close>

section \<open>Request identifiers\<close>

text \<open>The value of an identifier: nil, a string, an \<open>int64\<close> (\<open>JNum\<close>), a \<open>float64\<close>, or anything else. \<open>conv\<close> is the conversion of a float64 outside the range
  of \<open>int64\<close>; \<open>fmtFloat\<close> and \<open>sprint\<close> are the formats of \<open>strconv\<close> and \<open>fmt\<close>.\<close>

type_synonym RequestId = json

definition show_int :: "int \<Rightarrow> string" where
  "show_int n = (if n < 0 then CHR ''-'' # show_nat (nat (- n)) else show_nat (nat n))"

definition NewRequestId :: "json \<Rightarrow> RequestId" where
  "NewRequestId v = v"

definition RequestId_String :: "(int \<Rightarrow> int \<Rightarrow> int) \<Rightarrow> (int \<Rightarrow> int \<Rightarrow> string) \<Rightarrow> (json \<Rightarrow> string) \<Rightarrow> RequestId \<Rightarrow> string" where
  "RequestId_String conv fmtFloat sprint r =
     (case r of
        JStr v \<Rightarrow> ''string:'' @ v
      | JNum v \<Rightarrow> ''int64:'' @ show_int v
      | JFloat m e \<Rightarrow>
          if f64 (float_to_int conv m e) = JFloat m e then ''int64:'' @ show_int (float_to_int conv m e)
          else ''float64:'' @ fmtFloat m e
      | JNull \<Rightarrow> ''<nil>''
      | _ \<Rightarrow> ''unknown:'' @ sprint r)"

definition RequestId_IsNil :: "RequestId \<Rightarrow> bool" where
  "RequestId_IsNil r \<longleftrightarrow> r = JNull"

definition RequestId_MarshalJSON :: "RequestId \<Rightarrow> json" where
  "RequestId_MarshalJSON r = enc_any r"

text \<open>\<open>None\<close>: invalid request id.\<close>

definition RequestId_UnmarshalJSON :: "(int \<Rightarrow> int \<Rightarrow> int) \<Rightarrow> json \<Rightarrow> RequestId option" where
  "RequestId_UnmarshalJSON conv data =
     (if data = JNull then Some JNull
      else case dec_string data [] of
        (s, Fine) \<Rightarrow> Some (JStr s)
      | _ \<Rightarrow>
          (case dec_float data (0, 0) of
             ((m, e), Fine) \<Rightarrow>
               Some (if f64 (float_to_int conv m e) = JFloat m e then JNum (float_to_int conv m e) else JFloat m e)
           | _ \<Rightarrow> None))"

text \<open>Identifiers as a peer sends them: a string, an integer that a float64 holds, or a number with a fraction.\<close>

definition wire_id :: "RequestId \<Rightarrow> bool" where
  "wire_id r =
     (case r of JNull \<Rightarrow> True | JStr s \<Rightarrow> valid_utf8 s | JNum n \<Rightarrow> \<bar>n\<bar> < 2 ^ 53 | JFloat m e \<Rightarrow> canon_float m e \<and> e < 0 | _ \<Rightarrow> False)"

lemma float_to_int_small:
  assumes "\<bar>n\<bar> < 2 ^ 53"
  shows "\<exists>m e. f64 n = JFloat m e \<and> float_to_int conv m e = n"
proof -
  obtain m e where f: "f64 n = JFloat m e" "0 \<le> e" "m * 2 ^ nat e = n"
    using f64_small [OF assms] by blast
  moreover have "is_int64 n" using assms by (auto simp: is_int64_def max_int64_def)
  ultimately show ?thesis by (auto simp: float_to_int_def)
qed

lemma f64_exponent: "f64 n = JFloat m e \<Longrightarrow> 0 \<le> e"
  by (auto simp: f64_def Let_def split: prod.splits)

lemma f64_no_fraction: "e < 0 \<Longrightarrow> f64 n \<noteq> JFloat m e"
  using f64_exponent [of n m e] by auto

lemma show_nat_inj: "show_nat m = show_nat n \<longleftrightarrow> m = n"
  by (metis digits_val_show_nat option.inject)

lemma show_int_inj: "show_int m = show_int n \<longleftrightarrow> m = n"
proof -
  have d: "CHR ''-'' # s \<noteq> show_nat k" for s k
  proof
    assume "CHR ''-'' # s = show_nat k"
    then have "CHR ''-'' \<in> set (show_nat k)" by (metis list.set_intros(1))
    from show_nat_digits [OF this] show False by (simp add: is_digit_def)
  qed
  show ?thesis
    using d d [symmetric] by (auto simp: show_int_def show_nat_inj)
qed

text \<open>
  Request identifiers: an identifier read from the wire is written back as the same document, and two different identifiers never share
  the key that \<open>String\<close> gives them, provided that the float format is injective.
\<close>

theorem request_id_round_trip:
  assumes "wire_id r" "\<And>m e m' e'. canon_float m e \<Longrightarrow> canon_float m' e' \<Longrightarrow> fmtFloat m e = fmtFloat m' e' \<Longrightarrow> m = m' \<and> e = e'"
  shows "RequestId_UnmarshalJSON conv (RequestId_MarshalJSON r) = Some r \<and>
    (\<forall>r'. wire_id r' \<and> RequestId_String conv fmtFloat sprint r = RequestId_String conv fmtFloat sprint r' \<longrightarrow> r = r')"
proof (intro conjI allI impI)
  show "RequestId_UnmarshalJSON conv (RequestId_MarshalJSON r) = Some r"
  proof (cases r)
    case (JNum n)
    then have "\<bar>n\<bar> < 2 ^ 53" using assms(1) by (simp add: wire_id_def)
    from float_to_int_small [OF this, of conv] obtain m e where f: "f64 n = JFloat m e" "float_to_int conv m e = n" by blast
    then show ?thesis by (simp add: JNum RequestId_UnmarshalJSON_def RequestId_MarshalJSON_def)
  next
    case (JFloat m e)
    then show ?thesis
      using assms(1) f64_exponent [of "float_to_int conv m e" m e] by (auto simp: wire_id_def RequestId_UnmarshalJSON_def RequestId_MarshalJSON_def enc_float_def)
  qed (use assms(1) in \<open>auto simp: wire_id_def RequestId_UnmarshalJSON_def RequestId_MarshalJSON_def\<close>)
next
  fix r' assume r': "wire_id r' \<and> RequestId_String conv fmtFloat sprint r = RequestId_String conv fmtFloat sprint r'"
  show "r = r'"
    using r' assms
    by (cases r; cases r') (auto simp: wire_id_def RequestId_String_def show_int_inj f64_no_fraction split: if_splits)
qed

text \<open>A larger integer identifier comes back as a different number.\<close>

lemma large_request_id_changes:
  "RequestId_UnmarshalJSON conv (JNum 9007199254740993) = Some (JNum 9007199254740992)"
  by (simp add: RequestId_UnmarshalJSON_def f64_def bitlen.simps round_shift_def strip2.simps float_to_int_def is_int64_def max_int64_def)

theorem request_id_round_trip_witness:
  "RequestId_UnmarshalJSON (\<lambda>m e. 0) (RequestId_MarshalJSON (JNum 7)) = Some (JNum 7) \<and>
   RequestId_String (\<lambda>m e. 0) (\<lambda>m e. show_int m @ '':'' @ show_int e) (\<lambda>j. []) (JNum 7) = ''int64:7'' \<and>
   RequestId_String (\<lambda>m e. 0) (\<lambda>m e. show_int m @ '':'' @ show_int e) (\<lambda>j. []) (JStr ''7'') \<noteq> ''int64:7''"
proof -
  let ?f = "\<lambda>m e. show_int m @ '':'' @ show_int e"
  have colon: "CHR '':'' \<notin> set (show_int n)" for n
    using show_nat_digits [of "CHR '':''"] by (auto simp: show_int_def is_digit_def)
  have "m = m' \<and> e = e'" if "?f m e = ?f m' e'" for m e m' e'
  proof -
    have "split_on CHR '':'' (?f m e) = split_on CHR '':'' (?f m' e')" using that by simp
    then show ?thesis using colon by (simp add: split_on_append split_on_no_sep show_int_inj)
  qed
  then have "RequestId_UnmarshalJSON (\<lambda>m e. 0) (RequestId_MarshalJSON (JNum 7)) = Some (JNum 7) \<and>
    (\<forall>r'. wire_id r' \<and> RequestId_String (\<lambda>m e. 0) ?f (\<lambda>j. []) (JNum 7) = RequestId_String (\<lambda>m e. 0) ?f (\<lambda>j. []) r' \<longrightarrow> JNum 7 = r')"
    by (intro request_id_round_trip) (simp_all add: wire_id_def)
  moreover have "RequestId_String (\<lambda>m e. 0) ?f (\<lambda>j. []) (JNum 7) = ''int64:7''"
    by (simp add: RequestId_String_def show_int_def show_nat.simps) code_simp
  moreover have "wire_id (JStr ''7'')" by (simp add: wire_id_def valid_utf8_ascii)
  ultimately show ?thesis by (metis json.distinct)
qed

section \<open>Error details\<close>

record JSONRPCErrorDetails =
  ed_Code :: int
  ed_Message :: string
  ed_Data :: json

abbreviation PARSE_ERROR :: int where "PARSE_ERROR \<equiv> -32700"
abbreviation INVALID_REQUEST :: int where "INVALID_REQUEST \<equiv> -32600"
abbreviation METHOD_NOT_FOUND :: int where "METHOD_NOT_FOUND \<equiv> -32601"
abbreviation INVALID_PARAMS :: int where "INVALID_PARAMS \<equiv> -32602"
abbreviation INTERNAL_ERROR :: int where "INTERNAL_ERROR \<equiv> -32603"

definition NewJSONRPCErrorDetails :: "int \<Rightarrow> string \<Rightarrow> json \<Rightarrow> JSONRPCErrorDetails" where
  "NewJSONRPCErrorDetails code message data = \<lparr>ed_Code = code, ed_Message = message, ed_Data = data\<rparr>"

definition enc_ErrorDetails :: "JSONRPCErrorDetails \<Rightarrow> json" where
  "enc_ErrorDetails e = JObj
     (omit False ''code'' (JNum (ed_Code e)) @
      omit False ''message'' (enc_string (ed_Message e)) @
      omit (ed_Data e = JNull) ''data'' (enc_any (ed_Data e)) @ [])"

definition upd_ErrorDetails :: "string \<Rightarrow> JSONRPCErrorDetails decoder" where
  "upd_ErrorDetails k j x =
     (if key_eq k ''code'' then into (dec_int j (ed_Code x)) (\<lambda>v. x\<lparr>ed_Code := v\<rparr>)
      else if key_eq k ''message'' then into (dec_string j (ed_Message x)) (\<lambda>v. x\<lparr>ed_Message := v\<rparr>)
      else if key_eq k ''data'' then into (dec_iface j (ed_Data x)) (\<lambda>v. x\<lparr>ed_Data := v\<rparr>)
      else (x, Fine))"

text \<open>The object shape first, then a bare string; the second decoding works on what the first one left.\<close>

definition ErrorDetails_UnmarshalJSON :: "JSONRPCErrorDetails decoder" where
  "ErrorDetails_UnmarshalJSON j e =
     (case dec_struct upd_ErrorDetails j e of
        (e', Fine) \<Rightarrow> (e', Fine)
      | (e', _) \<Rightarrow>
          (case dec_string j [] of
             (msg, Fine) \<Rightarrow> (e'\<lparr>ed_Code := INTERNAL_ERROR, ed_Message := msg\<rparr>, Fine)
           | _ \<Rightarrow> (e', Abort)))"

lemma error_keys [json_dec]: "ascii_fold ''code'' = ''code''" "ascii_fold ''message'' = ''message''"
  by (code_simp)+

lemmas upd_error [json_dec] = upd_ErrorDetails_def

text \<open>
  Error details: an encoded error object is given back, a bare string becomes an internal error with that message, and
  every other shape is an error.
\<close>

theorem error_details_decoding:
  "(valid_utf8 (ed_Message e) \<and> is_int64 (ed_Code e) \<and> wf_any (ed_Data e) \<longrightarrow>
      ErrorDetails_UnmarshalJSON (enc_ErrorDetails e) \<lparr>ed_Code = 0, ed_Message = [], ed_Data = JNull\<rparr> = (e, Fine)) \<and>
   ErrorDetails_UnmarshalJSON (JStr msg) x = (x\<lparr>ed_Code := INTERNAL_ERROR, ed_Message := msg\<rparr>, Fine) \<and>
   (snd (ErrorDetails_UnmarshalJSON j x) = Fine \<longrightarrow> j = JNull \<or> (\<exists>m. j = JObj m) \<or> (\<exists>s. j = JStr s))"
proof (intro conjI impI)
  assume "valid_utf8 (ed_Message e) \<and> is_int64 (ed_Code e) \<and> wf_any (ed_Data e)"
  then have "dec_struct upd_ErrorDetails (enc_ErrorDetails e) \<lparr>ed_Code = 0, ed_Message = [], ed_Data = JNull\<rparr> = (e, Fine)"
    unfolding enc_ErrorDetails_def dec_struct_def json.case
    by - ((rule dec_member, (simp add: json_dec)[1], (simp; fail)[1])+, simp)
  then show "ErrorDetails_UnmarshalJSON (enc_ErrorDetails e) \<lparr>ed_Code = 0, ed_Message = [], ed_Data = JNull\<rparr> = (e, Fine)"
    by (simp add: ErrorDetails_UnmarshalJSON_def)
next
  assume "snd (ErrorDetails_UnmarshalJSON j x) = Fine"
  then show "j = JNull \<or> (\<exists>m. j = JObj m) \<or> (\<exists>s. j = JStr s)"
    by (cases j) (auto simp: ErrorDetails_UnmarshalJSON_def dec_struct_def)
qed (simp add: ErrorDetails_UnmarshalJSON_def dec_struct_def)

section \<open>Notification parameters\<close>

record NotificationParams =
  np_Meta :: "(string \<times> json) list option"
  np_AdditionalFields :: "(string \<times> json) list option"

definition NotificationParams_MarshalJSON :: "NotificationParams \<Rightarrow> json" where
  "NotificationParams_MarshalJSON p =
     (let m = (case np_Meta p of None \<Rightarrow> [] | Some meta \<Rightarrow> [(''_meta'', JObj meta)])
      in enc_any (JObj (map_puts (map_del [''_meta''] (case np_AdditionalFields p of None \<Rightarrow> [] | Some a \<Rightarrow> a)) m)))"

definition NotificationParams_UnmarshalJSON :: "NotificationParams decoder" where
  "NotificationParams_UnmarshalJSON j p =
     (case dec_map JNull dec_iface j None of
        (m, Fine) \<Rightarrow>
          let m = (case m of None \<Rightarrow> [] | Some m \<Rightarrow> m);
              meta = (case np_Meta p of None \<Rightarrow> [] | Some x \<Rightarrow> x);
              add = (case np_AdditionalFields p of None \<Rightarrow> [] | Some x \<Rightarrow> x)
          in (\<lparr>np_Meta = Some (case map_of m ''_meta'' of Some (JObj meta') \<Rightarrow> meta' | _ \<Rightarrow> meta),
               np_AdditionalFields = Some (map_puts (map_del [''_meta''] m) add)\<rparr>, Fine)
      | _ \<Rightarrow> (p, Abort))"

definition zero_NotificationParams :: NotificationParams where
  "zero_NotificationParams = \<lparr>np_Meta = None, np_AdditionalFields = None\<rparr>"

text \<open>
  Notification parameters: metadata and additional fields are given back by decoding their encoding. Parameters without metadata come
  back with empty metadata, which the next encoding writes as an empty object.
\<close>

theorem notification_params_round_trip:
  assumes "np_Meta p = Some meta" "np_AdditionalFields p = Some add" "wf_map meta" "wf_map add" "''_meta'' \<notin> fst ` set add"
  shows "NotificationParams_UnmarshalJSON (NotificationParams_MarshalJSON p) zero_NotificationParams = (p, Fine) \<and>
    NotificationParams_UnmarshalJSON (NotificationParams_MarshalJSON (p\<lparr>np_Meta := None\<rparr>)) zero_NotificationParams = (p\<lparr>np_Meta := Some []\<rparr>, Fine)"
proof -
  have add: "map_del [''_meta''] add = add"
    using assms(5) by (force simp: map_del_def intro!: filter_True)
  have d: "map_of add ''_meta'' = None" using assms(5) by (metis map_of_eq_None_iff)
  have g: "go_map add" using assms(4) by simp
  have rt: "dec_map JNull dec_iface (enc_any (JObj m)) None = (Some m, Fine)" if "wf_map m" for m
    using dec_enc_any_map [of "Some m" JNull] that by (simp add: enc_map_def)
  have wf: "wf_map (map_put ''_meta'' (JObj meta) add)"
  proof -
    have "(k, v) \<in> set (map_put ''_meta'' (JObj meta) add) \<Longrightarrow> valid_utf8 k \<and> wf_any v" for k v
      using map_of_is_SomeI [OF go_map_distinct [OF go_map_put [OF g]], of k v "''_meta''" "JObj meta"] assms(3,4)
      by (auto simp: list_all_iff valid_utf8_ascii split: if_splits dest: map_of_SomeD)
    then show ?thesis using g by (auto simp: list_all_iff)
  qed
  have puts: "map_puts add [(''_meta'', JObj meta)] = map_put ''_meta'' (JObj meta) add"
    using g d by (intro go_map_eqI) (auto simp: map_of_puts map_of_rev_distinct go_map_distinct fun_eq_iff map_add_def split: option.splits)
  have del: "map_del [''_meta''] (map_put ''_meta'' (JObj meta) add) = add"
    using g d by (intro go_map_eqI) (auto simp: map_of_del restrict_map_def fun_eq_iff)
  show ?thesis
    using rt [OF wf] rt [OF assms(4)] assms(1,2) d g
    by (simp add: NotificationParams_UnmarshalJSON_def NotificationParams_MarshalJSON_def add puts del map_puts_sorted
        zero_NotificationParams_def del: enc_any.simps)
qed

theorem error_details_decoding_witness:
  "ErrorDetails_UnmarshalJSON (enc_ErrorDetails (NewJSONRPCErrorDetails METHOD_NOT_FOUND ''no'' (JBool True)))
     \<lparr>ed_Code = 0, ed_Message = [], ed_Data = JNull\<rparr> = (NewJSONRPCErrorDetails METHOD_NOT_FOUND ''no'' (JBool True), Fine)"
  using error_details_decoding [of "NewJSONRPCErrorDetails METHOD_NOT_FOUND ''no'' (JBool True)"]
  by (simp add: NewJSONRPCErrorDetails_def is_int64_def max_int64_def valid_utf8_ascii)

theorem notification_params_round_trip_witness:
  "NotificationParams_UnmarshalJSON (NotificationParams_MarshalJSON \<lparr>np_Meta = Some [(''k'', JBool True)], np_AdditionalFields = Some [(''level'', JStr ''info'')]\<rparr>)
     zero_NotificationParams = (\<lparr>np_Meta = Some [(''k'', JBool True)], np_AdditionalFields = Some [(''level'', JStr ''info'')]\<rparr>, Fine)"
  by (rule notification_params_round_trip [THEN conjunct1, of _ "[(''k'', JBool True)]" "[(''level'', JStr ''info'')]"])
     (simp_all add: valid_utf8_ascii)

section \<open>Responses, prompts, resources and elicitation\<close>

record JSONRPCResponse =
  jr_JSONRPC :: string
  jr_ID :: RequestId
  jr_Result :: json

definition NewJSONRPCResultResponse :: "RequestId \<Rightarrow> json \<Rightarrow> JSONRPCResponse" where
  "NewJSONRPCResultResponse i result = \<lparr>jr_JSONRPC = ''2.0'', jr_ID = i, jr_Result = result\<rparr>"

record PromptArgument =
  pa_Name :: string
  pa_Title :: string
  pa_Description :: string
  pa_Required :: bool

record Prompt =
  p_Meta :: "Meta option"
  p_Name :: string
  p_Title :: string
  p_Description :: string
  p_Arguments :: "PromptArgument list option"
  p_Icons :: "Icon list option"

record PromptMessage =
  pm_Role :: string
  pm_Content :: "Content option"

definition NewPrompt :: "string \<Rightarrow> (Prompt \<Rightarrow> Prompt) list \<Rightarrow> Prompt" where
  "NewPrompt name opts =
     foldl (\<lambda>p opt. opt p) \<lparr>p_Meta = None, p_Name = name, p_Title = [], p_Description = [], p_Arguments = None, p_Icons = None\<rparr> opts"

definition WithPromptDescription :: "string \<Rightarrow> Prompt \<Rightarrow> Prompt" where
  "WithPromptDescription description p = p\<lparr>p_Description := description\<rparr>"

definition NewPromptMessage :: "string \<Rightarrow> Content option \<Rightarrow> PromptMessage" where
  "NewPromptMessage role content = \<lparr>pm_Role = role, pm_Content = content\<rparr>"

record GetPromptResult =
  gp_Meta :: "Meta option"
  gp_Description :: string
  gp_Messages :: "PromptMessage list option"
  gp_resultType :: string

definition prompt_NeedsInput :: "GetPromptResult \<Rightarrow> bool" where
  "prompt_NeedsInput r \<longleftrightarrow> gp_resultType r = ''input_required''"

definition prompt_SetNeedsInput :: "bool \<Rightarrow> GetPromptResult \<Rightarrow> GetPromptResult" where
  "prompt_SetNeedsInput needsInput r = r\<lparr>gp_resultType := (if needsInput then ''input_required'' else [])\<rparr>"

record ReadResourceResult =
  rr_Meta :: "Meta option"
  rr_Contents :: "ResourceContents list option"
  rr_resultType :: string

definition resource_NeedsInput :: "ReadResourceResult \<Rightarrow> bool" where
  "resource_NeedsInput r \<longleftrightarrow> rr_resultType r = ''input_required''"

definition resource_SetNeedsInput :: "bool \<Rightarrow> ReadResourceResult \<Rightarrow> ReadResourceResult" where
  "resource_SetNeedsInput needsInput r = r\<lparr>rr_resultType := (if needsInput then ''input_required'' else [])\<rparr>"

lemma SetNeedsInput_NeedsInput [simp]:
  "prompt_NeedsInput (prompt_SetNeedsInput b r) \<longleftrightarrow> b" "resource_NeedsInput (resource_SetNeedsInput b s) \<longleftrightarrow> b"
  by (simp_all add: prompt_NeedsInput_def prompt_SetNeedsInput_def resource_NeedsInput_def resource_SetNeedsInput_def)

record ElicitationParams =
  ep_Meta :: "Meta option"
  ep_Mode :: string
  ep_Message :: string
  ep_RequestedSchema :: json
  ep_ElicitationID :: string
  ep_URL :: string

datatype elicitation_err = ErrSchemaRequired | ErrElicitationIdRequired | ErrUrlRequired | ErrInvalidMode string

definition ElicitationParams_Validate :: "ElicitationParams \<Rightarrow> elicitation_err option" where
  "ElicitationParams_Validate p =
     (let mode = (if ep_Mode p = [] then ''form'' else ep_Mode p)
      in if mode = ''form'' then (if ep_RequestedSchema p = JNull then Some ErrSchemaRequired else None)
         else if mode = ''url'' then
           (if ep_ElicitationID p = [] then Some ErrElicitationIdRequired else if ep_URL p = [] then Some ErrUrlRequired else None)
         else Some (ErrInvalidMode mode))"

lemma ElicitationParams_valid_iff:
  "ElicitationParams_Validate p = None \<longleftrightarrow>
     ep_Mode p \<in> {[], ''form''} \<and> ep_RequestedSchema p \<noteq> JNull \<or>
     ep_Mode p = ''url'' \<and> ep_ElicitationID p \<noteq> [] \<and> ep_URL p \<noteq> []"
  by (auto simp: ElicitationParams_Validate_def Let_def)

end
