(* ===== verification/Client_Errors.thy ===== *)
theory Client_Errors
  imports Net_Fetch Validation
begin

text \<open>
  The error side of the MCP client (\<open>mcpcompat/client/rfc9728.go\<close>, \<open>errorbody.go\<close>, \<open>errors.go\<close> and
  \<open>mcpcompat/client/transport/errors.go\<close>): the parser of \<open>WWW-Authenticate\<close> challenges, the holder that
  captures the first failing HTTP response of a call, and the mapping of a go-sdk error onto the
  sentinels a caller tests with \<open>errors.Is\<close>.

  A position in the header being parsed is the text that remains from it. The parser's outer loop is a
  \<open>partial_function\<close>, so that it returns is a theorem. Parameter: \<open>uni\<close>, the Unicode case mapping of
  \<open>strings.ToLower\<close> on text with non-ASCII bytes.
\<close>

section \<open>WWW-Authenticate challenges (rfc9728.go)\<close>

definition isAuthTokenChar :: "char \<Rightarrow> bool" where
  "isAuthTokenChar c \<longleftrightarrow>
     97 \<le> ord c \<and> ord c \<le> 122 \<or> 65 \<le> ord c \<and> ord c \<le> 90 \<or> 48 \<le> ord c \<and> ord c \<le> 57 \<or>
     c \<in> set (''!#$%&'' @ [CHR 0x27] @ ''*+-.^_'' @ [CHR 0x60] @ ''|~'')"

definition auth_blank :: "char \<Rightarrow> bool" where
  "auth_blank c \<longleftrightarrow> c = CHR '' '' \<or> c = CHR 0x09"

abbreviation dquote :: char where "dquote \<equiv> CHR 0x22"
abbreviation backslash :: char where "backslash \<equiv> CHR 0x5C"

text \<open>The body of a quoted string, after its opening quote; \<open>b\<close> is the string builder.\<close>

fun parse_quoted :: "string \<Rightarrow> string \<Rightarrow> string \<times> string \<times> bool" where
  "parse_quoted b [] = ([], [], False)"
| "parse_quoted b (c # s) =
     (if c = backslash then (case s of [] \<Rightarrow> ([], [], False) | d # s' \<Rightarrow> parse_quoted (b @ [d]) s')
      else if c = dquote then (b, s, True)
      else parse_quoted (b @ [c]) s)"

definition parseAuthParamValue :: "string \<Rightarrow> string \<times> string \<times> bool" where
  "parseAuthParamValue s =
     (if s = [] then ([], [], False)
      else if hd s = dquote then parse_quoted [] (tl s)
      else (takeWhile isAuthTokenChar s, dropWhile isAuthTokenChar s, takeWhile isAuthTokenChar s \<noteq> []))"

text \<open>One iteration of the outer loop: the remaining text and the values found so far.\<close>

definition extract_step :: "string \<Rightarrow> string list \<Rightarrow> string \<times> string list" where
  "extract_step header out =
     (let s = dropWhile (\<lambda>c. \<not> isAuthTokenChar c) header;
          name = takeWhile isAuthTokenChar s;
          s = dropWhile auth_blank (dropWhile isAuthTokenChar s)
      in if s = [] \<or> hd s \<noteq> CHR ''='' then (s, out)
         else let (value, s', ok) = parseAuthParamValue (dropWhile auth_blank (tl s))
              in if \<not> ok then (s', out)
                 else if value \<noteq> [] \<and> equal_fold name ''resource_metadata'' then (s', out @ [value])
                 else (s', out))"

partial_function (option) extract_urls :: "string \<Rightarrow> string list \<Rightarrow> string list option" where
  "extract_urls header out =
     (if header = [] then Some out
      else extract_urls (fst (extract_step header out)) (snd (extract_step header out)))"

definition extractResourceMetadataURLs :: "string \<Rightarrow> string list" where
  "extractResourceMetadataURLs header = (case extract_urls header [] of Some out \<Rightarrow> out | None \<Rightarrow> [])"

fun extractResourceMetadataURLFromHeaders :: "string list \<Rightarrow> string" where
  "extractResourceMetadataURLFromHeaders [] = []"
| "extractResourceMetadataURLFromHeaders (header # hs) =
     (case find (\<lambda>u. u \<noteq> []) (extractResourceMetadataURLs header) of
        Some u \<Rightarrow> u
      | None \<Rightarrow> extractResourceMetadataURLFromHeaders hs)"

text \<open>The reference printer: a scheme and its parameters, each with a quoted or a token value.\<close>

type_synonym auth_param = "bool \<times> string \<times> string"

definition quote_value :: "string \<Rightarrow> string" where
  "quote_value v =
     dquote # concat (map (\<lambda>c. if c = dquote \<or> c = backslash then [backslash, c] else [c]) v) @ [dquote]"

definition print_param :: "auth_param \<Rightarrow> string" where
  "print_param p = (case p of (q, n, v) \<Rightarrow> n @ ''='' @ (if q then quote_value v else v))"

fun print_params :: "auth_param list \<Rightarrow> string" where
  "print_params [] = []"
| "print_params [p] = print_param p"
| "print_params (p # ps) = print_param p @ '', '' @ print_params ps"

definition print_challenge :: "string \<Rightarrow> auth_param list \<Rightarrow> string" where
  "print_challenge scheme ps = scheme @ '' '' @ print_params ps"

definition auth_token :: "string \<Rightarrow> bool" where
  "auth_token s \<longleftrightarrow> s \<noteq> [] \<and> list_all isAuthTokenChar s"

definition wf_param :: "auth_param \<Rightarrow> bool" where
  "wf_param p = (case p of (q, n, v) \<Rightarrow> auth_token n \<and> (q \<or> auth_token v))"

definition metadata_values :: "auth_param list \<Rightarrow> string list" where
  "metadata_values ps =
     map (snd \<circ> snd) (filter (\<lambda>(q, n, v). v \<noteq> [] \<and> equal_fold n ''resource_metadata'') ps)"

section \<open>The parser returns\<close>

lemma parse_quoted_rest: "parse_quoted b s = (v, s', ok) \<Longrightarrow> length s' \<le> length s"
  by (induction b s rule: parse_quoted.induct) (auto split: if_splits list.splits)

lemma parse_value_rest: "parseAuthParamValue s = (v, s', ok) \<Longrightarrow> length s' \<le> length s"
  by (auto simp: parseAuthParamValue_def length_dropWhile_le dest: parse_quoted_rest split: if_splits)

lemma skip_word_shorter:
  assumes "s \<noteq> []"
  shows "length (dropWhile auth_blank (dropWhile P (dropWhile (\<lambda>c. \<not> P c) s))) < length s"
proof -
  have "length (dropWhile P (dropWhile (\<lambda>c. \<not> P c) s)) < length s"
  proof (cases s)
    case (Cons c cs)
    have "length (dropWhile P xs) \<le> length xs" for xs P by (rule length_dropWhile_le)
    from this [of P "dropWhile (\<lambda>c. \<not> P c) cs"] this [of "\<lambda>c. \<not> P c" cs] this [of P cs] show ?thesis
      by (auto simp: Cons)
  qed (use assms in simp)
  then show ?thesis using length_dropWhile_le [of auth_blank] order.strict_trans1 by blast
qed

lemma extract_step_shorter:
  assumes "header \<noteq> []"
  shows "length (fst (extract_step header out)) < length header"
proof -
  define s where
    "s = dropWhile auth_blank (dropWhile isAuthTokenChar (dropWhile (\<lambda>c. \<not> isAuthTokenChar c) header))"
  have "length s < length header" unfolding s_def by (rule skip_word_shorter [OF assms])
  moreover have "length s' \<le> length s" if "parseAuthParamValue (dropWhile auth_blank (tl s)) = (v, s', ok)" for v s' ok
    using parse_value_rest [OF that] length_dropWhile_le [of auth_blank "tl s"] by simp
  ultimately show ?thesis
    by (cases "parseAuthParamValue (dropWhile auth_blank (tl s))")
       (auto simp: extract_step_def Let_def s_def [symmetric] intro: le_less_trans)
qed

lemma extract_step_nonempty: "[] \<notin> set out \<Longrightarrow> [] \<notin> set (snd (extract_step header out))"
  by (auto simp: extract_step_def Let_def split: prod.splits)

text \<open>
  C29. The loop over a \<open>WWW-Authenticate\<close> header returns on every header, malformed ones included
  (a value without its closing quote, a trailing backslash, a missing \<open>=\<close>): every iteration consumes input.
  An empty value is never reported.
\<close>
theorem extract_urls_returns: "\<exists>us. extract_urls header [] = Some us \<and> [] \<notin> set us"
proof -
  have "[] \<notin> set out \<Longrightarrow> \<exists>us. extract_urls header out = Some us \<and> [] \<notin> set us" for out
  proof (induction "length header" arbitrary: header out rule: less_induct)
    case less
    show ?case
    proof (cases "header = []")
      case False
      with less.hyps [OF extract_step_shorter [OF False] extract_step_nonempty [OF less.prems]] show ?thesis
        by (subst extract_urls.simps) simp
    qed (use less.prems in \<open>simp add: extract_urls.simps\<close>)
  qed
  then show ?thesis by simp
qed

section \<open>Parsing a printed challenge\<close>

lemma parse_quoted_quote:
  "parse_quoted b (concat (map (\<lambda>c. if c = dquote \<or> c = backslash then [backslash, c] else [c]) v) @ dquote # s) = (b @ v, s, True)"
  by (induction v arbitrary: b) simp_all

definition delimited :: "string \<Rightarrow> bool" where
  "delimited s \<longleftrightarrow> s = [] \<or> \<not> isAuthTokenChar (hd s)"

lemma token_char_facts [simp]:
  "\<not> isAuthTokenChar CHR '' ''" "\<not> isAuthTokenChar CHR '',''" "\<not> isAuthTokenChar CHR ''=''" "\<not> isAuthTokenChar dquote"
  "\<not> isAuthTokenChar CHR 0x09"
  by (simp_all add: isAuthTokenChar_def)

lemma token_not_blank: "isAuthTokenChar c \<Longrightarrow> \<not> auth_blank c"
  by (auto simp: auth_blank_def)

lemma take_token: "list_all isAuthTokenChar n \<Longrightarrow> delimited s \<Longrightarrow>
    takeWhile isAuthTokenChar (n @ s) = n \<and> dropWhile isAuthTokenChar (n @ s) = s"
  by (induction n) (cases s; auto simp: delimited_def)+

lemma parse_printed_value:
  assumes "q \<or> auth_token v" "delimited s"
  shows "parseAuthParamValue (dropWhile auth_blank ((if q then quote_value v else v) @ s)) = (v, s, True)"
proof (cases q)
  case True
  then show ?thesis
    by (simp add: quote_value_def parseAuthParamValue_def auth_blank_def parse_quoted_quote)
next
  case False
  with assms obtain c cs where v: "v = c # cs" "isAuthTokenChar c" "list_all isAuthTokenChar v"
    by (cases v) (auto simp: auth_token_def)
  then have "c \<noteq> dquote" by auto
  with take_token [OF v(3) assms(2)] v(1,2) False show ?thesis
    by (simp add: parseAuthParamValue_def token_not_blank)
qed

lemma skip_separators:
  assumes "list_all (\<lambda>c. \<not> isAuthTokenChar c) sep" "auth_token n"
  shows "dropWhile (\<lambda>c. \<not> isAuthTokenChar c) (sep @ n @ s) = n @ s"
  using assms by (induction sep) (cases n; auto simp: auth_token_def)+

lemma extract_step_param:
  assumes "list_all (\<lambda>c. \<not> isAuthTokenChar c) sep" "wf_param p" "delimited s"
  shows "extract_step (sep @ print_param p @ s) out = (s, out @ metadata_values [p])"
proof -
  obtain q n v where p: "p = (q, n, v)" by (cases p)
  with assms(2) have n: "auth_token n" and v: "q \<or> auth_token v" by (auto simp: wf_param_def)
  have tok: "takeWhile isAuthTokenChar (n @ ''='' @ t) = n \<and> dropWhile isAuthTokenChar (n @ ''='' @ t) = ''='' @ t" for t
    using n by (intro take_token) (auto simp: auth_token_def delimited_def)
  have eq: "\<not> auth_blank CHR ''=''" by (simp add: auth_blank_def)
  note skip = skip_separators [OF assms(1) n]
  show ?thesis
    using parse_printed_value [OF v assms(3)] tok eq
    by (simp add: extract_step_def Let_def p print_param_def skip metadata_values_def)
qed

lemma extract_step_scheme:
  assumes "auth_token scheme" "auth_token n"
  shows "extract_step (scheme @ '' '' @ n @ s) out = (n @ s, out)"
proof -
  have tok: "takeWhile isAuthTokenChar (scheme @ '' '' @ n @ s) = scheme \<and> dropWhile isAuthTokenChar (scheme @ '' '' @ n @ s) = '' '' @ n @ s"
    using assms(1) by (intro take_token) (auto simp: auth_token_def delimited_def)
  have skip: "dropWhile (\<lambda>c. \<not> isAuthTokenChar c) (scheme @ '' '' @ n @ s) = scheme @ '' '' @ n @ s"
    using skip_separators [of "[]" scheme "'' '' @ n @ s"] assms(1) by simp
  obtain c cs where n: "n = c # cs" "isAuthTokenChar c" using assms(2) by (cases n) (auto simp: auth_token_def)
  then have "c \<noteq> CHR ''=''" "\<not> auth_blank c" by (auto simp: token_not_blank)
  moreover have "auth_blank CHR '' ''" by (simp add: auth_blank_def)
  ultimately show ?thesis using n tok skip by (simp add: extract_step_def Let_def)
qed

lemma metadata_values_Cons: "metadata_values (p # ps) = metadata_values [p] @ metadata_values ps"
  by (simp add: metadata_values_def)

lemma print_param_not_Nil [simp]: "print_param p \<noteq> []"
  by (auto simp: print_param_def split: prod.splits)

lemma extract_urls_params:
  assumes "list_all (\<lambda>c. \<not> isAuthTokenChar c) sep" "list_all wf_param ps" "ps \<noteq> []"
  shows "extract_urls (sep @ print_params ps) out = Some (out @ metadata_values ps)"
  using assms
proof (induction ps arbitrary: sep out rule: print_params.induct)
  case (2 p)
  have "extract_step (sep @ print_param p) out = ([], out @ metadata_values [p])"
    using extract_step_param [of sep p "[]" out] 2 by (simp add: delimited_def)
  then show ?case by (subst extract_urls.simps) (simp add: extract_urls.simps)
next
  case (3 p p' ps)
  have "extract_step (sep @ print_param p @ '', '' @ print_params (p' # ps)) out
      = ('', '' @ print_params (p' # ps), out @ metadata_values [p])"
    using 3 by (intro extract_step_param) (simp_all add: delimited_def)
  moreover have "extract_urls ('', '' @ print_params (p' # ps)) (out @ metadata_values [p])
      = Some ((out @ metadata_values [p]) @ metadata_values (p' # ps))"
    using 3 by (intro "3.IH") auto
  ultimately show ?case
    by (subst extract_urls.simps) (simp add: metadata_values_Cons [of p "p' # ps"])
qed simp

text \<open>
  C30. Every challenge is read back exactly: for any scheme and parameters, each printed as a token or as
  a quoted string over arbitrary bytes with its quotes and backslashes escaped, the parser returns the non-empty
  \<open>resource_metadata\<close> values in order, whatever the case of the name. Text inside another parameter's quoted
  value, such as \<open>realm="resource_metadata=..."\<close>, is never taken for a parameter.
\<close>
theorem challenge_round_trip:
  assumes "auth_token scheme" "list_all wf_param ps"
  shows "extractResourceMetadataURLs (print_challenge scheme ps) = metadata_values ps"
proof (cases ps)
  case Nil
  have "extract_step (scheme @ '' '') [] = ([], [])"
  proof -
    have "takeWhile isAuthTokenChar (scheme @ '' '') = scheme \<and> dropWhile isAuthTokenChar (scheme @ '' '') = '' ''"
      using assms(1) by (intro take_token) (auto simp: auth_token_def delimited_def)
    moreover have "dropWhile (\<lambda>c. \<not> isAuthTokenChar c) (scheme @ '' '') = scheme @ '' ''"
      using skip_separators [of "[]" scheme "'' ''"] assms(1) by simp
    ultimately show ?thesis by (simp add: extract_step_def Let_def auth_blank_def)
  qed
  then have "extract_urls (scheme @ '' '') [] = Some []"
    by (subst extract_urls.simps) (simp add: extract_urls.simps)
  then show ?thesis
    by (simp add: Nil print_challenge_def extractResourceMetadataURLs_def metadata_values_def)
next
  case (Cons p ps')
  obtain q n v where p: "p = (q, n, v)" by (cases p)
  with assms(2) Cons have n: "auth_token n" by (simp add: wf_param_def)
  obtain t where t: "print_params ps = n @ t"
    using Cons p by (cases ps') (auto simp: print_param_def)
  have "extract_step (scheme @ '' '' @ print_params ps) [] = (print_params ps, [])"
    unfolding t by (rule extract_step_scheme [OF assms(1) n])
  moreover have "extract_urls (print_params ps) [] = Some (metadata_values ps)"
    using extract_urls_params [of "[]" ps "[]"] assms(2) Cons by simp
  ultimately have "extract_urls (scheme @ '' '' @ print_params ps) [] = Some (metadata_values ps)"
    by (subst extract_urls.simps) simp
  then show ?thesis by (simp add: print_challenge_def extractResourceMetadataURLs_def)
qed

section \<open>Error values of the client\<close>

datatype client_sentinel =
    ErrAuthorizationRequired | ErrOAuthAuthorizationRequired | ErrUnauthorized | ErrLegacySSEServer
  | ErrSessionTerminated | ErrMethodNotFound

definition sentinel_text :: "client_sentinel \<Rightarrow> string" where
  "sentinel_text s =
     (case s of
        ErrAuthorizationRequired \<Rightarrow> ''authorization required''
      | ErrOAuthAuthorizationRequired \<Rightarrow> ''no valid token available, authorization required''
      | ErrUnauthorized \<Rightarrow> ''unauthorized (401)''
      | ErrLegacySSEServer \<Rightarrow> ''server returned 4xx for initialize POST, likely a legacy SSE server''
      | ErrSessionTerminated \<Rightarrow> ''session terminated (404). need to re-initialize''
      | ErrMethodNotFound \<Rightarrow> ''method not found'')"

text \<open>\<open>Wrap pre e post\<close> is \<open>fmt.Errorf\<close> with the text around its \<open>%w\<close>; \<open>RpcError\<close> is the go-sdk's
  \<open>*jsonrpc.Error\<close>, its code and the text its \<open>Error\<close> method returns. A nil error is \<open>None\<close>.\<close>

datatype cerr =
    Plain string
  | RpcError int string
  | Sentinel client_sentinel
  | Wrap string cerr string
  | Join "cerr list"
  | TransportError cerr
  | AuthorizationRequiredError string

fun Error_text :: "cerr \<Rightarrow> string" where
  "Error_text (Plain m) = m"
| "Error_text (RpcError c m) = m"
| "Error_text (Sentinel s) = sentinel_text s"
| "Error_text (Wrap pre e post) = pre @ Error_text e @ post"
| "Error_text (Join es) = join_with [CHR 0x0A] (map Error_text es)"
| "Error_text (TransportError e) = ''transport error: '' @ Error_text e"
| "Error_text (AuthorizationRequiredError u) = sentinel_text ErrAuthorizationRequired"

text \<open>The nodes of an error tree in the order \<open>errors.Is\<close> and \<open>errors.As\<close> visit them.\<close>

fun chain :: "cerr \<Rightarrow> cerr list" where
  "chain (Wrap pre e post) = Wrap pre e post # chain e"
| "chain (Join es) = Join es # concat (map chain es)"
| "chain (TransportError e) = TransportError e # chain e"
| "chain (AuthorizationRequiredError u) = [AuthorizationRequiredError u, Sentinel ErrAuthorizationRequired]"
| "chain e = [e]"

definition errors_Is :: "cerr option \<Rightarrow> client_sentinel \<Rightarrow> bool" where
  "errors_Is err s = (case err of None \<Rightarrow> False | Some e \<Rightarrow> Sentinel s \<in> set (chain e))"

fun first_some :: "('a \<Rightarrow> 'b option) \<Rightarrow> 'a list \<Rightarrow> 'b option" where
  "first_some f [] = None"
| "first_some f (x # xs) = (case f x of Some y \<Rightarrow> Some y | None \<Rightarrow> first_some f xs)"

definition as_RpcError :: "cerr option \<Rightarrow> (int \<times> string) option" where
  "as_RpcError err =
     (case err of None \<Rightarrow> None | Some e \<Rightarrow> first_some (\<lambda>n. case n of RpcError c m \<Rightarrow> Some (c, m) | _ \<Rightarrow> None) (chain e))"

definition as_AuthorizationRequired :: "cerr option \<Rightarrow> string option" where
  "as_AuthorizationRequired err =
     (case err of None \<Rightarrow> None
      | Some e \<Rightarrow> first_some (\<lambda>n. case n of AuthorizationRequiredError u \<Rightarrow> Some u | _ \<Rightarrow> None) (chain e))"

definition as_TransportError :: "cerr option \<Rightarrow> cerr option" where
  "as_TransportError err =
     (case err of None \<Rightarrow> None
      | Some e \<Rightarrow> first_some (\<lambda>n. case n of TransportError c \<Rightarrow> Some c | _ \<Rightarrow> None) (chain e))"

text \<open>\<open>errors.Join\<close> drops nil errors.\<close>

definition errors_Join :: "cerr option list \<Rightarrow> cerr option" where
  "errors_Join es = (let l = map the (filter (\<lambda>e. e \<noteq> None) es) in if l = [] then None else Some (Join l))"

definition NewError :: "cerr option \<Rightarrow> cerr option" where
  "NewError err = Some (TransportError (case err of Some e \<Rightarrow> e | None \<Rightarrow> Plain ''<nil>''))"

section \<open>Capturing the first failing response (errorbody.go)\<close>

definition maxCapturedErrBody :: int where
  "maxCapturedErrBody = 8 * 1024"

record errBody =
  eb_status :: int
  eb_body :: string
  eb_wwwAuthHdrs :: "string list"

definition withErrCapture :: errBody where
  "withErrCapture = \<lparr>eb_status = 0, eb_body = [], eb_wwwAuthHdrs = []\<rparr>"

record 'e http_resp =
  hr_status :: int
  hr_header :: header
  hr_body :: "(char, 'e) reader option"

definition header_Values :: "string \<Rightarrow> header \<Rightarrow> string list" where
  "header_Values k h = (case h (CanonicalHeaderKey k) of Some vs \<Rightarrow> vs | None \<Rightarrow> [])"

text \<open>\<open>h\<close> is the holder of the request's context, if it has one. A body that is captured is replaced
  by what was read of it.\<close>

definition captureErrorBody :: "errBody option \<Rightarrow> 'e http_resp \<Rightarrow> errBody option \<times> 'e http_resp" where
  "captureErrorBody h resp =
     (case hr_body resp of
        None \<Rightarrow> (h, resp)
      | Some r \<Rightarrow>
          if hr_status resp < 400 then (h, resp)
          else case h of
            None \<Rightarrow> (h, resp)
          | Some b \<Rightarrow>
              if eb_status b \<noteq> 0 then (h, resp)
              else let b = b\<lparr>eb_status := hr_status resp\<rparr>;
                       vals = header_Values ''WWW-Authenticate'' (hr_header resp);
                       b = (if vals \<noteq> [] then b\<lparr>eb_wwwAuthHdrs := vals\<rparr> else b);
                       data = take (nat maxCapturedErrBody) (rd_data r);
                       b = (case read_limited r maxCapturedErrBody of
                              Inr d \<Rightarrow> b\<lparr>eb_body := d\<rparr>
                            | Inl _ \<Rightarrow> b)
                   in (Some b, resp\<lparr>hr_body := Some \<lparr>rd_data = data, rd_fail = None, rd_joined = False\<rparr>\<rparr>))"

text \<open>The responses one call produces, in order, each passed through the round tripper.\<close>

definition capture_all :: "'e http_resp list \<Rightarrow> errBody option \<Rightarrow> errBody option" where
  "capture_all resps h = foldl (\<lambda>h r. fst (captureErrorBody h r)) h resps"

section \<open>Error mapping (errors.go)\<close>

definition enrichWithResponseBody :: "errBody option \<Rightarrow> cerr option \<Rightarrow> cerr option" where
  "enrichWithResponseBody ctx err =
     (case err of
        None \<Rightarrow> None
      | Some e \<Rightarrow>
          (case ctx of
             None \<Rightarrow> Some e
           | Some h \<Rightarrow>
               if eb_body h = [] then Some e
               else Some (Wrap [] e ('': request failed with status '' @ show_nat (nat (eb_status h)) @ '': '' @ trim_space (eb_body h)))))"

definition extractResourceMetadataURL :: "errBody option \<Rightarrow> string" where
  "extractResourceMetadataURL ctx =
     (case ctx of None \<Rightarrow> [] | Some h \<Rightarrow> extractResourceMetadataURLFromHeaders (eb_wwwAuthHdrs h))"

definition unauthorized_error :: "errBody option \<Rightarrow> cerr option \<Rightarrow> cerr option" where
  "unauthorized_error ctx err =
     NewError (errors_Join
       [Some (AuthorizationRequiredError (extractResourceMetadataURL ctx)), Some (Sentinel ErrUnauthorized), err])"

definition mapStringError :: "(string \<Rightarrow> string) \<Rightarrow> errBody option \<Rightarrow> cerr \<Rightarrow> cerr option" where
  "mapStringError uni ctx err =
     (let msg = to_lower uni (Error_text err)
      in if str_contains msg ''401'' \<or> str_contains msg ''unauthorized'' then unauthorized_error ctx (Some err)
         else if str_contains msg ''404'' \<and> str_contains msg ''session''
         then NewError (errors_Join [Some (Sentinel ErrSessionTerminated), Some err])
         else if str_contains msg ''legacy'' \<or> str_contains msg ''method not allowed'' \<or> str_contains msg ''405''
         then NewError (errors_Join [Some (Sentinel ErrLegacySSEServer), Some err])
         else Some err)"

definition mapStatusError :: "errBody option \<Rightarrow> cerr \<Rightarrow> errBody option \<Rightarrow> bool \<times> cerr option" where
  "mapStatusError ctx err h =
     (case h of
        None \<Rightarrow> (False, None)
      | Some b \<Rightarrow>
          if eb_status b = 0 then (False, None)
          else if eb_status b < 400 then (False, None)
          else if eb_status b \<ge> 500 then (True, Some err)
          else if eb_status b = 401 then (True, unauthorized_error ctx (Some err))
          else if eb_status b = 404
          then (True, NewError (errors_Join [Some (Sentinel ErrSessionTerminated), Some err]))
          else (True, Some err))"

definition mapTransportError :: "(string \<Rightarrow> string) \<Rightarrow> errBody option \<Rightarrow> cerr option \<Rightarrow> errBody option \<Rightarrow> cerr option" where
  "mapTransportError uni ctx err h =
     (case err of
        None \<Rightarrow> None
      | Some e \<Rightarrow>
          (case h of
             Some b \<Rightarrow>
               (if eb_status b \<ge> 400 \<and> fst (mapStatusError ctx e h) then snd (mapStatusError ctx e h)
                else mapStringError uni ctx e)
           | None \<Rightarrow> mapStringError uni ctx e))"

definition no_status :: "errBody option \<Rightarrow> bool" where
  "no_status h = (case h of None \<Rightarrow> True | Some b \<Rightarrow> eb_status b = 0)"

definition mapConnectError :: "(string \<Rightarrow> string) \<Rightarrow> errBody option \<Rightarrow> cerr option \<Rightarrow> cerr option" where
  "mapConnectError uni ctx err =
     (let err = enrichWithResponseBody ctx err
      in case ctx of
           Some h \<Rightarrow>
             (if eb_status h \<ge> 400 \<and> eb_status h < 500
              then if eb_status h = 401 then unauthorized_error ctx err
                   else NewError (errors_Join [Some (Sentinel ErrLegacySSEServer), err])
              else if no_status ctx \<and> as_RpcError err \<noteq> None then err
              else mapTransportError uni ctx err ctx)
         | None \<Rightarrow>
             if no_status ctx \<and> as_RpcError err \<noteq> None then err
             else mapTransportError uni ctx err ctx)"

definition mapCallError :: "(string \<Rightarrow> string) \<Rightarrow> errBody option \<Rightarrow> cerr option \<Rightarrow> cerr option" where
  "mapCallError uni ctx err =
     (if err = None then None
      else let err = enrichWithResponseBody ctx err
           in if (case as_RpcError err of Some (code, _) \<Rightarrow> code = -32601 | None \<Rightarrow> False)
              then errors_Join [Some (Sentinel ErrMethodNotFound), err]
              else if no_status ctx \<and> as_RpcError err \<noteq> None then err
              else mapTransportError uni ctx err ctx)"

section \<open>What a caller can test for\<close>

lemma chain_self: "e \<in> set (chain e)"
  by (cases e) simp_all

lemma first_some_append:
  "first_some f (xs @ ys) = (case first_some f xs of Some y \<Rightarrow> Some y | None \<Rightarrow> first_some f ys)"
  by (induction xs) (auto split: option.splits)

lemma first_some_None: "first_some f xs = None \<longleftrightarrow> list_all (\<lambda>x. f x = None) xs"
  by (induction xs) (auto split: option.splits)

lemma errors_Join_some [simp]: "errors_Join (Some e # es) = Some (Join (e # map the (filter (\<lambda>e. e \<noteq> None) es)))"
  by (simp add: errors_Join_def Let_def)

lemma NewError_some [simp]: "NewError (Some e) = Some (TransportError e)"
  by (simp add: NewError_def)

text \<open>An error of the go-sdk: none of the client's own sentinels or error types is in its tree.\<close>

definition foreign :: "cerr \<Rightarrow> bool" where
  "foreign e = list_all (\<lambda>n. case n of Sentinel _ \<Rightarrow> False | AuthorizationRequiredError _ \<Rightarrow> False | TransportError _ \<Rightarrow> False | _ \<Rightarrow> True) (chain e)"

lemma enrich_shape:
  obtains e' where "enrichWithResponseBody ctx (Some e) = Some e'" "e' = e \<or> (\<exists>t. e' = Wrap [] e t)"
proof -
  have "\<exists>e'. enrichWithResponseBody ctx (Some e) = Some e' \<and> (e' = e \<or> (\<exists>t. e' = Wrap [] e t))"
    by (cases ctx) (simp_all add: enrichWithResponseBody_def)
  with that show thesis by blast
qed

lemma foreign_Wrap [simp]: "foreign (Wrap p e t) \<longleftrightarrow> foreign e"
  by (simp add: foreign_def)

lemma as_RpcError_Wrap [simp]: "as_RpcError (Some (Wrap p e t)) = as_RpcError (Some e)"
  by (simp add: as_RpcError_def)

lemma foreign_not_Is: "foreign e \<Longrightarrow> \<not> errors_Is (Some e) s"
  by (auto simp: foreign_def errors_Is_def list_all_iff split: cerr.splits)

lemma foreign_no_auth: "foreign e \<Longrightarrow> as_AuthorizationRequired (Some e) = None"
  by (auto simp: foreign_def as_AuthorizationRequired_def list_all_iff first_some_None split: cerr.splits)

lemma foreign_no_transport: "foreign e \<Longrightarrow> as_TransportError (Some e) = None"
  by (auto simp: foreign_def as_TransportError_def list_all_iff first_some_None split: cerr.splits)

text \<open>The three shapes a mapped error can have.\<close>

lemma errors_Is_mapped:
  "errors_Is (unauthorized_error ctx (Some e)) s \<longleftrightarrow> s = ErrAuthorizationRequired \<or> s = ErrUnauthorized \<or> errors_Is (Some e) s"
  "errors_Is (Some (TransportError (Join [Sentinel t, e]))) s \<longleftrightarrow> s = t \<or> errors_Is (Some e) s"
  by (auto simp: unauthorized_error_def errors_Is_def)

lemma as_mapped:
  "as_AuthorizationRequired (unauthorized_error ctx (Some e)) = Some (extractResourceMetadataURL ctx)"
  "as_AuthorizationRequired (Some (TransportError (Join [Sentinel t, e]))) = as_AuthorizationRequired (Some e)"
  "as_TransportError (unauthorized_error ctx (Some e)) \<noteq> None"
  "as_TransportError (Some (TransportError (Join [Sentinel t, e]))) \<noteq> None"
  by (simp_all add: unauthorized_error_def as_AuthorizationRequired_def as_TransportError_def)

lemma chain_mapped:
  "\<exists>f. unauthorized_error ctx (Some e) = Some f \<and> set (chain e) \<subseteq> set (chain f)"
  "set (chain e) \<subseteq> set (chain (TransportError (Join [Sentinel t, e])))"
  by (auto simp: unauthorized_error_def)

section \<open>The first failing response decides\<close>

definition passes :: "'e http_resp \<Rightarrow> bool" where
  "passes r \<longleftrightarrow> hr_status r < 400 \<or> hr_body r = None"

lemma capture_passes: "passes r \<Longrightarrow> fst (captureErrorBody h r) = h"
  by (auto simp: passes_def captureErrorBody_def split: option.splits)

lemma capture_held: "eb_status b \<noteq> 0 \<Longrightarrow> fst (captureErrorBody (Some b) r) = Some b"
  by (auto simp: captureErrorBody_def split: option.splits)

lemma capture_all_held: "eb_status b \<noteq> 0 \<Longrightarrow> capture_all rs (Some b) = Some b"
  by (induction rs) (simp_all add: capture_all_def capture_held)

lemma capture_all_passes: "list_all passes rs \<Longrightarrow> capture_all rs h = h"
  by (induction rs arbitrary: h) (simp_all add: capture_all_def capture_passes)

lemma capture_all_append: "capture_all (rs @ ss) h = capture_all ss (capture_all rs h)"
  by (simp add: capture_all_def)

lemma capture_first:
  assumes "\<not> passes r" "eb_status b = 0"
  obtains b' where "fst (captureErrorBody (Some b) r) = Some b'" "eb_status b' = hr_status r"
    "eb_wwwAuthHdrs b' = (if header_Values ''WWW-Authenticate'' (hr_header r) = [] then eb_wwwAuthHdrs b
                          else header_Values ''WWW-Authenticate'' (hr_header r))"
    "length (eb_body b') \<le> max (length (eb_body b)) 8192"
proof -
  obtain rd where rd: "hr_body r = Some rd" "400 \<le> hr_status r" using assms(1) by (auto simp: passes_def)
  have len: "length d \<le> 8192" if "read_limited rd maxCapturedErrBody = Inr d" for d
    using read_limited_length [OF that] by (simp add: maxCapturedErrBody_def)
  show thesis
  proof (rule that)
    show "fst (captureErrorBody (Some b) r) = Some (the (fst (captureErrorBody (Some b) r)))"
      using rd assms(2) by (simp add: captureErrorBody_def Let_def)
  qed (use rd assms(2) in \<open>auto simp: captureErrorBody_def Let_def le_max_iff_disj dest: len split: sum.splits\<close>)
qed

lemma capture_all_first:
  assumes "list_all passes pre" "\<not> passes r"
  obtains b where "capture_all (pre @ r # post) (Some withErrCapture) = Some b" "eb_status b = hr_status r"
    "eb_wwwAuthHdrs b = header_Values ''WWW-Authenticate'' (hr_header r)" "length (eb_body b) \<le> 8192"
proof -
  have z: "eb_status withErrCapture = 0" "eb_wwwAuthHdrs withErrCapture = []" "eb_body withErrCapture = []"
    by (simp_all add: withErrCapture_def)
  from capture_first [OF assms(2) z(1)] obtain b where
    b: "fst (captureErrorBody (Some withErrCapture) r) = Some b" "eb_status b = hr_status r"
      "eb_wwwAuthHdrs b = header_Values ''WWW-Authenticate'' (hr_header r)" "length (eb_body b) \<le> 8192"
    by (metis z(2,3) list.size(3) max_0L)
  have "eb_status b \<noteq> 0" using assms(2) b(2) by (auto simp: passes_def)
  then have "capture_all (r # post) (Some withErrCapture) = Some b"
    using capture_all_held [of b post] b(1) by (simp add: capture_all_def)
  with b(2-4) show thesis
    using that by (simp add: capture_all_append capture_all_passes [OF assms(1)])
qed

definition challenge_url :: "'e http_resp \<Rightarrow> string" where
  "challenge_url r = extractResourceMetadataURLFromHeaders (header_Values ''WWW-Authenticate'' (hr_header r))"

text \<open>
  C31. A failed connect is classified by the first failing response of the handshake, whatever the later ones
  are (the session-cleanup DELETE the go-sdk sends after a rejected initialize must not hide a 401): the error is
  \<open>ErrUnauthorized\<close>, with the resource metadata URL of that response's own challenge, exactly when
  its status is 401, \<open>ErrLegacySSEServer\<close> exactly for the other 4xx, and never \<open>ErrSessionTerminated\<close>.
  A 5xx carries no sentinel, however its body reads.
\<close>
theorem connect_classified_by_first_failure:
  assumes "list_all passes pre" "\<not> passes r" "foreign e"
    and "err = mapConnectError uni (capture_all (pre @ r # post) (Some withErrCapture)) (Some e)"
  shows "(errors_Is err ErrUnauthorized \<longleftrightarrow> hr_status r = 401)
    \<and> (errors_Is err ErrLegacySSEServer \<longleftrightarrow> hr_status r < 500 \<and> hr_status r \<noteq> 401)
    \<and> \<not> errors_Is err ErrSessionTerminated
    \<and> as_AuthorizationRequired err = (if hr_status r = 401 then Some (challenge_url r) else None)
    \<and> (as_TransportError err \<noteq> None \<longleftrightarrow> hr_status r < 500)"
proof -
  from capture_all_first [OF assms(1,2)] obtain b where
    b: "capture_all (pre @ r # post) (Some withErrCapture) = Some b" "eb_status b = hr_status r"
      "eb_wwwAuthHdrs b = header_Values ''WWW-Authenticate'' (hr_header r)" by metis
  have st: "400 \<le> hr_status r" using assms(2) by (auto simp: passes_def)
  obtain e' where e': "enrichWithResponseBody (Some b) (Some e) = Some e'" "foreign e'"
    using enrich_shape [of "Some b" e] assms(3) by (metis foreign_Wrap)
  note facts = foreign_not_Is [OF e'(2)] foreign_no_auth [OF e'(2)] foreign_no_transport [OF e'(2)]
  have url: "extractResourceMetadataURL (Some b) = challenge_url r"
    by (simp add: extractResourceMetadataURL_def challenge_url_def b(3))
  consider "hr_status r = 401" | "hr_status r < 500" "hr_status r \<noteq> 401" | "500 \<le> hr_status r" by linarith
  then show ?thesis
  proof cases
    case 1
    then have "err = unauthorized_error (Some b) (Some e')"
      unfolding assms(4) b(1) mapConnectError_def by (simp add: b(2) e'(1))
    then show ?thesis using 1 by (simp add: errors_Is_mapped as_mapped facts url)
  next
    case 2
    then have "err = Some (TransportError (Join [Sentinel ErrLegacySSEServer, e']))"
      unfolding assms(4) b(1) mapConnectError_def using st by (simp add: b(2) e'(1))
    then show ?thesis using 2 by (simp add: errors_Is_mapped as_mapped facts)
  next
    case 3
    then have "err = Some e'"
      unfolding assms(4) b(1) mapConnectError_def
      by (simp add: b(2) e'(1) no_status_def mapTransportError_def mapStatusError_def)
    then show ?thesis using 3 by (simp add: facts)
  qed
qed

text \<open>
  C32. A failed call is classified the same way by its first failing response: 401 is \<open>ErrUnauthorized\<close>
  with that response's challenge, 404 is \<open>ErrSessionTerminated\<close>, and no other status, whatever its body
  says, yields a sentinel; a JSON-RPC method-not-found answer is \<open>ErrMethodNotFound\<close> first.
\<close>
theorem call_classified_by_first_failure:
  assumes "list_all passes pre" "\<not> passes r" "foreign e"
    and "err = mapCallError uni (capture_all (pre @ r # post) (Some withErrCapture)) (Some e)"
    and "missing \<longleftrightarrow> (\<exists>m. as_RpcError (Some e) = Some (-32601, m))"
  shows "(errors_Is err ErrMethodNotFound \<longleftrightarrow> missing)
    \<and> (errors_Is err ErrUnauthorized \<longleftrightarrow> hr_status r = 401 \<and> \<not> missing)
    \<and> (errors_Is err ErrSessionTerminated \<longleftrightarrow> hr_status r = 404 \<and> \<not> missing)
    \<and> \<not> errors_Is err ErrLegacySSEServer
    \<and> as_AuthorizationRequired err = (if hr_status r = 401 \<and> \<not> missing then Some (challenge_url r) else None)"
proof -
  from capture_all_first [OF assms(1,2)] obtain b where
    b: "capture_all (pre @ r # post) (Some withErrCapture) = Some b" "eb_status b = hr_status r"
      "eb_wwwAuthHdrs b = header_Values ''WWW-Authenticate'' (hr_header r)" by metis
  have st: "400 \<le> hr_status r" using assms(2) by (auto simp: passes_def)
  obtain e' where e': "enrichWithResponseBody (Some b) (Some e) = Some e'" "foreign e'"
      "as_RpcError (Some e') = as_RpcError (Some e)"
    using enrich_shape [of "Some b" e] assms(3) by (metis foreign_Wrap as_RpcError_Wrap)
  note facts = foreign_not_Is [OF e'(2)] foreign_no_auth [OF e'(2)] foreign_no_transport [OF e'(2)]
  have url: "extractResourceMetadataURL (Some b) = challenge_url r"
    by (simp add: extractResourceMetadataURL_def challenge_url_def b(3))
  have code: "(case as_RpcError (Some e') of Some (code, _) \<Rightarrow> code = -32601 | None \<Rightarrow> False) \<longleftrightarrow> missing"
    unfolding assms(5) e'(3) by (auto split: option.splits)
  show ?thesis
  proof (cases missing)
    case True
    with code have "err = Some (Join [Sentinel ErrMethodNotFound, e'])"
      unfolding assms(4) b(1) mapCallError_def by (simp add: e'(1))
    then show ?thesis
      using True foreign_not_Is [OF e'(2)] foreign_no_auth [OF e'(2)]
      by (simp add: errors_Is_def as_AuthorizationRequired_def)
  next
    case False
    with code have err: "err = mapTransportError uni (Some b) (Some e') (Some b)"
      unfolding assms(4) b(1) mapCallError_def using b(2) st by (simp add: e'(1) no_status_def)
    consider "hr_status r = 401" | "hr_status r = 404" | "hr_status r \<noteq> 401" "hr_status r \<noteq> 404" by blast
    then show ?thesis
      using False st
      by cases (simp_all add: err mapTransportError_def mapStatusError_def b(2) errors_Is_mapped as_mapped facts url)
  qed
qed

text \<open>
  A JSON-RPC error answered with a 2xx status is an application error: with no failing response
  captured both mappers return it as it is, even when its text says \<open>unauthorized\<close> or \<open>404 session\<close>;
  only method-not-found is joined with its sentinel.
\<close>
theorem application_error_untouched:
  assumes "list_all passes rs" "as_RpcError (Some e) = Some (code, m)"
  shows "mapConnectError uni (capture_all rs (Some withErrCapture)) (Some e) = Some e
    \<and> mapCallError uni (capture_all rs (Some withErrCapture)) (Some e) =
        (if code = -32601 then Some (Join [Sentinel ErrMethodNotFound, e]) else Some e)"
proof -
  have "enrichWithResponseBody (Some withErrCapture) (Some e) = Some e"
    by (simp add: enrichWithResponseBody_def withErrCapture_def)
  then show ?thesis
    using assms(2)
    by (simp add: capture_all_passes [OF assms(1)] mapConnectError_def mapCallError_def no_status_def withErrCapture_def)
qed

text \<open>
  No mapping loses information: the mapped error of a failure is again an error, and every node of the
  original is in its tree, so every test a caller makes on the original succeeds on the mapped error.
\<close>
theorem mapping_keeps_chain:
  "\<exists>f g. mapCallError uni ctx (Some e) = Some f \<and> set (chain e) \<subseteq> set (chain f)
    \<and> mapConnectError uni ctx (Some e) = Some g \<and> set (chain e) \<subseteq> set (chain g)"
proof -
  obtain e' where e': "enrichWithResponseBody ctx (Some e) = Some e'" "set (chain e) \<subseteq> set (chain e')"
    using enrich_shape [of ctx e] by (metis chain.simps(1) set_subset_Cons subset_refl)
  have str: "\<exists>f. mapStringError uni ctx e' = Some f \<and> set (chain e') \<subseteq> set (chain f)"
    using chain_mapped(1) [of ctx e'] by (auto simp: mapStringError_def Let_def)
  have sta: "\<exists>f. snd (mapStatusError ctx e' h) = Some f \<and> set (chain e') \<subseteq> set (chain f)"
    if "fst (mapStatusError ctx e' h)" for h
    using that chain_mapped(1) [of ctx e'] by (auto simp: mapStatusError_def split: option.splits if_splits)
  have tr: "\<exists>f. mapTransportError uni ctx (Some e') ctx = Some f \<and> set (chain e') \<subseteq> set (chain f)"
    using str sta by (auto simp: mapTransportError_def split: option.splits)
  have "\<exists>f. mapCallError uni ctx (Some e) = Some f \<and> set (chain e') \<subseteq> set (chain f)"
    using tr by (auto simp: mapCallError_def Let_def e'(1))
  moreover have "\<exists>f. mapConnectError uni ctx (Some e) = Some f \<and> set (chain e') \<subseteq> set (chain f)"
    using tr chain_mapped(1) [of ctx e'] by (auto simp: mapConnectError_def Let_def e'(1) split: option.splits)
  ultimately show ?thesis using e'(2) by (meson subset_trans)
qed

section \<open>Concrete failures\<close>

definition demo_params :: "auth_param list" where
  "demo_params = [(True, ''realm'', ''a'' @ [dquote] @ ''resource_metadata=b''), (True, ''Resource_Metadata'', ''https://x/m'')]"

theorem challenge_round_trip_witness:
  "extractResourceMetadataURLs (print_challenge ''Bearer'' demo_params) = [''https://x/m'']"
proof -
  have "auth_token ''Bearer''" by (simp add: auth_token_def isAuthTokenChar_def)
  moreover have "list_all wf_param demo_params"
    by (simp add: demo_params_def wf_param_def auth_token_def isAuthTokenChar_def)
  moreover have "metadata_values demo_params = [''https://x/m'']"
    by code_simp
  ultimately show ?thesis using challenge_round_trip [of "''Bearer''" demo_params] by simp
qed

definition demo_response :: "int \<Rightarrow> string list \<Rightarrow> string \<Rightarrow> unit http_resp" where
  "demo_response st challenges body =
     \<lparr>hr_status = st,
      hr_header = (\<lambda>k. if k = CanonicalHeaderKey ''WWW-Authenticate'' \<and> challenges \<noteq> [] then Some challenges else None),
      hr_body = Some \<lparr>rd_data = body, rd_fail = None, rd_joined = False\<rparr>\<rparr>"

theorem connect_classified_by_first_failure_witness:
  "errors_Is (mapConnectError id
       (capture_all [demo_response 401 [] ''denied'', demo_response 404 [] []] (Some withErrCapture))
       (Some (Plain ''Unauthorized''))) ErrUnauthorized
   \<and> \<not> errors_Is (mapConnectError id
       (capture_all [demo_response 401 [] ''denied'', demo_response 404 [] []] (Some withErrCapture))
       (Some (Plain ''Unauthorized''))) ErrLegacySSEServer"
  using connect_classified_by_first_failure
    [of "[]" "demo_response 401 [] ''denied''" "Plain ''Unauthorized''" _ id "[demo_response 404 [] []]", OF _ _ _ refl]
  by (simp add: passes_def demo_response_def foreign_def)

theorem call_classified_by_first_failure_witness:
  "errors_Is (mapCallError id
       (capture_all [demo_response 200 [] ''ok'', demo_response 404 [] ''gone''] (Some withErrCapture))
       (Some (Plain ''Not Found''))) ErrSessionTerminated"
proof -
  have "as_RpcError (Some (Plain ''Not Found'')) = None" by (simp add: as_RpcError_def)
  then show ?thesis
    using call_classified_by_first_failure
      [of "[demo_response 200 [] ''ok'']" "demo_response 404 [] ''gone''" "Plain ''Not Found''" _ id "[]" False, OF _ _ _ refl]
    by (simp add: passes_def demo_response_def foreign_def)
qed

theorem application_error_untouched_witness:
  "mapCallError id (capture_all [demo_response 200 [] ''{}''] (Some withErrCapture)) (Some (RpcError 5 ''unauthorized''))
     = Some (RpcError 5 ''unauthorized'')"
  using application_error_untouched [of "[demo_response 200 [] ''{}'']" "RpcError 5 ''unauthorized''" 5 "''unauthorized''" id]
  by (simp add: passes_def demo_response_def as_RpcError_def)

end
