(* ===== verification/Mcp_Client.thy ===== *)
theory Mcp_Client
  imports Client_Errors Mcp_Messages
begin

text \<open>
  The MCP client (\<open>mcpcompat/client/client.go\<close>, \<open>resume.go\<close>, \<open>transport/streamable_http.go\<close>, \<open>transport/sse.go\<close>):
  transport configuration, the header-injecting round tripper, the life cycle of a session, the request
  methods on both their paths, the raw JSON-RPC path of a resumed session and the forwarding of notifications.

  The go-sdk and the JSON text layer are the fields of the record \<open>host\<close>: what a connect, a request, a close or
  an HTTP exchange answers, together with the HTTP responses the exchange produced. A handler supplied by the user is a number, and a
  goroutine that waits on a session is an entry of \<open>cl_watches\<close>. Go values given to the client are their JSON trees.
\<close>

declare ascii_fold.simps [simp del]

section \<open>Transport configuration\<close>

datatype 'c round_tripper =
    NilTransport
  | OtherTransport nat
  | HeaderRoundTripper "(string \<times> string) list" "('c \<Rightarrow> (string \<times> string) list) option" "'c round_tripper"

record 'c http_Client =
  hc_Transport :: "'c round_tripper"
  hc_Timeout :: int
  hc_other :: nat

record 'c StreamableHTTP =
  st_endpoint :: string
  st_httpClient :: "'c http_Client option"
  st_headers :: "(string \<times> string) list"
  st_headerFunc :: "('c \<Rightarrow> (string \<times> string) list) option"
  st_timeout :: int
  st_logger :: "nat option"
  st_continuousListening :: bool
  st_sessionID :: string

definition NewStreamableHTTP :: "string \<Rightarrow> ('c StreamableHTTP \<Rightarrow> 'c StreamableHTTP) list \<Rightarrow> 'c StreamableHTTP" where
  "NewStreamableHTTP endpoint opts =
     foldl (\<lambda>s opt. opt s)
       \<lparr>st_endpoint = endpoint, st_httpClient = None, st_headers = [], st_headerFunc = None, st_timeout = 0,
        st_logger = None, st_continuousListening = False, st_sessionID = []\<rparr> opts"

definition SetSessionID :: "string \<Rightarrow> 'c StreamableHTTP \<Rightarrow> 'c StreamableHTTP" where
  "SetSessionID sid s = s\<lparr>st_sessionID := sid\<rparr>"

definition WithHTTPTimeout :: "int \<Rightarrow> 'c StreamableHTTP \<Rightarrow> 'c StreamableHTTP" where
  "WithHTTPTimeout timeout s = s\<lparr>st_timeout := timeout\<rparr>"

definition WithHTTPBasicClient :: "'c http_Client \<Rightarrow> 'c StreamableHTTP \<Rightarrow> 'c StreamableHTTP" where
  "WithHTTPBasicClient client s = s\<lparr>st_httpClient := Some client\<rparr>"

definition WithHTTPHeaders :: "(string \<times> string) list \<Rightarrow> 'c StreamableHTTP \<Rightarrow> 'c StreamableHTTP" where
  "WithHTTPHeaders headers s = s\<lparr>st_headers := headers\<rparr>"

definition WithHTTPHeaderFunc :: "('c \<Rightarrow> (string \<times> string) list) \<Rightarrow> 'c StreamableHTTP \<Rightarrow> 'c StreamableHTTP" where
  "WithHTTPHeaderFunc headerFunc s = s\<lparr>st_headerFunc := Some headerFunc\<rparr>"

definition WithSession :: "string \<Rightarrow> 'c StreamableHTTP \<Rightarrow> 'c StreamableHTTP" where
  "WithSession sessionID s = s\<lparr>st_sessionID := sessionID\<rparr>"

definition WithContinuousListening :: "'c StreamableHTTP \<Rightarrow> 'c StreamableHTTP" where
  "WithContinuousListening s = s\<lparr>st_continuousListening := True\<rparr>"

definition WithHTTPLogger :: "nat \<Rightarrow> 'c StreamableHTTP \<Rightarrow> 'c StreamableHTTP" where
  "WithHTTPLogger logger s = s\<lparr>st_logger := Some logger\<rparr>"

record 'c SSE =
  sse_endpoint :: string
  sse_httpClient :: "'c http_Client option"
  sse_headers :: "(string \<times> string) list"

definition NewSSE :: "string \<Rightarrow> ('c SSE \<Rightarrow> 'c SSE) list \<Rightarrow> 'c SSE" where
  "NewSSE endpoint opts = foldl (\<lambda>s opt. opt s) \<lparr>sse_endpoint = endpoint, sse_httpClient = None, sse_headers = []\<rparr> opts"

definition WithHTTPClient :: "'c http_Client \<Rightarrow> 'c SSE \<Rightarrow> 'c SSE" where
  "WithHTTPClient httpClient s = s\<lparr>sse_httpClient := Some httpClient\<rparr>"

definition WithHeaders :: "(string \<times> string) list \<Rightarrow> 'c SSE \<Rightarrow> 'c SSE" where
  "WithHeaders headers s = s\<lparr>sse_headers := headers\<rparr>"

section \<open>The HTTP client\<close>

text \<open>The entries of a header map in the order the range loop visits them.\<close>

definition set_headers :: "(string \<times> string) list \<Rightarrow> header \<Rightarrow> header" where
  "set_headers hs hdr = foldl (\<lambda>hdr (k, v). header_Set k v hdr) hdr hs"

text \<open>\<open>send\<close> performs the exchange on the default transport (\<open>None\<close>) or on a transport of the caller.\<close>

primrec headerRoundTripper_RoundTrip ::
  "(nat option \<Rightarrow> header \<Rightarrow> (cerr, cerr http_resp) result) \<Rightarrow> 'c \<Rightarrow> 'c round_tripper \<Rightarrow> header \<Rightarrow> errBody option
     \<Rightarrow> (cerr, cerr http_resp) result \<times> errBody option" where
  "headerRoundTripper_RoundTrip send ctx NilTransport hdr h = (send None hdr, h)"
| "headerRoundTripper_RoundTrip send ctx (OtherTransport n) hdr h = (send (Some n) hdr, h)"
| "headerRoundTripper_RoundTrip send ctx (HeaderRoundTripper headers headerFunc base) hdr h =
     (let hdr = set_headers headers hdr;
          hdr = (case headerFunc of Some f \<Rightarrow> set_headers (f ctx) hdr | None \<Rightarrow> hdr)
      in case headerRoundTripper_RoundTrip send ctx base hdr h of
           (Inl e, h) \<Rightarrow> (Inl e, h)
         | (Inr resp, h) \<Rightarrow> (case captureErrorBody h resp of (h, resp) \<Rightarrow> (Inr resp, h)))"

definition buildHTTPClient ::
  "'c http_Client option \<Rightarrow> (string \<times> string) list \<Rightarrow> ('c \<Rightarrow> (string \<times> string) list) option \<Rightarrow> int \<Rightarrow> 'c http_Client" where
  "buildHTTPClient base headers headerFunc timeout =
     (let hc = (case base of Some b \<Rightarrow> b | None \<Rightarrow> \<lparr>hc_Transport = NilTransport, hc_Timeout = 0, hc_other = 0\<rparr>);
          hc = (if timeout > 0 then hc\<lparr>hc_Timeout := timeout\<rparr> else hc)
      in hc\<lparr>hc_Transport := HeaderRoundTripper headers headerFunc (hc_Transport hc)\<rparr>)"

lemma set_headers_map:
  "set_headers hs hdr = hdr ++ map_of (rev (map (\<lambda>(k, v). (CanonicalHeaderKey k, [v])) hs))"
  by (induction hs arbitrary: hdr) (auto simp: set_headers_def header_Set_def)

text \<open>
  Every request of a client built by \<open>buildHTTPClient\<close> reaches the caller's own transport (the default one if there is
  none) with its headers laid over the request's: the per-request values win over the static ones, which win over
  those the request already had, up to the canonical spelling of the names. A failing response is captured on the way back, and the
  configured timeout replaces the base client's only if it is positive.
\<close>
theorem built_client_headers:
  assumes "hc = buildHTTPClient base headers headerFunc timeout"
    and "over = (\<lambda>hs. map_of (rev (map (\<lambda>(k, v). (CanonicalHeaderKey k, [v])) hs)))"
    and "inner = (case base of Some b \<Rightarrow> hc_Transport b | None \<Rightarrow> NilTransport)"
    and "sent = hdr ++ over headers ++ over (case headerFunc of Some f \<Rightarrow> f ctx | None \<Rightarrow> [])"
  shows "headerRoundTripper_RoundTrip send ctx (hc_Transport hc) hdr h =
           (case headerRoundTripper_RoundTrip send ctx inner sent h of
              (Inl e, h') \<Rightarrow> (Inl e, h')
            | (Inr resp, h') \<Rightarrow> (Inr (snd (captureErrorBody h' resp)), fst (captureErrorBody h' resp)))
         \<and> hc_Timeout hc = (if timeout > 0 then timeout else case base of Some b \<Rightarrow> hc_Timeout b | None \<Rightarrow> 0)"
  using assms
  by (auto simp: buildHTTPClient_def Let_def set_headers_map split: option.splits prod.splits sum.splits)

theorem built_client_headers_witness:
  "fst (headerRoundTripper_RoundTrip (\<lambda>_ hdr. Inl (Plain (header_Get ''A'' hdr))) ()
     (hc_Transport (buildHTTPClient None [(''a'', ''static'')] (Some (\<lambda>_. [(''A'', ''dynamic'')])) 0)) Map.empty None)
     = Inl (Plain ''dynamic'')"
  using built_client_headers [of _ None "[(''a'', ''static'')]" "Some (\<lambda>_. [(''A'', ''dynamic'')])" 0 _ _ _ Map.empty "()"
      "\<lambda>_ hdr. Inl (Plain (header_Get ''A'' hdr))" None, OF refl refl refl refl]
  by (simp add: header_Get_def CanonicalHeaderKey_def header_byte_def upper_def)

section \<open>Client state\<close>

record gosdk_session =
  ss_handle :: nat
  ss_ID :: string
  ss_InitializeResult :: json

record 'c Client =
  cl_streamable :: "'c StreamableHTTP option"
  cl_sse :: "'c SSE option"
  cl_session :: "gosdk_session option"
  cl_notify :: "nat list"
  cl_connLost :: "nat option"
  cl_watchStarted :: bool
  cl_watches :: "(gosdk_session \<times> nat) list"
  cl_resume :: "(int \<times> 'c http_Client) option"
  cl_elicitationHandler :: "nat option"
  cl_samplingHandler :: "nat option"
  cl_disableMultiRoundTrip :: bool

definition zero_Client :: "'c Client" where
  "zero_Client =
     \<lparr>cl_streamable = None, cl_sse = None, cl_session = None, cl_notify = [], cl_connLost = None, cl_watchStarted = False,
      cl_watches = [], cl_resume = None, cl_elicitationHandler = None, cl_samplingHandler = None, cl_disableMultiRoundTrip = False\<rparr>"

definition WithElicitationHandler :: "nat \<Rightarrow> 'c Client \<Rightarrow> 'c Client" where
  "WithElicitationHandler h c = c\<lparr>cl_elicitationHandler := Some h\<rparr>"

definition WithSamplingHandler :: "nat \<Rightarrow> 'c Client \<Rightarrow> 'c Client" where
  "WithSamplingHandler h c = c\<lparr>cl_samplingHandler := Some h\<rparr>"

definition WithoutMultiRoundTrip :: "'c Client \<Rightarrow> 'c Client" where
  "WithoutMultiRoundTrip c = c\<lparr>cl_disableMultiRoundTrip := True\<rparr>"

definition applyClientOptions :: "'c Client \<Rightarrow> ('c Client \<Rightarrow> 'c Client) list \<Rightarrow> 'c Client" where
  "applyClientOptions c opts = foldl (\<lambda>c opt. opt c) c opts"

definition NewStreamableHttpClient :: "string \<Rightarrow> ('c StreamableHTTP \<Rightarrow> 'c StreamableHTTP) list \<Rightarrow> 'c Client" where
  "NewStreamableHttpClient baseURL options = zero_Client\<lparr>cl_streamable := Some (NewStreamableHTTP baseURL options)\<rparr>"

definition NewStreamableHttpClientWithOpts ::
  "string \<Rightarrow> ('c StreamableHTTP \<Rightarrow> 'c StreamableHTTP) list \<Rightarrow> ('c Client \<Rightarrow> 'c Client) list \<Rightarrow> 'c Client" where
  "NewStreamableHttpClientWithOpts baseURL transportOpts clientOpts =
     applyClientOptions (zero_Client\<lparr>cl_streamable := Some (NewStreamableHTTP baseURL transportOpts)\<rparr>) clientOpts"

definition NewSSEMCPClient :: "string \<Rightarrow> ('c SSE \<Rightarrow> 'c SSE) list \<Rightarrow> 'c Client" where
  "NewSSEMCPClient baseURL options = zero_Client\<lparr>cl_sse := Some (NewSSE baseURL options)\<rparr>"

definition GetTransport :: "'c Client \<Rightarrow> 'c StreamableHTTP option" where
  "GetTransport c = cl_streamable c"



definition Client_sessionFor :: "'c Client \<Rightarrow> (cerr, gosdk_session) result" where
  "Client_sessionFor c =
     (case cl_session c of
        None \<Rightarrow> Inl (Plain ''client not initialized: call Initialize first'')
      | Some s \<Rightarrow> Inr s)"

definition isResume :: "'c Client \<Rightarrow> bool" where
  "isResume c \<longleftrightarrow> cl_session c = None \<and> (case cl_streamable c of None \<Rightarrow> False | Some s \<Rightarrow> st_sessionID s \<noteq> [])"

definition maybeStartConnLostWatch :: "gosdk_session \<Rightarrow> 'c Client \<Rightarrow> 'c Client" where
  "maybeStartConnLostWatch session c =
     (case cl_connLost c of
        None \<Rightarrow> c
      | Some handler \<Rightarrow>
          if cl_watchStarted c then c
          else c\<lparr>cl_watchStarted := True, cl_watches := cl_watches c @ [(session, handler)]\<rparr>)"

definition OnConnectionLost :: "nat option \<Rightarrow> 'c Client \<Rightarrow> 'c Client" where
  "OnConnectionLost handler c =
     (let c = c\<lparr>cl_connLost := handler\<rparr>
      in case cl_session c of Some session \<Rightarrow> maybeStartConnLostWatch session c | None \<Rightarrow> c)"

definition OnNotification :: "nat \<Rightarrow> 'c Client \<Rightarrow> 'c Client" where
  "OnNotification handler c = c\<lparr>cl_notify := cl_notify c @ [handler]\<rparr>"

section \<open>Conversions\<close>

definition json_error :: cerr where
  "json_error = Plain ''json: cannot unmarshal''"

text \<open>\<open>src\<close> is what \<open>json.Marshal\<close> returns for the source value, \<open>dst\<close> the value decoded into.\<close>

definition jsonConvert :: "(cerr, json) result \<Rightarrow> 'a decoder \<Rightarrow> 'a \<Rightarrow> (cerr, 'a) result" where
  "jsonConvert src dec dst =
     bindE src (\<lambda>j. case dec j dst of (x, Fine) \<Rightarrow> Inr x | _ \<Rightarrow> Inl json_error)"

definition convertResult :: "'a decoder \<Rightarrow> 'a \<Rightarrow> (cerr, json) result \<Rightarrow> (cerr, 'a) result" where
  "convertResult dec zero src = map_err (\<lambda>e. Wrap ''converting result: '' e []) (jsonConvert src dec zero)"

definition isZeroCapabilities :: "(cerr, json) result \<Rightarrow> bool" where
  "isZeroCapabilities c = (case c of Inr (JObj []) \<Rightarrow> True | _ \<Rightarrow> False)"

section \<open>Notifications\<close>

definition toNotificationParams :: "(cerr, json) result \<Rightarrow> NotificationParams" where
  "toNotificationParams src =
     (case src of
        Inl _ \<Rightarrow> zero_NotificationParams
      | Inr b \<Rightarrow>
          (case dec_map JNull dec_iface b None of
             (m, Fine) \<Rightarrow>
               let m = (case m of None \<Rightarrow> [] | Some m \<Rightarrow> m)
               in \<lparr>np_Meta = (case map_of m ''_meta'' of Some (JObj mm) \<Rightarrow> Some mm | _ \<Rightarrow> None),
                   np_AdditionalFields = Some (map_del [''_meta''] m)\<rparr>
           | _ \<Rightarrow> zero_NotificationParams))"

record JSONRPCNotification =
  nt_JSONRPC :: string
  nt_Method :: string
  nt_Params :: NotificationParams

text \<open>The handler invocations of one notification, in order. \<open>None\<close> is a nil params value.\<close>

definition dispatch :: "'c Client \<Rightarrow> string \<Rightarrow> (cerr, json) result option \<Rightarrow> (nat \<times> JSONRPCNotification) list" where
  "dispatch c method params =
     (let n = \<lparr>nt_JSONRPC = ''2.0'', nt_Method = method,
               nt_Params = (case params of Some p \<Rightarrow> toNotificationParams p | None \<Rightarrow> zero_NotificationParams)\<rparr>
      in map (\<lambda>h. (h, n)) (cl_notify c))"

text \<open>The argument is \<open>None\<close> when the request or its parameters are nil.\<close>

definition newProgressNotificationHandler :: "'c Client \<Rightarrow> (cerr, json) result option \<Rightarrow> (nat \<times> JSONRPCNotification) list" where
  "newProgressNotificationHandler c req = dispatch c ''notifications/progress'' req"

definition newLoggingMessageHandler :: "'c Client \<Rightarrow> (cerr, json) result option \<Rightarrow> (nat \<times> JSONRPCNotification) list" where
  "newLoggingMessageHandler c req = dispatch c ''notifications/message'' req"

datatype server_event =
    ToolListChanged | PromptListChanged | ResourceListChanged
  | ResourceUpdated "(cerr, json) result" | ElicitationComplete "(cerr, json) result"
  | ProgressNotification "(cerr, json) result option" | LoggingMessage "(cerr, json) result option"

text \<open>The handlers \<open>installNotificationHandlers\<close> wires into the go-sdk, on the event they are installed for.\<close>

definition installNotificationHandlers :: "'c Client \<Rightarrow> server_event \<Rightarrow> (nat \<times> JSONRPCNotification) list" where
  "installNotificationHandlers c ev =
     (case ev of
        ToolListChanged \<Rightarrow> dispatch c ''notifications/tools/list_changed'' None
      | PromptListChanged \<Rightarrow> dispatch c ''notifications/prompts/list_changed'' None
      | ResourceListChanged \<Rightarrow> dispatch c ''notifications/resources/list_changed'' None
      | ResourceUpdated p \<Rightarrow> dispatch c ''notifications/resources/updated'' (Some p)
      | ElicitationComplete p \<Rightarrow> dispatch c ''notifications/elicitation/complete'' (Some p)
      | ProgressNotification p \<Rightarrow> newProgressNotificationHandler c p
      | LoggingMessage p \<Rightarrow> newLoggingMessageHandler c p)"

text \<open>The client-side handlers of \<open>elicitation/create\<close> and \<open>sampling/createMessage\<close>: the request's parameters are decoded into
  the shim's type, the user's handler is called, its answer is decoded into the go-sdk's result type. A nil request leaves
  the parameters zero.\<close>

definition convert_handler ::
  "string \<Rightarrow> 'p decoder \<Rightarrow> 'p \<Rightarrow> ('p \<Rightarrow> (cerr, (cerr, json) result) result) \<Rightarrow> 'r decoder \<Rightarrow> 'r
     \<Rightarrow> (cerr, json) result option \<Rightarrow> (cerr, 'r) result" where
  "convert_handler what dec_params zero_params handler dec_res zero_res req =
     bindE (case req of
              None \<Rightarrow> Inr zero_params
            | Some p \<Rightarrow> map_err (\<lambda>e. Wrap (''converting '' @ what @ '' request: '') e []) (jsonConvert p dec_params zero_params))
       (\<lambda>mreq. bindE (handler mreq)
          (\<lambda>res. map_err (\<lambda>e. Wrap (''converting '' @ what @ '' result: '') e []) (jsonConvert res dec_res zero_res)))"

definition installElicitationHandler ::
  "'c Client \<Rightarrow> 'p decoder \<Rightarrow> 'p \<Rightarrow> (nat \<Rightarrow> 'p \<Rightarrow> (cerr, (cerr, json) result) result) \<Rightarrow> 'r decoder \<Rightarrow> 'r
     \<Rightarrow> ((cerr, json) result option \<Rightarrow> (cerr, 'r) result) option" where
  "installElicitationHandler c dec_params zero_params call dec_res zero_res =
     (case cl_elicitationHandler c of
        None \<Rightarrow> None
      | Some h \<Rightarrow> Some (convert_handler ''elicitation'' dec_params zero_params (call h) dec_res zero_res))"

definition installSamplingHandler ::
  "'c Client \<Rightarrow> 'p decoder \<Rightarrow> 'p \<Rightarrow> (nat \<Rightarrow> 'p \<Rightarrow> (cerr, (cerr, json) result) result) \<Rightarrow> 'r decoder \<Rightarrow> 'r
     \<Rightarrow> ((cerr, json) result option \<Rightarrow> (cerr, 'r) result) option" where
  "installSamplingHandler c dec_params zero_params call dec_res zero_res =
     (case cl_samplingHandler c of
        None \<Rightarrow> None
      | Some h \<Rightarrow> Some (convert_handler ''sampling'' dec_params zero_params (call h) dec_res zero_res))"

section \<open>The host: go-sdk, HTTP and JSON text\<close>

record gosdk_Implementation =
  im_Name :: string
  im_Version :: string
  im_other :: json

record gosdk_ClientOptions =
  co_Capabilities :: "json option"
  co_Elicitation :: "nat option"
  co_Sampling :: "nat option"
  co_MultiRoundTripDisabled :: bool

datatype 'c gosdk_Transport =
    StreamableClientTransport string "'c http_Client" bool
  | SSEClientTransport string "'c http_Client"

record rpc_request =
  rq_endpoint :: string
  rq_header :: header
  rq_body :: json

text \<open>The parts of a go-sdk result that the explicit converters read. A nil element is \<open>None\<close>; the content of a prompt message is
  what \<open>json.Marshal\<close> returns for it.\<close>

record gosdk_ResourceContents =
  gr_URI :: string
  gr_MIMEType :: string
  gr_Text :: string
  gr_Blob :: string
  gr_Meta :: "(string \<times> json) list"

record gosdk_ReadResourceResult =
  grr_NeedsInput :: bool
  grr_Meta :: "(string \<times> json) list"
  grr_Contents :: "gosdk_ResourceContents option list"

record gosdk_PromptMessage =
  gm_Role :: string
  gm_Content :: "(cerr, json) result option"

record gosdk_GetPromptResult =
  ggp_Description :: string
  ggp_NeedsInput :: bool
  ggp_Meta :: "(string \<times> json) list"
  ggp_Messages :: "gosdk_PromptMessage option list"

type_synonym 'r exchange = "cerr http_resp list \<times> (cerr, 'r) result"

record 'c host =
  ho_uni :: "string \<Rightarrow> string"
  ho_quote :: "string \<Rightarrow> string"
  ho_Implementation :: "gosdk_Implementation decoder"
  ho_ClientCapabilities :: "json decoder"
  ho_Connect :: "gosdk_Implementation \<Rightarrow> gosdk_ClientOptions \<Rightarrow> 'c gosdk_Transport \<Rightarrow> gosdk_session exchange"
  ho_Close :: "gosdk_session \<Rightarrow> cerr option"
  ho_Ping :: "gosdk_session \<Rightarrow> cerr option"
  ho_SetLoggingLevel :: "gosdk_session \<Rightarrow> string \<Rightarrow> cerr option"
  ho_List :: "gosdk_session \<Rightarrow> string \<Rightarrow> string \<Rightarrow> json exchange"
  ho_CallTool :: "gosdk_session \<Rightarrow> string \<Rightarrow> json \<Rightarrow> (string \<times> json) list option \<Rightarrow> json exchange"
  ho_CompleteParams :: "json decoder"
  ho_Complete :: "gosdk_session \<Rightarrow> json \<Rightarrow> json exchange"
  ho_ReadResource :: "gosdk_session \<Rightarrow> string \<Rightarrow> gosdk_ReadResourceResult exchange"
  ho_GetPrompt :: "gosdk_session \<Rightarrow> string \<Rightarrow> (string \<times> string) list option \<Rightarrow> gosdk_GetPromptResult exchange"
  ho_ReadResourceResult :: "gosdk_ReadResourceResult decoder"
  ho_GetPromptResult :: "gosdk_GetPromptResult decoder"
  ho_NewRequest :: "string \<Rightarrow> cerr option"
  ho_Do :: "'c http_Client \<Rightarrow> rpc_request \<Rightarrow> (cerr, cerr http_resp) result"
  ho_Decode :: "(char, cerr) reader \<Rightarrow> (cerr, json) result"
  ho_Parse :: "string \<Rightarrow> json option"

section \<open>Life cycle\<close>

definition buildTransport :: "'c Client \<Rightarrow> (cerr, 'c gosdk_Transport) result" where
  "buildTransport c =
     (case cl_streamable c of
        Some s \<Rightarrow>
          Inr (StreamableClientTransport (st_endpoint s)
                 (buildHTTPClient (st_httpClient s) (st_headers s) (st_headerFunc s) (st_timeout s))
                 (\<not> st_continuousListening s))
      | None \<Rightarrow>
          (case cl_sse c of
             Some s \<Rightarrow> Inr (SSEClientTransport (sse_endpoint s) (buildHTTPClient (sse_httpClient s) (sse_headers s) None 0))
           | None \<Rightarrow> Inl (Plain ''no transport configured'')))"

definition client_impl :: "'c host \<Rightarrow> (cerr, json) result \<Rightarrow> (cerr, gosdk_Implementation) result" where
  "client_impl H info =
     bindE (map_err (\<lambda>e. Wrap ''converting client info: '' e [])
              (jsonConvert info (ho_Implementation H) \<lparr>im_Name = [], im_Version = [], im_other = JNull\<rparr>))
       (\<lambda>impl. let impl = (if im_Name impl = [] then impl\<lparr>im_Name := ''toolhive''\<rparr> else impl)
               in Inr (if im_Version impl = [] then impl\<lparr>im_Version := ''0.0.0''\<rparr> else impl))"

definition client_options :: "'c host \<Rightarrow> 'c Client \<Rightarrow> (cerr, json) result \<Rightarrow> (cerr, gosdk_ClientOptions) result" where
  "client_options H c caps =
     bindE (if isZeroCapabilities caps then Inr None
            else map_sum id Some (map_err (\<lambda>e. Wrap ''converting client capabilities: '' e [])
                                    (jsonConvert caps (ho_ClientCapabilities H) (JObj []))))
       (\<lambda>cs. Inr \<lparr>co_Capabilities = cs, co_Elicitation = cl_elicitationHandler c, co_Sampling = cl_samplingHandler c,
                  co_MultiRoundTripDisabled = cl_disableMultiRoundTrip c\<rparr>)"

text \<open>\<open>Initialize\<close> on the request's client info and capabilities, with the result decoder.\<close>

definition Client_Initialize ::
  "'c host \<Rightarrow> 'r decoder \<Rightarrow> 'r \<Rightarrow> (cerr, json) result \<Rightarrow> (cerr, json) result \<Rightarrow> 'c Client \<Rightarrow> 'c Client \<times> (cerr, 'r) result" where
  "Client_Initialize H dec zero info caps c =
     (if cl_session c \<noteq> None then (c, Inl (Plain ''client already initialized''))
      else case bindE (client_impl H info) (\<lambda>impl. bindE (client_options H c caps) (\<lambda>opts.
                  bindE (buildTransport c) (\<lambda>tr. Inr (impl, opts, tr)))) of
        Inl e \<Rightarrow> (c, Inl e)
      | Inr (impl, opts, tr) \<Rightarrow>
          (case ho_Connect H impl opts tr of
             (resps, Inl err) \<Rightarrow>
               (c, Inl (the (mapConnectError (ho_uni H) (capture_all resps (Some withErrCapture)) (Some err))))
           | (resps, Inr session) \<Rightarrow>
               let c = c\<lparr>cl_session := Some session, cl_streamable := map_option (SetSessionID (ss_ID session)) (cl_streamable c)\<rparr>;
                   c = maybeStartConnLostWatch session c
               in (c, map_err (\<lambda>e. Wrap ''converting initialize result: '' e [])
                        (jsonConvert (Inr (ss_InitializeResult session)) dec zero))))"

definition Client_Close :: "'c host \<Rightarrow> 'c Client \<Rightarrow> 'c Client \<times> cerr option" where
  "Client_Close H c =
     (case cl_session c of
        None \<Rightarrow> (c, None)
      | Some s \<Rightarrow> (c\<lparr>cl_session := None\<rparr>, ho_Close H s))"

section \<open>Resumed sessions (resume.go)\<close>

record rpcError =
  re_Code :: int
  re_Message :: string

record rpcEnvelope =
  en_ID :: "json option"
  en_Result :: "json option"
  en_Error :: "rpcError option"
  en_Method :: string

definition upd_rpcError :: "string \<Rightarrow> rpcError decoder" where
  "upd_rpcError k j x =
     (if key_eq k ''code'' then into (dec_int j (re_Code x)) (\<lambda>v. x\<lparr>re_Code := v\<rparr>)
      else if key_eq k ''message'' then into (dec_string j (re_Message x)) (\<lambda>v. x\<lparr>re_Message := v\<rparr>)
      else (x, Fine))"

definition upd_rpcEnvelope :: "string \<Rightarrow> rpcEnvelope decoder" where
  "upd_rpcEnvelope k j x =
     (if key_eq k ''id'' then into (dec_raw j (en_ID x)) (\<lambda>v. x\<lparr>en_ID := v\<rparr>)
      else if key_eq k ''result'' then into (dec_raw j (en_Result x)) (\<lambda>v. x\<lparr>en_Result := v\<rparr>)
      else if key_eq k ''error'' then into (dec_ptr \<lparr>re_Code = 0, re_Message = []\<rparr> (dec_struct upd_rpcError) j (en_Error x)) (\<lambda>v. x\<lparr>en_Error := v\<rparr>)
      else if key_eq k ''method'' then into (dec_string j (en_Method x)) (\<lambda>v. x\<lparr>en_Method := v\<rparr>)
      else (x, Fine))"

definition dec_envelope :: "json \<Rightarrow> rpcEnvelope \<times> dstat" where
  "dec_envelope j = dec_struct upd_rpcEnvelope j \<lparr>en_ID = None, en_Result = None, en_Error = None, en_Method = []\<rparr>"

definition idMatches :: "json option \<Rightarrow> int \<Rightarrow> bool" where
  "idMatches raw wantID =
     (case raw of
        None \<Rightarrow> False
      | Some j \<Rightarrow> (case dec_int j 0 of (n, Fine) \<Rightarrow> n = wantID | _ \<Rightarrow> False))"

text \<open>The tokens of a \<open>bufio.Scanner\<close> on lines: the text between newlines, the last one if it is not empty.\<close>

fun raw_lines :: "string \<Rightarrow> string \<Rightarrow> string list" where
  "raw_lines acc [] = (if acc = [] then [] else [acc])"
| "raw_lines acc (c # s) = (if c = CHR 0x0A then acc # raw_lines [] s else raw_lines (acc @ [c]) s)"

definition drop_cr :: "string \<Rightarrow> string" where
  "drop_cr s = (if s \<noteq> [] \<and> last s = CHR 0x0D then butlast s else s)"

definition maxScanToken :: nat where
  "maxScanToken = 4 * 1024 * 1024"

text \<open>One line of the event stream: the envelope, if the line answers \<open>wantID\<close>.\<close>

definition sse_line :: "(string \<Rightarrow> json option) \<Rightarrow> int \<Rightarrow> string \<Rightarrow> rpcEnvelope option" where
  "sse_line parse wantID line =
     (if \<not> has_prefix line ''data:'' then None
      else case parse (trim_space (drop 5 line)) of
        None \<Rightarrow> None
      | Some j \<Rightarrow>
          (case dec_envelope j of
             (env, Fine) \<Rightarrow>
               if en_Method env \<noteq> [] then None
               else if \<not> idMatches (en_ID env) wantID then None
               else Some env
           | _ \<Rightarrow> None))"

text \<open>The scan: a line with its newline must fit the scanner's buffer. \<open>fail\<close> is the error the body ends with.\<close>

fun sse_scan ::
  "(string \<Rightarrow> json option) \<Rightarrow> int \<Rightarrow> cerr option \<Rightarrow> string list \<Rightarrow> (cerr, json option \<times> rpcError option) result" where
  "sse_scan parse wantID fail [] =
     (case fail of
        Some e \<Rightarrow> Inl (Wrap ''reading SSE stream: '' e [])
      | None \<Rightarrow> Inl (Plain (''no JSON-RPC response for id '' @ show_int wantID @ '' in stream'')))"
| "sse_scan parse wantID fail (l # ls) =
     (if length l \<ge> maxScanToken then Inl (Wrap ''reading SSE stream: '' (Plain ''bufio.Scanner: token too long'') [])
      else case sse_line parse wantID (drop_cr l) of
        Some env \<Rightarrow> Inr (en_Result env, en_Error env)
      | None \<Rightarrow> sse_scan parse wantID fail ls)"

definition readRPCResponse :: "'c host \<Rightarrow> header \<Rightarrow> (char, cerr) reader \<Rightarrow> int \<Rightarrow> (cerr, json option \<times> rpcError option) result" where
  "readRPCResponse H hdr body wantID =
     (if has_prefix (header_Get ''Content-Type'' hdr) ''application/json'' then
        (case ho_Decode H body of
           Inl e \<Rightarrow> Inl (Wrap ''decoding JSON response: '' e [])
         | Inr j \<Rightarrow>
             (case dec_envelope j of
                (env, Fine) \<Rightarrow> Inr (en_Result env, en_Error env)
              | _ \<Rightarrow> Inl (Wrap ''decoding JSON response: '' json_error [])))
      else sse_scan (ho_Parse H) wantID (rd_fail body) (raw_lines [] (rd_data body)))"

definition resume_request :: "string \<Rightarrow> string \<Rightarrow> int \<Rightarrow> string \<Rightarrow> json option \<Rightarrow> rpc_request" where
  "resume_request endpoint sessionID rid method params =
     \<lparr>rq_endpoint = endpoint,
      rq_header = header_Set ''MCP-Protocol-Version'' ''2025-06-18''
                    (header_Set ''Mcp-Session-Id'' sessionID
                      (header_Set ''Accept'' ''application/json, text/event-stream''
                        (header_Set ''Content-Type'' ''application/json'' Map.empty))),
      rq_body = JObj (map_puts
        ((''jsonrpc'', JStr ''2.0'') # (''id'', JNum rid) # (''method'', enc_string method) #
         (case params of None \<Rightarrow> [] | Some p \<Rightarrow> [(''params'', p)])) [])\<rparr>"

text \<open>The rest of \<open>resumeCall\<close> once the answer has arrived. The second result is what \<open>out\<close> holds afterwards.\<close>

definition resume_answer ::
  "'c host \<Rightarrow> string \<Rightarrow> string \<Rightarrow> int \<Rightarrow> 'a decoder option \<Rightarrow> 'a \<Rightarrow> cerr http_resp \<Rightarrow> 'a \<times> cerr option" where
  "resume_answer H method sessionID rid dec out resp =
     (let body = (case hr_body resp of Some r \<Rightarrow> r | None \<Rightarrow> \<lparr>rd_data = [], rd_fail = None, rd_joined = False\<rparr>)
      in if hr_status resp = 404
         then (out, NewError (errors_Join [Some (Sentinel ErrSessionTerminated),
                                           Some (Plain (''resumed session '' @ ho_quote H sessionID @ '' terminated (404)''))]))
         else if hr_status resp < 200 \<or> hr_status resp \<ge> 300
         then (out, Some (Plain (method @ '' request failed: HTTP '' @ show_int (hr_status resp) @ '': '' @ trim_space (take 512 (rd_data body)))))
         else case readRPCResponse H (hr_header resp) body rid of
           Inl e \<Rightarrow> (out, Some e)
         | Inr (_, Some rpcErr) \<Rightarrow> (out, Some (Plain (method @ '': '' @ re_Message rpcErr)))
         | Inr (result, None) \<Rightarrow>
             (case (dec, result) of
                (Some d, Some j) \<Rightarrow>
                  (case d j out of
                     (x, Fine) \<Rightarrow> (x, None)
                   | (x, _) \<Rightarrow> (x, Some (Wrap (''decoding '' @ method @ '' result: '') json_error [])))
              | _ \<Rightarrow> (out, None)))"

text \<open>\<open>params\<close> is what \<open>json.Marshal\<close> returns for the parameters; \<open>dec\<close> is \<open>None\<close> for a nil \<open>out\<close>. The method is only called on a
  client with a Streamable HTTP transport (see \<open>isResume\<close>); without one it panics, which is \<open>None\<close>.\<close>

definition resumeCall ::
  "'c host \<Rightarrow> string \<Rightarrow> (cerr, json) result option \<Rightarrow> 'a decoder option \<Rightarrow> 'a \<Rightarrow> 'c Client \<Rightarrow> ('c Client \<times> 'a \<times> cerr option) option" where
  "resumeCall H method params dec out c =
     (case cl_streamable c of
        None \<Rightarrow> None
      | Some s \<Rightarrow>
          let rs = (case cl_resume c of
                      Some rs \<Rightarrow> rs
                    | None \<Rightarrow> (0, buildHTTPClient (st_httpClient s) (st_headers s) (st_headerFunc s) (st_timeout s)));
              rid = wrap64 (fst rs + 1);
              c = c\<lparr>cl_resume := Some (rid, snd rs)\<rparr>
          in case (case params of None \<Rightarrow> Inr None | Some p \<Rightarrow> map_sum id Some p) of
               Inl e \<Rightarrow> Some (c, out, Some (Wrap (''marshaling '' @ method @ '' request: '') e []))
             | Inr ps \<Rightarrow>
                 (case ho_NewRequest H (st_endpoint s) of
                    Some e \<Rightarrow> Some (c, out, Some (Wrap (''building '' @ method @ '' request: '') e []))
                  | None \<Rightarrow>
                      (case ho_Do H (snd rs) (resume_request (st_endpoint s) (st_sessionID s) rid method ps) of
                         Inl e \<Rightarrow> Some (c, out, Some (Wrap (''sending '' @ method @ '' request: '') e []))
                       | Inr resp \<Rightarrow> (case resume_answer H method (st_sessionID s) rid dec out resp of (x, err) \<Rightarrow> Some (c, x, err)))))"

section \<open>Requests\<close>

record PaginatedParams =
  pg_Cursor :: string
  pg_Meta :: "Meta option"

definition enc_PaginatedParams :: "PaginatedParams \<Rightarrow> json" where
  "enc_PaginatedParams p = JObj
     (omit (pg_Cursor p = []) ''cursor'' (enc_string (pg_Cursor p)) @
      omit (pg_Meta p = None) ''_meta'' (enc_ptr Meta_MarshalJSON (pg_Meta p)) @ [])"

record CallToolParams =
  ctp_Name :: string
  ctp_Arguments :: json
  ctp_Meta :: "Meta option"
  ctp_Task :: "json option"

definition enc_CallToolParams :: "CallToolParams \<Rightarrow> json" where
  "enc_CallToolParams p = JObj
     (omit False ''name'' (enc_string (ctp_Name p)) @
      omit (ctp_Arguments p = JNull) ''arguments'' (enc_any (ctp_Arguments p)) @
      omit (ctp_Meta p = None) ''_meta'' (enc_ptr Meta_MarshalJSON (ctp_Meta p)) @
      omit (ctp_Task p = None) ''task'' (enc_ptr (\<lambda>t. t) (ctp_Task p)) @ [])"

record ReadResourceParams =
  rrp_URI :: string
  rrp_Arguments :: "(string \<times> json) list option"
  rrp_Meta :: "Meta option"

definition enc_ReadResourceParams :: "ReadResourceParams \<Rightarrow> json" where
  "enc_ReadResourceParams p = JObj
     (omit False ''uri'' (enc_string (rrp_URI p)) @
      omit (empty_slice (rrp_Arguments p)) ''arguments'' (enc_map enc_any (rrp_Arguments p)) @
      omit (rrp_Meta p = None) ''_meta'' (enc_ptr Meta_MarshalJSON (rrp_Meta p)) @ [])"

record GetPromptParams =
  gpp_Name :: string
  gpp_Arguments :: "(string \<times> string) list option"
  gpp_Meta :: "Meta option"

definition enc_GetPromptParams :: "GetPromptParams \<Rightarrow> json" where
  "enc_GetPromptParams p = JObj
     (omit False ''name'' (enc_string (gpp_Name p)) @
      omit (empty_slice (gpp_Arguments p)) ''arguments'' (enc_map enc_string (gpp_Arguments p)) @
      omit (gpp_Meta p = None) ''_meta'' (enc_ptr Meta_MarshalJSON (gpp_Meta p)) @ [])"

text \<open>A method's results: the value, nil or not, and the error. \<open>None\<close> for a panic.\<close>

type_synonym ('c, 'a) call_outcome = "('c Client \<times> 'a option \<times> cerr option) option"

definition call_error :: "'c host \<Rightarrow> cerr http_resp list \<Rightarrow> cerr \<Rightarrow> cerr option" where
  "call_error H resps e = mapCallError (ho_uni H) (capture_all resps (Some withErrCapture)) (Some e)"

definition returned :: "'c Client \<Rightarrow> (cerr, 'a) result \<Rightarrow> ('c, 'a) call_outcome" where
  "returned c r = Some (case r of Inl e \<Rightarrow> (c, None, Some e) | Inr x \<Rightarrow> (c, Some x, None))"

text \<open>The resume path of the list, call and completion methods returns the value decoded so far also with an error.\<close>

definition resume_value ::
  "'c host \<Rightarrow> string \<Rightarrow> (cerr, json) result \<Rightarrow> 'a decoder \<Rightarrow> 'a \<Rightarrow> 'c Client \<Rightarrow> ('c, 'a) call_outcome" where
  "resume_value H method params dec zero c =
     map_option (\<lambda>(c, out, err). (c, Some out, err)) (resumeCall H method (Some params) (Some dec) zero c)"

text \<open>The four list methods have the same body, for the method name and the result type.\<close>

definition list_call ::
  "'c host \<Rightarrow> string \<Rightarrow> 'a decoder \<Rightarrow> 'a \<Rightarrow> PaginatedParams \<Rightarrow> 'c Client \<Rightarrow> ('c, 'a) call_outcome" where
  "list_call H method dec zero params c =
     (if isResume c then resume_value H method (Inr (enc_PaginatedParams params)) dec zero c
      else case Client_sessionFor c of
        Inl e \<Rightarrow> Some (c, None, Some e)
      | Inr s \<Rightarrow>
          (case ho_List H s method (pg_Cursor params) of
             (resps, Inl e) \<Rightarrow> Some (c, None, call_error H resps e)
           | (_, Inr res) \<Rightarrow> returned c (convertResult dec zero (Inr res))))"





definition dec_CallToolResult :: "CallToolResult decoder" where
  "dec_CallToolResult j r = (case CallToolResult_UnmarshalJSON (Some j) r of Inr x \<Rightarrow> (x, Fine) | Inl _ \<Rightarrow> (r, Abort))"

definition CallTool :: "'c host \<Rightarrow> CallToolParams \<Rightarrow> 'c Client \<Rightarrow> ('c, CallToolResult) call_outcome" where
  "CallTool H params c =
     (if isResume c then resume_value H ''tools/call'' (Inr (enc_CallToolParams params)) dec_CallToolResult zero_CallToolResult c
      else case Client_sessionFor c of
        Inl e \<Rightarrow> Some (c, None, Some e)
      | Inr s \<Rightarrow>
          (case (case ctp_Meta params of
                   None \<Rightarrow> Inr None
                 | Some meta \<Rightarrow> map_err (\<lambda>e. Wrap ''converting call meta: '' e [])
                                  (jsonConvert (Inr (Meta_MarshalJSON meta)) (dec_map JNull dec_iface) (Some []))) of
             Inl e \<Rightarrow> Some (c, None, Some e)
           | Inr m \<Rightarrow>
               (case ho_CallTool H s (ctp_Name params) (ctp_Arguments params) m of
                  (resps, Inl e) \<Rightarrow> Some (c, None, call_error H resps e)
                | (_, Inr res) \<Rightarrow> returned c (convertResult dec_CallToolResult zero_CallToolResult (Inr res)))))"

definition Complete :: "'c host \<Rightarrow> 'a decoder \<Rightarrow> 'a \<Rightarrow> (cerr, json) result \<Rightarrow> 'c Client \<Rightarrow> ('c, 'a) call_outcome" where
  "Complete H dec zero params c =
     (if isResume c then resume_value H ''completion/complete'' params dec zero c
      else case Client_sessionFor c of
        Inl e \<Rightarrow> Some (c, None, Some e)
      | Inr s \<Rightarrow>
          (case jsonConvert params (ho_CompleteParams H) (JObj []) of
             Inl e \<Rightarrow> Some (c, None, Some (Wrap ''converting completion request: '' e []))
           | Inr ps \<Rightarrow>
               (case ho_Complete H s ps of
                  (resps, Inl e) \<Rightarrow> Some (c, None, call_error H resps e)
                | (_, Inr res) \<Rightarrow> returned c (convertResult dec zero (Inr res)))))"

definition Ping :: "'c host \<Rightarrow> 'c Client \<Rightarrow> ('c Client \<times> cerr option) option" where
  "Ping H c =
     (if isResume c
      then map_option (\<lambda>(c, _, err). (c, err)) (resumeCall H ''ping'' (Some (Inr (JObj []))) None () c)
      else case Client_sessionFor c of
        Inl e \<Rightarrow> Some (c, Some e)
      | Inr s \<Rightarrow> Some (c, ho_Ping H s))"



text \<open>\<open>base64.StdEncoding.EncodeToString\<close>.\<close>

definition base64_digit :: "nat \<Rightarrow> char" where
  "base64_digit n =
     (if n < 26 then char_of (65 + n) else if n < 52 then char_of (71 + n)
      else if n < 62 then char_of (n - 4) else if n = 62 then CHR ''+'' else CHR ''/'')"

fun base64_encode :: "string \<Rightarrow> string" where
  "base64_encode [] = []"
| "base64_encode [a] = [base64_digit (ord a div 4), base64_digit (ord a mod 4 * 16), CHR ''='', CHR ''='']"
| "base64_encode [a, b] =
     [base64_digit (ord a div 4), base64_digit (ord a mod 4 * 16 + ord b div 16), base64_digit (ord b mod 16 * 4), CHR ''='']"
| "base64_encode (a # b # c # s) =
     base64_digit (ord a div 4) # base64_digit (ord a mod 4 * 16 + ord b div 16) #
     base64_digit (ord b mod 16 * 4 + ord c div 64) # base64_digit (ord c mod 64) # base64_encode s"

definition convert_contents :: "gosdk_ResourceContents \<Rightarrow> ResourceContents" where
  "convert_contents rc =
     (let meta = (if gr_Meta rc \<noteq> [] then Some (gr_Meta rc) else None)
      in if gr_Blob rc \<noteq> []
         then BlobResource \<lparr>brc_Meta = meta, brc_URI = gr_URI rc, brc_MIMEType = gr_MIMEType rc, brc_Blob = base64_encode (gr_Blob rc)\<rparr>
         else TextResource \<lparr>trc_Meta = meta, trc_URI = gr_URI rc, trc_MIMEType = gr_MIMEType rc, trc_Text = gr_Text rc\<rparr>)"

definition nil_if_empty :: "'a list \<Rightarrow> 'a list option" where
  "nil_if_empty xs = (if xs = [] then None else Some xs)"

definition convertReadResourceResult :: "gosdk_ReadResourceResult \<Rightarrow> ReadResourceResult" where
  "convertReadResourceResult res =
     (let out = resource_SetNeedsInput (grr_NeedsInput res) \<lparr>rr_Meta = None, rr_Contents = None, rr_resultType = []\<rparr>;
          out = (if grr_Meta res \<noteq> [] then out\<lparr>rr_Meta := Some (fst (NewMetaFromMap (Some (grr_Meta res))))\<rparr> else out)
      in out\<lparr>rr_Contents := nil_if_empty (map (convert_contents \<circ> the) (filter (\<lambda>rc. rc \<noteq> None) (grr_Contents res)))\<rparr>)"

definition ReadResource :: "'c host \<Rightarrow> ReadResourceParams \<Rightarrow> 'c Client \<Rightarrow> ('c, ReadResourceResult) call_outcome" where
  "ReadResource H params c =
     (if isResume c
      then map_option (\<lambda>(c, raw, err). case err of
                Some e \<Rightarrow> (c, None, Some e)
              | None \<Rightarrow> (c, Some (convertReadResourceResult raw), None))
             (resumeCall H ''resources/read'' (Some (Inr (enc_ReadResourceParams params))) (Some (ho_ReadResourceResult H))
                \<lparr>grr_NeedsInput = False, grr_Meta = [], grr_Contents = []\<rparr> c)
      else case Client_sessionFor c of
        Inl e \<Rightarrow> Some (c, None, Some e)
      | Inr s \<Rightarrow>
          (case ho_ReadResource H s (rrp_URI params) of
             (resps, Inl e) \<Rightarrow> Some (c, None, call_error H resps e)
           | (_, Inr res) \<Rightarrow> Some (c, Some (convertReadResourceResult res), None)))"

text \<open>An error of \<open>mcp.UnmarshalContent\<close>, by its kind.\<close>

definition content_error :: "content_err \<Rightarrow> cerr" where
  "content_error e =
     Plain (case e of ErrDecode \<Rightarrow> ''decode'' | ErrMissingType \<Rightarrow> ''missing type'' | ErrUnknownType t \<Rightarrow> ''unknown content type: '' @ t
            | _ \<Rightarrow> ''tool result'')"

definition convert_message :: "gosdk_PromptMessage \<Rightarrow> (cerr, PromptMessage) result" where
  "convert_message pm =
     (case gm_Content pm of
        None \<Rightarrow> Inr \<lparr>pm_Role = gm_Role pm, pm_Content = None\<rparr>
      | Some cb \<Rightarrow>
          bindE (map_err (\<lambda>e. Wrap ''marshaling prompt content: '' e []) cb) (\<lambda>j.
            bindE (map_err (\<lambda>e. Wrap ''converting prompt content: '' (content_error e) []) (UnmarshalContent (Some j))) (\<lambda>content.
              Inr \<lparr>pm_Role = gm_Role pm, pm_Content = Some content\<rparr>)))"

definition convertGetPromptResult :: "gosdk_GetPromptResult \<Rightarrow> (cerr, GetPromptResult) result" where
  "convertGetPromptResult res =
     (let out = prompt_SetNeedsInput (ggp_NeedsInput res)
                  \<lparr>gp_Meta = None, gp_Description = ggp_Description res, gp_Messages = None, gp_resultType = []\<rparr>;
          out = (if ggp_Meta res \<noteq> [] then out\<lparr>gp_Meta := Some (fst (NewMetaFromMap (Some (ggp_Meta res))))\<rparr> else out)
      in bindE (traverse convert_message (map the (filter (\<lambda>pm. pm \<noteq> None) (ggp_Messages res))))
           (\<lambda>ms. Inr (out\<lparr>gp_Messages := nil_if_empty ms\<rparr>)))"

definition GetPrompt :: "'c host \<Rightarrow> GetPromptParams \<Rightarrow> 'c Client \<Rightarrow> ('c, GetPromptResult) call_outcome" where
  "GetPrompt H params c =
     (if isResume c
      then map_option (\<lambda>(c, raw, err). case err of
                Some e \<Rightarrow> (c, None, Some e)
              | None \<Rightarrow> (case convertGetPromptResult raw of Inl e \<Rightarrow> (c, None, Some e) | Inr x \<Rightarrow> (c, Some x, None)))
             (resumeCall H ''prompts/get'' (Some (Inr (enc_GetPromptParams params))) (Some (ho_GetPromptResult H))
                \<lparr>ggp_Description = [], ggp_NeedsInput = False, ggp_Meta = [], ggp_Messages = []\<rparr> c)
      else case Client_sessionFor c of
        Inl e \<Rightarrow> Some (c, None, Some e)
      | Inr s \<Rightarrow>
          (case ho_GetPrompt H s (gpp_Name params) (gpp_Arguments params) of
             (resps, Inl e) \<Rightarrow> Some (c, None, call_error H resps e)
           | (_, Inr res) \<Rightarrow> returned c (convertGetPromptResult res)))"

section \<open>Connection-lost watch\<close>

text \<open>Everything a program can do with a client. The JSON values decoded into are generic.\<close>

inductive client_run :: "'c host \<Rightarrow> 'c Client \<Rightarrow> 'c Client \<Rightarrow> bool" for H c0 where
  start: "client_run H c0 c0"
| init: "client_run H c0 c \<Longrightarrow> client_run H c0 (fst (Client_Initialize H (dec :: json decoder) zero info caps c))"
| close: "client_run H c0 c \<Longrightarrow> client_run H c0 (fst (Client_Close H c))"
| lost: "client_run H c0 c \<Longrightarrow> client_run H c0 (OnConnectionLost handler c)"
| notify: "client_run H c0 c \<Longrightarrow> client_run H c0 (OnNotification nh c)"
| list: "client_run H c0 c \<Longrightarrow> list_call H method (dec :: json decoder) zero pps c = Some (c', r) \<Longrightarrow> client_run H c0 c'"
| call: "client_run H c0 c \<Longrightarrow> CallTool H cps c = Some (c', r') \<Longrightarrow> client_run H c0 c'"
| complete: "client_run H c0 c \<Longrightarrow> Complete H (dec :: json decoder) zero cp c = Some (c', r) \<Longrightarrow> client_run H c0 c'"
| read: "client_run H c0 c \<Longrightarrow> ReadResource H rps c = Some (c', rr) \<Longrightarrow> client_run H c0 c'"
| prompt: "client_run H c0 c \<Longrightarrow> GetPrompt H gps c = Some (c', gr) \<Longrightarrow> client_run H c0 c'"
| ping: "client_run H c0 c \<Longrightarrow> Ping H c = Some (c', err) \<Longrightarrow> client_run H c0 c'"

text \<open>Requests change nothing but the state of the resume path.\<close>

definition same_client :: "'c Client \<Rightarrow> 'c Client \<Rightarrow> bool" where
  "same_client c c' \<longleftrightarrow> (\<exists>r. c' = c\<lparr>cl_resume := r\<rparr>)"

lemma same_client_refl [simp]: "same_client c c" "same_client c (c\<lparr>cl_resume := r\<rparr>)"
proof -
  have "c = c\<lparr>cl_resume := cl_resume c\<rparr>" by simp
  then show "same_client c c" unfolding same_client_def ..
qed (auto simp: same_client_def)

lemma resumeCall_same: "resumeCall H method ps dec out c = Some (c', x, err) \<Longrightarrow> same_client c c'"
  by (auto simp: resumeCall_def Let_def split: option.splits sum.splits prod.splits)

lemma mapped_same:
  assumes "map_option f (resumeCall H method ps dec out c) = Some (c', r)" "\<And>t. fst (f t) = fst t"
  shows "same_client c c'"
proof -
  from assms(1) obtain t where "resumeCall H method ps dec out c = Some t" "f t = (c', r)" by blast
  with assms(2) [of t] show ?thesis by (cases t) (auto dest: resumeCall_same)
qed

lemma request_same:
  "list_call H method dec zero pps c = Some (c', r) \<Longrightarrow> same_client c c'"
  "CallTool H cps c = Some (c', r') \<Longrightarrow> same_client c c'"
  "Complete H dec zero cp c = Some (c', r) \<Longrightarrow> same_client c c'"
  by (auto simp: list_call_def CallTool_def Complete_def resume_value_def returned_def
      split: if_splits sum.splits prod.splits option.splits dest: resumeCall_same)

lemma request_same_converted:
  "ReadResource H rps c = Some (c', rr) \<Longrightarrow> same_client c c'"
  "GetPrompt H gps c = Some (c', gr) \<Longrightarrow> same_client c c'"
  "Ping H c = Some (c', e) \<Longrightarrow> same_client c c'"
  by (cases "isResume c"; auto simp: ReadResource_def GetPrompt_def Ping_def returned_def
      split: sum.splits prod.splits simp del: map_option_eq_Some
      elim!: mapped_same split: option.splits)+

text \<open>The three fields in step: at most one watch, started exactly if the flag is set, and running whenever there is both a
  handler and a session.\<close>

definition watch_ok :: "'c Client \<Rightarrow> bool" where
  "watch_ok c \<longleftrightarrow>
     length (cl_watches c) \<le> 1 \<and> (cl_watchStarted c \<longleftrightarrow> cl_watches c \<noteq> []) \<and>
     (cl_connLost c = None \<or> cl_session c = None \<or> cl_watchStarted c)"

definition new_client :: "'c Client \<Rightarrow> bool" where
  "new_client c \<longleftrightarrow> cl_session c = None \<and> cl_watches c = [] \<and> \<not> cl_watchStarted c \<and> cl_resume c = None"

definition client_option :: "('c Client \<Rightarrow> 'c Client) \<Rightarrow> bool" where
  "client_option opt \<longleftrightarrow>
     (\<exists>h. opt = WithElicitationHandler h) \<or> (\<exists>h. opt = WithSamplingHandler h) \<or> opt = WithoutMultiRoundTrip"

lemma new_client_option: "client_option opt \<Longrightarrow> new_client c \<Longrightarrow> new_client (opt c)"
  unfolding client_option_def
  by (elim disjE exE; simp add: new_client_def WithElicitationHandler_def WithSamplingHandler_def WithoutMultiRoundTrip_def)

lemma new_client_options: "list_all client_option opts \<Longrightarrow> new_client c \<Longrightarrow> new_client (applyClientOptions c opts)"
  by (induction opts arbitrary: c) (simp_all add: applyClientOptions_def new_client_option)

lemma new_client_constructors:
  "new_client (NewStreamableHttpClient url topts)" "new_client (NewSSEMCPClient url sopts)"
  "list_all client_option copts \<Longrightarrow> new_client (NewStreamableHttpClientWithOpts url topts copts)"
proof -
  have base: "new_client (zero_Client\<lparr>cl_streamable := st\<rparr>)" "new_client (zero_Client\<lparr>cl_sse := ss\<rparr>)" for st ss
    by (simp_all add: new_client_def zero_Client_def)
  show "new_client (NewStreamableHttpClient url topts)" "new_client (NewSSEMCPClient url sopts)"
    unfolding NewStreamableHttpClient_def NewSSEMCPClient_def by (rule base)+
  show "list_all client_option copts \<Longrightarrow> new_client (NewStreamableHttpClientWithOpts url topts copts)"
    unfolding NewStreamableHttpClientWithOpts_def using base(1) by (rule new_client_options [rotated])
qed

lemma watch_ok_same: "same_client c c' \<Longrightarrow> watch_ok c \<Longrightarrow> watch_ok c'"
  by (auto simp: same_client_def watch_ok_def)

lemma watch_ok_start:
  "length (cl_watches c) \<le> 1 \<Longrightarrow> (cl_watchStarted c \<longleftrightarrow> cl_watches c \<noteq> []) \<Longrightarrow> watch_ok (maybeStartConnLostWatch s c)"
  by (auto simp: watch_ok_def maybeStartConnLostWatch_def split: option.splits)

lemma watch_core: "watch_ok c \<Longrightarrow> length (cl_watches c) \<le> 1 \<and> (cl_watchStarted c \<longleftrightarrow> cl_watches c \<noteq> [])"
  by (simp add: watch_ok_def)

lemma watch_start_fields [simp]:
  "cl_session (maybeStartConnLostWatch s c) = cl_session c" "cl_streamable (maybeStartConnLostWatch s c) = cl_streamable c"
  "cl_connLost (maybeStartConnLostWatch s c) = cl_connLost c"
  by (simp_all add: maybeStartConnLostWatch_def split: option.splits)

text \<open>What \<open>Initialize\<close> does to the client.\<close>

lemma Initialize_shape:
  obtains (same) e where "Client_Initialize H dec zero info caps c = (c, Inl e)"
  | (connected) s r where "cl_session c = None"
      "Client_Initialize H dec zero info caps c =
         (maybeStartConnLostWatch s (c\<lparr>cl_session := Some s, cl_streamable := map_option (SetSessionID (ss_ID s)) (cl_streamable c)\<rparr>), r)"
      "\<And>e. r = Inl e \<Longrightarrow> \<exists>e'. e = Wrap ''converting initialize result: '' e' []"
proof -
  let ?prep = "bindE (client_impl H info) (\<lambda>impl. bindE (client_options H c caps) (\<lambda>opts.
                  bindE (buildTransport c) (\<lambda>tr. Inr (impl, opts, tr))))"
  show thesis
  proof (cases "cl_session c")
    case None
    show thesis
    proof (cases ?prep)
      case (Inl e)
      with None show thesis by (intro same [of e]) (simp add: Client_Initialize_def)
    next
      case (Inr x)
      obtain impl opts tr where x: "x = (impl, opts, tr)" by (cases x)
      obtain rs res where con: "ho_Connect H impl opts tr = (rs, res)" by fastforce
      show thesis
      proof (cases res)
        case (Inl e)
        with None Inr x con show thesis by (intro same) (simp add: Client_Initialize_def)
      next
        case (Inr s)
        with None \<open>?prep = Inr x\<close> x con show thesis
          by (intro connected [of s]) (auto simp: Client_Initialize_def Let_def map_err_def split: sum.splits)
      qed
    qed
  next
    case (Some s)
    then show thesis by (intro same) (simp add: Client_Initialize_def)
  qed
qed

lemma watch_ok_Initialize:
  assumes "watch_ok c"
  shows "watch_ok (fst (Client_Initialize H dec zero info caps c))"
proof (cases rule: Initialize_shape [of H dec zero info caps c])
  case (connected s r)
  then show ?thesis using watch_core [OF assms] by (simp add: watch_ok_start)
qed (use assms in simp)

lemma watch_ok_OnConnectionLost: "watch_ok c \<Longrightarrow> watch_ok (OnConnectionLost h c)"
proof (cases "cl_session c")
  case (Some s)
  moreover assume "watch_ok c"
  ultimately show ?thesis
    using watch_ok_start [of "c\<lparr>cl_connLost := h\<rparr>" s] watch_core [of c] by (simp add: OnConnectionLost_def)
qed (auto simp: OnConnectionLost_def watch_ok_def)

lemma watch_ok_other:
  "watch_ok c \<Longrightarrow> watch_ok (fst (Client_Close H c))" "watch_ok c \<Longrightarrow> watch_ok (OnNotification n c)"
  by (auto simp: Client_Close_def OnNotification_def watch_ok_def split: option.splits)

text \<open>
  C34. The connection-lost watch, over every sequence of operations of a new client: at most one goroutine
  is ever started, so the handler is invoked at most once, and as soon as there are both a registered handler and a connected
  session, in whichever order they came, the watch has been started.
\<close>
theorem connection_lost_watch:
  assumes "new_client c0" "client_run H c0 c"
  shows "length (cl_watches c) \<le> 1 \<and> (cl_connLost c = None \<or> cl_session c = None \<or> cl_watches c \<noteq> [])"
proof -
  have "watch_ok c"
    using assms(2)
  proof (induction rule: client_run.induct)
    case start
    show ?case using assms(1) by (simp add: watch_ok_def new_client_def)
  qed (auto intro: watch_ok_Initialize watch_ok_OnConnectionLost watch_ok_other dest: request_same request_same_converted watch_ok_same)
  then show ?thesis by (auto simp: watch_ok_def)
qed

text \<open>A second watch is not started for a session connected after a \<open>Close\<close>, nor for a handler registered after the first one took effect.\<close>

lemma later_session_not_watched:
  assumes "cl_watchStarted c" "cl_session c = None"
  shows "cl_watches (fst (Client_Initialize H dec zero info caps c)) = cl_watches c"
    and "cl_watches (OnConnectionLost h c) = cl_watches c"
proof -
  show "cl_watches (fst (Client_Initialize H dec zero info caps c)) = cl_watches c"
    using assms(1)
    by (cases rule: Initialize_shape [of H dec zero info caps c])
       (auto simp: maybeStartConnLostWatch_def split: option.splits)
qed (use assms(2) in \<open>simp add: OnConnectionLost_def\<close>)

section \<open>Sessions\<close>

text \<open>\<open>Close\<close> leaves the transport's session ID in place, so the methods of a closed Streamable HTTP client take the raw resume path
  with the ID of the session just closed, instead of answering that the client is not initialized.\<close>

lemma closed_client_resumes:
  assumes "cl_session c = Some s" "cl_streamable c = Some st" "st_sessionID st \<noteq> []"
  shows "isResume (fst (Client_Close H c))"
  using assms by (simp add: Client_Close_def isResume_def)

text \<open>The \<open>_meta\<close> of a list request goes out on the resume path only.\<close>

lemma list_call_drops_meta:
  "cl_session c \<noteq> None \<Longrightarrow> list_call H method dec zero (pps\<lparr>pg_Meta := m\<rparr>) c = list_call H method dec zero pps c"
  by (auto simp: list_call_def isResume_def Client_sessionFor_def)

lemma connected_facts:
  assumes "cl_session c = Some s"
  shows "\<not> isResume c" "Client_sessionFor c = Inr s"
  using assms by (simp_all add: isResume_def Client_sessionFor_def)







section \<open>Answers of a resumed session\<close>

text \<open>An \<open>application/json\<close> answer is taken whatever its id.\<close>

lemma json_answer_any_id:
  "has_prefix (header_Get ''Content-Type'' hdr) ''application/json''
     \<Longrightarrow> readRPCResponse H hdr body i = readRPCResponse H hdr body j"
  by (simp add: readRPCResponse_def)

lemma raw_lines_line: "CHR 0x0A \<notin> set l \<Longrightarrow> raw_lines acc (l @ CHR 0x0A # s) = (acc @ l) # raw_lines [] s"
  by (induction l arbitrary: acc) auto

lemma trim_space_blank: "trim_space (CHR '' '' # s) = trim_space s"
proof -
  have mem: "[CHR '' ''] \<in> set ws_seqs" using ws_seqs_ascii [of "CHR '' ''"] by simp
  then obtain w where w: "find (\<lambda>w. w \<noteq> [] \<and> prefix w (CHR '' '' # s)) ws_seqs = Some w"
    by (cases "find (\<lambda>w. w \<noteq> [] \<and> prefix w (CHR '' '' # s)) ws_seqs") (auto simp: find_None_iff)
  then have m: "w \<in> set ws_seqs" and p: "w \<noteq> []" "prefix w (CHR '' '' # s)" by (auto dest: find_SomeD)
  have "w = [CHR '' '']" using ws_seqs_shape [OF m] p by (cases w) auto
  with w have "trim_left ws_seqs (CHR '' '' # s) = trim_left ws_seqs s" by (subst trim_left.simps) simp
  then show ?thesis by (simp add: trim_space_def)
qed

text \<open>
  The reference stream, as a server writes it: lines that end in a newline or in carriage return and newline. A \<open>Field\<close> line is anything that does not begin with
  \<open>data:\<close>, that is the \<open>event:\<close>, \<open>id:\<close> and \<open>retry:\<close> lines of an event, the empty line that ends it and the comments sent to keep the connection alive; a
  \<open>Data\<close> line carries the text of a message, or any other text.
\<close>

datatype stream_line = Field string | Data string

fun line_text :: "stream_line \<Rightarrow> string" where
  "line_text (Field l) = l"
| "line_text (Data t) = ''data:'' @ t"

definition stream_frame :: "stream_line \<times> bool \<Rightarrow> string" where
  "stream_frame f = line_text (fst f) @ (if snd f then [CHR 0x0D, CHR 0x0A] else [CHR 0x0A])"

definition event_stream :: "(stream_line \<times> bool) list \<Rightarrow> string" where
  "event_stream fs = concat (map stream_frame fs)"

text \<open>Each line is one line, and fits the scanner with its end of line.\<close>

definition one_line :: "stream_line \<Rightarrow> bool" where
  "one_line l \<longleftrightarrow> CHR 0x0A \<notin> set (line_text l) \<and> length (line_text l) + 1 < maxScanToken
     \<and> (case l of Field f \<Rightarrow> \<not> has_prefix f ''data:'' | Data t \<Rightarrow> t = [] \<or> last t \<noteq> CHR 0x0D)"

text \<open>The messages of JSON-RPC.\<close>

datatype rpc_message = Notification string json | Request json string json | Reply json json | Failure json int string

fun message_json :: "rpc_message \<Rightarrow> json" where
  "message_json (Notification m p) = JObj [(''jsonrpc'', JStr ''2.0''), (''method'', JStr m), (''params'', p)]"
| "message_json (Request i m p) = JObj [(''jsonrpc'', JStr ''2.0''), (''id'', i), (''method'', JStr m), (''params'', p)]"
| "message_json (Reply i r) = JObj [(''jsonrpc'', JStr ''2.0''), (''id'', i), (''result'', r)]"
| "message_json (Failure i code t) =
     JObj [(''jsonrpc'', JStr ''2.0''), (''id'', i), (''error'', JObj [(''code'', JNum code), (''message'', JStr t)])]"

text \<open>A message that does not answer the call \<open>rid\<close>: a notification, a request of the server, even one with the same id, or the answer to another id.\<close>

fun other_message :: "int \<Rightarrow> rpc_message \<Rightarrow> bool" where
  "other_message rid (Notification m p) \<longleftrightarrow> m \<noteq> []"
| "other_message rid (Request i m p) \<longleftrightarrow> m \<noteq> []"
| "other_message rid (Reply i r) \<longleftrightarrow> i \<noteq> JNum rid"
| "other_message rid (Failure i code t) \<longleftrightarrow> i \<noteq> JNum rid"

text \<open>A line that does not answer the call; \<open>parse\<close> reads the text of a message, and text that is not JSON is passed over.\<close>

fun other_line :: "(string \<Rightarrow> json option) \<Rightarrow> int \<Rightarrow> stream_line \<Rightarrow> bool" where
  "other_line parse rid (Field l) \<longleftrightarrow> True"
| "other_line parse rid (Data t) \<longleftrightarrow>
     parse (trim_space t) = None \<or> (\<exists>m. parse (trim_space t) = Some (message_json m) \<and> other_message rid m)"

lemma envelope_keys [json_dec]:
  "ascii_fold ''jsonrpc'' = ''jsonrpc''" "ascii_fold ''result'' = ''result''" "ascii_fold ''error'' = ''error''"
  "ascii_fold ''method'' = ''method''" "ascii_fold ''code'' = ''code''" "ascii_fold ''message'' = ''message''" "ascii_fold ''params'' = ''params''"
  by (code_simp)+

lemma dec_messages:
  "dec_envelope (message_json (Notification m p)) = (\<lparr>en_ID = None, en_Result = None, en_Error = None, en_Method = m\<rparr>, Fine)"
  "dec_envelope (message_json (Request i m p)) = (\<lparr>en_ID = Some i, en_Result = None, en_Error = None, en_Method = m\<rparr>, Fine)"
  "dec_envelope (message_json (Reply i r)) = (\<lparr>en_ID = Some i, en_Result = Some r, en_Error = None, en_Method = []\<rparr>, Fine)"
  by (simp_all add: dec_envelope_def dec_struct_def upd_rpcEnvelope_def json_dec dec_raw_def)

lemma dec_failure:
  "fst (dec_envelope (message_json (Failure i code t))) =
     \<lparr>en_ID = Some i, en_Result = None, en_Error = Some \<lparr>re_Code = (if is_int64 code then code else 0), re_Message = t\<rparr>, en_Method = []\<rparr>"
  "is_int64 code \<Longrightarrow> snd (dec_envelope (message_json (Failure i code t))) = Fine"
  by (simp_all add: dec_envelope_def dec_struct_def upd_rpcEnvelope_def upd_rpcError_def json_dec dec_raw_def dec_ptr_def into_def)

lemma idMatches_number: "0 < rid \<Longrightarrow> i \<noteq> JNum rid \<Longrightarrow> \<not> idMatches (Some i) rid"
  by (cases i) (auto simp: idMatches_def)

lemma other_message_skipped:
  assumes "0 < rid" "other_message rid m"
  shows "case dec_envelope (message_json m) of (env, Fine) \<Rightarrow> en_Method env \<noteq> [] \<or> \<not> idMatches (en_ID env) rid | _ \<Rightarrow> True"
proof (cases m)
  case (Failure i code t)
  then have "\<not> idMatches (en_ID (fst (dec_envelope (message_json m)))) rid"
    using assms by (simp add: dec_failure idMatches_number del: message_json.simps)
  then show ?thesis by (auto split: prod.splits dstat.splits)
qed (use assms in \<open>simp_all add: dec_messages idMatches_number del: message_json.simps\<close>)

text \<open>The scanner sees the lines of the stream without their ends.\<close>

lemma raw_lines_frame:
  assumes "one_line l"
  shows "\<exists>raw. raw_lines [] (stream_frame (l, cr) @ s) = raw # raw_lines [] s \<and> length raw < maxScanToken
    \<and> drop_cr raw = (if cr then line_text l else drop_cr (line_text l))"
proof (intro exI conjI)
  let ?raw = "line_text l @ (if cr then [CHR 0x0D] else [])"
  have "stream_frame (l, cr) @ s = ?raw @ CHR 0x0A # s" by (simp add: stream_frame_def)
  then show "raw_lines [] (stream_frame (l, cr) @ s) = ?raw # raw_lines [] s"
    using assms by (simp only: raw_lines_line append_Nil) (subst raw_lines_line, simp_all add: one_line_def)
  show "length ?raw < maxScanToken" using assms by (simp add: one_line_def)
  show "drop_cr ?raw = (if cr then line_text l else drop_cr (line_text l))" by (simp add: drop_cr_def)
qed

lemma drop_cr_prefix: "has_prefix (drop_cr l) p \<Longrightarrow> has_prefix l p"
  unfolding drop_cr_def by (cases l rule: rev_cases) (auto simp: prefix_snoc split: if_splits)

lemma sse_line_frame:
  assumes "one_line l"
  shows "sse_line parse rid (drop_cr (line_text l)) = sse_line parse rid (line_text l)"
proof (cases l)
  case (Field f)
  then show ?thesis using assms drop_cr_prefix [where l = f and p = "''data:''"] by (auto simp: one_line_def sse_line_def)
next
  case (Data t)
  then have "drop_cr (line_text l) = line_text l" using assms by (auto simp: one_line_def drop_cr_def)
  then show ?thesis by simp
qed

lemma sse_scan_frame:
  assumes "one_line l"
  shows "sse_scan parse rid fail (raw_lines [] (stream_frame (l, cr) @ s)) =
     (case sse_line parse rid (line_text l) of
        Some env \<Rightarrow> Inr (en_Result env, en_Error env)
      | None \<Rightarrow> sse_scan parse rid fail (raw_lines [] s))"
proof -
  obtain raw where raw: "raw_lines [] (stream_frame (l, cr) @ s) = raw # raw_lines [] s" "length raw < maxScanToken"
    "drop_cr raw = (if cr then line_text l else drop_cr (line_text l))" using raw_lines_frame [OF assms] by blast
  then have "sse_line parse rid (drop_cr raw) = sse_line parse rid (line_text l)" using sse_line_frame [OF assms] by simp
  with raw(1,2) show ?thesis by simp
qed

lemma sse_line_other:
  assumes "one_line l" "other_line parse rid l" "0 < rid"
  shows "sse_line parse rid (line_text l) = None"
proof (cases l)
  case (Field f)
  then show ?thesis using assms(1) by (simp add: one_line_def sse_line_def)
next
  case (Data t)
  then consider "parse (trim_space t) = None" | m where "parse (trim_space t) = Some (message_json m)" "other_message rid m"
    using assms(2) by auto
  then show ?thesis
  proof cases
    case (2 m)
    with other_message_skipped [OF assms(3) 2(2)] Data show ?thesis by (auto simp: sse_line_def split: prod.splits dstat.splits)
  qed (simp add: Data sse_line_def)
qed

lemma sse_scan_others:
  assumes "0 < rid"
  shows "list_all (\<lambda>f. one_line (fst f) \<and> other_line parse rid (fst f)) fs \<Longrightarrow>
     sse_scan parse rid fail (raw_lines [] (event_stream fs @ s)) = sse_scan parse rid fail (raw_lines [] s)"
proof (induction fs)
  case (Cons f fs)
  obtain l cr where f: "f = (l, cr)" by (cases f)
  with Cons show ?case using sse_scan_frame [of l] sse_line_other [of l parse rid, OF _ _ assms] by (simp add: event_stream_def)
qed (simp add: event_stream_def)

lemma sse_scan_answer:
  assumes "0 < rid" "list_all (\<lambda>f. one_line (fst f) \<and> other_line parse rid (fst f)) fs" "one_line (Data t)"
    and "parse (trim_space t) = Some j" "dec_envelope j = (env, Fine)" "en_Method env = []" "idMatches (en_ID env) rid"
  shows "sse_scan parse rid fail (raw_lines [] (event_stream (fs @ [(Data t, cr)]) @ rest)) = Inr (en_Result env, en_Error env)"
proof -
  have "event_stream (fs @ [(Data t, cr)]) @ rest = event_stream fs @ stream_frame (Data t, cr) @ rest" by (simp add: event_stream_def)
  moreover have "sse_line parse rid (line_text (Data t)) = Some env" using assms(4-7) by (simp add: sse_line_def)
  ultimately show ?thesis by (simp only: sse_scan_others [OF assms(1,2)] sse_scan_frame [OF assms(3)] option.case)
qed

text \<open>
  C35. A resumed call whose answer comes as an event stream returns what the server sent for its own id. The answer is the first \<open>data\<close> line whose text is the reply or the error with that id; before it the stream may hold, in any order,
  the other lines of events (\<open>event:\<close>, \<open>id:\<close>, \<open>retry:\<close>, empty lines), comments, text that is not JSON, notifications and requests of the server, and answers to other ids, each line ended by a newline with or
  without a carriage return, and anything may follow it. A reply that the caller's decoder accepts gives the decoded result; an error answer gives an error with the method and the server's message, and leaves the caller's value alone.
  Every line up to the answer must fit the scanner's buffer of 4 MiB.
\<close>
theorem resumed_call_gets_its_answer:
  assumes "200 \<le> hr_status resp" "hr_status resp < 300" "\<not> has_prefix (header_Get ''Content-Type'' (hr_header resp)) ''application/json''"
    and "hr_body resp = Some body" "rd_data body = event_stream (before @ [(Data t, cr)]) @ rest"
    and "list_all (\<lambda>f. one_line (fst f) \<and> other_line (ho_Parse H) rid (fst f)) before" "one_line (Data t)"
    and "0 < rid" "is_int64 rid"
  shows "(\<forall>result x. ho_Parse H (trim_space t) = Some (message_json (Reply (JNum rid) result)) \<and> dec result out = (x, Fine) \<longrightarrow>
            resume_answer H method sid rid (Some dec) out resp = (x, None))
       \<and> (\<forall>code msg. ho_Parse H (trim_space t) = Some (message_json (Failure (JNum rid) code msg)) \<and> is_int64 code \<longrightarrow>
            resume_answer H method sid rid (Some dec) out resp = (out, Some (Plain (method @ '': '' @ msg))))"
proof -
  have id: "idMatches (Some (JNum rid)) rid" using assms(9) by (simp add: idMatches_def)
  have read: "readRPCResponse H (hr_header resp) body rid = Inr (en_Result env, en_Error env)"
    if "ho_Parse H (trim_space t) = Some j" "dec_envelope j = (env, Fine)" "en_Method env = []" "en_ID env = Some (JNum rid)" for j env
    using sse_scan_answer [OF assms(8,6,7) that(1-3)] that(4) id assms(3) by (simp add: readRPCResponse_def assms(5))
  note answer = resume_answer_def Let_def assms(4)
  show ?thesis
  proof (intro conjI allI impI, goal_cases)
    case (1 result x)
    then show ?case using read [OF _ dec_messages(3)] assms(1,2) by (simp add: answer del: message_json.simps)
  next
    case (2 code msg)
    have "dec_envelope (message_json (Failure (JNum rid) code msg)) =
        (\<lparr>en_ID = Some (JNum rid), en_Result = None, en_Error = Some \<lparr>re_Code = code, re_Message = msg\<rparr>, en_Method = []\<rparr>, Fine)"
      using 2 dec_failure by (intro prod_eqI) (simp_all del: message_json.simps)
    from read [OF _ this] 2 assms(1,2) show ?case by (simp add: answer del: message_json.simps)
  qed
qed

section \<open>What reaches the server\<close>

text \<open>
  A tool call on a connected client passes the request's metadata on: the go-sdk receives one map whose
  \<open>progressToken\<close> entry is the progress token and whose other entries are the additional fields, and a call that fails is reported
  through the error mapping.
\<close>
theorem call_meta_forwarded:
  assumes "cl_session c = Some s" "ctp_Meta params = Some meta" "wf_Meta meta"
  shows "\<exists>m. map_get ''progressToken'' (Some m) = mt_ProgressToken meta
    \<and> mt_AdditionalFields meta = Some (map_del [''progressToken''] m)
    \<and> CallTool H params c =
        (case ho_CallTool H s (ctp_Name params) (ctp_Arguments params) (Some m) of
           (resps, Inl e) \<Rightarrow> Some (c, None, call_error H resps e)
         | (_, Inr res) \<Rightarrow> returned c (convertResult dec_CallToolResult zero_CallToolResult (Inr res)))"
proof -
  obtain m where m: "Meta_MarshalJSON meta = enc_any (JObj m)" "wf_map m" "map_get ''progressToken'' (Some m) = mt_ProgressToken meta"
      "mt_AdditionalFields meta = Some (map_del [''progressToken''] m)"
    using Meta_document [OF assms(3)] by blast
  have "dec_map JNull dec_iface (enc_any (JObj m)) (Some []) = (Some m, Fine)"
    using dec_enc_any_map [of "Some m" JNull] m(2) by (simp add: dec_map_def enc_map_def)
  then have "jsonConvert (Inr (Meta_MarshalJSON meta)) (dec_map JNull dec_iface) (Some []) = Inr (Some m)"
    by (simp only: jsonConvert_def m(1) bindE_simps prod.case dstat.case)
  then have "CallTool H params c =
        (case ho_CallTool H s (ctp_Name params) (ctp_Arguments params) (Some m) of
           (resps, Inl e) \<Rightarrow> Some (c, None, call_error H resps e)
         | (_, Inr res) \<Rightarrow> returned c (convertResult dec_CallToolResult zero_CallToolResult (Inr res)))"
    using assms(1,2) by (simp add: CallTool_def connected_facts)
  with m(3,4) show ?thesis by blast
qed

section \<open>A concrete client\<close>

definition demo_session :: gosdk_session where
  "demo_session = \<lparr>ss_handle = 1, ss_ID = ''srv-1'', ss_InitializeResult = JObj []\<rparr>"

text \<open>An answer that comes after the lines of another event, a comment and a request with the same id.\<close>

definition demo_before :: "(stream_line \<times> bool) list" where
  "demo_before = [(Field '': keep-alive'', False), (Field [], False), (Field ''event: message'', True), (Field ''id: 7'', True),
     (Data '' N'', True), (Field [], True), (Data '' junk'', False), (Field ''event: message'', False)]"

definition demo_host :: "unit host" where
  "demo_host =
     \<lparr>ho_uni = (\<lambda>s. s), ho_quote = (\<lambda>s. s), ho_Implementation = (\<lambda>j x. (x, Fine)), ho_ClientCapabilities = (\<lambda>j x. (x, Fine)),
      ho_Connect = (\<lambda>_ _ _. ([], Inr demo_session)), ho_Close = (\<lambda>_. None), ho_Ping = (\<lambda>_. None), ho_SetLoggingLevel = (\<lambda>_ _. None),
      ho_List = (\<lambda>_ _ _. ([], Inr (JObj []))), ho_CallTool = (\<lambda>_ _ _ _. ([], Inr (JObj []))), ho_CompleteParams = (\<lambda>j x. (x, Fine)),
      ho_Complete = (\<lambda>_ _. ([], Inr (JObj []))),
      ho_ReadResource = (\<lambda>_ _. ([], Inl (Plain ''none''))), ho_GetPrompt = (\<lambda>_ _ _. ([], Inl (Plain ''none''))),
      ho_ReadResourceResult = (\<lambda>j x. (x, Fine)), ho_GetPromptResult = (\<lambda>j x. (x, Fine)), ho_NewRequest = (\<lambda>_. None),
      ho_Do = (\<lambda>_ _. Inl (Plain ''offline'')), ho_Decode = (\<lambda>_. Inl (Plain ''empty'')),
      ho_Parse = (\<lambda>t. if t = ''A'' then Some (message_json (Reply (JNum 2) (JBool True)))
                       else if t = ''N'' then Some (message_json (Request (JNum 2) ''roots/list'' JNull)) else None)\<rparr>"

lemma demo_host_fields:
  "ho_CallTool demo_host s n a m = ([], Inr (JObj []))" "ho_Parse demo_host ''A'' = Some (message_json (Reply (JNum 2) (JBool True)))"
  "ho_Parse demo_host ''N'' = Some (message_json (Request (JNum 2) ''roots/list'' JNull))" "ho_Parse demo_host ''junk'' = None"
  by (simp_all add: demo_host_def)

abbreviation demo_client :: "unit Client" where
  "demo_client \<equiv> NewStreamableHttpClient ''http://h/mcp'' [WithSession ''preset'']"

abbreviation demo_connected :: "unit Client" where
  "demo_connected \<equiv> fst (Client_Initialize demo_host dec_iface JNull (Inr (JObj [])) (Inr (JObj [])) demo_client)"

lemmas demo_eval =
  Client_Initialize_def client_impl_def client_options_def buildTransport_def jsonConvert_def isZeroCapabilities_def NewStreamableHttpClient_def
  zero_Client_def NewStreamableHTTP_def WithSession_def demo_host_def demo_session_def maybeStartConnLostWatch_def dec_iface_def
  SetSessionID_def

theorem connection_lost_watch_witness:
  "length (cl_watches (OnConnectionLost (Some 7) demo_connected)) = 1"
proof -
  have run: "client_run demo_host demo_client (OnConnectionLost (Some 7) demo_connected)"
    by (intro client_run.lost client_run.init client_run.start)
  have "cl_session (OnConnectionLost (Some 7) demo_connected) \<noteq> None" "cl_connLost (OnConnectionLost (Some 7) demo_connected) \<noteq> None"
    by (simp_all add: OnConnectionLost_def demo_eval)
  with connection_lost_watch [OF new_client_constructors(1) run] show ?thesis
    by (cases "cl_watches (OnConnectionLost (Some 7) demo_connected)") auto
qed


theorem resumed_call_gets_its_answer_witness:
  "resume_answer demo_host ''tools/list'' ''s'' 2 (Some dec_bool) False
     \<lparr>hr_status = 200, hr_header = Map.empty,
      hr_body = Some \<lparr>rd_data = event_stream (demo_before @ [(Data '' A'', False)]) @ ''x'', rd_fail = None, rd_joined = False\<rparr>\<rparr>
   = (True, None)"
proof -
  have trim: "trim_space '' A'' = ''A''" "trim_space '' N'' = ''N''" "trim_space '' junk'' = ''junk''"
    using trim_space_ascii [of "''A''"] trim_space_ascii [of "''N''"] trim_space_ascii [of "''junk''"]
    by (simp_all add: trim_space_blank ascii_space_def)
  have "one_line (Data '' A'')" by (simp add: one_line_def maxScanToken_def)
  moreover have "list_all (\<lambda>f. one_line (fst f)) demo_before"
    by (simp add: demo_before_def one_line_def maxScanToken_def)
  moreover have "other_line (ho_Parse demo_host) 2 (Data '' N'')"
    unfolding other_line.simps trim demo_host_fields by (intro disjI2 exI [of _ "Request (JNum 2) ''roots/list'' JNull"]) simp
  then have "list_all (\<lambda>f. other_line (ho_Parse demo_host) 2 (fst f)) demo_before"
    by (simp add: demo_before_def trim demo_host_fields del: other_line.simps(2)) (simp add: trim demo_host_fields)
  ultimately show ?thesis
    by (intro resumed_call_gets_its_answer [where before = demo_before and t = "'' A''" and cr = False and rest = "''x''"
          and body = "\<lparr>rd_data = event_stream (demo_before @ [(Data '' A'', False)]) @ ''x'', rd_fail = None, rd_joined = False\<rparr>",
          THEN conjunct1, rule_format, where result = "JBool True"])
      (simp_all add: list_all_iff header_Get_def is_int64_def max_int64_def trim demo_host_fields del: message_json.simps)
qed

theorem call_meta_forwarded_witness:
  "CallTool demo_host \<lparr>ctp_Name = ''t'', ctp_Arguments = JNull, ctp_Meta = Some \<lparr>mt_ProgressToken = JStr ''p'', mt_AdditionalFields = Some []\<rparr>, ctp_Task = None\<rparr>
     demo_connected = returned demo_connected (convertResult dec_CallToolResult zero_CallToolResult (Inr (JObj [])))"
proof -
  have s: "cl_session demo_connected = Some demo_session" by (simp add: demo_eval)
  have wf: "wf_Meta \<lparr>mt_ProgressToken = JStr ''p'', mt_AdditionalFields = Some []\<rparr>"
    by (simp add: wf_Meta_def valid_utf8_ascii)
  show ?thesis
    using call_meta_forwarded [OF s _ wf, of "\<lparr>ctp_Name = ''t'', ctp_Arguments = JNull, ctp_Meta = _, ctp_Task = None\<rparr>" demo_host]
    by (auto simp: demo_host_fields)
qed

end
