(* ===== verification/Go_Codec.thy ===== *)
theory Go_Codec
  imports Go_Json "HOL-Library.Multiset"
begin

text \<open>
  Struct values that travel as \<open>map[string]any\<close>: the value is encoded, the document decoded into \<open>any\<close>, encoded again and decoded
  into the struct. \<open>norm_json\<close> is what the detour does to the document: numbers pass through float64 and the members of
  every object are put in the order of their keys.

  A struct decoder is a table of its fields (\<open>upd_table\<close>). The locale \<open>json_codec\<close> is the contract of a type that survives the
  detour, with the lemmas for pointers to it and slices of it; every struct type of the registry is an interpretation.
\<close>

section \<open>Field tables\<close>

definition field :: "'v decoder \<Rightarrow> ('a \<Rightarrow> 'v) \<Rightarrow> ('v \<Rightarrow> 'a \<Rightarrow> 'a) \<Rightarrow> 'a decoder" where
  "field d get put j x = into (d j (get x)) (\<lambda>v. put v x)"

type_synonym 'a fields = "(string \<times> 'a decoder) list"

definition upd_table :: "'a fields \<Rightarrow> string \<Rightarrow> 'a decoder" where
  "upd_table fs k j x = (case find (\<lambda>(n, d). key_eq k n) fs of None \<Rightarrow> (x, Fine) | Some (n, d) \<Rightarrow> d j x)"

text \<open>Two fields that may be decoded in either order.\<close>

definition indep :: "'a decoder \<Rightarrow> 'a decoder \<Rightarrow> bool" where
  "indep d e \<longleftrightarrow> (\<forall>i j x. fst (d i (fst (e j x))) = fst (e j (fst (d i x))))"

definition wf_fields :: "'a fields \<Rightarrow> bool" where
  "wf_fields fs \<longleftrightarrow> sorted_wrt (\<lambda>(m, d) (n, e). \<not> key_eq m n \<and> indep d e) fs"

lemma indep_sym: "indep d e \<Longrightarrow> indep e d"
  by (simp add: indep_def)

lemma indep_field:
  assumes "\<And>u v x. put (u :: 'v) (put' (v :: 'w) x) = put' v (put u x)" "\<And>v x. get (put' v x) = get x" "\<And>u x. get' (put u x) = get' x"
  shows "indep (field d get put) (field d' get' put')"
  by (simp add: indep_def field_def into_def assms)

lemma key_eq_sym: "key_eq m n \<longleftrightarrow> key_eq n m"
  by (auto simp: key_eq_def)

lemma upd_table_exact:
  "wf_fields fs \<Longrightarrow> (n, d) \<in> set fs \<Longrightarrow> upd_table fs n = d"
proof (induction fs)
  case (Cons f fs)
  show ?case
  proof (cases "f = (n, d)")
    case True
    then show ?thesis by (simp add: upd_table_def fun_eq_iff)
  next
    case False
    with Cons.prems have "(n, d) \<in> set fs" by simp
    moreover from this Cons.prems(1) have "\<not> key_eq n (fst f)"
      by (auto simp: wf_fields_def key_eq_sym [of n] split: prod.splits)
    ultimately show ?thesis
      using Cons by (cases f) (simp add: wf_fields_def upd_table_def fun_eq_iff)
  qed
qed simp

lemma wf_fields_indep:
  "wf_fields fs \<Longrightarrow> (m, d) \<in> set fs \<Longrightarrow> (n, e) \<in> set fs \<Longrightarrow> m \<noteq> n \<Longrightarrow> indep d e"
  by (induction fs) (auto simp: wf_fields_def dest: indep_sym)

section \<open>The order of members\<close>

lemma dec_fields_fold:
  "(\<And>k j x. (k, j) \<in> set m \<Longrightarrow> snd (upd k j x) = Fine)
     \<Longrightarrow> dec_fields upd m x = (fold (\<lambda>(k, j) x. fst (upd k j x)) m x, Fine)"
proof (induction m arbitrary: x)
  case (Cons kj m)
  obtain k j where kj: "kj = (k, j)" by fastforce
  have "upd k j x = (fst (upd k j x), Fine)" using Cons.prems [of k j x] by (simp add: kj prod_eq_iff)
  then show ?case using Cons by (auto simp: kj split: prod.splits)
qed simp

lemma dec_fields_perm:
  assumes "mset m = mset m'" "distinct (map fst m)" "\<And>k j x. (k, j) \<in> set m \<Longrightarrow> snd (upd k j x) = Fine"
    and "\<And>k j k' j'. (k, j) \<in> set m \<Longrightarrow> (k', j') \<in> set m \<Longrightarrow> k \<noteq> k' \<Longrightarrow> indep (upd k) (upd k')"
  shows "dec_fields upd m x = dec_fields upd m' x"
proof -
  have "set m = set m'" using assms(1) by (rule mset_eq_setD)
  then have fine: "snd (upd k j y) = Fine" if "(k, j) \<in> set m'" for k j y using assms(3) that by simp
  have "fold (\<lambda>(k, j) x. fst (upd k j x)) m = fold (\<lambda>(k, j) x. fst (upd k j x)) m'"
  proof (rule fold_multiset_equiv [OF _ assms(1)])
    fix p q assume pq: "p \<in> set m" "q \<in> set m"
    obtain k j where p: "p = (k, j)" by fastforce
    obtain k' j' where q: "q = (k', j')" by fastforce
    show "(case p of (k, j) \<Rightarrow> \<lambda>x. fst (upd k j x)) \<circ> (case q of (k, j) \<Rightarrow> \<lambda>x. fst (upd k j x))
        = (case q of (k, j) \<Rightarrow> \<lambda>x. fst (upd k j x)) \<circ> (case p of (k, j) \<Rightarrow> \<lambda>x. fst (upd k j x))"
    proof (cases "k = k'")
      case True
      then have "p = q" using pq assms(2) by (metis p q eq_key_imp_eq_value)
      then show ?thesis by simp
    next
      case False
      then have "indep (upd k) (upd k')" using pq assms(4) by (simp add: p q)
      then show ?thesis by (simp add: p q indep_def fun_eq_iff)
    qed
  qed
  then show ?thesis by (simp add: dec_fields_fold assms(3) fine)
qed

section \<open>Documents that pass through \<open>any\<close>\<close>

definition norm_members :: "(string \<times> json) list \<Rightarrow> (string \<times> json) list" where
  "norm_members m = map (\<lambda>(k, v). (k, norm_json v)) m"

lemma norm_members_simps [simp]:
  "norm_members [] = []" "norm_members (omit b k v @ m) = omit b k (norm_json v) @ norm_members m"
  by (simp_all add: norm_members_def omit_def)

lemma mset_map_put: "k \<notin> fst ` set m \<Longrightarrow> mset (map_put k v m) = add_mset (k, v) (mset m)"
  by (induction m) auto

lemma mset_map_puts:
  "distinct (map fst xs) \<Longrightarrow> fst ` set xs \<inter> fst ` set m = {} \<Longrightarrow> mset (map_puts xs m) = mset xs + mset m"
proof (induction xs arbitrary: m)
  case (Cons x xs)
  obtain k v where x: "x = (k, v)" by fastforce
  have "mset (map_puts xs (map_put k v m)) = mset xs + mset (map_put k v m)"
    using Cons.prems by (intro Cons.IH) (auto simp: x keys_map_put)
  moreover have "mset (map_put k v m) = add_mset (k, v) (mset m)"
    using Cons.prems(2) by (intro mset_map_put) (auto simp: x)
  ultimately show ?case by (simp add: x map_puts_Cons)
qed simp

lemma norm_object:
  assumes "distinct (map fst E)" "list_all valid_utf8 (map fst E)"
  obtains S where "norm_json (JObj E) = JObj S" "mset S = mset (norm_members E)"
proof -
  let ?f = "\<lambda>(k, v). (utf8_fix k, enc_any v)" and ?d = "\<lambda>(k, v). (k, dec_any v)"
  have "mset (map_puts (map ?d E) []) = mset (map ?d E)"
    using assms(1) by (subst mset_map_puts) (auto simp: comp_def case_prod_unfold)
  then have "mset (map ?f (map_puts (map ?d E) [])) = mset (map ?f (map ?d E))" by (simp only: mset_map)
  also have "map ?f (map ?d E) = norm_members E"
    using assms(2) by (auto simp: norm_members_def norm_json_def list_all_iff)
  finally show thesis by (intro that [of "map ?f (map_puts (map ?d E) [])"]) (simp_all add: norm_json_def)
qed

text \<open>Decoding a struct after the detour: its members in their original order, each normalised.\<close>

lemma dec_norm_struct:
  assumes "distinct (map fst E)" "list_all valid_utf8 (map fst E)"
    and "\<And>k j x. (k, j) \<in> set E \<Longrightarrow> snd (upd k (norm_json j) x) = Fine"
    and "\<And>k k'. k \<in> fst ` set E \<Longrightarrow> k' \<in> fst ` set E \<Longrightarrow> k \<noteq> k' \<Longrightarrow> indep (upd k) (upd k')"
  shows "dec_struct upd (norm_json (JObj E)) x = dec_fields upd (norm_members E) x"
proof -
  obtain S where S: "norm_json (JObj E) = JObj S" "mset S = mset (norm_members E)"
    using norm_object [OF assms(1,2)] by blast
  have "dec_fields upd (norm_members E) x = dec_fields upd S x"
  proof (rule dec_fields_perm [OF S(2) [symmetric]])
    show "distinct (map fst (norm_members E))" using assms(1) by (simp add: norm_members_def comp_def case_prod_unfold)
    show "snd (upd k j x) = Fine" if "(k, j) \<in> set (norm_members E)" for k j x
      using assms(3) that by (auto simp: norm_members_def)
    show "indep (upd k) (upd k')"
      if "(k, j) \<in> set (norm_members E)" "(k', j') \<in> set (norm_members E)" "k \<noteq> k'" for k j k' j'
      using that by (intro assms(4)) (force simp: norm_members_def)+
  qed
  then show ?thesis by (simp add: S(1) dec_struct_def)
qed

lemma wf_fields_keys:
  assumes "wf_fields fs" "k \<in> fst ` set fs" "k' \<in> fst ` set fs" "k \<noteq> k'"
  shows "indep (upd_table fs k) (upd_table fs k')"
proof -
  from assms(2,3) obtain d d' where "(k, d) \<in> set fs" "(k', d') \<in> set fs" by force
  with assms(1,4) show ?thesis using wf_fields_indep upd_table_exact by metis
qed

lemma dec_member_bool:
  "(\<And>c. upd k (JBool c) x = (f c, Fine)) \<Longrightarrow> f False = x \<Longrightarrow> dec_fields upd m (f b) = r
     \<Longrightarrow> dec_fields upd (omit (\<not> b) k (JBool b) @ m) x = r"
  by (cases b; cases r) (auto simp: omit_def)

section \<open>The contract of a codec\<close>

lemma norm_basic [simp]:
  "norm_json JNull = JNull" "norm_json (JBool b) = JBool b" "\<bar>n\<bar> < 2 ^ 53 \<Longrightarrow> norm_json (JNum n) = JNum n"
  by (simp_all add: norm_json_plain)

locale json_codec =
  fixes enc :: "'a \<Rightarrow> json" and dec :: "'a decoder" and zero :: 'a and good :: "'a \<Rightarrow> bool"
  assumes through: "good v \<Longrightarrow> dec (norm_json (enc v)) zero = (v, Fine)"
    and fine: "good v \<Longrightarrow> snd (dec (norm_json (enc v)) x) = Fine"
    and not_null: "good v \<Longrightarrow> norm_json (enc v) \<noteq> JNull"
begin

lemma norm_ptr: "norm_json (enc_ptr enc v) = enc_ptr (\<lambda>w. norm_json (enc w)) v"
  by (cases v) (simp_all add: enc_ptr_def norm_json_def)

lemma norm_slice: "norm_json (enc_slice f vs) = enc_slice (\<lambda>w. norm_json (f w)) vs"
  by (cases vs) (simp_all add: enc_slice_def norm_json_def)

lemma ptr_through: "pred_option good v \<Longrightarrow> dec_ptr zero dec (norm_json (enc_ptr enc v)) None = (v, Fine)"
  unfolding norm_ptr by (rule dec_enc_ptr) (auto simp: pred_option_def through not_null)

lemma ptr_fine: "pred_option good v \<Longrightarrow> snd (dec_ptr zero dec (norm_json (enc_ptr enc v)) x) = Fine"
  by (cases v) (auto simp: norm_ptr dec_ptr_def enc_ptr_def into_def fine)

lemma slice_through: "pred_option (list_all good) vs \<Longrightarrow> dec_slice zero dec (norm_json (enc_slice enc vs)) x = (vs, Fine)"
  unfolding norm_slice by (rule dec_enc_slice) (auto simp: pred_option_def list_all_iff through)

lemma ptrs_through:
  "pred_option (list_all (pred_option good)) vs \<Longrightarrow> dec_slice None (dec_ptr zero dec) (norm_json (enc_slice (enc_ptr enc) vs)) x = (vs, Fine)"
  unfolding norm_slice by (rule dec_enc_slice) (auto simp: pred_option_def list_all_iff ptr_through)

end

text \<open>The contract from what is checked for one struct: its keys, that no member is rejected whatever was decoded before, that fields
  are independent, and that the normalised members decode to the value.\<close>

lemma norm_sorted: "distinct (map fst E) \<Longrightarrow> norm_json (JObj (map_puts E [])) = norm_json (JObj E)"
proof -
  assume d: "distinct (map fst E)"
  let ?d = "map (\<lambda>(k, v). (k, dec_any v))"
  have fst_d: "map fst (?d m) = map fst m" for m by (simp add: comp_def case_prod_unfold)
  have "map_puts (?d (map_puts E [])) [] = map_puts (?d E) []"
  proof (rule go_map_eqI)
    have A: "map_of (?d m) = (\<lambda>k. map_option dec_any (map_of m k))" for m by (rule ext) (induction m, auto)
    have B: "map_of (map_puts (?d m) []) = map_of (?d m)" if "distinct (map fst m)" for m
      using that map_of_rev_distinct [of "?d m"] by (simp only: map_of_puts fst_d map_of.simps empty_map_add)
    have C: "map_of (map_puts E []) = map_of E" "distinct (map fst (map_puts E []))"
      using d by (simp_all add: map_of_puts map_of_rev_distinct go_map_distinct)
    show "map_of (map_puts (?d (map_puts E [])) []) = map_of (map_puts (?d E) [])"
      unfolding B [OF C(2)] B [OF d] A C(1) ..
  qed simp_all
  then show ?thesis by (simp add: norm_json_def)
qed

lemma struct_codec:
  assumes "\<And>v. enc v = JObj (E v)"
    and "\<And>v. distinct (map fst (E v)) \<and> list_all valid_utf8 (map fst (E v)) \<and> fst ` set (E v) \<subseteq> K"
    and "\<And>v k j x. good v \<Longrightarrow> (k, j) \<in> set (E v) \<Longrightarrow> snd (upd k (norm_json j) x) = Fine"
    and "\<And>k k'. k \<in> K \<Longrightarrow> k' \<in> K \<Longrightarrow> k \<noteq> k' \<Longrightarrow> indep (upd k) (upd k')"
    and "\<And>v. good v \<Longrightarrow> dec_fields upd (norm_members (E v)) zero = (v, Fine)"
  shows "json_codec enc (dec_struct upd) zero good"
proof
  fix v x
  assume v: "good v"
  have step: "dec_struct upd (norm_json (enc v)) y = dec_fields upd (norm_members (E v)) y" for y
    unfolding assms(1)
  proof (rule dec_norm_struct)
    show "indep (upd k) (upd k')" if "k \<in> fst ` set (E v)" "k' \<in> fst ` set (E v)" "k \<noteq> k'" for k k'
      using assms(2) [of v] that by (intro assms(4)) auto
  qed (use assms(2) [of v] assms(3) [OF v] in auto)
  show "dec_struct upd (norm_json (enc v)) zero = (v, Fine)" by (simp add: step assms(5) v)
  show "snd (dec_struct upd (norm_json (enc v)) x) = Fine"
    unfolding step by (rule dec_fields_fine) (use assms(3) [OF v] in \<open>auto simp: norm_members_def\<close>)
  show "norm_json (enc v) \<noteq> JNull" by (simp add: assms(1) norm_json_def)
qed

lemma table_codec:
  assumes "\<And>v. enc v = JObj (E v)" "wf_fields fs"
    and "\<And>v. distinct (map fst (E v)) \<and> list_all valid_utf8 (map fst (E v)) \<and> fst ` set (E v) \<subseteq> fst ` set fs"
    and "\<And>v k j x. good v \<Longrightarrow> (k, j) \<in> set (E v) \<Longrightarrow> snd (upd_table fs k (norm_json j) x) = Fine"
    and "\<And>v. good v \<Longrightarrow> dec_fields (upd_table fs) (norm_members (E v)) zero = (v, Fine)"
  shows "json_codec enc (dec_struct (upd_table fs)) zero good"
  by (rule struct_codec [where K = "fst ` set fs" and E = E]) (use assms wf_fields_keys [OF assms(2)] in simp_all)

lemma norm_enc_any [simp]: "wf_any v \<Longrightarrow> norm_json (enc_any v) = enc_any v"
  by (simp add: norm_json_def)

lemma norm_enc_string [simp]: "valid_utf8 s \<Longrightarrow> norm_json (enc_string s) = enc_string s"
  by (simp add: norm_json_plain enc_string_def)

lemma norm_enc_strings [simp]: "pred_option (list_all valid_utf8) xs \<Longrightarrow> norm_json (enc_slice enc_string xs) = enc_slice enc_string xs"
  by (cases xs) (auto intro!: norm_json_plain simp: enc_slice_def list_all_iff enc_string_def)

lemma norm_enc_map [simp]: "pred_option wf_map m \<Longrightarrow> norm_json (enc_map enc_any m) = enc_map enc_any m"
  by (cases m) (use norm_enc_any [of "JObj (the m)"] in \<open>auto simp: enc_map_def simp del: norm_enc_any\<close>)

lemma norm_enc_string_map [simp]:
  "pred_option (\<lambda>m. go_map m \<and> list_all (\<lambda>(k, v). valid_utf8 k \<and> valid_utf8 v) m) m
     \<Longrightarrow> norm_json (enc_map enc_string m) = enc_map enc_string m"
proof (cases m)
  case (Some m')
  assume "pred_option (\<lambda>m. go_map m \<and> list_all (\<lambda>(k, v). valid_utf8 k \<and> valid_utf8 v) m) m"
  with Some have m': "go_map m'" "list_all (\<lambda>(k, v). valid_utf8 k \<and> valid_utf8 v) m'" by simp_all
  then have "map (\<lambda>(k, v). (utf8_fix k, enc_string v)) m' = map (\<lambda>(k, v). (k, JStr v)) m'"
    by (auto simp: list_all_iff enc_string_def)
  moreover have "plain_doc (JObj (map (\<lambda>(k, v). (k, JStr v)) m'))"
    using m' by (auto simp: list_all_iff go_map_def comp_def case_prod_unfold)
  ultimately show ?thesis unfolding Some enc_map_def option.case by (metis norm_json_plain)
qed (simp add: enc_map_def)

end
