(* ===== verification/Registry_Types.thy ===== *)
theory Registry_Types
  imports Go_Codec Mcp_Tools Permissions
begin

text \<open>
  The registry data model (\<open>registry/types/registry_types.go\<close>, \<open>publisher_provided_types.go\<close>, and the JSON form of
  \<open>permissions/profile.go\<close>): server metadata, the registry lookups, and the publisher-provided extensions with the encoding and
  decoding of every struct they contain. A pointer or a slice that may be nil is an option, a map the list of its entries.

  Each struct has its zero value, its encoder by struct tags (\<open>enc_...\<close>), its field table (\<open>fields_...\<close>), its decoder (\<open>dec_...\<close>)
  and the values that survive (\<open>wf_...\<close>: valid UTF-8, integers below 2 to the 53, no empty but non-nil slice in a member that is left out when empty).
  Every codec is an interpretation of \<open>json_codec\<close>, so that it survives the detour through \<open>map[string]any\<close> that the registry converters take.
\<close>

declare ascii_fold.simps [simp del]

section \<open>Decoders and keys\<close>

lemma small_int64 [simp]: "\<bar>n\<bar> < 2 ^ 53 \<Longrightarrow> is_int64 n"
  by (auto simp: is_int64_def max_int64_def)

text \<open>A slice whose nil and empty values are not told apart.\<close>

definition dec_list :: "'a \<Rightarrow> 'a decoder \<Rightarrow> 'a list decoder" where
  "dec_list zero d j x = into (dec_slice zero d j (Some x)) (\<lambda>v. case v of None \<Rightarrow> [] | Some xs \<Rightarrow> xs)"

abbreviation wf_string_map :: "(string \<times> string) list option \<Rightarrow> bool" where
  "wf_string_map m \<equiv> m \<noteq> Some [] \<and> pred_option (\<lambda>m. go_map m \<and> list_all (\<lambda>(k, v). valid_utf8 k \<and> valid_utf8 v) m) m"

lemma dec_list_strings [simp]: "list_all valid_utf8 xs \<Longrightarrow> dec_list [] dec_string (enc_slice enc_string (Some xs)) x = (xs, Fine)"
  by (simp add: dec_list_def)

lemma dec_list_ints [simp]:
  assumes "list_all (\<lambda>n. \<bar>n\<bar> < 2 ^ 53) xs"
  shows "dec_list 0 dec_int (norm_json (enc_slice JNum (Some xs))) x = (xs, Fine)"
proof -
  have "norm_json (enc_slice JNum (Some xs)) = enc_slice JNum (Some xs)"
    using assms by (intro norm_json_plain) (simp add: enc_slice_def list_all_iff)
  moreover have "dec_slice 0 dec_int (enc_slice JNum (Some xs)) (Some x) = (Some xs, Fine)"
    using assms by (intro dec_enc_slice) (auto simp: list_all_iff)
  ultimately show ?thesis by (simp add: dec_list_def)
qed

lemma dec_maps_fine [simp]:
  "pred_option wf_map m \<Longrightarrow> snd (dec_map JNull dec_iface (enc_map enc_any m) x) = Fine"
  by (cases m) (simp_all add: dec_map_any_fine enc_map_def)

lemma dec_string_map_fine [simp]: "snd (dec_map [] dec_string (enc_map enc_string m) x) = Fine"
proof (cases m)
  case (Some m')
  have "snd (dec_fields (dec_entry [] dec_string) (map (\<lambda>(k, v). (utf8_fix k, enc_string v)) m') y) = Fine" for y
    by (rule dec_fields_fine) (auto simp: dec_entry_def enc_string_def)
  then show ?thesis by (simp add: Some dec_map_def enc_map_def into_def)
qed (simp add: dec_map_def enc_map_def)

lemmas codec_simps = upd_table_def field_def into_def

lemma registry_keys [json_dec]:
  "ascii_fold ''kind'' = ''kind''" "ascii_fold ''namespace'' = ''namespace''" "ascii_fold ''uid'' = ''uid''"
  "ascii_fold ''image'' = ''image''" "ascii_fold ''transport'' = ''transport''" "ascii_fold ''stars'' = ''stars''"
  "ascii_fold ''last_updated'' = ''last_updated''" "ascii_fold ''kubernetes'' = ''kubernetes''"
  "ascii_fold ''predicate_type'' = ''predicate_type''" "ascii_fold ''predicate'' = ''predicate''"
  "ascii_fold ''sigstore_url'' = ''sigstore_url''" "ascii_fold ''repository_uri'' = ''repository_uri''"
  "ascii_fold ''repository_ref'' = ''repository_ref''" "ascii_fold ''signer_identity'' = ''signer_identity''"
  "ascii_fold ''runner_environment'' = ''runner_environment''" "ascii_fold ''cert_issuer'' = ''cert_issuer''"
  "ascii_fold ''attestation'' = ''attestation''" "ascii_fold ''default'' = ''default''" "ascii_fold ''secret'' = ''secret''"
  "ascii_fold ''issuer'' = ''issuer''" "ascii_fold ''authorize_url'' = ''authorize_url''"
  "ascii_fold ''token_url'' = ''token_url''" "ascii_fold ''client_id'' = ''client_id''" "ascii_fold ''scopes'' = ''scopes''"
  "ascii_fold ''use_pkce'' = ''use_pkce''" "ascii_fold ''oauth_params'' = ''oauth_params''"
  "ascii_fold ''callback_port'' = ''callback_port''" "ascii_fold ''insecure_allow_all'' = ''insecure_allow_all''"
  "ascii_fold ''allow_host'' = ''allow_host''" "ascii_fold ''allow_port'' = ''allow_port''" "ascii_fold ''mode'' = ''mode''"
  "ascii_fold ''outbound'' = ''outbound''" "ascii_fold ''inbound'' = ''inbound''" "ascii_fold ''read'' = ''read''"
  "ascii_fold ''write'' = ''write''" "ascii_fold ''network'' = ''network''" "ascii_fold ''privileged'' = ''privileged''"
  "ascii_fold ''status'' = ''status''" "ascii_fold ''tier'' = ''tier''" "ascii_fold ''tools'' = ''tools''"
  "ascii_fold ''tags'' = ''tags''" "ascii_fold ''overview'' = ''overview''" "ascii_fold ''metadata'' = ''metadata''"
  "ascii_fold ''custom_metadata'' = ''custom_metadata''" "ascii_fold ''permissions'' = ''permissions''"
  "ascii_fold ''args'' = ''args''" "ascii_fold ''provenance'' = ''provenance''"
  "ascii_fold ''docker_tags'' = ''docker_tags''" "ascii_fold ''proxy_port'' = ''proxy_port''"
  "ascii_fold ''stateless'' = ''stateless''" "ascii_fold ''oauth_config'' = ''oauth_config''"
  "ascii_fold ''env_vars'' = ''env_vars''" "ascii_fold ''tool_definitions'' = ''tool_definitions''"
  by (code_simp)+

lemma member_keys:
  "distinct (map fst (omit b k v @ m)) \<longleftrightarrow> (b \<or> k \<notin> fst ` set m) \<and> distinct (map fst m)"
  "list_all valid_utf8 (map fst (omit b k v @ m)) \<longleftrightarrow> (b \<or> valid_utf8 k) \<and> list_all valid_utf8 (map fst m)"
  "k' \<in> fst ` set (omit b k v @ m) \<longleftrightarrow> \<not> b \<and> k' = k \<or> k' \<in> fst ` set m"
  "fst ` set (omit b k v @ m) \<subseteq> K \<longleftrightarrow> (b \<or> k \<in> K) \<and> fst ` set m \<subseteq> K"
  by (auto simp: omit_def)

section \<open>Metadata, provenance, environment, OAuth\<close>

record KubernetesMetadata =
  km_Kind :: string
  km_Namespace :: string
  km_Name :: string
  km_UID :: string
  km_Image :: string
  km_Transport :: string

definition zero_KubernetesMetadata :: KubernetesMetadata where
  "zero_KubernetesMetadata = \<lparr>km_Kind = [], km_Namespace = [], km_Name = [], km_UID = [], km_Image = [], km_Transport = []\<rparr>"

definition enc_KubernetesMetadata :: "KubernetesMetadata \<Rightarrow> json" where
  "enc_KubernetesMetadata x = JObj
     (omit (km_Kind x = []) ''kind'' (enc_string (km_Kind x)) @
      omit (km_Namespace x = []) ''namespace'' (enc_string (km_Namespace x)) @
      omit (km_Name x = []) ''name'' (enc_string (km_Name x)) @
      omit (km_UID x = []) ''uid'' (enc_string (km_UID x)) @
      omit (km_Image x = []) ''image'' (enc_string (km_Image x)) @
      omit (km_Transport x = []) ''transport'' (enc_string (km_Transport x)) @ [])"

definition fields_KubernetesMetadata :: "KubernetesMetadata fields" where
  "fields_KubernetesMetadata =
     [(''kind'', field dec_string km_Kind (\<lambda>v x. x\<lparr>km_Kind := v\<rparr>)),
      (''namespace'', field dec_string km_Namespace (\<lambda>v x. x\<lparr>km_Namespace := v\<rparr>)),
      (''name'', field dec_string km_Name (\<lambda>v x. x\<lparr>km_Name := v\<rparr>)),
      (''uid'', field dec_string km_UID (\<lambda>v x. x\<lparr>km_UID := v\<rparr>)),
      (''image'', field dec_string km_Image (\<lambda>v x. x\<lparr>km_Image := v\<rparr>)),
      (''transport'', field dec_string km_Transport (\<lambda>v x. x\<lparr>km_Transport := v\<rparr>))]"

definition dec_KubernetesMetadata :: "KubernetesMetadata decoder" where
  "dec_KubernetesMetadata = dec_struct (upd_table fields_KubernetesMetadata)"

definition wf_KubernetesMetadata :: "KubernetesMetadata \<Rightarrow> bool" where
  "wf_KubernetesMetadata x \<longleftrightarrow>
     valid_utf8 (km_Kind x) \<and>
     valid_utf8 (km_Namespace x) \<and>
     valid_utf8 (km_Name x) \<and>
     valid_utf8 (km_UID x) \<and>
     valid_utf8 (km_Image x) \<and>
     valid_utf8 (km_Transport x)"
interpretation KubernetesMetadata_codec: json_codec enc_KubernetesMetadata dec_KubernetesMetadata zero_KubernetesMetadata wf_KubernetesMetadata
  unfolding dec_KubernetesMetadata_def
proof (rule table_codec [OF enc_KubernetesMetadata_def], goal_cases wf keys fine round)
  case wf
  show ?case by (simp add: wf_fields_def fields_KubernetesMetadata_def indep_field json_dec)
next
  case keys
  show ?case by (simp only: member_keys) (simp add: fields_KubernetesMetadata_def valid_utf8_ascii)
next
  case (fine x k j)
  then show ?case
    unfolding wf_KubernetesMetadata_def
    by (simp only: set_append Un_iff omit_in list.set empty_iff prod.inject, elim disjE conjE)
       (simp_all add: fields_KubernetesMetadata_def codec_simps json_dec)
next
  case (round x)
  then show ?case
    unfolding norm_members_simps norm_basic(1,2) zero_KubernetesMetadata_def wf_KubernetesMetadata_def
    by - (((rule dec_member_bool | rule dec_member), (simp add: fields_KubernetesMetadata_def codec_simps json_dec)[1], (simp; fail)[1])+, simp)
qed

record Metadata =
  md_Stars :: int
  md_LastUpdated :: string
  md_Kubernetes :: "KubernetesMetadata option"

definition zero_Metadata :: Metadata where
  "zero_Metadata = \<lparr>md_Stars = 0, md_LastUpdated = [], md_Kubernetes = None\<rparr>"

definition enc_Metadata :: "Metadata \<Rightarrow> json" where
  "enc_Metadata x = JObj
     (omit (md_Stars x = 0) ''stars'' (JNum (md_Stars x)) @
      omit (md_LastUpdated x = []) ''last_updated'' (enc_string (md_LastUpdated x)) @
      omit (md_Kubernetes x = None) ''kubernetes'' (enc_ptr enc_KubernetesMetadata (md_Kubernetes x)) @ [])"

definition fields_Metadata :: "Metadata fields" where
  "fields_Metadata =
     [(''stars'', field dec_int md_Stars (\<lambda>v x. x\<lparr>md_Stars := v\<rparr>)),
      (''last_updated'', field dec_string md_LastUpdated (\<lambda>v x. x\<lparr>md_LastUpdated := v\<rparr>)),
      (''kubernetes'', field (dec_ptr zero_KubernetesMetadata dec_KubernetesMetadata) md_Kubernetes (\<lambda>v x. x\<lparr>md_Kubernetes := v\<rparr>))]"

definition dec_Metadata :: "Metadata decoder" where
  "dec_Metadata = dec_struct (upd_table fields_Metadata)"

definition wf_Metadata :: "Metadata \<Rightarrow> bool" where
  "wf_Metadata x \<longleftrightarrow>
     \<bar>md_Stars x\<bar> < 2 ^ 53 \<and>
     valid_utf8 (md_LastUpdated x) \<and>
     pred_option wf_KubernetesMetadata (md_Kubernetes x)"
interpretation Metadata_codec: json_codec enc_Metadata dec_Metadata zero_Metadata wf_Metadata
  unfolding dec_Metadata_def
proof (rule table_codec [OF enc_Metadata_def], goal_cases wf keys fine round)
  case wf
  show ?case by (simp add: wf_fields_def fields_Metadata_def indep_field json_dec)
next
  case keys
  show ?case by (simp only: member_keys) (simp add: fields_Metadata_def valid_utf8_ascii)
next
  case (fine x k j)
  then show ?case
    unfolding wf_Metadata_def
    by (simp only: set_append Un_iff omit_in list.set empty_iff prod.inject, elim disjE conjE)
       (simp_all add: fields_Metadata_def codec_simps json_dec KubernetesMetadata_codec.ptr_fine KubernetesMetadata_codec.ptr_through)
next
  case (round x)
  then show ?case
    unfolding norm_members_simps norm_basic(1,2) zero_Metadata_def wf_Metadata_def
    by - (((rule dec_member_bool | rule dec_member), (simp add: fields_Metadata_def codec_simps json_dec KubernetesMetadata_codec.ptr_fine KubernetesMetadata_codec.ptr_through)[1], (simp; fail)[1])+, simp)
qed

record VerifiedAttestation =
  va_PredicateType :: string
  va_Predicate :: json

definition zero_VerifiedAttestation :: VerifiedAttestation where
  "zero_VerifiedAttestation = \<lparr>va_PredicateType = [], va_Predicate = JNull\<rparr>"

definition enc_VerifiedAttestation :: "VerifiedAttestation \<Rightarrow> json" where
  "enc_VerifiedAttestation x = JObj
     (omit (va_PredicateType x = []) ''predicate_type'' (enc_string (va_PredicateType x)) @
      omit (va_Predicate x = JNull) ''predicate'' (enc_any (va_Predicate x)) @ [])"

definition fields_VerifiedAttestation :: "VerifiedAttestation fields" where
  "fields_VerifiedAttestation =
     [(''predicate_type'', field dec_string va_PredicateType (\<lambda>v x. x\<lparr>va_PredicateType := v\<rparr>)),
      (''predicate'', field dec_iface va_Predicate (\<lambda>v x. x\<lparr>va_Predicate := v\<rparr>))]"

definition dec_VerifiedAttestation :: "VerifiedAttestation decoder" where
  "dec_VerifiedAttestation = dec_struct (upd_table fields_VerifiedAttestation)"

definition wf_VerifiedAttestation :: "VerifiedAttestation \<Rightarrow> bool" where
  "wf_VerifiedAttestation x \<longleftrightarrow>
     valid_utf8 (va_PredicateType x) \<and>
     wf_any (va_Predicate x)"
interpretation VerifiedAttestation_codec: json_codec enc_VerifiedAttestation dec_VerifiedAttestation zero_VerifiedAttestation wf_VerifiedAttestation
  unfolding dec_VerifiedAttestation_def
proof (rule table_codec [OF enc_VerifiedAttestation_def], goal_cases wf keys fine round)
  case wf
  show ?case by (simp add: wf_fields_def fields_VerifiedAttestation_def indep_field json_dec)
next
  case keys
  show ?case by (simp only: member_keys) (simp add: fields_VerifiedAttestation_def valid_utf8_ascii)
next
  case (fine x k j)
  then show ?case
    unfolding wf_VerifiedAttestation_def
    by (simp only: set_append Un_iff omit_in list.set empty_iff prod.inject, elim disjE conjE)
       (simp_all add: fields_VerifiedAttestation_def codec_simps json_dec)
next
  case (round x)
  then show ?case
    unfolding norm_members_simps norm_basic(1,2) zero_VerifiedAttestation_def wf_VerifiedAttestation_def
    by - (((rule dec_member_bool | rule dec_member), (simp add: fields_VerifiedAttestation_def codec_simps json_dec)[1], (simp; fail)[1])+, simp)
qed

record Provenance =
  pv_SigstoreURL :: string
  pv_RepositoryURI :: string
  pv_RepositoryRef :: string
  pv_SignerIdentity :: string
  pv_RunnerEnvironment :: string
  pv_CertIssuer :: string
  pv_Attestation :: "VerifiedAttestation option"

definition zero_Provenance :: Provenance where
  "zero_Provenance = \<lparr>pv_SigstoreURL = [], pv_RepositoryURI = [], pv_RepositoryRef = [], pv_SignerIdentity = [], pv_RunnerEnvironment = [], pv_CertIssuer = [], pv_Attestation = None\<rparr>"

definition enc_Provenance :: "Provenance \<Rightarrow> json" where
  "enc_Provenance x = JObj
     (omit False ''sigstore_url'' (enc_string (pv_SigstoreURL x)) @
      omit False ''repository_uri'' (enc_string (pv_RepositoryURI x)) @
      omit (pv_RepositoryRef x = []) ''repository_ref'' (enc_string (pv_RepositoryRef x)) @
      omit False ''signer_identity'' (enc_string (pv_SignerIdentity x)) @
      omit False ''runner_environment'' (enc_string (pv_RunnerEnvironment x)) @
      omit False ''cert_issuer'' (enc_string (pv_CertIssuer x)) @
      omit (pv_Attestation x = None) ''attestation'' (enc_ptr enc_VerifiedAttestation (pv_Attestation x)) @ [])"

definition fields_Provenance :: "Provenance fields" where
  "fields_Provenance =
     [(''sigstore_url'', field dec_string pv_SigstoreURL (\<lambda>v x. x\<lparr>pv_SigstoreURL := v\<rparr>)),
      (''repository_uri'', field dec_string pv_RepositoryURI (\<lambda>v x. x\<lparr>pv_RepositoryURI := v\<rparr>)),
      (''repository_ref'', field dec_string pv_RepositoryRef (\<lambda>v x. x\<lparr>pv_RepositoryRef := v\<rparr>)),
      (''signer_identity'', field dec_string pv_SignerIdentity (\<lambda>v x. x\<lparr>pv_SignerIdentity := v\<rparr>)),
      (''runner_environment'', field dec_string pv_RunnerEnvironment (\<lambda>v x. x\<lparr>pv_RunnerEnvironment := v\<rparr>)),
      (''cert_issuer'', field dec_string pv_CertIssuer (\<lambda>v x. x\<lparr>pv_CertIssuer := v\<rparr>)),
      (''attestation'', field (dec_ptr zero_VerifiedAttestation dec_VerifiedAttestation) pv_Attestation (\<lambda>v x. x\<lparr>pv_Attestation := v\<rparr>))]"

definition dec_Provenance :: "Provenance decoder" where
  "dec_Provenance = dec_struct (upd_table fields_Provenance)"

definition wf_Provenance :: "Provenance \<Rightarrow> bool" where
  "wf_Provenance x \<longleftrightarrow>
     valid_utf8 (pv_SigstoreURL x) \<and>
     valid_utf8 (pv_RepositoryURI x) \<and>
     valid_utf8 (pv_RepositoryRef x) \<and>
     valid_utf8 (pv_SignerIdentity x) \<and>
     valid_utf8 (pv_RunnerEnvironment x) \<and>
     valid_utf8 (pv_CertIssuer x) \<and>
     pred_option wf_VerifiedAttestation (pv_Attestation x)"
interpretation Provenance_codec: json_codec enc_Provenance dec_Provenance zero_Provenance wf_Provenance
  unfolding dec_Provenance_def
proof (rule table_codec [OF enc_Provenance_def], goal_cases wf keys fine round)
  case wf
  show ?case by (simp add: wf_fields_def fields_Provenance_def indep_field json_dec)
next
  case keys
  show ?case by (simp only: member_keys) (simp add: fields_Provenance_def valid_utf8_ascii)
next
  case (fine x k j)
  then show ?case
    unfolding wf_Provenance_def
    by (simp only: set_append Un_iff omit_in list.set empty_iff prod.inject, elim disjE conjE)
       (simp_all add: fields_Provenance_def codec_simps json_dec VerifiedAttestation_codec.ptr_fine VerifiedAttestation_codec.ptr_through)
next
  case (round x)
  then show ?case
    unfolding norm_members_simps norm_basic(1,2) zero_Provenance_def wf_Provenance_def
    by - (((rule dec_member_bool | rule dec_member), (simp add: fields_Provenance_def codec_simps json_dec VerifiedAttestation_codec.ptr_fine VerifiedAttestation_codec.ptr_through)[1], (simp; fail)[1])+, simp)
qed

record EnvVar =
  ev_Name :: string
  ev_Description :: string
  ev_Required :: bool
  ev_Default :: string
  ev_Secret :: bool

definition zero_EnvVar :: EnvVar where
  "zero_EnvVar = \<lparr>ev_Name = [], ev_Description = [], ev_Required = False, ev_Default = [], ev_Secret = False\<rparr>"

definition enc_EnvVar :: "EnvVar \<Rightarrow> json" where
  "enc_EnvVar x = JObj
     (omit False ''name'' (enc_string (ev_Name x)) @
      omit False ''description'' (enc_string (ev_Description x)) @
      omit False ''required'' (JBool (ev_Required x)) @
      omit (ev_Default x = []) ''default'' (enc_string (ev_Default x)) @
      omit (\<not> ev_Secret x) ''secret'' (JBool (ev_Secret x)) @ [])"

definition fields_EnvVar :: "EnvVar fields" where
  "fields_EnvVar =
     [(''name'', field dec_string ev_Name (\<lambda>v x. x\<lparr>ev_Name := v\<rparr>)),
      (''description'', field dec_string ev_Description (\<lambda>v x. x\<lparr>ev_Description := v\<rparr>)),
      (''required'', field dec_bool ev_Required (\<lambda>v x. x\<lparr>ev_Required := v\<rparr>)),
      (''default'', field dec_string ev_Default (\<lambda>v x. x\<lparr>ev_Default := v\<rparr>)),
      (''secret'', field dec_bool ev_Secret (\<lambda>v x. x\<lparr>ev_Secret := v\<rparr>))]"

definition dec_EnvVar :: "EnvVar decoder" where
  "dec_EnvVar = dec_struct (upd_table fields_EnvVar)"

definition wf_EnvVar :: "EnvVar \<Rightarrow> bool" where
  "wf_EnvVar x \<longleftrightarrow>
     valid_utf8 (ev_Name x) \<and>
     valid_utf8 (ev_Description x) \<and>
     valid_utf8 (ev_Default x)"
interpretation EnvVar_codec: json_codec enc_EnvVar dec_EnvVar zero_EnvVar wf_EnvVar
  unfolding dec_EnvVar_def
proof (rule table_codec [OF enc_EnvVar_def], goal_cases wf keys fine round)
  case wf
  show ?case by (simp add: wf_fields_def fields_EnvVar_def indep_field json_dec)
next
  case keys
  show ?case by (simp only: member_keys) (simp add: fields_EnvVar_def valid_utf8_ascii)
next
  case (fine x k j)
  then show ?case
    unfolding wf_EnvVar_def
    by (simp only: set_append Un_iff omit_in list.set empty_iff prod.inject, elim disjE conjE)
       (simp_all add: fields_EnvVar_def codec_simps json_dec)
next
  case (round x)
  then show ?case
    unfolding norm_members_simps norm_basic(1,2) zero_EnvVar_def wf_EnvVar_def
    by - (((rule dec_member_bool | rule dec_member), (simp add: fields_EnvVar_def codec_simps json_dec)[1], (simp; fail)[1])+, simp)
qed

record OAuthConfig =
  oa_Issuer :: string
  oa_AuthorizeURL :: string
  oa_TokenURL :: string
  oa_ClientID :: string
  oa_Scopes :: "string list option"
  oa_UsePKCE :: bool
  oa_OAuthParams :: "(string \<times> string) list option"
  oa_CallbackPort :: int
  oa_Resource :: string

definition zero_OAuthConfig :: OAuthConfig where
  "zero_OAuthConfig = \<lparr>oa_Issuer = [], oa_AuthorizeURL = [], oa_TokenURL = [], oa_ClientID = [], oa_Scopes = None, oa_UsePKCE = False, oa_OAuthParams = None, oa_CallbackPort = 0, oa_Resource = []\<rparr>"

definition enc_OAuthConfig :: "OAuthConfig \<Rightarrow> json" where
  "enc_OAuthConfig x = JObj
     (omit (oa_Issuer x = []) ''issuer'' (enc_string (oa_Issuer x)) @
      omit (oa_AuthorizeURL x = []) ''authorize_url'' (enc_string (oa_AuthorizeURL x)) @
      omit (oa_TokenURL x = []) ''token_url'' (enc_string (oa_TokenURL x)) @
      omit (oa_ClientID x = []) ''client_id'' (enc_string (oa_ClientID x)) @
      omit (empty_slice (oa_Scopes x)) ''scopes'' (enc_slice enc_string (oa_Scopes x)) @
      omit (\<not> oa_UsePKCE x) ''use_pkce'' (JBool (oa_UsePKCE x)) @
      omit (empty_slice (oa_OAuthParams x)) ''oauth_params'' (enc_map enc_string (oa_OAuthParams x)) @
      omit (oa_CallbackPort x = 0) ''callback_port'' (JNum (oa_CallbackPort x)) @
      omit (oa_Resource x = []) ''resource'' (enc_string (oa_Resource x)) @ [])"

definition fields_OAuthConfig :: "OAuthConfig fields" where
  "fields_OAuthConfig =
     [(''issuer'', field dec_string oa_Issuer (\<lambda>v x. x\<lparr>oa_Issuer := v\<rparr>)),
      (''authorize_url'', field dec_string oa_AuthorizeURL (\<lambda>v x. x\<lparr>oa_AuthorizeURL := v\<rparr>)),
      (''token_url'', field dec_string oa_TokenURL (\<lambda>v x. x\<lparr>oa_TokenURL := v\<rparr>)),
      (''client_id'', field dec_string oa_ClientID (\<lambda>v x. x\<lparr>oa_ClientID := v\<rparr>)),
      (''scopes'', field (dec_slice [] dec_string) oa_Scopes (\<lambda>v x. x\<lparr>oa_Scopes := v\<rparr>)),
      (''use_pkce'', field dec_bool oa_UsePKCE (\<lambda>v x. x\<lparr>oa_UsePKCE := v\<rparr>)),
      (''oauth_params'', field (dec_map [] dec_string) oa_OAuthParams (\<lambda>v x. x\<lparr>oa_OAuthParams := v\<rparr>)),
      (''callback_port'', field dec_int oa_CallbackPort (\<lambda>v x. x\<lparr>oa_CallbackPort := v\<rparr>)),
      (''resource'', field dec_string oa_Resource (\<lambda>v x. x\<lparr>oa_Resource := v\<rparr>))]"

definition dec_OAuthConfig :: "OAuthConfig decoder" where
  "dec_OAuthConfig = dec_struct (upd_table fields_OAuthConfig)"

definition wf_OAuthConfig :: "OAuthConfig \<Rightarrow> bool" where
  "wf_OAuthConfig x \<longleftrightarrow>
     valid_utf8 (oa_Issuer x) \<and>
     valid_utf8 (oa_AuthorizeURL x) \<and>
     valid_utf8 (oa_TokenURL x) \<and>
     valid_utf8 (oa_ClientID x) \<and>
     oa_Scopes x \<noteq> Some [] \<and> pred_option (list_all valid_utf8) (oa_Scopes x) \<and>
     wf_string_map (oa_OAuthParams x) \<and>
     \<bar>oa_CallbackPort x\<bar> < 2 ^ 53 \<and>
     valid_utf8 (oa_Resource x)"
interpretation OAuthConfig_codec: json_codec enc_OAuthConfig dec_OAuthConfig zero_OAuthConfig wf_OAuthConfig
  unfolding dec_OAuthConfig_def
proof (rule table_codec [OF enc_OAuthConfig_def], goal_cases wf keys fine round)
  case wf
  show ?case by (simp add: wf_fields_def fields_OAuthConfig_def indep_field json_dec)
next
  case keys
  show ?case by (simp only: member_keys) (simp add: fields_OAuthConfig_def valid_utf8_ascii)
next
  case (fine x k j)
  then show ?case
    unfolding wf_OAuthConfig_def
    by (simp only: set_append Un_iff omit_in list.set empty_iff prod.inject, elim disjE conjE)
       (simp_all add: fields_OAuthConfig_def codec_simps json_dec)
next
  case (round x)
  then show ?case
    unfolding norm_members_simps norm_basic(1,2) zero_OAuthConfig_def wf_OAuthConfig_def
    by - (((rule dec_member_bool | rule dec_member), (simp add: fields_OAuthConfig_def codec_simps json_dec)[1], (simp; fail)[1])+, simp)
qed

section \<open>Permission profiles\<close>

definition zero_OutboundNetworkPermissions :: OutboundNetworkPermissions where
  "zero_OutboundNetworkPermissions = \<lparr>InsecureAllowAll = False, AllowHost = [], AllowPort = []\<rparr>"

definition enc_OutboundNetworkPermissions :: "OutboundNetworkPermissions \<Rightarrow> json" where
  "enc_OutboundNetworkPermissions x = JObj
     (omit (\<not> InsecureAllowAll x) ''insecure_allow_all'' (JBool (InsecureAllowAll x)) @
      omit (AllowHost x = []) ''allow_host'' (enc_slice enc_string (Some (AllowHost x))) @
      omit (AllowPort x = []) ''allow_port'' (enc_slice JNum (Some (AllowPort x))) @ [])"

definition fields_OutboundNetworkPermissions :: "OutboundNetworkPermissions fields" where
  "fields_OutboundNetworkPermissions =
     [(''insecure_allow_all'', field dec_bool InsecureAllowAll (\<lambda>v x. x\<lparr>InsecureAllowAll := v\<rparr>)),
      (''allow_host'', field (dec_list [] dec_string) AllowHost (\<lambda>v x. x\<lparr>AllowHost := v\<rparr>)),
      (''allow_port'', field (dec_list 0 dec_int) AllowPort (\<lambda>v x. x\<lparr>AllowPort := v\<rparr>))]"

definition dec_OutboundNetworkPermissions :: "OutboundNetworkPermissions decoder" where
  "dec_OutboundNetworkPermissions = dec_struct (upd_table fields_OutboundNetworkPermissions)"

definition wf_OutboundNetworkPermissions :: "OutboundNetworkPermissions \<Rightarrow> bool" where
  "wf_OutboundNetworkPermissions x \<longleftrightarrow>
     list_all valid_utf8 (AllowHost x) \<and>
     list_all (\<lambda>n. \<bar>n\<bar> < 2 ^ 53) (AllowPort x)"
interpretation OutboundNetworkPermissions_codec: json_codec enc_OutboundNetworkPermissions dec_OutboundNetworkPermissions zero_OutboundNetworkPermissions wf_OutboundNetworkPermissions
  unfolding dec_OutboundNetworkPermissions_def
proof (rule table_codec [OF enc_OutboundNetworkPermissions_def], goal_cases wf keys fine round)
  case wf
  show ?case by (simp add: wf_fields_def fields_OutboundNetworkPermissions_def indep_field json_dec)
next
  case keys
  show ?case by (simp only: member_keys) (simp add: fields_OutboundNetworkPermissions_def valid_utf8_ascii)
next
  case (fine x k j)
  then show ?case
    unfolding wf_OutboundNetworkPermissions_def
    by (simp only: set_append Un_iff omit_in list.set empty_iff prod.inject, elim disjE conjE)
       (simp_all add: fields_OutboundNetworkPermissions_def codec_simps json_dec)
next
  case (round x)
  then show ?case
    unfolding norm_members_simps norm_basic(1,2) zero_OutboundNetworkPermissions_def wf_OutboundNetworkPermissions_def
    by - (((rule dec_member_bool | rule dec_member), (simp add: fields_OutboundNetworkPermissions_def codec_simps json_dec)[1], (simp; fail)[1])+, simp)
qed

definition zero_InboundNetworkPermissions :: InboundNetworkPermissions where
  "zero_InboundNetworkPermissions = \<lparr>in_AllowHost = []\<rparr>"

definition enc_InboundNetworkPermissions :: "InboundNetworkPermissions \<Rightarrow> json" where
  "enc_InboundNetworkPermissions x = JObj
     (omit (in_AllowHost x = []) ''allow_host'' (enc_slice enc_string (Some (in_AllowHost x))) @ [])"

definition fields_InboundNetworkPermissions :: "InboundNetworkPermissions fields" where
  "fields_InboundNetworkPermissions =
     [(''allow_host'', field (dec_list [] dec_string) in_AllowHost (\<lambda>v x. x\<lparr>in_AllowHost := v\<rparr>))]"

definition dec_InboundNetworkPermissions :: "InboundNetworkPermissions decoder" where
  "dec_InboundNetworkPermissions = dec_struct (upd_table fields_InboundNetworkPermissions)"

definition wf_InboundNetworkPermissions :: "InboundNetworkPermissions \<Rightarrow> bool" where
  "wf_InboundNetworkPermissions x \<longleftrightarrow>
     list_all valid_utf8 (in_AllowHost x)"
interpretation InboundNetworkPermissions_codec: json_codec enc_InboundNetworkPermissions dec_InboundNetworkPermissions zero_InboundNetworkPermissions wf_InboundNetworkPermissions
  unfolding dec_InboundNetworkPermissions_def
proof (rule table_codec [OF enc_InboundNetworkPermissions_def], goal_cases wf keys fine round)
  case wf
  show ?case by (simp add: wf_fields_def fields_InboundNetworkPermissions_def indep_field json_dec)
next
  case keys
  show ?case by (simp only: member_keys) (simp add: fields_InboundNetworkPermissions_def valid_utf8_ascii)
next
  case (fine x k j)
  then show ?case
    unfolding wf_InboundNetworkPermissions_def
    by (simp only: set_append Un_iff omit_in list.set empty_iff prod.inject, elim disjE conjE)
       (simp_all add: fields_InboundNetworkPermissions_def codec_simps json_dec)
next
  case (round x)
  then show ?case
    unfolding norm_members_simps norm_basic(1,2) zero_InboundNetworkPermissions_def wf_InboundNetworkPermissions_def
    by - (((rule dec_member_bool | rule dec_member), (simp add: fields_InboundNetworkPermissions_def codec_simps json_dec)[1], (simp; fail)[1])+, simp)
qed

definition zero_NetworkPermissions :: NetworkPermissions where
  "zero_NetworkPermissions = \<lparr>net_Mode = [], Outbound = None, Inbound = None\<rparr>"

definition enc_NetworkPermissions :: "NetworkPermissions \<Rightarrow> json" where
  "enc_NetworkPermissions x = JObj
     (omit (net_Mode x = []) ''mode'' (enc_string (net_Mode x)) @
      omit (Outbound x = None) ''outbound'' (enc_ptr enc_OutboundNetworkPermissions (Outbound x)) @
      omit (Inbound x = None) ''inbound'' (enc_ptr enc_InboundNetworkPermissions (Inbound x)) @ [])"

definition fields_NetworkPermissions :: "NetworkPermissions fields" where
  "fields_NetworkPermissions =
     [(''mode'', field dec_string net_Mode (\<lambda>v x. x\<lparr>net_Mode := v\<rparr>)),
      (''outbound'', field (dec_ptr zero_OutboundNetworkPermissions dec_OutboundNetworkPermissions) Outbound (\<lambda>v x. x\<lparr>Outbound := v\<rparr>)),
      (''inbound'', field (dec_ptr zero_InboundNetworkPermissions dec_InboundNetworkPermissions) Inbound (\<lambda>v x. x\<lparr>Inbound := v\<rparr>))]"

definition dec_NetworkPermissions :: "NetworkPermissions decoder" where
  "dec_NetworkPermissions = dec_struct (upd_table fields_NetworkPermissions)"

definition wf_NetworkPermissions :: "NetworkPermissions \<Rightarrow> bool" where
  "wf_NetworkPermissions x \<longleftrightarrow>
     valid_utf8 (net_Mode x) \<and>
     pred_option wf_OutboundNetworkPermissions (Outbound x) \<and>
     pred_option wf_InboundNetworkPermissions (Inbound x)"
interpretation NetworkPermissions_codec: json_codec enc_NetworkPermissions dec_NetworkPermissions zero_NetworkPermissions wf_NetworkPermissions
  unfolding dec_NetworkPermissions_def
proof (rule table_codec [OF enc_NetworkPermissions_def], goal_cases wf keys fine round)
  case wf
  show ?case by (simp add: wf_fields_def fields_NetworkPermissions_def indep_field json_dec)
next
  case keys
  show ?case by (simp only: member_keys) (simp add: fields_NetworkPermissions_def valid_utf8_ascii)
next
  case (fine x k j)
  then show ?case
    unfolding wf_NetworkPermissions_def
    by (simp only: set_append Un_iff omit_in list.set empty_iff prod.inject, elim disjE conjE)
       (simp_all add: fields_NetworkPermissions_def codec_simps json_dec OutboundNetworkPermissions_codec.ptr_fine OutboundNetworkPermissions_codec.ptr_through InboundNetworkPermissions_codec.ptr_fine InboundNetworkPermissions_codec.ptr_through)
next
  case (round x)
  then show ?case
    unfolding norm_members_simps norm_basic(1,2) zero_NetworkPermissions_def wf_NetworkPermissions_def
    by - (((rule dec_member_bool | rule dec_member), (simp add: fields_NetworkPermissions_def codec_simps json_dec OutboundNetworkPermissions_codec.ptr_fine OutboundNetworkPermissions_codec.ptr_through InboundNetworkPermissions_codec.ptr_fine InboundNetworkPermissions_codec.ptr_through)[1], (simp; fail)[1])+, simp)
qed

definition zero_Profile :: Profile where
  "zero_Profile = \<lparr>pr_Name = [], pr_Read = [], pr_Write = [], pr_Network = None, Privileged = False\<rparr>"

definition enc_Profile :: "Profile \<Rightarrow> json" where
  "enc_Profile x = JObj
     (omit (pr_Name x = []) ''name'' (enc_string (pr_Name x)) @
      omit (pr_Read x = []) ''read'' (enc_slice enc_string (Some (pr_Read x))) @
      omit (pr_Write x = []) ''write'' (enc_slice enc_string (Some (pr_Write x))) @
      omit (pr_Network x = None) ''network'' (enc_ptr enc_NetworkPermissions (pr_Network x)) @
      omit (\<not> Privileged x) ''privileged'' (JBool (Privileged x)) @ [])"

definition fields_Profile :: "Profile fields" where
  "fields_Profile =
     [(''name'', field dec_string pr_Name (\<lambda>v x. x\<lparr>pr_Name := v\<rparr>)),
      (''read'', field (dec_list [] dec_string) pr_Read (\<lambda>v x. x\<lparr>pr_Read := v\<rparr>)),
      (''write'', field (dec_list [] dec_string) pr_Write (\<lambda>v x. x\<lparr>pr_Write := v\<rparr>)),
      (''network'', field (dec_ptr zero_NetworkPermissions dec_NetworkPermissions) pr_Network (\<lambda>v x. x\<lparr>pr_Network := v\<rparr>)),
      (''privileged'', field dec_bool Privileged (\<lambda>v x. x\<lparr>Privileged := v\<rparr>))]"

definition dec_Profile :: "Profile decoder" where
  "dec_Profile = dec_struct (upd_table fields_Profile)"

definition wf_Profile :: "Profile \<Rightarrow> bool" where
  "wf_Profile x \<longleftrightarrow>
     valid_utf8 (pr_Name x) \<and>
     list_all valid_utf8 (pr_Read x) \<and>
     list_all valid_utf8 (pr_Write x) \<and>
     pred_option wf_NetworkPermissions (pr_Network x)"
interpretation Profile_codec: json_codec enc_Profile dec_Profile zero_Profile wf_Profile
  unfolding dec_Profile_def
proof (rule table_codec [OF enc_Profile_def], goal_cases wf keys fine round)
  case wf
  show ?case by (simp add: wf_fields_def fields_Profile_def indep_field json_dec)
next
  case keys
  show ?case by (simp only: member_keys) (simp add: fields_Profile_def valid_utf8_ascii)
next
  case (fine x k j)
  then show ?case
    unfolding wf_Profile_def
    by (simp only: set_append Un_iff omit_in list.set empty_iff prod.inject, elim disjE conjE)
       (simp_all add: fields_Profile_def codec_simps json_dec NetworkPermissions_codec.ptr_fine NetworkPermissions_codec.ptr_through)
next
  case (round x)
  then show ?case
    unfolding norm_members_simps norm_basic(1,2) zero_Profile_def wf_Profile_def
    by - (((rule dec_member_bool | rule dec_member), (simp add: fields_Profile_def codec_simps json_dec NetworkPermissions_codec.ptr_fine NetworkPermissions_codec.ptr_through)[1], (simp; fail)[1])+, simp)
qed

section \<open>Tool definitions\<close>

text \<open>The document of a tool that can be encoded.\<close>

definition tool_doc :: "Tool \<Rightarrow> json" where
  "tool_doc t = (case Tool_MarshalJSON t of Inr j \<Rightarrow> j | Inl _ \<Rightarrow> JNull)"

text \<open>Keywords outside the modelled ones are kept as raw documents, whose numbers must survive float64.\<close>

definition wf_tool_definition :: "Tool \<Rightarrow> bool" where
  "wf_tool_definition t \<longleftrightarrow> wf_Tool t \<and> plain_doc (schema_MarshalJSON (t_InputSchema t)) \<and>
     (tas_Type (t_OutputSchema t) = [] \<or> plain_doc (schema_MarshalJSON (t_OutputSchema t)))"

definition fields_ToolAnnotation :: "ToolAnnotation fields" where
  "fields_ToolAnnotation =
     [(''title'', field dec_string ta_Title (\<lambda>v x. x\<lparr>ta_Title := v\<rparr>)),
      (''readOnlyHint'', field (dec_ptr False dec_bool) ta_ReadOnlyHint (\<lambda>v x. x\<lparr>ta_ReadOnlyHint := v\<rparr>)),
      (''destructiveHint'', field (dec_ptr False dec_bool) ta_DestructiveHint (\<lambda>v x. x\<lparr>ta_DestructiveHint := v\<rparr>)),
      (''idempotentHint'', field (dec_ptr False dec_bool) ta_IdempotentHint (\<lambda>v x. x\<lparr>ta_IdempotentHint := v\<rparr>)),
      (''openWorldHint'', field (dec_ptr False dec_bool) ta_OpenWorldHint (\<lambda>v x. x\<lparr>ta_OpenWorldHint := v\<rparr>))]"

lemma upd_ToolAnnotation_table: "upd_ToolAnnotation = upd_table fields_ToolAnnotation"
  by (simp add: fun_eq_iff upd_ToolAnnotation_def codec_simps fields_ToolAnnotation_def)

lemma norm_bool_ptr [simp]: "norm_json (enc_ptr JBool v) = enc_ptr JBool v"
  by (cases v) (simp_all add: enc_ptr_def)

lemma bool_ptr_fine [simp]: "snd (dec_ptr False dec_bool (enc_ptr JBool v) x) = Fine"
  by (cases v) (simp_all add: dec_ptr_def enc_ptr_def into_def)

interpretation ToolAnnotation_codec: json_codec enc_ToolAnnotation "dec_struct upd_ToolAnnotation" zero_ToolAnnotation wf_ToolAnnotation
  unfolding upd_ToolAnnotation_table
proof (rule table_codec [OF enc_ToolAnnotation_def], goal_cases wf keys fine round)
  case wf
  show ?case by (simp add: wf_fields_def fields_ToolAnnotation_def indep_field json_dec)
next
  case keys
  show ?case by (simp only: member_keys) (simp add: fields_ToolAnnotation_def valid_utf8_ascii)
next
  case (fine x k j)
  then show ?case by (auto simp: omit_in fields_ToolAnnotation_def wf_ToolAnnotation_def codec_simps json_dec)
next
  case (round x)
  then show ?case
    unfolding norm_members_simps norm_basic(1,2) zero_ToolAnnotation_def wf_ToolAnnotation_def
    by - ((rule dec_member, (simp add: fields_ToolAnnotation_def codec_simps json_dec)[1], (simp; fail)[1])+, simp)
qed

definition fields_Icon :: "Icon fields" where
  "fields_Icon =
     [(''src'', field dec_string ic_Src (\<lambda>v x. x\<lparr>ic_Src := v\<rparr>)),
      (''mimeType'', field dec_string ic_MIMEType (\<lambda>v x. x\<lparr>ic_MIMEType := v\<rparr>)),
      (''sizes'', field (dec_slice [] dec_string) ic_Sizes (\<lambda>v x. x\<lparr>ic_Sizes := v\<rparr>)),
      (''theme'', field dec_string ic_Theme (\<lambda>v x. x\<lparr>ic_Theme := v\<rparr>))]"

lemma upd_Icon_table: "upd_Icon = upd_table fields_Icon"
  by (simp add: fun_eq_iff upd_Icon_def codec_simps fields_Icon_def)

interpretation Icon_codec: json_codec enc_Icon "dec_struct upd_Icon" zero_Icon wf_Icon
  unfolding upd_Icon_table
proof (rule table_codec [OF enc_Icon_def], goal_cases wf keys fine round)
  case wf
  show ?case by (simp add: wf_fields_def fields_Icon_def indep_field json_dec)
next
  case keys
  show ?case by (simp only: member_keys) (simp add: fields_Icon_def valid_utf8_ascii)
next
  case (fine x k j)
  then show ?case by (auto simp: omit_in fields_Icon_def wf_Icon_def codec_simps json_dec)
next
  case (round x)
  then show ?case
    unfolding norm_members_simps norm_basic(1,2) zero_Icon_def wf_Icon_def
    by - ((rule dec_member, (simp add: fields_Icon_def codec_simps json_dec)[1], (simp; fail)[1])+, simp)
qed

definition fields_ToolExecution :: "ToolExecution fields" where
  "fields_ToolExecution = [(''taskSupport'', field dec_string te_TaskSupport (\<lambda>v x. x\<lparr>te_TaskSupport := v\<rparr>))]"

lemma upd_ToolExecution_table: "upd_ToolExecution = upd_table fields_ToolExecution"
  by (simp add: fun_eq_iff upd_ToolExecution_def codec_simps fields_ToolExecution_def)

interpretation ToolExecution_codec:
  json_codec enc_ToolExecution "dec_struct upd_ToolExecution" "\<lparr>te_TaskSupport = []\<rparr>" "\<lambda>e. valid_utf8 (te_TaskSupport e)"
  unfolding upd_ToolExecution_table
proof (rule table_codec [OF enc_ToolExecution_def], goal_cases wf keys fine round)
  case wf
  show ?case by (simp add: wf_fields_def fields_ToolExecution_def)
next
  case keys
  show ?case by (simp only: member_keys) (simp add: fields_ToolExecution_def valid_utf8_ascii)
next
  case (fine x k j)
  then show ?case by (auto simp: omit_in fields_ToolExecution_def codec_simps json_dec)
next
  case (round x)
  then show ?case
    unfolding norm_members_simps
    by - ((rule dec_member, (simp add: fields_ToolExecution_def codec_simps json_dec)[1], (simp; fail)[1])+, simp)
qed

text \<open>Metadata is written as a value of type \<open>any\<close>, which the detour keeps.\<close>

lemma Meta_norm: "wf_Meta m \<Longrightarrow> norm_json (Meta_MarshalJSON m) = Meta_MarshalJSON m"
  by (metis Meta_document norm_enc_any)

interpretation Meta_codec: json_codec Meta_MarshalJSON Meta_UnmarshalJSON zero_Meta wf_Meta
proof
  show "norm_json (Meta_MarshalJSON m) \<noteq> JNull" if "wf_Meta m" for m
    using that by (metis Meta_norm Meta_document enc_any_null json.distinct(11))
qed (simp_all add: Meta_norm Meta_round_trip)

definition fields_Tool :: "Tool fields" where
  "fields_Tool =
     [(''_meta'', field (dec_ptr zero_Meta Meta_UnmarshalJSON) t_Meta (\<lambda>v x. x\<lparr>t_Meta := v\<rparr>)),
      (''name'', field dec_string t_Name (\<lambda>v x. x\<lparr>t_Name := v\<rparr>)),
      (''title'', field dec_string t_Title (\<lambda>v x. x\<lparr>t_Title := v\<rparr>)),
      (''description'', field dec_string t_Description (\<lambda>v x. x\<lparr>t_Description := v\<rparr>)),
      (''inputSchema'', field schema_UnmarshalJSON t_InputSchema (\<lambda>v x. x\<lparr>t_InputSchema := v\<rparr>)),
      (''outputSchema'', field schema_UnmarshalJSON t_OutputSchema (\<lambda>v x. x\<lparr>t_OutputSchema := v\<rparr>)),
      (''annotations'', field (dec_struct upd_ToolAnnotation) t_Annotations (\<lambda>v x. x\<lparr>t_Annotations := v\<rparr>)),
      (''defer_loading'', field dec_bool t_DeferLoading (\<lambda>v x. x\<lparr>t_DeferLoading := v\<rparr>)),
      (''icons'', field (dec_slice zero_Icon (dec_struct upd_Icon)) t_Icons (\<lambda>v x. x\<lparr>t_Icons := v\<rparr>)),
      (''execution'', field (dec_ptr \<lparr>te_TaskSupport = []\<rparr> (dec_struct upd_ToolExecution)) t_Execution (\<lambda>v x. x\<lparr>t_Execution := v\<rparr>))]"

lemma upd_Tool_table: "upd_Tool = upd_table fields_Tool"
  by (simp add: fun_eq_iff upd_Tool_def codec_simps fields_Tool_def)

definition tool_object :: "Tool \<Rightarrow> json" where
  "tool_object t = JObj (tool_members t (schema_MarshalJSON (t_InputSchema t))
     (omit (tas_Type (t_OutputSchema t) = []) ''outputSchema'' (schema_MarshalJSON (t_OutputSchema t))))"

lemma output_schema_codec:
  assumes "wf_tool_definition t"
  shows "tas_Type (t_OutputSchema t) = [] \<Longrightarrow> t_OutputSchema t = zero_schema"
    "tas_Type (t_OutputSchema t) \<noteq> [] \<Longrightarrow> schema_UnmarshalJSON (norm_json (schema_MarshalJSON (t_OutputSchema t))) zero_schema = (t_OutputSchema t, Fine)"
    "tas_Type (t_OutputSchema t) \<noteq> [] \<Longrightarrow> snd (schema_UnmarshalJSON (norm_json (schema_MarshalJSON (t_OutputSchema t))) x) = Fine"
    "schema_UnmarshalJSON (norm_json (schema_MarshalJSON (t_InputSchema t))) zero_schema = (t_InputSchema t, Fine)"
    "snd (schema_UnmarshalJSON (norm_json (schema_MarshalJSON (t_InputSchema t))) x) = Fine"
  using assms
  by (auto simp: wf_tool_definition_def wf_Tool_def norm_json_plain schema_round_trip schema_fine)

lemmas tool_codec_facts =
  ToolAnnotation_codec.through ToolAnnotation_codec.fine Icon_codec.slice_through ToolExecution_codec.ptr_through
  ToolExecution_codec.ptr_fine Meta_codec.ptr_through Meta_codec.ptr_fine

interpretation Tool_object_codec: json_codec tool_object "dec_struct upd_Tool" zero_Tool wf_tool_definition
  unfolding upd_Tool_table
proof (rule table_codec [OF tool_object_def [unfolded tool_members_def append_assoc append_Nil]], goal_cases wf keys fine round)
  case wf
  show ?case by (simp add: wf_fields_def fields_Tool_def indep_field json_dec)
next
  case keys
  show ?case by (simp only: member_keys) (simp add: fields_Tool_def valid_utf8_ascii)
next
  case (fine x k j)
  note out = output_schema_codec [OF fine(1)]
  have wf: "valid_utf8 (t_Name x)" "valid_utf8 (t_Title x)" "valid_utf8 (t_Description x)" "pred_option wf_Meta (t_Meta x)"
    "wf_ToolAnnotation (t_Annotations x)" "pred_option (list_all wf_Icon) (t_Icons x)" "pred_option (\<lambda>e. valid_utf8 (te_TaskSupport e)) (t_Execution x)"
    using fine(1) by (simp_all add: wf_tool_definition_def wf_Tool_def)
  from fine(2) show ?case
    by (simp only: set_append Un_iff omit_in list.set empty_iff prod.inject, elim disjE conjE)
       (simp_all add: fields_Tool_def codec_simps json_dec tool_codec_facts out(3,5) wf del: upd_tool)
next
  case (round x)
  note out = output_schema_codec [OF round]
  have none: "tas_Type (t_OutputSchema x) = [] \<Longrightarrow> zero_schema = t_OutputSchema x" using out(1) by simp
  from round have wf: "wf_Tool x" by (simp add: wf_tool_definition_def)
  show ?case
    using wf [unfolded wf_Tool_def]
    unfolding norm_members_simps norm_basic(1,2) zero_Tool_def
    by - (((rule dec_member_bool | rule dec_member), (simp add: fields_Tool_def codec_simps json_dec tool_codec_facts out(2,4) del: upd_tool)[1],
          (simp add: none; fail)[1])+, (cases x, simp))
qed

lemma norm_tool_doc:
  assumes "wf_tool_definition t"
  shows "norm_json (tool_doc t) = norm_json (tool_object t)" "\<exists>j. Tool_MarshalJSON t = Inr j"
proof -
  let ?E = "tool_members t (schema_MarshalJSON (t_InputSchema t))
     (omit (tas_Type (t_OutputSchema t) = []) ''outputSchema'' (schema_MarshalJSON (t_OutputSchema t)))"
  have M: "Tool_MarshalJSON t = Inr (JObj (map_puts ?E []))"
    using assms by (simp add: Tool_MarshalJSON_def tool_input_def tool_output_def wf_tool_definition_def wf_Tool_def)
  have "distinct (map fst ?E)" unfolding tool_members_def by (simp only: member_keys append_assoc) simp
  then show "norm_json (tool_doc t) = norm_json (tool_object t)"
    by (simp only: tool_doc_def M sum.case norm_sorted tool_object_def)
qed (simp add: Tool_MarshalJSON_def tool_input_def tool_output_def assms [unfolded wf_tool_definition_def wf_Tool_def])

interpretation Tool_codec: json_codec tool_doc "dec_struct upd_Tool" zero_Tool wf_tool_definition
  by unfold_locales (simp_all add: norm_tool_doc Tool_object_codec.through Tool_object_codec.fine Tool_object_codec.not_null)

section \<open>Publisher-provided extensions\<close>

record ServerExtensions =
  se_Status :: string
  se_Tier :: string
  se_Tools :: "string list option"
  se_Tags :: "string list option"
  se_Overview :: string
  se_Metadata :: "Metadata option"
  se_CustomMetadata :: "(string \<times> json) list option"
  se_Permissions :: "Profile option"
  se_Args :: "string list option"
  se_Provenance :: "Provenance option"
  se_DockerTags :: "string list option"
  se_ProxyPort :: int
  se_Stateless :: bool
  se_OAuthConfig :: "OAuthConfig option"
  se_EnvVars :: "EnvVar option list option"
  se_ToolDefinitions :: "Tool list option"

definition zero_ServerExtensions :: ServerExtensions where
  "zero_ServerExtensions = \<lparr>se_Status = [], se_Tier = [], se_Tools = None, se_Tags = None, se_Overview = [], se_Metadata = None, se_CustomMetadata = None, se_Permissions = None, se_Args = None, se_Provenance = None, se_DockerTags = None, se_ProxyPort = 0, se_Stateless = False, se_OAuthConfig = None, se_EnvVars = None, se_ToolDefinitions = None\<rparr>"

definition enc_ServerExtensions :: "ServerExtensions \<Rightarrow> json" where
  "enc_ServerExtensions x = JObj
     (omit False ''status'' (enc_string (se_Status x)) @
      omit (se_Tier x = []) ''tier'' (enc_string (se_Tier x)) @
      omit (empty_slice (se_Tools x)) ''tools'' (enc_slice enc_string (se_Tools x)) @
      omit (empty_slice (se_Tags x)) ''tags'' (enc_slice enc_string (se_Tags x)) @
      omit (se_Overview x = []) ''overview'' (enc_string (se_Overview x)) @
      omit (se_Metadata x = None) ''metadata'' (enc_ptr enc_Metadata (se_Metadata x)) @
      omit (empty_slice (se_CustomMetadata x)) ''custom_metadata'' (enc_map enc_any (se_CustomMetadata x)) @
      omit (se_Permissions x = None) ''permissions'' (enc_ptr enc_Profile (se_Permissions x)) @
      omit (empty_slice (se_Args x)) ''args'' (enc_slice enc_string (se_Args x)) @
      omit (se_Provenance x = None) ''provenance'' (enc_ptr enc_Provenance (se_Provenance x)) @
      omit (empty_slice (se_DockerTags x)) ''docker_tags'' (enc_slice enc_string (se_DockerTags x)) @
      omit (se_ProxyPort x = 0) ''proxy_port'' (JNum (se_ProxyPort x)) @
      omit (\<not> se_Stateless x) ''stateless'' (JBool (se_Stateless x)) @
      omit (se_OAuthConfig x = None) ''oauth_config'' (enc_ptr enc_OAuthConfig (se_OAuthConfig x)) @
      omit (empty_slice (se_EnvVars x)) ''env_vars'' (enc_slice (enc_ptr enc_EnvVar) (se_EnvVars x)) @
      omit (empty_slice (se_ToolDefinitions x)) ''tool_definitions'' (enc_slice tool_doc (se_ToolDefinitions x)) @ [])"

definition fields_ServerExtensions :: "ServerExtensions fields" where
  "fields_ServerExtensions =
     [(''status'', field dec_string se_Status (\<lambda>v x. x\<lparr>se_Status := v\<rparr>)),
      (''tier'', field dec_string se_Tier (\<lambda>v x. x\<lparr>se_Tier := v\<rparr>)),
      (''tools'', field (dec_slice [] dec_string) se_Tools (\<lambda>v x. x\<lparr>se_Tools := v\<rparr>)),
      (''tags'', field (dec_slice [] dec_string) se_Tags (\<lambda>v x. x\<lparr>se_Tags := v\<rparr>)),
      (''overview'', field dec_string se_Overview (\<lambda>v x. x\<lparr>se_Overview := v\<rparr>)),
      (''metadata'', field (dec_ptr zero_Metadata dec_Metadata) se_Metadata (\<lambda>v x. x\<lparr>se_Metadata := v\<rparr>)),
      (''custom_metadata'', field (dec_map JNull dec_iface) se_CustomMetadata (\<lambda>v x. x\<lparr>se_CustomMetadata := v\<rparr>)),
      (''permissions'', field (dec_ptr zero_Profile dec_Profile) se_Permissions (\<lambda>v x. x\<lparr>se_Permissions := v\<rparr>)),
      (''args'', field (dec_slice [] dec_string) se_Args (\<lambda>v x. x\<lparr>se_Args := v\<rparr>)),
      (''provenance'', field (dec_ptr zero_Provenance dec_Provenance) se_Provenance (\<lambda>v x. x\<lparr>se_Provenance := v\<rparr>)),
      (''docker_tags'', field (dec_slice [] dec_string) se_DockerTags (\<lambda>v x. x\<lparr>se_DockerTags := v\<rparr>)),
      (''proxy_port'', field dec_int se_ProxyPort (\<lambda>v x. x\<lparr>se_ProxyPort := v\<rparr>)),
      (''stateless'', field dec_bool se_Stateless (\<lambda>v x. x\<lparr>se_Stateless := v\<rparr>)),
      (''oauth_config'', field (dec_ptr zero_OAuthConfig dec_OAuthConfig) se_OAuthConfig (\<lambda>v x. x\<lparr>se_OAuthConfig := v\<rparr>)),
      (''env_vars'', field (dec_slice None (dec_ptr zero_EnvVar dec_EnvVar)) se_EnvVars (\<lambda>v x. x\<lparr>se_EnvVars := v\<rparr>)),
      (''tool_definitions'', field (dec_slice zero_Tool (dec_struct upd_Tool)) se_ToolDefinitions (\<lambda>v x. x\<lparr>se_ToolDefinitions := v\<rparr>))]"

definition dec_ServerExtensions :: "ServerExtensions decoder" where
  "dec_ServerExtensions = dec_struct (upd_table fields_ServerExtensions)"

definition wf_ServerExtensions :: "ServerExtensions \<Rightarrow> bool" where
  "wf_ServerExtensions x \<longleftrightarrow>
     valid_utf8 (se_Status x) \<and>
     valid_utf8 (se_Tier x) \<and>
     se_Tools x \<noteq> Some [] \<and> pred_option (list_all valid_utf8) (se_Tools x) \<and>
     se_Tags x \<noteq> Some [] \<and> pred_option (list_all valid_utf8) (se_Tags x) \<and>
     valid_utf8 (se_Overview x) \<and>
     pred_option wf_Metadata (se_Metadata x) \<and>
     se_CustomMetadata x \<noteq> Some [] \<and> pred_option wf_map (se_CustomMetadata x) \<and>
     pred_option wf_Profile (se_Permissions x) \<and>
     se_Args x \<noteq> Some [] \<and> pred_option (list_all valid_utf8) (se_Args x) \<and>
     pred_option wf_Provenance (se_Provenance x) \<and>
     se_DockerTags x \<noteq> Some [] \<and> pred_option (list_all valid_utf8) (se_DockerTags x) \<and>
     \<bar>se_ProxyPort x\<bar> < 2 ^ 53 \<and>
     pred_option wf_OAuthConfig (se_OAuthConfig x) \<and>
     se_EnvVars x \<noteq> Some [] \<and> pred_option (list_all (pred_option wf_EnvVar)) (se_EnvVars x) \<and>
     se_ToolDefinitions x \<noteq> Some [] \<and> pred_option (list_all wf_tool_definition) (se_ToolDefinitions x)"
interpretation ServerExtensions_codec: json_codec enc_ServerExtensions dec_ServerExtensions zero_ServerExtensions wf_ServerExtensions
  unfolding dec_ServerExtensions_def
proof (rule table_codec [OF enc_ServerExtensions_def], goal_cases wf keys fine round)
  case wf
  show ?case by (simp add: wf_fields_def fields_ServerExtensions_def indep_field json_dec)
next
  case keys
  show ?case by (simp only: member_keys) (simp add: fields_ServerExtensions_def valid_utf8_ascii)
next
  case (fine x k j)
  then show ?case
    unfolding wf_ServerExtensions_def
    by (simp only: set_append Un_iff omit_in list.set empty_iff prod.inject, elim disjE conjE)
       (simp_all add: fields_ServerExtensions_def codec_simps json_dec Metadata_codec.ptr_fine Metadata_codec.ptr_through Profile_codec.ptr_fine Profile_codec.ptr_through Provenance_codec.ptr_fine Provenance_codec.ptr_through OAuthConfig_codec.ptr_fine OAuthConfig_codec.ptr_through EnvVar_codec.ptrs_through Tool_codec.slice_through)
next
  case (round x)
  then show ?case
    unfolding norm_members_simps norm_basic(1,2) zero_ServerExtensions_def wf_ServerExtensions_def
    by - (((rule dec_member_bool | rule dec_member), (simp add: fields_ServerExtensions_def codec_simps json_dec Metadata_codec.ptr_fine Metadata_codec.ptr_through Profile_codec.ptr_fine Profile_codec.ptr_through Provenance_codec.ptr_fine Provenance_codec.ptr_through OAuthConfig_codec.ptr_fine OAuthConfig_codec.ptr_through EnvVar_codec.ptrs_through Tool_codec.slice_through)[1], (simp; fail)[1])+, simp)
qed

text \<open>\<open>json.Marshal\<close> of the extensions fails with the first tool that cannot be encoded.\<close>

definition ServerExtensions_Marshal :: "ServerExtensions \<Rightarrow> (tool_err, json) result" where
  "ServerExtensions_Marshal ext =
     bindE (traverse Tool_MarshalJSON (case se_ToolDefinitions ext of None \<Rightarrow> [] | Some ts \<Rightarrow> ts))
       (\<lambda>_. Inr (enc_ServerExtensions ext))"

lemma traverse_ok: "list_all (\<lambda>x. \<exists>y. f x = Inr y) xs \<Longrightarrow> \<exists>ys. traverse f xs = Inr ys"
  by (induction xs) auto

lemma ServerExtensions_Marshal_wf: "wf_ServerExtensions ext \<Longrightarrow> ServerExtensions_Marshal ext = Inr (enc_ServerExtensions ext)"
proof -
  assume "wf_ServerExtensions ext"
  then have "pred_option (list_all wf_tool_definition) (se_ToolDefinitions ext)" by (simp add: wf_ServerExtensions_def)
  then have "list_all (\<lambda>t. \<exists>j. Tool_MarshalJSON t = Inr j) (case se_ToolDefinitions ext of None \<Rightarrow> [] | Some ts \<Rightarrow> ts)"
    by (cases "se_ToolDefinitions ext") (auto simp: list_all_iff norm_tool_doc(2))
  from traverse_ok [OF this] show ?thesis by (auto simp: ServerExtensions_Marshal_def)
qed

section \<open>Server metadata (registry_types.go)\<close>

record BaseServerMetadata =
  bs_Name :: string
  bs_Title :: string
  bs_Description :: string
  bs_Tier :: string
  bs_Status :: string
  bs_Transport :: string
  bs_Stateless :: bool
  bs_Tools :: "string list option"
  bs_Metadata :: "Metadata option"
  bs_RepositoryURL :: string
  bs_Tags :: "string list option"
  bs_Overview :: string
  bs_ToolDefinitions :: "Tool list option"
  bs_CustomMetadata :: "(string \<times> json) list option"

record Header =
  hd_Name :: string
  hd_Description :: string
  hd_Required :: bool
  hd_Default :: string
  hd_Secret :: bool
  hd_Choices :: "string list option"

record ImageMetadata =
  ig_Base :: BaseServerMetadata
  ig_Image :: string
  ig_TargetPort :: int
  ig_ProxyPort :: int
  ig_Permissions :: "Profile option"
  ig_EnvVars :: "EnvVar option list option"
  ig_Args :: "string list option"
  ig_DockerTags :: "string list option"
  ig_Provenance :: "Provenance option"

record RemoteServerMetadata =
  rm_Base :: BaseServerMetadata
  rm_URL :: string
  rm_ProxyPort :: int
  rm_Headers :: "Header option list option"
  rm_OAuthConfig :: "OAuthConfig option"
  rm_EnvVars :: "EnvVar option list option"

text \<open>The accessors on a possibly nil receiver.\<close>

definition GetName :: "BaseServerMetadata option \<Rightarrow> string" where
  "GetName b = (case b of None \<Rightarrow> [] | Some b \<Rightarrow> bs_Name b)"

definition GetTitle :: "BaseServerMetadata option \<Rightarrow> string" where
  "GetTitle b = (case b of None \<Rightarrow> [] | Some b \<Rightarrow> bs_Title b)"

definition GetDescription :: "BaseServerMetadata option \<Rightarrow> string" where
  "GetDescription b = (case b of None \<Rightarrow> [] | Some b \<Rightarrow> bs_Description b)"

definition GetTier :: "BaseServerMetadata option \<Rightarrow> string" where
  "GetTier b = (case b of None \<Rightarrow> [] | Some b \<Rightarrow> bs_Tier b)"

definition GetStatus :: "BaseServerMetadata option \<Rightarrow> string" where
  "GetStatus b = (case b of None \<Rightarrow> [] | Some b \<Rightarrow> bs_Status b)"

definition base_GetTransport :: "BaseServerMetadata option \<Rightarrow> string" where
  "base_GetTransport b = (case b of None \<Rightarrow> [] | Some b \<Rightarrow> bs_Transport b)"

definition GetStateless :: "BaseServerMetadata option \<Rightarrow> bool" where
  "GetStateless b = (case b of None \<Rightarrow> False | Some b \<Rightarrow> bs_Stateless b)"

definition GetTools :: "BaseServerMetadata option \<Rightarrow> string list option" where
  "GetTools b = (case b of None \<Rightarrow> None | Some b \<Rightarrow> bs_Tools b)"

definition GetMetadata :: "BaseServerMetadata option \<Rightarrow> Metadata option" where
  "GetMetadata b = (case b of None \<Rightarrow> None | Some b \<Rightarrow> bs_Metadata b)"

definition GetRepositoryURL :: "BaseServerMetadata option \<Rightarrow> string" where
  "GetRepositoryURL b = (case b of None \<Rightarrow> [] | Some b \<Rightarrow> bs_RepositoryURL b)"

definition GetTags :: "BaseServerMetadata option \<Rightarrow> string list option" where
  "GetTags b = (case b of None \<Rightarrow> None | Some b \<Rightarrow> bs_Tags b)"

definition GetOverview :: "BaseServerMetadata option \<Rightarrow> string" where
  "GetOverview b = (case b of None \<Rightarrow> [] | Some b \<Rightarrow> bs_Overview b)"

definition GetToolDefinitions :: "BaseServerMetadata option \<Rightarrow> Tool list option" where
  "GetToolDefinitions b = (case b of None \<Rightarrow> None | Some b \<Rightarrow> bs_ToolDefinitions b)"

definition GetCustomMetadata :: "BaseServerMetadata option \<Rightarrow> (string \<times> json) list option" where
  "GetCustomMetadata b = (case b of None \<Rightarrow> None | Some b \<Rightarrow> bs_CustomMetadata b)"

definition image_GetEnvVars :: "ImageMetadata option \<Rightarrow> EnvVar option list option" where
  "image_GetEnvVars i = (case i of None \<Rightarrow> None | Some i \<Rightarrow> ig_EnvVars i)"

definition remote_GetEnvVars :: "RemoteServerMetadata option \<Rightarrow> EnvVar option list option" where
  "remote_GetEnvVars r = (case r of None \<Rightarrow> None | Some r \<Rightarrow> rm_EnvVars r)"

text \<open>The two implementations of the interface \<open>ServerMetadata\<close>, each a pointer, nil where it is \<open>None\<close>. A method of the embedded \<open>BaseServerMetadata\<close> called
  through a nil pointer panics.\<close>

datatype ServerMetadata = ImageServer "ImageMetadata option" | RemoteServer "RemoteServerMetadata option"

fun server_base :: "ServerMetadata \<Rightarrow> BaseServerMetadata option" where
  "server_base (ImageServer i) = map_option ig_Base i"
| "server_base (RemoteServer r) = map_option rm_Base r"

fun IsRemote :: "ServerMetadata \<Rightarrow> bool" where
  "IsRemote (ImageServer i) \<longleftrightarrow> False"
| "IsRemote (RemoteServer r) \<longleftrightarrow> True"

record Group =
  gr_Name :: string
  gr_Description :: string
  gr_Servers :: "(string \<times> ImageMetadata option) list"
  gr_RemoteServers :: "(string \<times> RemoteServerMetadata option) list"

record Registry =
  rg_Version :: string
  rg_LastUpdated :: string
  rg_Servers :: "(string \<times> ImageMetadata option) list"
  rg_RemoteServers :: "(string \<times> RemoteServerMetadata option) list"
  rg_Groups :: "Group option list option"

text \<open>The maps list their entries in the order the range loop visits them.\<close>

definition GetAllServers :: "Registry \<Rightarrow> ServerMetadata list" where
  "GetAllServers reg = map (ImageServer \<circ> snd) (rg_Servers reg) @ map (RemoteServer \<circ> snd) (rg_RemoteServers reg)"

definition GetServerByName :: "Registry \<Rightarrow> string \<Rightarrow> ServerMetadata option" where
  "GetServerByName reg name =
     (case map_of (rg_Servers reg) name of
        Some server \<Rightarrow> Some (ImageServer server)
      | None \<Rightarrow> map_option RemoteServer (map_of (rg_RemoteServers reg) name))"

definition GetAllGroups :: "Registry option \<Rightarrow> Group option list option" where
  "GetAllGroups reg = (case reg of None \<Rightarrow> None | Some reg \<Rightarrow> rg_Groups reg)"

definition GetGroupByName :: "Registry option \<Rightarrow> string \<Rightarrow> Group option" where
  "GetGroupByName reg name =
     (case reg of
        None \<Rightarrow> None
      | Some reg \<Rightarrow>
          (case find (\<lambda>g. case g of None \<Rightarrow> False | Some g \<Rightarrow> gr_Name g = name) (case rg_Groups reg of None \<Rightarrow> [] | Some gs \<Rightarrow> gs) of
             Some g \<Rightarrow> g
           | None \<Rightarrow> None))"

definition GetAllGroupServers :: "Group option \<Rightarrow> ServerMetadata list option" where
  "GetAllGroupServers g =
     (case g of
        None \<Rightarrow> None
      | Some g \<Rightarrow> Some (map (ImageServer \<circ> snd) (gr_Servers g) @ map (RemoteServer \<circ> snd) (gr_RemoteServers g)))"

text \<open>\<open>sortFunc\<close> is \<open>slices.SortFunc\<close>, which leaves the order of equal elements open; a comparison that panics (\<open>None\<close>) ends the sort.\<close>

definition compare_by_name :: "ServerMetadata \<Rightarrow> ServerMetadata \<Rightarrow> int option" where
  "compare_by_name a b =
     (case (server_base a, server_base b) of
        (Some x, Some y) \<Rightarrow> Some (if GetName (Some x) < GetName (Some y) then -1 else if GetName (Some x) > GetName (Some y) then 1 else 0)
      | _ \<Rightarrow> None)"

definition SortServersByName ::
  "((ServerMetadata \<Rightarrow> ServerMetadata \<Rightarrow> int option) \<Rightarrow> ServerMetadata list \<Rightarrow> ServerMetadata list option)
     \<Rightarrow> ServerMetadata list \<Rightarrow> ServerMetadata list option" where
  "SortServersByName sortFunc servers = sortFunc compare_by_name servers"

text \<open>What \<open>slices.SortFunc\<close> requires of its comparison, on servers that are not nil.\<close>

lemma compare_by_name_order:
  assumes "server_base a \<noteq> None" "server_base b \<noteq> None" "server_base c \<noteq> None"
  shows "\<exists>i j k. compare_by_name a b = Some i \<and> compare_by_name b a = Some (- i) \<and> compare_by_name b c = Some j
    \<and> compare_by_name a c = Some k \<and> (i \<le> 0 \<and> j \<le> 0 \<longrightarrow> k \<le> 0)"
  using assms by (auto simp: compare_by_name_def split: if_splits)

text \<open>A name that both maps have is answered by the container server; the lookup agrees with the list of all servers.\<close>

lemma GetServerByName_lookup:
  "GetServerByName reg name = Some s \<Longrightarrow> s \<in> set (GetAllServers reg)"
  "GetServerByName reg name = None \<longleftrightarrow> name \<notin> fst ` set (rg_Servers reg) \<and> name \<notin> fst ` set (rg_RemoteServers reg)"
  "GetServerByName reg name = Some s \<Longrightarrow> IsRemote s \<Longrightarrow> name \<notin> fst ` set (rg_Servers reg)"
proof -
  show "GetServerByName reg name = Some s \<Longrightarrow> s \<in> set (GetAllServers reg)"
    by (auto simp: GetServerByName_def GetAllServers_def split: option.splits dest!: map_of_SomeD) force+
  show "GetServerByName reg name = None \<longleftrightarrow> name \<notin> fst ` set (rg_Servers reg) \<and> name \<notin> fst ` set (rg_RemoteServers reg)"
    using map_of_eq_None_iff [of "rg_Servers reg" name] map_of_eq_None_iff [of "rg_RemoteServers reg" name]
    by (auto simp: GetServerByName_def split: option.splits)
  show "GetServerByName reg name = Some s \<Longrightarrow> IsRemote s \<Longrightarrow> name \<notin> fst ` set (rg_Servers reg)"
    using map_of_eq_None_iff [of "rg_Servers reg" name] by (auto simp: GetServerByName_def split: option.splits)
qed

end
