(* ===== verification/Registry_Convert.thy ===== *)
theory Registry_Convert
  imports Registry_Types
begin

text \<open>
  The registry converters (\<open>registry/converters\<close>): from the metadata of this repository to the upstream server format and back.
  What the upstream format has no place for travels as an \<open>any\<close> value in its publisher extensions.

  Parameters: the constants of the upstream module (\<open>upstream_consts\<close>: registry type, argument type, transport types, schema URL) and
  \<open>url_port\<close>, which is \<open>url.Parse\<close> followed by \<open>URL.Port\<close>. The entries of a Go map are listed in the order a range loop visits them. An
  element of a slice of pointers that the code dereferences without a check panics when it is nil, which is the error \<open>NilDereference\<close>.
\<close>

section \<open>The upstream format\<close>

record upstream_consts =
  uc_SchemaURL :: string
  uc_RegistryTypeOCI :: string
  uc_ArgumentTypeNamed :: string
  uc_TransportTypeStdio :: string
  uc_TransportTypeStreamableHTTP :: string
  uc_TransportTypeSSE :: string

record model_Input =
  in_Description :: string
  in_IsRequired :: bool
  in_IsSecret :: bool
  in_Default :: string
  in_Choices :: "string list option"

record KeyValueInput =
  kv_Name :: string
  kv_Input :: model_Input

record Argument =
  ar_Type :: string
  ar_Name :: string
  ar_Value :: string
  ar_Description :: string
  ar_IsRequired :: bool
  ar_Variables :: "(string \<times> model_Input) list"

record Transport =
  tr_Type :: string
  tr_URL :: string
  tr_Headers :: "KeyValueInput list"

record Package =
  pk_RegistryType :: string
  pk_Identifier :: string
  pk_EnvironmentVariables :: "KeyValueInput list"
  pk_RuntimeArguments :: "Argument list"
  pk_PackageArguments :: "Argument list"
  pk_Transport :: Transport

record ServerJSON =
  sj_Schema :: string
  sj_Name :: string
  sj_Title :: string
  sj_Description :: string
  sj_Version :: string
  sj_Repository :: "(string \<times> string) option"
  sj_Packages :: "Package list"
  sj_Remotes :: "Transport list"
  sj_PublisherProvided :: "(string \<times> json) list option option"

datatype conv_err =
    NilArgument | EmptyName | NilDereference
  | NoPackages string | NoOCIPackages string "string list" | ManyOCIPackages string nat
  | BadTransportURL string string | BadPort string string | NoRemotes string
  | ConvertServer string conv_err | ConvertRemote string conv_err | NilRegistry

section \<open>Names (utils.go)\<close>

definition ExtractServerName :: "string \<Rightarrow> string" where
  "ExtractServerName reverseDNSName =
     (let parts = split_on CHR ''/'' reverseDNSName in if length parts = 2 then parts ! 1 else reverseDNSName)"

definition BuildReverseDNSName :: "string \<Rightarrow> string" where
  "BuildReverseDNSName simpleName =
     (if str_contains simpleName ''/'' then simpleName else ''io.github.stacklok/'' @ simpleName)"

lemma server_name_round_trip: "CHR ''/'' \<notin> set name \<Longrightarrow> ExtractServerName (BuildReverseDNSName name) = name"
  using split_on_append [of "CHR ''/''" "''io.github.stacklok''" name]
  by (simp add: ExtractServerName_def BuildReverseDNSName_def split_on_no_sep del: split_on.simps)

section \<open>To the upstream format (toolhive\_to\_upstream.go)\<close>

text \<open>The map from decoding the encoded extensions; only the status if a tool cannot be encoded.\<close>

definition serverExtensionsToMap :: "ServerExtensions \<Rightarrow> (string \<times> json) list option" where
  "serverExtensionsToMap ext =
     (case ServerExtensions_Marshal ext of
        Inl _ \<Rightarrow> Some [(''status'', JStr (se_Status ext))]
      | Inr data \<Rightarrow>
          (case dec_map JNull dec_iface data None of
             (result, Fine) \<Rightarrow> result
           | _ \<Rightarrow> Some [(''status'', JStr (se_Status ext))]))"

definition ToolHivePublisherNamespace :: string where
  "ToolHivePublisherNamespace = ''io.github.stacklok''"

definition any_map :: "(string \<times> json) list option \<Rightarrow> json" where
  "any_map m = JObj (case m of None \<Rightarrow> [] | Some m \<Rightarrow> m)"

definition with_status :: "ServerExtensions \<Rightarrow> ServerExtensions" where
  "with_status ext = (if se_Status ext = [] then ext\<lparr>se_Status := ''active''\<rparr> else ext)"

definition buildPublisherExtensionsMap :: "ServerExtensions \<Rightarrow> string \<Rightarrow> (string \<times> json) list" where
  "buildPublisherExtensionsMap ext innerKey =
     [(ToolHivePublisherNamespace, JObj [(innerKey, any_map (serverExtensionsToMap (with_status ext)))])]"

definition image_extensions :: "ImageMetadata \<Rightarrow> ServerExtensions" where
  "image_extensions m =
     (let b = ig_Base m
      in zero_ServerExtensions\<lparr>se_Status := bs_Status b, se_Tier := bs_Tier b, se_Tools := bs_Tools b, se_Tags := bs_Tags b,
           se_Overview := bs_Overview b, se_ToolDefinitions := bs_ToolDefinitions b, se_Metadata := bs_Metadata b,
           se_CustomMetadata := bs_CustomMetadata b, se_Permissions := ig_Permissions m, se_Args := ig_Args m,
           se_Provenance := ig_Provenance m, se_DockerTags := ig_DockerTags m, se_ProxyPort := ig_ProxyPort m,
           se_Stateless := bs_Stateless b\<rparr>)"

definition createImageExtensions :: "ImageMetadata \<Rightarrow> (string \<times> json) list" where
  "createImageExtensions m = buildPublisherExtensionsMap (image_extensions m) (ig_Image m)"

definition remote_extensions :: "RemoteServerMetadata \<Rightarrow> ServerExtensions" where
  "remote_extensions m =
     (let b = rm_Base m
      in zero_ServerExtensions\<lparr>se_Status := bs_Status b, se_Tier := bs_Tier b, se_Tools := bs_Tools b, se_Tags := bs_Tags b,
           se_Overview := bs_Overview b, se_ToolDefinitions := bs_ToolDefinitions b, se_Metadata := bs_Metadata b,
           se_CustomMetadata := bs_CustomMetadata b, se_OAuthConfig := rm_OAuthConfig m, se_EnvVars := rm_EnvVars m,
           se_ProxyPort := rm_ProxyPort m, se_Stateless := bs_Stateless b\<rparr>)"

definition createRemoteExtensions :: "RemoteServerMetadata \<Rightarrow> (string \<times> json) list" where
  "createRemoteExtensions m = buildPublisherExtensionsMap (remote_extensions m) (rm_URL m)"

definition env_to_input :: "EnvVar option \<Rightarrow> (conv_err, KeyValueInput) result" where
  "env_to_input e =
     (case e of
        None \<Rightarrow> Inl NilDereference
      | Some e \<Rightarrow> Inr \<lparr>kv_Name = ev_Name e, kv_Input = \<lparr>in_Description = ev_Description e, in_IsRequired = ev_Required e,
                          in_IsSecret = ev_Secret e, in_Default = ev_Default e, in_Choices = None\<rparr>\<rparr>)"

definition header_to_input :: "Header option \<Rightarrow> (conv_err, KeyValueInput) result" where
  "header_to_input h =
     (case h of
        None \<Rightarrow> Inl NilDereference
      | Some h \<Rightarrow> Inr \<lparr>kv_Name = hd_Name h, kv_Input = \<lparr>in_Description = hd_Description h, in_IsRequired = hd_Required h,
                          in_IsSecret = hd_Secret h, in_Default = hd_Default h, in_Choices = hd_Choices h\<rparr>\<rparr>)"

definition elems :: "'a list option \<Rightarrow> 'a list" where
  "elems xs = (case xs of None \<Rightarrow> [] | Some xs \<Rightarrow> xs)"

definition image_transport :: "upstream_consts \<Rightarrow> ImageMetadata \<Rightarrow> Transport" where
  "image_transport C m =
     (let transportType = (if bs_Transport (ig_Base m) = [] then uc_TransportTypeStdio C else bs_Transport (ig_Base m))
      in \<lparr>tr_Type = transportType,
          tr_URL = (if transportType = uc_TransportTypeStreamableHTTP C \<or> transportType = uc_TransportTypeSSE C
                    then if ig_TargetPort m > 0 then ''http://localhost:'' @ show_nat (nat (ig_TargetPort m)) else ''http://localhost''
                    else []),
          tr_Headers = []\<rparr>)"

definition createPackagesFromImageMetadata :: "upstream_consts \<Rightarrow> ImageMetadata \<Rightarrow> (conv_err, Package list) result" where
  "createPackagesFromImageMetadata C m =
     bindE (traverse env_to_input (elems (ig_EnvVars m))) (\<lambda>envVars.
       Inr [\<lparr>pk_RegistryType = uc_RegistryTypeOCI C, pk_Identifier = ig_Image m, pk_EnvironmentVariables = envVars,
             pk_RuntimeArguments = [], pk_PackageArguments = [], pk_Transport = image_transport C m\<rparr>])"

definition createRemotesFromRemoteMetadata :: "RemoteServerMetadata \<Rightarrow> (conv_err, Transport list) result" where
  "createRemotesFromRemoteMetadata m =
     bindE (traverse header_to_input (elems (rm_Headers m))) (\<lambda>headers.
       Inr [\<lparr>tr_Type = bs_Transport (rm_Base m), tr_URL = rm_URL m, tr_Headers = headers\<rparr>])"

definition canonical_name :: "string \<Rightarrow> BaseServerMetadata \<Rightarrow> string" where
  "canonical_name name b = (if bs_Name b = [] then BuildReverseDNSName name else bs_Name b)"

definition base_ServerJSON :: "upstream_consts \<Rightarrow> string \<Rightarrow> BaseServerMetadata \<Rightarrow> ServerJSON" where
  "base_ServerJSON C name b =
     \<lparr>sj_Schema = uc_SchemaURL C, sj_Name = canonical_name name b, sj_Title = bs_Title b, sj_Description = bs_Description b,
      sj_Version = ''1.0.0'',
      sj_Repository = (if bs_RepositoryURL b \<noteq> [] then Some (bs_RepositoryURL b, ''github'') else None),
      sj_Packages = [], sj_Remotes = [], sj_PublisherProvided = None\<rparr>"

definition ImageMetadataToServerJSON ::
  "upstream_consts \<Rightarrow> string \<Rightarrow> ImageMetadata option \<Rightarrow> (conv_err, ServerJSON) result" where
  "ImageMetadataToServerJSON C name imageMetadata =
     (case imageMetadata of
        None \<Rightarrow> Inl NilArgument
      | Some m \<Rightarrow>
          if name = [] then Inl EmptyName
          else bindE (createPackagesFromImageMetadata C m) (\<lambda>packages.
            Inr ((base_ServerJSON C name (ig_Base m))
                   \<lparr>sj_Packages := packages, sj_PublisherProvided := Some (Some (createImageExtensions m))\<rparr>)))"

definition RemoteServerMetadataToServerJSON ::
  "upstream_consts \<Rightarrow> string \<Rightarrow> RemoteServerMetadata option \<Rightarrow> (conv_err, ServerJSON) result" where
  "RemoteServerMetadataToServerJSON C name remoteMetadata =
     (case remoteMetadata of
        None \<Rightarrow> Inl NilArgument
      | Some m \<Rightarrow>
          if name = [] then Inl EmptyName
          else bindE (createRemotesFromRemoteMetadata m) (\<lambda>remotes.
            Inr ((base_ServerJSON C name (rm_Base m))
                   \<lparr>sj_Remotes := remotes, sj_PublisherProvided := Some (Some (createRemoteExtensions m))\<rparr>)))"

section \<open>From the upstream format (upstream\_to\_toolhive.go)\<close>

definition extractSingleOCIPackage :: "upstream_consts \<Rightarrow> ServerJSON \<Rightarrow> (conv_err, Package) result" where
  "extractSingleOCIPackage C sj =
     (if sj_Packages sj = [] then Inl (NoPackages (sj_Name sj))
      else let oci = filter (\<lambda>p. pk_RegistryType p = uc_RegistryTypeOCI C) (sj_Packages sj)
           in if oci = [] then Inl (NoOCIPackages (sj_Name sj) (map pk_RegistryType (sj_Packages sj)))
              else if length oci > 1 then Inl (ManyOCIPackages (sj_Name sj) (length oci))
              else Inr (oci ! 0))"

definition convertEnvironmentVariables :: "KeyValueInput list \<Rightarrow> EnvVar list" where
  "convertEnvironmentVariables envVars =
     map (\<lambda>e. \<lparr>ev_Name = kv_Name e, ev_Description = in_Description (kv_Input e), ev_Required = in_IsRequired (kv_Input e),
               ev_Default = in_Default (kv_Input e), ev_Secret = in_IsSecret (kv_Input e)\<rparr>) envVars"

definition parseEnvVarFromValue :: "string \<Rightarrow> string \<Rightarrow> (string \<times> model_Input) list \<Rightarrow> EnvVar option" where
  "parseEnvVarFromValue value description variables =
     (if value = [] then None
      else case index_byte CHR ''='' value of
        None \<Rightarrow> None
      | Some eqIdx \<Rightarrow>
          let name = take eqIdx value; valuePart = drop (eqIdx + 1) value;
              envVar = \<lparr>ev_Name = name, ev_Description = description, ev_Required = False, ev_Default = [], ev_Secret = False\<rparr>
          in if length valuePart > 2 \<and> hd valuePart = CHR ''{'' \<and> last valuePart = CHR ''}''
             then (case map_of variables (butlast (tl valuePart)) of
                     None \<Rightarrow> Some envVar
                   | Some varDef \<Rightarrow>
                       Some (envVar\<lparr>ev_Required := in_IsRequired varDef, ev_Secret := in_IsSecret varDef, ev_Default := in_Default varDef\<rparr>))
             else Some (envVar\<lparr>ev_Default := valuePart\<rparr>))"

definition env_of_argument :: "upstream_consts \<Rightarrow> Argument \<Rightarrow> EnvVar option" where
  "env_of_argument C a =
     (if ar_Type a \<noteq> uc_ArgumentTypeNamed C then None
      else if ar_Name a \<noteq> ''-e'' \<and> ar_Name a \<noteq> ''--env'' then None
      else map_option (\<lambda>e. e\<lparr>ev_Required := ar_IsRequired a\<rparr>)
             (parseEnvVarFromValue (ar_Value a) (ar_Description a) (ar_Variables a)))"

definition extractEnvFromRuntimeArgs :: "upstream_consts \<Rightarrow> Argument list \<Rightarrow> EnvVar list" where
  "extractEnvFromRuntimeArgs C args = concat (map (\<lambda>a. case env_of_argument C a of None \<Rightarrow> [] | Some e \<Rightarrow> [e]) args)"

definition extractEnvironmentVariables :: "upstream_consts \<Rightarrow> Package \<Rightarrow> EnvVar option list option" where
  "extractEnvironmentVariables C pkg =
     (let envVars = convertEnvironmentVariables (pk_EnvironmentVariables pkg) @ extractEnvFromRuntimeArgs C (pk_RuntimeArguments pkg)
      in if envVars = [] then None else Some (map Some envVars))"

definition extractTargetPort :: "(string \<Rightarrow> string option) \<Rightarrow> string \<Rightarrow> string \<Rightarrow> (conv_err, int) result" where
  "extractTargetPort url_port transportURL serverName =
     (if transportURL = [] then Inr 0
      else case url_port transportURL of
        None \<Rightarrow> Inl (BadTransportURL serverName transportURL)
      | Some p \<Rightarrow>
          if p = [] then Inr 0
          else case atoi p of
            None \<Rightarrow> Inl (BadPort serverName transportURL)
          | Some port \<Rightarrow> Inr port)"

definition flattenPackageArguments :: "Argument list \<Rightarrow> string list" where
  "flattenPackageArguments args =
     concat (map (\<lambda>a. (if ar_Name a \<noteq> [] then [ar_Name a] else []) @ (if ar_Value a \<noteq> [] then [ar_Value a] else [])) args)"

text \<open>The first value of the map that is itself a map.\<close>

definition getStacklokExtensionsMap :: "ServerJSON \<Rightarrow> (string \<times> json) list option" where
  "getStacklokExtensionsMap sj =
     (case sj_PublisherProvided sj of
        Some (Some provided) \<Rightarrow>
          (case map_of provided ToolHivePublisherNamespace of
             Some (JObj stacklokData) \<Rightarrow>
               (case find (\<lambda>(_, v). case v of JObj _ \<Rightarrow> True | _ \<Rightarrow> False) stacklokData of
                  Some (_, JObj extensions) \<Rightarrow> Some extensions
                | _ \<Rightarrow> None)
           | _ \<Rightarrow> None)
      | _ \<Rightarrow> None)"

text \<open>\<open>remarshalToType\<close> for a pointer type: the error of the decoder is ignored, what it stored before stays.\<close>

definition remarshalToType :: "'a \<Rightarrow> 'a decoder \<Rightarrow> json \<Rightarrow> 'a option" where
  "remarshalToType zero dec data = fst (dec_ptr zero dec (enc_any data) None)"

definition getStacklokServerExtensions :: "ServerJSON \<Rightarrow> ServerExtensions option" where
  "getStacklokServerExtensions sj =
     (case getStacklokExtensionsMap sj of
        None \<Rightarrow> None
      | Some extensions \<Rightarrow> remarshalToType zero_ServerExtensions dec_ServerExtensions (JObj extensions))"

definition applyBaseExtensions :: "ServerExtensions \<Rightarrow> BaseServerMetadata \<Rightarrow> BaseServerMetadata" where
  "applyBaseExtensions ext base =
     base\<lparr>bs_Status := se_Status ext, bs_Tier := se_Tier ext, bs_Tools := se_Tools ext, bs_Tags := se_Tags ext,
          bs_Overview := se_Overview ext, bs_ToolDefinitions := se_ToolDefinitions ext, bs_Metadata := se_Metadata ext,
          bs_CustomMetadata := se_CustomMetadata ext, bs_Stateless := se_Stateless ext\<rparr>"

definition extractImageExtensions :: "ServerJSON \<Rightarrow> ImageMetadata \<Rightarrow> ImageMetadata" where
  "extractImageExtensions sj m =
     (case getStacklokServerExtensions sj of
        None \<Rightarrow> m
      | Some ext \<Rightarrow>
          let m = m\<lparr>ig_Base := applyBaseExtensions ext (ig_Base m), ig_Permissions := se_Permissions ext, ig_Provenance := se_Provenance ext,
                    ig_DockerTags := se_DockerTags ext, ig_ProxyPort := se_ProxyPort ext\<rparr>
          in if empty_slice (ig_Args m) then m\<lparr>ig_Args := se_Args ext\<rparr> else m)"

definition extractRemoteExtensions :: "ServerJSON \<Rightarrow> RemoteServerMetadata \<Rightarrow> RemoteServerMetadata" where
  "extractRemoteExtensions sj m =
     (case getStacklokServerExtensions sj of
        None \<Rightarrow> m
      | Some ext \<Rightarrow> m\<lparr>rm_Base := applyBaseExtensions ext (rm_Base m), rm_OAuthConfig := se_OAuthConfig ext,
                       rm_EnvVars := se_EnvVars ext, rm_ProxyPort := se_ProxyPort ext\<rparr>)"

definition base_metadata :: "ServerJSON \<Rightarrow> string \<Rightarrow> BaseServerMetadata" where
  "base_metadata sj transport =
     \<lparr>bs_Name = sj_Name sj, bs_Title = sj_Title sj, bs_Description = sj_Description sj, bs_Tier = [], bs_Status = [],
      bs_Transport = transport, bs_Stateless = False, bs_Tools = None, bs_Metadata = None,
      bs_RepositoryURL = (case sj_Repository sj of None \<Rightarrow> [] | Some (url, _) \<Rightarrow> url),
      bs_Tags = None, bs_Overview = [], bs_ToolDefinitions = None, bs_CustomMetadata = None\<rparr>"

definition ServerJSONToImageMetadata ::
  "upstream_consts \<Rightarrow> (string \<Rightarrow> string option) \<Rightarrow> ServerJSON option \<Rightarrow> (conv_err, ImageMetadata) result" where
  "ServerJSONToImageMetadata C url_port serverJSON =
     (case serverJSON of
        None \<Rightarrow> Inl NilArgument
      | Some sj \<Rightarrow>
          bindE (extractSingleOCIPackage C sj) (\<lambda>pkg.
            bindE (extractTargetPort url_port (tr_URL (pk_Transport pkg)) (sj_Name sj)) (\<lambda>port.
              Inr (extractImageExtensions sj
                \<lparr>ig_Base = base_metadata sj (tr_Type (pk_Transport pkg)), ig_Image = pk_Identifier pkg, ig_TargetPort = port,
                 ig_ProxyPort = 0, ig_Permissions = None, ig_EnvVars = extractEnvironmentVariables C pkg,
                 ig_Args = (if pk_PackageArguments pkg \<noteq> [] then
                              (let r = flattenPackageArguments (pk_PackageArguments pkg) in if r = [] then None else Some r)
                            else None),
                 ig_DockerTags = None, ig_Provenance = None\<rparr>))))"

definition convert_header :: "KeyValueInput \<Rightarrow> Header" where
  "convert_header h =
     \<lparr>hd_Name = kv_Name h, hd_Description = in_Description (kv_Input h), hd_Required = in_IsRequired (kv_Input h),
      hd_Default = in_Default (kv_Input h), hd_Secret = in_IsSecret (kv_Input h), hd_Choices = in_Choices (kv_Input h)\<rparr>"

definition ServerJSONToRemoteServerMetadata :: "ServerJSON option \<Rightarrow> (conv_err, RemoteServerMetadata) result" where
  "ServerJSONToRemoteServerMetadata serverJSON =
     (case serverJSON of
        None \<Rightarrow> Inl NilArgument
      | Some sj \<Rightarrow>
          (case sj_Remotes sj of
             [] \<Rightarrow> Inl (NoRemotes (sj_Name sj))
           | remote # _ \<Rightarrow>
               Inr (extractRemoteExtensions sj
                 \<lparr>rm_Base = base_metadata sj (tr_Type remote), rm_URL = tr_URL remote, rm_ProxyPort = 0,
                  rm_Headers = (if tr_Headers remote = [] then None else Some (map (Some \<circ> convert_header) (tr_Headers remote))),
                  rm_OAuthConfig = None, rm_EnvVars = None\<rparr>)))"

section \<open>Registries (registry\_converters.go)\<close>

record UpstreamRegistry =
  ur_Schema :: string
  ur_Version :: string
  ur_LastUpdated :: string
  ur_Servers :: "ServerJSON list"

definition UpstreamRegistrySchemaURL :: string where
  "UpstreamRegistrySchemaURL =
     ''https://raw.githubusercontent.com/stacklok/toolhive-core/main/'' @ ''registry/types/data/upstream-registry.schema.json''"

definition NewUpstreamRegistryFromToolhiveRegistry ::
  "upstream_consts \<Rightarrow> Registry option \<Rightarrow> (conv_err, UpstreamRegistry) result" where
  "NewUpstreamRegistryFromToolhiveRegistry C toolhiveReg =
     (case toolhiveReg of
        None \<Rightarrow> Inl NilRegistry
      | Some reg \<Rightarrow>
          bindE (traverse (\<lambda>(name, m). map_err (ConvertServer name) (ImageMetadataToServerJSON C name m)) (rg_Servers reg)) (\<lambda>images.
            bindE (traverse (\<lambda>(name, m). map_err (ConvertRemote name) (RemoteServerMetadataToServerJSON C name m)) (rg_RemoteServers reg)) (\<lambda>remotes.
              Inr \<lparr>ur_Schema = UpstreamRegistrySchemaURL, ur_Version = rg_Version reg, ur_LastUpdated = rg_LastUpdated reg,
                   ur_Servers = images @ remotes\<rparr>)))"

section \<open>Round trips\<close>

lemma wf_with_status [simp]: "wf_ServerExtensions ext \<Longrightarrow> wf_ServerExtensions (with_status ext)"
  by (simp add: with_status_def wf_ServerExtensions_def valid_utf8_ascii)

lemma extensions_map:
  "wf_ServerExtensions ext \<Longrightarrow> any_map (serverExtensionsToMap ext) = dec_any (enc_ServerExtensions ext)"
  by (simp add: serverExtensionsToMap_def ServerExtensions_Marshal_wf any_map_def enc_ServerExtensions_def dec_map_any)

lemma remarshal_extensions:
  "wf_ServerExtensions ext \<Longrightarrow> remarshalToType zero_ServerExtensions dec_ServerExtensions (dec_any (enc_ServerExtensions ext)) = Some ext"
  using ServerExtensions_codec.ptr_through [of "Some ext"]
  by (simp add: remarshalToType_def norm_json_def enc_ptr_def)

text \<open>The extensions written under any key are the extensions read.\<close>

lemma extensions_through:
  assumes "wf_ServerExtensions ext" "sj_PublisherProvided sj = Some (Some (buildPublisherExtensionsMap ext key))"
  shows "getStacklokServerExtensions sj = Some (with_status ext)"
proof -
  let ?ext = "with_status ext"
  obtain m where m: "dec_any (enc_ServerExtensions ?ext) = JObj m" by (simp add: enc_ServerExtensions_def)
  have "getStacklokExtensionsMap sj = Some m"
    using extensions_map [OF wf_with_status [OF assms(1)]] assms(2)
    by (simp add: getStacklokExtensionsMap_def buildPublisherExtensionsMap_def m)
  then show ?thesis
    using remarshal_extensions [OF wf_with_status [OF assms(1)]] by (simp add: getStacklokServerExtensions_def m)
qed

lemma env_through:
  "list_all (\<lambda>e. e \<noteq> None) es \<Longrightarrow> \<exists>ks. traverse env_to_input es = Inr ks \<and> map Some (convertEnvironmentVariables ks) = es"
  by (induction es) (auto simp: env_to_input_def convertEnvironmentVariables_def)

lemma header_through:
  "list_all (\<lambda>h. h \<noteq> None) hs \<Longrightarrow> \<exists>ks. traverse header_to_input hs = Inr ks \<and> map (Some \<circ> convert_header) ks = hs"
  by (induction hs) (auto simp: header_to_input_def convert_header_def)

text \<open>What the upstream format keeps of the metadata of a container server.\<close>

definition base_canonical :: "string \<Rightarrow> BaseServerMetadata \<Rightarrow> BaseServerMetadata" where
  "base_canonical name b = b\<lparr>bs_Name := canonical_name name b, bs_Status := (if bs_Status b = [] then ''active'' else bs_Status b)\<rparr>"

definition image_canonical :: "upstream_consts \<Rightarrow> string \<Rightarrow> ImageMetadata \<Rightarrow> ImageMetadata" where
  "image_canonical C name m =
     (let t = (if bs_Transport (ig_Base m) = [] then uc_TransportTypeStdio C else bs_Transport (ig_Base m))
      in m\<lparr>ig_Base := (base_canonical name (ig_Base m))\<lparr>bs_Transport := t\<rparr>,
           ig_TargetPort := (if t \<in> {uc_TransportTypeStreamableHTTP C, uc_TransportTypeSSE C} then max 0 (ig_TargetPort m) else 0)\<rparr>)"

definition wf_image_metadata :: "ImageMetadata \<Rightarrow> bool" where
  "wf_image_metadata m \<longleftrightarrow> wf_ServerExtensions (image_extensions m) \<and> ig_TargetPort m \<le> max_int64 \<and>
     ig_EnvVars m \<noteq> Some [] \<and> list_all (\<lambda>e. e \<noteq> None) (elems (ig_EnvVars m))"

definition wf_remote_metadata :: "RemoteServerMetadata \<Rightarrow> bool" where
  "wf_remote_metadata m \<longleftrightarrow> wf_ServerExtensions (remote_extensions m) \<and>
     rm_Headers m \<noteq> Some [] \<and> list_all (\<lambda>h. h \<noteq> None) (elems (rm_Headers m))"

lemma image_port:
  assumes "url_port ''http://localhost'' = Some []" "\<And>n. url_port (''http://localhost:'' @ show_nat n) = Some (show_nat n)"
    and "ig_TargetPort m \<le> max_int64"
  shows "extractTargetPort url_port (tr_URL (image_transport C m)) name = Inr (ig_TargetPort (image_canonical C n m))"
proof -
  have "atoi (show_nat (nat (ig_TargetPort m))) = Some (ig_TargetPort m)" if "ig_TargetPort m > 0"
    using atoi_show_nat [of "nat (ig_TargetPort m)"] assms(3) that by simp
  then show ?thesis
    using assms(1) assms(2) [of "nat (ig_TargetPort m)"]
    by (auto simp: image_transport_def image_canonical_def extractTargetPort_def Let_def)
qed

text \<open>The shared fields after the round trip, for either kind of server.\<close>

definition same_base :: "ServerExtensions \<Rightarrow> BaseServerMetadata \<Rightarrow> bool" where
  "same_base ext b \<longleftrightarrow> se_Status ext = bs_Status b \<and> se_Tier ext = bs_Tier b \<and> se_Tools ext = bs_Tools b \<and> se_Tags ext = bs_Tags b \<and>
     se_Overview ext = bs_Overview b \<and> se_ToolDefinitions ext = bs_ToolDefinitions b \<and> se_Metadata ext = bs_Metadata b \<and>
     se_CustomMetadata ext = bs_CustomMetadata b \<and> se_Stateless ext = bs_Stateless b"

lemma base_through:
  assumes "same_base ext b" "sj_Name sj = canonical_name name b" "sj_Title sj = bs_Title b" "sj_Description sj = bs_Description b"
    and "sj_Repository sj = (if bs_RepositoryURL b \<noteq> [] then Some (bs_RepositoryURL b, src) else None)"
  shows "applyBaseExtensions (with_status ext) (base_metadata sj t) = (base_canonical name b)\<lparr>bs_Transport := t\<rparr>"
  using assms by (cases b) (auto simp: applyBaseExtensions_def with_status_def base_metadata_def base_canonical_def same_base_def)

text \<open>
  Container servers: metadata written in the upstream format and read back is the metadata with its canonical name, the status and
  the transport made explicit, and a target port only where the transport is HTTP. Permissions, provenance, tools with their
  schemas, custom metadata and all the rest come back unchanged.
\<close>

lemma image_through:
  assumes "name \<noteq> []" "wf_image_metadata m"
    and "url_port ''http://localhost'' = Some []" "\<And>n. url_port (''http://localhost:'' @ show_nat n) = Some (show_nat n)"
  shows "bindE (ImageMetadataToServerJSON C name (Some m)) (\<lambda>sj. ServerJSONToImageMetadata C url_port (Some sj)) =
           Inr (image_canonical C name m)"
proof -
  obtain ks where ks: "traverse env_to_input (elems (ig_EnvVars m)) = Inr ks"
      "map Some (convertEnvironmentVariables ks) = elems (ig_EnvVars m)"
    using env_through assms(2) wf_image_metadata_def by meson
  let ?pkg = "\<lparr>pk_RegistryType = uc_RegistryTypeOCI C, pk_Identifier = ig_Image m, pk_EnvironmentVariables = ks,
     pk_RuntimeArguments = [], pk_PackageArguments = [], pk_Transport = image_transport C m\<rparr>"
  let ?sj = "(base_ServerJSON C name (ig_Base m))\<lparr>sj_Packages := [?pkg], sj_PublisherProvided := Some (Some (createImageExtensions m))\<rparr>"
  have out: "ImageMetadataToServerJSON C name (Some m) = Inr ?sj"
    using assms(1) by (simp add: ImageMetadataToServerJSON_def createPackagesFromImageMetadata_def ks)
  have envs: "extractEnvironmentVariables C ?pkg = ig_EnvVars m"
    using ks(2) assms(2)
    by (cases "ig_EnvVars m") (auto simp: extractEnvironmentVariables_def extractEnvFromRuntimeArgs_def elems_def wf_image_metadata_def)
  have ext: "getStacklokServerExtensions ?sj = Some (with_status (image_extensions m))"
    using assms(2) by (intro extensions_through [where key = "ig_Image m"]) (simp_all add: wf_image_metadata_def createImageExtensions_def)
  have "extractTargetPort url_port (tr_URL (image_transport C m)) n = Inr (ig_TargetPort (image_canonical C name m))" for n
    using assms by (intro image_port) (simp_all add: wf_image_metadata_def)
  then have "ServerJSONToImageMetadata C url_port (Some ?sj) = Inr (extractImageExtensions ?sj
      \<lparr>ig_Base = base_metadata ?sj (tr_Type (image_transport C m)), ig_Image = ig_Image m,
       ig_TargetPort = ig_TargetPort (image_canonical C name m), ig_ProxyPort = 0, ig_Permissions = None, ig_EnvVars = ig_EnvVars m,
       ig_Args = None, ig_DockerTags = None, ig_Provenance = None\<rparr>)"
    by (simp add: ServerJSONToImageMetadata_def extractSingleOCIPackage_def envs)
  moreover have "applyBaseExtensions (with_status (image_extensions m)) (base_metadata ?sj t) = (base_canonical name (ig_Base m))\<lparr>bs_Transport := t\<rparr>" for t
    by (rule base_through) (simp_all add: same_base_def image_extensions_def base_ServerJSON_def Let_def)
  ultimately have "ServerJSONToImageMetadata C url_port (Some ?sj) = Inr (image_canonical C name m)"
    unfolding extractImageExtensions_def ext
    by (simp add: image_canonical_def image_transport_def with_status_def image_extensions_def zero_ServerExtensions_def Let_def)
  then show ?thesis by (simp add: out)
qed

text \<open>
  Remote servers: metadata written in the upstream format and read back is the metadata with its canonical name and the status made
  explicit, headers, OAuth configuration and environment variables included.
\<close>

lemma remote_through:
  assumes "name \<noteq> []" "wf_remote_metadata m"
  shows "bindE (RemoteServerMetadataToServerJSON C name (Some m)) (\<lambda>sj. ServerJSONToRemoteServerMetadata (Some sj)) =
           Inr (m\<lparr>rm_Base := base_canonical name (rm_Base m)\<rparr>)"
proof -
  obtain ks where ks: "traverse header_to_input (elems (rm_Headers m)) = Inr ks" "map (Some \<circ> convert_header) ks = elems (rm_Headers m)"
    using header_through assms(2) wf_remote_metadata_def by meson
  let ?r = "\<lparr>tr_Type = bs_Transport (rm_Base m), tr_URL = rm_URL m, tr_Headers = ks\<rparr>"
  let ?sj = "(base_ServerJSON C name (rm_Base m))\<lparr>sj_Remotes := [?r], sj_PublisherProvided := Some (Some (createRemoteExtensions m))\<rparr>"
  have out: "RemoteServerMetadataToServerJSON C name (Some m) = Inr ?sj"
    using assms(1) by (simp add: RemoteServerMetadataToServerJSON_def createRemotesFromRemoteMetadata_def ks)
  have headers: "(if ks = [] then None else Some (map (Some \<circ> convert_header) ks)) = rm_Headers m"
    using ks(2) assms(2) by (cases "rm_Headers m") (auto simp: elems_def wf_remote_metadata_def)
  have ext: "getStacklokServerExtensions ?sj = Some (with_status (remote_extensions m))"
    using assms(2) by (intro extensions_through [where key = "rm_URL m"]) (simp_all add: wf_remote_metadata_def createRemoteExtensions_def)
  have "applyBaseExtensions (with_status (remote_extensions m)) (base_metadata ?sj t) = (base_canonical name (rm_Base m))\<lparr>bs_Transport := t\<rparr>" for t
    by (rule base_through) (simp_all add: same_base_def remote_extensions_def base_ServerJSON_def Let_def)
  moreover have "ServerJSONToRemoteServerMetadata (Some ?sj) = Inr (extractRemoteExtensions ?sj
      \<lparr>rm_Base = base_metadata ?sj (bs_Transport (rm_Base m)), rm_URL = rm_URL m, rm_ProxyPort = 0, rm_Headers = rm_Headers m,
       rm_OAuthConfig = None, rm_EnvVars = None\<rparr>)"
    by (simp add: ServerJSONToRemoteServerMetadata_def headers split del: if_split cong del: if_weak_cong)
  ultimately show ?thesis
    unfolding extractRemoteExtensions_def ext
    by (simp add: out with_status_def remote_extensions_def base_canonical_def zero_ServerExtensions_def Let_def)
qed

lemma traverse_list_all2:
  assumes "list_all (\<lambda>x. \<exists>y. f x = Inr y \<and> P x y) xs"
  shows "\<exists>ys. traverse f xs = Inr ys \<and> list_all2 P xs ys"
  using assms by (induction xs) auto

lemma bindE_Inr_ex: "bindE r g = Inr z \<Longrightarrow> \<exists>y. r = Inr y \<and> g y = Inr z"
  by (simp add: bindE_eq_Inr)

text \<open>A nil entry of either map is an error, never an empty upstream server.\<close>

lemma traverse_all: "traverse f xs = Inr ys \<Longrightarrow> x \<in> set xs \<Longrightarrow> \<exists>y. f x = Inr y"
  by (induction xs arbitrary: ys) (auto simp: bindE_eq_Inr)

lemma nil_server_rejected:
  assumes "NewUpstreamRegistryFromToolhiveRegistry C (Some reg) = Inr u"
  shows "(name, None) \<notin> set (rg_Servers reg)" "(name, None) \<notin> set (rg_RemoteServers reg)"
proof -
  obtain images remotes where
    "traverse (\<lambda>(name, m). map_err (ConvertServer name) (ImageMetadataToServerJSON C name m)) (rg_Servers reg) = Inr images"
    "traverse (\<lambda>(name, m). map_err (ConvertRemote name) (RemoteServerMetadataToServerJSON C name m)) (rg_RemoteServers reg) = Inr remotes"
    using assms by (auto simp: NewUpstreamRegistryFromToolhiveRegistry_def bindE_eq_Inr)
  from this [THEN traverse_all, of "(name, None)"]
  show "(name, None) \<notin> set (rg_Servers reg)" "(name, None) \<notin> set (rg_RemoteServers reg)"
    by (auto simp: ImageMetadataToServerJSON_def RemoteServerMetadataToServerJSON_def map_err_def)
qed

text \<open>
  C36. Registries: a registry whose servers have names and well-formed metadata, none of them a nil pointer, is converted as a whole, container servers first, no
  server left out or added, and every upstream server reads back as the metadata it was made from: the canonical name, the status and
  the transport made explicit, a target port only where the transport is HTTP, and everything else (permissions, provenance, tools
  with their schemas, custom metadata, headers, OAuth configuration) unchanged.
\<close>

theorem registry_round_trip:
  assumes "list_all (\<lambda>(name, m). name \<noteq> [] \<and> (case m of None \<Rightarrow> False | Some m \<Rightarrow> wf_image_metadata m)) (rg_Servers reg)"
    and "list_all (\<lambda>(name, m). name \<noteq> [] \<and> (case m of None \<Rightarrow> False | Some m \<Rightarrow> wf_remote_metadata m)) (rg_RemoteServers reg)"
    and "url_port ''http://localhost'' = Some []" "\<And>n. url_port (''http://localhost:'' @ show_nat n) = Some (show_nat n)"
  shows "\<exists>images remotes. NewUpstreamRegistryFromToolhiveRegistry C (Some reg) =
      Inr \<lparr>ur_Schema = UpstreamRegistrySchemaURL, ur_Version = rg_Version reg, ur_LastUpdated = rg_LastUpdated reg, ur_Servers = images @ remotes\<rparr> \<and>
    list_all2 (\<lambda>(name, m) sj. ServerJSONToImageMetadata C url_port (Some sj) = Inr (image_canonical C name (the m))) (rg_Servers reg) images \<and>
    list_all2 (\<lambda>(name, m) sj. ServerJSONToRemoteServerMetadata (Some sj) = Inr ((the m)\<lparr>rm_Base := base_canonical name (rm_Base (the m))\<rparr>))
      (rg_RemoteServers reg) remotes"
proof -
  let ?f = "\<lambda>(name, m). map_err (ConvertServer name) (ImageMetadataToServerJSON C name m)"
  let ?P = "\<lambda>(name, m) sj. ServerJSONToImageMetadata C url_port (Some sj) = Inr (image_canonical C name (the m))"
  let ?g = "\<lambda>(name, m). map_err (ConvertRemote name) (RemoteServerMetadataToServerJSON C name m)"
  let ?Q = "\<lambda>(name, m) sj. ServerJSONToRemoteServerMetadata (Some sj) = Inr ((the m)\<lparr>rm_Base := base_canonical name (rm_Base (the m))\<rparr>)"
  have f: "\<exists>y. ?f (name, Some m) = Inr y \<and> ?P (name, Some m) y" if "name \<noteq> []" "wf_image_metadata m" for name m
    using bindE_Inr_ex [OF image_through [OF that assms(3,4), of C]] by (auto simp: map_err_def)
  have g: "\<exists>y. ?g (name, Some m) = Inr y \<and> ?Q (name, Some m) y" if "name \<noteq> []" "wf_remote_metadata m" for name m
    using bindE_Inr_ex [OF remote_through [OF that, of C]] by (auto simp: map_err_def)
  obtain images where "traverse ?f (rg_Servers reg) = Inr images" "list_all2 ?P (rg_Servers reg) images"
    using traverse_list_all2 [of ?f ?P "rg_Servers reg"] assms(1) f by (fastforce simp: list_all_iff split: option.splits)
  moreover obtain remotes where "traverse ?g (rg_RemoteServers reg) = Inr remotes" "list_all2 ?Q (rg_RemoteServers reg) remotes"
    using traverse_list_all2 [of ?g ?Q "rg_RemoteServers reg"] assms(2) g by (fastforce simp: list_all_iff split: option.splits)
  ultimately show ?thesis
    by (intro exI [of _ images] exI [of _ remotes]) (simp add: NewUpstreamRegistryFromToolhiveRegistry_def)
qed

definition sample_consts :: upstream_consts where
  "sample_consts = \<lparr>uc_SchemaURL = ''schema'', uc_RegistryTypeOCI = ''oci'', uc_ArgumentTypeNamed = ''named'', uc_TransportTypeStdio = ''stdio'',
     uc_TransportTypeStreamableHTTP = ''streamable-http'', uc_TransportTypeSSE = ''sse''\<rparr>"

definition sample_url_port :: "string \<Rightarrow> string option" where
  "sample_url_port s = (if prefix ''http://localhost:'' s then Some (drop 17 s) else Some [])"

definition sample_base :: BaseServerMetadata where
  "sample_base = \<lparr>bs_Name = [], bs_Title = ''Fetch'', bs_Description = ''d'', bs_Tier = ''Official'', bs_Status = [], bs_Transport = ''sse'',
     bs_Stateless = True, bs_Tools = Some [''fetch''], bs_Metadata = None, bs_RepositoryURL = ''https://r'', bs_Tags = None, bs_Overview = [],
     bs_ToolDefinitions = None, bs_CustomMetadata = None\<rparr>"

definition sample_image :: ImageMetadata where
  "sample_image = \<lparr>ig_Base = sample_base, ig_Image = ''img'', ig_TargetPort = 8080, ig_ProxyPort = 9090, ig_Permissions = None,
     ig_EnvVars = Some [Some \<lparr>ev_Name = ''TOKEN'', ev_Description = [], ev_Required = True, ev_Default = [], ev_Secret = True\<rparr>],
     ig_Args = Some [''--x''], ig_DockerTags = None, ig_Provenance = None\<rparr>"

definition sample_remote :: RemoteServerMetadata where
  "sample_remote = \<lparr>rm_Base = sample_base, rm_URL = ''https://u'', rm_ProxyPort = 0,
     rm_Headers = Some [Some \<lparr>hd_Name = ''X'', hd_Description = [], hd_Required = False, hd_Default = [], hd_Secret = True, hd_Choices = Some [''a'']\<rparr>],
     rm_OAuthConfig = None, rm_EnvVars = None\<rparr>"

definition sample_registry :: Registry where
  "sample_registry = \<lparr>rg_Version = ''1'', rg_LastUpdated = ''now'', rg_Servers = [(''fetch'', Some sample_image)],
     rg_RemoteServers = [(''far'', Some sample_remote)], rg_Groups = None\<rparr>"

lemmas sample_defs = sample_consts_def sample_url_port_def sample_base_def sample_image_def sample_remote_def sample_registry_def

theorem registry_round_trip_witness:
  "\<exists>image remote. NewUpstreamRegistryFromToolhiveRegistry sample_consts (Some sample_registry) =
      Inr \<lparr>ur_Schema = UpstreamRegistrySchemaURL, ur_Version = ''1'', ur_LastUpdated = ''now'', ur_Servers = [image, remote]\<rparr> \<and>
    ServerJSONToImageMetadata sample_consts sample_url_port (Some image) =
      Inr (sample_image\<lparr>ig_Base := sample_base\<lparr>bs_Name := ''io.github.stacklok/fetch'', bs_Status := ''active''\<rparr>\<rparr>) \<and>
    ServerJSONToRemoteServerMetadata (Some remote) =
      Inr (sample_remote\<lparr>rm_Base := sample_base\<lparr>bs_Name := ''io.github.stacklok/far'', bs_Status := ''active''\<rparr>\<rparr>)"
proof -
  have "sample_url_port (''http://localhost:'' @ show_nat n) = Some (show_nat n)" for n by (simp add: sample_defs)
  moreover have "list_all (\<lambda>(name, m). name \<noteq> [] \<and> (case m of None \<Rightarrow> False | Some m \<Rightarrow> wf_image_metadata m)) (rg_Servers sample_registry)"
    by (simp add: sample_defs wf_image_metadata_def image_extensions_def wf_ServerExtensions_def zero_ServerExtensions_def elems_def
        valid_utf8_ascii max_int64_def)
  moreover have "list_all (\<lambda>(name, m). name \<noteq> [] \<and> (case m of None \<Rightarrow> False | Some m \<Rightarrow> wf_remote_metadata m)) (rg_RemoteServers sample_registry)"
    by (simp add: sample_defs wf_remote_metadata_def remote_extensions_def wf_ServerExtensions_def zero_ServerExtensions_def elems_def
        valid_utf8_ascii)
  moreover have "sample_url_port ''http://localhost'' = Some []" by (simp add: sample_defs)
  ultimately show ?thesis
    using registry_round_trip [of sample_registry sample_url_port sample_consts]
    by (auto simp: list_all2_Cons1 sample_defs image_canonical_def base_canonical_def canonical_name_def BuildReverseDNSName_def)
qed

end
