(* ===== verification/Registry_Schema.thy ===== *)
theory Registry_Schema
  imports Registry_Convert
begin

text \<open>
  Validation of registry documents against the embedded schemas (\<open>registry/types/schema_validation.go\<close>).

  A document is \<open>None\<close> if its bytes are not JSON. The schema library and the embedded files are the parameters \<open>schema_lib\<close>; errors are
  their messages, as the code joins them. The files are embedded at build time, so the bytes cached by \<open>sync.Once\<close> are a constant.
\<close>

section \<open>The schema library\<close>

type_synonym doc = "json option"

record ('l, 'c) schema_lib =
  sb_ReadFile :: "string \<Rightarrow> (string, string) result"
  sb_NewSchemaLoader :: 'l
  sb_AddSchemas :: "'l \<Rightarrow> string \<Rightarrow> (string, 'l) result"
  sb_Compile :: "'l \<Rightarrow> string \<Rightarrow> (string, 'c) result"
  sb_Validate :: "'c \<Rightarrow> doc \<Rightarrow> (string, bool \<times> string list) result"

definition referencedSchemas :: "string list" where
  "referencedSchemas = [''data/server.schema.json'', ''data/skill.schema.json'', ''data/plugin.schema.json'']"

definition ensurePreloaded :: "('l, 'c) schema_lib \<Rightarrow> (string, string list) result" where
  "ensurePreloaded L =
     traverse (\<lambda>path. map_err (\<lambda>e. ''failed to read embedded referenced schema '' @ path @ '': '' @ e) (sb_ReadFile L path)) referencedSchemas"

section \<open>Messages\<close>

fun number_lines :: "nat \<Rightarrow> string list \<Rightarrow> string" where
  "number_lines i [] = []"
| "number_lines i (m # ms) = ''  '' @ show_nat i @ ''. '' @ m @ [CHR 10] @ number_lines (i + 1) ms"

definition formatNumberedErrors :: "string \<Rightarrow> string list \<Rightarrow> string option" where
  "formatNumberedErrors pre msgs =
     (if msgs = [] then None
      else if length msgs = 1 then Some (pre @ '': '' @ msgs ! 0)
      else Some (trim_suffix (pre @ '' with '' @ show_nat (length msgs) @ '' errors:'' @ [CHR 10] @ number_lines 1 msgs) [CHR 10]))"

section \<open>One document against one schema\<close>

definition add_referenced :: "('l, 'c) schema_lib \<Rightarrow> string \<Rightarrow> string \<Rightarrow> string list \<Rightarrow> (string, 'l) result" where
  "add_referenced L schemaFile errPrefix preloaded =
     fold (\<lambda>(refPath, bytes) sl.
         bindE sl (\<lambda>sl.
           if refPath = schemaFile then Inr sl
           else map_err (\<lambda>e. errPrefix @ '': failed to preload referenced schema: '' @ e) (sb_AddSchemas L sl bytes)))
       (zip referencedSchemas preloaded) (Inr (sb_NewSchemaLoader L))"

definition compile_schema :: "('l, 'c) schema_lib \<Rightarrow> string \<Rightarrow> string \<Rightarrow> (string, 'c) result" where
  "compile_schema L schemaFile errPrefix =
     bindE (map_err (\<lambda>e. errPrefix @ '': '' @ e) (ensurePreloaded L)) (\<lambda>preloaded.
       bindE (map_err (\<lambda>e. ''failed to read embedded schema '' @ schemaFile @ '': '' @ e) (sb_ReadFile L schemaFile)) (\<lambda>schemaData.
         bindE (add_referenced L schemaFile errPrefix preloaded) (\<lambda>sl.
           map_err (\<lambda>e. errPrefix @ '': '' @ e) (sb_Compile L sl schemaData))))"

definition validateAgainstSchema :: "('l, 'c) schema_lib \<Rightarrow> doc \<Rightarrow> string \<Rightarrow> string \<Rightarrow> string option" where
  "validateAgainstSchema L data schemaFile errPrefix =
     (case bindE (compile_schema L schemaFile errPrefix) (\<lambda>compiled. map_err (\<lambda>e. errPrefix @ '': '' @ e) (sb_Validate L compiled data)) of
        Inl e \<Rightarrow> Some e
      | Inr (valid, msgs) \<Rightarrow> if valid then None else formatNumberedErrors errPrefix msgs)"

definition ValidatePublisherProvidedExtensionsBytes :: "('l, 'c) schema_lib \<Rightarrow> doc \<Rightarrow> string option" where
  "ValidatePublisherProvidedExtensionsBytes L extensionsData =
     validateAgainstSchema L extensionsData ''data/publisher-provided.schema.json''
       ''publisher-provided extensions schema validation failed''"



definition ServerExtensions_Validate :: "('l, 'c) schema_lib \<Rightarrow> (tool_err \<Rightarrow> string) \<Rightarrow> ServerExtensions \<Rightarrow> string option" where
  "ServerExtensions_Validate L show_err e =
     (case ServerExtensions_Marshal e of
        Inl err \<Rightarrow> Some (''failed to serialize server extensions: '' @ show_err err)
      | Inr data \<Rightarrow>
          validateAgainstSchema L (Some data) ''data/publisher-provided.schema.json''
            ''publisher-provided extensions schema validation failed'')"

section \<open>The extensions of servers\<close>

definition getServerName :: "(string \<times> json) list \<Rightarrow> nat \<Rightarrow> string" where
  "getServerName server index =
     (case map_of server ''name'' of
        Some (JStr name) \<Rightarrow> if name \<noteq> [] then name else ''servers['' @ show_nat index @ '']''
      | _ \<Rightarrow> ''servers['' @ show_nat index @ '']'')"

definition PublisherProvidedKey :: string where
  "PublisherProvidedKey = ''io.modelcontextprotocol.registry/publisher-provided''"

text \<open>The extensions object of a server, if it has one. A decoded value can always be encoded again.\<close>

definition publisher_provided :: "(string \<times> json) list \<Rightarrow> (string \<times> json) list option" where
  "publisher_provided server =
     (case map_of server ''_meta'' of
        Some (JObj meta) \<Rightarrow> (case map_of meta PublisherProvidedKey of Some (JObj m) \<Rightarrow> Some m | _ \<Rightarrow> None)
      | _ \<Rightarrow> None)"

definition validateServerExtensions :: "('l, 'c) schema_lib \<Rightarrow> (string \<times> json) list \<Rightarrow> string \<Rightarrow> string option" where
  "validateServerExtensions L server serverName =
     (case publisher_provided server of
        None \<Rightarrow> None
      | Some publisherProvided \<Rightarrow>
          map_option (\<lambda>e. ''server '' @ serverName @ '': '' @ e)
            (ValidatePublisherProvidedExtensionsBytes L (Some (enc_any (JObj publisherProvided)))))"




text \<open>\<open>json.Unmarshal\<close> into a \<open>map[string]any\<close>; \<open>parse_err\<close> is the message of its error.\<close>

definition unmarshal_map :: "doc \<Rightarrow> (string \<times> json) list option" where
  "unmarshal_map d =
     (case d of
        None \<Rightarrow> None
      | Some j \<Rightarrow> (case dec_map JNull dec_iface j None of (m, Fine) \<Rightarrow> Some (elems m) | _ \<Rightarrow> None))"




definition ValidateServerJSON :: "('l, 'c) schema_lib \<Rightarrow> (doc \<Rightarrow> string) \<Rightarrow> doc \<Rightarrow> bool \<Rightarrow> string option" where
  "ValidateServerJSON L parse_err serverData validateExtensions =
     (case unmarshal_map serverData of
        None \<Rightarrow> Some (''invalid server JSON: '' @ parse_err serverData)
      | Some server \<Rightarrow> if \<not> validateExtensions then None else validateServerExtensions L server (getServerName server 0))"

section \<open>What validation accepts\<close>

lemma formatNumberedErrors_None [simp]: "formatNumberedErrors pre msgs = None \<longleftrightarrow> msgs = []"
  by (simp add: formatNumberedErrors_def)

text \<open>The numbered list has one line for each message, after the heading.\<close>

lemma number_lines_count:
  "list_all (\<lambda>m. CHR 10 \<notin> set m) ms \<Longrightarrow> count_list (number_lines i ms) (CHR 10) = length ms"
proof (induction ms arbitrary: i)
  case (Cons m ms)
  have "count_list (show_nat i) (CHR 10) = 0"
    using show_nat_digits [of "CHR 10" i] by (auto simp: count_list_0_iff is_digit_def)
  then show ?case using Cons by simp
qed simp























text \<open>Without the flag, any object is accepted: no schema is consulted for the server itself.\<close>

lemma server_json_unchecked: "ValidateServerJSON L parse_err (Some (JObj m)) False = None"
  by (simp add: ValidateServerJSON_def unmarshal_map_def dec_map_any)

end
