(* ===== verification/Spec2Isabelle.thy ===== *)
theory Spec2Isabelle
  imports
    Go_Prelude Go_Errors Go_Path Validation
    Oci_Artifact Oci_Store Skill_Dir Skill_Package Skill_Registry Plugin_Dir Plugin_Package
    Audit_Trail
    Net_Mask Net_Addr Net_Host Net_Client Net_Fetch Net_Port
    Permissions
    Authn_Config Authn_Token Authn_Keys Authn_Refresh Authn_Validate Authn_Setup
    Mcp_Server Mcp_Session Mcp_Race Mcp_Dispatch Mcp_Http Mcp_KeepAlive
    Go_Json Mcp_Content Mcp_Tools Mcp_Messages
    Client_Errors Mcp_Client
    Go_Codec Registry_Types Registry_Convert Registry_Schema
begin

text \<open>
  A verification development for toolhive-core, the Go library shared by the ToolHive projects.

  \<^bold>\<open>The program.\<close> toolhive-core is a set of packages. The development models the ones that carry logic of
  their own:

  \<^item> \<open>oci/artifact\<close>: reproducible tar and gzip archives, their extraction under limits, and a target wrapper
    that checks every pushed blob and manifest. Skills and plugins are packed on top of it.
  \<^item> \<open>oci/skills\<close>: a local store of OCI content, the packager that turns a skill directory into an image index in that store, and
    the client that moves such images to and from a registry. \<open>oci/plugins\<close> does the same for plugin directories, with a JSON manifest.
  \<^item> \<open>audit\<close>: audit events and the delegation chain of a token's act claim, with a cap on its length.
  \<^item> \<open>networking\<close>: classification of private addresses, the guard that runs on every dialled address, URL
    validation, the HTTP client builder, JSON fetching, and port selection. It reads its environment through \<open>env\<close>.
  \<^item> \<open>permissions\<close>: permission profiles and the parser of mount declarations.
  \<^item> \<open>authn\<close>: a validator of bearer JWTs. It checks its configuration, discovers the issuer's key URL, keeps a key set that is
    refreshed at a bounded rate, and verifies tokens against it or against an in-process key provider. Its HTTP client is built
    with \<open>networking\<close>.
  \<^item> \<open>mcpcompat/server\<close>: an MCP server with the API of an older library on top of another SDK. An HTTP request enters
    \<open>StreamableHTTPServer.ServeHTTP\<close>, passes the call gate, is routed by its session ID to the SDK's local handler or to a
    rehydrated session, and reaches the dispatch middleware, which binds the client session, fires the
    hooks and calls the host's handler.
  \<^item> \<open>mcpcompat/mcp\<close>: the messages of the protocol, with custom JSON encoders and decoders, shared by server and client.
  \<^item> \<open>mcpcompat/client\<close>: the client side. It connects, or resumes a session it did not start, sends requests, and classifies failures by
    the HTTP responses its transport saw.
  \<^item> \<open>registry\<close>: the registry data model, its conversion to and from the upstream server format, and the validation of documents
    against embedded schemas. What the upstream format has no field for travels as an untyped map in the publisher extensions.
  \<^item> \<open>validation\<close>, \<open>httperr\<close>: validators of headers, URIs and group names, and errors with status codes.

  \<^bold>\<open>Conventions.\<close> A Go string is a byte string (\<^typ>\<open>string\<close>). A result with an error is a sum whose left side
  is an error datatype with one constructor per error of the source; a nil error alone is an option. A panic is \<open>None\<close>.
  Go maps are functions to options, or association lists where iteration order matters. Objects shared by pointer live in a
  store indexed by address. Machine arithmetic is on words, or on integers with \<open>wrap64\<close> written
  out. Code outside the repository (the MCP SDK, httpguts, go-digest, the resolver, files, JSON) is an argument of the definitions
  that call it; what a theorem relies on is one of its hypotheses, and its witness instantiates it. Every
  definition is executable and needs no fuel: loops are structural recursions over the data or the attempt count, but for the scan of
  a WWW-Authenticate header, a \<open>partial_function\<close> proved to return on every input. The two
  concurrent parts are inductive step relations.

  \<^bold>\<open>Theories.\<close>

  \<^item> \<open>Go_Prelude\<close>: the parts of Go's strings, strconv and fmt that the packages use, results, association-list
    maps, and their lemmas (splitting and joining, decimal round trip, case folding).
  \<^item> \<open>Go_Errors\<close> (\<open>httperr/httperr.go\<close>, \<open>networking/http_error.go\<close>): error chains and \<open>errors.As\<close>; the locale \<open>error_target\<close> states that
    wrapping and joining are transparent, and both error types of the repository interpret it.
  \<^item> \<open>Go_Path\<close>: \<open>path.Clean\<close>, its normal form and idempotence, and when a path escapes its root.
  \<^item> \<open>Validation\<close> (\<open>validation/http/http.go\<close>, \<open>validation/group/group.go\<close>): acceptance is characterised exactly; validated
    headers cannot inject a line.
  \<^item> \<open>Oci_Artifact\<close> (\<open>tar.go\<close>, \<open>gzip.go\<close>, \<open>validate.go\<close>, \<open>platform.go\<close> of \<open>oci/artifact\<close>): safety of extracted paths and sizes, the
    round trips through tar and tar.gz, reproducibility, the limits of decompression, the push check.
  \<^item> \<open>Oci_Store\<close> (\<open>oci/skills/store.go\<close>): the store over a layout whose file system is explicit; round trips of blobs and manifests,
    confinement of deletion to the blob directory, and exactly what the deletion of a build removes.
  \<^item> \<open>Skill_Dir\<close> and \<open>Skill_Package\<close> (\<open>oci/skills/packager.go\<close>, \<open>mediatypes.go\<close>): the walk over a skill directory collects exactly its visible files;
    the packaged index is complete in the store, reproducible, and its layer and metadata give back the directory.
  \<^item> \<open>Skill_Registry\<close> (\<open>oci/skills/registry.go\<close>): push and pull; a pull stores only content that matches its digest and limits.
  \<^item> \<open>Plugin_Dir\<close> and \<open>Plugin_Package\<close> (\<open>oci/plugins/packager.go\<close>, \<open>mediatypes.go\<close>): the walk over a plugin directory collects exactly the files to package;
    the package is complete in the store, and gives back its configuration and its files with their permissions. Any walk whose callback
    decides on directories alone visits the events \<open>met\<close> lists, in order.
  \<^item> \<open>Audit_Trail\<close> (\<open>audit/delegation.go\<close>, \<open>event.go\<close>, \<open>logger.go\<close>): parsing of the act claim equals a reference that flattens first and cuts
    afterwards; log records never show the extra claims of a hop.
  \<^item> \<open>Net_Mask\<close>, \<open>Net_Addr\<close>, \<open>Net_Host\<close> (\<open>networking/utilities.go\<close>): masks as byte ranges, the block lists parsed from the source's
    strings, equality of \<open>IsPrivateIP\<close> with a reference classification by ranges, and the dial guard, which fails closed.
  \<^item> \<open>Net_Client\<close> (\<open>env/env.go\<close>, \<open>networking/http_client.go\<close>, the URL validators): the locale \<open>env_reader\<close>, redirect chains, and what a
    built client can send and dial.
  \<^item> \<open>Net_Fetch\<close> (\<open>networking/fetch.go\<close>) and \<open>Net_Port\<close> (\<open>networking/port.go\<close>): the fetch as a function of the server's answer;
    ports and listeners in a world that may change between two probes. The search loops recurse on the
    attempts left (\<open>MaxAttempts\<close>) and on the ports left.
  \<^item> \<open>Permissions\<close> (\<open>permissions/profile.go\<close>): every accepted declaration is clean and free of shell characters; the documented forms parse
    as documented.
  \<^item> \<open>Authn_Config\<close> and \<open>Authn_Token\<close> (\<open>authn/authn.go\<close>, \<open>authn/http.go\<close>, \<open>authn/errors.go\<close>): which configurations are accepted, what the validator's HTTP client can
    do, exact acceptance of bearer headers, and the classes of errors.
  \<^item> \<open>Authn_Keys\<close> and \<open>Authn_Refresh\<close> (\<open>authn/validate.go\<close>, \<open>authn/authn.go\<close>): the key filters of the two key sources and their agreement; runs of lookups
    over time, with the refresh floor and the bounded negative cache.
  \<^item> \<open>Authn_Validate\<close> and \<open>Authn_Setup\<close>: the whole of \<open>Validate\<close>, sound (the signature, and every check of the claims the configuration asks for) and fail-closed; discovery, construction and closing of a validator.
  \<^item> \<open>Mcp_Server\<close> (\<open>server.go\<close>): registration, options, schema normalisation, and when a session server can be built.
  \<^item> \<open>Mcp_Session\<close> (\<open>session.go\<close>, \<open>hooks.go\<close>): the session store and registries; an invariant over all
    sequences of operations, the contract \<open>session_registry\<close>, and the refinement of overlay replacement to a set of offered tools.
  \<^item> \<open>Go_Json\<close>: \<open>encoding/json\<close> on document trees: UTF-8 repair, integers read as float64, maps, decoding of struct members with Go's error
    discipline, and the lemmas that turn an encoder and a decoder of each member into a round trip.
  \<^item> \<open>Mcp_Content\<close>, \<open>Mcp_Tools\<close>, \<open>Mcp_Messages\<close> (\<open>content.go\<close>, \<open>tools.go\<close>, \<open>jsonrpc.go\<close> and their neighbours in \<open>mcpcompat/mcp\<close>): round trips of contents, schemas,
    tools, results, identifiers and notifications, and the typing of decoded contents.
  \<^item> \<open>Client_Errors\<close> (\<open>rfc9728.go\<close>, \<open>errorbody.go\<close>, \<open>errors.go\<close>, \<open>transport/errors.go\<close> of \<open>mcpcompat/client\<close>): the challenge parser returns on every header and inverts
    printing; a failure is classified by the first failing response.
  \<^item> \<open>Mcp_Client\<close> (\<open>client.go\<close>, \<open>resume.go\<close>, \<open>transport\<close>): the client's life cycle, the watch for a lost connection over all sequences of
    operations, the headers of the built HTTP client, and the answer of a resumed call in an event stream with any other lines.
  \<^item> \<open>Go_Codec\<close>: struct decoders as field tables; the locale \<open>json_codec\<close> of types that survive the detour through \<open>map[string]any\<close>, with its
    lemmas for pointers and slices.
  \<^item> \<open>Registry_Types\<close> (\<open>registry_types.go\<close>, \<open>publisher_provided_types.go\<close>): the data model; every struct of the extensions interprets \<open>json_codec\<close>.
  \<^item> \<open>Registry_Convert\<close> (\<open>registry/converters\<close>): both conversions and the round trip of whole registries.
  \<^item> \<open>Registry_Schema\<close> (\<open>schema_validation.go\<close>): exactly which registry, skill and plugin documents are accepted, in terms of paths in the document and the embedded schemas.
  \<^item> \<open>Mcp_Race\<close>: interleaved calls of \<open>sessionFor\<close>.
  \<^item> \<open>Mcp_Dispatch\<close> (\<open>server.go\<close>): the context bridge, session binding, middleware and handler adapters.
  \<^item> \<open>Mcp_Http\<close> (\<open>transports.go\<close>, \<open>callgate.go\<close>): the routing of requests; served sessions were validated, deletion is
    complete, the gate decides before any state changes.
  \<^item> \<open>Mcp_KeepAlive\<close> (\<open>keepalive.go\<close>): handler, ticker and teardown interleaved.

  \<^bold>\<open>Interfaces.\<close> \<open>error_target\<close>, \<open>env_reader\<close>, \<open>session_registry\<close> and \<open>json_codec\<close> are locales; each is interpreted on the
  model's definitions in the theory that provides them.

  \<^bold>\<open>Not modelled.\<close> Wrappers of external engines (CEL, sigstore, OpenTelemetry, database drivers), generated mocks, the store and the registry client of
  \<open>oci/plugins\<close> (the code of \<open>oci/skills\<close> with a mutex around the mutating operations), YAML decoding, and process-level I/O (starting and stopping listeners, stdio, the legacy SSE transport).
\<close>

end
